(* ===== verification/Prelude.thy ===== *)
theory Prelude
  imports Complex_Main "HOL-Library.Word"
begin

text \<open>
  What the components of the development share.

  Character strings are HOL strings that stand for the bytes in front of the
  terminating NUL of a C string; the functions of \<open><string.h>\<close> the program calls
  (strcmp, strcasecmp, strchr, strstr) are written here once.  \<open>strcmp\<close> and
  \<open>strcasecmp\<close> return the sign of the C result, which is all the C standard
  promises about it.  The C locale's character classes are ASCII.

  The collections \<open>c_string\<close> and \<open>list_ops\<close> gather the facts about these functions and
  about list updates that the component proofs use.
\<close>

unbundle bit_operations_syntax

named_theorems c_string \<open>facts about the C string functions\<close>
named_theorems list_ops \<open>facts about list surgery: insertion, removal, splitting\<close>

section \<open>Bytes and characters\<close>

type_synonym byte = "8 word"
type_synonym bytes = "8 word list"

definition byte_of_char :: "char \<Rightarrow> byte" where
  "byte_of_char c = word_of_nat (of_char c)"

definition char_of_byte :: "byte \<Rightarrow> char" where
  "char_of_byte w = char_of (unat w)"

lemma char_code_less: "(of_char c :: nat) < 256"
  by simp

lemma unat_byte_of_char [simp]: "unat (byte_of_char c) = of_char c"
  by (simp add: byte_of_char_def unat_of_nat take_bit_nat_eq_self)

lemma byte_char_inverse [simp]: "char_of_byte (byte_of_char c) = c"
  by (simp add: char_of_byte_def)

lemma char_byte_inverse [simp]: "byte_of_char (char_of_byte w) = w"
  using unsigned_less [of w, where ?'a = nat]
  by (simp add: char_of_byte_def byte_of_char_def take_bit_nat_eq_self)

definition bytes_of :: "string \<Rightarrow> bytes" where
  "bytes_of s = map byte_of_char s"

definition string_of :: "bytes \<Rightarrow> string" where
  "string_of bs = map char_of_byte bs"

lemma string_of_bytes_of [simp]: "string_of (bytes_of s) = s"
  by (simp add: string_of_def bytes_of_def o_def)

lemma bytes_of_string_of [simp]: "bytes_of (string_of bs) = bs"
  by (simp add: string_of_def bytes_of_def o_def)

lemma byte_eq_iff: "(a :: byte) = b \<longleftrightarrow> (bit a 0 = bit b 0) \<and> (bit a 1 = bit b 1) \<and> (bit a 2 = bit b 2)
    \<and> (bit a 3 = bit b 3) \<and> (bit a 4 = bit b 4) \<and> (bit a 5 = bit b 5) \<and> (bit a 6 = bit b 6)
    \<and> (bit a 7 = bit b 7)"
    (is "_ \<longleftrightarrow> ?bits")
proof
  assume ?bits
  show "a = b"
  proof (rule bit_word_eqI)
    fix n
    assume "n < LENGTH(8)"
    then show "bit a n = bit b n" using \<open>?bits\<close> by (elim conjE) (auto simp: less_Suc_eq numeral_eq_Suc)
  qed
qed simp

lemma byte_masks:
  "bit (0x3f :: byte) n \<longleftrightarrow> n < 6" "bit (0xf :: byte) n \<longleftrightarrow> n < 4" "bit (0x3 :: byte) n \<longleftrightarrow> n < 2"
proof -
  have "(0x3f :: byte) = mask 6" "(0xf :: byte) = mask 4" "(0x3 :: byte) = mask 2"
    by (simp_all add: mask_eq_exp_minus_1)
  then show "bit (0x3f :: byte) n \<longleftrightarrow> n < 6" "bit (0xf :: byte) n \<longleftrightarrow> n < 4" "bit (0x3 :: byte) n \<longleftrightarrow> n < 2"
    by (auto simp only: bit_mask_iff possible_bit_word) auto
qed

section \<open>The functions of string.h and ctype.h\<close>

fun cmp_codes :: "nat list \<Rightarrow> nat list \<Rightarrow> int" where
  "cmp_codes [] [] = 0"
| "cmp_codes [] (_ # _) = - 1"
| "cmp_codes (_ # _) [] = 1"
| "cmp_codes (a # as) (b # bs) =
    (if a < b then - 1 else if b < a then 1 else cmp_codes as bs)"

definition to_lower :: "char \<Rightarrow> char" where
  "to_lower c = (let n = (of_char c :: nat) in
    if 65 \<le> n \<and> n \<le> 90 then char_of (n + 32) else c)"

definition strcmp :: "string \<Rightarrow> string \<Rightarrow> int" where
  "strcmp a b = cmp_codes (map of_char a) (map of_char b)"

definition strcasecmp :: "string \<Rightarrow> string \<Rightarrow> int" where
  "strcasecmp a b = cmp_codes (map (of_char \<circ> to_lower) a) (map (of_char \<circ> to_lower) b)"

definition is_space :: "char \<Rightarrow> bool" where
  "is_space c = (let n = (of_char c :: nat) in n = 32 \<or> 9 \<le> n \<and> n \<le> 13)"

definition is_digit :: "char \<Rightarrow> bool" where
  "is_digit c = (let n = (of_char c :: nat) in 48 \<le> n \<and> n \<le> 57)"

lemma cmp_codes_eq_0 [c_string]: "cmp_codes a b = 0 \<longleftrightarrow> a = b"
  by (induction a b rule: cmp_codes.induct) auto

lemma cmp_codes_antisym: "cmp_codes b a = - cmp_codes a b"
  by (induction a b rule: cmp_codes.induct) auto

lemma cmp_codes_trans: "\<lbrakk>cmp_codes a b < 0; cmp_codes b c < 0\<rbrakk> \<Longrightarrow> cmp_codes a c < 0"
proof (induction a b arbitrary: c rule: cmp_codes.induct)
  case (4 a as b bs)
  show ?case
  proof (cases c)
    case Nil
    then show ?thesis using "4.prems" by simp
  next
    case (Cons x xs)
    then show ?thesis using "4.IH" [of xs] "4.prems"
      by (cases "a < b"; cases "b < a"; cases "b < x"; cases "x < b") simp_all
  qed
next
  case (2 b bs)
  then show ?case by (cases c) auto
qed auto

lemma strcmp_eq_0 [c_string]: "strcmp a b = 0 \<longleftrightarrow> a = b"
  by (simp add: strcmp_def cmp_codes_eq_0 inj_map_eq_map inj_def)

lemma strcmp_refl [simp]: "strcmp a a = 0"
  by (simp add: strcmp_eq_0)

lemma strcmp_antisym: "strcmp b a = - strcmp a b"
  unfolding strcmp_def by (rule cmp_codes_antisym)

lemma strcmp_trans: "\<lbrakk>strcmp a b < 0; strcmp b c < 0\<rbrakk> \<Longrightarrow> strcmp a c < 0"
  unfolding strcmp_def by (rule cmp_codes_trans)

lemma strcasecmp_eq_0: "strcasecmp a b = 0 \<longleftrightarrow> map to_lower a = map to_lower b"
proof -
  have "map (of_char \<circ> to_lower) a = map (of_char :: char \<Rightarrow> nat) (map to_lower a)" for a
    by simp
  then show ?thesis
    unfolding strcasecmp_def cmp_codes_eq_0 by (simp add: inj_map_eq_map inj_def del: map_map)
qed

lemma strcasecmp_antisym: "strcasecmp b a = - strcasecmp a b"
  unfolding strcasecmp_def by (rule cmp_codes_antisym)

lemma strcasecmp_trans: "\<lbrakk>strcasecmp a b < 0; strcasecmp b c < 0\<rbrakk> \<Longrightarrow> strcasecmp a c < 0"
  unfolding strcasecmp_def by (rule cmp_codes_trans)

lemma strcasecmp_refl [simp]: "strcasecmp a a = 0"
  by (simp add: strcasecmp_eq_0)

lemma strcasecmp_sym_0: "strcasecmp a b = 0 \<longleftrightarrow> strcasecmp b a = 0"
  by (auto simp: strcasecmp_eq_0)

lemma strcasecmp_trans_0: "\<lbrakk>strcasecmp a b = 0; strcasecmp b c = 0\<rbrakk> \<Longrightarrow> strcasecmp a c = 0"
  by (auto simp: strcasecmp_eq_0)

section \<open>Evaluating them on the bits of the characters\<close>

lemma to_lower_code [code]:
  "to_lower (Char b0 b1 b2 b3 b4 b5 b6 b7) =
     (if \<not> b5 \<and> b6 \<and> \<not> b7 \<and> (b0 \<or> b1 \<or> b2 \<or> b3 \<or> b4) \<and> \<not> (b4 \<and> b3 \<and> (b2 \<or> b1 \<and> b0))
      then Char b0 b1 b2 b3 b4 True b6 b7 else Char b0 b1 b2 b3 b4 b5 b6 b7)"
  by (cases b0; cases b1; cases b2; cases b3; cases b4; cases b5; cases b6; cases b7)
     (simp_all add: to_lower_def char_of_eq_iff)

lemma is_space_code [code]:
  "is_space (Char b0 b1 b2 b3 b4 b5 b6 b7) \<longleftrightarrow> \<not> b7 \<and> \<not> b6 \<and> \<not> b4 \<and>
     (if b5 then \<not> b3 \<and> \<not> b2 \<and> \<not> b1 \<and> \<not> b0 else b3 \<and> (if b2 then \<not> b1 else b1 \<or> b0))"
  by (cases b0; cases b1; cases b2; cases b3; cases b4; cases b5; cases b6; cases b7) (simp_all add: is_space_def)

primrec char_bits :: "char \<Rightarrow> bool list" where
  "char_bits (Char b0 b1 b2 b3 b4 b5 b6 b7) = [b7, b6, b5, b4, b3, b2, b1, b0]"

fun bits_less :: "bool list \<Rightarrow> bool list \<Rightarrow> bool" where
  "bits_less (a # as) (b # bs) = (if a = b then bits_less as bs else b)"
| "bits_less _ _ = False"

definition bits_value :: "nat \<Rightarrow> bool list \<Rightarrow> nat" where
  "bits_value = foldl (\<lambda>n b. 2 * n + of_bool b)"

lemma bits_value_less: "\<lbrakk>length as = length bs; m < n\<rbrakk> \<Longrightarrow> bits_value m as < bits_value n bs"
  by (induction as bs arbitrary: m n rule: list_induct2) (simp_all add: bits_value_def)

lemma bits_less_value: "length as = length bs \<Longrightarrow> bits_value m as < bits_value m bs \<longleftrightarrow> bits_less as bs"
proof (induction as bs arbitrary: m rule: list_induct2)
  case (Cons a as b bs)
  show ?case
    using Cons bits_value_less [of as bs "2 * m" "2 * m + 1"] bits_value_less [of bs as "2 * m" "2 * m + 1"]
    by (cases a; cases b) (simp_all add: bits_value_def not_less less_imp_le)
qed (simp add: bits_value_def)

lemma of_char_bits: "of_char c = bits_value 0 (char_bits c)"
  by (cases c) (simp add: bits_value_def of_char_def)

lemma of_char_less: "(of_char c :: nat) < of_char d \<longleftrightarrow> bits_less (char_bits c) (char_bits d)"
proof -
  have "length (char_bits c) = length (char_bits d)" by (cases c; cases d) simp
  then show ?thesis by (simp add: of_char_bits bits_less_value)
qed

definition cmp_first :: "char \<Rightarrow> char \<Rightarrow> int \<Rightarrow> int" where
  "cmp_first c d rest = (if c = d then rest else if bits_less (char_bits c) (char_bits d) then - 1 else 1)"

lemma cmp_codes_chars:
  "cmp_codes (of_char c # as) (of_char d # bs) = cmp_first c d (cmp_codes as bs)"
  by (auto simp: cmp_first_def of_char_less [symmetric] less_le)

lemma strcmp_code [code]:
  "strcmp [] [] = 0" "strcmp [] (y # ys) = - 1" "strcmp (x # xs) [] = 1"
  "strcmp (x # xs) (y # ys) = (if x = y then strcmp xs ys else cmp_first x y 0)"
  unfolding strcmp_def list.map cmp_codes_chars by (simp_all add: cmp_first_def)

lemma strcasecmp_code [code]:
  "strcasecmp [] [] = 0" "strcasecmp [] (y # ys) = - 1" "strcasecmp (x # xs) [] = 1"
  "strcasecmp (x # xs) (y # ys) =
     (if to_lower x = to_lower y then strcasecmp xs ys else cmp_first (to_lower x) (to_lower y) 0)"
  unfolding strcasecmp_def list.map comp_def cmp_codes_chars by (simp_all add: cmp_first_def)

section \<open>Searching in strings\<close>

text \<open>strchr, as the index of the first occurrence; strstr, as a test.\<close>

fun strchr :: "string \<Rightarrow> char \<Rightarrow> nat option" where
  "strchr [] _ = None"
| "strchr (x # xs) c = (if x = c then Some 0 else map_option Suc (strchr xs c))"

fun has_prefix :: "'a list \<Rightarrow> 'a list \<Rightarrow> bool" where
  "has_prefix [] _ = True"
| "has_prefix (_ # _) [] = False"
| "has_prefix (p # ps) (x # xs) = (p = x \<and> has_prefix ps xs)"

fun strstr :: "string \<Rightarrow> string \<Rightarrow> bool" where
  "strstr [] needle = (needle = [])"
| "strstr (x # xs) needle = (has_prefix needle (x # xs) \<or> strstr xs needle)"

lemma has_prefix_iff [c_string]: "has_prefix p xs \<longleftrightarrow> (\<exists>ys. xs = p @ ys)"
  by (induction p xs rule: has_prefix.induct) auto

lemma strstr_iff [c_string]: "strstr hay needle \<longleftrightarrow> (\<exists>us vs. hay = us @ needle @ vs)"
proof (induction hay)
  case (Cons x xs)
  have "(\<exists>us vs. x # xs = us @ needle @ vs) \<longleftrightarrow>
        (\<exists>vs. x # xs = needle @ vs) \<or> (\<exists>us vs. xs = us @ needle @ vs)"
    by (metis append_Cons append_Nil list.exhaust_sel list.inject)
  then show ?case by (simp add: Cons has_prefix_iff)
qed auto

section \<open>Binary search\<close>

text \<open>bsearch of the C library between the indices \<open>l\<close> and \<open>u\<close>; \<open>cmp\<close> compares the key with an element.\<close>

function bsearch :: "('a \<Rightarrow> int) \<Rightarrow> 'a list \<Rightarrow> nat \<Rightarrow> nat \<Rightarrow> nat option" where
  "bsearch cmp base l u =
    (if l < u then
       (let idx = (l + u) div 2; c = cmp (base ! idx)
        in if c < 0 then bsearch cmp base l idx
           else if c > 0 then bsearch cmp base (idx + 1) u
           else Some idx)
     else None)"
  by pat_completeness auto
termination by (relation "measure (\<lambda>(cmp, base, l, u). u - l)") auto

declare bsearch.simps [simp del]

lemma bsearch_SomeD: "bsearch cmp a l u = Some i \<Longrightarrow> l \<le> i \<and> i < u \<and> cmp (a ! i) = 0"
  by (induction cmp a l u rule: bsearch.induct) (subst (asm) (3) bsearch.simps, force simp: Let_def split: if_splits)

lemma bsearch_finds:
  assumes "l \<le> i" and "i < u" and "cmp (a ! i) = 0"
    and "\<And>j. j < i \<Longrightarrow> cmp (a ! j) > 0" and "\<And>j. \<lbrakk>i < j; j < u\<rbrakk> \<Longrightarrow> cmp (a ! j) < 0"
  shows "bsearch cmp a l u = Some i"
  using assms
proof (induction cmp a l u rule: bsearch.induct)
  case (1 cmp a l u)
  let ?idx = "(l + u) div 2"
  have idx: "l \<le> ?idx" "?idx < u" using "1.prems" by auto
  have "cmp (a ! ?idx) < 0 \<longleftrightarrow> i < ?idx" and "cmp (a ! ?idx) > 0 \<longleftrightarrow> ?idx < i"
    using "1.prems"(3) "1.prems"(4) [of ?idx] "1.prems"(5) [of ?idx] idx
    by (cases rule: linorder_cases [of i ?idx]; simp)+
  then show ?case
    using "1.IH" "1.prems" idx by (subst bsearch.simps) (auto simp: Let_def not_less)
qed

section \<open>Numbers as text\<close>

fun show_nat :: "nat \<Rightarrow> string" where
  "show_nat n = (if n < 10 then [char_of (48 + n)] else show_nat (n div 10) @ [char_of (48 + n mod 10)])"

declare show_nat.simps [simp del]

definition show_int :: "int \<Rightarrow> string" where
  "show_int i = (if i < 0 then CHR ''-'' # show_nat (nat (- i)) else show_nat (nat i))"

text \<open>\<open>snprintf\<close> into a buffer of \<open>n\<close> bytes.\<close>

definition snprintf :: "nat \<Rightarrow> string \<Rightarrow> string" where
  "snprintf n s = take (n - 1) s"

text \<open>
  strtol: the value and what follows the number, the whole text when there is none.  The type long has 64 bits;
  a number that does not fit gives the nearest bound.
\<close>

definition digit_value :: "char \<Rightarrow> nat" where
  "digit_value c = (let n = of_char c :: nat in
    if 48 \<le> n \<and> n \<le> 57 then n - 48
    else if 65 \<le> n \<and> n \<le> 90 then n - 55
    else if 97 \<le> n \<and> n \<le> 122 then n - 87
    else 255)"

definition LONG_MAX :: int where
  "LONG_MAX = 2 ^ 63 - 1"

definition clamp_long :: "int \<Rightarrow> int" where
  "clamp_long v = max (- LONG_MAX - 1) (min LONG_MAX v)"

definition digits_value :: "nat \<Rightarrow> string \<Rightarrow> int" where
  "digits_value base s = foldl (\<lambda>v c. v * int base + int (digit_value c)) 0 s"

definition strip_sign :: "string \<Rightarrow> bool \<times> string" where
  "strip_sign s = (case s of c # r \<Rightarrow> if c = CHR ''-'' then (True, r) else if c = CHR ''+'' then (False, r) else (False, s)
    | [] \<Rightarrow> (False, []))"

definition strip_prefix :: "nat \<Rightarrow> string \<Rightarrow> nat \<times> string" where
  "strip_prefix base s =
    (if base \<in> {0, 16} \<and> length s \<ge> 3 \<and> s ! 0 = CHR ''0'' \<and> to_lower (s ! 1) = CHR ''x'' \<and> digit_value (s ! 2) < 16
     then (16, drop 2 s)
     else if base = 0 then (if s \<noteq> [] \<and> hd s = CHR ''0'' then 8 else 10, s)
     else (base, s))"

definition strtol :: "nat \<Rightarrow> string \<Rightarrow> int \<times> string" where
  "strtol base s = (let (negative, r) = strip_sign (dropWhile is_space s);
      (base, r) = strip_prefix base r;
      ds = takeWhile (\<lambda>c. digit_value c < base) r;
      v = digits_value base ds
    in if ds = [] then (0, s) else (clamp_long (if negative then - v else v), drop (length ds) r))"

text \<open>atoi keeps the low 32 bits of it.\<close>

definition atoi :: "string \<Rightarrow> int" where
  "atoi s = (fst (strtol 10 s) + 2 ^ 31) mod 2 ^ 32 - 2 ^ 31"

text \<open>A number that is printed is read back, as far as it fits.\<close>

lemma digit_value_digit: "k < 10 \<Longrightarrow> digit_value (char_of (48 + k)) = k"
  by (simp add: digit_value_def)

lemma digits_value_snoc: "digits_value b (ds @ [d]) = digits_value b ds * int b + int (digit_value d)"
  by (simp add: digits_value_def)

lemma show_nat_digits: "list_all (\<lambda>c. digit_value c < 10) (show_nat n)"
proof (induction n rule: show_nat.induct)
  case (1 n)
  then show ?case by (subst show_nat.simps) (simp add: digit_value_digit)
qed

lemma digits_value_show_nat: "digits_value 10 (show_nat n) = int n"
proof (induction n rule: show_nat.induct)
  case (1 n)
  show ?case
  proof (cases "n < 10")
    case True
    then show ?thesis by (subst show_nat.simps) (simp add: digits_value_def digit_value_digit)
  next
    case False
    then show ?thesis
      using 1 by (subst show_nat.simps) (simp add: digits_value_snoc digit_value_digit, presburger)
  qed
qed

lemma show_nat_ne [simp]: "show_nat n \<noteq> []"
  by (subst show_nat.simps) simp

lemma digit_char: "digit_value c < 10 \<Longrightarrow> \<not> is_space c \<and> c \<noteq> CHR ''-'' \<and> c \<noteq> CHR ''+''"
  by (auto simp: digit_value_def is_space_def Let_def split: if_splits)

lemma strtol_digits:
  assumes "list_all (\<lambda>c. digit_value c < 10) ds" and "ds \<noteq> []" and "pre = [] \<or> pre = ''-''"
  shows "strtol 10 (pre @ ds) = (clamp_long (if pre = [] then digits_value 10 ds else - digits_value 10 ds), [])"
proof -
  obtain d r where ds: "ds = d # r" using assms(2) by (cases ds) auto
  have d: "\<not> is_space d" "d \<noteq> CHR ''-''" "d \<noteq> CHR ''+''" using digit_char [of d] assms(1) ds by auto
  have m: "\<not> is_space (CHR ''-'')" by code_simp
  have "dropWhile is_space (pre @ ds) = pre @ ds" using assms(3) ds d m by auto
  moreover have "strip_sign (pre @ ds) = (pre \<noteq> [], ds)" using assms(3) ds d by (auto simp: strip_sign_def)
  moreover have "strip_prefix 10 ds = (10, ds)" by (simp add: strip_prefix_def)
  moreover have "takeWhile (\<lambda>c. digit_value c < 10) ds = ds"
    using assms(1) by (auto simp: list_all_iff takeWhile_eq_all_conv)
  ultimately show ?thesis using assms(2) by (simp add: strtol_def Let_def del: takeWhile_eq_all_conv)
qed

lemma strtol_show_int: "strtol 10 (show_int n) = (clamp_long n, [])"
  using strtol_digits [OF show_nat_digits [of "nat \<bar>n\<bar>"], of "if n < 0 then ''-'' else []"]
  by (cases "n < 0") (simp_all add: show_int_def digits_value_show_nat)

lemma show_int_hd: "(of_char (to_lower (hd (show_int n))) :: nat) < 58"
proof -
  have "digit_value (hd (show_nat k)) < 10" for k
    using show_nat_digits [of k] by (cases "show_nat k") simp_all
  then have "hd (show_int n) = CHR ''-'' \<or> digit_value (hd (show_int n)) < 10" by (simp add: show_int_def)
  then show ?thesis by (auto simp: digit_value_def to_lower_def Let_def split: if_splits)
qed

lemma number_not_word: "\<lbrakk>(58 :: nat) \<le> of_char (to_lower (hd w)); w \<noteq> []\<rbrakk> \<Longrightarrow> strcasecmp (show_int n) w \<noteq> 0"
  using show_int_hd [of n]
  by (cases "show_int n"; cases w) (auto simp: strcasecmp_eq_0)

section \<open>Weakest preconditions\<close>

text \<open>\<open>wp m Q\<close>: if \<open>m\<close> has a result, it satisfies \<open>Q\<close>.\<close>

definition wp :: "'a option \<Rightarrow> ('a \<Rightarrow> bool) \<Rightarrow> bool" where
  "wp m Q \<longleftrightarrow> (\<forall>x. m = Some x \<longrightarrow> Q x)"

lemma wpD: "\<lbrakk>wp m Q; m = Some x\<rbrakk> \<Longrightarrow> Q x"
  by (simp add: wp_def)

lemma wpI: "(\<And>x. m = Some x \<Longrightarrow> Q x) \<Longrightarrow> wp m Q"
  by (simp add: wp_def)

lemma wp_simps [simp]: "wp None Q" "wp (Some x) Q = Q x" "wp (map_option f m) Q = wp m (\<lambda>x. Q (f x))"
  by (auto simp: wp_def)

lemma wp_mono: "\<lbrakk>wp m P; \<And>x. P x \<Longrightarrow> Q x\<rbrakk> \<Longrightarrow> wp m Q"
  by (simp add: wp_def)

lemma wp_if: "\<lbrakk>b \<Longrightarrow> wp m Q; \<not> b \<Longrightarrow> wp n Q\<rbrakk> \<Longrightarrow> wp (if b then m else n) Q"
  by simp

lemma wp_option: "\<lbrakk>x = None \<Longrightarrow> wp m Q; \<And>y. x = Some y \<Longrightarrow> wp (f y) Q\<rbrakk> \<Longrightarrow> wp (case x of None \<Rightarrow> m | Some y \<Rightarrow> f y) Q"
  by (cases x) auto

lemma wp_list: "\<lbrakk>x = [] \<Longrightarrow> wp m Q; \<And>y ys. x = y # ys \<Longrightarrow> wp (f y ys) Q\<rbrakk> \<Longrightarrow> wp (case x of [] \<Rightarrow> m | y # ys \<Rightarrow> f y ys) Q"
  by (cases x) auto

lemma wp_prod: "(\<And>a b. x = (a, b) \<Longrightarrow> wp (f a b) Q) \<Longrightarrow> wp (case x of (a, b) \<Rightarrow> f a b) Q"
  by (cases x) auto

lemma wp_let: "(\<And>y. y = x \<Longrightarrow> wp (f y) Q) \<Longrightarrow> wp (let y = x in f y) Q"
  by simp

lemma wp_bind: "\<lbrakk>wp m P; \<And>x. P x \<Longrightarrow> wp (f x) Q\<rbrakk> \<Longrightarrow> wp (Option.bind m f) Q"
  by (cases m) auto

lemma wp_bind_any: "(\<And>x. m = Some x \<Longrightarrow> wp (f x) Q) \<Longrightarrow> wp (Option.bind m f) Q"
  by (cases m) auto

section \<open>Lists\<close>

lemma find_SomeD: "List.find P xs = Some x \<Longrightarrow> x \<in> set xs \<and> P x"
  by (induction xs) (auto split: if_splits)

lemma find_None_iff_all: "List.find P xs = None \<longleftrightarrow> (\<forall>x \<in> set xs. \<not> P x)"
  by (induction xs) auto

lemma length_filter_le_Suc [list_ops]: "length (filter P (x # xs)) \<le> Suc (length (filter P xs))"
  by simp

end
