(* ===== verification/Ezxml.thy ===== *)
theory Ezxml
  imports Prelude "HOL-Library.Monad_Syntax"
begin

text \<open>
  The XML parser that reads the user file (\<open>src/src/libezxml/ezxml.c\<close>).

  The C parser works in place: it writes NULs behind names and values and decodes references where they stand.  Here a
  position in the buffer is the text from it up to the next NUL, and what was cut off is a string.  The pointer \<open>cur\<close>
  into the tree under construction is the list \<open>open_tags\<close> of the elements that are open, innermost first; a child joins its parent
  when it is closed.  The chains \<open>ordered\<close>, \<open>sibling\<close> and \<open>next\<close> of the children are one list in document order.
  An error message is a datatype without the line number.  \<open>None\<close> stands for an access beyond the end of a string or of the
  buffer (where C goes on with the memory behind), and for references that are expanded for ever.
\<close>

section \<open>The tree and the state of the parser\<close>

datatype ezxml = Ezxml (ez_name: "string option") (ez_attrs: "(string \<times> string) list") (ez_txt: string) (ez_off: nat)
  (ez_children: "ezxml list")

datatype parse_error = Root_missing | Outside_root | Missing char | Unexpected_close string | Unclosed_comment | Unclosed_cdata
  | Unclosed_doctype | Unclosed_instruction | Unexpected_lt | Unclosed_tag string | Circular_entity string
  | Unclosed_attlist | Malformed_attlist

type_synonym entities = "(string \<times> string) list"

text \<open>A default attribute: its name, its value if it has one, and whether it is CDATA.\<close>

type_synonym default_attr = "string \<times> string option \<times> bool"

record ezxml_root =
  open_tags :: "ezxml list"
  root_tag :: ezxml
  general_entities :: entities
  default_attrs :: "(string \<times> default_attr list) list"
  instructions :: "(string \<times> (string \<times> bool) list) list"
  standalone :: bool
  failure :: "parse_error option"

definition default_entities :: entities where
  "default_entities = [(''lt;'', ''&#60;''), (''gt;'', ''&#62;''), (''quot;'', ''&#34;''), (''apos;'', ''&#39;''), (''amp;'', ''&#38;'')]"

definition blank_tag :: "string option \<Rightarrow> ezxml" where
  "blank_tag n = Ezxml n [] [] 0 []"

definition ezxml_new :: "string option \<Rightarrow> ezxml_root" where
  "ezxml_new n = \<lparr>open_tags = [blank_tag n], root_tag = blank_tag n, general_entities = default_entities, default_attrs = [],
    instructions = [], standalone = False, failure = None\<rparr>"

definition ezxml_err :: "parse_error \<Rightarrow> ezxml_root \<Rightarrow> ezxml_root" where
  "ezxml_err e r = r\<lparr>failure := Some e\<rparr>"

text \<open>ezxml_insert for a child whose offset is not less than those of its siblings, which is so for all children the parser adds.\<close>

definition add_child :: "ezxml \<Rightarrow> ezxml \<Rightarrow> ezxml" where
  "add_child x y = Ezxml (ez_name y) (ez_attrs y) (ez_txt y) (ez_off y) (ez_children y @ [x])"

definition the_tree :: "ezxml_root \<Rightarrow> ezxml" where
  "the_tree r = (case open_tags r of [] \<Rightarrow> root_tag r | x # up \<Rightarrow> fold (\<lambda>y x. add_child x y) up x)"

section \<open>Finding things in strings\<close>

definition ws :: "char \<Rightarrow> bool" where
  "ws c \<longleftrightarrow> c = CHR '' '' \<or> c = CHR 0x0A \<or> c = CHR 0x09 \<or> c = CHR 0x0D"

abbreviation (input) quotes :: "char set" where
  "quotes \<equiv> {CHR 0x22, CHR 0x27}"

text \<open>strchr and strstr as the text from the place found.\<close>

definition from_char :: "char \<Rightarrow> string \<Rightarrow> string option" where
  "from_char c s = (case dropWhile (\<lambda>x. x \<noteq> c) s of [] \<Rightarrow> None | r \<Rightarrow> Some r)"

fun from_text :: "string \<Rightarrow> string \<Rightarrow> string option" where
  "from_text needle [] = None"
| "from_text needle (c # s) = (if has_prefix needle (c # s) then Some (c # s) else from_text needle s)"

text \<open>What lies between two positions, given by the text from them.\<close>

definition between :: "string \<Rightarrow> string \<Rightarrow> string" where
  "between s t = take (length s - length t) s"

section \<open>References\<close>

text \<open>CR LF and CR become LF.  When a text ends with one of them the loop steps over the terminating NUL.\<close>

function normalize_newlines :: "string \<Rightarrow> string option" where
  "normalize_newlines [] = Some []"
| "normalize_newlines (c # s) =
    (if c \<noteq> CHR 0x0D then map_option ((#) c) (normalize_newlines s)
     else (let rest = (if has_prefix [CHR 0x0A] s then tl s else s) in
       if rest = [] then None else map_option ((#) (CHR 0x0A)) (normalize_newlines rest)))"
  by pat_completeness auto
termination by (relation "measure length") auto

fun bit_count :: "nat \<Rightarrow> nat" where
  "bit_count n = (if n = 0 then 0 else Suc (bit_count (n div 2)))"

text \<open>A character in the bytes of UTF-8, or its extension beyond Unicode; the shift of 0xFF must not be negative.\<close>

definition utf8 :: "nat \<Rightarrow> string option" where
  "utf8 n = (if n < 0x80 then Some [char_of n]
     else (let b = (bit_count n - 2) div 5 in
       if 7 < b then None
       else Some (char_of (push_bit (7 - b) 0xFF OR drop_bit (6 * b) n)
         # map (\<lambda>i. char_of (0x80 OR (drop_bit (6 * i) n AND 0x3F))) (rev [0..<b]))))"

text \<open>A number below 0x80, also a negative one, is one byte; a NUL would end the string.\<close>

definition reference_bytes :: "int \<Rightarrow> string option" where
  "reference_bytes c = (if 0x80 \<le> c then utf8 (nat c) else if c mod 256 = 0 then None else Some [char_of (nat (c mod 256))])"

definition character_reference :: "string \<Rightarrow> (int \<times> string) option" where
  "character_reference s =
    (let (c, e) = (if has_prefix ''x'' (drop 2 s) then strtol 16 (drop 3 s) else strtol 10 (drop 2 s)) in
     if c = 0 \<or> \<not> has_prefix '';'' e then None else Some (c, tl e))"

definition find_entity :: "entities \<Rightarrow> string \<Rightarrow> string option" where
  "find_entity es s = map_option snd (find (\<lambda>p. has_prefix (fst p) s) es)"

partial_function (option) decode_references :: "entities \<Rightarrow> char \<Rightarrow> string \<Rightarrow> string option" where
  "decode_references es t s = (case s of
      [] \<Rightarrow> Some []
    | c # r \<Rightarrow>
        if t \<noteq> CHR ''c'' \<and> has_prefix ''&#'' s then (case character_reference s of
            Some (n, rest) \<Rightarrow> do { b \<leftarrow> reference_bytes n; d \<leftarrow> decode_references es t rest; Some (b @ d) }
          | None \<Rightarrow> do { d \<leftarrow> decode_references es t r; Some (c # d) })
        else if c = CHR ''&'' \<and> (t = CHR ''&'' \<or> t = CHR '' '' \<or> t = CHR ''*'') \<or> c = CHR ''%'' \<and> t = CHR ''%'' then (case find_entity es r of
            Some v \<Rightarrow> decode_references es t (v @ drop 1 (dropWhile (\<lambda>x. x \<noteq> CHR '';'') r))
          | None \<Rightarrow> do { d \<leftarrow> decode_references es t r; Some (c # d) })
        else do {
          d \<leftarrow> decode_references es t r;
          Some ((if (t = CHR '' '' \<or> t = CHR ''*'') \<and> is_space c then CHR '' '' else c) # d)
        })"

text \<open>
  Runs of spaces become one, for attributes that are not CDATA.  The loop steps over the terminating NUL unless the text ends with
  exactly one space (or is empty); the space at the end is removed afterwards.
\<close>

function squeeze_spaces :: "string \<Rightarrow> string option" where
  "squeeze_spaces [] = Some []"
| "squeeze_spaces (c # s) =
    (let word = dropWhile (\<lambda>x. x = CHR '' '') (c # s); rest = dropWhile (\<lambda>x. x \<noteq> CHR '' '') word in
     if rest = [] then None
     else map_option (\<lambda>d. takeWhile (\<lambda>x. x \<noteq> CHR '' '') word @ CHR '' '' # d) (squeeze_spaces (tl rest)))"
  by pat_completeness auto
termination
proof (relation "measure length")
  fix c :: char and s word rest :: string
  assume "word = dropWhile (\<lambda>x. x = CHR '' '') (c # s)" "rest = dropWhile (\<lambda>x. x \<noteq> CHR '' '') word" "rest \<noteq> []"
  then have "length rest \<le> length (c # s)" by (metis length_dropWhile_le le_trans)
  with \<open>rest \<noteq> []\<close> show "(tl rest, c # s) \<in> measure length" by (cases rest) auto
qed simp

definition ezxml_decode :: "entities \<Rightarrow> char \<Rightarrow> string \<Rightarrow> string option" where
  "ezxml_decode es t s = do {
    s \<leftarrow> normalize_newlines s;
    s \<leftarrow> decode_references es t s;
    if t = CHR ''*'' then map_option butlast (squeeze_spaces s) else Some s
  }"

section \<open>Events of the parser\<close>

definition ezxml_open_tag :: "string \<Rightarrow> (string \<times> string) list \<Rightarrow> ezxml_root \<Rightarrow> ezxml_root option" where
  "ezxml_open_tag n as r = (case open_tags r of
      [] \<Rightarrow> None
    | x # up \<Rightarrow> Some (r\<lparr>open_tags :=
        (if ez_name x = None then Ezxml (Some n) as (ez_txt x) (ez_off x) (ez_children x) # up
         else Ezxml (Some n) as [] (length (ez_txt x)) [] # x # up)\<rparr>))"

text \<open>Inr if the tag is closed, Inl with the error otherwise.\<close>

definition ezxml_close_tag :: "string \<Rightarrow> ezxml_root \<Rightarrow> ezxml_root + ezxml_root" where
  "ezxml_close_tag n r = (case open_tags r of
      [] \<Rightarrow> Inl (ezxml_err (Unexpected_close n) r)
    | x # up \<Rightarrow> if ez_name x \<noteq> Some n then Inl (ezxml_err (Unexpected_close n) r)
        else Inr (case up of [] \<Rightarrow> r\<lparr>open_tags := [], root_tag := x\<rparr> | y # ys \<Rightarrow> r\<lparr>open_tags := add_child x y # ys\<rparr>))"

definition ezxml_char_content :: "string \<Rightarrow> char \<Rightarrow> ezxml_root \<Rightarrow> ezxml_root option" where
  "ezxml_char_content s t r = (case open_tags r of
      [] \<Rightarrow> Some r
    | x # up \<Rightarrow> if ez_name x = None \<or> s = [] then Some r
        else do {
          d \<leftarrow> ezxml_decode (general_entities r) t s;
          Some (r\<lparr>open_tags := Ezxml (ez_name x) (ez_attrs x) (ez_txt x @ d) (ez_off x) (ez_children x) # up\<rparr>)
        })"

fun add_instruction :: "string \<Rightarrow> string \<times> bool \<Rightarrow> (string \<times> (string \<times> bool) list) list \<Rightarrow> (string \<times> (string \<times> bool) list) list" where
  "add_instruction target x [] = [(target, [x])]"
| "add_instruction target x ((n, l) # rest) = (if n = target then (n, l @ [x]) # rest else (n, l) # add_instruction target x rest)"

definition ezxml_proc_inst :: "string \<Rightarrow> ezxml_root \<Rightarrow> ezxml_root" where
  "ezxml_proc_inst s r =
    (let target = takeWhile (\<lambda>c. \<not> ws c) s; body = dropWhile ws (dropWhile (\<lambda>c. \<not> ws c) s) in
     if target = ''xml'' then (case from_text ''standalone'' body of
         None \<Rightarrow> r
       | Some a \<Rightarrow> if has_prefix ''yes'' (dropWhile (\<lambda>c. ws c \<or> c = CHR ''='' \<or> c \<in> quotes) (drop 10 a))
           then r\<lparr>standalone := True\<rparr> else r)
     else r\<lparr>instructions := add_instruction target (body, ez_name (the_tree r) \<noteq> None) (instructions r)\<rparr>)"

section \<open>The internal document type\<close>

partial_function (option) ezxml_ent_ok :: "string \<Rightarrow> string \<Rightarrow> entities \<Rightarrow> bool option" where
  "ezxml_ent_ok n s es = (case dropWhile (\<lambda>c. c \<noteq> CHR ''&'') s of
      [] \<Rightarrow> Some True
    | _ # r \<Rightarrow> if has_prefix n r then Some False
        else (case find_entity es r of
            None \<Rightarrow> ezxml_ent_ok n r es
          | Some v \<Rightarrow> do { ok \<leftarrow> ezxml_ent_ok n v es; if ok then ezxml_ent_ok n r es else Some False }))"

text \<open>
  What a declaration leaves: the parameter entities, the root, the text that the variable \<open>n\<close> points at, and where the scan goes on
  (None for a NULL pointer); or the end of the scan.
\<close>

datatype dtd_step = Dtd_break ezxml_root | Dtd_next entities ezxml_root "string option" "string option"

definition dtd_entity :: "entities \<Rightarrow> ezxml_root \<Rightarrow> string \<Rightarrow> dtd_step option" where
  "dtd_entity pe r s =
    (let c = dropWhile ws (drop 8 s); nm = dropWhile (\<lambda>x. ws x \<or> x = CHR ''%'') c;
         n = takeWhile (\<lambda>x. \<not> ws x) nm @ '';''; behind = dropWhile (\<lambda>x. \<not> ws x) nm; v = dropWhile ws (tl behind) in
     if behind = [] then None
     else if v = [] \<or> hd v \<notin> quotes
     then Some (Dtd_next pe r (Some (n @ tl behind)) (from_char (CHR ''>'') (CHR '';'' # tl behind)))
     else do {
       let es = (if has_prefix ''%'' c then pe else general_entities r);
       value \<leftarrow> ezxml_decode pe (CHR ''%'') (takeWhile (\<lambda>x. x \<noteq> hd v) (tl v));
       ok \<leftarrow> ezxml_ent_ok n value es;
       Some (if \<not> ok then Dtd_break (ezxml_err (Circular_entity n) r)
         else Dtd_next (if has_prefix ''%'' c then pe @ [(n, value)] else pe)
           (if has_prefix ''%'' c then r else r\<lparr>general_entities := general_entities r @ [(n, value)]\<rparr>)
           (Some n) (map_option tl (from_char (hd v) (tl v))))
     })"

definition add_default :: "nat \<Rightarrow> string \<Rightarrow> default_attr \<Rightarrow> ezxml_root \<Rightarrow> ezxml_root" where
  "add_default i t a r = r\<lparr>default_attrs :=
    (if i < length (default_attrs r) then (default_attrs r)[i := (fst (default_attrs r ! i), snd (default_attrs r ! i) @ [a])]
     else default_attrs r @ [(t, [a])])\<rparr>"

text \<open>The attributes of the declaration: the root, what \<open>n\<close> points at, and the place of the scan.\<close>

partial_function (option) attlist_loop :: "nat \<Rightarrow> string \<Rightarrow> string \<Rightarrow> ezxml_root \<Rightarrow>
    (ezxml_root \<times> string option \<times> string option) option" where
  "attlist_loop i t s r =
    (let nm = dropWhile ws s; n = takeWhile (\<lambda>x. \<not> ws x) nm; behind = dropWhile (\<lambda>x. \<not> ws x) nm in
     if nm = [] \<or> hd nm = CHR ''>'' then Some (r, Some nm, Some s)
     else if behind = [] then Some (ezxml_err Malformed_attlist r, Some nm, Some [])
     else (let token = dropWhile ws (tl behind); cdata = has_prefix ''CDATA'' token;
         type_at = (if has_prefix ''NOTATION'' token then dropWhile ws (drop 8 token) else token) in
       case (if has_prefix ''('' type_at then from_char (CHR '')'') type_at else Some (dropWhile (\<lambda>x. \<not> ws x) type_at)) of
         None \<Rightarrow> Some (ezxml_err Malformed_attlist r, Some n, None)
       | Some u \<Rightarrow>
           (let u = dropWhile (\<lambda>x. ws x \<or> x = CHR '')'') u;
                value_at = (if has_prefix ''#FIXED'' u then dropWhile ws (drop 6 u) else u) in
            if has_prefix ''#'' value_at
            then attlist_loop i t (dropWhile (\<lambda>x. \<not> ws x \<and> x \<noteq> CHR ''>'') value_at)
              (if cdata then r else add_default i t (n, None, cdata) r)
            else if value_at \<noteq> [] \<and> hd value_at \<in> quotes
            then (case from_char (hd value_at) (tl value_at) of
                None \<Rightarrow> Some (ezxml_err Malformed_attlist r, Some n, None)
              | Some rest \<Rightarrow> do {
                  value \<leftarrow> ezxml_decode (general_entities r) (if cdata then CHR '' '' else CHR ''*'') (between (tl value_at) rest);
                  attlist_loop i t (tl rest) (add_default i t (n, Some value, cdata) r)
                })
            else Some (ezxml_err Malformed_attlist r, Some n, Some value_at))))"

text \<open>The tag is looked up under \<open>n\<close>, which still points at what was read before.\<close>

definition dtd_attlist :: "entities \<Rightarrow> ezxml_root \<Rightarrow> string option \<Rightarrow> string \<Rightarrow> dtd_step option" where
  "dtd_attlist pe r n s =
    (let t = dropWhile ws (drop 9 s); rest = dropWhile (\<lambda>x. \<not> ws x \<and> x \<noteq> CHR ''>'') t in
     if t = [] then Some (Dtd_break (ezxml_err Unclosed_attlist r))
     else if has_prefix ''>'' rest then Some (Dtd_next pe r n (Some rest))
     else if rest = [] \<or> n = None \<and> default_attrs r \<noteq> [] then None
     else do {
       (r, n, u) \<leftarrow> attlist_loop (length (takeWhile (\<lambda>p. Some (fst p) \<noteq> n) (default_attrs r))) (between t rest) (tl rest) r;
       Some (Dtd_next pe r n u)
     })"

definition dtd_declaration :: "entities \<Rightarrow> ezxml_root \<Rightarrow> string option \<Rightarrow> string \<Rightarrow> dtd_step option" where
  "dtd_declaration pe r n s =
    (if s = [] then Some (Dtd_break r)
     else if has_prefix ''<!ENTITY'' s then dtd_entity pe r s
     else if has_prefix ''<!ATTLIST'' s then dtd_attlist pe r n s
     else if has_prefix ''<!--'' s then Some (Dtd_next pe r n (from_text ''-->'' (drop 4 s)))
     else if has_prefix ''<?'' s then (case from_text ''?>'' (drop 2 s) of
         None \<Rightarrow> Some (Dtd_break r)
       | Some e \<Rightarrow> Some (Dtd_next pe (ezxml_proc_inst (between (drop 2 s) e) r) n (Some (tl e))))
     else if hd s = CHR ''<'' then Some (Dtd_next pe r n (from_char (CHR ''>'') s))
     else if standalone r then Some (Dtd_next pe r n (Some (tl s)))
     else Some (Dtd_break r))"

partial_function (option) dtd_loop :: "entities \<Rightarrow> ezxml_root \<Rightarrow> string option \<Rightarrow> string \<Rightarrow> ezxml_root option" where
  "dtd_loop pe r n s = do {
    outcome \<leftarrow> dtd_declaration pe r n (dropWhile (\<lambda>c. c \<noteq> CHR ''<'' \<and> c \<noteq> CHR ''%'') s);
    (case outcome of
        Dtd_break r \<Rightarrow> Some r
      | Dtd_next pe r n place \<Rightarrow> (case place of None \<Rightarrow> Some r | Some s \<Rightarrow> dtd_loop pe r n s))
  }"

definition ezxml_internal_dtd :: "string \<Rightarrow> ezxml_root \<Rightarrow> (bool \<times> ezxml_root) option" where
  "ezxml_internal_dtd s r = do { r \<leftarrow> dtd_loop [] r None s; Some (failure r = None, r) }"

section \<open>Markup\<close>

text \<open>What a piece of markup leaves: the parser returns, or it goes on at a place, which is normally that of the closing \<open>></\<close>.\<close>

datatype markup_outcome = Return ezxml_root | Proceed ezxml_root string

definition stop_with :: "parse_error \<Rightarrow> ezxml_root \<Rightarrow> markup_outcome option" where
  "stop_with e r = Some (Return (ezxml_err e r))"

definition defaults_of :: "string \<Rightarrow> ezxml_root \<Rightarrow> default_attr list" where
  "defaults_of n r = (case find (\<lambda>p. fst p = n) (default_attrs r) of None \<Rightarrow> [] | Some (_, l) \<Rightarrow> l)"

definition decoding_of :: "default_attr list \<Rightarrow> string \<Rightarrow> char" where
  "decoding_of ds n = (case find (\<lambda>p. fst p = n) ds of Some (_, _, cdata) \<Rightarrow> if cdata then CHR '' '' else CHR ''*'' | None \<Rightarrow> CHR '' '')"

text \<open>Where the names of attributes, of tags and of closing tags end.\<close>

definition ends_attr :: "char \<Rightarrow> bool" where
  "ends_attr c \<longleftrightarrow> ws c \<or> c = CHR ''='' \<or> c = CHR ''/'' \<or> c = CHR ''>''"

definition ends_tag :: "char \<Rightarrow> bool" where
  "ends_tag c \<longleftrightarrow> ws c \<or> c = CHR ''/'' \<or> c = CHR ''>''"

definition ends_close :: "char \<Rightarrow> bool" where
  "ends_close c \<longleftrightarrow> ws c \<or> c = CHR ''>''"

text \<open>The attributes of a tag; Inl with the quotation mark that is missing.\<close>

partial_function (option) parse_attrs :: "entities \<Rightarrow> default_attr list \<Rightarrow> (string \<times> string) list \<Rightarrow> string \<Rightarrow>
    (char + (string \<times> string) list \<times> string) option" where
  "parse_attrs es ds as s =
    (if s = [] \<or> hd s = CHR ''/'' \<or> hd s = CHR ''>'' then Some (Inr (as, s))
     else (let n = takeWhile (\<lambda>c. \<not> ends_attr c) s; u = dropWhile (\<lambda>c. \<not> ends_attr c) s in
       if u \<noteq> [] \<and> (hd u = CHR ''='' \<or> is_space (hd u))
       then (let v = dropWhile (\<lambda>c. ws c \<or> c = CHR ''='') (tl u) in
         if v \<noteq> [] \<and> hd v \<in> quotes
         then (case from_char (hd v) (tl v) of
             None \<Rightarrow> Some (Inl (hd v))
           | Some rest \<Rightarrow> do {
               value \<leftarrow> ezxml_decode es (decoding_of ds n) (between (tl v) rest);
               parse_attrs es ds (as @ [(n, value)]) (dropWhile is_space (tl rest))
             })
         else parse_attrs es ds (as @ [(n, [])]) (dropWhile is_space v))
       else parse_attrs es ds (as @ [(n, [])]) (dropWhile is_space u)))"

text \<open>
  \<open>e\<close> is the last character of the buffer, which the parser has replaced by NUL; \<open>d\<close> is the text behind the \<open><\<close>.
\<close>

definition starts_name :: "char \<Rightarrow> bool" where
  "starts_name c \<longleftrightarrow> (let n = (of_char c :: nat) in 65 \<le> n \<and> n \<le> 90 \<or> 97 \<le> n \<and> n \<le> 122 \<or> n = 95 \<or> n = 58 \<or> 128 \<le> n)"

definition parse_tag :: "char \<Rightarrow> ezxml_root \<Rightarrow> string \<Rightarrow> markup_outcome option" where
  "parse_tag e r d =
    (if open_tags r = [] then stop_with Outside_root r
     else (let n = takeWhile (\<lambda>c. \<not> ends_tag c) d in do {
       result \<leftarrow> parse_attrs (general_entities r) (defaults_of n r) [] (dropWhile is_space (dropWhile (\<lambda>c. \<not> ends_tag c) d));
       (case result of
           Inl q \<Rightarrow> stop_with (Missing q) r
         | Inr (as, s) \<Rightarrow>
             if has_prefix ''/'' s then
               (if has_prefix ''>'' (tl s) \<or> tl s = [] \<and> e = CHR ''>'' then do {
                  r \<leftarrow> ezxml_open_tag n as r;
                  Some (Proceed (case ezxml_close_tag n r of Inl r \<Rightarrow> r | Inr r \<Rightarrow> r) (tl s))
                } else stop_with (Missing (CHR ''>'')) r)
             else if has_prefix ''>'' s \<or> s = [] \<and> e = CHR ''>'' then do {
               r \<leftarrow> ezxml_open_tag n as r;
               Some (Proceed r s)
             } else stop_with (Missing (CHR ''>'')) r)
     }))"

definition parse_close_tag :: "char \<Rightarrow> ezxml_root \<Rightarrow> string \<Rightarrow> markup_outcome option" where
  "parse_close_tag e r d =
    (let n = takeWhile (\<lambda>c. \<not> ends_close c) (tl d); s = dropWhile (\<lambda>c. \<not> ends_close c) (tl d) in
     if s = [] \<and> e \<noteq> CHR ''>'' then stop_with (Missing (CHR ''>'')) r
     else Some (case ezxml_close_tag n r of Inl r \<Rightarrow> Return r | Inr r \<Rightarrow> Proceed r (dropWhile ws s)))"

definition parse_comment :: "char \<Rightarrow> ezxml_root \<Rightarrow> string \<Rightarrow> markup_outcome option" where
  "parse_comment e r d = (case from_text ''--'' (drop 3 d) of
      None \<Rightarrow> stop_with Unclosed_comment r
    | Some s \<Rightarrow> if has_prefix ''>'' (drop 2 s) \<or> drop 2 s = [] \<and> e = CHR ''>'' then Some (Proceed r (drop 2 s))
        else stop_with Unclosed_comment r)"

definition parse_cdata :: "ezxml_root \<Rightarrow> string \<Rightarrow> markup_outcome option" where
  "parse_cdata r d = (case from_text '']]>'' d of
      None \<Rightarrow> stop_with Unclosed_cdata r
    | Some s \<Rightarrow> do { r \<leftarrow> ezxml_char_content (between (drop 8 d) s) (CHR ''c'') r; Some (Proceed r (drop 2 s)) })"

text \<open>The end of the document type, and whether it has an internal subset.\<close>

function doctype_end :: "bool \<Rightarrow> string \<Rightarrow> bool \<times> string" where
  "doctype_end l [] = (l, [])"
| "doctype_end l (c # s) =
    (if \<not> l \<and> c \<noteq> CHR ''>'' \<or> l \<and> (c \<noteq> CHR '']'' \<or> \<not> has_prefix ''>'' (dropWhile ws s))
     then (let u = dropWhile (\<lambda>x. x \<notin> set ''[]>'') s in doctype_end (l \<or> has_prefix ''['' u) u)
     else (l, c # s))"
  by pat_completeness auto
termination by (relation "measure (length \<circ> snd)") (auto intro: le_imp_less_Suc length_dropWhile_le)

definition parse_doctype :: "char \<Rightarrow> ezxml_root \<Rightarrow> string \<Rightarrow> markup_outcome option" where
  "parse_doctype e r d =
    (let (l, s) = doctype_end False d in
     if s = [] \<and> e \<noteq> CHR ''>'' then stop_with Unclosed_doctype r
     else if \<not> l then Some (Proceed r s)
     else (case from_char (CHR ''['') d of
         None \<Rightarrow> None
       | Some b \<Rightarrow> do {
           (ok, r) \<leftarrow> ezxml_internal_dtd (between (tl b) s) r;
           if \<not> ok then Some (Return r) else if s = [] then None else Some (Proceed r (tl s))
         }))"

text \<open>The end of a processing instruction; None if there is no further question mark.\<close>

function instruction_end :: "string \<Rightarrow> string option" where
  "instruction_end s = (case dropWhile (\<lambda>x. x \<noteq> CHR ''?'') s of
      [] \<Rightarrow> None
    | _ # u \<Rightarrow> if u = [] \<or> hd u = CHR ''>'' then Some u else instruction_end u)"
  by pat_completeness auto
termination
proof (relation "measure length")
  fix s u :: string and c
  assume "dropWhile (\<lambda>x. x \<noteq> CHR ''?'') s = c # u"
  then have "Suc (length u) \<le> length s" by (metis length_Cons length_dropWhile_le)
  then show "(u, s) \<in> measure length" by simp
qed simp

text \<open>Of \<open><?>\<close> the length would be negative.\<close>

definition parse_instruction :: "char \<Rightarrow> ezxml_root \<Rightarrow> string \<Rightarrow> markup_outcome option" where
  "parse_instruction e r d = (case instruction_end d of
      None \<Rightarrow> stop_with Unclosed_instruction r
    | Some s \<Rightarrow>
        if s = [] \<and> e \<noteq> CHR ''>'' then stop_with Unclosed_instruction r
        else if length d - length s < 2 then None
        else Some (Proceed (ezxml_proc_inst (take (length d - length s - 2) (tl d)) r) s))"

definition parse_markup :: "char \<Rightarrow> ezxml_root \<Rightarrow> string \<Rightarrow> markup_outcome option" where
  "parse_markup e r d =
    (if d \<noteq> [] \<and> starts_name (hd d) then parse_tag e r d
     else if has_prefix ''/'' d then parse_close_tag e r d
     else if has_prefix ''!--'' d then parse_comment e r d
     else if has_prefix ''![CDATA['' d then parse_cdata r d
     else if has_prefix ''!DOCTYPE'' d then parse_doctype e r d
     else if has_prefix ''?'' d then parse_instruction e r d
     else stop_with Unexpected_lt r)"

section \<open>The document\<close>

definition parse_end :: "ezxml_root \<Rightarrow> ezxml_root" where
  "parse_end r = (case open_tags r of
      [] \<Rightarrow> r
    | x # _ \<Rightarrow> (case ez_name x of None \<Rightarrow> ezxml_err Root_missing r | Some n \<Rightarrow> ezxml_err (Unclosed_tag n) r))"

partial_function (option) parse_loop :: "char \<Rightarrow> ezxml_root \<Rightarrow> string \<Rightarrow> ezxml_root option" where
  "parse_loop e r d = do {
    outcome \<leftarrow> parse_markup e r d;
    (case outcome of
        Return r \<Rightarrow> Some r
      | Proceed r s \<Rightarrow>
          (let rest = dropWhile (\<lambda>c. c \<noteq> CHR ''<'') (tl s) in
           if s = [] \<or> rest = [] then Some (parse_end r)
           else do {
             r \<leftarrow> ezxml_char_content (between (tl s) rest) (CHR ''&'') r;
             parse_loop e r (tl rest)
           }))
  }"

text \<open>The buffer in UTF-8 if it begins like UTF-16; None otherwise.\<close>

definition utf16_unit :: "bool \<Rightarrow> string \<Rightarrow> nat \<Rightarrow> nat" where
  "utf16_unit be s i = (let hi = (of_char (s ! i) :: nat); lo = of_char (s ! Suc i) in
    if be then hi * 256 + lo else lo * 256 + hi)"

function utf16_loop :: "bool \<Rightarrow> string \<Rightarrow> nat \<Rightarrow> string option" where
  "utf16_loop be s i =
    (if i < length s - 1 then
       (let c = utf16_unit be s i in
        if 0xD800 \<le> c \<and> c \<le> 0xDFFF \<and> i + 2 < length s - 1
        then do { u \<leftarrow> utf8 (((c mod 0x400) * 0x400 + utf16_unit be s (i + 2) mod 0x400) + 0x10000);
          rest \<leftarrow> utf16_loop be s (i + 4); Some (u @ rest) }
        else do { u \<leftarrow> utf8 c; rest \<leftarrow> utf16_loop be s (i + (if 0xD800 \<le> c \<and> c \<le> 0xDFFF then 4 else 2)); Some (u @ rest) })
     else Some [])"
  by pat_completeness auto
termination by (relation "measure (\<lambda>(be, s, i). length s - i)") auto

definition ezxml_str2utf8 :: "string \<Rightarrow> string option option" where
  "ezxml_str2utf8 s =
    (if hd s = CHR 0xFE then map_option Some (utf16_loop True s 2)
     else if hd s = CHR 0xFF then map_option Some (utf16_loop False s 2)
     else Some None)"

definition ezxml_parse_str :: "string \<Rightarrow> ezxml_root option" where
  "ezxml_parse_str buf =
    (if buf = [] then Some (ezxml_err Root_missing (ezxml_new None))
     else do {
       u \<leftarrow> ezxml_str2utf8 buf;
       let buf = (case u of None \<Rightarrow> buf | Some t \<Rightarrow> t);
       if buf = [] then None
       else (let s = dropWhile (\<lambda>c. c \<noteq> CHR ''<'') (takeWhile (\<lambda>c. c \<noteq> CHR 0x00) (butlast buf)) in
         if s = [] then Some (ezxml_err Root_missing (ezxml_new None))
         else parse_loop (last buf) (ezxml_new None) (tl s))
     })"

text \<open>A file that cannot be opened gives NULL; whether it is mapped or read makes no difference to the text.\<close>

definition ezxml_parse_file :: "string option \<Rightarrow> ezxml_root option option" where
  "ezxml_parse_file content = (case content of None \<Rightarrow> Some None | Some s \<Rightarrow> map_option Some (ezxml_parse_str s))"

declare decode_references.simps [code] ezxml_ent_ok.simps [code] attlist_loop.simps [code] dtd_loop.simps [code]
  parse_attrs.simps [code] parse_loop.simps [code]

section \<open>Reading the tree\<close>

definition ezxml_children :: "ezxml \<Rightarrow> string \<Rightarrow> ezxml list" where
  "ezxml_children x t = filter (\<lambda>c. ez_name c = Some t) (ez_children x)"

definition ezxml_attribute :: "ezxml_root \<Rightarrow> ezxml \<Rightarrow> string \<Rightarrow> string option" where
  "ezxml_attribute r x a = (case find (\<lambda>p. fst p = a) (ez_attrs x) of
      Some p \<Rightarrow> Some (snd p)
    | None \<Rightarrow> (case ez_name x of
        None \<Rightarrow> None
      | Some n \<Rightarrow> (case find (\<lambda>p. fst p = a) (defaults_of n r) of None \<Rightarrow> None | Some (_, v, _) \<Rightarrow> v)))"

end
