(* ===== verification/Waitress.thy ===== *)
theory Waitress
  imports Prelude
begin

text \<open>
  The text functions of libwaitress (\<open>src/src/libwaitress/waitress.c\<close>): percent-encoding of
  request parameters, base64 for the authorization headers, and the state machine that splits a URL.

  For the two encoders there is a decoder that serves as the specification
  (\<open>percent_decode\<close>, \<open>base64_decode\<close>), and the theorems are the round trips.  The URL
  splitter is compared with \<open>url_text\<close>, which writes a URL down from its parts.
\<close>

section \<open>Percent encoding\<close>

definition is_alnum :: "char \<Rightarrow> bool" where
  "is_alnum c = (let n = (of_char c :: nat) in
    48 \<le> n \<and> n \<le> 57 \<or> 65 \<le> n \<and> n \<le> 90 \<or> 97 \<le> n \<and> n \<le> 122)"

definition hex_digit :: "nat \<Rightarrow> char" where
  "hex_digit n = (if n < 10 then char_of (48 + n) else char_of (87 + n))"

definition hex2 :: "nat \<Rightarrow> string" where
  "hex2 n = [hex_digit (n div 16), hex_digit (n mod 16)]"

definition url_plain :: "char \<Rightarrow> bool" where
  "url_plain c \<longleftrightarrow> is_alnum c \<or> c = CHR ''_'' \<or> c = CHR ''-'' \<or> c = CHR ''.''"

fun WaitressUrlEncode :: "string \<Rightarrow> string" where
  "WaitressUrlEncode [] = []"
| "WaitressUrlEncode (c # cs) =
    (if \<not> url_plain c then CHR ''%'' # hex2 (of_char c) @ WaitressUrlEncode cs
     else c # WaitressUrlEncode cs)"

definition hex_value :: "char \<Rightarrow> nat option" where
  "hex_value c = (let n = (of_char c :: nat) in
    if 48 \<le> n \<and> n \<le> 57 then Some (n - 48)
    else if 97 \<le> n \<and> n \<le> 102 then Some (n - 87)
    else if 65 \<le> n \<and> n \<le> 70 then Some (n - 55)
    else None)"

fun percent_decode :: "string \<Rightarrow> string option" where
  "percent_decode [] = Some []"
| "percent_decode (c # cs) =
    (if c \<noteq> CHR ''%'' then map_option ((#) c) (percent_decode cs)
     else case cs of
        h # l # rest \<Rightarrow> (case (hex_value h, hex_value l) of
            (Some a, Some b) \<Rightarrow> map_option ((#) (char_of (16 * a + b))) (percent_decode rest)
          | _ \<Rightarrow> None)
      | _ \<Rightarrow> None)"

lemma hex_value_digit: "n < 16 \<Longrightarrow> hex_value (hex_digit n) = Some n"
proof -
  assume "n < 16"
  moreover have "list_all (\<lambda>n. hex_value (hex_digit n) = Some n) [0..<16]"
    by (simp add: hex_digit_def hex_value_def upt_rec)
  ultimately show ?thesis by (simp add: list_all_iff)
qed

lemma hex2_value: "n < 256 \<Longrightarrow> \<exists>h l. hex2 n = [h, l] \<and> hex_value h = Some (n div 16)
    \<and> hex_value l = Some (n mod 16)"
  by (simp add: hex2_def hex_value_digit)

lemma percent_char_not_plain: "\<not> url_plain (CHR ''%'')"
  by (simp add: url_plain_def is_alnum_def)

lemma percent_decode_encode: "percent_decode (WaitressUrlEncode s) = Some s"
proof (induction s)
  case (Cons c cs)
  obtain h l where "hex2 (of_char c) = [h, l]" and "hex_value h = Some (of_char c div 16)"
    and "hex_value l = Some (of_char c mod 16)"
    using hex2_value [OF char_code_less] by blast
  then show ?case using Cons percent_char_not_plain by auto
qed simp

lemma hex_digit_plain: "n < 16 \<Longrightarrow> url_plain (hex_digit n)"
  by (auto simp: hex_digit_def url_plain_def is_alnum_def)

lemma char_code_div_16: "(of_char c :: nat) div 16 < 16"
  using char_code_less [of c] by linarith

lemma url_encode_alphabet: "c \<in> set (WaitressUrlEncode s) \<Longrightarrow> url_plain c \<or> c = CHR ''%''"
  by (induction s) (auto simp: hex2_def hex_digit_plain char_code_div_16 split: if_splits)

lemma url_encode_length: "length (WaitressUrlEncode s) \<le> 3 * length s"
  by (induction s) (auto simp: hex2_def)

text \<open>
  Percent-encoding loses nothing and stays inside its buffer: decoding the output gives the input back,
  the output consists of letters, digits, \<open>_\<close>, \<open>-\<close>, \<open>.\<close> and \<open>%\<close> only (so it cannot break out
  of a query parameter), and it fits the 3 * n bytes (plus NUL) that are allocated.
\<close>
theorem WaitressUrlEncode_correct:
  "percent_decode (WaitressUrlEncode s) = Some s \<and> length (WaitressUrlEncode s) \<le> 3 * length s
    \<and> list_all (\<lambda>c. url_plain c \<or> c = CHR ''%'') (WaitressUrlEncode s)"
  using percent_decode_encode url_encode_length url_encode_alphabet by (auto simp: list_all_iff)

section \<open>Base64\<close>

definition base64_alphabet :: string where
  "base64_alphabet = ''ABCDEFGHIJKLMNOPQRSTUVWXYZ'' @ ''abcdefghijklmnopqrstuvwxyz0123456789+/''"

definition b64 :: "byte \<Rightarrow> char" where
  "b64 idx = base64_alphabet ! unat idx"

fun WaitressBase64Encode :: "bytes \<Rightarrow> string" where
  "WaitressBase64Encode (a # b # c # rest) =
    b64 (drop_bit 2 a AND 0x3f)
    # b64 (push_bit 4 (a AND 0x3) OR (drop_bit 4 b AND 0xf))
    # b64 (push_bit 2 (b AND 0xf) OR (drop_bit 6 c AND 0x3))
    # b64 (c AND 0x3f)
    # WaitressBase64Encode rest"
| "WaitressBase64Encode [a, b] =
    [b64 (drop_bit 2 a AND 0x3f),
     b64 (push_bit 4 (a AND 0x3) OR (drop_bit 4 b AND 0xf)),
     b64 (push_bit 2 (b AND 0xf)),
     CHR ''='']"
| "WaitressBase64Encode [a] =
    [b64 (drop_bit 2 a AND 0x3f), b64 (push_bit 4 (a AND 0x3)), CHR ''='', CHR ''='']"
| "WaitressBase64Encode [] = []"

lemma base64_length: "length (WaitressBase64Encode s) = 4 * ((length s + 2) div 3)"
proof (induction s rule: WaitressBase64Encode.induct)
  case (1 a b c rest)
  have "(5 + length rest) div 3 = Suc ((2 + length rest) div 3)" by simp
  then show ?case using 1 by simp
qed auto

text \<open>The decoder that specifies the encoding: 4 digits of 6 bits make 3 bytes.\<close>

fun index_of :: "'a list \<Rightarrow> 'a \<Rightarrow> nat option" where
  "index_of [] _ = None"
| "index_of (x # xs) y = (if x = y then Some 0 else map_option Suc (index_of xs y))"

definition b64_value :: "char \<Rightarrow> byte option" where
  "b64_value c = map_option word_of_nat (index_of base64_alphabet c)"

fun base64_decode :: "string \<Rightarrow> bytes option" where
  "base64_decode [] = Some []"
| "base64_decode (w # x # y # z # rest) = (case (b64_value w, b64_value x) of
      (Some p, Some q) \<Rightarrow>
        let a = push_bit 2 p OR drop_bit 4 q in
        if y = CHR ''='' then (if z = CHR ''='' \<and> rest = [] then Some [a] else None)
        else (case b64_value y of None \<Rightarrow> None | Some r \<Rightarrow>
          let b = push_bit 4 q OR drop_bit 2 r in
          if z = CHR ''='' then (if rest = [] then Some [a, b] else None)
          else (case b64_value z of None \<Rightarrow> None | Some s \<Rightarrow>
            map_option (\<lambda>t. a # b # (push_bit 6 r OR s) # t) (base64_decode rest)))
    | _ \<Rightarrow> None)"
| "base64_decode _ = None"

lemma b64_table: "\<forall>n < 64. index_of base64_alphabet (base64_alphabet ! n) = Some n
    \<and> base64_alphabet ! n \<noteq> CHR ''=''"
  by code_simp

lemma b64_value_b64:
  assumes "\<And>n. bit v n \<Longrightarrow> n < 6"
  shows "b64_value (b64 v) = Some v" "b64 v \<noteq> CHR ''=''"
proof -
  have "v = take_bit 6 v"
    using assms by (intro bit_word_eqI) (auto simp: bit_simps)
  then have "unat v = take_bit 6 (unat v)"
    by (metis unsigned_take_bit_eq)
  then have "unat v < 2 ^ 6"
    using take_bit_nat_less_exp [of 6 "unat v"] by simp
  then show "b64_value (b64 v) = Some v" "b64 v \<noteq> CHR ''=''"
    using b64_table by (auto simp: b64_value_def b64_def)
qed

lemma b64_digits:
  fixes a b :: byte
  shows "\<And>n. bit (drop_bit 2 a AND 0x3f) n \<Longrightarrow> n < 6"
    and "\<And>n. bit (push_bit 4 (a AND 0x3) OR (drop_bit 4 b AND 0xf)) n \<Longrightarrow> n < 6"
    and "\<And>n. bit (push_bit 2 (a AND 0xf) OR (drop_bit 6 b AND 0x3)) n \<Longrightarrow> n < 6"
    and "\<And>n. bit (a AND 0x3f) n \<Longrightarrow> n < 6"
    and "\<And>n. bit (push_bit 4 (a AND 0x3)) n \<Longrightarrow> n < 6"
    and "\<And>n. bit (push_bit 2 (a AND 0xf)) n \<Longrightarrow> n < 6"
  by (simp_all only: bit_or_iff bit_and_iff bit_push_bit_iff bit_drop_bit_eq o_apply byte_masks) auto

lemma b64_bytes:
  fixes a b c :: byte
  shows "push_bit 2 (drop_bit 2 a AND 0x3f) OR drop_bit 4 (push_bit 4 (a AND 0x3) OR (drop_bit 4 b AND 0xf)) = a"
    and "push_bit 4 (push_bit 4 (a AND 0x3) OR (drop_bit 4 b AND 0xf))
      OR drop_bit 2 (push_bit 2 (b AND 0xf) OR (drop_bit 6 c AND 0x3)) = b"
    and "push_bit 6 (push_bit 2 (b AND 0xf) OR (drop_bit 6 c AND 0x3)) OR (c AND 0x3f) = c"
    and "push_bit 2 (drop_bit 2 a AND 0x3f) OR drop_bit 4 (push_bit 4 (a AND 0x3)) = a"
    and "push_bit 4 (push_bit 4 (a AND 0x3) OR (drop_bit 4 b AND 0xf)) OR drop_bit 2 (push_bit 2 (b AND 0xf)) = b"
    and "push_bit 4 (drop_bit 4 b AND 0xf) OR drop_bit 2 (push_bit 2 (b AND 0xf)) = b"
    and "push_bit 6 (drop_bit 6 c AND 0x3) OR (c AND 0x3f) = c"
  by (simp_all only: byte_eq_iff bit_or_iff bit_and_iff bit_push_bit_iff bit_drop_bit_eq o_apply byte_masks)
    (use bit_imp_le_length [of a 8] bit_imp_le_length [of a 9] bit_imp_le_length [of b 8]
      bit_imp_le_length [of b 9] in auto)

text \<open>
  Base64 is decodable: for every byte string, decoding what WaitressBase64Encode writes gives the bytes back,
  and the output is padded to 4 characters per 3 bytes begun.
\<close>
theorem WaitressBase64Encode_correct:
  "base64_decode (WaitressBase64Encode s) = Some s
    \<and> length (WaitressBase64Encode s) = 4 * ((length s + 2) div 3)"
proof
  show "base64_decode (WaitressBase64Encode s) = Some s"
    by (induction s rule: WaitressBase64Encode.induct)
      (simp_all add: b64_value_b64 [OF b64_digits(1)] b64_value_b64 [OF b64_digits(2)]
        b64_value_b64 [OF b64_digits(3)] b64_value_b64 [OF b64_digits(4)]
        b64_value_b64 [OF b64_digits(5)] b64_value_b64 [OF b64_digits(6)] b64_bytes Let_def
        del: push_bit_and)
qed (rule base64_length)

section \<open>Splitting a URL\<close>

record waitress_url =
  url_user :: "string option"
  url_password :: "string option"
  url_host :: "string option"
  url_port :: "string option"
  url_path :: "string option"

definition no_url :: waitress_url where
  "no_url = \<lparr>url_user = None, url_password = None, url_host = None, url_port = None, url_path = None\<rparr>"

datatype url_state = FIND_USER | FIND_PASS | FIND_HOST | FIND_PORT | FIND_PATH | DONE

datatype url_field = F_user | F_password | F_host | F_port | F_path

text \<open>One round of the switch: what the character (or the end, \<open>None\<close>) makes the code assign, and the next state.\<close>

fun url_step :: "url_state \<Rightarrow> char option \<Rightarrow> (url_field \<times> url_state) option" where
  "url_step FIND_USER c =
    (if c = Some (CHR '':'') then Some (F_user, FIND_PASS)
     else if c = Some (CHR ''@'') then Some (F_user, FIND_HOST)
     else if c = Some (CHR ''/'') then Some (F_host, FIND_PATH)
     else if c = None then Some (F_host, DONE)
     else None)"
| "url_step FIND_PASS c =
    (if c = Some (CHR ''@'') then Some (F_password, FIND_HOST)
     else if c = Some (CHR ''/'') then Some (F_port, FIND_PATH)
     else if c = None then Some (F_port, DONE)
     else None)"
| "url_step FIND_HOST c =
    (if c = Some (CHR '':'') then Some (F_host, FIND_PORT)
     else if c = Some (CHR ''/'') then Some (F_host, FIND_PATH)
     else if c = None then Some (F_host, DONE)
     else None)"
| "url_step FIND_PORT c =
    (if c = Some (CHR ''/'') then Some (F_port, FIND_PATH)
     else if c = None then Some (F_port, DONE)
     else None)"
| "url_step FIND_PATH c = (if c = None then Some (F_path, DONE) else None)"
| "url_step DONE c = None"

fun url_assign :: "url_field \<Rightarrow> string \<Rightarrow> waitress_url \<Rightarrow> waitress_url" where
  "url_assign F_user s u = u\<lparr>url_user := Some s\<rparr>"
| "url_assign F_password s u = u\<lparr>url_password := Some s\<rparr>"
| "url_assign F_host s u = u\<lparr>url_host := Some s\<rparr>"
| "url_assign F_port s u = u\<lparr>url_port := Some s\<rparr>"
| "url_assign F_path s u = u\<lparr>url_path := Some s\<rparr>"

text \<open>\<open>tok\<close> is the text between \<open>assignStart\<close> and \<open>urlPos\<close>.\<close>

fun url_loop :: "url_state \<Rightarrow> string \<Rightarrow> string \<Rightarrow> waitress_url \<Rightarrow> waitress_url" where
  "url_loop state tok [] u = (case url_step state None of
      None \<Rightarrow> u
    | Some (f, _) \<Rightarrow> url_assign f tok u)"
| "url_loop state tok (c # cs) u = (case url_step state (Some c) of
      None \<Rightarrow> url_loop state (tok @ [c]) cs u
    | Some (f, state') \<Rightarrow> url_loop state' [] cs (url_assign f tok u))"

definition httpPrefix :: string where
  "httpPrefix = ''http://''"

definition url_fix :: "waitress_url \<Rightarrow> waitress_url" where
  "url_fix u = (if url_user u \<noteq> None \<and> url_host u = None \<and> url_port u \<noteq> None
    then u\<lparr>url_host := url_user u, url_user := None\<rparr> else u)"

text \<open>The result is the flag and the structure, whose other fields keep what they held before the call.\<close>

definition WaitressSplitUrl :: "string \<Rightarrow> waitress_url \<Rightarrow> bool \<times> waitress_url" where
  "WaitressSplitUrl inurl retUrl =
    (if has_prefix httpPrefix inurl
     then let rest = drop (length httpPrefix) inurl;
              state = (if rest = [] then DONE else FIND_USER)
          in (True, url_fix (url_loop state [] rest retUrl))
     else (False, retUrl))"

subsection \<open>Reading back a URL written from its parts\<close>

definition opt_text :: "string \<Rightarrow> string option \<Rightarrow> string \<Rightarrow> string" where
  "opt_text before x after = (case x of None \<Rightarrow> [] | Some s \<Rightarrow> before @ s @ after)"

definition url_text :: "waitress_url \<Rightarrow> string" where
  "url_text u = httpPrefix
    @ (case url_user u of None \<Rightarrow> [] | Some usr \<Rightarrow> usr @ opt_text '':'' (url_password u) [] @ ''@'')
    @ the (url_host u) @ opt_text '':'' (url_port u) [] @ opt_text ''/'' (url_path u) []"

text \<open>
  A URL whose parts can be told apart: a host, a password only with a user, and no part holding a character that
  ends it.  Without credentials the host and port must not contain an at sign, as the code looks for credentials first.
\<close>

definition url_parts_ok :: "waitress_url \<Rightarrow> bool" where
  "url_parts_ok u \<longleftrightarrow>
    (\<exists>h. url_host u = Some h \<and> h \<noteq> [] \<and> CHR '':'' \<notin> set h \<and> CHR ''/'' \<notin> set h
      \<and> (url_user u = None \<longrightarrow> CHR ''@'' \<notin> set h))
    \<and> (\<forall>p. url_port u = Some p \<longrightarrow> CHR ''/'' \<notin> set p \<and> (url_user u = None \<longrightarrow> CHR ''@'' \<notin> set p))
    \<and> (\<forall>s. url_user u = Some s \<longrightarrow> CHR '':'' \<notin> set s \<and> CHR ''@'' \<notin> set s \<and> CHR ''/'' \<notin> set s)
    \<and> (\<forall>s. url_password u = Some s \<longrightarrow> url_user u \<noteq> None \<and> CHR ''@'' \<notin> set s \<and> CHR ''/'' \<notin> set s)"

lemma url_loop_scan:
  "(\<forall>c \<in> set s. url_step state (Some c) = None) \<Longrightarrow>
    url_loop state tok (s @ rest) u = url_loop state (tok @ s) rest u"
  by (induction s arbitrary: tok) auto

lemma url_loop_path: "url_loop FIND_PATH [] s u = u\<lparr>url_path := Some s\<rparr>"
  using url_loop_scan [of s FIND_PATH "[]" "[]" u] by simp

lemma url_loop_port:
  assumes "CHR ''/'' \<notin> set p"
  shows "url_loop FIND_PORT [] (p @ opt_text ''/'' path []) u =
    u\<lparr>url_port := Some p, url_path := (case path of None \<Rightarrow> url_path u | Some x \<Rightarrow> Some x)\<rparr>"
proof -
  have "url_loop FIND_PORT [] (p @ opt_text ''/'' path []) u =
      url_loop FIND_PORT p (opt_text ''/'' path []) u"
    using assms url_loop_scan [of p FIND_PORT "[]" "opt_text ''/'' path []" u] by fastforce
  then show ?thesis by (cases path) (simp_all add: opt_text_def url_loop_path)
qed

lemma url_loop_host:
  assumes "CHR '':'' \<notin> set h" and "CHR ''/'' \<notin> set h" and "\<forall>p. port = Some p \<longrightarrow> CHR ''/'' \<notin> set p"
  shows "url_loop FIND_HOST [] (h @ opt_text '':'' port [] @ opt_text ''/'' path []) u =
    u\<lparr>url_host := Some h, url_port := (case port of None \<Rightarrow> url_port u | Some x \<Rightarrow> Some x),
      url_path := (case path of None \<Rightarrow> url_path u | Some x \<Rightarrow> Some x)\<rparr>"
proof -
  have "url_loop FIND_HOST [] (h @ opt_text '':'' port [] @ opt_text ''/'' path []) u =
      url_loop FIND_HOST h (opt_text '':'' port [] @ opt_text ''/'' path []) u"
    using assms url_loop_scan [of h FIND_HOST "[]" "opt_text '':'' port [] @ opt_text ''/'' path []" u]
    by fastforce
  moreover have "url_loop FIND_PORT [] (p @ opt_text ''/'' path []) v =
      v\<lparr>url_port := Some p, url_path := (case path of None \<Rightarrow> url_path v | Some x \<Rightarrow> Some x)\<rparr>"
    if "port = Some p" for p v
    using url_loop_port assms(3) that by blast
  ultimately show ?thesis
    by (cases port; cases path) (simp_all add: opt_text_def url_loop_path)
qed

lemma url_loop_pass_port:
  assumes "CHR ''/'' \<notin> set p" and "CHR ''@'' \<notin> set p"
  shows "url_loop FIND_PASS [] (p @ opt_text ''/'' path []) u =
    u\<lparr>url_port := Some p, url_path := (case path of None \<Rightarrow> url_path u | Some x \<Rightarrow> Some x)\<rparr>"
proof -
  have "url_loop FIND_PASS [] (p @ opt_text ''/'' path []) u =
      url_loop FIND_PASS p (opt_text ''/'' path []) u"
    using assms url_loop_scan [of p FIND_PASS "[]" "opt_text ''/'' path []" u] by fastforce
  then show ?thesis by (cases path) (simp_all add: opt_text_def url_loop_path)
qed

lemma url_loop_no_credentials:
  assumes "CHR '':'' \<notin> set h" "CHR ''/'' \<notin> set h" "CHR ''@'' \<notin> set h"
    and "\<forall>p. port = Some p \<longrightarrow> CHR ''/'' \<notin> set p \<and> CHR ''@'' \<notin> set p"
  shows "url_fix (url_loop FIND_USER [] (h @ opt_text '':'' port [] @ opt_text ''/'' path []) no_url) =
    \<lparr>url_user = None, url_password = None, url_host = Some h, url_port = port, url_path = path\<rparr>"
proof -
  have host: "url_loop FIND_USER [] (h @ opt_text '':'' port [] @ opt_text ''/'' path []) no_url =
      url_loop FIND_USER h (opt_text '':'' port [] @ opt_text ''/'' path []) no_url"
    using assms url_loop_scan [of h FIND_USER "[]" "opt_text '':'' port [] @ opt_text ''/'' path []" no_url]
    by fastforce
  show ?thesis
    unfolding host
    using assms(4) url_loop_pass_port [of _ path]
    by (cases port; cases path)
      (simp_all add: opt_text_def url_loop_path no_url_def url_fix_def)
qed

lemma url_loop_credentials:
  assumes "CHR '':'' \<notin> set usr" "CHR ''/'' \<notin> set usr" "CHR ''@'' \<notin> set usr"
    and "\<forall>p. pass = Some p \<longrightarrow> CHR ''/'' \<notin> set p \<and> CHR ''@'' \<notin> set p"
  shows "url_loop FIND_USER [] (usr @ opt_text '':'' pass [] @ ''@'' @ rest) no_url =
    url_loop FIND_HOST [] rest (no_url\<lparr>url_user := Some usr, url_password := pass\<rparr>)"
proof -
  have usr: "url_loop FIND_USER [] (usr @ opt_text '':'' pass [] @ ''@'' @ rest) no_url =
      url_loop FIND_USER usr (opt_text '':'' pass [] @ ''@'' @ rest) no_url"
    using assms url_loop_scan [of usr FIND_USER "[]" "opt_text '':'' pass [] @ ''@'' @ rest" no_url]
    by fastforce
  have pass: "url_loop FIND_PASS [] (p @ ''@'' @ rest) u = url_loop FIND_PASS p (''@'' @ rest) u"
    if "pass = Some p" for p u
    using assms(4) that url_loop_scan [of p FIND_PASS "[]" "''@'' @ rest" u] by fastforce
  show ?thesis
    unfolding usr by (cases pass) (simp_all add: opt_text_def no_url_def pass [simplified])
qed

lemma has_prefix_append [simp]: "has_prefix p (p @ xs)"
  by (simp add: has_prefix_iff)

text \<open>
  C18: The URL splitter reads back every URL that can be written from its parts: for a structure whose parts hold none of
  the delimiters that end them, splitting its text fills a cleared structure with exactly these parts.
\<close>
theorem WaitressSplitUrl_roundtrip:
  assumes "url_parts_ok u"
  shows "WaitressSplitUrl (url_text u) no_url = (True, u)"
proof -
  obtain h where h: "url_host u = Some h" "h \<noteq> []" "CHR '':'' \<notin> set h" "CHR ''/'' \<notin> set h"
    using assms by (auto simp: url_parts_ok_def)
  show ?thesis
  proof (cases "url_user u")
    case None
    then have "url_fix (url_loop FIND_USER [] (h @ opt_text '':'' (url_port u) [] @ opt_text ''/'' (url_path u) []) no_url) = u"
      using assms h url_loop_no_credentials [of h "url_port u" "url_path u"]
      by (cases u) (auto simp: url_parts_ok_def)
    then show ?thesis using None h by (simp add: WaitressSplitUrl_def url_text_def)
  next
    case (Some usr)
    let ?rest = "h @ opt_text '':'' (url_port u) [] @ opt_text ''/'' (url_path u) []"
    have "url_loop FIND_USER [] (usr @ opt_text '':'' (url_password u) [] @ ''@'' @ ?rest) no_url = u"
      using assms h Some url_loop_credentials [of usr "url_password u" ?rest]
        url_loop_host [of h "url_port u" "url_path u"]
      by (cases u) (auto simp: url_parts_ok_def no_url_def split: option.splits)
    then show ?thesis using Some h by (simp add: WaitressSplitUrl_def url_text_def url_fix_def)
  qed
qed

theorem WaitressSplitUrl_roundtrip_witness:
  "WaitressSplitUrl (url_text \<lparr>url_user = Some ''joe'', url_password = Some ''pw'', url_host = Some ''proxy'',
      url_port = Some ''80'', url_path = Some ''a/b''\<rparr>) no_url =
    (True, \<lparr>url_user = Some ''joe'', url_password = Some ''pw'', url_host = Some ''proxy'',
      url_port = Some ''80'', url_path = Some ''a/b''\<rparr>)"
  by (rule WaitressSplitUrl_roundtrip) (simp add: url_parts_ok_def)

text \<open>
  The structure is not cleared first: a second URL inherits what it does not set itself, here the
  credentials of the first one.
\<close>

lemma WaitressSplitUrl_keeps_credentials:
  "WaitressSplitUrl ''http://b/'' (snd (WaitressSplitUrl ''http://joe:pw@a/'' no_url)) =
    (True, \<lparr>url_user = Some ''joe'', url_password = Some ''pw'', url_host = Some ''b'',
      url_port = None, url_path = Some []\<rparr>)"
  by (simp add: WaitressSplitUrl_def httpPrefix_def no_url_def url_fix_def)

section \<open>Return codes\<close>

abbreviation (input) WAITRESS_RET_ERR :: int where "WAITRESS_RET_ERR \<equiv> 0"
abbreviation (input) WAITRESS_RET_OK :: int where "WAITRESS_RET_OK \<equiv> 1"
abbreviation (input) WAITRESS_RET_CB_ABORT :: int where "WAITRESS_RET_CB_ABORT \<equiv> 2"
abbreviation (input) WAITRESS_RET_STATUS_UNKNOWN :: int where "WAITRESS_RET_STATUS_UNKNOWN \<equiv> 3"
abbreviation (input) WAITRESS_RET_NOTFOUND :: int where "WAITRESS_RET_NOTFOUND \<equiv> 4"
abbreviation (input) WAITRESS_RET_FORBIDDEN :: int where "WAITRESS_RET_FORBIDDEN \<equiv> 5"
abbreviation (input) WAITRESS_RET_BAD_REQUEST :: int where "WAITRESS_RET_BAD_REQUEST \<equiv> 6"
abbreviation (input) WAITRESS_RET_CONNECT_REFUSED :: int where "WAITRESS_RET_CONNECT_REFUSED \<equiv> 7"
abbreviation (input) WAITRESS_RET_SOCK_ERR :: int where "WAITRESS_RET_SOCK_ERR \<equiv> 8"
abbreviation (input) WAITRESS_RET_GETADDR_ERR :: int where "WAITRESS_RET_GETADDR_ERR \<equiv> 9"
abbreviation (input) WAITRESS_RET_TIMEOUT :: int where "WAITRESS_RET_TIMEOUT \<equiv> 10"
abbreviation (input) WAITRESS_RET_READ_ERR :: int where "WAITRESS_RET_READ_ERR \<equiv> 11"
abbreviation (input) WAITRESS_RET_CONNECTION_CLOSED :: int where "WAITRESS_RET_CONNECTION_CLOSED \<equiv> 12"
abbreviation (input) WAITRESS_RET_TLS_WRITE_ERR :: int where "WAITRESS_RET_TLS_WRITE_ERR \<equiv> 13"
abbreviation (input) WAITRESS_RET_TLS_READ_ERR :: int where "WAITRESS_RET_TLS_READ_ERR \<equiv> 14"
abbreviation (input) WAITRESS_RET_PARTIAL_FILE :: int where "WAITRESS_RET_PARTIAL_FILE \<equiv> 15"
abbreviation (input) WAITRESS_RET_DECODING_ERR :: int where "WAITRESS_RET_DECODING_ERR \<equiv> 16"
abbreviation (input) WAITRESS_RET_TLS_HANDSHAKE_ERR :: int where "WAITRESS_RET_TLS_HANDSHAKE_ERR \<equiv> 17"
abbreviation (input) WAITRESS_RET_TLS_FINGERPRINT_MISMATCH :: int where "WAITRESS_RET_TLS_FINGERPRINT_MISMATCH \<equiv> 18"

definition waitress_errors :: "(int \<times> string) list" where
  "waitress_errors = [
    (1, ''Everything's fine :)''), (0, ''Unknown.''), (3, ''Unknown HTTP status code.''),
    (4, ''File not found.''), (5, ''Forbidden.''), (7, ''Connection refused.''), (8, ''Socket error.''),
    (9, ''DNS lookup failed.''), (2, ''Callback aborted request.''), (15, ''Partial file.''),
    (10, ''Timeout.''), (11, ''Read error.''), (12, ''Connection closed by remote host.''),
    (16, ''Invalid encoded data.''), (13, ''TLS write failed.''), (14, ''TLS read failed.''),
    (17, ''TLS handshake failed.''), (18, ''TLS fingerprint mismatch.'')]"

definition WaitressErrorToStr :: "int \<Rightarrow> string" where
  "WaitressErrorToStr wRet = (case map_of waitress_errors wRet of
      Some t \<Rightarrow> t | None \<Rightarrow> ''No error message available.'')"

end
