(* ===== verification/Piano.thy ===== *)
theory Piano
  imports Waitress
begin

text \<open>
  libpiano: the data of the Pandora service (\<open>src/src/libpiano/piano.h\<close>), the list functions
  (\<open>list.c\<close>), the lookups of \<open>piano.c\<close> and of \<open>src/src/pianoextra.c\<close>, and the error texts.

  A linked list is a HOL list.  A pointer to an element of the station list is the
  station's id, which names one station of the list.  A string the code may leave NULL is an option.
  Return codes are the integers of the C enumeration; server error codes are added to an offset there.
\<close>

section \<open>Data\<close>

record station =
  isCreator :: bool
  isQuickMix :: bool
  useQuickMix :: bool
  st_name :: string
  st_id :: string
  st_seedId :: "string option"

datatype rating = PIANO_RATE_NONE | PIANO_RATE_LOVE | PIANO_RATE_BAN

datatype audio_format = PIANO_AF_UNKNOWN | PIANO_AF_AACPLUS | PIANO_AF_MP3

datatype audio_quality = PIANO_AQ_UNKNOWN | PIANO_AQ_LOW | PIANO_AQ_MEDIUM | PIANO_AQ_HIGH

record song =
  artist :: string
  stationId :: "string option"
  album :: "string option"
  audioUrl :: "string option"
  coverArt :: "string option"
  musicId :: "string option"
  title :: string
  seedId :: "string option"
  feedbackId :: "string option"
  detailUrl :: "string option"
  trackToken :: "string option"
  fileGain :: rat
  song_length :: nat
  song_rating :: rating
  audioFormat :: audio_format

record artist =
  artist_name :: string
  artist_musicId :: "string option"
  artist_seedId :: "string option"
  score :: int

record genre =
  genre_name :: string
  genre_musicId :: string

record genre_category =
  category_name :: string
  genres :: "genre list"

record partner =
  partner_authToken :: "string option"
  partner_device :: string
  partner_user :: string
  partner_password :: string
  partner_id :: int

record piano_handle =
  listenerId :: "string option"
  authToken :: "string option"
  stations :: "station list"
  genreStations :: "genre_category list"
  ph_partner :: partner
  timeOffset :: int

record search_result =
  found_songs :: "song list"
  found_artists :: "artist list"

record station_info =
  songSeeds :: "song list"
  artistSeeds :: "artist list"
  stationSeeds :: "station list"
  feedback :: "song list"

text \<open>Records as calloc leaves them.\<close>

definition no_station :: station where
  "no_station = \<lparr>isCreator = False, isQuickMix = False, useQuickMix = False, st_name = [], st_id = [],
    st_seedId = None\<rparr>"

definition no_song :: song where
  "no_song = \<lparr>artist = [], stationId = None, album = None, audioUrl = None, coverArt = None, musicId = None,
    title = [], seedId = None, feedbackId = None, detailUrl = None, trackToken = None, fileGain = 0,
    song_length = 0, song_rating = PIANO_RATE_NONE, audioFormat = PIANO_AF_UNKNOWN\<rparr>"

definition no_artist :: artist where
  "no_artist = \<lparr>artist_name = [], artist_musicId = None, artist_seedId = None, score = 0\<rparr>"

definition no_search_result :: search_result where
  "no_search_result = \<lparr>found_songs = [], found_artists = []\<rparr>"

definition no_station_info :: station_info where
  "no_station_info = \<lparr>songSeeds = [], artistSeeds = [], stationSeeds = [], feedback = []\<rparr>"

section \<open>Lists (list.c)\<close>

definition PianoListAppend :: "'a list \<Rightarrow> 'a \<Rightarrow> 'a list" where
  "PianoListAppend l e = l @ [e]"

definition PianoListPrepend :: "'a list \<Rightarrow> 'a \<Rightarrow> 'a list" where
  "PianoListPrepend l e = e # l"

text \<open>The element to delete is given by address; \<open>here\<close> tells whether an element is the one meant.\<close>

fun PianoListDelete :: "('a \<Rightarrow> bool) \<Rightarrow> 'a list \<Rightarrow> 'a list" where
  "PianoListDelete here [] = []"
| "PianoListDelete here (cur # rest) = (if here cur then rest else cur # PianoListDelete here rest)"

fun PianoListGet :: "'a list \<Rightarrow> nat \<Rightarrow> 'a option" where
  "PianoListGet [] i = None"
| "PianoListGet (cur # rest) i = (if i = 0 then Some cur else PianoListGet rest (i - 1))"

fun PianoListCount :: "'a list \<Rightarrow> nat" where
  "PianoListCount [] = 0"
| "PianoListCount (_ # rest) = Suc (PianoListCount rest)"

lemma PianoListCount_length [simp]: "PianoListCount l = length l"
  by (induction l) auto

lemma PianoListGet_nth: "PianoListGet l i = (if i < length l then Some (l ! i) else None)"
  by (induction l arbitrary: i) (auto simp: nth_Cons')

lemma PianoListDelete_set: "set (PianoListDelete here l) \<subseteq> set l"
  by (induction l) auto

lemma PianoListDelete_notin: "\<not> (\<exists>x \<in> set l. here x) \<Longrightarrow> PianoListDelete here l = l"
  by (induction l) auto

section \<open>Lookups (piano.c, pianoextra.c)\<close>

fun PianoFindStationById :: "station list \<Rightarrow> string \<Rightarrow> station option" where
  "PianoFindStationById [] searchStation = None"
| "PianoFindStationById (s # rest) searchStation =
    (if strcmp (st_id s) searchStation = 0 then Some s else PianoFindStationById rest searchStation)"

fun PianoFindStationByName :: "station list \<Rightarrow> string \<Rightarrow> station option" where
  "PianoFindStationByName [] searchStation = None"
| "PianoFindStationByName (s # rest) searchStation =
    (if strcasecmp (st_name s) searchStation = 0 then Some s else PianoFindStationByName rest searchStation)"

fun PianoFindQuickMixStation :: "station list \<Rightarrow> station option" where
  "PianoFindQuickMixStation [] = None"
| "PianoFindQuickMixStation (s # rest) = (if isQuickMix s then Some s else PianoFindQuickMixStation rest)"

text \<open>Every song of a playlist has a track token; a song without one is never searched for.\<close>

fun PianoFindSongById :: "song list \<Rightarrow> string \<Rightarrow> (nat \<times> song) option" where
  "PianoFindSongById [] searchSong = None"
| "PianoFindSongById (s # rest) searchSong =
    (if trackToken s = Some searchSong then Some (0, s)
     else map_option (\<lambda>(i, x). (Suc i, x)) (PianoFindSongById rest searchSong))"

definition PianoGetAudioQualityName :: "audio_quality \<Rightarrow> string option" where
  "PianoGetAudioQualityName q = (case q of
      PIANO_AQ_LOW \<Rightarrow> Some ''low''
    | PIANO_AQ_MEDIUM \<Rightarrow> Some ''medium''
    | PIANO_AQ_HIGH \<Rightarrow> Some ''high''
    | PIANO_AQ_UNKNOWN \<Rightarrow> None)"

lemma PianoFindStationById_find: "PianoFindStationById l i = List.find (\<lambda>s. st_id s = i) l"
  by (induction l) (simp_all add: strcmp_eq_0)

lemma PianoFindStationById_SomeD: "PianoFindStationById l i = Some s \<Longrightarrow> s \<in> set l \<and> st_id s = i"
  by (auto simp: PianoFindStationById_find dest: find_SomeD)

lemma PianoFindStationById_None: "PianoFindStationById l i = None \<longleftrightarrow> i \<notin> st_id ` set l"
  by (auto simp: PianoFindStationById_find find_None_iff)

lemma PianoFindStationById_unique:
  "\<lbrakk>distinct (map st_id l); s \<in> set l\<rbrakk> \<Longrightarrow> PianoFindStationById l (st_id s) = Some s"
  by (induction l) (auto simp: strcmp_eq_0)

lemma PianoFindStationByName_SomeD:
  "PianoFindStationByName l n = Some s \<Longrightarrow> s \<in> set l \<and> strcasecmp (st_name s) n = 0"
  by (induction l) (auto split: if_splits)

lemma PianoFindQuickMixStation_SomeD:
  "PianoFindQuickMixStation l = Some s \<Longrightarrow> s \<in> set l \<and> isQuickMix s"
  by (induction l) (auto split: if_splits)

lemma PianoFindSongById_SomeD:
  "PianoFindSongById l i = Some (n, s) \<Longrightarrow> n < length l \<and> l ! n = s \<and> trackToken s = Some i"
  by (induction l arbitrary: n) (auto split: if_splits)

text \<open>Writing through a pointer to a station of the list.\<close>

fun update_station :: "string \<Rightarrow> (station \<Rightarrow> station) \<Rightarrow> station list \<Rightarrow> station list" where
  "update_station i f [] = []"
| "update_station i f (s # rest) = (if st_id s = i then f s # rest else s # update_station i f rest)"

lemma update_station_ids: "(\<And>s. st_id (f s) = st_id s) \<Longrightarrow> map st_id (update_station i f l) = map st_id l"
  by (induction l) auto

lemma update_station_length [simp]: "length (update_station i f l) = length l"
  by (induction l) auto

section \<open>Return codes\<close>

abbreviation (input) PIANO_RET_ERR :: int where "PIANO_RET_ERR \<equiv> 0"
abbreviation (input) PIANO_RET_OK :: int where "PIANO_RET_OK \<equiv> 1"
abbreviation (input) PIANO_RET_INVALID_RESPONSE :: int where "PIANO_RET_INVALID_RESPONSE \<equiv> 2"
abbreviation (input) PIANO_RET_CONTINUE_REQUEST :: int where "PIANO_RET_CONTINUE_REQUEST \<equiv> 3"
abbreviation (input) PIANO_RET_OUT_OF_MEMORY :: int where "PIANO_RET_OUT_OF_MEMORY \<equiv> 4"
abbreviation (input) PIANO_RET_INVALID_LOGIN :: int where "PIANO_RET_INVALID_LOGIN \<equiv> 5"
abbreviation (input) PIANO_RET_QUALITY_UNAVAILABLE :: int where "PIANO_RET_QUALITY_UNAVAILABLE \<equiv> 6"
abbreviation (input) PIANO_RET_GCRY_ERR :: int where "PIANO_RET_GCRY_ERR \<equiv> 7"
abbreviation (input) PIANO_RET_OFFSET :: int where "PIANO_RET_OFFSET \<equiv> 1024"
abbreviation (input) PIANO_RET_P_INVALID_AUTH_TOKEN :: int where "PIANO_RET_P_INVALID_AUTH_TOKEN \<equiv> 2025"
abbreviation (input) PIANO_RET_P_INVALID_PARTNER_LOGIN :: int where "PIANO_RET_P_INVALID_PARTNER_LOGIN \<equiv> 2026"

text \<open>The text for CONTINUE_REQUEST sits behind an assertion; the callers never ask for it.\<close>

definition PianoErrorToStr :: "int \<Rightarrow> string" where
  "PianoErrorToStr ret =
    (if ret = PIANO_RET_OK then ''Everything is fine :)''
     else if ret = PIANO_RET_ERR then ''Unknown.''
     else if ret = PIANO_RET_INVALID_RESPONSE then ''Invalid response.''
     else if ret = PIANO_RET_CONTINUE_REQUEST then ''Fix your program.''
     else if ret = PIANO_RET_OUT_OF_MEMORY then ''Out of memory.''
     else if ret = PIANO_RET_INVALID_LOGIN then ''Wrong email address or password.''
     else if ret = PIANO_RET_QUALITY_UNAVAILABLE then ''Selected audio quality is not available.''
     else if ret = PIANO_RET_GCRY_ERR then ''libgcrypt initialization failed.''
     else if ret = PIANO_RET_OFFSET + 0 then ''Internal error.''
     else if ret = PIANO_RET_OFFSET + 1008 then ''Call not allowed.''
     else if ret = PIANO_RET_P_INVALID_AUTH_TOKEN then ''Invalid auth token.''
     else if ret = PIANO_RET_OFFSET + 1 then ''Maintenance mode.''
     else if ret = PIANO_RET_OFFSET + 1005 then ''Max number of stations reached.''
     else if ret = PIANO_RET_OFFSET + 1000 then ''Read only mode. Try again later.''
     else if ret = PIANO_RET_OFFSET + 1006 then ''Station does not exist.''
     else if ret = PIANO_RET_P_INVALID_PARTNER_LOGIN then ''Invalid partner login.''
     else if ret = PIANO_RET_OFFSET + 12 then ''Pandora is not available in your country. ''
       @ ''Set up a control proxy (see manpage).''
     else if ret = PIANO_RET_OFFSET + 1010 then ''Invalid partner credentials.''
     else if ret = PIANO_RET_OFFSET + 1003 then ''Listener not authorized.''
     else if ret = PIANO_RET_OFFSET + 1039 then ''Access denied. Try again later.''
     else ''No error message available.'')"

end
