(* ===== verification/Response.thy ===== *)
theory Response
  imports Piano
begin

text \<open>
  The status codes of the line protocol and their texts (\<open>src/src/response.h\<close> and the tables of
  \<open>src/src/response.c\<close>), the log levels of \<open>src/src/logging.h\<close>, and the connections of the
  service with what has been sent to them.

  A code is the integer of the C enumeration, under its name.  The build has capture and shoutcast enabled; VERSION is
  the version of \<open>configure.ac\<close>.

  \<open>out\<close> of a service is the log of the lines sent, newest last, each with its addressee.  What football does
  with a line on its way to the socket, and the diagnostics of flog, are not part of it.
\<close>

section \<open>Codes\<close>

abbreviation (input) I_WELCOME :: int where "I_WELCOME \<equiv> 100"
abbreviation (input) I_PLAYING :: int where "I_PLAYING \<equiv> 101"
abbreviation (input) I_PAUSED :: int where "I_PAUSED \<equiv> 102"
abbreviation (input) I_STOPPED :: int where "I_STOPPED \<equiv> 103"
abbreviation (input) I_BETWEEN_TRACKS :: int where "I_BETWEEN_TRACKS \<equiv> 104"
abbreviation (input) I_TRACK_COMPLETE :: int where "I_TRACK_COMPLETE \<equiv> 105"
abbreviation (input) I_STALLED :: int where "I_STALLED \<equiv> 106"
abbreviation (input) I_SELECTEDSTATION_NONE :: int where "I_SELECTEDSTATION_NONE \<equiv> 108"
abbreviation (input) I_SELECTEDSTATION :: int where "I_SELECTEDSTATION \<equiv> 109"
abbreviation (input) I_ID :: int where "I_ID \<equiv> 111"
abbreviation (input) I_ALBUM :: int where "I_ALBUM \<equiv> 112"
abbreviation (input) I_ARTIST :: int where "I_ARTIST \<equiv> 113"
abbreviation (input) I_SONG :: int where "I_SONG \<equiv> 114"
abbreviation (input) I_STATION :: int where "I_STATION \<equiv> 115"
abbreviation (input) I_RATING :: int where "I_RATING \<equiv> 116"
abbreviation (input) I_INFO_URL :: int where "I_INFO_URL \<equiv> 117"
abbreviation (input) I_COVERART :: int where "I_COVERART \<equiv> 118"
abbreviation (input) I_GENRE :: int where "I_GENRE \<equiv> 119"
abbreviation (input) I_USERRATING :: int where "I_USERRATING \<equiv> 120"
abbreviation (input) I_CHOICEEXPLANATION :: int where "I_CHOICEEXPLANATION \<equiv> 121"
abbreviation (input) I_YELL :: int where "I_YELL \<equiv> 131"
abbreviation (input) I_INFO :: int where "I_INFO \<equiv> 132"
abbreviation (input) I_SERVER_STATUS :: int where "I_SERVER_STATUS \<equiv> 133"
abbreviation (input) I_MIX_CHANGED :: int where "I_MIX_CHANGED \<equiv> 134"
abbreviation (input) I_STATIONS_CHANGED :: int where "I_STATIONS_CHANGED \<equiv> 135"
abbreviation (input) I_USER_PRIVILEGES :: int where "I_USER_PRIVILEGES \<equiv> 136"
abbreviation (input) I_USERRATINGS_CHANGED :: int where "I_USERRATINGS_CHANGED \<equiv> 137"
abbreviation (input) I_VOLUME :: int where "I_VOLUME \<equiv> 141"
abbreviation (input) I_HISTORYSIZE :: int where "I_HISTORYSIZE \<equiv> 142"
abbreviation (input) I_AUDIOQUALITY :: int where "I_AUDIOQUALITY \<equiv> 143"
abbreviation (input) I_AUTOTUNE_MODE :: int where "I_AUTOTUNE_MODE \<equiv> 144"
abbreviation (input) I_PANDORA_RETRY :: int where "I_PANDORA_RETRY \<equiv> 145"
abbreviation (input) I_PAUSE_TIMEOUT :: int where "I_PAUSE_TIMEOUT \<equiv> 146"
abbreviation (input) I_PLAYLIST_TIMEOUT :: int where "I_PLAYLIST_TIMEOUT \<equiv> 147"
abbreviation (input) I_PROXY :: int where "I_PROXY \<equiv> 161"
abbreviation (input) I_CONTROLPROXY :: int where "I_CONTROLPROXY \<equiv> 162"
abbreviation (input) I_RPCHOST :: int where "I_RPCHOST \<equiv> 163"
abbreviation (input) I_RPCTLSPORT :: int where "I_RPCTLSPORT \<equiv> 164"
abbreviation (input) I_PARTNERUSER :: int where "I_PARTNERUSER \<equiv> 165"
abbreviation (input) I_PARTNERPASSWORD :: int where "I_PARTNERPASSWORD \<equiv> 166"
abbreviation (input) I_PANDORADEVICE :: int where "I_PANDORADEVICE \<equiv> 167"
abbreviation (input) I_ENCRYPTION_PASSWORD :: int where "I_ENCRYPTION_PASSWORD \<equiv> 168"
abbreviation (input) I_DECRYPTION_PASSWORD :: int where "I_DECRYPTION_PASSWORD \<equiv> 169"
abbreviation (input) I_PANDORA_USER :: int where "I_PANDORA_USER \<equiv> 170"
abbreviation (input) I_PANDORA_PASSWORD :: int where "I_PANDORA_PASSWORD \<equiv> 171"
abbreviation (input) I_TLSFINGERPRINT :: int where "I_TLSFINGERPRINT \<equiv> 172"
abbreviation (input) I_OUTPUT_DRIVER :: int where "I_OUTPUT_DRIVER \<equiv> 181"
abbreviation (input) I_OUTPUT_DEVICE :: int where "I_OUTPUT_DEVICE \<equiv> 182"
abbreviation (input) I_OUTPUT_ID :: int where "I_OUTPUT_ID \<equiv> 183"
abbreviation (input) I_OUTPUT_SERVER :: int where "I_OUTPUT_SERVER \<equiv> 184"
abbreviation (input) I_CAPTUREPATH :: int where "I_CAPTUREPATH \<equiv> 190"
abbreviation (input) I_SHOUTCAST :: int where "I_SHOUTCAST \<equiv> 191"
abbreviation (input) S_OK :: int where "S_OK \<equiv> 200"
abbreviation (input) S_ANSWER_YES :: int where "S_ANSWER_YES \<equiv> 201"
abbreviation (input) S_ANSWER_NO :: int where "S_ANSWER_NO \<equiv> 202"
abbreviation (input) S_DATA :: int where "S_DATA \<equiv> 203"
abbreviation (input) S_DATA_END :: int where "S_DATA_END \<equiv> 204"
abbreviation (input) S_SIGNOFF :: int where "S_SIGNOFF \<equiv> 205"
abbreviation (input) I_ERROR_DETAIL :: int where "I_ERROR_DETAIL \<equiv> 300"
abbreviation (input) I_PROXY_CONFIG :: int where "I_PROXY_CONFIG \<equiv> 301"
abbreviation (input) I_STATION_INVALID :: int where "I_STATION_INVALID \<equiv> 303"
abbreviation (input) I_NOTFOUND :: int where "I_NOTFOUND \<equiv> 304"
abbreviation (input) E_BAD_COMMAND :: int where "E_BAD_COMMAND \<equiv> 400"
abbreviation (input) E_UNAUTHORIZED :: int where "E_UNAUTHORIZED \<equiv> 401"
abbreviation (input) E_NAK :: int where "E_NAK \<equiv> 402"
abbreviation (input) E_DUPLICATE :: int where "E_DUPLICATE \<equiv> 403"
abbreviation (input) E_NOTFOUND :: int where "E_NOTFOUND \<equiv> 404"
abbreviation (input) E_WRONG_STATE :: int where "E_WRONG_STATE \<equiv> 405"
abbreviation (input) E_CREDENTIALS :: int where "E_CREDENTIALS \<equiv> 406"
abbreviation (input) E_INVALID :: int where "E_INVALID \<equiv> 407"
abbreviation (input) E_TRANSFORM_FAILED :: int where "E_TRANSFORM_FAILED \<equiv> 408"
abbreviation (input) E_CONFLICT :: int where "E_CONFLICT \<equiv> 409"
abbreviation (input) E_REQUESTPENDING :: int where "E_REQUESTPENDING \<equiv> 410"
abbreviation (input) E_QUOTA :: int where "E_QUOTA \<equiv> 411"
abbreviation (input) E_LOGINREQUIRED :: int where "E_LOGINREQUIRED \<equiv> 412"
abbreviation (input) E_NOT_IMPLEMENTED :: int where "E_NOT_IMPLEMENTED \<equiv> 499"
abbreviation (input) E_FAILURE :: int where "E_FAILURE \<equiv> 500"
abbreviation (input) E_NETWORK_FAILURE :: int where "E_NETWORK_FAILURE \<equiv> 502"
abbreviation (input) E_SHUTDOWN :: int where "E_SHUTDOWN \<equiv> 503"
abbreviation (input) E_AUTHENTICATION :: int where "E_AUTHENTICATION \<equiv> 504"
abbreviation (input) E_RESOURCE :: int where "E_RESOURCE \<equiv> 505"
abbreviation (input) E_PANDORA :: int where "E_PANDORA \<equiv> 507"
abbreviation (input) E_INCOMPLETE :: int where "E_INCOMPLETE \<equiv> 508"
abbreviation (input) A_SIGNED_IN :: int where "A_SIGNED_IN \<equiv> 1000"
abbreviation (input) A_SIGNED_OUT :: int where "A_SIGNED_OUT \<equiv> 1001"
abbreviation (input) A_KICKED :: int where "A_KICKED \<equiv> 1002"
abbreviation (input) A_SKIPPED :: int where "A_SKIPPED \<equiv> 1010"
abbreviation (input) A_STOPPED :: int where "A_STOPPED \<equiv> 1011"
abbreviation (input) A_PAUSED :: int where "A_PAUSED \<equiv> 1012"
abbreviation (input) A_RESUMED :: int where "A_RESUMED \<equiv> 1013"
abbreviation (input) A_CHANGED_MIX :: int where "A_CHANGED_MIX \<equiv> 1014"
abbreviation (input) A_MIX_ADDED :: int where "A_MIX_ADDED \<equiv> 1015"
abbreviation (input) A_MIX_REMOVED :: int where "A_MIX_REMOVED \<equiv> 1016"
abbreviation (input) A_SELECTED_STATION :: int where "A_SELECTED_STATION \<equiv> 1020"
abbreviation (input) A_CREATED_STATION :: int where "A_CREATED_STATION \<equiv> 1021"
abbreviation (input) A_RENAMED_STATION :: int where "A_RENAMED_STATION \<equiv> 1022"
abbreviation (input) A_DELETED_STATION :: int where "A_DELETED_STATION \<equiv> 1023"
abbreviation (input) A_PANDORA_SET :: int where "A_PANDORA_SET \<equiv> 1030"
abbreviation (input) A_PANDORA_BORROW :: int where "A_PANDORA_BORROW \<equiv> 1031"

definition VERSION :: string where
  "VERSION = ''174.11-sc''"

definition response_texts :: "(int \<times> string) list" where
  "response_texts = [
    (I_WELCOME, ''pianod '' @ VERSION @ ''. Welcome!''),
    (I_PLAYING, ''Playing''),
    (I_STOPPED, ''Stopped''),
    (I_PAUSED, ''Paused''),
    (I_BETWEEN_TRACKS, ''Intertrack''),
    (I_STALLED, ''Stalled''),
    (I_TRACK_COMPLETE, ''Track playback complete''),
    (I_SELECTEDSTATION, ''SelectedStation''),
    (I_SELECTEDSTATION_NONE, ''No station selected''),
    (I_ID, ''ID''),
    (I_ALBUM, ''Album''),
    (I_ARTIST, ''Artist''),
    (I_SONG, ''Title''),
    (I_STATION, ''Station''),
    (I_RATING, ''Rating''),
    (I_COVERART, ''CoverArt''),
    (I_GENRE, ''Genre''),
    (I_USERRATING, ''UserRating''),
    (I_CHOICEEXPLANATION, ''Explanation''),
    (I_VOLUME, ''Volume''),
    (I_AUDIOQUALITY, ''Quality''),
    (I_CAPTUREPATH, ''CapturePath''),
    (I_SHOUTCAST, ''Shoutcast''),
    (I_HISTORYSIZE, ''HistoryLength''),
    (I_AUTOTUNE_MODE, ''AutotuneMode''),
    (I_PANDORA_RETRY, ''PandoraRetry''),
    (I_PAUSE_TIMEOUT, ''PauseTimeout''),
    (I_PLAYLIST_TIMEOUT, ''PlaylistTimeout''),
    (I_PROXY, ''Proxy''),
    (I_CONTROLPROXY, ''ControlProxy''),
    (I_PARTNERUSER, ''Partner''),
    (I_PARTNERPASSWORD, ''PartnerPassword''),
    (I_RPCHOST, ''RPCHost''),
    (I_RPCTLSPORT, ''RPCTLSPort''),
    (I_TLSFINGERPRINT, ''TlsFingerprint''),
    (I_PANDORADEVICE, ''DeviceType''),
    (I_PANDORA_USER, ''PandoraUser''),
    (I_PANDORA_PASSWORD, ''PandoraPassword''),
    (I_ENCRYPTION_PASSWORD, ''EncryptionPassword''),
    (I_DECRYPTION_PASSWORD, ''DecryptionPassword''),
    (I_OUTPUT_DRIVER, ''OutputDriver''),
    (I_OUTPUT_DEVICE, ''OutputDevice''),
    (I_OUTPUT_ID, ''OutputID''),
    (I_OUTPUT_SERVER, ''OutputServer''),
    (I_INFO_URL, ''SeeAlso''),
    (I_MIX_CHANGED, ''Mix has been changed''),
    (I_STATIONS_CHANGED, ''Station list has changed''),
    (I_USER_PRIVILEGES, ''Privileges''),
    (I_USERRATINGS_CHANGED, ''User ratings have changed''),
    (I_YELL, ''says''),
    (I_INFO, ''Information''),
    (I_SERVER_STATUS, ''Status''),
    (S_OK, ''Success''),
    (S_ANSWER_YES, ''True, yes, 1, on''),
    (S_ANSWER_NO, ''False, no, 0, off''),
    (S_DATA, ''Data request ok''),
    (S_DATA_END, ''No data or end of data''),
    (S_SIGNOFF, ''Good-bye''),
    (I_ERROR_DETAIL, ''Detail''),
    (I_PROXY_CONFIG, ''Proxy settings invalid''),
    (I_STATION_INVALID, ''Invalid station''),
    (I_NOTFOUND, ''Item not found''),
    (E_BAD_COMMAND, ''Bad command''),
    (E_UNAUTHORIZED, ''Not authorized for requested action''),
    (E_NAK, ''Action failed''),
    (E_DUPLICATE, ''Already exists''),
    (E_NOTFOUND, ''Requested item not found''),
    (E_WRONG_STATE, ''Action is not applicable to current player state''),
    (E_CREDENTIALS, ''Invalid login or password''),
    (E_REQUESTPENDING, ''Temporary failure, future completion status unknown''),
    (E_INVALID, ''Invalid parameter''),
    (E_TRANSFORM_FAILED, ''Station personalization failed''),
    (E_QUOTA, ''Quota exceeded''),
    (E_LOGINREQUIRED, ''Must be logged in''),
    (E_CONFLICT, ''Conflict encountered''),
    (E_FAILURE, ''Internal server error''),
    (E_NOT_IMPLEMENTED, ''Not implemented''),
    (E_NETWORK_FAILURE, ''Network failure ''),
    (E_SHUTDOWN, ''Service shutting down''),
    (E_AUTHENTICATION, ''Authentication failure''),
    (E_RESOURCE, ''Insufficent resources''),
    (E_PANDORA, ''Error communicating with Pandora''),
    (E_INCOMPLETE, ''Command execution incomplete''),
    (A_SIGNED_IN, ''signed in''),
    (A_SIGNED_OUT, ''has disconnected''),
    (A_KICKED, ''kicked''),
    (A_SKIPPED, ''skipped the song''),
    (A_STOPPED, ''stopped the player''),
    (A_PAUSED, ''paused playback''),
    (A_RESUMED, ''resumed playback''),
    (A_CHANGED_MIX, ''changed the mix''),
    (A_MIX_ADDED, ''added to the mix''),
    (A_MIX_REMOVED, ''removed from the mix''),
    (A_SELECTED_STATION, ''selected the station''),
    (A_CREATED_STATION, ''created the station''),
    (A_RENAMED_STATION, ''renamed the station''),
    (A_DELETED_STATION, ''deleted the station''),
    (A_PANDORA_SET, ''set new Pandora credentials''),
    (A_PANDORA_BORROW, ''borrowed Pandora credentials from'')]"

text \<open>The text of a code; a code without one fails the assertion at the end of the switch.\<close>

definition Response :: "int \<Rightarrow> string" where
  "Response response = (case map_of response_texts response of Some t \<Rightarrow> t | None \<Rightarrow> ''Unknown status'')"

section \<open>Log levels\<close>

text \<open>\<open>1 << level\<close>, with 5 for a level outside 1 to 5.\<close>

definition loglevel_of :: "int \<Rightarrow> nat" where
  "loglevel_of response = (let level = response div 100 in 2 ^ nat (if level < 1 \<or> level > 5 then 5 else level))"

text \<open>The filter of vflog: is a message of this level written under the current mask?\<close>

definition vflog_writes :: "nat \<Rightarrow> nat \<Rightarrow> bool" where
  "vflog_writes logging level \<longleftrightarrow> level = 0 \<or> logging AND level \<noteq> 0"

section \<open>Connections\<close>

datatype user_ref = UserNamed string | StartscriptUser

datatype wait_event = EVENT_NONE | EVENT_AUTHENTICATED | EVENT_TRACK_ENDED | EVENT_TRACK_STARTED

datatype conn_state = TLS_HANDSHAKE | GREETING | GATHERING_HEADER | OPEN | FLUSHING | CLOSING

primrec conn_state_code :: "conn_state \<Rightarrow> nat" where
  "conn_state_code TLS_HANDSHAKE = 0"
| "conn_state_code GREETING = 1"
| "conn_state_code GATHERING_HEADER = 2"
| "conn_state_code OPEN = 3"
| "conn_state_code FLUSHING = 4"
| "conn_state_code CLOSING = 5"

instantiation conn_state :: linorder
begin

definition less_eq_conn_state :: "conn_state \<Rightarrow> conn_state \<Rightarrow> bool" where
  "less_eq_conn_state a b \<longleftrightarrow> conn_state_code a \<le> conn_state_code b"

definition less_conn_state :: "conn_state \<Rightarrow> conn_state \<Rightarrow> bool" where
  "less_conn_state a b \<longleftrightarrow> conn_state_code a < conn_state_code b"

instance
proof
  fix a b :: conn_state
  show "a \<le> b \<Longrightarrow> b \<le> a \<Longrightarrow> a = b"
    by (cases a; cases b) (simp_all add: less_eq_conn_state_def)
qed (auto simp: less_eq_conn_state_def less_conn_state_def)

end

record connection =
  conn_id :: nat
  conn_state :: conn_state
  accept_input :: bool
  conn_user :: "user_ref option"
  search_term :: "string option"
  search_results :: "search_result option"
  waiting_for :: wait_event

datatype dest = To nat | Everyone

record service =
  conns :: "connection list"
  out :: "(dest \<times> int \<times> string) list"

definition find_connection :: "service \<Rightarrow> nat \<Rightarrow> connection option" where
  "find_connection sv c = List.find (\<lambda>k. conn_id k = c) (conns sv)"

definition update_connection :: "nat \<Rightarrow> (connection \<Rightarrow> connection) \<Rightarrow> service \<Rightarrow> service" where
  "update_connection c f sv = sv\<lparr>conns := map (\<lambda>k. if conn_id k = c then f k else k) (conns sv)\<rparr>"

text \<open>
  fb_new_iterator and fb_iterate_next: from the newest connection to the oldest, leaving out those that
  have not greeted yet.  The event type is ITERATOR for a connection in the OPEN state, ITERATOR_CLOSE for a later state.
\<close>

definition fb_iterate :: "service \<Rightarrow> connection list" where
  "fb_iterate sv = filter (\<lambda>k. \<not> conn_state k < OPEN) (rev (conns sv))"

definition fb_close_connection :: "nat \<Rightarrow> service \<Rightarrow> service" where
  "fb_close_connection c = update_connection c (\<lambda>k.
    k\<lparr>conn_state := (if conn_state k \<le> OPEN then FLUSHING else conn_state k), accept_input := False\<rparr>)"

text \<open>fb_accept_input asserts that the connection is open.\<close>

definition fb_accept_input :: "nat \<Rightarrow> bool \<Rightarrow> service \<Rightarrow> service option" where
  "fb_accept_input c inp sv = (case find_connection sv c of
      None \<Rightarrow> None
    | Some k \<Rightarrow> if conn_state k \<noteq> OPEN then None
        else Some (update_connection c (accept_input_update (\<lambda>_. inp)) sv))"

section \<open>Sending\<close>

definition emit :: "dest \<Rightarrow> int \<Rightarrow> string \<Rightarrow> service \<Rightarrow> service" where
  "emit there status message sv = sv\<lparr>out := out sv @ [(there, status, message)]\<rparr>"

definition reply :: "nat \<Rightarrow> int \<Rightarrow> service \<Rightarrow> service" where
  "reply event status = emit (To event) status (Response status)"

definition data_reply :: "nat \<Rightarrow> int \<Rightarrow> string \<Rightarrow> service \<Rightarrow> service" where
  "data_reply event status detail = emit (To event) status (Response status @ '': '' @ detail)"

definition send_data :: "dest \<Rightarrow> int \<Rightarrow> string option \<Rightarrow> service \<Rightarrow> service" where
  "send_data there dataitem data sv = (case data of
      None \<Rightarrow> sv
    | Some d \<Rightarrow> emit there dataitem (Response dataitem @ '': '' @ d) sv)"

definition send_response :: "dest \<Rightarrow> int \<Rightarrow> service \<Rightarrow> service" where
  "send_response there code = emit there code (Response code)"

definition send_response_code :: "dest \<Rightarrow> int \<Rightarrow> string \<Rightarrow> service \<Rightarrow> service" where
  "send_response_code there code message = emit there code message"

definition send_status :: "dest \<Rightarrow> string \<Rightarrow> service \<Rightarrow> service" where
  "send_status there message = emit there I_SERVER_STATUS message"

lemmas sending = emit_def reply_def data_reply_def send_data_def send_response_def
  send_response_code_def send_status_def

lemma sending_conns [simp]:
  "conns (emit t s m sv) = conns sv" "conns (reply e s sv) = conns sv"
  "conns (data_reply e s d sv) = conns sv" "conns (send_data t i x sv) = conns sv"
  "conns (send_response t s sv) = conns sv" "conns (send_response_code t s m sv) = conns sv"
  "conns (send_status t m sv) = conns sv"
  by (simp_all add: sending split: option.split)

text \<open>Each status group has a log bit of its own, and the action codes share one.\<close>

lemma loglevel_of_group:
  assumes "100 \<le> response"
  shows "loglevel_of response = 2 ^ (if response < 600 then nat (response div 100) else 5)"
proof (cases "response < 600")
  case True
  then have "1 \<le> response div 100 \<and> response div 100 \<le> 5" using assms by linarith
  then show ?thesis using True by (simp add: loglevel_of_def Let_def)
next
  case False
  then have "response div 100 > 5" by linarith
  then show ?thesis using False by (simp add: loglevel_of_def Let_def)
qed

section \<open>Waiting for events (event.c)\<close>

definition wait_for_event :: "nat \<Rightarrow> wait_event \<Rightarrow> service \<Rightarrow> service option" where
  "wait_for_event event wait_for sv = (case find_connection sv event of
      None \<Rightarrow> None
    | Some k \<Rightarrow>
        if wait_for = EVENT_NONE \<or> waiting_for k \<noteq> EVENT_NONE then None
        else fb_accept_input event False (update_connection event (waiting_for_update (\<lambda>_. wait_for)) sv))"

definition resume_connection :: "wait_event \<Rightarrow> int \<Rightarrow> connection \<Rightarrow> service \<Rightarrow> service" where
  "resume_connection whats_happening response k sv =
    (if waiting_for k = whats_happening \<and> conn_state k = OPEN
     then reply (conn_id k) response
       (update_connection (conn_id k) (\<lambda>k. k\<lparr>waiting_for := EVENT_NONE, accept_input := True\<rparr>) sv)
     else sv)"

definition event_occurred :: "wait_event \<Rightarrow> int \<Rightarrow> service \<Rightarrow> service" where
  "event_occurred whats_happening response sv =
    fold (resume_connection whats_happening response) (fb_iterate sv) sv"

definition wakes :: "wait_event \<Rightarrow> connection \<Rightarrow> bool" where
  "wakes ev k \<longleftrightarrow> waiting_for k = ev \<and> conn_state k = OPEN"

lemma resume_connection_out:
  "out (fold (resume_connection ev r) ks sv) =
    out sv @ map (\<lambda>k. (To (conn_id k), r, Response r)) (filter (wakes ev) ks)"
  by (induction ks arbitrary: sv)
    (auto simp: resume_connection_def wakes_def update_connection_def reply_def emit_def)

lemma resume_connection_conns:
  "distinct (map conn_id ks) \<Longrightarrow> conns (fold (resume_connection ev r) ks sv) =
    map (\<lambda>k. if conn_id k \<in> conn_id ` set (filter (wakes ev) ks)
      then k\<lparr>waiting_for := EVENT_NONE, accept_input := True\<rparr> else k) (conns sv)"
proof (induction ks arbitrary: sv)
  case (Cons a ks)
  then show ?case
    by (cases "wakes ev a") (auto simp: resume_connection_def wakes_def update_connection_def)
qed simp

lemma distinct_conn_id: "\<lbrakk>distinct (map conn_id ks); a \<in> set ks; b \<in> set ks; conn_id a = conn_id b\<rbrakk> \<Longrightarrow> a = b"
  by (simp add: distinct_map inj_on_def)

text \<open>
  An event wakes all its waiters and nobody else: every open connection that waits for it accepts
  input again, waits for nothing and is sent the response once; no other connection changes or is sent anything.
\<close>
theorem event_occurred_wakes:
  assumes "distinct (map conn_id (conns sv))"
  shows "conns (event_occurred ev r sv) =
      map (\<lambda>k. if wakes ev k then k\<lparr>waiting_for := EVENT_NONE, accept_input := True\<rparr> else k) (conns sv)
    \<and> out (event_occurred ev r sv) =
      out sv @ map (\<lambda>k. (To (conn_id k), r, Response r)) (rev (filter (wakes ev) (conns sv)))"
proof
  have "distinct (map conn_id (fb_iterate sv))"
    using assms by (simp add: fb_iterate_def distinct_map inj_on_def)
  moreover have "conn_id k \<in> conn_id ` set (filter (wakes ev) (fb_iterate sv)) \<longleftrightarrow> wakes ev k"
    if "k \<in> set (conns sv)" for k
    using that distinct_conn_id [OF assms] by (auto simp: fb_iterate_def wakes_def)
  ultimately show "conns (event_occurred ev r sv) =
      map (\<lambda>k. if wakes ev k then k\<lparr>waiting_for := EVENT_NONE, accept_input := True\<rparr> else k) (conns sv)"
    by (simp add: event_occurred_def resume_connection_conns)
  have "filter (wakes ev) (fb_iterate sv) = rev (filter (wakes ev) (conns sv))"
    unfolding fb_iterate_def filter_filter rev_filter [symmetric]
    by (rule arg_cong [where f = rev]) (rule filter_cong; auto simp: wakes_def)
  then show "out (event_occurred ev r sv) =
      out sv @ map (\<lambda>k. (To (conn_id k), r, Response r)) (rev (filter (wakes ev) (conns sv)))"
    by (simp add: event_occurred_def resume_connection_out)
qed

definition demo_connection :: "nat \<Rightarrow> user_ref option \<Rightarrow> wait_event \<Rightarrow> connection" where
  "demo_connection c u w = \<lparr>conn_id = c, conn_state = OPEN, accept_input = (w = EVENT_NONE), conn_user = u,
    search_term = None, search_results = None, waiting_for = w\<rparr>"

definition demo_service :: service where
  "demo_service = \<lparr>conns = [demo_connection 4 None EVENT_TRACK_ENDED,
     demo_connection 5 (Some (UserNamed ''joe'')) EVENT_NONE], out = []\<rparr>"

theorem event_occurred_wakes_witness:
  "conns (event_occurred EVENT_TRACK_ENDED S_OK demo_service) =
      map (\<lambda>k. if wakes EVENT_TRACK_ENDED k then k\<lparr>waiting_for := EVENT_NONE, accept_input := True\<rparr> else k)
        (conns demo_service)
    \<and> out (event_occurred EVENT_TRACK_ENDED S_OK demo_service) =
      out demo_service @ map (\<lambda>k. (To (conn_id k), S_OK, Response S_OK))
        (rev (filter (wakes EVENT_TRACK_ENDED) (conns demo_service)))"
  by (rule event_occurred_wakes) (simp add: demo_service_def demo_connection_def)

end
