(* ===== verification/LamerCipher.thy ===== *)
theory LamerCipher
  imports Prelude
begin

text \<open>
  The lightweight cipher of \<open>src/src/lamercipher.c\<close> that keeps Pandora credentials
  in the user file from being readable at a glance.

  \<open>compute_crc\<close> is the bit-serial CRC that makes a key from the user name; its state is a 32-bit
  word whose top bit is the divisor flag.  \<open>lamer_cipher\<close> walks the item byte by byte, masks
  the low 5, 6 or 7 bits of each byte with the key and rotates the 31-bit key.
  A byte below 0x20 makes the C code fail its assertion; the model returns \<open>None\<close> there.
  (An exhausted heap, where strdup returns NULL, is not modelled.)
\<close>

section \<open>The CRC\<close>

definition lamer_crc_generator :: "32 word" where
  "lamer_crc_generator = 0xae060ed2"

definition lamer_keybits :: nat where
  "lamer_keybits = 31"

definition divisor_flag :: "32 word" where
  "divisor_flag = push_bit lamer_keybits 1"

definition crc_shift :: "32 word \<Rightarrow> bool \<Rightarrow> 32 word \<Rightarrow> 32 word" where
  "crc_shift divisor b key = (
    let key = push_bit 1 key;
        key = (if b then key OR 1 else key)
    in if key AND divisor_flag \<noteq> 0 then key XOR divisor else key)"

definition crc_byte :: "32 word \<Rightarrow> byte \<Rightarrow> 32 word \<Rightarrow> 32 word" where
  "crc_byte divisor c key =
    fold (\<lambda>i. crc_shift divisor (c AND push_bit i 1 \<noteq> 0)) [7, 6, 5, 4, 3, 2, 1, 0] key"

fun crc_remainder :: "32 word \<Rightarrow> 32 word \<Rightarrow> nat \<Rightarrow> 32 word \<Rightarrow> 32 word" where
  "crc_remainder divisor r 0 key = key"
| "crc_remainder divisor r (Suc i) key =
    crc_remainder divisor r i (crc_shift divisor (r AND push_bit i 1 \<noteq> 0) key)"

definition compute_crc :: "bytes \<Rightarrow> 32 word \<Rightarrow> 32 word \<Rightarrow> 32 word" where
  "compute_crc data divisor r =
    crc_remainder divisor r lamer_keybits (fold (crc_byte divisor) data 0)"

definition create_key_from_string :: "string \<Rightarrow> 32 word" where
  "create_key_from_string source = compute_crc (bytes_of source) lamer_crc_generator 0"

lemma and_exp_eq_0: "(w :: 'a::len word) AND 2 ^ i = 0 \<longleftrightarrow> \<not> bit w i"
  using bit_iff_and_push_bit_not_eq_0 [of w i] by simp

lemma bit_times_2: "bit ((w :: 'a::len word) * 2) n \<longleftrightarrow> n < LENGTH('a) \<and> n \<noteq> 0 \<and> bit w (n - 1)"
  using bit_double_iff [of w n] by (simp add: mult.commute)

lemma and_divisor_flag: "key AND divisor_flag \<noteq> 0 \<longleftrightarrow> bit key 31"
  using and_exp_eq_0 [of key 31] by (simp add: divisor_flag_def lamer_keybits_def)

lemma crc_shift_bit: "crc_shift g b k = crc_shift g False k XOR of_bool b"
  by (rule bit_word_eqI)
    (auto simp: crc_shift_def Let_def and_divisor_flag bit_simps bit_times_2 split: if_splits)

lemma crc_shift_linear:
  assumes "\<not> bit x 30"
  shows "crc_shift g False (k XOR x) = crc_shift g False k XOR push_bit 1 x"
  using assms
  by (intro bit_word_eqI)
    (simp add: crc_shift_def Let_def and_divisor_flag bit_simps bit_times_2; blast)

lemma crc_shift_bit31:
  assumes "bit g 31"
  shows "\<not> bit (crc_shift g b k) 31"
  using assms by (auto simp: crc_shift_def Let_def and_divisor_flag bit_simps split: if_splits)

lemma crc_remainder_bit31:
  "\<lbrakk>bit g 31; 0 < n\<rbrakk> \<Longrightarrow> \<not> bit (crc_remainder g r n k) 31"
proof (induction n arbitrary: k)
  case (Suc n)
  then show ?case by (cases n) (auto simp: crc_shift_bit31)
qed simp

lemma compute_crc_bit31: "bit g 31 \<Longrightarrow> \<not> bit (compute_crc d g r) 31"
  by (simp add: compute_crc_def crc_remainder_bit31 lamer_keybits_def)

lemma drop_bit_Suc_step:
  "push_bit 1 (drop_bit (Suc n) r) XOR of_bool (bit r n) = drop_bit n (r :: 32 word)"
proof (rule bit_word_eqI)
  fix m
  show "bit (push_bit 1 (drop_bit (Suc n) r) XOR of_bool (bit r n)) m \<longleftrightarrow> bit (drop_bit n r) m"
    if "m < LENGTH(32)"
    using that by (cases m) (auto simp: bit_simps bit_times_2)
qed

lemma crc_remainder_xor:
  "\<lbrakk>n \<le> 31; \<not> bit r 31\<rbrakk> \<Longrightarrow>
    crc_remainder g r n (k XOR drop_bit n r) = crc_remainder g 0 n k XOR r"
proof (induction n arbitrary: k)
  case 0
  then show ?case by simp
next
  case (Suc n)
  have "\<not> bit (drop_bit (Suc n) r) 30"
    using Suc.prems bit_imp_le_length [of r "Suc (n + 30)"] by (cases n) (auto simp: bit_simps)
  then have "crc_shift g (bit r n) (k XOR drop_bit (Suc n) r) =
      crc_shift g False k XOR (push_bit 1 (drop_bit (Suc n) r) XOR of_bool (bit r n))"
    by (simp only: crc_shift_bit [of g "bit r n"] crc_shift_linear xor.assoc simp_thms)
  then have "crc_shift g (bit r n) (k XOR drop_bit (Suc n) r) = crc_shift g False k XOR drop_bit n r"
    by (simp only: drop_bit_Suc_step)
  then show ?case
    using Suc by (simp add: and_exp_eq_0)
qed

lemma compute_crc_remainder:
  assumes "\<not> bit r 31"
  shows "compute_crc d g r = compute_crc d g 0 XOR r"
proof -
  have "drop_bit 31 r = 0"
  proof (rule bit_word_eqI)
    fix n
    show "bit (drop_bit 31 r) n \<longleftrightarrow> bit 0 n"
      using assms bit_imp_le_length [of r "31 + n"] by (cases n) (auto simp: bit_simps)
  qed
  then show ?thesis
    using crc_remainder_xor [of 31 r g "fold (crc_byte g) d 0"] assms
    by (simp add: compute_crc_def lamer_keybits_def)
qed

lemma bit_lamer_crc_generator: "bit lamer_crc_generator 31"
  by (simp add: lamer_crc_generator_def bit_iff_odd drop_bit_eq_div)

text \<open>
  Feeding a checksum back as the remainder cancels it: for every message and every divisor whose
  top bit is set, the CRC of the message with its own CRC as the remainder is 0.
  This is the check the code's unit-test build makes, here for all inputs.
\<close>
theorem compute_crc_self_check:
  assumes "bit divisor 31"
  shows "compute_crc data divisor (compute_crc data divisor 0) = 0"
  using compute_crc_remainder [OF compute_crc_bit31 [OF assms]] by simp

theorem compute_crc_self_check_witness:
  "compute_crc [0x61, 0x62] lamer_crc_generator
    (compute_crc [0x61, 0x62] lamer_crc_generator 0) = 0"
  by (rule compute_crc_self_check) (rule bit_lamer_crc_generator)

section \<open>The cipher\<close>

definition lamer_bits :: "byte \<Rightarrow> nat option" where
  "lamer_bits c =
    (if c AND 0xe0 = 0x20 then Some 5
     else if c AND 0xc0 = 0x40 then Some 6
     else if c AND 0x80 = 0x80 then Some 7
     else None)"

fun lamer_loop :: "32 word \<Rightarrow> bytes \<Rightarrow> bytes option" where
  "lamer_loop key [] = Some []"
| "lamer_loop key (c # cs) = (case lamer_bits c of
      None \<Rightarrow> None
    | Some bits \<Rightarrow>
        let mask = key AND (push_bit bits 1 - 1);
            key' = drop_bit bits key OR push_bit (lamer_keybits - bits) mask
        in map_option ((#) (c XOR ucast mask)) (lamer_loop key' cs))"

definition lamer_cipher :: "string \<Rightarrow> string \<Rightarrow> string option" where
  "lamer_cipher keystr item =
    map_option string_of (lamer_loop (create_key_from_string keystr) (bytes_of item))"

lemma lamer_bits_le: "lamer_bits c = Some b \<Longrightarrow> b \<le> 7"
  by (auto simp: lamer_bits_def split: if_splits)

lemma bit_low_mask: "b \<le> 7 \<Longrightarrow> bit (2 ^ b - 1 :: 32 word) n \<longleftrightarrow> n < b"
  by (auto simp: mask_eq_exp_minus_1 [symmetric] bit_simps)

lemma bit_masked:
  "b \<le> 7 \<Longrightarrow> bit (ucast (key AND (2 ^ b - 1)) :: byte) n \<longleftrightarrow>
    n < b \<and> bit (key :: 32 word) n"
  by (auto simp: bit_simps bit_low_mask)

lemma lamer_bits_class:
  "lamer_bits c =
    (if bit c 7 then Some 7 else if bit c 6 then Some 6 else if bit c 5 then Some 5 else None)"
  by (simp add: lamer_bits_def byte_eq_iff bit_simps)

lemma lamer_bits_None: "lamer_bits c = None \<longleftrightarrow> unat c < 0x20"
proof -
  have "unat c < 0x20 \<longleftrightarrow> drop_bit 5 (unat c) = 0"
    by (simp add: drop_bit_eq_div div_eq_0_iff)
  also have "\<dots> \<longleftrightarrow> unat (drop_bit 5 c) = 0"
    by (simp only: unat_drop_bit_eq)
  also have "\<dots> \<longleftrightarrow> drop_bit 5 c = 0" by (simp add: unat_eq_0)
  also have "\<dots> \<longleftrightarrow> \<not> bit c 5 \<and> \<not> bit c 6 \<and> \<not> bit c 7"
    using bit_imp_le_length [of c 8] bit_imp_le_length [of c 9] bit_imp_le_length [of c 10]
      bit_imp_le_length [of c 11] bit_imp_le_length [of c 12]
    by (auto simp: byte_eq_iff bit_simps)
  finally show ?thesis by (auto simp: lamer_bits_class)
qed

lemma lamer_bits_xor_low:
  assumes "lamer_bits c = Some b" and "\<And>n. bit x n \<Longrightarrow> n < b"
  shows "lamer_bits (c XOR x) = Some b"
  using assms(1) assms(2) [of 7] assms(2) [of 6] assms(2) [of 5]
  by (auto simp: lamer_bits_class bit_simps split: if_splits)

text \<open>Deciphering undoes enciphering, from any key.\<close>

lemma lamer_loop_involution:
  "lamer_loop key s = Some t \<Longrightarrow> lamer_loop key t = Some s"
proof (induction s arbitrary: key t)
  case (Cons c cs)
  then obtain b ts where b: "lamer_bits c = Some b"
    and t: "t = (c XOR ucast (key AND (push_bit b 1 - 1))) # ts"
    and ts: "lamer_loop (drop_bit b key OR push_bit (lamer_keybits - b) (key AND (push_bit b 1 - 1))) cs
      = Some ts"
    by (auto simp: Let_def split: option.splits)
  have "lamer_bits (c XOR ucast (key AND (push_bit b 1 - 1))) = Some b"
    using lamer_bits_le [OF b] by (intro lamer_bits_xor_low [OF b]) (simp add: bit_masked)
  then show ?case
    using Cons.IH [OF ts] t by (simp add: Let_def xor.assoc)
qed simp

lemma lamer_loop_length: "lamer_loop key s = Some t \<Longrightarrow> length t = length s"
  by (induction s arbitrary: key t) (auto simp: Let_def split: option.splits)

lemma lamer_loop_total: "(lamer_loop key s = None) \<longleftrightarrow> (\<exists>c \<in> set s. lamer_bits c = None)"
  by (induction s arbitrary: key) (auto simp: Let_def split: option.splits)

lemma lamer_cipher_total:
  "lamer_cipher k s = None \<longleftrightarrow> (\<exists>c \<in> set s. (of_char c :: nat) < 0x20)"
  by (auto simp: lamer_cipher_def lamer_loop_total lamer_bits_None bytes_of_def)

lemma lamer_cipher_length:
  assumes "lamer_cipher k s = Some t"
  shows "length t = length s"
proof -
  obtain z where z: "lamer_loop (create_key_from_string k) (bytes_of s) = Some z" "t = string_of z"
    using assms unfolding lamer_cipher_def by blast
  show ?thesis
    using lamer_loop_length [OF z(1)] by (simp add: z(2) string_of_def bytes_of_def)
qed

section \<open>The cipher as a codec\<close>

text \<open>
  What a client of the cipher relies on: with one key, the same call reads back what it wrote.
\<close>

locale self_inverse_cipher =
  fixes cipher :: "'k \<Rightarrow> 'a \<Rightarrow> 'a option"
  assumes self_inverse: "cipher k x = Some y \<Longrightarrow> cipher k y = Some x"
begin

lemma cipher_inj: "\<lbrakk>cipher k x = Some z; cipher k y = Some z\<rbrakk> \<Longrightarrow> x = y"
  using self_inverse by (metis option.inject)

lemma decode_encode: "cipher k x \<noteq> None \<Longrightarrow> Option.bind (cipher k x) (cipher k) = Some x"
  by (cases "cipher k x") (simp_all, erule self_inverse)

end

interpretation lamer: self_inverse_cipher lamer_cipher
proof unfold_locales
  fix k x y
  assume "lamer_cipher k x = Some y"
  then obtain z where z: "lamer_loop (create_key_from_string k) (bytes_of x) = Some z" "y = string_of z"
    unfolding lamer_cipher_def by blast
  show "lamer_cipher k y = Some x"
    using lamer_loop_involution [OF z(1)] by (simp add: lamer_cipher_def z(2))
qed

text \<open>
  The cipher is its own inverse: for any key string, an item made of bytes from 0x20 up (the
  others are refused by an assertion) is enciphered without failure, to a string of the same
  length, and enciphering the result under the same key string gives the item back.
\<close>
theorem lamer_cipher_roundtrip:
  assumes "\<forall>c \<in> set item. 0x20 \<le> (of_char c :: nat)"
  shows "\<exists>out. lamer_cipher keystr item = Some out \<and> length out = length item
    \<and> lamer_cipher keystr out = Some item"
proof -
  have "lamer_cipher keystr item \<noteq> None"
    using assms by (auto simp: lamer_cipher_total)
  then obtain out where out: "lamer_cipher keystr item = Some out" by blast
  then show ?thesis using lamer_cipher_length [OF out] lamer.self_inverse [OF out] by blast
qed

theorem lamer_cipher_roundtrip_witness:
  "\<exists>out. lamer_cipher ''joe'' ''Ab1'' = Some out \<and> length out = length ''Ab1''
    \<and> lamer_cipher ''joe'' out = Some ''Ab1''"
  by (rule lamer_cipher_roundtrip) simp

end
