(* ===== verification/Users.thy ===== *)
theory Users
  imports Response LamerCipher "HOL-Library.Monad_Syntax"
begin

text \<open>
  The accounts of the player's own users: \<open>src/src/users.c\<close> and \<open>src/src/users.h\<close>.

  The static variables of the C file are the record \<open>users_state\<close>.  A \<open>USER *\<close> is a \<open>user_ref\<close>: the name
  of a user of the list (names are unique, which is proved), or the static record of the start script.
  \<open>crypt\<close> of the C library, and the two random numbers a salt is made of, are arguments.
  \<open>None\<close> is a failed assertion.  The XML tree is ezxml's, as its accessors show it.
\<close>

section \<open>Data\<close>

datatype user_rank = RANK_NONE | RANK_LISTENER | RANK_STANDARD | RANK_ADMINISTRATOR

primrec rank_code :: "user_rank \<Rightarrow> nat" where
  "rank_code RANK_NONE = 0"
| "rank_code RANK_LISTENER = 1"
| "rank_code RANK_STANDARD = 2"
| "rank_code RANK_ADMINISTRATOR = 3"

instantiation user_rank :: linorder
begin

definition less_eq_user_rank :: "user_rank \<Rightarrow> user_rank \<Rightarrow> bool" where
  "less_eq_user_rank a b \<longleftrightarrow> rank_code a \<le> rank_code b"

definition less_user_rank :: "user_rank \<Rightarrow> user_rank \<Rightarrow> bool" where
  "less_user_rank a b \<longleftrightarrow> rank_code a < rank_code b"

instance
proof
  fix a b :: user_rank
  show "a \<le> b \<Longrightarrow> b \<le> a \<Longrightarrow> a = b"
    by (cases a; cases b) (simp_all add: less_eq_user_rank_def)
qed (auto simp: less_eq_user_rank_def less_user_rank_def)

end

lemmas rank_order = less_eq_user_rank_def less_user_rank_def

datatype privilege =
    PRIVILEGE_MANAGER | PRIVILEGE_SERVICE | PRIVILEGE_INFLUENCE | PRIVILEGE_TUNER | ATTRIBUTE_PRESENT

datatype manager_rule = MANAGER_ADMINISTRATOR | MANAGER_NONE | MANAGER_USER

datatype station_rating = RATING_NEUTRAL | RATING_GOOD | RATING_BAD

record rating_record =
  rr_station :: string
  rr_rating :: station_rating

record station_pref =
  capacity :: nat
  ratings :: "rating_record list"

record credentials =
  cred_username :: "string option"
  cred_password :: "string option"
  cred_manager :: "user_ref option"
  cred_creator :: "user_ref option"
  cred_rule :: manager_rule

definition no_credentials :: credentials where
  "no_credentials = \<lparr>cred_username = None, cred_password = None, cred_manager = None, cred_creator = None,
    cred_rule = MANAGER_ADMINISTRATOR\<rparr>"

record user =
  name :: string
  user_password :: string
  rank :: user_rank
  privileges :: "privilege \<Rightarrow> bool"
  pandora_credentials :: credentials
  station_preferences :: "station_pref option"

record users_state =
  user_list :: "user list"
  dirty :: bool
  visitor_rank :: user_rank
  ownership_rule :: manager_rule
  startscript_user :: user

section \<open>Tables\<close>

definition rankings :: "(string \<times> user_rank) list" where
  "rankings = [(''disabled'', RANK_NONE), (''guest'', RANK_LISTENER), (''listener'', RANK_LISTENER),
    (''user'', RANK_STANDARD), (''admin'', RANK_ADMINISTRATOR)]"

record privilege_info =
  priv_name :: string
  priv_index :: privilege
  initial_value :: bool
  persistable :: bool

definition privilege_table :: "privilege_info list" where
  "privilege_table =
    [\<lparr>priv_name = ''owner'', priv_index = PRIVILEGE_MANAGER, initial_value = False, persistable = False\<rparr>,
     \<lparr>priv_name = ''service'', priv_index = PRIVILEGE_SERVICE, initial_value = False, persistable = True\<rparr>,
     \<lparr>priv_name = ''influence'', priv_index = PRIVILEGE_INFLUENCE, initial_value = True, persistable = True\<rparr>,
     \<lparr>priv_name = ''tuner'', priv_index = PRIVILEGE_TUNER, initial_value = False, persistable = True\<rparr>,
     \<lparr>priv_name = ''present'', priv_index = ATTRIBUTE_PRESENT, initial_value = False, persistable = True\<rparr>]"

definition manager_rules :: "(string \<times> manager_rule) list" where
  "manager_rules = [(''mine'', MANAGER_USER), (''none'', MANAGER_NONE), (''administrator'', MANAGER_ADMINISTRATOR)]"

fun lookup_nocase :: "(string \<times> 'a) list \<Rightarrow> string \<Rightarrow> 'a option" where
  "lookup_nocase [] n = None"
| "lookup_nocase ((k, v) # rest) n = (if strcasecmp n k = 0 then Some v else lookup_nocase rest n)"

definition get_rank_by_name :: "string \<Rightarrow> user_rank option" where
  "get_rank_by_name n = lookup_nocase rankings n"

definition user_type_name :: "user_rank \<Rightarrow> string" where
  "user_type_name r = fst (the (List.find (\<lambda>p. r = snd p) rankings))"

definition get_privilege_by_name :: "string \<Rightarrow> privilege_info option" where
  "get_privilege_by_name n = List.find (\<lambda>p. strcasecmp n (priv_name p) = 0) privilege_table"

definition get_privilege_id_by_name :: "string \<Rightarrow> privilege option" where
  "get_privilege_id_by_name n = map_option priv_index (get_privilege_by_name n)"

definition get_privilege_by_id :: "privilege \<Rightarrow> privilege_info" where
  "get_privilege_by_id p = the (List.find (\<lambda>q. p = priv_index q) privilege_table)"

definition get_manager_rule_by_name :: "string \<Rightarrow> manager_rule option" where
  "get_manager_rule_by_name n = lookup_nocase manager_rules n"

definition get_manager_rule_by_id :: "manager_rule \<Rightarrow> string" where
  "get_manager_rule_by_id m = fst (the (List.find (\<lambda>p. m = snd p) manager_rules))"

lemma user_type_name_inverse: "get_rank_by_name (user_type_name r) = Some r"
  by (cases r) (simp_all add: get_rank_by_name_def user_type_name_def rankings_def strcasecmp_eq_0 to_lower_def)

lemma manager_rule_inverse: "get_manager_rule_by_name (get_manager_rule_by_id m) = Some m"
  by (cases m) (simp_all add: get_manager_rule_by_name_def get_manager_rule_by_id_def manager_rules_def
      strcasecmp_eq_0 to_lower_def)

lemma priv_index_get_privilege_by_id [simp]: "priv_index (get_privilege_by_id p) = p"
  by (cases p) (simp_all add: get_privilege_by_id_def privilege_table_def)

section \<open>Users\<close>

fun find_user_in :: "user list \<Rightarrow> string \<Rightarrow> user option" where
  "find_user_in [] username = None"
| "find_user_in (u # rest) username =
    (if strcasecmp username (name u) = 0 then Some u else find_user_in rest username)"

definition find_user :: "users_state \<Rightarrow> string \<Rightarrow> user option" where
  "find_user us username = find_user_in (user_list us) username"

text \<open>Following a \<open>USER *\<close>, and writing through it.\<close>

fun deref_user :: "users_state \<Rightarrow> user_ref \<Rightarrow> user option" where
  "deref_user us StartscriptUser = Some (startscript_user us)"
| "deref_user us (UserNamed n) = List.find (\<lambda>u. name u = n) (user_list us)"

fun update_user :: "user_ref \<Rightarrow> (user \<Rightarrow> user) \<Rightarrow> users_state \<Rightarrow> users_state" where
  "update_user StartscriptUser f us = us\<lparr>startscript_user := f (startscript_user us)\<rparr>"
| "update_user (UserNamed n) f us =
    us\<lparr>user_list := map (\<lambda>u. if name u = n then f u else u) (user_list us)\<rparr>"

definition get_startscript_user :: "users_state \<Rightarrow> user_ref \<times> users_state" where
  "get_startscript_user us = (StartscriptUser,
    us\<lparr>startscript_user := (startscript_user us)\<lparr>name := ''startscript'', rank := RANK_ADMINISTRATOR,
      privileges := (\<lambda>_. True)\<rparr>\<rparr>)"

definition get_user_by_name :: "nat \<Rightarrow> string \<Rightarrow> users_state \<Rightarrow> service \<Rightarrow> user_ref option \<times> service" where
  "get_user_by_name event username us sv = (case find_user us username of
      None \<Rightarrow> (None, reply event E_NOTFOUND sv)
    | Some u \<Rightarrow> (Some (UserNamed (name u)), sv))"

definition clear_privilege :: "privilege \<Rightarrow> users_state \<Rightarrow> users_state" where
  "clear_privilege priv us = us\<lparr>user_list :=
    map (\<lambda>u. u\<lparr>privileges := (privileges u)(priv := False)\<rparr>) (user_list us)\<rparr>"

definition set_ownership_rule :: "manager_rule \<Rightarrow> user_ref option \<Rightarrow> users_state \<Rightarrow> users_state option" where
  "set_ownership_rule rule mgr us = (
    let us = clear_privilege PRIVILEGE_MANAGER us in
    if rule = MANAGER_USER then (case mgr of
        None \<Rightarrow> None
      | Some m \<Rightarrow> Some ((update_user m (\<lambda>u. u\<lparr>privileges := (privileges u)(PRIVILEGE_MANAGER := True)\<rparr>) us)
          \<lparr>ownership_rule := rule\<rparr>))
    else Some (us\<lparr>ownership_rule := rule\<rparr>))"

definition saltchars :: string where
  "saltchars = ''./0123456789QWERTYUIOPASDFGHJKLZXCVBNMqwertyuiopasdfghjklzxcvbnm''"

definition encrypt_password :: "(string \<Rightarrow> string \<Rightarrow> string) \<Rightarrow> nat \<times> nat \<Rightarrow> string \<Rightarrow> string" where
  "encrypt_password crypt rnd pw = crypt pw [saltchars ! (fst rnd mod 64), saltchars ! (snd rnd mod 64)]"

definition initial_privileges :: "privilege \<Rightarrow> bool" where
  "initial_privileges p = initial_value (get_privilege_by_id p)"

text \<open>create_user with the password as it is to be stored.\<close>

definition create_user :: "string \<Rightarrow> string \<Rightarrow> users_state \<Rightarrow> user_ref option \<times> users_state" where
  "create_user uname stored us = (case find_user us uname of
      Some _ \<Rightarrow> (None, us)
    | None \<Rightarrow> (Some (UserNamed uname), us\<lparr>user_list :=
        \<lparr>name = uname, user_password = stored, rank = RANK_NONE, privileges = initial_privileges,
         pandora_credentials = no_credentials, station_preferences = None\<rparr> # user_list us,
        dirty := True\<rparr>))"

definition create_new_user :: "(string \<Rightarrow> string \<Rightarrow> string) \<Rightarrow> nat \<times> nat \<Rightarrow> string \<Rightarrow> string \<Rightarrow>
    users_state \<Rightarrow> user_ref option \<times> users_state" where
  "create_new_user crypt rnd uname pw us = create_user uname (encrypt_password crypt rnd pw) us"

definition set_user_password :: "(string \<Rightarrow> string \<Rightarrow> string) \<Rightarrow> nat \<times> nat \<Rightarrow> user_ref \<Rightarrow> string \<Rightarrow>
    users_state \<Rightarrow> users_state" where
  "set_user_password crypt rnd u pw us =
    (update_user u (user_password_update (\<lambda>_. encrypt_password crypt rnd pw)) us)\<lparr>dirty := True\<rparr>"

text \<open>The user to delete is given by its record's address, which is its name in the list.\<close>

fun delete_user :: "user_ref \<Rightarrow> users_state \<Rightarrow> users_state option" where
  "delete_user StartscriptUser us = None"
| "delete_user (UserNamed n) us =
    (if List.find (\<lambda>u. name u = n) (user_list us) = None then None
     else Some (us\<lparr>user_list := PianoListDelete (\<lambda>u. name u = n) (user_list us), dirty := True\<rparr>))"

section \<open>Authentication, ranks and privileges\<close>

text \<open>
  The outer \<open>None\<close> is the assertion that a stored password that is not empty has more than 2 characters.
  An empty stored password matches an empty password and nothing else.
\<close>

definition authenticate_user :: "(string \<Rightarrow> string \<Rightarrow> string) \<Rightarrow> users_state \<Rightarrow> string \<Rightarrow> string \<Rightarrow>
    user_ref option option" where
  "authenticate_user crypt us username pw = (case find_user us username of
      None \<Rightarrow> Some None
    | Some u \<Rightarrow>
        if user_password u = [] then Some (if pw = [] then Some (UserNamed (name u)) else None)
        else if \<not> length (user_password u) > 2 then None
        else Some (if strcmp (crypt pw (user_password u)) (user_password u) = 0
          then Some (UserNamed (name u)) else None))"

definition get_user_name :: "users_state \<Rightarrow> user_ref \<Rightarrow> string option" where
  "get_user_name us u = map_option name (deref_user us u)"

text \<open>It is asserted that the user found under the name is the user whose password is to change.\<close>

definition change_password :: "(string \<Rightarrow> string \<Rightarrow> string) \<Rightarrow> nat \<times> nat \<Rightarrow> user_ref \<Rightarrow> string \<Rightarrow> string \<Rightarrow>
    users_state \<Rightarrow> (bool \<times> users_state) option" where
  "change_password crypt rnd u old pw us = do {
    uname \<leftarrow> get_user_name us u;
    auth \<leftarrow> authenticate_user crypt us uname old;
    (case auth of
        None \<Rightarrow> Some (False, us)
      | Some a \<Rightarrow> if a \<noteq> u then None else Some (True, set_user_password crypt rnd a pw us))
  }"

definition set_visitor_rank :: "user_rank \<Rightarrow> users_state \<Rightarrow> users_state" where
  "set_visitor_rank r us = us\<lparr>visitor_rank := r\<rparr>"

text \<open>The user parameter is the record behind the pointer, \<open>None\<close> for a visitor.\<close>

definition get_effective_rank :: "users_state \<Rightarrow> user option \<Rightarrow> user_rank" where
  "get_effective_rank us u = (case u of None \<Rightarrow> visitor_rank us | Some u \<Rightarrow> rank u)"

definition have_rank :: "users_state \<Rightarrow> user option \<Rightarrow> user_rank \<Rightarrow> bool" where
  "have_rank us u minimum = (get_effective_rank us u \<ge> minimum)"

definition set_rank :: "user_ref \<Rightarrow> user_rank \<Rightarrow> users_state \<Rightarrow> users_state option" where
  "set_rank u r us = (case deref_user us u of
      None \<Rightarrow> None
    | Some x \<Rightarrow> Some ((update_user u (rank_update (\<lambda>_. r)) us)\<lparr>dirty := (dirty us \<or> rank x \<noteq> r)\<rparr>))"

definition have_privilege :: "users_state \<Rightarrow> user option \<Rightarrow> privilege \<Rightarrow> bool" where
  "have_privilege us u priv =
    (if priv = PRIVILEGE_MANAGER \<and> ownership_rule us = MANAGER_ADMINISTRATOR
       then have_rank us u RANK_ADMINISTRATOR
     else if priv = PRIVILEGE_MANAGER \<and> ownership_rule us = MANAGER_NONE then False
     else (case u of
        None \<Rightarrow> False
      | Some x \<Rightarrow>
          if rank x = RANK_ADMINISTRATOR \<and> (priv = PRIVILEGE_SERVICE \<or> priv = PRIVILEGE_TUNER) then True
          else privileges x priv))"

definition set_privilege :: "user_ref \<Rightarrow> privilege \<Rightarrow> bool \<Rightarrow> users_state \<Rightarrow> users_state option" where
  "set_privilege u priv setting us = (case deref_user us u of
      None \<Rightarrow> None
    | Some x \<Rightarrow> Some ((update_user u (\<lambda>x. x\<lparr>privileges := (privileges x)(priv := setting)\<rparr>) us)
        \<lparr>dirty := (dirty us \<or> privileges x priv \<noteq> setting \<and> persistable (get_privilege_by_id priv))\<rparr>))"

fun valid_user_list_loop :: "nat \<Rightarrow> users_state \<Rightarrow> string list \<Rightarrow> bool \<Rightarrow> service \<Rightarrow> bool \<times> service" where
  "valid_user_list_loop event us [] found sv = (found, sv)"
| "valid_user_list_loop event us (n # ns) found sv =
    (if find_user us n = None then valid_user_list_loop event us ns False (data_reply event I_NOTFOUND n sv)
     else valid_user_list_loop event us ns found sv)"

definition valid_user_list :: "nat \<Rightarrow> users_state \<Rightarrow> string list \<Rightarrow> service \<Rightarrow> bool \<times> service" where
  "valid_user_list event us ns sv = (
    let (found, sv) = valid_user_list_loop event us ns True sv
    in (found, if \<not> found then reply event E_NOTFOUND sv else sv))"

fun set_privileges :: "string list \<Rightarrow> privilege \<Rightarrow> bool \<Rightarrow> users_state \<Rightarrow> users_state option" where
  "set_privileges [] priv setting us = Some us"
| "set_privileges (n # ns) priv setting us = do {
    u \<leftarrow> find_user us n;
    us \<leftarrow> set_privilege (UserNamed (name u)) priv setting us;
    set_privileges ns priv setting us
  }"

definition set_station_preferences :: "user_ref \<Rightarrow> station_pref \<Rightarrow> users_state \<Rightarrow> users_state" where
  "set_station_preferences u prefs us =
    (update_user u (station_preferences_update (\<lambda>_. Some prefs)) us)\<lparr>dirty := True\<rparr>"

section \<open>Reports\<close>

definition privilege_order :: "privilege list" where
  "privilege_order = [PRIVILEGE_MANAGER, PRIVILEGE_SERVICE, PRIVILEGE_INFLUENCE, PRIVILEGE_TUNER, ATTRIBUTE_PRESENT]"

definition privileges_text :: "users_state \<Rightarrow> user option \<Rightarrow> string" where
  "privileges_text us u = user_type_name (get_effective_rank us u) @
    concat (map (\<lambda>p. if have_privilege us u p then '' '' @ priv_name (get_privilege_by_id p) else [])
      privilege_order)"

definition send_privileges :: "nat \<Rightarrow> users_state \<Rightarrow> user option \<Rightarrow> service \<Rightarrow> service" where
  "send_privileges event us u =
    emit (To event) I_USER_PRIVILEGES (Response I_USER_PRIVILEGES @ '': '' @ privileges_text us u)"

definition context_user :: "users_state \<Rightarrow> connection \<Rightarrow> user option" where
  "context_user us k = Option.bind (conn_user k) (deref_user us)"

definition announce_privileges :: "user_ref option \<Rightarrow> users_state \<Rightarrow> service \<Rightarrow> service" where
  "announce_privileges to_user us sv = fold
    (\<lambda>k sv. if to_user = None \<or> conn_user k = to_user
      then send_privileges (conn_id k) us (context_user us k) sv else sv) (fb_iterate sv) sv"

definition send_user :: "nat \<Rightarrow> users_state \<Rightarrow> user \<Rightarrow> bool \<Rightarrow> service \<Rightarrow> service" where
  "send_user there us u details sv = (
    let sv = reply there S_DATA sv;
        sv = data_reply there I_ID (name u) sv
    in if details then send_privileges there us (Some u) sv else sv)"

definition send_user_list :: "nat \<Rightarrow> string option \<Rightarrow> users_state \<Rightarrow> service \<Rightarrow> service" where
  "send_user_list event who us sv = (
    let matching = filter (\<lambda>u. case who of None \<Rightarrow> True | Some w \<Rightarrow> strcasecmp w (name u) = 0) (user_list us);
        sv = fold (\<lambda>u. send_user event us u True) matching sv
    in reply event (if who = None \<or> matching \<noteq> [] then S_DATA_END else E_NOTFOUND) sv)"

datatype find_kind = FIND_OPEN_CONNECTIONS | FIND_ALL_CONNECTIONS

definition find_online_user :: "service \<Rightarrow> user_ref \<Rightarrow> find_kind \<Rightarrow> connection option" where
  "find_online_user sv u kind = List.find
    (\<lambda>k. \<not> (kind = FIND_OPEN_CONNECTIONS \<and> conn_state k \<noteq> OPEN) \<and> conn_user k = Some u) (fb_iterate sv)"

definition is_user_online :: "service \<Rightarrow> user_ref \<Rightarrow> bool" where
  "is_user_online sv u = (find_online_user sv u FIND_ALL_CONNECTIONS \<noteq> None)"

definition logoff_connection :: "user_ref option \<Rightarrow> string option \<Rightarrow> connection \<Rightarrow> service \<Rightarrow> service" where
  "logoff_connection u message k sv =
    (if conn_state k = OPEN \<and> conn_user k = u
     then fb_close_connection (conn_id k) (send_status (To (conn_id k))
       (case message of None \<Rightarrow> ''Logged off by an administrator'' | Some m \<Rightarrow> m) sv)
     else sv)"

definition user_logoff :: "user_ref option \<Rightarrow> string option \<Rightarrow> service \<Rightarrow> service" where
  "user_logoff u message sv = fold (logoff_connection u message) (fb_iterate sv) sv"

abbreviation (input) TUNE_ON_LOGINS :: nat where "TUNE_ON_LOGINS \<equiv> 0x4000"
abbreviation (input) TUNE_ON_ATTRIBUTE :: nat where "TUNE_ON_ATTRIBUTE \<equiv> 0x8000"
abbreviation (input) TUNE_ON_ALL :: nat where "TUNE_ON_ALL \<equiv> 0xffff"
abbreviation (input) PRIVILEGE_COUNT :: nat where "PRIVILEGE_COUNT \<equiv> 5"
abbreviation (input) SEND_USERS_ONLINE :: nat where "SEND_USERS_ONLINE \<equiv> 5"
abbreviation (input) SEND_USERS_REMEMBERING_CREDENTIALS :: nat where
  "SEND_USERS_REMEMBERING_CREDENTIALS \<equiv> 7"

primrec privilege_code :: "privilege \<Rightarrow> nat" where
  "privilege_code PRIVILEGE_MANAGER = 0"
| "privilege_code PRIVILEGE_SERVICE = 1"
| "privilege_code PRIVILEGE_INFLUENCE = 2"
| "privilege_code PRIVILEGE_TUNER = 3"
| "privilege_code ATTRIBUTE_PRESENT = 4"

text \<open>Whether send_select_users sends a user; \<open>None\<close> where the switch fails its assertion.\<close>

definition selects_user :: "users_state \<Rightarrow> service \<Rightarrow> nat \<Rightarrow> user \<Rightarrow> bool option" where
  "selects_user us sv which u = (
    let online = find_online_user sv (UserNamed (name u)) FIND_OPEN_CONNECTIONS \<noteq> None;
        influence = have_privilege us (Some u) PRIVILEGE_INFLUENCE;
        present = have_privilege us (Some u) ATTRIBUTE_PRESENT
    in if which < PRIVILEGE_COUNT then Some (have_privilege us (Some u) (privilege_order ! which))
     else if which = SEND_USERS_ONLINE then Some online
     else if which = SEND_USERS_REMEMBERING_CREDENTIALS then
       Some (cred_username (pandora_credentials u) \<noteq> None)
     else if which = TUNE_ON_LOGINS then Some (influence \<and> online)
     else if which = TUNE_ON_ATTRIBUTE then Some (influence \<and> present)
     else if which = TUNE_ON_ALL then Some (influence \<and> (present \<or> online))
     else None)"

fun send_select_loop :: "nat \<Rightarrow> nat \<Rightarrow> bool \<Rightarrow> users_state \<Rightarrow> user list \<Rightarrow> service \<Rightarrow> service option" where
  "send_select_loop event which details us [] sv = Some (reply event S_DATA_END sv)"
| "send_select_loop event which details us (u # rest) sv = do {
    send \<leftarrow> selects_user us sv which u;
    send_select_loop event which details us rest (if send then send_user event us u details sv else sv)
  }"

definition send_select_users :: "nat \<Rightarrow> nat \<Rightarrow> bool \<Rightarrow> users_state \<Rightarrow> service \<Rightarrow> service option" where
  "send_select_users event which details us sv = send_select_loop event which details us (user_list us) sv"

section \<open>Remembered Pandora credentials\<close>

definition save_pandora_credentials :: "credentials \<Rightarrow> users_state \<Rightarrow> users_state option" where
  "save_pandora_credentials creds us = do {
    u \<leftarrow> cred_username creds;
    p \<leftarrow> cred_password creds;
    (case cred_creator creds of
        None \<Rightarrow> Some us
      | Some c \<Rightarrow> do {
          enciphered \<leftarrow> lamer_cipher u p;
          Some ((update_user c (pandora_credentials_update (\<lambda>_. creds\<lparr>cred_password := Some enciphered\<rparr>)) us)
            \<lparr>dirty := True\<rparr>)
        })
  }"

definition restore_pandora_credentials :: "user \<Rightarrow> credentials \<Rightarrow> (bool \<times> credentials) option" where
  "restore_pandora_credentials u creds = (
    let saved = pandora_credentials u in
    case cred_username saved of
        None \<Rightarrow> Some (False, creds)
      | Some n \<Rightarrow> do {
          stored \<leftarrow> cred_password saved;
          deciphered \<leftarrow> lamer_cipher n stored;
          Some (True, no_credentials\<lparr>cred_username := Some n, cred_password := Some deciphered,
            cred_rule := cred_rule saved, cred_manager := cred_manager saved\<rparr>)
        })"

section \<open>The user list: names are unique whatever their case\<close>

definition fold_case :: "string \<Rightarrow> string" where
  "fold_case s = map to_lower s"

definition unique_users :: "users_state \<Rightarrow> bool" where
  "unique_users us \<longleftrightarrow> distinct (map (fold_case \<circ> name) (user_list us))"

lemma strcasecmp_fold: "strcasecmp a b = 0 \<longleftrightarrow> fold_case a = fold_case b"
  by (simp add: strcasecmp_eq_0 fold_case_def)

lemma find_user_in_find: "find_user_in us n = List.find (\<lambda>u. fold_case (name u) = fold_case n) us"
  by (induction us) (auto simp: strcasecmp_fold)

lemma find_user_SomeD: "find_user us n = Some u \<Longrightarrow> u \<in> set (user_list us) \<and> fold_case (name u) = fold_case n"
  by (auto simp: find_user_def find_user_in_find dest: find_SomeD)

lemma find_user_iff: "find_user us n \<noteq> None \<longleftrightarrow> (\<exists>u \<in> set (user_list us). fold_case (name u) = fold_case n)"
  unfolding find_user_def find_user_in_find find_None_iff by blast

lemma find_user_None: "find_user us n = None \<longleftrightarrow> fold_case n \<notin> fold_case ` name ` set (user_list us)"
  using find_user_iff [of us n] by (metis (no_types, lifting) image_iff)

lemma unique_usersD:
  "\<lbrakk>unique_users us; u \<in> set (user_list us); v \<in> set (user_list us); fold_case (name u) = fold_case (name v)\<rbrakk>
    \<Longrightarrow> u = v"
  by (auto simp: unique_users_def distinct_map inj_on_def)

lemma find_unique:
  "\<lbrakk>distinct (map f xs); x \<in> set xs\<rbrakk> \<Longrightarrow> List.find (\<lambda>y. f y = f x) xs = Some x"
  by (induction xs) auto

lemma deref_found:
  assumes "unique_users us" and "u \<in> set (user_list us)"
  shows "deref_user us (UserNamed (name u)) = Some u" and "find_user us (name u) = Some u"
proof -
  have "distinct (map name (user_list us))"
    using assms(1) by (auto simp: unique_users_def distinct_map comp_inj_on_iff intro: inj_on_imageI2)
  then show "deref_user us (UserNamed (name u)) = Some u"
    using find_unique [of name] assms(2) by simp
  show "find_user us (name u) = Some u"
    using find_unique [of "fold_case \<circ> name"] assms by (simp add: unique_users_def find_user_def find_user_in_find)
qed

lemma update_user_names:
  "(\<And>u. name (f u) = name u) \<Longrightarrow> map name (user_list (update_user r f us)) = map name (user_list us)"
  by (cases r) auto

lemma unique_usersI:
  "\<lbrakk>unique_users us; map name (user_list us') = map name (user_list us)\<rbrakk> \<Longrightarrow> unique_users us'"
  unfolding unique_users_def by (metis map_map)

lemma find_user_names:
  assumes "map name (user_list us') = map name (user_list us)"
  shows "(find_user us' n = None) = (find_user us n = None)"
  using arg_cong [OF assms, of set] by (simp add: find_user_None image_image)

lemma user_names_simps [simp]:
  "map name (user_list (clear_privilege p us)) = map name (user_list us)"
  "map name (user_list (set_visitor_rank r us)) = map name (user_list us)"
  "map name (user_list (set_user_password crypt rnd u pw us)) = map name (user_list us)"
  "map name (user_list (set_station_preferences u prefs us)) = map name (user_list us)"
  by (simp_all add: clear_privilege_def set_visitor_rank_def set_user_password_def
      set_station_preferences_def update_user_names)

lemma user_names_options:
  "set_rank u r us = Some us' \<Longrightarrow> map name (user_list us') = map name (user_list us)"
  "set_privilege u p b us = Some us' \<Longrightarrow> map name (user_list us') = map name (user_list us)"
  "set_ownership_rule m c us = Some us' \<Longrightarrow> map name (user_list us') = map name (user_list us)"
  "save_pandora_credentials creds us = Some us' \<Longrightarrow> map name (user_list us') = map name (user_list us)"
  "change_password crypt rnd u old pw us = Some (ok, us') \<Longrightarrow> map name (user_list us') = map name (user_list us)"
  by (auto simp: set_rank_def set_privilege_def set_ownership_rule_def save_pandora_credentials_def
      change_password_def update_user_names Let_def bind_eq_Some_conv split: option.splits if_splits)

lemma user_names_set_privileges:
  "set_privileges ns p b us = Some us' \<Longrightarrow> map name (user_list us') = map name (user_list us)"
  by (induction ns arbitrary: us) (auto simp: bind_eq_Some_conv dest: user_names_options)

lemma unique_users_create: "unique_users us \<Longrightarrow> unique_users (snd (create_user n pw us))"
  by (auto simp: create_user_def unique_users_def find_user_None split: option.split)

lemma PianoListDelete_distinct: "distinct (map f l) \<Longrightarrow> distinct (map f (PianoListDelete P l))"
  using PianoListDelete_set [of P l] by (induction l) (auto dest: set_mp [OF PianoListDelete_set])

lemma unique_users_delete: "\<lbrakk>unique_users us; delete_user r us = Some us'\<rbrakk> \<Longrightarrow> unique_users us'"
  by (cases r) (auto simp: unique_users_def PianoListDelete_distinct split: if_splits)

text \<open>
  A registry hands out one entry per key: what its clients rely on when they keep entries by name.
\<close>

locale registry =
  fixes inv :: "'s \<Rightarrow> bool"
    and find :: "'s \<Rightarrow> 'k \<Rightarrow> 'v option"
    and add :: "'k \<Rightarrow> 'a \<Rightarrow> 's \<Rightarrow> 'r option \<times> 's"
    and del :: "'k \<Rightarrow> 's \<Rightarrow> 's"
    and same :: "'k \<Rightarrow> 'k \<Rightarrow> bool"
  assumes inv_add: "inv s \<Longrightarrow> inv (snd (add k a s))"
    and inv_del: "inv s \<Longrightarrow> inv (del k s)"
    and add_taken: "\<lbrakk>inv s; find s k \<noteq> None\<rbrakk> \<Longrightarrow> add k a s = (None, s)"
    and add_free: "\<lbrakk>inv s; find s k = None\<rbrakk> \<Longrightarrow> fst (add k a s) \<noteq> None"
    and find_add: "\<lbrakk>inv s; find s k = None\<rbrakk> \<Longrightarrow>
      (find (snd (add k a s)) j \<noteq> None) = (same k j \<or> find s j \<noteq> None)"
    and find_del: "inv s \<Longrightarrow> (find (del k s) j \<noteq> None) = (\<not> same k j \<and> find s j \<noteq> None)"
    and same_refl: "same k k"
begin

lemma add_once: "inv s \<Longrightarrow> fst (add k b (snd (add k a s))) = None"
  by (metis add_taken find_add fst_conv inv_add same_refl snd_conv)

lemma add_del_free: "inv s \<Longrightarrow> fst (add k a (del k s)) \<noteq> None"
  by (metis add_free find_del inv_del same_refl)

end

definition drop_user :: "string \<Rightarrow> users_state \<Rightarrow> users_state" where
  "drop_user n us = (case find_user us n of
      None \<Rightarrow> us
    | Some u \<Rightarrow> the (delete_user (UserNamed (name u)) us))"

lemma PianoListDelete_remove1:
  "\<forall>y \<in> set l. P y \<longleftrightarrow> y = x \<Longrightarrow> PianoListDelete P l = remove1 x l"
  by (induction l) auto

lemma delete_user_list:
  assumes "unique_users us" and "u \<in> set (user_list us)"
  shows "\<exists>us'. delete_user (UserNamed (name u)) us = Some us' \<and> unique_users us'
    \<and> set (user_list us') = set (user_list us) - {u}"
proof -
  have "List.find (\<lambda>v. name v = name u) (user_list us) \<noteq> None"
    using assms(2) by (auto simp: find_None_iff)
  moreover have "set (PianoListDelete (\<lambda>v. name v = name u) (user_list us)) = set (user_list us) - {u}"
  proof -
    have "\<forall>v \<in> set (user_list us). name v = name u \<longleftrightarrow> v = u"
      using unique_usersD [OF assms(1) _ assms(2)] by metis
    moreover have "distinct (user_list us)"
      using assms(1) by (simp add: unique_users_def distinct_map)
    ultimately show ?thesis
      using PianoListDelete_remove1 [of "user_list us" "\<lambda>v. name v = name u" u] by simp
  qed
  ultimately show ?thesis
    using unique_users_delete [OF assms(1), of "UserNamed (name u)"] by simp
qed

lemma drop_user_list:
  assumes "unique_users us"
  shows "unique_users (drop_user n us) \<and>
    set (user_list (drop_user n us)) = {u \<in> set (user_list us). fold_case (name u) \<noteq> fold_case n}"
proof (cases "find_user us n")
  case None
  then have "\<forall>u \<in> set (user_list us). fold_case (name u) \<noteq> fold_case n"
    using find_user_iff [of us n] by blast
  then show ?thesis using assms None by (auto simp: drop_user_def)
next
  case (Some u)
  have u: "u \<in> set (user_list us)" "fold_case (name u) = fold_case n"
    using find_user_SomeD [OF Some] by auto
  obtain us' where "delete_user (UserNamed (name u)) us = Some us'" "unique_users us'"
    "set (user_list us') = set (user_list us) - {u}"
    using delete_user_list [OF assms u(1)] by blast
  moreover have "\<forall>v \<in> set (user_list us). fold_case (name v) = fold_case n \<longleftrightarrow> v = u"
    using u unique_usersD [OF assms _ u(1)] by metis
  ultimately show ?thesis
    using Some by (auto simp: drop_user_def)
qed

interpretation accounts: registry unique_users find_user create_user drop_user "\<lambda>a b. fold_case a = fold_case b"
proof unfold_locales
  fix us :: users_state and n m :: string and pw :: string
  assume inv: "unique_users us"
  show "unique_users (snd (create_user n pw us))" by (rule unique_users_create [OF inv])
  show "unique_users (drop_user n us)" using drop_user_list [OF inv] by blast
  show "(find_user (drop_user n us) m \<noteq> None) = (\<not> fold_case n = fold_case m \<and> find_user us m \<noteq> None)"
    using drop_user_list [OF inv, of n] by (auto simp only: find_user_iff)
next
  fix us :: users_state and n m :: string and pw :: string
  assume free: "find_user us n = None"
  then show "fst (create_user n pw us) \<noteq> None" by (simp add: create_user_def)
  show "(find_user (snd (create_user n pw us)) m \<noteq> None) = (fold_case n = fold_case m \<or> find_user us m \<noteq> None)"
    unfolding find_user_iff using free by (auto simp: create_user_def)
qed (auto simp: create_user_def)

section \<open>What the operations promise\<close>

text \<open>The operations the daemon performs on its users, as steps.\<close>

inductive users_step :: "users_state \<Rightarrow> users_state \<Rightarrow> bool" where
  step_create: "users_step us (snd (create_user n pw us))"
| step_delete: "delete_user r us = Some us' \<Longrightarrow> users_step us us'"
| step_password: "users_step us (set_user_password crypt rnd r pw us)"
| step_change_password: "change_password crypt rnd r old pw us = Some (ok, us') \<Longrightarrow> users_step us us'"
| step_visitor_rank: "users_step us (set_visitor_rank rk us)"
| step_rank: "set_rank r rk us = Some us' \<Longrightarrow> users_step us us'"
| step_privileges: "set_privileges ns p b us = Some us' \<Longrightarrow> users_step us us'"
| step_clear: "users_step us (clear_privilege p us)"
| step_ownership: "set_ownership_rule m c us = Some us' \<Longrightarrow> users_step us us'"
| step_preferences: "users_step us (set_station_preferences r prefs us)"
| step_credentials: "save_pandora_credentials creds us = Some us' \<Longrightarrow> users_step us us'"

inductive_cases users_step_cases: "users_step us us'"

lemma users_step_unique:
  assumes "users_step us us'" and "unique_users us"
  shows "unique_users us'"
  using assms(1)
proof cases
  case (step_create n pw)
  then show ?thesis using assms(2) by (simp add: unique_users_create)
next
  case (step_delete r)
  then show ?thesis using assms(2) by (simp add: unique_users_delete)
qed (auto intro: unique_usersI [OF assms(2)] dest: user_names_options user_names_set_privileges)

text \<open>
  C15: User names stay unique whatever their case: from a list in which no two names differ in case only, no sequence of the
  operations on users (creation, deletion, passwords, ranks, privileges, ownership, preferences, credentials) reaches one
  in which two do; in particular a creation under a taken name fails and changes nothing.
\<close>
theorem users_stay_unique:
  assumes "users_step\<^sup>*\<^sup>* us us'" and "unique_users us"
  shows "unique_users us' \<and> (\<forall>n pw. find_user us' n \<noteq> None \<longrightarrow> create_user n pw us' = (None, us'))"
proof -
  have "unique_users us'"
    using assms by (induction rule: rtranclp_induct) (auto intro: users_step_unique)
  then show ?thesis using accounts.add_taken by blast
qed

definition demo_startscript :: user where
  "demo_startscript = \<lparr>name = ''startscript'', user_password = [], rank = RANK_ADMINISTRATOR,
    privileges = (\<lambda>_. True), pandora_credentials = no_credentials, station_preferences = None\<rparr>"

text \<open>The static variables as the program starts with them.\<close>

definition initial_users :: users_state where
  "initial_users = \<lparr>user_list = [], dirty = False, visitor_rank = RANK_LISTENER,
    ownership_rule = MANAGER_ADMINISTRATOR, startscript_user = demo_startscript\<rparr>"

definition demo_users :: users_state where
  "demo_users = snd (create_user ''Joe'' ''xyz'' (snd (create_user ''ann'' ''abc'' initial_users)))"

lemma unique_initial_users: "unique_users initial_users"
  by (simp add: unique_users_def initial_users_def)

lemma unique_demo_users: "unique_users demo_users"
  unfolding demo_users_def by (intro unique_users_create unique_initial_users)

theorem users_stay_unique_witness:
  "unique_users demo_users \<and> create_user ''JOE'' ''other'' demo_users = (None, demo_users)"
proof -
  have "users_step\<^sup>*\<^sup>* initial_users demo_users"
    unfolding demo_users_def by (rule rtranclp.rtrancl_into_rtrancl [OF r_into_rtranclp]) (rule step_create)+
  note fact = users_stay_unique [OF this unique_initial_users]
  have "strcasecmp ''JOE'' ''Joe'' = 0" "strcasecmp ''Joe'' ''ann'' \<noteq> 0"
    by (simp_all add: strcasecmp_eq_0 to_lower_def char_of_eq_iff)
  then have "find_user demo_users ''JOE'' \<noteq> None"
    by (simp add: demo_users_def create_user_def find_user_def initial_users_def)
  then show ?thesis using fact by blast
qed

lemma privileges_clear: "u \<in> set (user_list (clear_privilege p us)) \<Longrightarrow> \<not> privileges u p"
  by (auto simp: clear_privilege_def)

text \<open>
  Ownership of the Pandora account is exclusive: once a rule is set, the manager privilege belongs to
  the named user alone (rule MANAGER_USER), to nobody (MANAGER_NONE), or to exactly the administrators
  (MANAGER_ADMINISTRATOR), whoever held it before.
\<close>
theorem set_ownership_rule_exclusive:
  assumes "set_ownership_rule rule (Some (UserNamed n)) us = Some us'" and "u \<in> set (user_list us')"
  shows "have_privilege us' (Some u) PRIVILEGE_MANAGER \<longleftrightarrow>
    (case rule of MANAGER_USER \<Rightarrow> name u = n | MANAGER_NONE \<Rightarrow> False
     | MANAGER_ADMINISTRATOR \<Rightarrow> rank u = RANK_ADMINISTRATOR)"
proof -
  define cl where "cl = clear_privilege PRIVILEGE_MANAGER us"
  have cleared: "\<not> privileges v PRIVILEGE_MANAGER" if "v \<in> set (user_list cl)" for v
    using that privileges_clear by (simp add: cl_def)
  show ?thesis
  proof (cases rule)
    case MANAGER_USER
    then have us': "us' = (update_user (UserNamed n)
        (\<lambda>u. u\<lparr>privileges := (privileges u)(PRIVILEGE_MANAGER := True)\<rparr>) cl)\<lparr>ownership_rule := rule\<rparr>"
      using assms(1) by (simp add: set_ownership_rule_def Let_def cl_def)
    then have "privileges u PRIVILEGE_MANAGER = (name u = n)"
      using assms(2) cleared by auto
    then show ?thesis using MANAGER_USER us' by (simp add: have_privilege_def)
  next
    case MANAGER_ADMINISTRATOR
    then have "ownership_rule us' = MANAGER_ADMINISTRATOR"
      using assms(1) by (auto simp: set_ownership_rule_def Let_def)
    then show ?thesis using MANAGER_ADMINISTRATOR
      by (cases "rank u") (simp_all add: have_privilege_def have_rank_def get_effective_rank_def rank_order)
  next
    case MANAGER_NONE
    then have "ownership_rule us' = MANAGER_NONE"
      using assms(1) by (auto simp: set_ownership_rule_def Let_def)
    then show ?thesis using MANAGER_NONE by (simp add: have_privilege_def)
  qed
qed

theorem set_ownership_rule_exclusive_witness:
  "\<exists>us'. set_ownership_rule MANAGER_USER (Some (UserNamed ''Joe'')) demo_users = Some us' \<and>
    (\<forall>u \<in> set (user_list us'). have_privilege us' (Some u) PRIVILEGE_MANAGER = (name u = ''Joe''))"
proof -
  obtain us' where us': "set_ownership_rule MANAGER_USER (Some (UserNamed ''Joe'')) demo_users = Some us'"
    by (simp add: set_ownership_rule_def Let_def)
  then show ?thesis using set_ownership_rule_exclusive [OF us'] by auto
qed

text \<open>
  What the C library promises of crypt: the salt is the first two characters of the setting and stays in front of
  the result, so encrypting again with the result as the setting gives the result.
\<close>

definition crypt_law :: "(string \<Rightarrow> string \<Rightarrow> string) \<Rightarrow> bool" where
  "crypt_law crypt \<longleftrightarrow> (\<forall>p s. 2 \<le> length s \<longrightarrow> crypt p (crypt p s) = crypt p s \<and> 2 < length (crypt p s))"

lemma set_user_password_auth:
  assumes law: "crypt_law crypt" and inv: "unique_users us" and u: "u \<in> set (user_list us)"
  shows "authenticate_user crypt (set_user_password crypt rnd (UserNamed (name u)) pw us) (name u) pw
    = Some (Some (UserNamed (name u)))"
proof -
  define us' where "us' = set_user_password crypt rnd (UserNamed (name u)) pw us"
  define v where "v = u\<lparr>user_password := encrypt_password crypt rnd pw\<rparr>"
  have "v \<in> set (user_list us')" and "name v = name u"
    using u by (auto simp: us'_def v_def set_user_password_def)
  moreover have "unique_users us'"
    unfolding us'_def by (rule unique_usersI [OF inv]) simp
  ultimately have "find_user us' (name u) = Some v"
    using deref_found(2) [of us' v] by simp
  moreover have "crypt pw (user_password v) = user_password v" "2 < length (user_password v)"
    using law by (simp_all add: crypt_law_def v_def encrypt_password_def)
  ultimately show ?thesis
    by (auto simp: authenticate_user_def us'_def v_def)
qed

text \<open>
  A changed password works, and only the old one can change it: change_password succeeds only for a user
  whose old password authenticates, and after it the new password authenticates that user.
\<close>
theorem change_password_correct:
  assumes "crypt_law crypt" and "unique_users us" and "u \<in> set (user_list us)"
    and "change_password crypt rnd (UserNamed (name u)) old pw us = Some (ok, us')"
  shows "ok = (authenticate_user crypt us (name u) old = Some (Some (UserNamed (name u))))
    \<and> (if ok then authenticate_user crypt us' (name u) pw = Some (Some (UserNamed (name u))) else us' = us)"
proof -
  have n: "get_user_name us (UserNamed (name u)) = Some (name u)"
    using deref_found(1) [OF assms(2,3)] by (simp add: get_user_name_def)
  obtain auth where auth: "authenticate_user crypt us (name u) old = Some auth"
    using assms(4) n by (auto simp: change_password_def bind_eq_Some_conv)
  show ?thesis
  proof (cases auth)
    case None
    then show ?thesis using assms(4) n auth by (simp add: change_password_def)
  next
    case (Some a)
    then have "a = UserNamed (name u)" "ok" "us' = set_user_password crypt rnd a pw us"
      using assms(4) n auth by (auto simp: change_password_def split: if_splits)
    then show ?thesis
      using Some auth set_user_password_auth [OF assms(1-3)] by simp
  qed
qed

definition demo_crypt :: "string \<Rightarrow> string \<Rightarrow> string" where
  "demo_crypt p s = take 2 s @ ''.'' @ p"

definition demo_user :: user where
  "demo_user = \<lparr>name = ''Joe'', user_password = ''ab.old'', rank = RANK_STANDARD,
    privileges = initial_privileges, pandora_credentials = no_credentials, station_preferences = None\<rparr>"

definition demo_users1 :: users_state where
  "demo_users1 = initial_users\<lparr>user_list := [demo_user]\<rparr>"

lemma demo_crypt_law: "crypt_law demo_crypt"
  by (simp add: crypt_law_def demo_crypt_def min_def)

lemma demo_change_password: "change_password demo_crypt (3, 4) (UserNamed ''Joe'') ''old'' ''new'' demo_users1 =
    Some (True, set_user_password demo_crypt (3, 4) (UserNamed ''Joe'') ''new'' demo_users1)"
  by (simp add: change_password_def get_user_name_def demo_users1_def demo_user_def authenticate_user_def
      find_user_def demo_crypt_def)

theorem change_password_correct_witness:
  "authenticate_user demo_crypt (set_user_password demo_crypt (3, 4) (UserNamed ''Joe'') ''new'' demo_users1)
    ''Joe'' ''new'' = Some (Some (UserNamed ''Joe''))"
proof -
  have "unique_users demo_users1" "demo_user \<in> set (user_list demo_users1)" "name demo_user = ''Joe''"
    by (simp_all add: unique_users_def demo_users1_def demo_user_def)
  then show ?thesis
    using change_password_correct [OF demo_crypt_law, of demo_users1 demo_user, simplified]
      demo_change_password by fastforce
qed

text \<open>
  C16: Remembered credentials come back as they were given: saved for a user, they are stored enciphered in that user's
  record, and restoring them from the record yields the same name, password, rule and manager, whatever
  credentials were in place.
\<close>
theorem save_restore_credentials:
  assumes "unique_users us" and "u \<in> set (user_list us)"
    and "cred_creator creds = Some (UserNamed (name u))"
    and "save_pandora_credentials creds us = Some us'"
  shows "\<exists>v. deref_user us' (UserNamed (name u)) = Some v \<and>
    restore_pandora_credentials v old = Some (True, creds\<lparr>cred_creator := None\<rparr>)"
proof -
  obtain n p e where cred: "cred_username creds = Some n" "cred_password creds = Some p"
    and e: "lamer_cipher n p = Some e"
    and us': "us' = (update_user (UserNamed (name u))
      (pandora_credentials_update (\<lambda>_. creds\<lparr>cred_password := Some e\<rparr>)) us)\<lparr>dirty := True\<rparr>"
    using assms(3,4) by (auto simp: save_pandora_credentials_def bind_eq_Some_conv)
  let ?v = "u\<lparr>pandora_credentials := creds\<lparr>cred_password := Some e\<rparr>\<rparr>"
  have "?v \<in> set (user_list us')" using assms(2) us' by auto
  moreover have "unique_users us'"
    using assms(1) us' by (intro unique_usersI [OF assms(1)]) (auto simp: update_user_names)
  ultimately have "deref_user us' (UserNamed (name ?v)) = Some ?v"
    by (rule deref_found(1) [rotated])
  moreover have "restore_pandora_credentials ?v old = Some (True, creds\<lparr>cred_creator := None\<rparr>)"
    using cred lamer.self_inverse [OF e]
    by (simp add: restore_pandora_credentials_def no_credentials_def)
  ultimately show ?thesis by auto
qed

definition demo_creds :: credentials where
  "demo_creds = \<lparr>cred_username = Some ''joe'', cred_password = Some ''Ab1'', cred_manager = None,
    cred_creator = Some (UserNamed ''Joe''), cred_rule = MANAGER_NONE\<rparr>"

theorem save_restore_credentials_witness:
  "\<exists>us' v. save_pandora_credentials demo_creds demo_users1 = Some us' \<and>
    deref_user us' (UserNamed ''Joe'') = Some v \<and>
    restore_pandora_credentials v no_credentials = Some (True, demo_creds\<lparr>cred_creator := None\<rparr>)"
proof -
  have u: "unique_users demo_users1" "demo_user \<in> set (user_list demo_users1)" "name demo_user = ''Joe''"
    by (simp_all add: unique_users_def demo_users1_def demo_user_def)
  have "lamer_cipher ''joe'' ''Ab1'' \<noteq> None"
    by (simp add: lamer_cipher_total)
  then obtain us' where us': "save_pandora_credentials demo_creds demo_users1 = Some us'"
    by (auto simp: save_pandora_credentials_def demo_creds_def)
  show ?thesis
    using save_restore_credentials [OF u(1,2) _ us', of no_credentials] us' u(3)
    by (auto simp: demo_creds_def)
qed

end
