(* ===== verification/PianoRpc.thy ===== *)
theory PianoRpc
  imports Piano "HOL-Library.Monad_Syntax"
begin

text \<open>
  The requests to the Pandora service and what their answers change:
  \<open>src/src/libpiano/request.c\<close> and \<open>src/src/libpiano/response.c\<close>.

  A request is a constructor of \<open>piano_request\<close> with its \<open>PianoRequestData\<close> structure as arguments;
  the fields the response fills in are arguments too, so the caller gets them back in the returned request.
  JSON itself is json-c's business: what the code hands to it is the list of fields of \<open>http_post\<close>, and what it
  reads off an answer is a \<open>pandora_reply\<close>.  Encryption is libgcrypt's: whether it succeeds, and
  the time stamp a decryption yields, are arguments.

  \<open>None\<close> is a failed assertion or a NULL dereference, where the process ends.
\<close>

section \<open>Requests\<close>

datatype music_type = PIANO_MUSICTYPE_INVALID | PIANO_MUSICTYPE_SONG | PIANO_MUSICTYPE_ARTIST

datatype piano_request =
    Login string string nat
  | GetStations
  | GetPlaylist string audio_quality "song list"
  | RateSong song rating
  | AddFeedback "string option" "string option" rating
  | RenameStation string string
  | DeleteStation string
  | Search string search_result
  | CreateStation string music_type
  | AddSeed string string
  | AddTiredSong song
  | SetQuickMix
  | GetGenreStations
  | TransformStation string
  | Explain song "string option"
  | BookmarkSong song
  | BookmarkArtist song
  | GetStationInfo string station_info
  | DeleteFeedback song
  | DeleteSeed "song option" "artist option" "station option"

datatype jvalue = JString string | JInt int | JBool bool | JArray "jvalue list"

record http_post =
  secure :: bool
  urlPath :: string
  jfields :: "(string \<times> jvalue) list"
  encrypted :: bool

definition PIANO_RPC_PATH :: string where
  "PIANO_RPC_PATH = ''/services/json/?''"

definition song_token :: "song \<Rightarrow> (string \<times> jvalue) list option" where
  "song_token song = map_option (\<lambda>t. [(''trackToken'', JString t)]) (trackToken song)"

definition delete_seed_id :: "song option \<Rightarrow> artist option \<Rightarrow> station option \<Rightarrow> string option" where
  "delete_seed_id song art sta = (case song of
      Some s \<Rightarrow> seedId s
    | None \<Rightarrow> (case art of
        Some a \<Rightarrow> artist_seedId a
      | None \<Rightarrow> (case sta of Some st \<Rightarrow> st_seedId st | None \<Rightarrow> None)))"

definition add_feedback_fields ::
    "string option \<Rightarrow> string option \<Rightarrow> rating \<Rightarrow> (string \<times> (string \<times> jvalue) list) option" where
  "add_feedback_fields sid token r = (case (sid, token) of
      (Some sid, Some token) \<Rightarrow>
        if r = PIANO_RATE_NONE then None
        else Some (''station.addFeedback'',
          [(''stationToken'', JString sid), (''trackToken'', JString token),
           (''isPositive'', JBool (r = PIANO_RATE_LOVE))])
    | _ \<Rightarrow> None)"

text \<open>The RPC method and the fields of each request but the login.\<close>

fun request_fields :: "piano_handle \<Rightarrow> piano_request \<Rightarrow> (string \<times> (string \<times> jvalue) list) option" where
  "request_fields ph (Login _ _ _) = None"
| "request_fields ph GetStations =
    (if listenerId ph = None then None else Some (''user.getStationList'', []))"
| "request_fields ph (GetPlaylist sid _ _) = Some (''station.getPlaylist'',
    [(''stationToken'', JString sid), (''includeTrackLength'', JBool True)])"
| "request_fields ph (AddFeedback sid token r) = add_feedback_fields sid token r"
| "request_fields ph (RenameStation sid newName) = Some (''station.renameStation'',
    [(''stationToken'', JString sid), (''stationName'', JString newName)])"
| "request_fields ph (DeleteStation sid) = Some (''station.deleteStation'', [(''stationToken'', JString sid)])"
| "request_fields ph (Search str _) = Some (''music.search'', [(''searchText'', JString str)])"
| "request_fields ph (CreateStation token ty) = Some (''station.createStation'',
    (case ty of
       PIANO_MUSICTYPE_INVALID \<Rightarrow> [(''musicToken'', JString token)]
     | PIANO_MUSICTYPE_SONG \<Rightarrow> [(''trackToken'', JString token), (''musicType'', JString ''song'')]
     | PIANO_MUSICTYPE_ARTIST \<Rightarrow> [(''trackToken'', JString token), (''musicType'', JString ''artist'')]))"
| "request_fields ph (AddSeed sid mid) = Some (''station.addMusic'',
    [(''musicToken'', JString mid), (''stationToken'', JString sid)])"
| "request_fields ph (AddTiredSong song) = map_option (\<lambda>f. (''user.sleepSong'', f)) (song_token song)"
| "request_fields ph SetQuickMix = Some (''user.setQuickMix'',
    [(''quickMixStationIds'', JArray (map (JString \<circ> st_id)
       (filter (\<lambda>s. useQuickMix s \<and> \<not> isQuickMix s) (stations ph))))])"
| "request_fields ph GetGenreStations = Some (''station.getGenreStations'', [])"
| "request_fields ph (TransformStation sid) =
    Some (''station.transformSharedStation'', [(''stationToken'', JString sid)])"
| "request_fields ph (Explain song _) = map_option (\<lambda>f. (''track.explainTrack'', f)) (song_token song)"
| "request_fields ph (BookmarkSong song) =
    map_option (\<lambda>f. (''bookmark.addSongBookmark'', f)) (song_token song)"
| "request_fields ph (BookmarkArtist song) =
    map_option (\<lambda>f. (''bookmark.addArtistBookmark'', f)) (song_token song)"
| "request_fields ph (GetStationInfo sid _) = Some (''station.getStation'',
    [(''stationToken'', JString sid), (''includeExtendedAttributes'', JBool True)])"
| "request_fields ph (DeleteFeedback song) =
    map_option (\<lambda>i. (''station.deleteFeedback'', [(''feedbackId'', JString i)])) (feedbackId song)"
| "request_fields ph (DeleteSeed song art sta) =
    map_option (\<lambda>i. (''station.deleteMusic'', [(''seedId'', JString i)])) (delete_seed_id song art sta)"
| "request_fields ph (RateSong song r) = add_feedback_fields (stationId song) (trackToken song) r"

definition login_post :: "int \<Rightarrow> piano_handle \<Rightarrow> string \<Rightarrow> string \<Rightarrow> nat \<Rightarrow> http_post option" where
  "login_post timestamp ph user password step =
    (if step = 0 then Some
       \<lparr>secure = True,
        urlPath = snprintf 1024 (PIANO_RPC_PATH @ ''method=auth.partnerLogin''),
        jfields = [(''username'', JString (partner_user (ph_partner ph))),
          (''password'', JString (partner_password (ph_partner ph))),
          (''deviceModel'', JString (partner_device (ph_partner ph))),
          (''version'', JString ''5''), (''includeUrls'', JBool True)],
        encrypted = False\<rparr>
     else if step = 1 then do {
       token \<leftarrow> partner_authToken (ph_partner ph);
       Some \<lparr>secure = True,
         urlPath = snprintf 1024 (PIANO_RPC_PATH @ ''method=auth.userLogin&auth_token='' @ WaitressUrlEncode token
           @ ''&partner_id='' @ show_int (partner_id (ph_partner ph))),
         jfields = [(''loginType'', JString ''user''), (''username'', JString user),
           (''password'', JString password), (''partnerAuthToken'', JString token),
           (''syncTime'', JInt timestamp)],
         encrypted = True\<rparr>
     }
     else Some \<lparr>secure = False, urlPath = [], jfields = [], encrypted = True\<rparr>)"

text \<open>
  \<open>now\<close> is the clock and \<open>crypt_ok\<close> whether PianoEncryptString finds memory.
\<close>

definition PianoRequest :: "int \<Rightarrow> bool \<Rightarrow> piano_handle \<Rightarrow> piano_request \<Rightarrow> (int \<times> http_post) option" where
  "PianoRequest now crypt_ok ph req = (
    let timestamp = now - timeOffset ph in do {
      post \<leftarrow> (case req of
          Login user password step \<Rightarrow> login_post timestamp ph user password step
        | _ \<Rightarrow> do {
            (meth, fields) \<leftarrow> request_fields ph req;
            token \<leftarrow> authToken ph;
            listener \<leftarrow> listenerId ph;
            Some \<lparr>secure = (case req of GetPlaylist _ _ _ \<Rightarrow> True | _ \<Rightarrow> False),
              urlPath = snprintf 1024 (PIANO_RPC_PATH @ ''method='' @ meth @ ''&auth_token=''
                @ WaitressUrlEncode token @ ''&partner_id='' @ show_int (partner_id (ph_partner ph))
                @ ''&user_id='' @ listener),
              jfields = fields @ [(''userAuthToken'', JString token), (''syncTime'', JInt timestamp)],
              encrypted = True\<rparr>
          });
      Some (if encrypted post \<and> \<not> crypt_ok then PIANO_RET_OUT_OF_MEMORY else PIANO_RET_OK, post)
    })"

section \<open>Answers\<close>

text \<open>The objects of an answer, as the code reads them with the json-c accessors.\<close>

record station_obj =
  stationName :: string
  stationToken :: string
  isShared :: bool
  so_isQuickMix :: bool
  quickMixStationIds :: "string list option"

record song_obj =
  songName :: string
  artistName :: "string option"
  albumName :: string
  so_trackToken :: string
  so_stationId :: string
  albumArtUrl :: string
  songDetailUrl :: string
  trackGain :: rat
  trackLength :: nat
  songRating :: int
  audioUrlMap :: "audio_quality \<Rightarrow> (string \<times> string) option"

record pandora_result =
  syncTime :: "int option"
  partnerAuthToken :: string
  partnerId :: int
  userId :: string
  userAuthToken :: string
  res_stations :: "station_obj list"
  res_items :: "song_obj list"
  res_station :: station_obj
  res_artists :: "(string \<times> string) list"
  res_songs :: "(string \<times> string \<times> string) list"
  res_categories :: "(string \<times> (string \<times> string) list) list"
  res_explanations :: "string list option"
  res_seed_songs :: "(string \<times> string \<times> string) list"
  res_seed_artists :: "(string \<times> string) list"
  res_feedback :: "(string \<times> string \<times> string \<times> bool) list"

datatype pandora_reply =
    ReplyNoStat
  | ReplyFail "int option"
  | ReplyOk pandora_result

definition PianoJsonParseStation :: "station_obj \<Rightarrow> station" where
  "PianoJsonParseStation j = no_station\<lparr>st_name := stationName j, st_id := stationToken j,
    isCreator := \<not> isShared j, isQuickMix := so_isQuickMix j\<rparr>"

text \<open>PianoStrpcat: skip to the end of the destination, then copy while there is room.\<close>

fun strpcat_copy :: "string \<Rightarrow> nat \<Rightarrow> string" where
  "strpcat_copy [] len = []"
| "strpcat_copy (c # src) len = (if len > 1 then c # strpcat_copy src (len - 1) else [])"

fun PianoStrpcat :: "string \<Rightarrow> string \<Rightarrow> nat \<Rightarrow> string" where
  "PianoStrpcat [] src len = strpcat_copy src len"
| "PianoStrpcat (d # dest) src len = (if len > 1 then d # PianoStrpcat dest src (len - 1) else [])"

definition explain_size :: nat where
  "explain_size = 768"

text \<open>\<open>n\<close> explanations in all, the first of the list being number \<open>i\<close>.\<close>

fun explain_loop :: "int \<Rightarrow> int \<Rightarrow> string list \<Rightarrow> string \<Rightarrow> string" where
  "explain_loop n i [] text = text"
| "explain_loop n i (e # es) text = (
    let text = PianoStrpcat text e explain_size;
        text = PianoStrpcat text
          (if i < n - 2 then '', '' else if i = n - 2 then '' and '' else ''.'') explain_size
    in explain_loop n (i + 1) es text)"

definition explain_text :: "string list \<Rightarrow> string" where
  "explain_text es = explain_loop (int (length es)) 0 es ''We're playing this track because it features ''"

section \<open>The effect of an answer\<close>

definition login_response :: "int \<Rightarrow> pandora_result \<Rightarrow> string \<Rightarrow> string \<Rightarrow> nat \<Rightarrow> piano_handle \<Rightarrow>
    int \<times> piano_handle \<times> piano_request" where
  "login_response now result user password step ph =
    (if step = 0 then
       let (ret, ph) = (case syncTime result of
             Some timestamp \<Rightarrow> (PIANO_RET_CONTINUE_REQUEST, ph\<lparr>timeOffset := now - timestamp\<rparr>)
           | None \<Rightarrow> (PIANO_RET_ERR, ph));
           ph = ph\<lparr>ph_partner := (ph_partner ph)\<lparr>partner_authToken := Some (partnerAuthToken result),
             partner_id := partnerId result\<rparr>\<rparr>
       in (ret, ph, Login user password (step + 1))
     else if step = 1 then
       (PIANO_RET_OK, ph\<lparr>listenerId := Some (userId result), authToken := Some (userAuthToken result)\<rparr>,
        Login user password step)
     else (PIANO_RET_OK, ph, Login user password step))"

definition get_stations_response :: "pandora_result \<Rightarrow> piano_handle \<Rightarrow> piano_handle" where
  "get_stations_response result ph = (
    let added = fold (\<lambda>s l. PianoListAppend l (PianoJsonParseStation s)) (res_stations result) (stations ph);
        mix = fold (\<lambda>s m. if so_isQuickMix s then quickMixStationIds s else m) (res_stations result) None
    in ph\<lparr>stations := (case mix of
          None \<Rightarrow> added
        | Some ids \<Rightarrow> map (\<lambda>s. if st_id s \<in> set ids then s\<lparr>useQuickMix := True\<rparr> else s) added)\<rparr>)"

definition format_of :: "string \<Rightarrow> audio_format" where
  "format_of encoding =
    (if encoding = ''aacplus'' then PIANO_AF_AACPLUS
     else if encoding = ''mp3'' then PIANO_AF_MP3 else PIANO_AF_UNKNOWN)"

fun playlist_loop :: "audio_quality \<Rightarrow> song_obj list \<Rightarrow> song list \<Rightarrow> song list option" where
  "playlist_loop q [] playlist = Some playlist"
| "playlist_loop q (s # rest) playlist = (case artistName s of
      None \<Rightarrow> playlist_loop q rest playlist
    | Some art \<Rightarrow> (case audioUrlMap s q of
        None \<Rightarrow> None
      | Some (encoding, url) \<Rightarrow> playlist_loop q rest (PianoListAppend playlist
          (no_song\<lparr>artist := art, album := Some (albumName s), title := songName s,
            trackToken := Some (so_trackToken s), stationId := Some (so_stationId s),
            coverArt := Some (albumArtUrl s), detailUrl := Some (songDetailUrl s),
            audioUrl := Some url, audioFormat := format_of encoding,
            fileGain := trackGain s, song_length := trackLength s,
            song_rating := (if songRating s = 1 then PIANO_RATE_LOVE else PIANO_RATE_NONE)\<rparr>))))"

definition search_response :: "pandora_result \<Rightarrow> search_result" where
  "search_response result =
    \<lparr>found_songs = map (\<lambda>(n, a, t). no_song\<lparr>title := n, artist := a, musicId := Some t\<rparr>) (res_songs result),
     found_artists = map (\<lambda>(n, t). no_artist\<lparr>artist_name := n, artist_musicId := Some t\<rparr>) (res_artists result)\<rparr>"

definition create_station_response :: "pandora_result \<Rightarrow> piano_handle \<Rightarrow> piano_handle" where
  "create_station_response result ph = (
    let tmpStation = PianoJsonParseStation (res_station result);
        l = (case PianoFindStationById (stations ph) (st_id tmpStation) of
            None \<Rightarrow> stations ph
          | Some search \<Rightarrow> PianoListDelete (\<lambda>s. st_id s = st_id search) (stations ph))
    in ph\<lparr>stations := PianoListAppend l tmpStation\<rparr>)"

definition station_info_response :: "pandora_result \<Rightarrow> station_info \<Rightarrow> station_info" where
  "station_info_response result info =
    info\<lparr>songSeeds := songSeeds info @
        map (\<lambda>(n, a, i). no_song\<lparr>title := n, artist := a, seedId := Some i\<rparr>) (res_seed_songs result),
      artistSeeds := artistSeeds info @
        map (\<lambda>(n, i). no_artist\<lparr>artist_name := n, artist_seedId := Some i\<rparr>) (res_seed_artists result),
      feedback := feedback info @
        map (\<lambda>(n, a, i, pos). no_song\<lparr>title := n, artist := a, feedbackId := Some i,
          song_rating := (if pos then PIANO_RATE_LOVE else PIANO_RATE_BAN)\<rparr>) (res_feedback result)\<rparr>"

fun result_response :: "int \<Rightarrow> pandora_result \<Rightarrow> piano_handle \<Rightarrow> piano_request \<Rightarrow>
    (int \<times> piano_handle \<times> piano_request) option" where
  "result_response now result ph (Login user password step) =
    Some (login_response now result user password step ph)"
| "result_response now result ph GetStations =
    Some (PIANO_RET_OK, get_stations_response result ph, GetStations)"
| "result_response now result ph (GetPlaylist sid q ret) =
    (if q = PIANO_AQ_UNKNOWN then None
     else Some (case playlist_loop q (res_items result) [] of
         None \<Rightarrow> (PIANO_RET_QUALITY_UNAVAILABLE, ph, GetPlaylist sid q ret)
       | Some playlist \<Rightarrow> (PIANO_RET_OK, ph, GetPlaylist sid q playlist)))"
| "result_response now result ph (RateSong song r) =
    Some (PIANO_RET_OK, ph, RateSong (song\<lparr>song_rating := r\<rparr>) r)"
| "result_response now result ph (AddFeedback _ _ _) = None"
| "result_response now result ph (RenameStation sid newName) =
    Some (PIANO_RET_OK, ph\<lparr>stations := update_station sid (st_name_update (\<lambda>_. newName)) (stations ph)\<rparr>,
      RenameStation sid newName)"
| "result_response now result ph (DeleteStation sid) =
    Some (PIANO_RET_OK, ph\<lparr>stations := PianoListDelete (\<lambda>s. st_id s = sid) (stations ph)\<rparr>, DeleteStation sid)"
| "result_response now result ph (Search str _) =
    Some (PIANO_RET_OK, ph, Search str (search_response result))"
| "result_response now result ph (CreateStation token ty) =
    Some (PIANO_RET_OK, create_station_response result ph, CreateStation token ty)"
| "result_response now result ph GetGenreStations =
    Some (PIANO_RET_OK, ph\<lparr>genreStations := genreStations ph @
        map (\<lambda>(n, gs). \<lparr>category_name = n, genres = map (\<lambda>(g, t). \<lparr>genre_name = g, genre_musicId = t\<rparr>) gs\<rparr>)
          (res_categories result)\<rparr>, GetGenreStations)"
| "result_response now result ph (TransformStation sid) =
    Some (PIANO_RET_OK, ph\<lparr>stations := update_station sid (isCreator_update (\<lambda>_. True)) (stations ph)\<rparr>,
      TransformStation sid)"
| "result_response now result ph (Explain song old) =
    Some (PIANO_RET_OK, ph, Explain song (case res_explanations result of
        None \<Rightarrow> old | Some es \<Rightarrow> Some (explain_text es)))"
| "result_response now result ph (GetStationInfo sid info) =
    Some (PIANO_RET_OK, ph, GetStationInfo sid (station_info_response result info))"
| "result_response now result ph req = Some (PIANO_RET_OK, ph, req)"

fun is_login_step1 :: "piano_request \<Rightarrow> bool" where
  "is_login_step1 (Login _ _ step) = (step = 1)"
| "is_login_step1 _ = False"

definition PianoResponse :: "int \<Rightarrow> pandora_reply \<Rightarrow> piano_handle \<Rightarrow> piano_request \<Rightarrow>
    (int \<times> piano_handle \<times> piano_request) option" where
  "PianoResponse now reply ph req = (case reply of
      ReplyNoStat \<Rightarrow> Some (PIANO_RET_INVALID_RESPONSE, ph, req)
    | ReplyFail None \<Rightarrow> Some (PIANO_RET_INVALID_RESPONSE, ph, req)
    | ReplyFail (Some code) \<Rightarrow>
        let ret = code + PIANO_RET_OFFSET;
            ret = (if ret = PIANO_RET_P_INVALID_PARTNER_LOGIN \<and> is_login_step1 req
              then PIANO_RET_INVALID_LOGIN else ret)
        in Some (ret, ph, req)
    | ReplyOk result \<Rightarrow> result_response now result ph req)"

section \<open>Explanations stay inside their buffer\<close>

lemma strpcat_copy_take: "strpcat_copy src len = take (len - 1) src"
  by (induction src len rule: strpcat_copy.induct) (auto simp: take_Cons')

lemma PianoStrpcat_take: "PianoStrpcat dest src len = take (len - 1) (dest @ src)"
  by (induction dest src len rule: PianoStrpcat.induct) (auto simp: strpcat_copy_take take_Cons')

text \<open>The text without a bound: an enumeration with commas, an \<open>and\<close> and a full stop.\<close>

fun enumeration :: "string list \<Rightarrow> string" where
  "enumeration [] = []"
| "enumeration [e] = e @ ''.''"
| "enumeration [e, f] = e @ '' and '' @ f @ ''.''"
| "enumeration (e # es) = e @ '', '' @ enumeration es"

lemma take_take_append: "take n (take n a @ b) = take n (a @ b)"
  by (cases "length a \<le> n") auto

lemma PianoStrpcat_fill: "PianoStrpcat (take 767 acc) e explain_size = take 767 (acc @ e)"
proof -
  have "explain_size - 1 = 767" by (simp add: explain_size_def)
  then show ?thesis by (simp only: PianoStrpcat_take take_take_append)
qed

lemma explain_loop_take:
  assumes "i + int (length es) = n"
  shows "explain_loop n i es (take 767 acc) = take 767 (acc @ enumeration es)"
  using assms
proof (induction es arbitrary: i acc rule: enumeration.induct)
  case 1
  then show ?case by simp
next
  case (2 e)
  then have "n = i + 1" by simp
  then show ?case by (simp add: PianoStrpcat_fill Let_def del: take_append)
next
  case (3 e f)
  then have "n = i + 2" by simp
  then show ?case by (simp add: PianoStrpcat_fill Let_def del: take_append)
next
  case (4 e f g es)
  then have "i < n - 2" by simp
  then show ?case
    using "4.IH" [of "i + 1" "acc @ e @ '', ''"] "4.prems" by (simp add: PianoStrpcat_fill Let_def del: take_append)
qed

text \<open>
  The explanation of a song choice is an English enumeration cut to its buffer: whatever number of traits the server names
  and however long they are, the text the player builds with PianoStrpcat is the first 767 characters of the
  full sentence, so with its NUL it never leaves the 768 bytes that were allocated.
\<close>
theorem explain_text_enumeration:
  "explain_text es = take 767 (''We're playing this track because it features '' @ enumeration es)
    \<and> length (explain_text es) < explain_size"
proof -
  have "explain_text es = take 767 (''We're playing this track because it features '' @ enumeration es)"
    using explain_loop_take [of 0 es "int (length es)" "''We're playing this track because it features ''"]
    by (simp add: explain_text_def)
  then show ?thesis by (simp add: explain_size_def)
qed

section \<open>The station list under the requests\<close>

definition distinct_ids :: "piano_handle \<Rightarrow> bool" where
  "distinct_ids ph \<longleftrightarrow> distinct (map st_id (stations ph))"

lemma map_PianoListDelete:
  "map f (PianoListDelete (\<lambda>s. f s = x) l) = remove1 x (map f l)"
  by (induction l) auto

lemma distinct_ids_create: "distinct_ids ph \<Longrightarrow> distinct_ids (create_station_response r ph)"
proof -
  assume *: "distinct_ids ph"
  let ?t = "PianoJsonParseStation (res_station r)"
  have "st_id ?t \<notin> st_id ` set (PianoListDelete (\<lambda>s. st_id s = st_id ?t) (stations ph))"
    using * map_PianoListDelete [of st_id "st_id ?t" "stations ph"]
    by (metis distinct_ids_def image_set set_remove1_eq Diff_iff singletonI)
  then show ?thesis
    using * by (auto simp: create_station_response_def distinct_ids_def Let_def PianoListAppend_def
      map_PianoListDelete PianoFindStationById_None dest: PianoFindStationById_SomeD split: option.splits)
qed

lemma login_response_stations:
  "login_response t r u p n ph = (ret, ph', req') \<Longrightarrow> stations ph' = stations ph"
  by (auto simp: login_response_def split: option.splits if_splits)

text \<open>
  Every station keeps a name of its own: whatever the server answers, no request but the retrieval of a fresh list
  can make two stations of the list share an id; a created station takes the place of one with its id.
\<close>
theorem PianoResponse_distinct_ids:
  assumes "PianoResponse now reply ph req = Some (ret, ph', req')" and "distinct_ids ph"
    and "req \<noteq> GetStations"
  shows "distinct_ids ph'"
proof (cases reply)
  case (ReplyOk r)
  then have "result_response now r ph req = Some (ret, ph', req')"
    using assms(1) by (simp add: PianoResponse_def)
  then show ?thesis
    using assms(2,3) distinct_ids_create [of ph r]
    by (cases req)
      (auto simp: distinct_ids_def update_station_ids map_PianoListDelete split: if_splits option.splits
        dest!: login_response_stations)
qed (use assms in \<open>auto simp: PianoResponse_def Let_def split: option.splits\<close>)

end
