(* ===== verification/AppState.thy ===== *)
theory AppState
  imports Users PianoRpc
begin

text \<open>
  The state of the daemon: \<open>APPSTATE\<close> of \<open>src/src/pianod.h\<close>, the settings of \<open>src/src/settings.h\<close>, the
  fields of \<open>src/src/player.h\<close> that the main thread reads and writes, and the static variables of
  \<open>support.c\<close>, \<open>tuner.c\<close> and \<open>seeds.c\<close>.

  \<open>app->selected_station\<close> points into the station list: it is the id of that station.
  \<open>world\<close> holds what the program cannot decide: the answers of the network, of crypt, of the random generator,
  of libao and the file system.  The counters of the state number the questions, so that each answer may
  be another one; \<open>now\<close> is the clock, which network exchanges advance.
\<close>

section \<open>The outside\<close>

record world =
  w_crypt_ok :: "nat \<Rightarrow> bool"
  w_http :: "nat \<Rightarrow> http_post \<Rightarrow> int"
  w_reply :: "nat \<Rightarrow> http_post \<Rightarrow> pandora_reply"
  w_elapsed :: "nat \<Rightarrow> nat"
  w_crypt :: "string \<Rightarrow> string \<Rightarrow> string"
  w_random :: "nat \<Rightarrow> nat \<times> nat"
  w_pow :: "rat \<Rightarrow> rat \<Rightarrow> rat"
  w_piano_init :: "nat \<Rightarrow> int"
  w_ao_driver :: "string \<Rightarrow> bool"
  w_isdir :: "string \<Rightarrow> bool"
  w_shoutcast :: "nat \<Rightarrow> string option \<Rightarrow> bool"
  w_test_tone :: "nat \<Rightarrow> (bool \<times> string) option"
  w_strerror :: "nat \<Rightarrow> string"

section \<open>Player\<close>

datatype player_mode = PLAYER_FREED | PLAYER_STARTING | PLAYER_INITIALIZED | PLAYER_FOUND_ESDS
  | PLAYER_AUDIO_INITIALIZED | PLAYER_FOUND_STSZ | PLAYER_SAMPLESIZE_INITIALIZED | PLAYER_RECV_DATA
  | PLAYER_FINISHED_PLAYBACK

primrec mode_code :: "player_mode \<Rightarrow> nat" where
  "mode_code PLAYER_FREED = 0"
| "mode_code PLAYER_STARTING = 1"
| "mode_code PLAYER_INITIALIZED = 2"
| "mode_code PLAYER_FOUND_ESDS = 3"
| "mode_code PLAYER_AUDIO_INITIALIZED = 4"
| "mode_code PLAYER_FOUND_STSZ = 5"
| "mode_code PLAYER_SAMPLESIZE_INITIALIZED = 6"
| "mode_code PLAYER_RECV_DATA = 7"
| "mode_code PLAYER_FINISHED_PLAYBACK = 8"

instantiation player_mode :: linorder
begin

definition less_eq_player_mode :: "player_mode \<Rightarrow> player_mode \<Rightarrow> bool" where
  "less_eq_player_mode a b \<longleftrightarrow> mode_code a \<le> mode_code b"

definition less_player_mode :: "player_mode \<Rightarrow> player_mode \<Rightarrow> bool" where
  "less_player_mode a b \<longleftrightarrow> mode_code a < mode_code b"

instance
proof
  fix a b :: player_mode
  show "a \<le> b \<Longrightarrow> b \<le> a \<Longrightarrow> a = b"
    by (cases a; cases b) (simp_all add: less_eq_player_mode_def)
qed (auto simp: less_eq_player_mode_def less_player_mode_def)

end

lemmas mode_order = less_eq_player_mode_def less_player_mode_def

record audioPlayer =
  doQuit :: bool
  doPause :: bool
  mode :: player_mode
  player_format :: audio_format
  player_scale :: nat
  player_gain :: rat
  songDuration :: nat
  songPlayed :: nat
  player_url :: waitress_url
  player_proxy :: waitress_url
  player_output :: "string option list"

definition no_player :: audioPlayer where
  "no_player = \<lparr>doQuit = False, doPause = False, mode = PLAYER_FREED, player_format = PIANO_AF_UNKNOWN,
    player_scale = 0, player_gain = 0, songDuration = 0, songPlayed = 0, player_url = no_url,
    player_proxy = no_url, player_output = []\<rparr>"

abbreviation (input) BAR_PLAYER_MS_TO_S_FACTOR :: nat where "BAR_PLAYER_MS_TO_S_FACTOR \<equiv> 1000"

definition BarPlayerCalcScale :: "world \<Rightarrow> rat \<Rightarrow> nat" where
  "BarPlayerCalcScale w applyGain = nat (floor (w_pow w 10 (applyGain / 20) * 100))"

section \<open>Settings\<close>

record settings =
  rpcHost :: "string option"
  rpcTlsPort :: "string option"
  partnerUser :: "string option"
  partnerPassword :: "string option"
  device :: "string option"
  inkey :: "string option"
  outkey :: "string option"
  volume :: int
  pandora_retry :: int
  pandora :: credentials
  pending :: credentials
  control_proxy :: "string option"
  proxy :: "string option"
  capture_path :: "string option"
  capture_pathlen :: nat
  shoutcast_server :: "string option"
  tlsFingerprint :: bytes
  audioQuality :: audio_quality
  history_length :: nat
  port :: nat
  http_port :: nat
  https_port :: nat
  broadcast_user_actions :: bool
  pause_timeout :: int
  playlist_expiration :: int
  user_file :: string
  automatic_mode :: nat
  output_driver :: "string option"
  output_device :: "string option"
  output_id :: "string option"
  output_server :: "string option"

section \<open>State\<close>

datatype playback_state = PAUSED | PLAYING

record stallinfo =
  stall_since :: int
  sample_time :: int
  sample :: int
  stalled :: bool

definition no_stall :: stallinfo where
  "no_stall = \<lparr>stall_since = 0, sample_time = 0, sample = 0, stalled = False\<rparr>"

record skip_record =
  skip_station :: string
  skip_when :: int

record stationinfo_cache =
  cache_station :: string
  retrieved :: int
  cache_info :: station_info

record appstate =
  ph :: piano_handle
  waith_host :: "string option"
  waith_tlsPort :: "string option"
  waith_fingerprint :: bytes
  waith_proxy :: waitress_url
  player :: audioPlayer
  settings :: settings
  playlist :: "song list"
  playlist_retrieved :: int
  current_song :: "song option"
  song_history :: "song list"
  selected_station :: "string option"
  playback_state :: playback_state
  automatic_stations :: bool
  paused_since :: int
  stall :: stallinfo
  player_soft_errors :: nat
  shoutcast :: bool
  service_running :: bool
  service :: service
  users :: users_state
  retry_login_time :: int
  update_station_list_time :: int
  pianoparam_change_pending :: bool
  quit_requested :: bool
  quit_initiated :: bool
  broadcast_status :: bool
  skip_history :: "skip_record list"
  computation_had_results :: bool
  computation_has_listeners :: bool
  cache :: "stationinfo_cache list"
  log_flags :: "nat \<times> nat"
  now :: int
  questions :: nat

definition on_service :: "(service \<Rightarrow> service) \<Rightarrow> appstate \<Rightarrow> appstate" where
  "on_service f app = app\<lparr>service := f (service app)\<rparr>"

definition on_users :: "(users_state \<Rightarrow> users_state) \<Rightarrow> appstate \<Rightarrow> appstate" where
  "on_users f app = app\<lparr>users := f (users app)\<rparr>"

definition on_settings :: "(settings \<Rightarrow> settings) \<Rightarrow> appstate \<Rightarrow> appstate" where
  "on_settings f app = app\<lparr>settings := f (settings app)\<rparr>"

definition on_stations :: "(station list \<Rightarrow> station list) \<Rightarrow> appstate \<Rightarrow> appstate" where
  "on_stations f app = app\<lparr>ph := (ph app)\<lparr>stations := f (stations (ph app))\<rparr>\<rparr>"

text \<open>The user of the connection an event came from, as a pointer and as the record behind it.\<close>

definition event_user_ref :: "nat \<Rightarrow> appstate \<Rightarrow> user_ref option" where
  "event_user_ref event app = Option.bind (find_connection (service app) event) conn_user"

definition event_user :: "nat \<Rightarrow> appstate \<Rightarrow> user option" where
  "event_user event app = Option.bind (event_user_ref event app) (deref_user (users app))"

text \<open>The station \<open>app->selected_station\<close> points to.\<close>

definition selected :: "appstate \<Rightarrow> station option" where
  "selected app = Option.bind (selected_station app) (PianoFindStationById (stations (ph app)))"

section \<open>A state to evaluate the definitions on\<close>

definition demo_settings :: settings where
  "demo_settings = \<lparr>rpcHost = Some ''tuner.pandora.com'', rpcTlsPort = None, partnerUser = Some ''android'',
    partnerPassword = Some ''pw'', device = Some ''android-generic'', inkey = Some ''in'', outkey = Some ''out'',
    volume = 0, pandora_retry = 60, pandora = no_credentials, pending = no_credentials, control_proxy = None,
    proxy = None, capture_path = None, capture_pathlen = 0, shoutcast_server = None, tlsFingerprint = [],
    audioQuality = PIANO_AQ_MEDIUM, history_length = 5, port = 4445, http_port = 4446, https_port = 4447,
    broadcast_user_actions = True, pause_timeout = 1800, playlist_expiration = 3600, user_file = ''passwd'',
    automatic_mode = TUNE_ON_LOGINS, output_driver = None, output_device = None, output_id = None,
    output_server = None\<rparr>"

definition demo_handle :: piano_handle where
  "demo_handle = \<lparr>listenerId = Some ''7'', authToken = Some ''t'',
    stations = [no_station\<lparr>st_name := ''Jazz'', st_id := ''1''\<rparr>, no_station\<lparr>st_name := ''Rock'', st_id := ''2''\<rparr>],
    genreStations = [],
    ph_partner = \<lparr>partner_authToken = Some ''p'', partner_device = ''d'', partner_user = ''u'',
      partner_password = ''pw'', partner_id = 42\<rparr>,
    timeOffset = 0\<rparr>"

definition demo_app :: appstate where
  "demo_app = \<lparr>ph = demo_handle, waith_host = None, waith_tlsPort = None, waith_fingerprint = [],
    waith_proxy = no_url, player = no_player, settings = demo_settings, playlist = [], playlist_retrieved = 0,
    current_song = None, song_history = [], selected_station = None, playback_state = PAUSED,
    automatic_stations = False, paused_since = 0, stall = no_stall, player_soft_errors = 0, shoutcast = False,
    service_running = True, service = demo_service, users = demo_users1, retry_login_time = 0,
    update_station_list_time = 0, pianoparam_change_pending = False, quit_requested = False,
    quit_initiated = False, broadcast_status = False, skip_history = [], computation_had_results = False,
    computation_has_listeners = False, cache = [], log_flags = (0, 0), now = 1000, questions = 0\<rparr>"

definition demo_result :: pandora_result where
  "demo_result = \<lparr>syncTime = Some 1000, partnerAuthToken = ''p'', partnerId = 42, userId = ''7'', userAuthToken = ''t'',
    res_stations = [], res_items = [],
    res_station = \<lparr>stationName = ''Blues'', stationToken = ''2'', isShared = False, so_isQuickMix = False,
      quickMixStationIds = None\<rparr>,
    res_artists = [], res_songs = [], res_categories = [], res_explanations = None, res_seed_songs = [],
    res_seed_artists = [], res_feedback = []\<rparr>"

definition demo_world :: world where
  "demo_world = \<lparr>w_crypt_ok = (\<lambda>_. True), w_http = (\<lambda>_ _. WAITRESS_RET_OK), w_reply = (\<lambda>_ _. ReplyOk demo_result),
    w_elapsed = (\<lambda>_. 1), w_crypt = demo_crypt, w_random = (\<lambda>n. (n, n)), w_pow = (\<lambda>x y. 1),
    w_piano_init = (\<lambda>_. PIANO_RET_OK), w_ao_driver = (\<lambda>_. True), w_isdir = (\<lambda>_. True),
    w_shoutcast = (\<lambda>_ _. False), w_test_tone = (\<lambda>_. None),
    w_strerror = (\<lambda>_. ''Success'')\<rparr>"

theorem PianoResponse_distinct_ids_witness:
  "\<exists>ph'. PianoResponse 5 (ReplyOk demo_result) demo_handle (CreateStation ''x'' PIANO_MUSICTYPE_SONG) =
      Some (PIANO_RET_OK, ph', CreateStation ''x'' PIANO_MUSICTYPE_SONG) \<and> distinct_ids ph'"
proof -
  have "PianoResponse 5 (ReplyOk demo_result) demo_handle (CreateStation ''x'' PIANO_MUSICTYPE_SONG) =
      Some (PIANO_RET_OK, create_station_response demo_result demo_handle, CreateStation ''x'' PIANO_MUSICTYPE_SONG)"
    by (simp add: PianoResponse_def)
  moreover have "distinct_ids demo_handle"
    by (simp add: distinct_ids_def demo_handle_def)
  ultimately show ?thesis using PianoResponse_distinct_ids by blast
qed

end
