(* ===== verification/Support.thy ===== *)
theory Support
  imports AppState
begin

text \<open>
  \<open>src/src/support.c\<close>: calls to Pandora with their retries, the play history, the playlist, the station
  list, and the skip quota.

  An operation that may talk to Pandora returns an option; \<open>None\<close> means that the process does not come back from
  it in a defined state: an assertion fails, a NULL pointer is read, or the server keeps
  rejecting the token right after each successful login (\<open>bar_ui_piano_call\<close> is a \<open>partial_function\<close>,
  so an endless repetition is \<open>None\<close>).
\<close>

section \<open>Talking to Pandora\<close>

record call_result =
  call_ok :: bool
  pRet :: int
  wRet :: "int option"

datatype exchange_outcome = Finished call_result | TryAgain | Reauthenticate

fun is_login :: "piano_request \<Rightarrow> bool" where
  "is_login (Login _ _ _) = True"
| "is_login _ = False"

definition say :: "dest \<Rightarrow> int \<Rightarrow> string \<Rightarrow> appstate \<Rightarrow> appstate" where
  "say d code message = on_service (send_response_code d code message)"

text \<open>One round of the loop: build the request, send it, take in the answer.\<close>

definition piano_exchange :: "world \<Rightarrow> appstate \<Rightarrow> piano_request \<Rightarrow>
    (exchange_outcome \<times> appstate \<times> piano_request) option" where
  "piano_exchange w app req = do {
    let n = questions app;
    (ret, post) \<leftarrow> PianoRequest (now app) (w_crypt_ok w n) (ph app) req;
    if ret \<noteq> PIANO_RET_OK then
      Some (Finished \<lparr>call_ok = False, pRet = ret, wRet = None\<rparr>,
        say Everyone E_FAILURE (PianoErrorToStr ret) app, req)
    else do {
      let app = app\<lparr>questions := n + 1, now := now app + int (w_elapsed w n)\<rparr>;
      let wret = w_http w n post;
      if wret \<noteq> WAITRESS_RET_OK then
        Some (Finished \<lparr>call_ok = False, pRet = ret, wRet = Some wret\<rparr>,
          say Everyone E_NETWORK_FAILURE (WaitressErrorToStr wret) app, req)
      else do {
        (ret, ph', req) \<leftarrow> PianoResponse (now app) (w_reply w n post) (ph app) req;
        let app = app\<lparr>ph := ph'\<rparr>;
        if ret = PIANO_RET_CONTINUE_REQUEST then Some (TryAgain, app, req)
        else if ret = PIANO_RET_P_INVALID_AUTH_TOKEN \<and> \<not> is_login req then Some (Reauthenticate, app, req)
        else if ret \<noteq> PIANO_RET_OK then
          Some (Finished \<lparr>call_ok = False, pRet = ret, wRet = Some wret\<rparr>,
            on_service (send_data Everyone E_AUTHENTICATION (Some (PianoErrorToStr ret))) app, req)
        else Some (Finished \<lparr>call_ok = True, pRet = ret, wRet = Some wret\<rparr>, app, req)
      }
    }
  }"

partial_function (option) bar_ui_piano_call :: "world \<Rightarrow> appstate \<Rightarrow> piano_request \<Rightarrow>
    (call_result \<times> appstate \<times> piano_request) option" where
  "bar_ui_piano_call w app req =
    Option.bind (piano_exchange w app req) (\<lambda>(o1, app, req). case o1 of
        Finished r \<Rightarrow> Some (r, app, req)
      | TryAgain \<Rightarrow> bar_ui_piano_call w app req
      | Reauthenticate \<Rightarrow>
          Option.bind (cred_username (pandora (settings app))) (\<lambda>u.
          Option.bind (cred_password (pandora (settings app))) (\<lambda>p.
          Option.bind (bar_ui_piano_call w app (Login u p 0)) (\<lambda>(r, app, _).
            if \<not> call_ok r then Some (r, app, req) else bar_ui_piano_call w app req))))"

text \<open>
  The reports of piano_transaction.  When the request could not even be built, wRet has no value; it is not
  looked at, as pRet is checked first.
\<close>

definition call_report :: "nat option \<Rightarrow> call_result \<Rightarrow> appstate \<Rightarrow> appstate" where
  "call_report event r app = (case event of
      None \<Rightarrow> app
    | Some e \<Rightarrow>
        if pRet r \<noteq> PIANO_RET_OK then on_service (data_reply e E_NAK (PianoErrorToStr (pRet r))) app
        else if wRet r \<noteq> Some WAITRESS_RET_OK then
          on_service (data_reply e E_NAK (WaitressErrorToStr (the (wRet r)))) app
        else on_service (reply e S_OK) app)"

definition piano_transaction :: "world \<Rightarrow> nat option \<Rightarrow> piano_request \<Rightarrow> appstate \<Rightarrow>
    (bool \<times> appstate \<times> piano_request) option" where
  "piano_transaction w event req app = do {
    (r, app, req) \<leftarrow> bar_ui_piano_call w app req;
    Some (call_ok r, call_report event r app, req)
  }"

section \<open>History and playlist\<close>

text \<open>The walk to the last song that stays, and the cut behind it; \<open>i\<close> counts from 1.\<close>

fun trim_history :: "nat \<Rightarrow> nat \<Rightarrow> song list \<Rightarrow> song list" where
  "trim_history i limit [] = []"
| "trim_history i limit (s # rest) = s # (if i < limit then trim_history (i + 1) limit rest else [])"

definition prepend_history :: "song \<Rightarrow> appstate \<Rightarrow> appstate" where
  "prepend_history song app =
    (if history_length (settings app) \<noteq> 0
     then app\<lparr>song_history := trim_history 1 (history_length (settings app))
       (PianoListPrepend (song_history app) song)\<rparr>
     else app)"

text \<open>\<open>sel\<close> is the selected station, \<open>None\<close> when there is none.\<close>

fun purge_loop :: "station option \<Rightarrow> station list \<Rightarrow> song list \<Rightarrow> song list option" where
  "purge_loop sel sts [] = Some []"
| "purge_loop sel sts (song # rest) = (case sel of
      None \<Rightarrow> purge_loop sel sts rest
    | Some s \<Rightarrow> do {
        sid \<leftarrow> stationId song;
        if isQuickMix s then (case PianoFindStationById sts sid of
            None \<Rightarrow> purge_loop sel sts rest
          | Some t \<Rightarrow> if isQuickMix t then None
              else if useQuickMix t then Some (song # rest) else purge_loop sel sts rest)
        else if strcmp sid (st_id s) = 0 then Some (song # rest)
        else purge_loop sel sts rest
      })"

definition purge_unselected_songs :: "appstate \<Rightarrow> appstate option" where
  "purge_unselected_songs app = do {
    sel \<leftarrow> (if selected_station app = None then Some None
      else if playlist app = [] then Some None
      else map_option Some (selected app));
    rest \<leftarrow> purge_loop sel (stations (ph app)) (playlist app);
    Some (app\<lparr>playlist := rest,
      update_station_list_time := (if playlist app \<noteq> [] \<and> rest = [] then 0 else update_station_list_time app)\<rparr>)
  }"

section \<open>The station list\<close>

text \<open>The three flags: quick mix changed, a station added, a station removed.\<close>

definition station_changes :: "station list \<Rightarrow> station list \<Rightarrow> bool \<times> bool \<times> bool" where
  "station_changes old_stations new_stations = (
    let removed = fold (\<lambda>past (q, r). case PianoFindStationById new_stations (st_id past) of
            Some present \<Rightarrow> (q \<or> useQuickMix present \<noteq> useQuickMix past, r)
          | None \<Rightarrow> (q \<or> useQuickMix past, True)) old_stations (False, False);
        added = fold (\<lambda>present (q, a). case PianoFindStationById old_stations (st_id present) of
            Some past \<Rightarrow> (q \<or> useQuickMix present \<noteq> useQuickMix past, a)
          | None \<Rightarrow> (q \<or> useQuickMix present, True)) new_stations (fst removed, False)
    in (fst added, snd added, snd removed))"

definition check_for_station_changes :: "station list \<Rightarrow> station list \<Rightarrow> appstate \<Rightarrow> appstate" where
  "check_for_station_changes old_stations new_stations app = (
    let (mix, added, removed) = station_changes old_stations new_stations;
        app = (if added \<or> removed then on_service (send_response Everyone I_STATIONS_CHANGED) app else app)
    in if mix then on_service (send_response Everyone I_MIX_CHANGED) app else app)"

definition send_selectedstation :: "dest \<Rightarrow> appstate \<Rightarrow> appstate option" where
  "send_selectedstation there app = (case selected_station app of
      None \<Rightarrow> Some (on_service (send_response there I_SELECTEDSTATION_NONE) app)
    | Some _ \<Rightarrow> do {
        s \<leftarrow> selected app;
        Some (on_service (emit there I_SELECTEDSTATION (Response I_SELECTEDSTATION @ '': ''
          @ (if isQuickMix s then (if automatic_stations app then ''auto'' else ''mix'') else ''station'')
          @ '' '' @ st_name s)) app)
      })"

text \<open>A selected station that is no longer listed is deselected.\<close>

definition settle_selection :: "appstate \<Rightarrow> appstate option" where
  "settle_selection app = (case selected_station app of
      None \<Rightarrow> Some app
    | Some sid \<Rightarrow> (case PianoFindStationById (stations (ph app)) sid of
        Some _ \<Rightarrow> Some app
      | None \<Rightarrow> send_selectedstation Everyone
          (say Everyone E_RESOURCE ''Selected station has been deleted.'' (app\<lparr>selected_station := None\<rparr>))))"

definition update_station_list :: "world \<Rightarrow> appstate \<Rightarrow> (bool \<times> appstate) option" where
  "update_station_list w app =
    (if update_station_list_time app \<ge> now app then Some (stations (ph app) \<noteq> [], app)
     else do {
       let oldStations = stations (ph app);
       (ret, app, _) \<leftarrow> piano_transaction w None GetStations (on_stations (\<lambda>_. []) app);
       app \<leftarrow> (if ret then settle_selection (check_for_station_changes oldStations (stations (ph app)) app)
         else Some (on_stations (\<lambda>_. oldStations) app));
       Some (ret, app\<lparr>update_station_list_time := now app + (if stations (ph app) \<noteq> [] then 300 else 60)\<rparr>)
     })"

section \<open>Credentials\<close>

definition to_event :: "nat option \<Rightarrow> (nat \<Rightarrow> service \<Rightarrow> service) \<Rightarrow> appstate \<Rightarrow> appstate" where
  "to_event event f app = (case event of None \<Rightarrow> app | Some e \<Rightarrow> on_service (f e) app)"

definition announce_all_privileges :: "appstate \<Rightarrow> appstate" where
  "announce_all_privileges app = on_service (announce_privileges None (users app)) app"

text \<open>
  The end of set_pandora_user, once the pending credentials are known to work.
\<close>

definition install_pandora_user :: "world \<Rightarrow> bool \<Rightarrow> appstate \<Rightarrow> appstate option" where
  "install_pandora_user w changed app = do {
    let creds = pending (settings app);
    let app = on_settings (\<lambda>s. s\<lparr>pandora := creds, pending := no_credentials\<rparr>) app;
    us \<leftarrow> set_ownership_rule (cred_rule creds) (cred_manager creds) (users app);
    us \<leftarrow> save_pandora_credentials creds us;
    let app = app\<lparr>users := us\<rparr>;
    let app = (if changed then say Everyone I_SERVER_STATUS ''Pandora credentials changed.'' app else app);
    let app = announce_all_privileges app;
    (_, app) \<leftarrow> update_station_list w (app\<lparr>update_station_list_time := 0\<rparr>);
    let app = (if selected_station app = None then app\<lparr>automatic_stations := False\<rparr> else app);
    Some (on_service (event_occurred EVENT_AUTHENTICATED S_OK) app)
  }"

text \<open>
  \<open>event\<close> is the connection to answer to, \<open>None\<close> for a periodic retry.  After a login whose request
  could not be built, the code tests wRet, which then has no value: that is not defined behaviour.
\<close>

definition set_pandora_user :: "world \<Rightarrow> nat option \<Rightarrow> appstate \<Rightarrow> appstate option" where
  "set_pandora_user w event app = do {
    u \<leftarrow> cred_username (pending (settings app));
    p \<leftarrow> cred_password (pending (settings app));
    let app = app\<lparr>retry_login_time := 0\<rparr>;
    let changed = (cred_username (pandora (settings app)) \<noteq> Some u \<or> cred_password (pandora (settings app)) \<noteq> Some p);
    if \<not> changed then install_pandora_user w changed (to_event event (\<lambda>e. reply e S_OK) app)
    else do {
      (r, app, _) \<leftarrow> bar_ui_piano_call w (on_service (send_status Everyone ''Logging in to server'') app) (Login u p 0);
      if call_ok r then install_pandora_user w changed (to_event event (\<lambda>e. reply e S_OK) app)
      else do {
        wret \<leftarrow> wRet r;
        if wret \<noteq> WAITRESS_RET_OK then
          Some ((to_event event (\<lambda>e. data_reply e E_REQUESTPENDING (WaitressErrorToStr wret)) app)
            \<lparr>retry_login_time := now app + pandora_retry (settings app)\<rparr>)
        else if pRet r = PIANO_RET_INVALID_LOGIN then do {
          let app = on_settings (pending_update (\<lambda>_. no_credentials)) app;
          let app = (case event of
              Some e \<Rightarrow> on_service (data_reply e E_CREDENTIALS (PianoErrorToStr (pRet r))) app
            | None \<Rightarrow> say Everyone E_AUTHENTICATION (PianoErrorToStr (pRet r)) app);
          Some (on_service (event_occurred EVENT_AUTHENTICATED E_CREDENTIALS) app)
        }
        else
          Some ((to_event event (\<lambda>e. data_reply e E_REQUESTPENDING (PianoErrorToStr (pRet r))) app)
            \<lparr>retry_login_time := now app + pandora_retry (settings app)\<rparr>)
      }
    }
  }"

section \<open>Arguments of commands\<close>

fun validate_station_loop :: "station list \<Rightarrow> nat \<Rightarrow> string list \<Rightarrow> bool \<Rightarrow> service \<Rightarrow> bool \<times> service" where
  "validate_station_loop sts event [] response sv = (response, sv)"
| "validate_station_loop sts event (n # ns) response sv = (case PianoFindStationByName sts n of
      Some s \<Rightarrow>
        if isQuickMix s
        then validate_station_loop sts event ns False (send_data (To event) I_STATION_INVALID (Some (st_name s)) sv)
        else validate_station_loop sts event ns response sv
    | None \<Rightarrow> validate_station_loop sts event ns False (send_data (To event) I_NOTFOUND (Some n) sv))"

definition validate_station_list :: "nat \<Rightarrow> string list \<Rightarrow> appstate \<Rightarrow> bool \<times> appstate" where
  "validate_station_list event names app = (
    let (ok, sv) = validate_station_loop (stations (ph app)) event names True (service app)
    in (ok, app\<lparr>service := sv\<rparr>))"

text \<open>A \<open>PianoSong_t *\<close> of the player's own songs: an element of the history or the playlist, or the current song.\<close>

datatype song_ref = InHistory nat | InPlaylist nat | CurrentSong

fun deref_song :: "appstate \<Rightarrow> song_ref \<Rightarrow> song option" where
  "deref_song app (InHistory i) = PianoListGet (song_history app) i"
| "deref_song app (InPlaylist i) = PianoListGet (playlist app) i"
| "deref_song app CurrentSong = current_song app"

fun update_song :: "song_ref \<Rightarrow> (song \<Rightarrow> song) \<Rightarrow> appstate \<Rightarrow> appstate" where
  "update_song (InHistory i) f app = app\<lparr>song_history := (song_history app)[i := f (song_history app ! i)]\<rparr>"
| "update_song (InPlaylist i) f app = app\<lparr>playlist := (playlist app)[i := f (playlist app ! i)]\<rparr>"
| "update_song CurrentSong f app = app\<lparr>current_song := map_option f (current_song app)\<rparr>"

definition get_song_by_id_or_current :: "nat \<Rightarrow> string option \<Rightarrow> appstate \<Rightarrow> song_ref option \<times> appstate" where
  "get_song_by_id_or_current event songid app = (case songid of
      Some i \<Rightarrow> (case PianoFindSongById (song_history app) i of
          Some (n, _) \<Rightarrow> (Some (InHistory n), app)
        | None \<Rightarrow> (case PianoFindSongById (playlist app) i of
            Some (n, _) \<Rightarrow> (Some (InPlaylist n), app)
          | None \<Rightarrow> (case PianoFindSongById (case current_song app of None \<Rightarrow> [] | Some s \<Rightarrow> [s]) i of
              Some _ \<Rightarrow> (Some CurrentSong, app)
            | None \<Rightarrow> (None, on_service (reply event E_NOTFOUND) app))))
    | None \<Rightarrow>
        if current_song app = None then (None, on_service (reply event E_WRONG_STATE) app)
        else (Some CurrentSong, app))"

definition get_station_by_name_or_current :: "nat \<Rightarrow> string option \<Rightarrow> appstate \<Rightarrow>
    (station option \<times> appstate) option" where
  "get_station_by_name_or_current event stationname app = (case stationname of
      Some n \<Rightarrow> (case PianoFindStationByName (stations (ph app)) n of
          Some s \<Rightarrow> Some (Some s, app)
        | None \<Rightarrow> Some (None, on_service (reply event E_NOTFOUND) app))
    | None \<Rightarrow> (case (selected_station app, current_song app) of
          (Some _, Some song) \<Rightarrow> do {
            s \<leftarrow> selected app;
            sid \<leftarrow> stationId song;
            if strcmp sid (st_id s) = 0 then Some (Some s, app)
            else Some (None, on_service (data_reply event E_CONFLICT ''Selected station is not playing station.'') app)
          }
        | _ \<Rightarrow> Some (None, on_service (reply event E_WRONG_STATE) app)))"

definition pwn_station :: "world \<Rightarrow> nat \<Rightarrow> string \<Rightarrow> appstate \<Rightarrow> (bool \<times> appstate) option" where
  "pwn_station w event sid app = (case PianoFindStationById (stations (ph app)) sid of
      None \<Rightarrow> Some (False, on_service (data_reply event I_NOTFOUND ''Station not found'') app)
    | Some s \<Rightarrow>
        if isCreator s then Some (True, app)
        else do {
          (ok, app, _) \<leftarrow> piano_transaction w None (TransformStation (st_id s)) app;
          if ok then Some (True, on_service (send_status (To event) ''Station has been personalized'') app)
          else Some (False, on_service (reply event E_TRANSFORM_FAILED) app)
        })"

section \<open>The skip quota\<close>

definition MAX_SKIPS :: nat where
  "MAX_SKIPS = 6"

definition SKIP_PERIOD :: int where
  "SKIP_PERIOD = 3600"

text \<open>
  The scan over the past skips, most recent first: what stays of the list, the skips of this station, and the time of the
  earliest one.
\<close>

fun skip_scan :: "int \<Rightarrow> string \<Rightarrow> skip_record list \<Rightarrow> nat \<Rightarrow> int \<Rightarrow> skip_record list \<times> nat \<times> int" where
  "skip_scan valid_since st [] count first = ([], count, first)"
| "skip_scan valid_since st (skip # rest) count first =
    (if skip_when skip \<le> valid_since then ([], count, first)
     else
       let (count, first) = (if strcmp (skip_station skip) st = 0 then (count + 1, skip_when skip) else (count, first));
           (kept, count, first) = skip_scan valid_since st rest count first
       in (skip # kept, count, first))"

definition skips_are_available :: "nat \<Rightarrow> string \<Rightarrow> appstate \<Rightarrow> bool \<times> appstate" where
  "skips_are_available event st app = (
    let t = now app;
        (kept, count, first) = skip_scan (t - SKIP_PERIOD) st (skip_history app) 0 t;
        available = (count < MAX_SKIPS);
        kept = (if available then \<lparr>skip_station = st, skip_when = t\<rparr> # kept else kept);
        count = (if available then count + 1 else count);
        app = app\<lparr>skip_history := kept\<rparr>
    in (available, on_service (emit (To event) I_INFO (''Skip information: '' @ show_nat count @ ''/''
        @ show_nat MAX_SKIPS @ '' used, first expires in '' @ show_int (SKIP_PERIOD - (t - first)) @ '' seconds'')) app))"

definition cancel_playback :: "appstate \<Rightarrow> appstate" where
  "cancel_playback app = (
    let app = (if mode (player app) \<ge> PLAYER_STARTING \<and> mode (player app) < PLAYER_FINISHED_PLAYBACK
        then app\<lparr>player := (player app)\<lparr>doQuit := True\<rparr>\<rparr> else app)
    in app\<lparr>paused_since := 0\<rparr>)"

section \<open>The history is the last songs played\<close>

lemma trim_history_take: "\<lbrakk>0 < i; i \<le> limit\<rbrakk> \<Longrightarrow> trim_history i limit l = take (limit - i + 1) l"
  by (induction i limit l rule: trim_history.induct) (auto simp: take_Cons' Suc_diff_Suc)

lemma prepend_history_songs:
  "song_history (prepend_history song app) =
    (if history_length (settings app) = 0 then song_history app
     else take (history_length (settings app)) (song # song_history app))"
  by (cases "history_length (settings app)")
    (auto simp: prepend_history_def PianoListPrepend_def trim_history_take)

text \<open>
  The history holds exactly the songs played last: for a history_length that is not 0, prepending a song leaves the
  first history_length songs of the list with the new song in front (with 0 the history is left alone), so the
  length never exceeds the setting.
\<close>
theorem prepend_history_take:
  "song_history (prepend_history song app) =
    (if history_length (settings app) = 0 then song_history app
     else take (history_length (settings app)) (song # song_history app))"
  by (rule prepend_history_songs)

section \<open>Skips\<close>

definition newest_first :: "skip_record list \<Rightarrow> bool" where
  "newest_first l \<longleftrightarrow> sorted_wrt (\<lambda>a b. skip_when b \<le> skip_when a) l"

definition recent_skips :: "int \<Rightarrow> string \<Rightarrow> skip_record list \<Rightarrow> skip_record list" where
  "recent_skips since st l = filter (\<lambda>s. since < skip_when s \<and> skip_station s = st) l"

lemma skip_scan_spec:
  assumes "newest_first l"
  shows "fst (skip_scan v st l c f) = filter (\<lambda>s. v < skip_when s) l
    \<and> fst (snd (skip_scan v st l c f)) = c + length (recent_skips v st l)"
  using assms
proof (induction l arbitrary: c f)
  case (Cons a l)
  have l: "newest_first l" using Cons.prems by (simp add: newest_first_def)
  show ?case
  proof (cases "skip_when a \<le> v")
    case True
    then have "\<forall>s \<in> set l. skip_when s \<le> v"
      using Cons.prems by (auto simp: newest_first_def)
    then show ?thesis using True by (auto simp: recent_skips_def filter_empty_conv intro!: sym [OF filter_False])
  next
    case False
    then show ?thesis
      using Cons.IH [OF l] by (simp add: recent_skips_def strcmp_eq_0 Let_def split_beta)
  qed
qed (simp add: recent_skips_def)

text \<open>A sequence of skip requests, each for a station at a time; the result lists the granted ones in order.\<close>

fun run_skips :: "nat \<Rightarrow> (string \<times> int) list \<Rightarrow> appstate \<Rightarrow> skip_record list \<times> appstate" where
  "run_skips event [] app = ([], app)"
| "run_skips event ((st, t) # rest) app = (
    let (ok, app) = skips_are_available event st (app\<lparr>now := t\<rparr>);
        (granted, app) = run_skips event rest app
    in ((if ok then [\<lparr>skip_station = st, skip_when = t\<rparr>] else []) @ granted, app))"

definition skips_within :: "string \<Rightarrow> int \<Rightarrow> skip_record list \<Rightarrow> nat" where
  "skips_within st t l =
    length (filter (\<lambda>s. skip_station s = st \<and> t - SKIP_PERIOD < skip_when s \<and> skip_when s \<le> t) l)"

definition quota_kept :: "skip_record list \<Rightarrow> bool" where
  "quota_kept l \<longleftrightarrow> (\<forall>st t. skips_within st t l \<le> MAX_SKIPS)"

lemma length_filter_mono: "(\<And>x. x \<in> set l \<Longrightarrow> P x \<Longrightarrow> Q x) \<Longrightarrow> length (filter P l) \<le> length (filter Q l)"
  by (induction l) (auto intro: le_SucI)

lemma quota_kept_Cons:
  assumes "quota_kept G" and "\<forall>s \<in> set G. skip_when s \<le> t"
    and "length (recent_skips (t - SKIP_PERIOD) st G) < MAX_SKIPS"
  shows "quota_kept (\<lparr>skip_station = st, skip_when = t\<rparr> # G)"
  unfolding quota_kept_def
proof (intro allI)
  fix st' t'
  show "skips_within st' t' (\<lparr>skip_station = st, skip_when = t\<rparr> # G) \<le> MAX_SKIPS"
  proof (cases "st' = st \<and> t \<le> t'")
    case True
    then have "skips_within st' t' G \<le> length (recent_skips (t - SKIP_PERIOD) st G)"
      unfolding skips_within_def recent_skips_def by (intro length_filter_mono) auto
    then show ?thesis using assms(3) by (simp add: skips_within_def)
  next
    case False
    then show ?thesis using assms(1) by (auto simp: quota_kept_def skips_within_def)
  qed
qed

lemma skips_are_available_spec:
  assumes "newest_first (skip_history app)" and "skips_are_available event st app = (ok, app')"
  shows "ok = (length (recent_skips (now app - SKIP_PERIOD) st (skip_history app)) < MAX_SKIPS)"
    and "skip_history app' = (if ok then [\<lparr>skip_station = st, skip_when = now app\<rparr>] else [])
      @ filter (\<lambda>s. now app - SKIP_PERIOD < skip_when s) (skip_history app)"
proof -
  obtain kept count f where scan:
    "skip_scan (now app - SKIP_PERIOD) st (skip_history app) 0 (now app) = (kept, count, f)"
    by (metis prod_cases3)
  then have "kept = filter (\<lambda>s. now app - SKIP_PERIOD < skip_when s) (skip_history app)"
    "count = length (recent_skips (now app - SKIP_PERIOD) st (skip_history app))"
    using skip_scan_spec [OF assms(1), of "now app - SKIP_PERIOD" st 0 "now app"] by simp_all
  moreover have "ok = (count < MAX_SKIPS)"
    "skip_history app' = (if ok then [\<lparr>skip_station = st, skip_when = now app\<rparr>] else []) @ kept"
    using assms(2) scan by (auto simp: skips_are_available_def on_service_def Let_def)
  ultimately show "ok = (length (recent_skips (now app - SKIP_PERIOD) st (skip_history app)) < MAX_SKIPS)"
    "skip_history app' = (if ok then [\<lparr>skip_station = st, skip_when = now app\<rparr>] else [])
      @ filter (\<lambda>s. now app - SKIP_PERIOD < skip_when s) (skip_history app)"
    by simp_all
qed

lemma run_skips_quota:
  assumes "sorted (t0 # map snd reqs)" and "newest_first G" and "\<forall>s \<in> set G. skip_when s \<le> t0"
    and "skip_history app = filter (\<lambda>s. t0 - SKIP_PERIOD < skip_when s) G" and "quota_kept G"
  shows "quota_kept (rev (fst (run_skips event reqs app)) @ G)"
  using assms
proof (induction reqs arbitrary: t0 G app)
  case Nil
  then show ?case by simp
next
  case (Cons r reqs)
  obtain st t where r: "r = (st, t)" by (cases r)
  obtain ok app' where step: "skips_are_available event st (app\<lparr>now := t\<rparr>) = (ok, app')"
    by (cases "skips_are_available event st (app\<lparr>now := t\<rparr>)")
  have t: "t0 \<le> t" "sorted (t # map snd reqs)" using Cons.prems(1) r by auto
  have newest: "newest_first (skip_history (app\<lparr>now := t\<rparr>))"
    using Cons.prems(2,4) by (simp add: newest_first_def sorted_wrt_filter)
  have window: "filter (\<lambda>s. t - SKIP_PERIOD < skip_when s) (skip_history app) =
      filter (\<lambda>s. t - SKIP_PERIOD < skip_when s) G"
    using t(1) Cons.prems(4) by (auto simp: intro!: filter_cong)
  have recent: "recent_skips (t - SKIP_PERIOD) st (skip_history app) = recent_skips (t - SKIP_PERIOD) st G"
    using t(1) Cons.prems(4) by (auto simp: recent_skips_def intro!: filter_cong)
  let ?new = "if ok then [\<lparr>skip_station = st, skip_when = t\<rparr>] else []"
  have ok: "ok = (length (recent_skips (t - SKIP_PERIOD) st G) < MAX_SKIPS)"
    and hist: "skip_history app' = ?new @ filter (\<lambda>s. t - SKIP_PERIOD < skip_when s) G"
    using skips_are_available_spec [OF newest step] recent window by simp_all
  have old: "\<forall>s \<in> set G. skip_when s \<le> t"
    using Cons.prems(3) t(1) by auto
  have "quota_kept (?new @ G)"
    using quota_kept_Cons [OF Cons.prems(5) old] Cons.prems(5) ok by simp
  moreover have "newest_first (?new @ G)" "\<forall>s \<in> set (?new @ G). skip_when s \<le> t"
    using Cons.prems(2,3) t(1) by (auto simp: newest_first_def)
  moreover have "skip_history app' = filter (\<lambda>s. t - SKIP_PERIOD < skip_when s) (?new @ G)"
    using hist by (simp add: SKIP_PERIOD_def)
  ultimately have "quota_kept (rev (fst (run_skips event reqs app')) @ ?new @ G)"
    using Cons.IH [OF t(2)] by blast
  then show ?case using r step by (auto simp: split_beta)
qed

text \<open>
  C13: Nobody gets around the skip quota: over any sequence of skip requests made while the clock does not run backwards, starting
  with no skips on record, each station is granted at most MAX_SKIPS (6) skips in any period of
  SKIP_PERIOD (3600) seconds.
\<close>
theorem skip_quota_kept:
  assumes "sorted (map snd reqs)" and "skip_history app = []"
  shows "skips_within st t (fst (run_skips event reqs app)) \<le> MAX_SKIPS"
proof -
  have "quota_kept (rev (fst (run_skips event reqs app)) @ [])"
  proof (rule run_skips_quota [of "case reqs of [] \<Rightarrow> 0 | r # _ \<Rightarrow> snd r" reqs "[]" app event])
    show "sorted ((case reqs of [] \<Rightarrow> 0 | r # _ \<Rightarrow> snd r) # map snd reqs)"
      using assms(1) by (cases reqs) auto
  qed (use assms(2) in \<open>auto simp: newest_first_def quota_kept_def skips_within_def\<close>)
  then have "skips_within st t (rev (fst (run_skips event reqs app))) \<le> MAX_SKIPS"
    by (simp add: quota_kept_def)
  then show ?thesis by (simp add: skips_within_def rev_filter [symmetric])
qed

theorem skip_quota_kept_witness:
  "skips_within ''1'' 3000 (fst (run_skips 4 [(''1'', 10), (''1'', 20), (''2'', 20), (''1'', 30), (''1'', 40), (''1'', 50),
      (''1'', 60), (''1'', 70)] demo_app)) \<le> MAX_SKIPS"
  by (rule skip_quota_kept) (simp_all add: demo_app_def)

section \<open>What a call to Pandora leaves alone\<close>

text \<open>A call changes the Pandora handle, the lines sent, the clock and the question counter.\<close>

definition calls_only :: "appstate \<Rightarrow> appstate \<Rightarrow> bool" where
  "calls_only app app' \<longleftrightarrow>
    app' = app\<lparr>ph := ph app', service := service app', now := now app', questions := questions app'\<rparr>
    \<and> conns (service app') = conns (service app) \<and> now app \<le> now app'"

lemma calls_only_refl [simp]: "calls_only app app"
  by (simp add: calls_only_def)

lemma calls_only_trans: "\<lbrakk>calls_only a b; calls_only b c\<rbrakk> \<Longrightarrow> calls_only a c"
  unfolding calls_only_def by (cases a; cases b; cases c) auto

lemma piano_exchange_calls_only:
  "piano_exchange w app req = Some (oc, app', req') \<Longrightarrow> calls_only app app'"
  by (auto simp: piano_exchange_def calls_only_def say_def on_service_def bind_eq_Some_conv Let_def split: if_splits)

text \<open>
  What every exchange preserves, a whole call preserves: \<open>rel\<close> relates the state before and after, for the
  requests in \<open>ok\<close>, which the login has to be one of.
\<close>

locale pandora_frame =
  fixes ok :: "piano_request \<Rightarrow> bool"
    and rel :: "appstate \<Rightarrow> appstate \<Rightarrow> bool"
  assumes ok_login: "ok (Login u p 0)"
    and rel_trans: "\<lbrakk>rel a b; rel b c\<rbrakk> \<Longrightarrow> rel a c"
    and exchange: "\<lbrakk>piano_exchange w app req = Some (oc, app', req'); ok req\<rbrakk> \<Longrightarrow> rel app app' \<and> ok req'"
begin

lemma call_step:
  assumes IH: "\<And>w app req y. call w app req = Some y \<Longrightarrow> ok req \<longrightarrow> rel app (fst (snd y))"
    and step: "Option.bind (piano_exchange w app req) (\<lambda>(o1, app, req). case o1 of
        Finished r \<Rightarrow> Some (r, app, req)
      | TryAgain \<Rightarrow> call w app req
      | Reauthenticate \<Rightarrow>
          Option.bind (cred_username (pandora (settings app))) (\<lambda>u.
          Option.bind (cred_password (pandora (settings app))) (\<lambda>p.
          Option.bind (call w app (Login u p 0)) (\<lambda>(r, app, _).
            if \<not> call_ok r then Some (r, app, req) else call w app req)))) = Some y"
  shows "ok req \<longrightarrow> rel app (fst (snd y))"
proof
  assume ok: "ok req"
  obtain oc app1 req1 where x: "piano_exchange w app req = Some (oc, app1, req1)"
    using step by (auto simp: bind_eq_Some_conv)
  have 1: "rel app app1" and ok1: "ok req1" using exchange [OF x ok] by auto
  show "rel app (fst (snd y))"
  proof (cases oc)
    case (Finished r)
    then show ?thesis using step x 1 by auto
  next
    case TryAgain
    then have "call w app1 req1 = Some y" using step x by simp
    then show ?thesis using IH ok1 1 rel_trans by blast
  next
    case Reauthenticate
    then obtain u p r app2 req2 where login: "call w app1 (Login u p 0) = Some (r, app2, req2)"
      and rest: "(if \<not> call_ok r then Some (r, app2, req1) else call w app2 req1) = Some y"
      using step x by (auto simp: bind_eq_Some_conv)
    have 2: "rel app app2" using IH [OF login] ok_login rel_trans [OF 1] by simp
    show ?thesis
    proof (cases "call_ok r")
      case True
      then have "call w app2 req1 = Some y" using rest by simp
      then show ?thesis using IH ok1 2 rel_trans by blast
    qed (use rest 2 in auto)
  qed
qed

lemma call:
  assumes "bar_ui_piano_call w app req = Some (r, app', req')" and "ok req"
  shows "rel app app'"
proof -
  have "(\<lambda>w app req y. ok req \<longrightarrow> rel app (fst (snd y))) w app req (r, app', req')"
    by (rule bar_ui_piano_call.raw_induct [OF _ assms(1)], erule call_step [rotated]) (assumption, blast)?
  then show ?thesis using assms(2) by simp
qed

end

interpretation frame: pandora_frame "\<lambda>_. True" calls_only
  by unfold_locales (auto intro: calls_only_trans piano_exchange_calls_only)

lemma bar_ui_piano_call_calls_only:
  "bar_ui_piano_call w app req = Some (r, app', req') \<Longrightarrow> calls_only app app'"
  by (rule frame.call) simp_all

lemma call_report_frame:
  "call_report event r app = app\<lparr>service := service (call_report event r app)\<rparr>"
  by (auto simp: call_report_def on_service_def split: option.splits)

lemma piano_transaction_frame:
  assumes "piano_transaction w event req app = Some (ok, app', req')"
  obtains app1 r where "bar_ui_piano_call w app req = Some (r, app1, req')" and "calls_only app app1"
    and "ok = call_ok r" and "app' = call_report event r app1"
  using assms by (auto simp: piano_transaction_def bind_eq_Some_conv intro: that bar_ui_piano_call_calls_only)

section \<open>A login comes back\<close>

text \<open>
  The codes of the libpiano results below the range of server errors are 0 to 1023; a server error \<open>c\<close> becomes
  \<open>c + 1024\<close>.  The errors Pandora documents are not negative.
\<close>

definition sane_server :: "world \<Rightarrow> bool" where
  "sane_server w \<longleftrightarrow> (\<forall>n post c. w_reply w n post = ReplyFail (Some c) \<longrightarrow> 0 \<le> c)"

lemma sane_serverD: "\<lbrakk>sane_server w; w_reply w n post = ReplyFail (Some c)\<rbrakk> \<Longrightarrow> 0 \<le> c"
  by (auto simp: sane_server_def)

text \<open>\<open>questions\<close> counts the requests that are sent.\<close>

lemma say_questions [simp]: "questions (say there code text app) = questions app" "questions (on_service f app) = questions app"
  by (simp_all add: say_def on_service_def)

lemma login_step1_returns:
  assumes sane: "sane_server w" and token: "partner_authToken (ph_partner (ph app)) \<noteq> None"
  shows "\<exists>r app'. piano_exchange w app (Login u p 1) = Some (Finished r, app', Login u p 1) \<and> questions app' \<le> Suc (questions app)"
  using token
  by (auto simp: piano_exchange_def PianoRequest_def login_post_def PianoResponse_def
      login_response_def Let_def split: pandora_reply.splits option.splits dest!: sane_serverD [OF sane])

lemma login_step0:
  assumes sane: "sane_server w"
  shows "(\<exists>r app' q. piano_exchange w app (Login u p 0) = Some (Finished r, app', Login u p q) \<and> questions app' \<le> Suc (questions app)) \<or>
    (\<exists>app'. piano_exchange w app (Login u p 0) = Some (TryAgain, app', Login u p 1)
      \<and> partner_authToken (ph_partner (ph app')) \<noteq> None \<and> questions app' \<le> Suc (questions app))"
  by (auto simp: piano_exchange_def PianoRequest_def login_post_def PianoResponse_def
      login_response_def Let_def split: pandora_reply.splits option.splits dest!: sane_serverD [OF sane])

text \<open>
  C28: A login always comes back: against a server whose error codes are not negative, whatever the network and the server answer
  otherwise, no assertion fails, the loop ends, and at most two requests have been sent.
\<close>
theorem login_returns:
  assumes "sane_server w"
  shows "\<exists>r app' req'. bar_ui_piano_call w app (Login u p 0) = Some (r, app', req') \<and> questions app' \<le> questions app + 2"
proof -
  consider (returned) r app' q where "piano_exchange w app (Login u p 0) = Some (Finished r, app', Login u p q)" "questions app' \<le> Suc (questions app)"
    | (step) app1 where "piano_exchange w app (Login u p 0) = Some (TryAgain, app1, Login u p 1)"
      "partner_authToken (ph_partner (ph app1)) \<noteq> None" "questions app1 \<le> Suc (questions app)"
    using login_step0 [OF assms, of app u p] by blast
  then show ?thesis
  proof cases
    case returned
    then show ?thesis by (simp add: bar_ui_piano_call.simps [of w app])
  next
    case step
    then obtain r app' where "piano_exchange w app1 (Login u p 1) = Some (Finished r, app', Login u p 1)" "questions app' \<le> Suc (questions app1)"
      using login_step1_returns [OF assms] by blast
    then show ?thesis using step(1,3)
      by (simp add: bar_ui_piano_call.simps [of w app] bar_ui_piano_call.simps [of w app1])
  qed
qed

theorem login_returns_witness:
  "\<exists>r app' req'. bar_ui_piano_call demo_world demo_app (Login ''u'' ''p'' 0) = Some (r, app', req') \<and> questions app' \<le> 2"
proof -
  have "sane_server demo_world" "questions demo_app = 0" by (simp_all add: sane_server_def demo_world_def demo_app_def)
  then show ?thesis using login_returns [of demo_world demo_app "''u''" "''p''"] by (simp add: numeral_2_eq_2)
qed

section \<open>The station list keeps the selection\<close>

definition selection_valid :: "appstate \<Rightarrow> bool" where
  "selection_valid app \<longleftrightarrow> selected_station app = None \<or> selected app \<noteq> None"

lemma calls_onlyE:
  assumes "calls_only app app'"
  obtains p sv t n where "app' = app\<lparr>ph := p, service := sv, now := t, questions := n\<rparr>"
  using assms unfolding calls_only_def by (elim conjE) (rule that)

lemma piano_transaction_keepsE:
  assumes "piano_transaction w event req app = Some (ok, app', req')"
  obtains p sv t n where "app' = app\<lparr>ph := p, service := sv, now := t, questions := n\<rparr>"
proof -
  obtain app1 r where 1: "calls_only app app1" and 2: "app' = call_report event r app1"
    by (rule piano_transaction_frame [OF assms])
  obtain p sv t n where "app1 = app\<lparr>ph := p, service := sv, now := t, questions := n\<rparr>"
    by (rule calls_onlyE [OF 1])
  moreover have "app' = app1\<lparr>service := service app'\<rparr>"
    using call_report_frame [of event r app1] 2 by simp
  ultimately have "app' = app\<lparr>ph := p, service := service app', now := t, questions := n\<rparr>"
    by (cases app) simp
  then show ?thesis by (rule that)
qed

lemma on_service_simps [simp]:
  "ph (on_service f app) = ph app" "selected_station (on_service f app) = selected_station app"
  "playlist (on_service f app) = playlist app" "settings (on_service f app) = settings app"
  "users (on_service f app) = users app" "now (on_service f app) = now app"
  "current_song (on_service f app) = current_song app" "service (on_service f app) = f (service app)"
  by (simp_all add: on_service_def)

lemma check_for_station_changes_keeps [simp]:
  "ph (check_for_station_changes old new app) = ph app"
  "selected_station (check_for_station_changes old new app) = selected_station app"
  by (simp_all add: check_for_station_changes_def split_beta Let_def)

text \<open>What becomes of a selection when the list is replaced.\<close>

definition still_listed :: "station list \<Rightarrow> string option \<Rightarrow> string option" where
  "still_listed l sel = (case sel of Some sid \<Rightarrow> if sid \<in> st_id ` set l then Some sid else None | None \<Rightarrow> None)"

lemma settle_selection:
  assumes "settle_selection app = Some app'"
  shows "selection_valid app'" "selected_station app' = still_listed (stations (ph app)) (selected_station app)"
    "ph app' = ph app" "now app' = now app"
proof -
  have "selection_valid app' \<and> selected_station app' = still_listed (stations (ph app)) (selected_station app) \<and> ph app' = ph app \<and> now app' = now app"
  proof (cases "selected_station app")
    case None
    then show ?thesis using assms by (auto simp: settle_selection_def selection_valid_def still_listed_def)
  next
    case (Some sid)
    show ?thesis
    proof (cases "PianoFindStationById (stations (ph app)) sid")
      case None
      then show ?thesis using assms Some PianoFindStationById_None [of "stations (ph app)" sid]
        by (auto simp: settle_selection_def selection_valid_def send_selectedstation_def say_def still_listed_def)
    next
      case (Some s)
      then show ?thesis using assms \<open>selected_station app = Some sid\<close> PianoFindStationById_None [of "stations (ph app)" sid]
        by (simp add: settle_selection_def selection_valid_def selected_def still_listed_def)
    qed
  qed
  then show "selection_valid app'" "selected_station app' = still_listed (stations (ph app)) (selected_station app)"
    "ph app' = ph app" "now app' = now app" by blast+
qed

lemma selection_valid_cong:
  "\<lbrakk>selected_station a = selected_station b; stations (ph a) = stations (ph b)\<rbrakk> \<Longrightarrow> selection_valid a = selection_valid b"
  by (simp add: selection_valid_def selected_def)

text \<open>
  C14: Retrieving the station list replaces the list and keeps the selection honest.  While the last list is recent nothing happens.
  Otherwise Pandora is asked once; if that succeeds the new list is that of the answer, and the selected station stays selected exactly when
  it is in the new list; if it fails, the stations and the selection are those from before.  The list counts as recent for 300 seconds, or
  60 when it is empty.  A selection that refers to a station of the list always does so afterwards.
\<close>
theorem update_station_list_selection:
  assumes "update_station_list w app = Some (ret, app')"
  shows "(if update_station_list_time app \<ge> now app then ret = (stations (ph app) \<noteq> []) \<and> app' = app
    else \<exists>app1 req. piano_transaction w None GetStations (on_stations (\<lambda>_. []) app) = Some (ret, app1, req)
      \<and> stations (ph app') = stations (ph (if ret then app1 else app))
      \<and> selected_station app' = (if ret then still_listed (stations (ph app1)) (selected_station app) else selected_station app)
      \<and> update_station_list_time app' = now app' + (if stations (ph app') \<noteq> [] then 300 else 60))
    \<and> (selection_valid app \<longrightarrow> selection_valid app')"
proof (cases "update_station_list_time app \<ge> now app")
  case True
  then show ?thesis using assms by (auto simp: update_station_list_def)
next
  case False
  then obtain ok app1 req' where call:
      "piano_transaction w None GetStations (on_stations (\<lambda>_. []) app) = Some (ok, app1, req')"
    using assms by (auto simp: update_station_list_def bind_eq_Some_conv Let_def)
  obtain p sv t n where app1: "app1 = (on_stations (\<lambda>_. []) app)\<lparr>ph := p, service := sv, now := t, questions := n\<rparr>"
    by (rule piano_transaction_keepsE [OF call])
  show ?thesis
  proof (cases ok)
    case True
    let ?app2 = "check_for_station_changes (stations (ph app)) (stations (ph app1)) app1"
    obtain app3 where 3: "settle_selection ?app2 = Some app3" and ret: "ret"
      and app': "app' = app3\<lparr>update_station_list_time := now app3 + (if stations (ph app3) \<noteq> [] then 300 else 60)\<rparr>"
      using assms False call True by (auto simp: update_station_list_def bind_eq_Some_conv Let_def)
    have "selected_station ?app2 = selected_station app"
      using app1 by (simp add: on_stations_def)
    then show ?thesis
      using settle_selection [OF 3] ret selection_valid_cong [of app' app3] app' False call True by simp
  next
    case failed: False
    have app': "stations (ph app') = stations (ph app)" "selected_station app' = selected_station app" "\<not> ret"
      "update_station_list_time app' = now app' + (if stations (ph app') \<noteq> [] then 300 else 60)"
      using assms False call failed app1 by (auto simp: update_station_list_def Let_def on_stations_def)
    then show ?thesis using selection_valid_cong [of app' app] False call failed by simp
  qed
qed

definition demo_selected :: appstate where
  "demo_selected = demo_app\<lparr>selected_station := Some ''2''\<rparr>"

lemma demo_exchange: "piano_exchange demo_world (demo_selected\<lparr>ph := demo_handle\<lparr>stations := []\<rparr>\<rparr>) GetStations =
    Some (Finished \<lparr>call_ok = True, pRet = PIANO_RET_OK, wRet = Some WAITRESS_RET_OK\<rparr>,
      demo_selected\<lparr>ph := demo_handle\<lparr>stations := []\<rparr>, now := 1001, questions := 1\<rparr>, GetStations)"
  by (simp add: piano_exchange_def demo_world_def demo_selected_def demo_app_def demo_handle_def demo_result_def
      PianoRequest_def PianoResponse_def get_stations_response_def)

theorem update_station_list_selection_witness:
  "\<exists>ret app'. update_station_list demo_world demo_selected = Some (ret, app') \<and> selection_valid app'"
proof -
  have "update_station_list demo_world demo_selected \<noteq> None"
    using demo_exchange
    by (simp add: update_station_list_def demo_selected_def demo_app_def piano_transaction_def call_report_def
        bar_ui_piano_call.simps on_stations_def settle_selection_def send_selectedstation_def say_def Let_def)
  then obtain ret app' where 1: "update_station_list demo_world demo_selected = Some (ret, app')"
    by auto
  have "selection_valid demo_selected"
    by (simp add: selection_valid_def selected_def demo_selected_def demo_app_def demo_handle_def strcmp_eq_0)
  then show ?thesis using update_station_list_selection [OF 1] 1 by blast
qed

end
