(* ===== verification/Tuner.thy ===== *)
theory Tuner
  imports Support
begin

text \<open>
  \<open>src/src/tuner.c\<close>: the station ratings each user keeps, as an array sorted by station id and searched with
  bsearch, and the autotuner, which chooses the stations of the quick mix from the ratings of the listeners.
\<close>

section \<open>Ratings\<close>

definition get_station_rating_by_name :: "string \<Rightarrow> station_rating option" where
  "get_station_rating_by_name n =
    (if strcasecmp n ''neutral'' = 0 then Some RATING_NEUTRAL
     else if strcasecmp n ''good'' = 0 then Some RATING_GOOD
     else if strcasecmp n ''bad'' = 0 then Some RATING_BAD
     else None)"

primrec station_rating_name :: "station_rating \<Rightarrow> string" where
  "station_rating_name RATING_NEUTRAL = ''neutral''"
| "station_rating_name RATING_GOOD = ''good''"
| "station_rating_name RATING_BAD = ''bad''"

definition rating_comparator :: "string \<Rightarrow> rating_record \<Rightarrow> int" where
  "rating_comparator station_id r = strcmp station_id (rr_station r)"

definition find_station_rating :: "station_pref option \<Rightarrow> string \<Rightarrow> nat option" where
  "find_station_rating pref station_id = (case pref of
      None \<Rightarrow> None
    | Some p \<Rightarrow> bsearch (rating_comparator station_id) (ratings p) 0 (length (ratings p)))"

definition get_station_rating :: "user \<Rightarrow> string \<Rightarrow> station_rating" where
  "get_station_rating u station_id = (case find_station_rating (station_preferences u) station_id of
      Some i \<Rightarrow> rr_rating (ratings (the (station_preferences u)) ! i)
    | None \<Rightarrow> RATING_NEUTRAL)"

text \<open>fb_expandcalloc, for the number of elements; memory is assumed to be there.\<close>

definition expand_capacity :: "nat \<Rightarrow> nat \<Rightarrow> nat" where
  "expand_capacity cap newcapacity =
    (if newcapacity \<le> cap then cap else max newcapacity (cap * 2 + 25))"

text \<open>
  The loop that makes room from the end of the array; the array has one free slot behind its \<open>count\<close> elements,
  and \<open>n\<close> is \<open>i + 1\<close>.
\<close>

fun insert_loop :: "rating_record \<Rightarrow> nat \<Rightarrow> rating_record list \<Rightarrow> rating_record list" where
  "insert_loop new 0 a = a[0 := new]"
| "insert_loop new (Suc i) a =
    (if strcmp (rr_station new) (rr_station (a ! i)) > 0 then a[Suc i := new]
     else insert_loop new i (a[Suc i := a ! i]))"

definition free_slot :: rating_record where
  "free_slot = \<lparr>rr_station = [], rr_rating = RATING_NEUTRAL\<rparr>"

text \<open>The new preferences of the user, \<open>None\<close> when there is nothing to change.\<close>

definition changed_preferences :: "station_pref option \<Rightarrow> string \<Rightarrow> station_rating \<Rightarrow> station_pref option" where
  "changed_preferences pref station_id new_rating = (case (find_station_rating pref station_id, pref) of
      (Some i, Some p) \<Rightarrow>
        if new_rating = rr_rating (ratings p ! i) then None
        else Some (p\<lparr>ratings := (ratings p)[i := (ratings p ! i)\<lparr>rr_rating := new_rating\<rparr>]\<rparr>)
    | _ \<Rightarrow>
        if new_rating = RATING_NEUTRAL then None
        else
          let p = (case pref of None \<Rightarrow> \<lparr>capacity = 0, ratings = []\<rparr> | Some p \<Rightarrow> p)
          in Some \<lparr>capacity = expand_capacity (capacity p) (length (ratings p) + 1),
               ratings = insert_loop \<lparr>rr_station = station_id, rr_rating = new_rating\<rparr> (length (ratings p))
                 (ratings p @ [free_slot])\<rparr>)"

definition set_station_rating :: "user_ref \<Rightarrow> string \<Rightarrow> station_rating \<Rightarrow> users_state \<Rightarrow> users_state option" where
  "set_station_rating u station_id new_rating us = do {
    x \<leftarrow> deref_user us u;
    Some (case changed_preferences (station_preferences x) station_id new_rating of
        None \<Rightarrow> us
      | Some p \<Rightarrow> set_station_preferences u p us)
  }"

section \<open>The array is a map\<close>

definition rating_order :: "rating_record \<Rightarrow> rating_record \<Rightarrow> bool" where
  "rating_order a b \<longleftrightarrow> strcmp (rr_station a) (rr_station b) < 0"

definition pref_wf :: "station_pref option \<Rightarrow> bool" where
  "pref_wf pref \<longleftrightarrow> (case pref of None \<Rightarrow> True
    | Some p \<Rightarrow> sorted_wrt rating_order (ratings p) \<and> length (ratings p) \<le> capacity p)"

definition rating_assoc :: "station_pref option \<Rightarrow> (string \<times> station_rating) list" where
  "rating_assoc pref = (case pref of None \<Rightarrow> [] | Some p \<Rightarrow> map (\<lambda>r. (rr_station r, rr_rating r)) (ratings p))"

lemma rating_order_irrefl: "\<not> rating_order a a"
  by (simp add: rating_order_def)

lemma rating_order_nth:
  "\<lbrakk>sorted_wrt rating_order l; i < j; j < length l\<rbrakk> \<Longrightarrow> rating_order (l ! i) (l ! j)"
  by (simp add: sorted_wrt_iff_nth_less)

lemma bsearch_rating:
  assumes sorted: "sorted_wrt rating_order a" and "u \<le> length a" and "l \<le> i" and "i < u" and i: "rr_station (a ! i) = sid"
  shows "bsearch (rating_comparator sid) a l u = Some i"
proof (rule bsearch_finds)
  fix j
  show "rating_comparator sid (a ! j) > 0" if "j < i"
    using rating_order_nth [OF sorted that] assms strcmp_antisym [of "rr_station (a ! j)" sid]
    by (simp add: rating_comparator_def rating_order_def)
  show "rating_comparator sid (a ! j) < 0" if "i < j" "j < u"
    using rating_order_nth [OF sorted that(1)] assms(2) i that(2) by (simp add: rating_comparator_def rating_order_def)
qed (use assms in \<open>auto simp: rating_comparator_def\<close>)

definition lookup_rating :: "station_pref option \<Rightarrow> string \<Rightarrow> station_rating" where
  "lookup_rating pref sid = (case find_station_rating pref sid of
      Some i \<Rightarrow> rr_rating (ratings (the pref) ! i)
    | None \<Rightarrow> RATING_NEUTRAL)"

definition update_rating :: "string \<Rightarrow> station_rating \<Rightarrow> station_pref option \<Rightarrow> station_pref option" where
  "update_rating sid r pref = (case changed_preferences pref sid r of None \<Rightarrow> pref | Some p \<Rightarrow> Some p)"

lemma get_station_rating_lookup: "get_station_rating u sid = lookup_rating (station_preferences u) sid"
  by (simp add: get_station_rating_def lookup_rating_def)

lemma sorted_distinct_stations: "sorted_wrt rating_order l \<Longrightarrow> distinct (map rr_station l)"
  by (induction l) (auto simp: rating_order_def)

lemma find_station_rating_None [simp]: "find_station_rating None sid = None"
  by (simp add: find_station_rating_def)

lemma find_station_rating_SomeD:
  "find_station_rating (Some p) sid = Some i \<Longrightarrow> i < length (ratings p) \<and> rr_station (ratings p ! i) = sid"
  by (auto simp: find_station_rating_def rating_comparator_def strcmp_eq_0 dest: bsearch_SomeD)

lemma find_station_rating_NoneD:
  assumes "find_station_rating (Some p) sid = None" and "sorted_wrt rating_order (ratings p)"
  shows "sid \<notin> rr_station ` set (ratings p)"
proof
  assume "sid \<in> rr_station ` set (ratings p)"
  then obtain i where "i < length (ratings p)" "rr_station (ratings p ! i) = sid"
    by (auto simp: in_set_conv_nth)
  then have "find_station_rating (Some p) sid = Some i"
    using bsearch_rating [OF assms(2), of "length (ratings p)" 0 i sid] by (simp add: find_station_rating_def)
  then show False using assms(1) by simp
qed

lemma map_of_ratings:
  assumes "sorted_wrt rating_order l" and "i < length l"
  shows "map_of (map (\<lambda>r. (rr_station r, rr_rating r)) l) (rr_station (l ! i)) = Some (rr_rating (l ! i))"
proof -
  have "distinct (map fst (map (\<lambda>r. (rr_station r, rr_rating r)) l))"
    using sorted_distinct_stations [OF assms(1)] by (simp add: comp_def)
  then show ?thesis
    using assms(2) by (intro map_of_is_SomeI) auto
qed

lemma lookup_rating_map:
  assumes "pref_wf pref"
  shows "lookup_rating pref sid = (case map_of (rating_assoc pref) sid of Some r \<Rightarrow> r | None \<Rightarrow> RATING_NEUTRAL)"
proof (cases pref)
  case None
  then show ?thesis by (simp add: lookup_rating_def find_station_rating_def rating_assoc_def)
next
  case (Some p)
  have sorted: "sorted_wrt rating_order (ratings p)" using assms Some by (simp add: pref_wf_def)
  show ?thesis
  proof (cases "find_station_rating pref sid")
    case None
    then have "sid \<notin> rr_station ` set (ratings p)"
      using find_station_rating_NoneD sorted Some by blast
    then have "map_of (rating_assoc pref) sid = None"
      using Some by (force simp: rating_assoc_def map_of_eq_None_iff)
    then show ?thesis using None by (simp add: lookup_rating_def)
  next
    case found: (Some i)
    then have "i < length (ratings p)" "rr_station (ratings p ! i) = sid"
      using find_station_rating_SomeD Some by blast+
    then show ?thesis
      using map_of_ratings [OF sorted] found Some by (auto simp: lookup_rating_def rating_assoc_def)
  qed
qed

text \<open>Where the loop puts a new record: behind the smaller ones, in front of the others.\<close>

lemma insert_loop_split:
  "\<exists>l1 l2. l = l1 @ l2 \<and> insert_loop new (length l) (l @ x # t) = l1 @ new # l2 @ t
    \<and> (l1 = [] \<or> strcmp (rr_station new) (rr_station (last l1)) > 0)
    \<and> (\<forall>r \<in> set l2. strcmp (rr_station new) (rr_station r) \<le> 0)"
proof (induction l arbitrary: x t rule: rev_induct)
  case Nil
  then show ?case by simp
next
  case (snoc y l)
  show ?case
  proof (cases "strcmp (rr_station new) (rr_station y) > 0")
    case True
    then have "insert_loop new (length (l @ [y])) ((l @ [y]) @ x # t) = (l @ [y]) @ new # [] @ t"
      by (simp add: nth_append list_update_append)
    then show ?thesis using True by (intro exI [of _ "l @ [y]"] exI [of _ "[]"]) simp
  next
    case False
    have "insert_loop new (length (l @ [y])) ((l @ [y]) @ x # t) = insert_loop new (length l) (l @ y # y # t)"
      using False by (simp add: nth_append list_update_append)
    moreover obtain l1 l2 where "l = l1 @ l2"
      and "insert_loop new (length l) (l @ y # y # t) = l1 @ new # l2 @ y # t"
      and "l1 = [] \<or> strcmp (rr_station new) (rr_station (last l1)) > 0"
      and "\<forall>r \<in> set l2. strcmp (rr_station new) (rr_station r) \<le> 0"
      using snoc.IH [of y "y # t"] by blast
    ultimately show ?thesis
      using False by (intro exI [of _ l1] exI [of _ "l2 @ [y]"]) auto
  qed
qed

lemma rating_order_trans: "\<lbrakk>rating_order a b; rating_order b c\<rbrakk> \<Longrightarrow> rating_order a c"
  unfolding rating_order_def by (rule strcmp_trans)

lemma insert_loop_sorted:
  assumes "sorted_wrt rating_order l" and "rr_station new \<notin> rr_station ` set l"
  shows "sorted_wrt rating_order (insert_loop new (length l) (l @ [x]))
    \<and> map_of (map (\<lambda>r. (rr_station r, rr_rating r)) (insert_loop new (length l) (l @ [x])))
      = (map_of (map (\<lambda>r. (rr_station r, rr_rating r)) l))(rr_station new \<mapsto> rr_rating new)
    \<and> length (insert_loop new (length l) (l @ [x])) = length l + 1"
proof -
  obtain l1 l2 where l: "l = l1 @ l2" and ins: "insert_loop new (length l) (l @ [x]) = l1 @ new # l2"
    and before: "l1 = [] \<or> strcmp (rr_station new) (rr_station (last l1)) > 0"
    and after: "\<forall>r \<in> set l2. strcmp (rr_station new) (rr_station r) \<le> 0"
    using insert_loop_split [of l new x "[]"] by (elim exE conjE) (rule that, simp_all)
  have b: "\<forall>r \<in> set l1. rating_order r new"
  proof (cases l1 rule: rev_cases)
    case (snoc l1' y)
    then have "rating_order y new"
      using before strcmp_antisym [of "rr_station new" "rr_station y"] by (simp add: rating_order_def)
    then show ?thesis using assms(1) l snoc rating_order_trans by (auto simp: sorted_wrt_append)
  qed simp
  have a: "\<forall>r \<in> set l2. rating_order new r"
  proof
    fix r assume r: "r \<in> set l2"
    then have "strcmp (rr_station new) (rr_station r) \<noteq> 0"
      using assms(2) l by (auto simp: strcmp_eq_0)
    then show "rating_order new r" using after r by (auto simp: rating_order_def order_less_le)
  qed
  have "map_of (map (\<lambda>r. (rr_station r, rr_rating r)) l1) (rr_station new) = None"
    using assms(2) l by (auto simp: map_of_eq_None_iff image_image)
  then have "map_of (map (\<lambda>r. (rr_station r, rr_rating r)) (l1 @ new # l2))
      = (map_of (map (\<lambda>r. (rr_station r, rr_rating r)) l))(rr_station new \<mapsto> rr_rating new)"
    using l by (auto simp: fun_eq_iff map_add_def split: option.splits)
  then show ?thesis
    using ins assms(1) l a b by (auto simp: sorted_wrt_append)
qed

lemma map_of_update_nth:
  assumes "sorted_wrt rating_order l" and "i < length l"
  shows "map_of (map (\<lambda>r. (rr_station r, rr_rating r)) (l[i := (l ! i)\<lparr>rr_rating := r\<rparr>])) =
    (map_of (map (\<lambda>r. (rr_station r, rr_rating r)) l))(rr_station (l ! i) \<mapsto> r)"
  using assms
proof (induction l arbitrary: i)
  case (Cons a l)
  show ?case
  proof (cases i)
    case (Suc j)
    then have "rating_order a (l ! j)" using Cons.prems by simp
    then have "rr_station (l ! j) \<noteq> rr_station a" by (auto simp: rating_order_def)
    then show ?thesis using Cons Suc by (auto simp: fun_upd_twist)
  qed auto
qed simp

lemma sorted_update_nth:
  "\<lbrakk>sorted_wrt rating_order l; i < length l\<rbrakk> \<Longrightarrow> sorted_wrt rating_order (l[i := (l ! i)\<lparr>rr_rating := r\<rparr>])"
  by (simp add: sorted_wrt_iff_nth_less rating_order_def nth_list_update)

lemma update_rating_spec:
  assumes "pref_wf pref"
  shows "pref_wf (update_rating sid r pref)
    \<and> lookup_rating (update_rating sid r pref) sid' = (if sid' = sid then r else lookup_rating pref sid')"
proof (cases "changed_preferences pref sid r")
  case None
  then have "lookup_rating pref sid = r"
    by (auto simp: changed_preferences_def lookup_rating_def Let_def split: option.splits if_splits)
  then show ?thesis using None assms by (simp add: update_rating_def)
next
  case (Some p')
  have "pref_wf (Some p') \<and> map_of (rating_assoc (Some p')) = (map_of (rating_assoc pref))(sid \<mapsto> r)"
  proof (cases "find_station_rating pref sid")
    case found: (Some i)
    then obtain p where p: "pref = Some p" by (cases pref) (auto simp: find_station_rating_def)
    have i: "i < length (ratings p)" "rr_station (ratings p ! i) = sid"
      using find_station_rating_SomeD found p by blast+
    have "p' = p\<lparr>ratings := (ratings p)[i := (ratings p ! i)\<lparr>rr_rating := r\<rparr>]\<rparr>"
      using Some found p by (auto simp: changed_preferences_def split: if_splits)
    then show ?thesis
      using assms p i map_of_update_nth [of "ratings p" i r]
      by (auto simp: pref_wf_def rating_assoc_def sorted_update_nth)
  next
    case absent: None
    define p where "p = (case pref of None \<Rightarrow> \<lparr>capacity = 0, ratings = []\<rparr> | Some p \<Rightarrow> p)"
    let ?new = "\<lparr>rr_station = sid, rr_rating = r\<rparr>"
    have p': "p' = \<lparr>capacity = expand_capacity (capacity p) (length (ratings p) + 1),
        ratings = insert_loop ?new (length (ratings p)) (ratings p @ [free_slot])\<rparr>"
      using Some absent by (auto simp: changed_preferences_def p_def Let_def split: option.splits if_splits)
    have sorted: "sorted_wrt rating_order (ratings p)" and assoc: "rating_assoc pref = map (\<lambda>r. (rr_station r, rr_rating r)) (ratings p)"
      using assms by (auto simp: p_def pref_wf_def rating_assoc_def split: option.splits)
    have "sid \<notin> rr_station ` set (ratings p)"
      using absent find_station_rating_NoneD sorted by (auto simp: p_def split: option.splits)
    then show ?thesis
      using insert_loop_sorted [OF sorted, of ?new free_slot] assoc
      by (simp add: p' pref_wf_def rating_assoc_def expand_capacity_def)
  qed
  then show ?thesis
    using Some assms by (auto simp: update_rating_def lookup_rating_map)
qed

section \<open>Keyed stores\<close>

text \<open>A store with a default: what a lookup returns after an update.\<close>

locale keyed_store =
  fixes lookup :: "'s \<Rightarrow> 'k \<Rightarrow> 'v"
    and update :: "'k \<Rightarrow> 'v \<Rightarrow> 's \<Rightarrow> 's"
    and wf :: "'s \<Rightarrow> bool"
  assumes update_wf: "wf s \<Longrightarrow> wf (update k v s)"
    and lookup_update: "wf s \<Longrightarrow> lookup (update k v s) k' = (if k' = k then v else lookup s k')"
begin

definition updates :: "('k \<times> 'v) list \<Rightarrow> 's \<Rightarrow> 's" where
  "updates kvs s = fold (\<lambda>(k, v). update k v) kvs s"

lemma updates_last:
  "wf s \<Longrightarrow> wf (updates kvs s)
    \<and> lookup (updates kvs s) k = (case map_of (rev kvs) k of Some v \<Rightarrow> v | None \<Rightarrow> lookup s k)"
proof (induction kvs arbitrary: s)
  case Nil
  then show ?case by (simp add: updates_def)
next
  case (Cons kv kvs)
  obtain k1 v1 where kv: "kv = (k1, v1)" by (cases kv)
  have "updates (kv # kvs) s = updates kvs (update k1 v1 s)"
    by (simp add: updates_def kv)
  then show ?case
    using Cons.IH [OF update_wf [OF Cons.prems], of k1 v1] lookup_update [OF Cons.prems] kv
    by (auto simp: map_add_def split: option.splits)
qed

end

interpretation rating_store: keyed_store lookup_rating update_rating pref_wf
  by unfold_locales (use update_rating_spec in auto)

text \<open>A sequence of ratings a user gives.\<close>

fun rate_all :: "user_ref \<Rightarrow> (string \<times> station_rating) list \<Rightarrow> users_state \<Rightarrow> users_state option" where
  "rate_all u [] us = Some us"
| "rate_all u ((sid, r) # rest) us = Option.bind (set_station_rating u sid r us) (rate_all u rest)"

definition ratings_of :: "users_state \<Rightarrow> user_ref \<Rightarrow> string \<Rightarrow> station_rating option" where
  "ratings_of us u sid = map_option (\<lambda>x. get_station_rating x sid) (deref_user us u)"

lemma find_map_same:
  assumes "\<And>x. P x \<Longrightarrow> P (f x)"
  shows "List.find P (map (\<lambda>x. if P x then f x else x) l) = map_option f (List.find P l)"
  using assms by (induction l) auto

lemma deref_update_user:
  "(\<And>x. name (f x) = name x) \<Longrightarrow> deref_user (update_user u f us) u = map_option f (deref_user us u)"
  by (cases u) (auto intro: find_map_same)

lemma set_station_rating_deref:
  assumes "deref_user us u = Some x" and "set_station_rating u sid r us = Some us'"
  shows "deref_user us' u = Some (x\<lparr>station_preferences := update_rating sid r (station_preferences x)\<rparr>)"
proof (cases "changed_preferences (station_preferences x) sid r")
  case None
  then show ?thesis using assms by (simp add: set_station_rating_def update_rating_def)
next
  case (Some p)
  then have us': "us' = (update_user u (station_preferences_update (\<lambda>_. Some p)) us)\<lparr>dirty := True\<rparr>"
    using assms by (simp add: set_station_rating_def set_station_preferences_def)
  have "deref_user us' u = deref_user (update_user u (station_preferences_update (\<lambda>_. Some p)) us) u"
    by (cases u) (simp_all add: us')
  then show ?thesis
    using assms(1) Some deref_update_user [of "station_preferences_update (\<lambda>_. Some p)" u us]
    by (simp add: update_rating_def)
qed

lemma rate_all_deref:
  assumes "deref_user us u = Some x" and "rate_all u rs us = Some us'"
  shows "deref_user us' u = Some (x\<lparr>station_preferences := rating_store.updates rs (station_preferences x)\<rparr>)"
  using assms
proof (induction rs arbitrary: us x)
  case Nil
  then show ?case by (simp add: rating_store.updates_def)
next
  case (Cons sr rs)
  obtain sid r where sr: "sr = (sid, r)" by (cases sr)
  obtain us1 where 1: "set_station_rating u sid r us = Some us1" and 2: "rate_all u rs us1 = Some us'"
    using Cons.prems(2) sr by (auto simp: bind_eq_Some_conv)
  show ?case
    using Cons.IH [OF set_station_rating_deref [OF Cons.prems(1) 1] 2] sr
    by (simp add: rating_store.updates_def)
qed

text \<open>
  C10: Station ratings behave as a map: however many ratings a user has given in whatever order, the sorted array searched by
  bisection gives for each station the rating given last, the old rating when there is no new one, and the array stays sorted.
\<close>
theorem ratings_last_given:
  assumes "deref_user us u = Some x" and "pref_wf (station_preferences x)" and "rate_all u rs us = Some us'"
  shows "\<exists>x'. deref_user us' u = Some x' \<and> pref_wf (station_preferences x') \<and>
    get_station_rating x' sid = (case map_of (rev rs) sid of Some r \<Rightarrow> r | None \<Rightarrow> get_station_rating x sid)"
  using rate_all_deref [OF assms(1,3)] rating_store.updates_last [OF assms(2), of rs sid]
  by (simp add: get_station_rating_lookup split: option.splits)

theorem ratings_last_given_witness:
  "\<exists>us' x'. rate_all (UserNamed ''Joe'') [(''2'', RATING_GOOD), (''1'', RATING_BAD), (''2'', RATING_NEUTRAL)] demo_users1
      = Some us' \<and> deref_user us' (UserNamed ''Joe'') = Some x' \<and> get_station_rating x' ''2'' = RATING_NEUTRAL"
proof -
  let ?rs = "[(''2'', RATING_GOOD), (''1'', RATING_BAD), (''2'', RATING_NEUTRAL)]"
  have 1: "deref_user demo_users1 (UserNamed ''Joe'') = Some demo_user"
    by (simp add: demo_users1_def demo_user_def)
  have 2: "pref_wf (station_preferences demo_user)"
    by (simp add: demo_user_def pref_wf_def)
  have "rate_all (UserNamed ''Joe'') ?rs demo_users1 \<noteq> None"
    by (simp add: set_station_rating_def demo_users1_def demo_user_def set_station_preferences_def
        split: option.split)
  then obtain us' where 3: "rate_all (UserNamed ''Joe'') ?rs demo_users1 = Some us'" by auto
  show ?thesis using ratings_last_given [OF 1 2 3, of "''2''"] 3 by auto
qed

end
