(* ===== verification/Autotune.thy ===== *)
theory Autotune
  imports Tuner
begin

text \<open>
  \<open>src/src/tuner.c\<close>, second part: the commands about station ratings and the autotuner.

  A \<open>USER *\<close> of a connection whose user record is gone makes the result \<open>None\<close>.
\<close>

section \<open>Reports of ratings\<close>

definition send_station_rating :: "users_state \<Rightarrow> connection \<Rightarrow> string \<Rightarrow> service \<Rightarrow> service option" where
  "send_station_rating us k station_id sv = (case conn_user k of
      None \<Rightarrow> Some (data_reply (conn_id k) I_USERRATING (station_rating_name RATING_NEUTRAL) sv)
    | Some u \<Rightarrow> do {
        x \<leftarrow> deref_user us u;
        Some (data_reply (conn_id k) I_USERRATING (station_rating_name (get_station_rating x station_id)) sv)
      })"

definition send_rating_line :: "nat \<Rightarrow> station \<Rightarrow> appstate \<Rightarrow> appstate option" where
  "send_rating_line event s app = do {
    k \<leftarrow> find_connection (service app) event;
    sv \<leftarrow> send_station_rating (users app) k (st_id s)
      (data_reply event I_STATION (st_name s) (reply event S_DATA (service app)));
    Some (app\<lparr>service := sv\<rparr>)
  }"

fun send_rating_lines :: "nat \<Rightarrow> station list \<Rightarrow> appstate \<Rightarrow> appstate option" where
  "send_rating_lines event [] app = Some app"
| "send_rating_lines event (s # rest) app = Option.bind (send_rating_line event s app) (send_rating_lines event rest)"

definition send_station_ratings :: "nat \<Rightarrow> string option \<Rightarrow> appstate \<Rightarrow> appstate option" where
  "send_station_ratings event argv2 app = (case argv2 of
      Some _ \<Rightarrow> do {
        (s, app) \<leftarrow> get_station_by_name_or_current event argv2 app;
        (case s of
            None \<Rightarrow> Some app
          | Some s \<Rightarrow> map_option (on_service (reply event S_DATA_END)) (send_rating_line event s app))
      }
    | None \<Rightarrow> map_option (on_service (reply event S_DATA_END))
        (send_rating_lines event (stations (ph app)) app))"

fun announce_ratings_loop :: "users_state \<Rightarrow> user_ref option \<Rightarrow> string \<Rightarrow> connection list \<Rightarrow> service \<Rightarrow>
    service option" where
  "announce_ratings_loop us u sid [] sv = Some sv"
| "announce_ratings_loop us u sid (k # rest) sv =
    (if u = None \<or> conn_user k = u
     then Option.bind (send_station_rating us k sid sv) (announce_ratings_loop us u sid rest)
     else announce_ratings_loop us u sid rest sv)"

definition announce_station_ratings :: "user_ref option \<Rightarrow> appstate \<Rightarrow> appstate option" where
  "announce_station_ratings u app = do {
    song \<leftarrow> current_song app;
    sid \<leftarrow> stationId song;
    sv \<leftarrow> announce_ratings_loop (users app) u sid (fb_iterate (service app)) (service app);
    Some (app\<lparr>service := sv\<rparr>)
  }"

section \<open>The autotuner\<close>

record station_selector =
  sel_station :: station
  pure_good :: bool
  partial_good :: bool
  bad :: bool
  included :: bool

definition apply_rating :: "station_rating \<Rightarrow> station_selector \<Rightarrow> station_selector" where
  "apply_rating r s = (case r of
      RATING_GOOD \<Rightarrow> s\<lparr>partial_good := True\<rparr>
    | RATING_BAD \<Rightarrow> s\<lparr>bad := True, pure_good := False\<rparr>
    | RATING_NEUTRAL \<Rightarrow> s\<lparr>pure_good := False\<rparr>)"

definition apply_station_ratings :: "users_state \<Rightarrow> user \<Rightarrow> station_selector list \<Rightarrow> station_selector list" where
  "apply_station_ratings us u sels =
    (if have_privilege us (Some u) PRIVILEGE_INFLUENCE
     then map (\<lambda>s. apply_rating (get_station_rating u (st_id (sel_station s))) s) sels
     else sels)"

fun logins_loop :: "users_state \<Rightarrow> connection list \<Rightarrow> bool \<Rightarrow> station_selector list \<Rightarrow>
    (bool \<times> station_selector list) option" where
  "logins_loop us [] listening sels = Some (listening, sels)"
| "logins_loop us (k # rest) listening sels =
    (if conn_state k = OPEN then
       (case conn_user k of
          None \<Rightarrow> logins_loop us rest True sels
        | Some u \<Rightarrow> Option.bind (deref_user us u)
            (\<lambda>x. logins_loop us rest True (apply_station_ratings us x sels)))
     else logins_loop us rest listening sels)"

definition tune_based_on_logins :: "appstate \<Rightarrow> station_selector list \<Rightarrow> (bool \<times> station_selector list) option" where
  "tune_based_on_logins app sels = logins_loop (users app) (fb_iterate (service app)) False sels"

fun attribute_loop :: "users_state \<Rightarrow> user list \<Rightarrow> bool \<Rightarrow> station_selector list \<Rightarrow> bool \<times> station_selector list" where
  "attribute_loop us [] listening sels = (listening, sels)"
| "attribute_loop us (u # rest) listening sels =
    (if have_privilege us (Some u) ATTRIBUTE_PRESENT
     then attribute_loop us rest True (apply_station_ratings us u sels)
     else attribute_loop us rest listening sels)"

definition tune_based_on_attribute :: "appstate \<Rightarrow> station_selector list \<Rightarrow> bool \<times> station_selector list" where
  "tune_based_on_attribute app sels = attribute_loop (users app) (user_list (users app)) False sels"

definition algorithm_includes :: "nat \<Rightarrow> station_selector \<Rightarrow> bool" where
  "algorithm_includes algorithm s =
    (if algorithm = 1 then pure_good s
     else if algorithm = 2 then partial_good s \<and> \<not> bad s
     else \<not> bad s)"

text \<open>The algorithm the loop stops at (4 when it runs through), whether there are results, and the selection.\<close>

fun algorithm_loop :: "nat list \<Rightarrow> bool \<Rightarrow> station_selector list \<Rightarrow> nat \<times> bool \<times> station_selector list" where
  "algorithm_loop [] had sels = (4, had, sels)"
| "algorithm_loop (a # as) had sels = (
    let sels = map (\<lambda>s. s\<lparr>included := algorithm_includes a s\<rparr>) sels;
        had = (had \<or> list_ex included sels)
    in if had then (a, had, sels) else algorithm_loop as had sels)"

definition autotune_text :: "nat \<Rightarrow> string" where
  "autotune_text algorithm =
    (if algorithm = 1 then ''autotuner selected stations everyone likes''
     else if algorithm = 2 then ''autotuner selected stations somebody likes''
     else ''autotuner selected tolerable stations'')"

text \<open>Copying the selection back; \<open>useQuickMix\<close> is written where it differs.\<close>

definition copy_selection :: "station list \<Rightarrow> station_selector list \<Rightarrow> bool \<times> station list" where
  "copy_selection sts sels =
    (list_ex (\<lambda>(s, sel). useQuickMix s \<noteq> included sel) (zip sts sels),
     map (\<lambda>(s, sel). if useQuickMix s \<noteq> included sel then s\<lparr>useQuickMix := included sel\<rparr> else s) (zip sts sels))"

definition gather_ratings :: "appstate \<Rightarrow> (bool \<times> station_selector list) option" where
  "gather_ratings app = do {
    let sels = map (\<lambda>s. \<lparr>sel_station = s, pure_good = True, partial_good = False, bad = False, included = False\<rparr>)
      (stations (ph app));
    (a, sels) \<leftarrow> (if automatic_mode (settings app) AND TUNE_ON_LOGINS \<noteq> 0
      then tune_based_on_logins app sels else Some (False, sels));
    let (b, sels) = (if automatic_mode (settings app) AND TUNE_ON_ATTRIBUTE \<noteq> 0
      then tune_based_on_attribute app sels else (False, sels));
    Some (a \<or> b, sels)
  }"

text \<open>The end of recompute_stations: what is done with the computed selection.\<close>

definition install_selection :: "world \<Rightarrow> nat \<Rightarrow> station_selector list \<Rightarrow> appstate \<Rightarrow> appstate option" where
  "install_selection w algorithm sels app =
    (if \<not> computation_has_listeners app then Some (on_service (send_status Everyone ''No listeners.'') app)
     else if computation_had_results app then do {
       let (changed, sts) = copy_selection (stations (ph app)) sels;
       let app = on_stations (\<lambda>_. sts) app;
       (if changed then do {
          (_, app, _) \<leftarrow> piano_transaction w None SetQuickMix app;
          Some (on_service (send_status Everyone (autotune_text algorithm))
            (on_service (send_response Everyone I_MIX_CHANGED) app))
        }
        else Some app)
     }
     else Some (on_service (send_status Everyone ''current listener station preferences are incompatible'') app))"

definition recompute_stations :: "world \<Rightarrow> appstate \<Rightarrow> appstate option" where
  "recompute_stations w app =
    (if \<not> automatic_stations app \<or> stations (ph app) = [] then Some app
     else do {
       (listeners, sels) \<leftarrow> gather_ratings app;
       let (algorithm, results, sels) = algorithm_loop [1, 2, 3] (\<not> listeners) sels;
       install_selection w algorithm sels
         (app\<lparr>computation_had_results := results, computation_has_listeners := listeners\<rparr>)
     })"

definition computed_stations_is_empty_set :: "appstate \<Rightarrow> bool" where
  "computed_stations_is_empty_set app = (\<not> computation_had_results app \<or> \<not> computation_has_listeners app)"

section \<open>Rating a station\<close>

definition notify_ratings_changed :: "user_ref \<Rightarrow> service \<Rightarrow> service" where
  "notify_ratings_changed u sv = fold
    (\<lambda>k sv. if conn_user k = Some u then reply (conn_id k) I_USERRATINGS_CHANGED sv else sv) (fb_iterate sv) sv"

text \<open>The rating is looked up in the arguments first, so a name it does not know fails the assertion.\<close>

definition rate_station :: "world \<Rightarrow> nat \<Rightarrow> string \<Rightarrow> string option \<Rightarrow> user_ref \<Rightarrow> appstate \<Rightarrow> appstate option" where
  "rate_station w event argv2 argv3 u app = do {
    r \<leftarrow> get_station_rating_by_name argv2;
    (station, app) \<leftarrow> get_station_by_name_or_current event argv3 app;
    (case station of
        None \<Rightarrow> Some app
      | Some s \<Rightarrow> do {
          us \<leftarrow> set_station_rating u (st_id s) r (users app);
          let app = on_service (reply event S_OK) (app\<lparr>users := us\<rparr>);
          app \<leftarrow> (case (selected_station app, current_song app) of
              (Some _, Some song) \<Rightarrow> do {
                sel \<leftarrow> selected app;
                (if isQuickMix sel then do {
                   sid \<leftarrow> stationId song;
                   (if strcmp (st_id sel) sid = 0 then announce_station_ratings (Some u) app else Some app)
                 } else Some app)
              }
            | _ \<Rightarrow> Some app);
          recompute_stations w (on_service (notify_ratings_changed u) app)
        })
  }"

section \<open>Calls that leave the station list alone\<close>

fun keeps_stations :: "piano_request \<Rightarrow> bool" where
  "keeps_stations GetStations = False"
| "keeps_stations (RenameStation _ _) = False"
| "keeps_stations (DeleteStation _) = False"
| "keeps_stations (CreateStation _ _) = False"
| "keeps_stations (TransformStation _) = False"
| "keeps_stations _ = True"

lemma PianoResponse_keeps_stations:
  "\<lbrakk>PianoResponse t rep h req = Some (ret, h', req'); keeps_stations req\<rbrakk>
    \<Longrightarrow> stations h' = stations h \<and> keeps_stations req'"
  by (cases req) (auto simp: PianoResponse_def login_response_def Let_def
      split: pandora_reply.splits option.splits if_splits)

lemma piano_exchange_keeps_stations:
  "\<lbrakk>piano_exchange w app req = Some (oc, app', req'); keeps_stations req\<rbrakk>
    \<Longrightarrow> stations (ph app') = stations (ph app) \<and> keeps_stations req'"
  by (auto simp: piano_exchange_def say_def bind_eq_Some_conv Let_def
      split: if_splits dest: PianoResponse_keeps_stations)

interpretation station_frame: pandora_frame keeps_stations "\<lambda>a b. stations (ph b) = stations (ph a)"
  by unfold_locales (auto dest: piano_exchange_keeps_stations)

lemma call_report_ph [simp]: "ph (call_report event r app) = ph app"
  by (simp add: call_report_def split: option.split)

lemma piano_transaction_keeps_stations:
  assumes "piano_transaction w event req app = Some (ok, app', req')" and "keeps_stations req"
  shows "stations (ph app') = stations (ph app)"
proof -
  obtain app1 r where "bar_ui_piano_call w app req = Some (r, app1, req')" and "app' = call_report event r app1"
    by (rule piano_transaction_frame [OF assms(1)])
  then show ?thesis using station_frame.call assms(2) by auto
qed

section \<open>What the autotuner chooses\<close>

text \<open>The flags of a station, given the users who have a say.\<close>

definition judged :: "user list \<Rightarrow> station \<Rightarrow> station_selector" where
  "judged us s = \<lparr>sel_station = s,
    pure_good = (\<forall>u \<in> set us. get_station_rating u (st_id s) = RATING_GOOD),
    partial_good = (\<exists>u \<in> set us. get_station_rating u (st_id s) = RATING_GOOD),
    bad = (\<exists>u \<in> set us. get_station_rating u (st_id s) = RATING_BAD), included = False\<rparr>"

definition has_say :: "users_state \<Rightarrow> user \<Rightarrow> bool" where
  "has_say us u = have_privilege us (Some u) PRIVILEGE_INFLUENCE"

definition logged_in :: "users_state \<Rightarrow> connection list \<Rightarrow> user list" where
  "logged_in us ks = List.map_filter
    (\<lambda>k. if conn_state k = OPEN then Option.bind (conn_user k) (deref_user us) else None) ks"

definition present :: "users_state \<Rightarrow> user list" where
  "present us = filter (\<lambda>u. have_privilege us (Some u) ATTRIBUTE_PRESENT) (user_list us)"

definition mix_voters :: "appstate \<Rightarrow> user list" where
  "mix_voters app = filter (has_say (users app))
    ((if automatic_mode (settings app) AND TUNE_ON_LOGINS \<noteq> 0
      then logged_in (users app) (fb_iterate (service app)) else [])
     @ (if automatic_mode (settings app) AND TUNE_ON_ATTRIBUTE \<noteq> 0 then present (users app) else []))"

definition someone_listening :: "appstate \<Rightarrow> bool" where
  "someone_listening app \<longleftrightarrow>
    automatic_mode (settings app) AND TUNE_ON_LOGINS \<noteq> 0 \<and> (\<exists>k \<in> set (fb_iterate (service app)). conn_state k = OPEN)
    \<or> automatic_mode (settings app) AND TUNE_ON_ATTRIBUTE \<noteq> 0 \<and> present (users app) \<noteq> []"

lemma apply_rating_judged:
  "apply_rating (get_station_rating u (st_id s)) (judged us s) = judged (us @ [u]) s"
  by (cases "get_station_rating u (st_id s)") (auto simp: apply_rating_def judged_def)

lemma apply_station_ratings_judged:
  "apply_station_ratings us u (map (judged vs) sts) = map (judged (vs @ filter (has_say us) [u])) sts"
proof -
  have "apply_rating (get_station_rating u (st_id (sel_station (judged vs s)))) (judged vs s) = judged (vs @ [u]) s" for s
    using apply_rating_judged [of u s vs] by (simp add: judged_def)
  then show ?thesis by (simp add: apply_station_ratings_def has_say_def)
qed

lemma logins_loop_judged:
  assumes "logins_loop us ks listening (map (judged vs) sts) = Some (l, sels)"
  shows "sels = map (judged (vs @ filter (has_say us) (logged_in us ks))) sts
    \<and> l = (listening \<or> (\<exists>k \<in> set ks. conn_state k = OPEN))"
  using assms
proof (induction ks arbitrary: listening vs)
  case Nil
  then show ?case by (simp add: logged_in_def map_filter_simps)
next
  case (Cons k ks)
  show ?case
  proof (cases "conn_state k = OPEN")
    case False
    then show ?thesis using Cons by (simp add: logged_in_def map_filter_simps)
  next
    case True
    show ?thesis
    proof (cases "conn_user k")
      case None
      then have "logins_loop us ks True (map (judged vs) sts) = Some (l, sels)"
        using Cons.prems True by simp
      then show ?thesis using Cons.IH True None by (fastforce simp: logged_in_def map_filter_simps)
    next
      case (Some r)
      then obtain u where u: "deref_user us r = Some u"
        using Cons.prems True by (auto simp: bind_eq_Some_conv)
      then have "logins_loop us ks True (map (judged (vs @ filter (has_say us) [u])) sts) = Some (l, sels)"
        using Cons.prems True Some apply_station_ratings_judged by simp
      then show ?thesis
        using Cons.IH True Some u by (fastforce simp: logged_in_def map_filter_simps)
    qed
  qed
qed

lemma attribute_loop_judged:
  "attribute_loop us l listening (map (judged vs) sts) =
    (listening \<or> filter (\<lambda>u. have_privilege us (Some u) ATTRIBUTE_PRESENT) l \<noteq> [],
     map (judged (vs @ filter (has_say us) (filter (\<lambda>u. have_privilege us (Some u) ATTRIBUTE_PRESENT) l))) sts)"
  by (induction l arbitrary: listening vs) (simp_all add: apply_station_ratings_judged)

lemma gather_ratings_judged:
  assumes "gather_ratings app = Some (l, sels)"
  shows "l = someone_listening app \<and> sels = map (judged (mix_voters app)) (stations (ph app))"
proof -
  let ?m = "automatic_mode (settings app)"
  let ?sts = "stations (ph app)"
  let ?vs = "filter (has_say (users app)) (if ?m AND TUNE_ON_LOGINS \<noteq> 0
      then logged_in (users app) (fb_iterate (service app)) else [])"
  have start: "map (\<lambda>s. \<lparr>sel_station = s, pure_good = True, partial_good = False, bad = False, included = False\<rparr>) ?sts
      = map (judged []) ?sts"
    by (simp add: judged_def)
  define first where "first = (if ?m AND TUNE_ON_LOGINS \<noteq> 0 then tune_based_on_logins app (map (judged []) ?sts)
        else Some (False, map (judged []) ?sts))"
  define second where "second sels = (if ?m AND TUNE_ON_ATTRIBUTE \<noteq> 0
      then tune_based_on_attribute app sels else (False, sels))" for sels
  have "Option.bind first (\<lambda>(a, sels). case second sels of (b, sels) \<Rightarrow> Some (a \<or> b, sels)) = Some (l, sels)"
    using assms unfolding gather_ratings_def start first_def second_def Let_def by simp
  then obtain a sels1 where 1: "first = Some (a, sels1)" and 2: "l = (a \<or> fst (second sels1))" "sels = snd (second sels1)"
    by (auto simp: bind_eq_Some_conv split_beta)
  have a: "sels1 = map (judged ?vs) ?sts"
    "a = (?m AND TUNE_ON_LOGINS \<noteq> 0 \<and> (\<exists>k \<in> set (fb_iterate (service app)). conn_state k = OPEN))"
    using 1 logins_loop_judged [of "users app" "fb_iterate (service app)" False "[]" ?sts a sels1]
    by (auto simp: tune_based_on_logins_def first_def split: if_splits)
  show ?thesis
    using 2 unfolding a
    by (auto simp: second_def tune_based_on_attribute_def attribute_loop_judged mix_voters_def someone_listening_def present_def
        split: if_splits)
qed

text \<open>
  The documented preference: the stations every voter likes; else those somebody likes and nobody dislikes; else those
  nobody dislikes.
\<close>

definition liked_by_all :: "user list \<Rightarrow> station \<Rightarrow> bool" where
  "liked_by_all vs s \<longleftrightarrow> (\<forall>u \<in> set vs. get_station_rating u (st_id s) = RATING_GOOD)"

definition disliked :: "user list \<Rightarrow> station \<Rightarrow> bool" where
  "disliked vs s \<longleftrightarrow> (\<exists>u \<in> set vs. get_station_rating u (st_id s) = RATING_BAD)"

definition liked_and_tolerated :: "user list \<Rightarrow> station \<Rightarrow> bool" where
  "liked_and_tolerated vs s \<longleftrightarrow> (\<exists>u \<in> set vs. get_station_rating u (st_id s) = RATING_GOOD) \<and> \<not> disliked vs s"

definition autotune_choice :: "user list \<Rightarrow> station list \<Rightarrow> station \<Rightarrow> bool" where
  "autotune_choice vs sts =
    (if \<exists>s \<in> set sts. liked_by_all vs s then liked_by_all vs
     else if \<exists>s \<in> set sts. liked_and_tolerated vs s then liked_and_tolerated vs
     else (\<lambda>s. \<not> disliked vs s))"

lemma includes_judged:
  "algorithm_includes 1 (judged vs s) = liked_by_all vs s"
  "algorithm_includes 2 (judged vs s) = liked_and_tolerated vs s"
  "algorithm_includes 3 (judged vs s) = (\<not> disliked vs s)"
  by (simp_all add: algorithm_includes_def judged_def liked_by_all_def liked_and_tolerated_def disliked_def)

lemma includes_include [simp]: "algorithm_includes a (s\<lparr>included := x\<rparr>) = algorithm_includes a s"
  by (simp add: algorithm_includes_def)

lemma algorithm_loop_choice:
  assumes "algorithm_loop [1, 2, 3] False (map (judged vs) sts) = (a, had, sels)"
  shows "had = (\<exists>s \<in> set sts. autotune_choice vs sts s) \<and> map included sels = map (autotune_choice vs sts) sts"
  using assms by (auto simp: Let_def includes_judged [unfolded One_nat_def] includes_judged list_ex_iff autotune_choice_def comp_def split: if_splits)

lemma copy_selection_map:
  assumes "map included sels = map p sts"
  shows "copy_selection sts sels = (\<exists>s \<in> set sts. useQuickMix s \<noteq> p s, map (\<lambda>s. s\<lparr>useQuickMix := p s\<rparr>) sts)"
proof -
  have "length sels = length sts" using assms by (metis length_map)
  then show ?thesis
    using assms unfolding copy_selection_def
  proof (induction sels sts rule: list_induct2)
    case (Cons x xs y ys)
    then show ?case by (cases y) auto
  qed simp
qed

lemma install_selection_stations:
  assumes "install_selection w a sels app = Some app'" and "map included sels = map p (stations (ph app))"
  shows "computation_has_listeners app' = computation_has_listeners app
    \<and> computation_had_results app' = computation_had_results app
    \<and> stations (ph app') = (if computation_has_listeners app \<and> computation_had_results app
        then map (\<lambda>s. s\<lparr>useQuickMix := p s\<rparr>) (stations (ph app)) else stations (ph app))"
proof -
  note copy = copy_selection_map [OF assms(2)]
  let ?app2 = "on_stations (\<lambda>_. map (\<lambda>s. s\<lparr>useQuickMix := p s\<rparr>) (stations (ph app))) app"
  consider (none) "\<not> (computation_has_listeners app \<and> computation_had_results app)"
    | (same) "computation_has_listeners app" "computation_had_results app" "app' = ?app2"
    | (call) ok app3 req' where "computation_has_listeners app" "computation_had_results app"
      "piano_transaction w None SetQuickMix ?app2 = Some (ok, app3, req')"
      "app' = on_service (send_status Everyone (autotune_text a)) (on_service (send_response Everyone I_MIX_CHANGED) app3)"
    using assms(1) unfolding install_selection_def copy Let_def
    by (simp split: if_splits) (auto simp: bind_eq_Some_conv)
  then show ?thesis
  proof cases
    case none
    then show ?thesis using assms(1) by (auto simp: install_selection_def on_service_def split: if_splits)
  next
    case same
    then show ?thesis by (simp add: on_stations_def)
  next
    case call
    have "stations (ph app3) = stations (ph ?app2)"
      using piano_transaction_keeps_stations [OF call(3)] by simp
    moreover obtain h sv t n where "app3 = ?app2\<lparr>ph := h, service := sv, now := t, questions := n\<rparr>"
      by (rule piano_transaction_keepsE [OF call(3)])
    ultimately show ?thesis using call by (simp add: on_service_def on_stations_def)
  qed
qed

text \<open>
  C1: The autotuner plays what its comment promises: when somebody listens and some station is acceptable, the quick mix becomes
  exactly the stations everyone with a say likes, or if there are none those somebody likes and nobody dislikes, or if there are none those
  nobody dislikes; otherwise the mix stays as it is and the computation counts as the empty set, on which the run loop
  stops the music.
\<close>
theorem recompute_stations_choice:
  assumes "recompute_stations w app = Some app'" and "automatic_stations app" and "stations (ph app) \<noteq> []"
  shows "let choice = autotune_choice (mix_voters app) (stations (ph app)) in
    (if someone_listening app \<and> (\<exists>s \<in> set (stations (ph app)). choice s)
     then stations (ph app') = map (\<lambda>s. s\<lparr>useQuickMix := choice s\<rparr>) (stations (ph app))
       \<and> \<not> computed_stations_is_empty_set app'
     else stations (ph app') = stations (ph app) \<and> computed_stations_is_empty_set app')"
proof -
  let ?sts = "stations (ph app)"
  let ?choice = "autotune_choice (mix_voters app) ?sts"
  obtain l sels where g: "gather_ratings app = Some (l, sels)"
    using assms by (auto simp: recompute_stations_def bind_eq_Some_conv)
  have l: "l = someone_listening app" and sels: "sels = map (judged (mix_voters app)) ?sts"
    using gather_ratings_judged [OF g] by auto
  obtain a had chosen where alg: "algorithm_loop [1, 2, 3] (\<not> l) sels = (a, had, chosen)"
    by (metis prod_cases3)
  let ?app1 = "app\<lparr>computation_had_results := had, computation_has_listeners := l\<rparr>"
  have inst: "install_selection w a chosen ?app1 = Some app'"
    using assms g alg by (simp add: recompute_stations_def Let_def del: algorithm_loop.simps)
  show ?thesis
  proof (cases l)
    case False
    then have "stations (ph app') = ?sts" "\<not> computation_has_listeners app'"
      using inst by (auto simp: install_selection_def on_service_def)
    then show ?thesis using False l by (simp add: computed_stations_is_empty_set_def Let_def)
  next
    case True
    have had: "had = (\<exists>s \<in> set ?sts. ?choice s)" and chosen: "map included chosen = map ?choice ?sts"
      using algorithm_loop_choice alg True sels by auto
    show ?thesis
      using install_selection_stations [OF inst, of ?choice] chosen had l True
      by (simp add: computed_stations_is_empty_set_def Let_def)
  qed
qed

definition demo_fan :: user where
  "demo_fan = demo_user\<lparr>station_preferences :=
    Some \<lparr>capacity = 25, ratings = [\<lparr>rr_station = ''2'', rr_rating = RATING_GOOD\<rparr>]\<rparr>\<rparr>"

definition demo_auto :: appstate where
  "demo_auto = demo_app\<lparr>automatic_stations := True, users := demo_users1\<lparr>user_list := [demo_fan]\<rparr>,
    ph := demo_handle\<lparr>stations := [no_station\<lparr>st_name := ''Jazz'', st_id := ''1''\<rparr>,
      no_station\<lparr>st_name := ''Rock'', st_id := ''2'', useQuickMix := True\<rparr>]\<rparr>,
    service := \<lparr>conns = [demo_connection 5 (Some (UserNamed ''Joe'')) EVENT_NONE], out = []\<rparr>\<rparr>"

lemma demo_auto_voters: "mix_voters demo_auto = [demo_fan]" "someone_listening demo_auto"
  by (simp_all add: mix_voters_def someone_listening_def demo_auto_def demo_app_def demo_settings_def logged_in_def
      fb_iterate_def demo_connection_def less_conn_state_def map_filter_simps demo_fan_def demo_user_def
      has_say_def have_privilege_def initial_privileges_def demo_users1_def initial_users_def
      get_privilege_by_id_def privilege_table_def)

lemma demo_fan_ratings:
  "get_station_rating demo_fan ''1'' = RATING_NEUTRAL" "get_station_rating demo_fan ''2'' = RATING_GOOD"
  by (simp_all add: get_station_rating_def find_station_rating_def demo_fan_def bsearch.simps rating_comparator_def
      c_string) code_simp

theorem recompute_stations_choice_witness:
  "\<exists>app'. recompute_stations demo_world demo_auto = Some app' \<and> map useQuickMix (stations (ph app')) = [False, True]"
proof -
  let ?sts = "stations (ph demo_auto)"
  have sts: "?sts = [no_station\<lparr>st_name := ''Jazz'', st_id := ''1''\<rparr>,
      no_station\<lparr>st_name := ''Rock'', st_id := ''2'', useQuickMix := True\<rparr>]" and auto: "automatic_stations demo_auto"
    by (simp_all add: demo_auto_def)
  have choice: "map (autotune_choice (mix_voters demo_auto) ?sts) ?sts = [False, True]"
    by (simp add: sts demo_auto_voters autotune_choice_def liked_by_all_def demo_fan_ratings)
  obtain l sels where g: "gather_ratings demo_auto = Some (l, sels)"
    by (auto simp: gather_ratings_def demo_auto_def demo_app_def demo_settings_def tune_based_on_logins_def
      fb_iterate_def demo_connection_def less_conn_state_def demo_users1_def demo_fan_def demo_user_def)
  obtain a had chosen where alg: "algorithm_loop [1, 2, 3] (\<not> l) sels = (a, had, chosen)"
    by (metis prod_cases3)
  have "map included chosen = [False, True]" "l"
    using gather_ratings_judged [OF g] algorithm_loop_choice alg demo_auto_voters choice by auto
  then have "copy_selection ?sts chosen = (False, ?sts)"
    by (subst copy_selection_map [of chosen useQuickMix]) (simp_all add: sts no_station_def)
  then have "recompute_stations demo_world demo_auto \<noteq> None"
    using g alg sts auto by (auto simp: recompute_stations_def install_selection_def demo_auto_def simp del: algorithm_loop.simps)
  then obtain app' where 1: "recompute_stations demo_world demo_auto = Some app'" by auto
  have "?sts \<noteq> []" by (simp add: sts)
  then have "stations (ph app') = map (\<lambda>s. s\<lparr>useQuickMix := autotune_choice (mix_voters demo_auto) ?sts s\<rparr>) ?sts"
    using recompute_stations_choice [OF 1 auto] demo_auto_voters(2) choice by (auto simp: Let_def sts split: if_splits)
  then have "map useQuickMix (stations (ph app')) = map (autotune_choice (mix_voters demo_auto) ?sts) ?sts"
    by (simp add: comp_def)
  then show ?thesis using 1 choice by simp
qed

end
