(* ===== verification/UserFile.thy ===== *)
theory UserFile
  imports Autotune
begin

text \<open>
  The end of \<open>src/src/users.c\<close> and the persistence part of \<open>src/src/tuner.c\<close>: writing the users to an XML
  file, replacing the old file by the new one, and reading the users back.

  The XML parser (libezxml, vendored) is outside: an element is a datatype with the accessors the code uses.
  Lines of the log are left out.  The file system is a map from paths to contents; users_persist is the
  sequence of operations it performs.
\<close>

section \<open>XML elements\<close>

datatype xml = Xml (xml_tag: string) (xml_attrs: "(string \<times> string) list") (xml_children: "xml list")

definition ezxml_attr :: "xml \<Rightarrow> string \<Rightarrow> string option" where
  "ezxml_attr x a = map_of (xml_attrs x) a"

text \<open>ezxml_child and the chain of its \<open>next\<close> fields: the children with this name, in document order.\<close>

definition ezxml_all :: "xml \<Rightarrow> string \<Rightarrow> xml list" where
  "ezxml_all x t = filter (\<lambda>c. xml_tag c = t) (xml_children x)"

definition ezxml_child :: "xml \<Rightarrow> string \<Rightarrow> xml option" where
  "ezxml_child x t = (case ezxml_all x t of [] \<Rightarrow> None | c # _ \<Rightarrow> Some c)"

section \<open>Writing\<close>

definition apos :: string where
  "apos = [CHR 0x27]"

definition nl :: string where
  "nl = [CHR 0x0A]"

definition xml_escape_char :: "char \<Rightarrow> string" where
  "xml_escape_char c =
    (if c = CHR 0x27 then ''&apos;''
     else if c = CHR 0x22 then ''&quot;''
     else if c = CHR ''<'' then ''&lt;''
     else if c = CHR ''>'' then ''&gt;''
     else if c = CHR ''&'' then ''&amp;''
     else [c])"

definition xml_escape :: "string \<Rightarrow> string" where
  "xml_escape s = concat (map xml_escape_char s)"

text \<open>Literals and values alternate.\<close>

fun fprintxml :: "string list \<Rightarrow> string" where
  "fprintxml [] = []"
| "fprintxml [lit] = lit"
| "fprintxml (lit # val # rest) = lit @ xml_escape val @ fprintxml rest"

definition persisted_ratings :: "station_pref option \<Rightarrow> rating_record list" where
  "persisted_ratings pref = (case pref of None \<Rightarrow> []
    | Some p \<Rightarrow> filter (\<lambda>r. rr_rating r \<noteq> RATING_NEUTRAL) (ratings p))"

text \<open>The station id goes to the file as it is.\<close>

definition persist_station_preferences :: "user \<Rightarrow> string" where
  "persist_station_preferences u = (case persisted_ratings (station_preferences u) of
      [] \<Rightarrow> []
    | rs \<Rightarrow> ''    <stationpreferences>'' @ nl
        @ concat (map (\<lambda>r. ''      <station id='' @ apos @ rr_station r @ apos @ '' rating='' @ apos
            @ station_rating_name (rr_rating r) @ apos @ '' />'' @ nl) rs)
        @ ''    </stationpreferences>'' @ nl)"

definition write_credentials :: "credentials \<Rightarrow> string option" where
  "write_credentials creds = (case cred_username creds of
      None \<Rightarrow> Some []
    | Some n \<Rightarrow> do {
        p \<leftarrow> cred_password creds;
        Some (fprintxml [''    <pandora>'' @ nl @ ''      <user name='' @ apos, n,
          apos @ '' password='' @ apos, p,
          apos @ '' ownership='' @ apos, get_manager_rule_by_id (cred_rule creds),
          apos @ '' />'' @ nl @ ''    </pandora>'' @ nl])
      })"

definition write_privileges :: "user \<Rightarrow> string" where
  "write_privileges u = concat (map (\<lambda>p. fprintxml [''    <privilege name='' @ apos, priv_name p,
      apos @ '' granted='' @ apos, if privileges u (priv_index p) then ''true'' else ''false'',
      apos @ '' />'' @ nl]) (filter persistable privilege_table))"

definition write_user :: "user \<Rightarrow> string option" where
  "write_user u = do {
    c \<leftarrow> write_credentials (pandora_credentials u);
    Some (fprintxml [''  <user name='' @ apos, name u, apos @ '' password='' @ apos, user_password u,
        apos @ '' level='' @ apos, user_type_name (rank u), apos @ ''>'' @ nl]
      @ c @ write_privileges u @ persist_station_preferences u @ ''  </user>'' @ nl)
  }"

fun write_each :: "user list \<Rightarrow> string option" where
  "write_each [] = Some []"
| "write_each (u # rest) = do { s \<leftarrow> write_user u; t \<leftarrow> write_each rest; Some (s @ t) }"

definition xml_prolog :: string where
  "xml_prolog = ''<?xml version='' @ apos @ ''1.0'' @ apos @ '' encoding='' @ apos @ ''UTF-8'' @ apos @ ''?>'' @ nl"

definition write_users :: "users_state \<Rightarrow> string option" where
  "write_users us = do {
    body \<leftarrow> write_each (user_list us);
    Some (xml_prolog @ ''<pianodpasswd version='' @ apos @ ''1.0'' @ apos @ ''>'' @ nl @ body
      @ ''</pianodpasswd>'' @ nl)
  }"

section \<open>Replacing the file\<close>

datatype fs_op = Fopen string | Putc string char | Unlink string | Link string string | Rename string string

type_synonym fs = "string \<Rightarrow> string option"

fun fs_step :: "fs_op \<Rightarrow> fs \<Rightarrow> fs" where
  "fs_step (Fopen p) fs = fs(p := Some [])"
| "fs_step (Putc p c) fs = fs(p := map_option (\<lambda>s. s @ [c]) (fs p))"
| "fs_step (Unlink p) fs = fs(p := None)"
| "fs_step (Link p q) fs = fs(q := fs p)"
| "fs_step (Rename p q) fs = fs(q := fs p, p := None)"

definition fs_run :: "fs_op list \<Rightarrow> fs \<Rightarrow> fs" where
  "fs_run ops fs = fold fs_step ops fs"

section \<open>The stream that is written\<close>

text \<open>
  A stdio stream keeps what is put into it and hands it to the file when the buffer is full, and when it is closed.  What the disk does
  at each of these transfers is its answer: the number of characters it takes, and whether the stream keeps the others or drops them, which
  the C standard leaves open; without an answer it takes all.  A transfer that falls short sets the error indicator.
\<close>

record out_stream =
  on_disk :: string
  unsent :: string
  write_failed :: bool
  disk :: "(nat \<times> bool) list"

definition transfer :: "out_stream \<Rightarrow> out_stream" where
  "transfer f = (let (n, keep) = (case disk f of [] \<Rightarrow> (length (unsent f), False) | a # _ \<Rightarrow> a) in
    f\<lparr>on_disk := on_disk f @ take n (unsent f), unsent := (if keep then drop n (unsent f) else []),
      write_failed := (write_failed f \<or> n < length (unsent f)), disk := tl (disk f)\<rparr>)"

text \<open>\<open>bufsize\<close> is the size of the buffer; a stream without one has 0.\<close>

definition put_char :: "nat \<Rightarrow> char \<Rightarrow> out_stream \<Rightarrow> out_stream" where
  "put_char bufsize c f = (let f = f\<lparr>unsent := unsent f @ [c]\<rparr> in if length (unsent f) \<ge> bufsize then transfer f else f)"

definition put_text :: "nat \<Rightarrow> string \<Rightarrow> out_stream \<Rightarrow> out_stream" where
  "put_text bufsize t f = fold (put_char bufsize) t f"

text \<open>What is open, which other calls succeed, and how the disk answers.\<close>

record persist_env =
  new_opens :: bool
  links :: bool
  renames :: bool
  direct_opens :: bool
  bufsize :: nat
  transfers :: "(nat \<times> bool) list"

text \<open>The stream when \<open>ferror\<close> is asked, at the end of write_users, and after \<open>fclose\<close>, whose answer is not looked at.\<close>

definition written_stream :: "persist_env \<Rightarrow> string \<Rightarrow> out_stream" where
  "written_stream env body =
    put_text (bufsize env) body \<lparr>on_disk = [], unsent = [], write_failed = False, disk = transfers env\<rparr>"

definition closed_stream :: "persist_env \<Rightarrow> string \<Rightarrow> out_stream" where
  "closed_stream env body = transfer (written_stream env body)"

definition users_persist :: "persist_env \<Rightarrow> string \<Rightarrow> users_state \<Rightarrow> (bool \<times> users_state \<times> fs_op list) option" where
  "users_persist env filename us =
    (if \<not> dirty us then Some (True, us, [])
     else do {
       let newfile = filename @ ''-new'';
       let oldfile = filename @ ''-old'';
       body \<leftarrow> (if new_opens env \<or> direct_opens env then write_users us else Some []);
       let success = \<not> write_failed (written_stream env body);
       let stored = on_disk (closed_stream env body);
       Some (if new_opens env then
           (let written = Fopen newfile # map (Putc newfile) stored in
            if success then
              (renames env, us\<lparr>dirty := \<not> renames env\<rparr>,
               written @ [Unlink oldfile] @ (if links env then [Link filename oldfile] else [])
                 @ (if renames env then [Rename newfile filename] else []))
            else (False, us, written))
         else if direct_opens env then (success, us, Fopen filename # map (Putc filename) stored)
         else (False, us, []))
     })"

section \<open>Reading\<close>

text \<open>An unknown rating name fails the assertion; an element without id or rating is skipped.\<close>

fun recreate_station_preferences :: "user_ref \<Rightarrow> xml list \<Rightarrow> users_state \<Rightarrow> users_state option" where
  "recreate_station_preferences u [] us = Some us"
| "recreate_station_preferences u (x # rest) us = (case (ezxml_attr x ''id'', ezxml_attr x ''rating'') of
      (Some sid, Some rn) \<Rightarrow> do {
        r \<leftarrow> get_station_rating_by_name rn;
        us \<leftarrow> set_station_rating u sid r us;
        recreate_station_preferences u rest us
      }
    | _ \<Rightarrow> recreate_station_preferences u rest us)"

definition recreate_credentials :: "string \<Rightarrow> xml \<Rightarrow> credentials" where
  "recreate_credentials uname data = (case Option.bind (ezxml_child data ''pandora'') (\<lambda>p. ezxml_child p ''user'') of
      None \<Rightarrow> no_credentials
    | Some x \<Rightarrow> (case (ezxml_attr x ''name'', ezxml_attr x ''password'', ezxml_attr x ''ownership'') of
        (Some n, Some p, Some m) \<Rightarrow> (case get_manager_rule_by_name m of
            Some rule \<Rightarrow> no_credentials\<lparr>cred_rule := rule, cred_manager := Some (UserNamed uname),
              cred_username := Some n, cred_password := Some p\<rparr>
          | None \<Rightarrow> no_credentials)
      | _ \<Rightarrow> no_credentials))"

definition recreate_privilege :: "xml \<Rightarrow> (privilege \<Rightarrow> bool) \<Rightarrow> privilege \<Rightarrow> bool" where
  "recreate_privilege x privs = (case (ezxml_attr x ''name'', ezxml_attr x ''granted'') of
      (Some n, Some g) \<Rightarrow> (case get_privilege_by_name n of
          Some p \<Rightarrow> if persistable p then privs(priv_index p := (strcmp g ''true'' = 0)) else privs
        | None \<Rightarrow> privs)
    | _ \<Rightarrow> privs)"

definition recreate_user :: "xml \<Rightarrow> users_state \<Rightarrow> (bool \<times> users_state) option" where
  "recreate_user data us = (case (ezxml_attr data ''name'', ezxml_attr data ''password'', ezxml_attr data ''level'') of
      (Some n, Some p, Some l) \<Rightarrow> (case create_user n p us of
          (None, us) \<Rightarrow> Some (False, us)
        | (Some u, us) \<Rightarrow> do {
            r \<leftarrow> get_rank_by_name l;
            let us = update_user u (\<lambda>x. x\<lparr>rank := r, pandora_credentials := recreate_credentials n data,
              privileges := fold recreate_privilege (ezxml_all data ''privilege'') (privileges x)\<rparr>) us;
            us \<leftarrow> (case ezxml_child data ''stationpreferences'' of
                None \<Rightarrow> Some us
              | Some prefs \<Rightarrow> recreate_station_preferences u (ezxml_all prefs ''station'') us);
            Some (True, us)
          })
    | _ \<Rightarrow> Some (False, us))"

fun restore_each :: "xml list \<Rightarrow> users_state \<Rightarrow> users_state option" where
  "restore_each [] us = Some us"
| "restore_each (x # rest) us = do { (_, us) \<leftarrow> recreate_user x us; restore_each rest us }"

text \<open>\<open>data\<close> is what the parser makes of the file, \<open>None\<close> when it does not find one.\<close>

definition users_restore :: "(string \<Rightarrow> string \<Rightarrow> string) \<Rightarrow> nat \<times> nat \<Rightarrow> xml option \<Rightarrow> users_state \<Rightarrow>
    users_state option" where
  "users_restore crypt rnd data us = do {
    us \<leftarrow> (case data of None \<Rightarrow> Some us | Some x \<Rightarrow> restore_each (ezxml_all x ''user'') us);
    let us = (if user_list us = [] then (case create_new_user crypt rnd ''admin'' ''admin'' us of
        (Some u, us) \<Rightarrow> update_user u (rank_update (\<lambda>_. RANK_ADMINISTRATOR)) us
      | (None, us) \<Rightarrow> us) else us);
    Some (us\<lparr>dirty := False\<rparr>)
  }"

section \<open>A crash never loses the users\<close>

lemma fs_run_simps [simp]:
  "fs_run [] fs = fs" "fs_run (a # ops) fs = fs_run ops (fs_step a fs)"
  "fs_run (ops @ ops') fs = fs_run ops' (fs_run ops fs)"
  by (simp_all add: fs_run_def)

lemma fs_run_putc:
  "fs p = Some s \<Longrightarrow> fs_run (map (Putc p) cs) fs = fs(p := Some (s @ cs))"
proof (induction cs arbitrary: s fs)
  case (Cons c cs)
  have "fs_run (map (Putc p) cs) (fs(p := Some (s @ [c]))) = (fs(p := Some (s @ [c])))(p := Some ((s @ [c]) @ cs))"
    by (rule Cons.IH) simp
  moreover have "fs_step (Putc p c) fs = fs(p := Some (s @ [c]))" using Cons.prems by simp
  ultimately show ?case by (simp only: list.map fs_run_simps fun_upd_upd append_assoc append_Cons append_Nil)
qed auto

lemma fs_run_write: "fs_run (Fopen p # map (Putc p) cs) fs = fs(p := Some cs)"
  using fs_run_putc [of "fs(p := Some [])" p "[]" cs] by simp

definition untouched :: "string \<Rightarrow> fs_op \<Rightarrow> bool" where
  "untouched f a = (case a of Fopen p \<Rightarrow> p \<noteq> f | Putc p _ \<Rightarrow> p \<noteq> f | Unlink p \<Rightarrow> p \<noteq> f
    | Link _ q \<Rightarrow> q \<noteq> f | Rename p q \<Rightarrow> p \<noteq> f \<and> q \<noteq> f)"

lemma fs_run_untouched: "list_all (untouched f) ops \<Longrightarrow> fs_run ops fs f = fs f"
proof (induction ops arbitrary: fs)
  case (Cons a ops)
  then have "fs_step a fs f = fs f" by (cases a) (auto simp: untouched_def)
  then show ?case using Cons by simp
qed simp

text \<open>As long as no transfer falls short, nothing is lost.\<close>

lemma stream_transfer_keeps: "\<not> write_failed (transfer f) \<Longrightarrow> \<not> write_failed f \<and> on_disk (transfer f) = on_disk f @ unsent f \<and> unsent (transfer f) = []"
  by (auto simp: transfer_def Let_def split: list.splits prod.splits)

lemma transfer_prefix: "\<exists>u. on_disk f @ unsent f = on_disk (transfer f) @ u"
proof -
  obtain n keep where "(case disk f of [] \<Rightarrow> (length (unsent f), False) | a # _ \<Rightarrow> a) = (n, keep)" by fastforce
  then have "on_disk (transfer f) = on_disk f @ take n (unsent f)" by (simp add: transfer_def)
  then show ?thesis by (intro exI [of _ "drop n (unsent f)"]) simp
qed

lemma transfer_short: "write_failed (transfer f) \<Longrightarrow> \<not> write_failed f \<Longrightarrow> length (on_disk (transfer f)) < length (on_disk f @ unsent f)"
  by (auto simp: transfer_def Let_def split: list.splits prod.splits)

lemma put_char_keeps:
  "\<not> write_failed (put_char n c f) \<Longrightarrow> \<not> write_failed f \<and> on_disk (put_char n c f) @ unsent (put_char n c f) = on_disk f @ unsent f @ [c]"
  using stream_transfer_keeps [of "f\<lparr>unsent := unsent f @ [c]\<rparr>"] by (auto simp: put_char_def Let_def split: if_splits)

lemma put_text_keeps:
  "\<not> write_failed (put_text n t f) \<Longrightarrow> \<not> write_failed f \<and> on_disk (put_text n t f) @ unsent (put_text n t f) = on_disk f @ unsent f @ t"
proof (induction t arbitrary: f)
  case (Cons c t)
  then show ?case using put_char_keeps [of n c f] by (auto simp: put_text_def)
qed (simp add: put_text_def)

lemma written_stream_keeps:
  "\<not> write_failed (written_stream env body) \<Longrightarrow> on_disk (written_stream env body) @ unsent (written_stream env body) = body"
  using put_text_keeps [of "bufsize env" body "\<lparr>on_disk = [], unsent = [], write_failed = False, disk = transfers env\<rparr>"]
  by (simp add: written_stream_def)

text \<open>What the new file holds when it replaces the old one: all, or too little if the last transfer, that of \<open>fclose\<close>, falls short.\<close>

lemma closed_stream_holds:
  assumes "\<not> write_failed (written_stream env body)"
  shows "\<not> write_failed (closed_stream env body) \<Longrightarrow> on_disk (closed_stream env body) = body"
    and "write_failed (closed_stream env body) \<Longrightarrow> \<exists>k < length body. on_disk (closed_stream env body) = take k body"
proof -
  note all = written_stream_keeps [OF assms]
  show "\<not> write_failed (closed_stream env body) \<Longrightarrow> on_disk (closed_stream env body) = body"
    using stream_transfer_keeps all by (simp add: closed_stream_def)
  assume "write_failed (closed_stream env body)"
  then have "length (on_disk (closed_stream env body)) < length body"
    using transfer_short [OF _ assms] by (simp add: closed_stream_def all del: length_append)
  moreover obtain u where u: "body = on_disk (closed_stream env body) @ u"
    using transfer_prefix [of "written_stream env body"] by (auto simp: closed_stream_def all)
  have "on_disk (closed_stream env body) = take (length (on_disk (closed_stream env body))) body"
    by (subst (3) u) simp
  ultimately show "\<exists>k < length body. on_disk (closed_stream env body) = take k body" by blast
qed

text \<open>
  C5: Saving the users is safe against a crash and against a disk that refuses data while they are written: as long as the new file can
  be opened beside the old one, the user file holds, after any number of the operations (down to the single character transferred, and
  the disk seeing them in this order), either what it held before or what was stored of the new text, and the latter exactly when the
  call reports success; then the unsaved changes count as saved.  What was stored is the whole new text whenever the transfer at fclose
  does not fall short.  If it does, its failure goes unnoticed: the call still reports success, and a truncated text has replaced the old
  file.
\<close>
theorem users_persist_crash_safe:
  assumes "users_persist env filename us = Some (ok, us', ops)" and "dirty us" and "new_opens env"
  shows "\<exists>body stored. write_users us = Some body
    \<and> (\<forall>n. fs_run (take n ops) fs filename \<in> {fs filename, Some stored})
    \<and> (ok \<longrightarrow> fs_run ops fs filename = Some stored \<and> us' = us\<lparr>dirty := False\<rparr>)
    \<and> (ok \<longrightarrow> (if write_failed (closed_stream env body) then \<exists>k < length body. stored = take k body else stored = body))
    \<and> (\<not> ok \<longrightarrow> fs_run ops fs filename = fs filename \<and> dirty us')
    \<and> (ok = (\<not> write_failed (written_stream env body) \<and> renames env))"
proof -
  obtain body where body: "write_users us = Some body"
    using assms by (auto simp: users_persist_def bind_eq_Some_conv Let_def split: if_splits)
  define stored where "stored = on_disk (closed_stream env body)"
  define success where "success = (\<not> write_failed (written_stream env body))"
  let ?new = "filename @ ''-new''"
  let ?old = "filename @ ''-old''"
  let ?written = "Fopen ?new # map (Putc ?new) stored"
  define before where "before = ?written @ (if success then [Unlink ?old] @ (if links env then [Link filename ?old] else []) else [])"
  have ops: "ops = before @ (if success \<and> renames env then [Rename ?new filename] else [])"
    and result: "ok = (success \<and> renames env)" "us' = (if success then us\<lparr>dirty := \<not> renames env\<rparr> else us)"
    using assms body by (auto simp: users_persist_def before_def stored_def success_def Let_def split: if_splits)
  have quiet: "list_all (untouched filename) before"
    by (auto simp: before_def untouched_def list_all_iff)
  have new: "fs_run before fs ?new = Some stored"
  proof -
    have "list_all (untouched ?new) [Unlink ?old, Link filename ?old]" by (simp add: untouched_def)
    then show ?thesis
      using fs_run_untouched [of ?new] fs_run_write [of ?new stored fs]
      by (auto simp: before_def untouched_def)
  qed
  have prefix: "fs_run (take n ops) fs filename \<in> {fs filename, Some stored}" for n
  proof (cases "n \<le> length before")
    case True
    then have "take n ops = take n before" using ops by simp
    moreover have "list_all (untouched filename) (take n before)"
      using quiet by (auto simp: list_all_iff dest: in_set_takeD)
    ultimately show ?thesis using fs_run_untouched by simp
  next
    case False
    then have "take n ops = ops" using ops by (cases "success \<and> renames env") auto
    then show ?thesis
      using ops new fs_run_untouched [OF quiet, of fs] by (auto split: if_splits)
  qed
  have "fs_run ops fs filename = (if ok then Some stored else fs filename)"
    using ops new fs_run_untouched [OF quiet, of fs] result by (auto split: if_splits)
  moreover have "ok \<Longrightarrow> (if write_failed (closed_stream env body) then \<exists>k < length body. stored = take k body else stored = body)"
    using closed_stream_holds [of env body] result(1) by (simp add: success_def stored_def)
  ultimately show ?thesis
    by (intro exI [of "\<lambda>b. \<exists>s. Q b s" body for Q] exI [of _ stored])
      (use body prefix result assms(2) in \<open>simp add: success_def [symmetric] split: if_splits\<close>)
qed

definition full_disk :: persist_env where
  "full_disk = \<lparr>new_opens = True, links = False, renames = True, direct_opens = True, bufsize = 4096, transfers = [(10, True)]\<rparr>"

theorem users_persist_crash_safe_witness:
  "\<exists>ok us' ops body. users_persist full_disk ''passwd'' (initial_users\<lparr>user_list := [demo_user], dirty := True\<rparr>) = Some (ok, us', ops)
    \<and> write_users (initial_users\<lparr>user_list := [demo_user], dirty := True\<rparr>) = Some body
    \<and> (\<exists>stored. \<forall>n. fs_run (take n ops) (\<lambda>p. None) ''passwd'' \<in> {None, Some stored})"
proof -
  let ?us = "initial_users\<lparr>user_list := [demo_user], dirty := True\<rparr>"
  have "write_users ?us \<noteq> None"
    by (simp add: write_users_def write_user_def write_credentials_def demo_user_def no_credentials_def Let_def)
  then have "users_persist full_disk ''passwd'' ?us \<noteq> None" by (auto simp: users_persist_def full_disk_def Let_def)
  then obtain ok us' ops where 1: "users_persist full_disk ''passwd'' ?us = Some (ok, us', ops)" by auto
  have 2: "dirty ?us" "new_opens full_disk" by (simp_all add: full_disk_def)
  show ?thesis using users_persist_crash_safe [OF 1 2, of "\<lambda>p. None"] 1 by blast
qed

text \<open>A disk that becomes full when the file is closed: the call reports success, and the user file is cut off behind ten characters.\<close>

lemma put_text_fits: "length (unsent f @ t) < n \<Longrightarrow> put_text n t f = f\<lparr>unsent := unsent f @ t\<rparr>"
proof (induction t arbitrary: f)
  case (Cons c t)
  then show ?case using Cons.IH [of "f\<lparr>unsent := unsent f @ [c]\<rparr>"] by (simp add: put_text_def put_char_def)
qed (simp add: put_text_def)

lemma full_disk_truncates:
  assumes "write_users us = Some body" "dirty us" "10 < length body" "length body < 4096"
  shows "\<exists>us' ops. users_persist full_disk ''passwd'' us = Some (True, us', ops) \<and> fs_run ops fs ''passwd'' = Some (take 10 body)"
proof -
  have w: "written_stream full_disk body = \<lparr>on_disk = [], unsent = body, write_failed = False, disk = [(10, True)]\<rparr>"
    using assms(4) by (simp add: written_stream_def full_disk_def put_text_fits)
  then have c: "on_disk (closed_stream full_disk body) = take 10 body" by (simp add: closed_stream_def transfer_def)
  have env: "new_opens full_disk" "renames full_disk" "\<not> links full_disk" by (simp_all add: full_disk_def)
  show ?thesis
    using assms(1,2) fs_run_write [of "''passwd-new''" "take 10 body" fs]
    by (simp add: users_persist_def w c env Let_def)
qed

end
