(* ===== verification/UserFileProofs.thy ===== *)
theory UserFileProofs
  imports UserFile
begin

text \<open>
  The user file is read back as it was written: the text write_users produces is an XML document, by a grammar of
  the XML it needs, of the element \<open>users_tree\<close>, and restoring from that element gives the users back.
\<close>

section \<open>A grammar of XML documents\<close>

text \<open>\<open>denotes s v\<close>: between apostrophes, the text \<open>s\<close> is the attribute value \<open>v\<close>.\<close>

inductive denotes :: "string \<Rightarrow> string \<Rightarrow> bool" where
  denotes_Nil: "denotes [] []"
| denotes_plain: "\<lbrakk>c \<notin> {CHR 0x27, CHR ''<'', CHR ''&''}; 32 \<le> (of_char c :: nat); denotes s v\<rbrakk> \<Longrightarrow> denotes (c # s) (c # v)"
| denotes_apos: "denotes s v \<Longrightarrow> denotes (''&apos;'' @ s) (CHR 0x27 # v)"
| denotes_quot: "denotes s v \<Longrightarrow> denotes (''&quot;'' @ s) (CHR 0x22 # v)"
| denotes_lt: "denotes s v \<Longrightarrow> denotes (''&lt;'' @ s) (CHR ''<'' # v)"
| denotes_gt: "denotes s v \<Longrightarrow> denotes (''&gt;'' @ s) (CHR ''>'' # v)"
| denotes_amp: "denotes s v \<Longrightarrow> denotes (''&amp;'' @ s) (CHR ''&'' # v)"

definition blank :: "string \<Rightarrow> bool" where
  "blank s \<longleftrightarrow> set s \<subseteq> {CHR '' '', CHR 0x0A, CHR 0x09}"

inductive attrs_text :: "(string \<times> string) list \<Rightarrow> string \<Rightarrow> bool" where
  attrs_Nil: "attrs_text [] []"
| attrs_Cons: "\<lbrakk>denotes s v; attrs_text as t\<rbrakk> \<Longrightarrow> attrs_text ((k, v) # as) ('' '' @ k @ ''='' @ apos @ s @ apos @ t)"

inductive xml_elem :: "xml \<Rightarrow> string \<Rightarrow> bool" and xml_content :: "xml list \<Rightarrow> string \<Rightarrow> bool" where
  elem_empty: "attrs_text as t \<Longrightarrow> xml_elem (Xml tag as []) (''<'' @ tag @ t @ '' />'')"
| elem_content: "\<lbrakk>attrs_text as t; xml_content cs body\<rbrakk> \<Longrightarrow>
    xml_elem (Xml tag as cs) (''<'' @ tag @ t @ ''>'' @ body @ ''</'' @ tag @ ''>'')"
| content_Nil: "blank w \<Longrightarrow> xml_content [] w"
| content_Cons: "\<lbrakk>blank w; xml_elem c s; xml_content cs t\<rbrakk> \<Longrightarrow> xml_content (c # cs) (w @ s @ t)"

definition xml_document :: "xml \<Rightarrow> string \<Rightarrow> bool" where
  "xml_document x text \<longleftrightarrow> (\<exists>s w. text = xml_prolog @ s @ w \<and> xml_elem x s \<and> blank w)"

definition printable :: "string \<Rightarrow> bool" where
  "printable s \<longleftrightarrow> (\<forall>c \<in> set s. 32 \<le> (of_char c :: nat))"

lemma denotes_escape: "printable v \<Longrightarrow> denotes (xml_escape v) v"
proof (induction v)
  case Nil
  then show ?case by (simp add: xml_escape_def denotes_Nil)
next
  case (Cons c v)
  then have IH: "denotes (xml_escape v) v" and c: "32 \<le> (of_char c :: nat)" by (auto simp: printable_def)
  have "xml_escape (c # v) = xml_escape_char c @ xml_escape v" by (simp add: xml_escape_def)
  then show ?case
    using denotes_plain [OF _ c IH] denotes_apos [OF IH] denotes_quot [OF IH] denotes_lt [OF IH] denotes_gt [OF IH]
      denotes_amp [OF IH]
    by (auto simp: xml_escape_char_def)
qed

lemma denotes_plain_text: "\<lbrakk>printable s; set s \<inter> {CHR 0x27, CHR ''<'', CHR ''&''} = {}\<rbrakk> \<Longrightarrow> denotes s s"
  by (induction s) (auto simp: printable_def intro!: denotes.intros)

lemma blank_append: "blank (a @ b) \<longleftrightarrow> blank a \<and> blank b"
  by (auto simp: blank_def)

lemma content_blank:
  assumes "xml_content cs t" and "blank w"
  shows "xml_content cs (w @ t)"
  using assms(1)
proof cases
  case content_Nil
  then show ?thesis using assms(2) by (auto simp: blank_append intro: xml_elem_xml_content.content_Nil)
next
  case (content_Cons v c s cs' t')
  then have "xml_content (c # cs') ((w @ v) @ s @ t')"
    using assms(2) by (intro xml_elem_xml_content.content_Cons) (simp_all add: blank_append)
  then show ?thesis using content_Cons by simp
qed

lemma blank_nl [simp]: "blank nl"
  by (simp add: blank_def nl_def)

lemma content_line: "\<lbrakk>xml_elem c s; xml_content cs t; blank w\<rbrakk> \<Longrightarrow> xml_content (c # cs) (w @ s @ nl @ t)"
  by (rule content_Cons) (auto intro: content_blank)

lemma content_lines:
  assumes "\<And>x. x \<in> set xs \<Longrightarrow> xml_elem (tree x) (line x)" and "xml_content cs t" and "blank w"
  shows "xml_content (map tree xs @ cs) (concat (map (\<lambda>x. w @ line x @ nl) xs) @ t)"
  using assms by (induction xs) (auto intro: content_line)

section \<open>The tree of the users\<close>

definition credentials_tree :: "credentials \<Rightarrow> xml list" where
  "credentials_tree creds = (case cred_username creds of
      None \<Rightarrow> []
    | Some n \<Rightarrow> [Xml ''pandora'' [] [Xml ''user'' [(''name'', n), (''password'', the (cred_password creds)),
        (''ownership'', get_manager_rule_by_id (cred_rule creds))] []]])"

definition privilege_tree :: "user \<Rightarrow> privilege_info \<Rightarrow> xml" where
  "privilege_tree u p = Xml ''privilege'' [(''name'', priv_name p),
    (''granted'', if privileges u (priv_index p) then ''true'' else ''false'')] []"

definition rating_tree :: "rating_record \<Rightarrow> xml" where
  "rating_tree r = Xml ''station'' [(''id'', rr_station r), (''rating'', station_rating_name (rr_rating r))] []"

definition preferences_tree :: "user \<Rightarrow> xml list" where
  "preferences_tree u = (case persisted_ratings (station_preferences u) of
      [] \<Rightarrow> []
    | rs \<Rightarrow> [Xml ''stationpreferences'' [] (map rating_tree rs)])"

definition user_tree :: "user \<Rightarrow> xml" where
  "user_tree u = Xml ''user'' [(''name'', name u), (''password'', user_password u), (''level'', user_type_name (rank u))]
    (credentials_tree (pandora_credentials u) @ map (privilege_tree u) (filter persistable privilege_table)
      @ preferences_tree u)"

definition users_tree :: "users_state \<Rightarrow> xml" where
  "users_tree us = Xml ''pianodpasswd'' [(''version'', ''1.0'')] (map user_tree (user_list us))"

text \<open>
  What the file can hold: no control characters, and in station ids, which are not escaped, none of the
  three characters that end or change an attribute value.
\<close>

definition id_plain :: "string \<Rightarrow> bool" where
  "id_plain s \<longleftrightarrow> printable s \<and> set s \<inter> {CHR 0x27, CHR ''<'', CHR ''&''} = {}"

definition file_safe :: "user \<Rightarrow> bool" where
  "file_safe u \<longleftrightarrow> printable (name u) \<and> printable (user_password u)
    \<and> (\<forall>n. cred_username (pandora_credentials u) = Some n \<longrightarrow> printable n)
    \<and> (\<forall>p. cred_password (pandora_credentials u) = Some p \<longrightarrow> printable p)
    \<and> (\<forall>r \<in> set (persisted_ratings (station_preferences u)). id_plain (rr_station r))
    \<and> pref_wf (station_preferences u)"

section \<open>The text is a document of the tree\<close>

lemma printable_code: "printable s = list_all (\<lambda>c. 32 \<le> (of_char c :: nat)) s"
  by (simp add: printable_def list_all_iff)

lemma printable_names [simp]:
  "printable (user_type_name r)" "printable (get_manager_rule_by_id m)" "printable (station_rating_name q)"
  "p \<in> set privilege_table \<Longrightarrow> printable (priv_name p)" "printable ''true''" "printable ''false''" "printable ''1.0''"
  subgoal by (cases r) (simp_all add: user_type_name_def rankings_def printable_code)
  subgoal by (cases m) (simp_all add: get_manager_rule_by_id_def manager_rules_def printable_code)
  subgoal by (cases q) (simp_all add: printable_code)
  subgoal by (auto simp: privilege_table_def printable_code)
  by (simp_all add: printable_code)

lemma attrs_escape:
  "\<lbrakk>printable v; attrs_text as t\<rbrakk> \<Longrightarrow> attrs_text ((k, v) # as) ('' '' @ k @ ''='' @ apos @ xml_escape v @ apos @ t)"
  by (intro attrs_Cons denotes_escape)

lemma attrs3:
  assumes "printable v1" "printable v2" "printable v3"
  shows "attrs_text [(k1, v1), (k2, v2), (k3, v3)] ('' '' @ k1 @ ''='' @ apos @ xml_escape v1 @ apos @ '' '' @ k2 @ ''=''
    @ apos @ xml_escape v2 @ apos @ '' '' @ k3 @ ''='' @ apos @ xml_escape v3 @ apos)"
  using attrs_escape [OF assms(1) attrs_escape [OF assms(2) attrs_escape [OF assms(3) attrs_Nil]], of k1 k2 k3] by simp

lemma elem_attrs3:
  assumes "printable v1" "printable v2" "printable v3"
  shows "xml_elem (Xml tag [(k1, v1), (k2, v2), (k3, v3)] []) (''<'' @ tag @ '' '' @ k1 @ ''='' @ apos @ xml_escape v1
    @ apos @ '' '' @ k2 @ ''='' @ apos @ xml_escape v2 @ apos @ '' '' @ k3 @ ''='' @ apos @ xml_escape v3 @ apos @ '' />'')"
  using elem_empty [OF attrs3 [OF assms], of tag k1 k2 k3] by simp

lemma elem_attrs2:
  assumes "denotes s1 v1" "denotes s2 v2"
  shows "xml_elem (Xml tag [(k1, v1), (k2, v2)] []) (''<'' @ tag @ '' '' @ k1 @ ''='' @ apos @ s1 @ apos
    @ '' '' @ k2 @ ''='' @ apos @ s2 @ apos @ '' />'')"
  using elem_empty [OF attrs_Cons [OF assms(1) attrs_Cons [OF assms(2) attrs_Nil]], of tag k1 k2] by simp

lemma elem_plain: "xml_content cs body \<Longrightarrow> xml_elem (Xml tag [] cs) (''<'' @ tag @ ''>'' @ body @ ''</'' @ tag @ ''>'')"
  using elem_content [OF attrs_Nil, of cs body tag] by simp

definition indent :: "nat \<Rightarrow> string" where
  "indent n = replicate n (CHR '' '')"

lemma blank_indent [simp]: "blank (indent n)"
  by (auto simp: blank_def indent_def)

lemma content_credentials:
  assumes "write_credentials creds = Some c" and "\<forall>n. cred_username creds = Some n \<longrightarrow> printable n"
    and "\<forall>p. cred_password creds = Some p \<longrightarrow> printable p" and "xml_content cs t"
  shows "xml_content (credentials_tree creds @ cs) (c @ t)"
proof (cases "cred_username creds")
  case None
  then show ?thesis using assms by (simp add: write_credentials_def credentials_tree_def)
next
  case (Some n)
  then obtain p where p: "cred_password creds = Some p" using assms(1)
    by (cases "cred_password creds") (auto simp: write_credentials_def)
  let ?rule = "get_manager_rule_by_id (cred_rule creds)"
  have inner: "xml_content [Xml ''user'' [(''name'', n), (''password'', p), (''ownership'', ?rule)] []] (nl @ indent 6
      @ (''<'' @ ''user'' @ '' '' @ ''name'' @ ''='' @ apos @ xml_escape n @ apos @ '' '' @ ''password'' @ ''='' @ apos
        @ xml_escape p @ apos @ '' '' @ ''ownership'' @ ''='' @ apos @ xml_escape ?rule @ apos @ '' />'') @ nl @ indent 4)"
    using assms(2,3) Some p by (intro content_blank content_line elem_attrs3 content_Nil) auto
  have tree: "credentials_tree creds @ cs = Xml ''pandora'' [] [Xml ''user'' [(''name'', n), (''password'', p),
      (''ownership'', ?rule)] []] # cs"
    using Some p by (simp add: credentials_tree_def)
  have "xml_content (credentials_tree creds @ cs) (indent 4 @ (''<'' @ ''pandora'' @ ''>'' @ (nl @ indent 6
      @ (''<'' @ ''user'' @ '' '' @ ''name'' @ ''='' @ apos @ xml_escape n @ apos @ '' '' @ ''password'' @ ''='' @ apos
        @ xml_escape p @ apos @ '' '' @ ''ownership'' @ ''='' @ apos @ xml_escape ?rule @ apos @ '' />'') @ nl @ indent 4)
      @ ''</'' @ ''pandora'' @ ''>'') @ nl @ t)"
    unfolding tree by (rule content_line [OF elem_plain [OF inner] assms(4) blank_indent])
  moreover have "c = fprintxml [''    <pandora>'' @ nl @ ''      <user name='' @ apos, n,
          apos @ '' password='' @ apos, p, apos @ '' ownership='' @ apos, ?rule,
          apos @ '' />'' @ nl @ ''    </pandora>'' @ nl]"
    using assms(1) Some p by (simp add: write_credentials_def)
  ultimately show ?thesis by (simp add: indent_def numeral_eq_Suc)
qed

lemma content_privileges:
  assumes "xml_content cs t"
  shows "xml_content (map (privilege_tree u) (filter persistable privilege_table) @ cs) (write_privileges u @ t)"
proof -
  let ?granted = "\<lambda>p. if privileges u (priv_index p) then ''true'' else ''false''"
  let ?line = "\<lambda>p. ''<'' @ ''privilege'' @ '' '' @ ''name'' @ ''='' @ apos @ xml_escape (priv_name p) @ apos
    @ '' '' @ ''granted'' @ ''='' @ apos @ xml_escape (?granted p) @ apos @ '' />''"
  have lines: "xml_elem (privilege_tree u p) (?line p)" if "p \<in> set (filter persistable privilege_table)" for p
    unfolding privilege_tree_def using that by (intro elem_attrs2 denotes_escape) auto
  have "write_privileges u = concat (map (\<lambda>p. indent 4 @ ?line p @ nl) (filter persistable privilege_table))"
    unfolding write_privileges_def by (simp add: indent_def numeral_eq_Suc cong: map_cong)
  then show ?thesis using content_lines [OF lines assms blank_indent] by (simp only:)
qed

lemma content_preferences:
  assumes "\<forall>r \<in> set (persisted_ratings (station_preferences u)). id_plain (rr_station r)" and "xml_content cs t"
  shows "xml_content (preferences_tree u @ cs) (persist_station_preferences u @ t)"
proof (cases "persisted_ratings (station_preferences u)")
  case Nil
  then show ?thesis using assms(2) by (simp add: preferences_tree_def persist_station_preferences_def)
next
  case (Cons r rs)
  let ?rs = "persisted_ratings (station_preferences u)"
  let ?line = "\<lambda>r. ''<'' @ ''station'' @ '' '' @ ''id'' @ ''='' @ apos @ rr_station r @ apos
    @ '' '' @ ''rating'' @ ''='' @ apos @ station_rating_name (rr_rating r) @ apos @ '' />''"
  have name_ok: "denotes (station_rating_name q) (station_rating_name q)" for q
    by (cases q) (auto intro!: denotes_plain_text simp: printable_code)
  have "xml_elem (rating_tree r) (?line r)" if "r \<in> set ?rs" for r
    unfolding rating_tree_def using that assms(1) name_ok
    by (intro elem_attrs2) (auto simp: id_plain_def intro: denotes_plain_text)
  then have "xml_content (map rating_tree ?rs @ []) (concat (map (\<lambda>r. indent 6 @ ?line r @ nl) ?rs) @ indent 4)"
    by (intro content_lines content_Nil) auto
  then have inner: "xml_content (map rating_tree ?rs) (nl @ concat (map (\<lambda>r. indent 6 @ ?line r @ nl) ?rs) @ indent 4)"
    by (simp add: content_blank)
  have tree: "preferences_tree u @ cs = Xml ''stationpreferences'' [] (map rating_tree ?rs) # cs"
    using Cons by (simp add: preferences_tree_def)
  have "xml_content (preferences_tree u @ cs) (indent 4 @ (''<'' @ ''stationpreferences'' @ ''>''
      @ (nl @ concat (map (\<lambda>r. indent 6 @ ?line r @ nl) ?rs) @ indent 4) @ ''</'' @ ''stationpreferences'' @ ''>'') @ nl @ t)"
    unfolding tree by (rule content_line [OF elem_plain [OF inner] assms(2) blank_indent])
  moreover have "persist_station_preferences u = ''    <stationpreferences>'' @ nl
      @ concat (map (\<lambda>r. indent 6 @ ?line r @ nl) ?rs) @ ''    </stationpreferences>'' @ nl"
    unfolding persist_station_preferences_def using Cons by (simp add: indent_def numeral_eq_Suc cong: map_cong)
  ultimately show ?thesis by (simp add: indent_def numeral_eq_Suc)
qed

lemma elem_user:
  assumes "write_user u = Some s" and "file_safe u"
  shows "\<exists>e. s = indent 2 @ e @ nl \<and> xml_elem (user_tree u) e"
proof -
  obtain c where c: "write_credentials (pandora_credentials u) = Some c"
    using assms(1) by (cases "write_credentials (pandora_credentials u)") (auto simp: write_user_def)
  have "xml_content (credentials_tree (pandora_credentials u) @ map (privilege_tree u) (filter persistable privilege_table)
      @ preferences_tree u @ []) (c @ write_privileges u @ persist_station_preferences u @ indent 2)"
    using assms(2) by (intro content_credentials [OF c] content_privileges content_preferences content_Nil)
      (auto simp: file_safe_def)
  then have inner: "xml_content (credentials_tree (pandora_credentials u) @ map (privilege_tree u) (filter persistable
      privilege_table) @ preferences_tree u) (nl @ c @ write_privileges u @ persist_station_preferences u @ indent 2)"
    by (simp add: content_blank)
  let ?attrs = "'' '' @ ''name'' @ ''='' @ apos @ xml_escape (name u) @ apos @ '' '' @ ''password'' @ ''='' @ apos
    @ xml_escape (user_password u) @ apos @ '' '' @ ''level'' @ ''='' @ apos @ xml_escape (user_type_name (rank u)) @ apos"
  have attrs: "attrs_text [(''name'', name u), (''password'', user_password u), (''level'', user_type_name (rank u))] ?attrs"
    using assms(2) by (intro attrs3) (auto simp: file_safe_def)
  let ?e = "''<'' @ ''user'' @ ?attrs @ ''>'' @ (nl @ c @ write_privileges u @ persist_station_preferences u @ indent 2)
    @ ''</'' @ ''user'' @ ''>''"
  have "xml_elem (user_tree u) ?e"
    unfolding user_tree_def by (rule elem_content [OF attrs inner])
  moreover have "s = indent 2 @ ?e @ nl"
    using assms(1) c by (simp add: write_user_def indent_def numeral_eq_Suc)
  ultimately show ?thesis by blast
qed

lemma content_users:
  assumes "write_each l = Some body" and "\<forall>u \<in> set l. file_safe u"
  shows "xml_content (map user_tree l) body"
  using assms
proof (induction l arbitrary: body)
  case Nil
  then show ?case by (simp add: content_Nil blank_def)
next
  case (Cons u l)
  obtain s t where s: "write_user u = Some s" and t: "write_each l = Some t" and body: "body = s @ t"
    using Cons.prems(1) by (cases "write_user u"; cases "write_each l") auto
  obtain e where e: "s = indent 2 @ e @ nl" "xml_elem (user_tree u) e"
    using elem_user [OF s] Cons.prems(2) by auto
  have "xml_content (user_tree u # map user_tree l) (indent 2 @ e @ nl @ t)"
    using Cons.IH [OF t] Cons.prems(2) e by (intro content_line) auto
  then show ?case using body e by simp
qed

lemma write_users_document:
  assumes "write_users us = Some body" and "\<forall>u \<in> set (user_list us). file_safe u"
  shows "xml_document (users_tree us) body"
proof -
  obtain t where t: "write_each (user_list us) = Some t"
    using assms(1) by (cases "write_each (user_list us)") (auto simp: write_users_def)
  have inner: "xml_content (map user_tree (user_list us)) (nl @ t)"
    by (intro content_blank content_users [OF t] assms(2)) simp
  have attrs: "attrs_text [(''version'', ''1.0'')] ('' '' @ ''version'' @ ''='' @ apos @ ''1.0'' @ apos @ [])"
    by (intro attrs_Cons attrs_Nil denotes_plain_text) (auto simp: printable_code)
  let ?e = "''<'' @ ''pianodpasswd'' @ ('' '' @ ''version'' @ ''='' @ apos @ ''1.0'' @ apos @ []) @ ''>'' @ (nl @ t)
    @ ''</'' @ ''pianodpasswd'' @ ''>''"
  have "xml_elem (users_tree us) ?e"
    unfolding users_tree_def by (rule elem_content [OF attrs inner])
  moreover have "body = xml_prolog @ ?e @ nl"
    using assms(1) t by (simp add: write_users_def)
  ultimately show ?thesis unfolding xml_document_def using blank_nl by blast
qed

section \<open>Restoring gives the users back\<close>

text \<open>
  What a user is after a restart: the owner privilege, which is not persisted, is back at its initial value, the user is the
  manager of the remembered credentials, and ratings that were reset to neutral are gone.
\<close>

definition restored_prefs :: "rating_record list \<Rightarrow> station_pref option" where
  "restored_prefs rs = fold (\<lambda>r. update_rating (rr_station r) (rr_rating r)) rs None"

definition restored_credentials :: "user \<Rightarrow> credentials" where
  "restored_credentials u = (case cred_username (pandora_credentials u) of
      None \<Rightarrow> no_credentials
    | Some n \<Rightarrow> no_credentials\<lparr>cred_rule := cred_rule (pandora_credentials u), cred_manager := Some (UserNamed (name u)),
        cred_username := Some n, cred_password := cred_password (pandora_credentials u)\<rparr>)"

definition restored_user :: "user \<Rightarrow> user" where
  "restored_user u = \<lparr>name = name u, user_password = user_password u, rank = rank u,
    privileges = (\<lambda>p. if persistable (get_privilege_by_id p) then privileges u p else initial_privileges p),
    pandora_credentials = restored_credentials u,
    station_preferences = restored_prefs (persisted_ratings (station_preferences u))\<rparr>"

lemma ezxml_user_tree:
  "ezxml_attr (user_tree u) ''name'' = Some (name u)"
  "ezxml_attr (user_tree u) ''password'' = Some (user_password u)"
  "ezxml_attr (user_tree u) ''level'' = Some (user_type_name (rank u))"
  by (simp_all add: ezxml_attr_def user_tree_def)

lemma ezxml_credentials: 
  assumes "write_credentials (pandora_credentials u) = Some c"
  shows "recreate_credentials (name u) (user_tree u) = restored_credentials u"
proof (cases "cred_username (pandora_credentials u)")
  case None
  have "filter (\<lambda>c. xml_tag c = ''pandora'') (preferences_tree u) = []"
    by (simp add: preferences_tree_def split: list.split)
  then have "ezxml_child (user_tree u) ''pandora'' = None"
    using None by (simp add: ezxml_child_def ezxml_all_def user_tree_def credentials_tree_def privilege_tree_def
        filter_empty_conv)
  then show ?thesis using None by (simp add: recreate_credentials_def restored_credentials_def)
next
  case (Some n)
  then obtain p where "cred_password (pandora_credentials u) = Some p" using assms
    by (cases "cred_password (pandora_credentials u)") (auto simp: write_credentials_def)
  then show ?thesis using Some
    by (simp add: recreate_credentials_def ezxml_child_def ezxml_all_def user_tree_def credentials_tree_def
        ezxml_attr_def manager_rule_inverse restored_credentials_def)
qed

lemma ezxml_privileges:
  "ezxml_all (user_tree u) ''privilege'' = map (privilege_tree u) (filter persistable privilege_table)"
proof -
  have "filter (\<lambda>c. xml_tag c = ''privilege'') (credentials_tree c) = []" for c
    by (simp add: credentials_tree_def split: option.split)
  moreover have "filter (\<lambda>c. xml_tag c = ''privilege'') (preferences_tree u) = []"
    by (simp add: preferences_tree_def split: list.split)
  ultimately show ?thesis
    by (simp add: ezxml_all_def user_tree_def privilege_tree_def filter_id_conv)
qed

lemma recreate_privileges:
  "fold recreate_privilege (map (privilege_tree u) (filter persistable privilege_table)) initial_privileges =
    (\<lambda>p. if persistable (get_privilege_by_id p) then privileges u p else initial_privileges p)"
proof
  fix p
  show "fold recreate_privilege (map (privilege_tree u) (filter persistable privilege_table)) initial_privileges p =
    (if persistable (get_privilege_by_id p) then privileges u p else initial_privileges p)"
    by (cases p) (simp_all add: privilege_table_def recreate_privilege_def privilege_tree_def ezxml_attr_def
        get_privilege_by_name_def get_privilege_by_id_def strcasecmp_eq_0 to_lower_def strcmp_eq_0)
qed

lemma rating_name_inverse: "get_station_rating_by_name (station_rating_name r) = Some r"
  by (cases r) (simp_all add: get_station_rating_by_name_def strcasecmp_eq_0 to_lower_def)

lemma update_head:
  "name x \<notin> name ` set l \<Longrightarrow> map (\<lambda>u. if name u = name x then f u else u) (x # l) = f x # l"
  by simp (rule map_idI, metis imageI)

lemma set_station_rating_head:
  assumes "user_list us = x # l" and "name x \<notin> name ` set l"
  shows "\<exists>us'. set_station_rating (UserNamed (name x)) sid q us = Some us'
    \<and> user_list us' = x\<lparr>station_preferences := update_rating sid q (station_preferences x)\<rparr> # l"
  using assms update_head [OF assms(2)]
  by (auto simp: set_station_rating_def set_station_preferences_def update_rating_def split: option.split)

lemma recreate_preferences:
  assumes "user_list us = x # l" and "name x \<notin> name ` set l"
  shows "\<exists>us'. recreate_station_preferences (UserNamed (name x)) (map rating_tree rs) us = Some us'
    \<and> user_list us' = x\<lparr>station_preferences :=
        fold (\<lambda>r. update_rating (rr_station r) (rr_rating r)) rs (station_preferences x)\<rparr> # l"
  using assms
proof (induction rs arbitrary: us x)
  case Nil
  then show ?case by simp
next
  case (Cons r rs)
  let ?x = "x\<lparr>station_preferences := update_rating (rr_station r) (rr_rating r) (station_preferences x)\<rparr>"
  obtain us1 where 1: "set_station_rating (UserNamed (name x)) (rr_station r) (rr_rating r) us = Some us1"
    and 2: "user_list us1 = ?x # l"
    using set_station_rating_head [OF Cons.prems] by blast
  have "name ?x \<notin> name ` set l" using Cons.prems(2) by simp
  from Cons.IH [OF 2 this] show ?case
    using 1 by (auto simp: rating_tree_def ezxml_attr_def rating_name_inverse)
qed

lemma ezxml_preferences:
  "ezxml_child (user_tree u) ''stationpreferences'' = (case persisted_ratings (station_preferences u) of
      [] \<Rightarrow> None | rs \<Rightarrow> Some (Xml ''stationpreferences'' [] (map rating_tree rs)))"
proof -
  have "filter (\<lambda>c. xml_tag c = ''stationpreferences'') (credentials_tree c) = []" for c
    by (simp add: credentials_tree_def split: option.split)
  then show ?thesis
    by (simp add: ezxml_child_def ezxml_all_def user_tree_def privilege_tree_def preferences_tree_def
        filter_empty_conv split: list.split)
qed

lemma recreate_child_preferences:
  "(case ezxml_child (user_tree u) ''stationpreferences'' of None \<Rightarrow> Some us
      | Some prefs \<Rightarrow> recreate_station_preferences r (ezxml_all prefs ''station'') us) =
    recreate_station_preferences r (map rating_tree (persisted_ratings (station_preferences u))) us"
proof -
  have all: "ezxml_all (Xml ''stationpreferences'' [] (map rating_tree rs)) ''station'' = map rating_tree rs" for rs
    by (simp add: ezxml_all_def rating_tree_def filter_id_conv)
  show ?thesis
    using all by (cases "persisted_ratings (station_preferences u)")
      (simp_all only: ezxml_preferences list.case option.case list.map(1) recreate_station_preferences.simps(1))
qed

lemma recreate_user_tree:
  assumes "name u \<notin> name ` set (user_list us)" and "find_user us (name u) = None"
    and "write_credentials (pandora_credentials u) = Some c"
  shows "\<exists>us'. recreate_user (user_tree u) us = Some (True, us') \<and> user_list us' = restored_user u # user_list us"
proof -
  let ?x0 = "\<lparr>name = name u, user_password = user_password u, rank = RANK_NONE, privileges = initial_privileges,
         pandora_credentials = no_credentials, station_preferences = None\<rparr>"
  let ?us0 = "us\<lparr>user_list := ?x0 # user_list us, dirty := True\<rparr>"
  let ?f = "\<lambda>x. x\<lparr>rank := rank u, pandora_credentials := recreate_credentials (name u) (user_tree u),
    privileges := fold recreate_privilege (ezxml_all (user_tree u) ''privilege'') (privileges x)\<rparr>"
  let ?us1 = "update_user (UserNamed (name u)) ?f ?us0"
  have create: "create_user (name u) (user_password u) us = (Some (UserNamed (name u)), ?us0)"
    using assms(2) by (simp add: create_user_def)
  let ?x1 = "(restored_user u)\<lparr>station_preferences := None\<rparr>"
  have "?f ?x0 = ?x1"
    by (simp add: restored_user_def ezxml_credentials [OF assms(3)] ezxml_privileges recreate_privileges)
  moreover have "user_list ?us1 = ?f ?x0 # user_list us"
    using update_head [of ?x0 "user_list us" ?f] assms(1) by simp
  ultimately have list1: "user_list ?us1 = ?x1 # user_list us" by simp
  have "name ?x1 = name u" by (simp add: restored_user_def)
  then obtain us2 where us2: "recreate_station_preferences (UserNamed (name u))
      (map rating_tree (persisted_ratings (station_preferences u))) ?us1 = Some us2"
    "user_list us2 = restored_user u # user_list us"
    using recreate_preferences [OF list1, of "persisted_ratings (station_preferences u)"] assms(1)
    by (auto simp: restored_user_def restored_prefs_def)
  then have "recreate_user (user_tree u) us = Some (True, us2)"
    by (simp add: recreate_user_def ezxml_user_tree create user_type_name_inverse recreate_child_preferences
        Let_def del: update_user.simps)
  then show ?thesis using us2 by blast
qed

lemma restore_each_users:
  assumes "distinct (map (fold_case \<circ> name) (rev l @ user_list us))"
    and "\<forall>u \<in> set l. write_credentials (pandora_credentials u) \<noteq> None"
  shows "\<exists>us'. restore_each (map user_tree l) us = Some us' \<and> user_list us' = rev (map restored_user l) @ user_list us"
  using assms
proof (induction l arbitrary: us)
  case Nil
  then show ?case by simp
next
  case (Cons u l)
  have "fold_case (name u) \<notin> fold_case ` name ` set (user_list us)"
    using Cons.prems(1) by (auto simp: comp_def)
  then have absent: "name u \<notin> name ` set (user_list us)" "find_user us (name u) = None"
    by (auto simp: find_user_None)
  obtain c where c: "write_credentials (pandora_credentials u) = Some c" using Cons.prems(2) by auto
  obtain us1 where 1: "recreate_user (user_tree u) us = Some (True, us1)" "user_list us1 = restored_user u # user_list us"
    using recreate_user_tree [OF absent c] by blast
  have "fold_case (name (restored_user u)) = fold_case (name u)" by (simp add: restored_user_def)
  then have d: "distinct (map (fold_case \<circ> name) (rev l @ user_list us1))"
    using Cons.prems(1) 1(2) by (auto simp: comp_def)
  have "\<forall>u \<in> set l. write_credentials (pandora_credentials u) \<noteq> None" using Cons.prems(2) by simp
  from Cons.IH [OF d this] show ?case using 1 by auto
qed

lemma write_each_credentials: "write_each l = Some body \<Longrightarrow> u \<in> set l \<Longrightarrow> write_credentials (pandora_credentials u) \<noteq> None"
  by (induction l arbitrary: body) (auto simp: write_user_def bind_eq_Some_conv)

lemma lookup_rating_None [simp]: "lookup_rating None sid = RATING_NEUTRAL"
  by (simp add: lookup_rating_def)

lemma drop_neutral:
  assumes "distinct (map rr_station l)"
  shows "(case map_of (map (\<lambda>r. (rr_station r, rr_rating r)) (filter (\<lambda>r. rr_rating r \<noteq> RATING_NEUTRAL) l)) sid of
      Some r \<Rightarrow> r | None \<Rightarrow> RATING_NEUTRAL) =
    (case map_of (map (\<lambda>r. (rr_station r, rr_rating r)) l) sid of Some r \<Rightarrow> r | None \<Rightarrow> RATING_NEUTRAL)"
  using assms
proof (induction l)
  case (Cons a l)
  have "map_of (map (\<lambda>r. (rr_station r, rr_rating r)) (filter (\<lambda>r. rr_rating r \<noteq> RATING_NEUTRAL) l)) (rr_station a) = None"
    using Cons.prems by (force simp: map_of_eq_None_iff)
  then show ?case using Cons by auto
qed simp

lemma lookup_restored:
  assumes "pref_wf pref"
  shows "lookup_rating (restored_prefs (persisted_ratings pref)) sid = lookup_rating pref sid"
proof (cases pref)
  case None
  then show ?thesis by (simp add: persisted_ratings_def restored_prefs_def)
next
  case (Some p)
  let ?pairs = "map (\<lambda>r. (rr_station r, rr_rating r)) (persisted_ratings pref)"
  have fold_updates: "fold (\<lambda>r. update_rating (rr_station r) (rr_rating r)) l s =
      rating_store.updates (map (\<lambda>r. (rr_station r, rr_rating r)) l) s" for l s
    by (induction l arbitrary: s) (simp_all add: rating_store.updates_def)
  have sorted: "distinct (map rr_station (ratings p))"
    using assms Some sorted_distinct_stations by (simp add: pref_wf_def)
  then have "distinct (map fst ?pairs)"
    using Some by (simp add: persisted_ratings_def comp_def distinct_map_filter)
  then have "map_of (rev ?pairs) = map_of ?pairs"
    by (subst map_of_inject_set) (simp_all add: rev_map [symmetric])
  then have "lookup_rating (restored_prefs (persisted_ratings pref)) sid =
      (case map_of ?pairs sid of Some r \<Rightarrow> r | None \<Rightarrow> RATING_NEUTRAL)"
    unfolding restored_prefs_def fold_updates using rating_store.updates_last [of None ?pairs sid]
    by (simp add: pref_wf_def split: option.splits)
  then show ?thesis
    using drop_neutral [OF sorted] lookup_rating_map [OF assms] Some
    by (simp add: persisted_ratings_def rating_assoc_def)
qed

text \<open>
  From the element that the file stands for users_restore rebuilds
  every user with the name, password, rank, persistable privileges and remembered credentials it had,
  and with the same rating for every station.
\<close>
lemma users_tree_restored:
  assumes "write_users us = Some body" and "unique_users us" and "\<forall>u \<in> set (user_list us). file_safe u"
    and "user_list us \<noteq> []" and "user_list us0 = []"
  shows "\<exists>us'. users_restore crypt rnd (Some (users_tree us)) us0 = Some us' \<and> \<not> dirty us'
      \<and> user_list us' = map restored_user (rev (user_list us))
      \<and> (\<forall>u \<in> set (user_list us). \<forall>sid. get_station_rating (restored_user u) sid = get_station_rating u sid)"
proof -
  obtain t where t: "write_each (user_list us) = Some t"
    using assms(1) by (cases "write_each (user_list us)") (auto simp: write_users_def)
  have "ezxml_all (users_tree us) ''user'' = map user_tree (user_list us)"
    by (simp add: ezxml_all_def users_tree_def user_tree_def filter_id_conv)
  moreover obtain us1 where "restore_each (map user_tree (user_list us)) us0 = Some us1"
    "user_list us1 = map restored_user (rev (user_list us))"
    using restore_each_users [of "user_list us" us0] write_each_credentials [OF t] assms(2,5)
    by (auto simp: unique_users_def rev_map [symmetric])
  moreover have "get_station_rating (restored_user u) sid = get_station_rating u sid" if "u \<in> set (user_list us)" for u sid
    using that assms(3) lookup_restored [of "station_preferences u" sid]
    by (simp add: get_station_rating_lookup restored_user_def file_safe_def)
  ultimately show ?thesis
    using write_users_document [OF assms(1,3)] assms(4) by (auto simp: users_restore_def Let_def)
qed

text \<open>A state with one user.\<close>

lemma demo_users1_written: "write_users demo_users1 \<noteq> None"
  by (simp add: write_users_def demo_users1_def write_user_def write_credentials_def demo_user_def no_credentials_def)

lemma demo_users1_safe:
  "unique_users demo_users1" "\<forall>u \<in> set (user_list demo_users1). file_safe u" "user_list demo_users1 \<noteq> []"
  by (simp_all add: unique_users_def demo_users1_def file_safe_def demo_user_def printable_code persisted_ratings_def pref_wf_def
      no_credentials_def)

end
