(* ===== verification/EzxmlProofs.thy ===== *)
theory EzxmlProofs
  imports Ezxml UserFileProofs
begin

text \<open>
  The parser of \<open>ezxml.c\<close> reads the documents of the grammar of \<open>UserFileProofs\<close> as that grammar means them, and so the daemon
  gets its users back from the bytes of the user file.
\<close>

section \<open>What the daemon sees of a parsed tree\<close>

text \<open>Default attributes follow those of the tag; only the first of a name counts, and only if it has a value.\<close>

primrec default_values :: "default_attr list \<Rightarrow> (string \<times> string) list" where
  "default_values [] = []"
| "default_values (d # ds) = (case fst (snd d) of None \<Rightarrow> [] | Some v \<Rightarrow> [(fst d, v)]) @ filter (\<lambda>p. fst p \<noteq> fst d) (default_values ds)"

primrec xml_view :: "ezxml_root \<Rightarrow> ezxml \<Rightarrow> xml" where
  "xml_view r (Ezxml n as t off cs) = Xml (case n of None \<Rightarrow> [] | Some n \<Rightarrow> n)
    (as @ (case n of None \<Rightarrow> [] | Some n \<Rightarrow> default_values (defaults_of n r))) (map (xml_view r) cs)"

lemma find_map_of: "map_of l a = map_option snd (find (\<lambda>p. fst p = a) l)"
  by (induction l) auto

lemma map_of_filter_other: "map_of (filter (\<lambda>p. fst p \<noteq> k) l) a = (if a = k then None else map_of l a)"
  by (induction l) auto

lemma map_of_default_values:
  "map_of (default_values ds) a = (case find (\<lambda>p. fst p = a) ds of None \<Rightarrow> None | Some (_, v, _) \<Rightarrow> v)"
  by (induction ds) (auto simp: map_of_filter_other split: option.splits)

text \<open>The accessors of the view are those of ezxml.c.\<close>

lemma view_attr: "ezxml_attr (xml_view r x) a = ezxml_attribute r x a"
proof (cases x)
  case (Ezxml n as t off cs)
  then show ?thesis
    using find_map_of [of as a] map_of_default_values
    by (cases "find (\<lambda>p. fst p = a) as") (auto simp: ezxml_attr_def ezxml_attribute_def map_add_def split: option.splits)
qed

lemma view_children:
  assumes "t \<noteq> []"
  shows "ezxml_all (xml_view r x) t = map (xml_view r) (ezxml_children x t)"
proof -
  have "xml_tag (xml_view r c) = t \<longleftrightarrow> ez_name c = Some t" for c
    using assms by (cases c) (auto split: option.splits)
  then show ?thesis by (cases x) (simp add: ezxml_all_def ezxml_children_def filter_map comp_def)
qed

text \<open>users_restore with the file it reads; an unopened file is \<open>None\<close>.  The error of the parser is not looked at.\<close>

definition users_restore_file :: "(string \<Rightarrow> string \<Rightarrow> string) \<Rightarrow> nat \<times> nat \<Rightarrow> string option \<Rightarrow> users_state \<Rightarrow> users_state option" where
  "users_restore_file crypt rnd content us = do {
    data \<leftarrow> ezxml_parse_file content;
    users_restore crypt rnd (map_option (\<lambda>r. xml_view r (the_tree r)) data) us
  }"

section \<open>References in attribute values\<close>

lemma normalize_same: "CHR 0x0D \<notin> set s \<Longrightarrow> normalize_newlines s = Some s"
  by (induction s) auto

lemma decode_Nil [simp]: "decode_references es t [] = Some []"
  by (simp add: decode_references.simps)

lemma decode_copy: "\<lbrakk>CHR ''&'' \<noteq> c; t \<noteq> CHR ''%''\<rbrakk> \<Longrightarrow> decode_references es t (c # r) =
    map_option ((#) (if (t = CHR '' '' \<or> t = CHR ''*'') \<and> is_space c then CHR '' '' else c)) (decode_references es t r)"
  by (cases "decode_references es t r") (auto simp: decode_references.simps [of es t "c # r"])

lemma decode_plain: "CHR ''&'' \<notin> set s \<Longrightarrow> decode_references es (CHR ''&'') s = Some s"
  by (induction s) (simp_all add: decode_copy)

lemma decode_blank:
  assumes "blank w"
  shows "ezxml_decode es (CHR ''&'') w = Some w"
proof -
  have "CHR ''&'' \<notin> set w" "CHR 0x0D \<notin> set w" using assms by (auto simp: blank_def)
  then show ?thesis by (simp add: ezxml_decode_def normalize_same decode_plain)
qed

lemma of_char_space: "char_of (32 :: nat) = CHR '' ''"
  by (simp add: char_of_eq_iff)

lemma space_only:
  assumes "32 \<le> (of_char c :: nat)" and "is_space c"
  shows "c = CHR '' ''"
proof -
  have "(of_char c :: nat) = 32" using assms by (auto simp: is_space_def Let_def)
  then show ?thesis by (metis char_of_char of_char_space)
qed

lemma decode_number:
  assumes "character_reference (''&#'' @ s) = Some (n, rest)" and "reference_bytes n = Some [c]"
  shows "decode_references es (CHR '' '') (''&#'' @ s) = map_option ((#) c) (decode_references es (CHR '' '') rest)"
  using assms by (cases "decode_references es (CHR '' '') rest") (simp_all add: decode_references.simps [of es _ "CHR ''&'' # _"])

lemma decode_entity:
  assumes "\<not> has_prefix ''#'' r" and "find_entity es r = Some v"
  shows "decode_references es (CHR '' '') (CHR ''&'' # r)
    = decode_references es (CHR '' '') (v @ drop 1 (dropWhile (\<lambda>x. x \<noteq> CHR '';'') r))"
  using assms by (cases r) (simp_all add: decode_references.simps [of es _ "CHR ''&'' # _"])

lemma two_digits:
  "character_reference (''&#'' @ (''39;'' @ s)) = Some (39, s)" "character_reference (''&#'' @ (''34;'' @ s)) = Some (34, s)"
  "character_reference (''&#'' @ (''60;'' @ s)) = Some (60, s)" "character_reference (''&#'' @ (''62;'' @ s)) = Some (62, s)"
  "character_reference (''&#'' @ (''38;'' @ s)) = Some (38, s)"
  by (simp_all add: character_reference_def strtol_def strip_sign_def strip_prefix_def is_space_def digit_value_def
      digits_value_def clamp_long_def LONG_MAX_def)

lemma decode_escape:
  "decode_references default_entities (CHR '' '') (''&apos;'' @ s) = map_option ((#) (CHR 0x27)) (decode_references default_entities (CHR '' '') s)"
  "decode_references default_entities (CHR '' '') (''&quot;'' @ s) = map_option ((#) (CHR 0x22)) (decode_references default_entities (CHR '' '') s)"
  "decode_references default_entities (CHR '' '') (''&lt;'' @ s) = map_option ((#) (CHR ''<'')) (decode_references default_entities (CHR '' '') s)"
  "decode_references default_entities (CHR '' '') (''&gt;'' @ s) = map_option ((#) (CHR ''>'')) (decode_references default_entities (CHR '' '') s)"
  "decode_references default_entities (CHR '' '') (''&amp;'' @ s) = map_option ((#) (CHR ''&'')) (decode_references default_entities (CHR '' '') s)"
  using two_digits [of s, THEN decode_number [where es = default_entities]]
  by (simp_all add: decode_entity find_entity_def default_entities_def reference_bytes_def char_of_eq_iff)

lemma denotes_no_cr: "denotes s v \<Longrightarrow> CHR 0x0D \<notin> set s"
  by (induction rule: denotes.induct) auto

lemma denotes_no_apos: "denotes s v \<Longrightarrow> CHR 0x27 \<notin> set s"
  by (induction rule: denotes.induct) auto

lemma decode_denotes:
  assumes "denotes s v"
  shows "ezxml_decode default_entities (CHR '' '') s = Some v"
proof -
  from assms have "decode_references default_entities (CHR '' '') s = Some v"
  proof (induction rule: denotes.induct)
    case (denotes_plain c s v)
    then show ?case using space_only [of c] by (auto simp: decode_copy)
  qed (simp_all only: decode_Nil decode_escape option.map)
  then show ?thesis using denotes_no_cr [OF assms] by (simp add: ezxml_decode_def normalize_same)
qed

section \<open>Tags\<close>

definition name_char :: "char \<Rightarrow> bool" where
  "name_char c \<longleftrightarrow> 32 < (of_char c :: nat) \<and> c \<notin> {CHR ''='', CHR ''/'', CHR ''>''}"

definition tag_ok :: "string \<Rightarrow> bool" where
  "tag_ok n \<longleftrightarrow> n \<noteq> [] \<and> starts_name (hd n) \<and> list_all name_char n"

fun names_ok :: "xml \<Rightarrow> bool" where
  "names_ok (Xml n as cs) \<longleftrightarrow> tag_ok n \<and> list_all (list_all name_char \<circ> fst) as \<and> list_all names_ok cs"

lemma name_char_not_space:
  assumes "name_char c"
  shows "\<not> is_space c" "\<not> ws c" "c \<noteq> CHR ''=''" "c \<noteq> CHR ''/''" "c \<noteq> CHR ''>''"
  using assms by (auto simp: name_char_def is_space_def ws_def Let_def)

lemma ws_space: "ws c \<Longrightarrow> is_space c"
  by (auto simp: ws_def is_space_def)

lemma from_char_after: "c \<notin> set s \<Longrightarrow> from_char c (s @ c # u) = Some (c # u)"
  by (induction s) (auto simp: from_char_def)

lemma between_append [simp]: "between (s @ u) u = s"
  by (simp add: between_def)

lemma between_same [simp]: "between u u = []"
  by (simp add: between_def)

lemma same_tags: "open_tags r = l \<Longrightarrow> r\<lparr>open_tags := l\<rparr> = r"
  by auto

lemma span_name:
  assumes "list_all name_char n" and "\<And>c. name_char c \<Longrightarrow> \<not> P c" and "P d"
  shows "takeWhile (\<lambda>c. \<not> P c) (n @ d # u) = n" "dropWhile (\<lambda>c. \<not> P c) (n @ d # u) = d # u"
  using assms by (induction n) auto

lemma parse_attrs_attrs:
  assumes "attrs_text as t" and "list_all (list_all name_char \<circ> fst) as"
    and "dropWhile is_space u = [] \<or> hd (dropWhile is_space u) \<in> {CHR ''/'', CHR ''>''}"
  shows "parse_attrs default_entities [] acc (dropWhile is_space (t @ u)) = Some (Inr (acc @ as, dropWhile is_space u))"
  using assms(1,2)
proof (induction arbitrary: acc rule: attrs_text.induct)
  case attrs_Nil
  then show ?case using assms(3) by (auto simp: parse_attrs.simps [of _ _ _ "dropWhile is_space u"])
next
  case (attrs_Cons s v al t k)
  let ?q = "CHR 0x27"
  let ?v = "?q # s @ ?q # t @ u"
  have k: "list_all name_char k" using attrs_Cons.prems by simp
  have place: "dropWhile is_space (('' '' @ k @ ''='' @ apos @ s @ apos @ t) @ u) = k @ CHR ''='' # ?v"
    using k name_char_not_space(1) by (cases k) (simp_all add: apos_def is_space_def)
  have name: "takeWhile (\<lambda>c. \<not> ends_attr c) (k @ CHR ''='' # ?v) = k" "dropWhile (\<lambda>c. \<not> ends_attr c) (k @ CHR ''='' # ?v) = CHR ''='' # ?v"
    using span_name [OF k, of ends_attr "CHR ''=''" ?v] name_char_not_space by (auto simp: ends_attr_def)
  have starts: "k @ CHR ''='' # ?v \<noteq> []" "hd (k @ CHR ''='' # ?v) \<noteq> CHR ''/''" "hd (k @ CHR ''='' # ?v) \<noteq> CHR ''>''"
    using k name_char_not_space(4,5) by (cases k; auto)+
  have behind: "\<not> ws ?q" by (simp add: ws_def)
  have found: "from_char ?q (s @ ?q # t @ u) = Some (?q # t @ u)"
    by (rule from_char_after) (rule denotes_no_apos [OF attrs_Cons.hyps(1)])
  have "parse_attrs default_entities [] acc (k @ CHR ''='' # ?v)
      = parse_attrs default_entities [] (acc @ [(k, v)]) (dropWhile is_space (t @ u))"
    using starts by (subst parse_attrs.simps) (simp add: name behind found Let_def decoding_of_def decode_denotes [OF attrs_Cons.hyps(1)])
  also have "\<dots> = Some (Inr ((acc @ [(k, v)]) @ al, dropWhile is_space u))"
    using attrs_Cons.prems by (intro attrs_Cons.IH) simp
  finally show ?case unfolding place by simp
qed

section \<open>Elements\<close>

text \<open>The state in which the documents are read: nothing has been declared and a tag can be opened.\<close>

definition ready :: "ezxml_root \<Rightarrow> bool" where
  "ready r \<longleftrightarrow> general_entities r = default_entities \<and> default_attrs r = [] \<and> open_tags r \<noteq> []
    \<and> (ez_name (hd (open_tags r)) = None \<longrightarrow> open_tags r = [blank_tag None])"

definition opened :: "string \<Rightarrow> (string \<times> string) list \<Rightarrow> ezxml_root \<Rightarrow> ezxml" where
  "opened n al r = Ezxml (Some n) al [] (length (ez_txt (hd (open_tags r)))) []"

definition push :: "ezxml \<Rightarrow> ezxml_root \<Rightarrow> ezxml_root" where
  "push x r = r\<lparr>open_tags := (if ez_name (hd (open_tags r)) = None then [x] else x # open_tags r)\<rparr>"

text \<open>An element has been read: it is the root, or a child of the innermost open tag.\<close>

definition joined :: "ezxml \<Rightarrow> ezxml_root \<Rightarrow> ezxml_root" where
  "joined x r = (if ez_name (hd (open_tags r)) = None then r\<lparr>open_tags := [], root_tag := x\<rparr>
    else r\<lparr>open_tags := add_child x (hd (open_tags r)) # tl (open_tags r)\<rparr>)"

lemma open_push: "ready r \<Longrightarrow> ezxml_open_tag n al r = Some (push (opened n al r) r)"
  by (cases "open_tags r") (auto simp: ready_def ezxml_open_tag_def push_def opened_def blank_tag_def)

lemma close_push:
  assumes "ready r" and "ez_name x = Some n"
  shows "ezxml_close_tag n (push x r) = Inr (joined x r)"
  using assms by (cases "open_tags r") (auto simp: ready_def ezxml_close_tag_def push_def joined_def split: list.splits)

text \<open>What follows a piece of markup that ends at \<open>s\<close>.\<close>

definition go_on :: "char \<Rightarrow> ezxml_root \<Rightarrow> string \<Rightarrow> ezxml_root option" where
  "go_on e r s = (let rest = dropWhile (\<lambda>c. c \<noteq> CHR ''<'') (tl s) in
     if s = [] \<or> rest = [] then Some (parse_end r)
     else do { r \<leftarrow> ezxml_char_content (between (tl s) rest) (CHR ''&'') r; parse_loop e r (tl rest) })"

lemma loop_proceed: "parse_markup e r d = Some (Proceed r' s) \<Longrightarrow> parse_loop e r d = go_on e r' s"
  by (simp add: parse_loop.simps [of e r d] go_on_def)

text \<open>The place of a closing \<open>></\<close>, which the end of the buffer may have replaced.\<close>

definition at_gt :: "char \<Rightarrow> string \<Rightarrow> bool" where
  "at_gt e u \<longleftrightarrow> has_prefix ''>'' u \<or> u = [] \<and> e = CHR ''>''"

lemma at_gt_simps: "at_gt e u \<Longrightarrow> \<not> has_prefix ''/'' u" "at_gt e u \<Longrightarrow> u = [] \<or> hd u = CHR ''>''" "at_gt e (CHR ''>'' # u)"
  "at_gt e u \<Longrightarrow> dropWhile ws u = u" "at_gt e u \<Longrightarrow> dropWhile is_space u = u"
  by (cases u; auto simp: at_gt_def ws_def is_space_def)+

lemma attrs_text_space: "attrs_text as t \<Longrightarrow> t = [] \<or> hd t = CHR '' ''"
  by (induction rule: attrs_text.induct) auto

lemma span_tag:
  assumes "tag_ok n" and "attrs_text al t" and "u = [] \<or> ends_tag (hd u)"
  shows "takeWhile (\<lambda>c. \<not> ends_tag c) (n @ t @ u) = n" "dropWhile (\<lambda>c. \<not> ends_tag c) (n @ t @ u) = t @ u"
proof -
  have n: "list_all name_char n" using assms(1) by (simp add: tag_ok_def)
  have plain: "\<And>c. name_char c \<Longrightarrow> \<not> ends_tag c" using name_char_not_space by (auto simp: ends_tag_def)
  have "t @ u = [] \<or> ends_tag (hd (t @ u))"
    using attrs_text_space [OF assms(2)] assms(3) by (cases t) (auto simp: ends_tag_def ws_def)
  then show "takeWhile (\<lambda>c. \<not> ends_tag c) (n @ t @ u) = n" "dropWhile (\<lambda>c. \<not> ends_tag c) (n @ t @ u) = t @ u"
    using span_name [OF n plain] n plain by (cases "t @ u"; auto simp: list_all_iff)+
qed

lemma markup_tag: "tag_ok n \<Longrightarrow> parse_markup e r (n @ u) = parse_tag e r (n @ u)"
  by (cases n) (simp_all add: parse_markup_def tag_ok_def)

lemma parse_tag_attrs:
  assumes "ready r" "tag_ok n" "attrs_text al t" "list_all (list_all name_char \<circ> fst) al" "u = [] \<or> ends_tag (hd u)"
    and "dropWhile is_space u = [] \<or> hd (dropWhile is_space u) \<in> {CHR ''/'', CHR ''>''}"
  shows "parse_attrs (general_entities r) (defaults_of n r) []
    (dropWhile is_space (dropWhile (\<lambda>c. \<not> ends_tag c) (n @ t @ u))) = Some (Inr (al, dropWhile is_space u))"
  using assms(1) parse_attrs_attrs [OF assms(3,4,6), of "[]"] span_tag(2) [OF assms(2,3,5)]
  by (simp add: ready_def defaults_of_def)

lemma read_empty:
  assumes "ready r" "tag_ok n" "attrs_text al t" "list_all (list_all name_char \<circ> fst) al" "at_gt e u"
  shows "parse_loop e r (n @ t @ '' /'' @ u) = go_on e (joined (opened n al r) r) u"
proof -
  have space: "dropWhile is_space ('' /'' @ u) = CHR ''/'' # u" by (simp add: is_space_def)
  have "parse_tag e r (n @ t @ '' /'' @ u) = Some (Proceed (joined (opened n al r) r) u)"
    using assms parse_tag_attrs [OF assms(1-4), of "'' /'' @ u"] span_tag(1) [OF assms(2,3), of "'' /'' @ u"] space
      close_push [OF assms(1), of "opened n al r" n]
    by (simp add: parse_tag_def open_push ready_def at_gt_def ends_tag_def ws_def opened_def)
  then show ?thesis using markup_tag [OF assms(2)] by (intro loop_proceed) simp
qed

lemma read_start:
  assumes "ready r" "tag_ok n" "attrs_text al t" "list_all (list_all name_char \<circ> fst) al"
  shows "parse_loop e r (n @ t @ CHR ''>'' # u) = go_on e (push (opened n al r) r) (CHR ''>'' # u)"
proof -
  have space: "dropWhile is_space (CHR ''>'' # u) = CHR ''>'' # u" by (simp add: is_space_def)
  have "parse_tag e r (n @ t @ CHR ''>'' # u) = Some (Proceed (push (opened n al r) r) (CHR ''>'' # u))"
    using assms parse_tag_attrs [OF assms(1-4), of "CHR ''>'' # u"] span_tag(1) [OF assms(2,3), of "CHR ''>'' # u"] space
    by (simp add: parse_tag_def open_push ready_def at_gt_def ends_tag_def)
  then show ?thesis using markup_tag [OF assms(2)] by (intro loop_proceed) simp
qed

lemma read_end:
  assumes "ready r" "tag_ok n" "ez_name x = Some n" "at_gt e u"
  shows "parse_loop e (push x r) (CHR ''/'' # n @ u) = go_on e (joined x r) u"
proof -
  have n: "list_all name_char n" using assms(2) by (simp add: tag_ok_def)
  have plain: "\<And>c. name_char c \<Longrightarrow> \<not> ends_close c" using name_char_not_space by (auto simp: ends_close_def)
  have "u = [] \<or> ends_close (hd u)" using at_gt_simps(2) [OF assms(4)] by (auto simp: ends_close_def)
  then have "takeWhile (\<lambda>c. \<not> ends_close c) (n @ u) = n" "dropWhile (\<lambda>c. \<not> ends_close c) (n @ u) = u"
    using span_name [OF n plain] n plain by (cases u; auto simp: list_all_iff)+
  then have "parse_close_tag e (push x r) (CHR ''/'' # n @ u) = Some (Proceed (joined x r) u)"
    using assms(4) at_gt_simps(4) [OF assms(4)] close_push [OF assms(1,3)] by (auto simp: parse_close_tag_def at_gt_def)
  then show ?thesis by (intro loop_proceed) (simp add: parse_markup_def starts_name_def)
qed

definition grown :: "ezxml \<Rightarrow> string \<Rightarrow> ezxml list \<Rightarrow> ezxml" where
  "grown x w zs = Ezxml (ez_name x) (ez_attrs x) (ez_txt x @ w) (ez_off x) (ez_children x @ zs)"

abbreviation plain_view :: "ezxml \<Rightarrow> xml" where
  "plain_view \<equiv> xml_view (ezxml_new None)"

lemma view_plain:
  assumes "default_attrs r = []"
  shows "xml_view r z = plain_view z"
proof (induction z)
  case (Ezxml n al t off cs)
  then show ?case using assms by (simp add: defaults_of_def ezxml_new_def cong: map_cong option.case_cong)
qed

lemma elem_ends:
  assumes "xml_elem x t"
  shows "\<exists>m. t = CHR ''<'' # m @ ''>'' \<and> tl (butlast t) = m"
  using assms
proof cases
  case (elem_empty al t n)
  then show ?thesis by (intro exI [of _ "n @ t @ '' /''"]) (simp add: butlast_append)
next
  case (elem_content al t cs body n)
  then show ?thesis by (intro exI [of _ "n @ t @ ''>'' @ body @ ''</'' @ n"]) (simp add: butlast_append)
qed

lemma read_blank:
  assumes "ready r" "open_tags r = x # up" "ez_name x \<noteq> None" "blank w" "u \<noteq> []" "hd u = CHR ''<''"
  shows "go_on e r (c # w @ u) = parse_loop e (r\<lparr>open_tags := grown x w [] # up\<rparr>) (tl u)"
proof -
  have "CHR ''<'' \<notin> set w" using assms(4) by (auto simp: blank_def)
  then have "dropWhile (\<lambda>c. c \<noteq> CHR ''<'') (w @ u) = u" using assms(5,6) by (cases u) (auto simp: dropWhile_append)
  then show ?thesis using assms(2,3,5) decode_blank [OF assms(4)] 
    by (cases x; cases "w = []") (auto simp: go_on_def ezxml_char_content_def grown_def same_tags)
qed

lemma read_elements:
  "xml_elem y t \<Longrightarrow> names_ok y \<longrightarrow> (\<forall>e r u. ready r \<longrightarrow> at_gt e u \<longrightarrow>
     (\<exists>z. plain_view z = y \<and> parse_loop e r (tl (butlast t) @ u) = go_on e (joined z r) u))"
  "xml_content cs t \<Longrightarrow> list_all names_ok cs \<longrightarrow> (\<forall>e r x up c u. ready r \<longrightarrow> open_tags r = x # up \<longrightarrow> ez_name x \<noteq> None \<longrightarrow>
     (\<exists>zs w. map plain_view zs = cs \<and> go_on e r (c # t @ CHR ''<'' # u) = parse_loop e (r\<lparr>open_tags := grown x w zs # up\<rparr>) u))"
proof (induction rule: xml_elem_xml_content.inducts)
  case (elem_empty al t n)
  show ?case
  proof (intro allI impI)
    fix e u and r :: ezxml_root
    assume "names_ok (Xml n al [])" "ready r" "at_gt e u"
    then show "\<exists>z. plain_view z = Xml n al [] \<and> parse_loop e r (tl (butlast (''<'' @ n @ t @ '' />'')) @ u) = go_on e (joined z r) u"
      using read_empty [of r n al t e u] elem_empty
      by (intro exI [of _ "opened n al r"]) (simp add: opened_def defaults_of_def ezxml_new_def butlast_append)
  qed
next
  case (elem_content al t cs body n)
  show ?case
  proof (intro allI impI)
    fix e u and r :: ezxml_root
    let ?x = "opened n al r" and ?rest = "CHR ''/'' # n @ u"
    assume ok: "names_ok (Xml n al cs)" and r: "ready r" and u: "at_gt e u"
    have "ready (push ?x r)" "ez_name ?x \<noteq> None" using r by (auto simp: ready_def push_def opened_def)
    moreover obtain up where up: "open_tags (push ?x r) = ?x # up" "\<And>x'. (push ?x r)\<lparr>open_tags := x' # up\<rparr> = push x' r"
      by (rule that [of "if ez_name (hd (open_tags r)) = None then [] else open_tags r"]) (auto simp: push_def)
    ultimately obtain zs w where zs: "map plain_view zs = cs"
        "go_on e (push ?x r) (CHR ''>'' # body @ CHR ''<'' # ?rest) = parse_loop e (push (grown ?x w zs) r) ?rest"
      using elem_content.IH ok by (metis names_ok.simps)
    have "parse_loop e r (n @ t @ CHR ''>'' # body @ CHR ''<'' # ?rest) = go_on e (joined (grown ?x w zs) r) u"
      using read_start [OF r _ elem_content.hyps(1), of n] read_end [OF r _ _ u, of n "grown ?x w zs"] zs(2) ok
      by (simp add: grown_def opened_def)
    then show "\<exists>z. plain_view z = Xml n al cs
        \<and> parse_loop e r (tl (butlast (''<'' @ n @ t @ ''>'' @ body @ ''</'' @ n @ ''>'')) @ u) = go_on e (joined z r) u"
      using zs(1) by (intro exI [of _ "grown ?x w zs"]) (simp add: grown_def opened_def defaults_of_def ezxml_new_def butlast_append)
  qed
next
  case (content_Nil w)
  then show ?case using read_blank by fastforce
next
  case (content_Cons w y s cs t)
  show ?case
  proof (intro allI impI)
    fix e x up c u and r :: ezxml_root
    assume ok: "list_all names_ok (y # cs)" and r: "ready r" "open_tags r = x # up" "ez_name x \<noteq> None"
    let ?r1 = "r\<lparr>open_tags := grown x w [] # up\<rparr>"
    show "\<exists>zs w'. map plain_view zs = y # cs \<and> go_on e r (c # (w @ s @ t) @ CHR ''<'' # u)
        = parse_loop e (r\<lparr>open_tags := grown x w' zs # up\<rparr>) u"
    proof -
      obtain m where m: "s = CHR ''<'' # m @ ''>''" "tl (butlast s) = m"
        using elem_ends [OF content_Cons.hyps(2)] by blast
      let ?v = "t @ CHR ''<'' # u"
      have names: "names_ok y" "list_all names_ok cs" using ok by simp_all
      have r1: "ready ?r1" "ez_name (grown x w []) \<noteq> None" using r by (auto simp: ready_def grown_def)
      from content_Cons.IH(1) names(1) r1(1) m(2) obtain z where z: "plain_view z = y"
          "parse_loop e ?r1 (m @ CHR ''>'' # ?v) = go_on e (joined z ?r1) (CHR ''>'' # ?v)"
        by (metis at_gt_simps(3))
      let ?x2 = "add_child z (grown x w [])" and ?r2 = "joined z ?r1"
      have r2: "ready ?r2" "open_tags ?r2 = ?x2 # up" "ez_name ?x2 \<noteq> None" "\<And>x'. ?r2\<lparr>open_tags := x' # up\<rparr> = r\<lparr>open_tags := x' # up\<rparr>"
        using r1 r by (auto simp: ready_def joined_def add_child_def)
      from content_Cons.IH(2) names(2) r2(1-3) obtain zs w' where zs: "map plain_view zs = cs"
          "go_on e ?r2 (CHR ''>'' # ?v) = parse_loop e (?r2\<lparr>open_tags := grown ?x2 w' zs # up\<rparr>) u"
        by metis
      have "grown ?x2 w' zs = grown x (w @ w') (z # zs)" by (simp add: grown_def add_child_def)
      moreover have "go_on e r (c # w @ s @ ?v) = parse_loop e ?r1 (m @ CHR ''>'' # ?v)"
        using read_blank [OF r content_Cons.hyps(1), of "s @ ?v"] m(1) by simp
      ultimately show ?thesis using z zs r2(4) by (intro exI [of _ "z # zs"] exI [of _ "w @ w'"]) simp
    qed
  qed
qed

section \<open>Documents\<close>

abbreviation no_nul :: "string \<Rightarrow> bool" where
  "no_nul \<equiv> list_all (\<lambda>c. c \<noteq> CHR 0x00)"

lemma name_char_nul: "\<not> name_char (CHR 0x00)"
  by (simp add: name_char_def)

lemma no_nul_name: "list_all name_char n \<Longrightarrow> no_nul n"
  using name_char_nul by (induction n) auto

lemma no_nul_denotes: "denotes s v \<Longrightarrow> no_nul s"
  by (induction rule: denotes.induct) auto

lemma no_nul_blank: "blank w \<Longrightarrow> no_nul w"
  by (auto simp: blank_def list_all_iff)

lemma no_nul_attrs: "attrs_text al t \<Longrightarrow> list_all (list_all name_char \<circ> fst) al \<longrightarrow> no_nul t"
  by (induction rule: attrs_text.induct) (auto simp: no_nul_name no_nul_denotes apos_def)

lemma no_nul_elem:
  "xml_elem y t \<Longrightarrow> names_ok y \<longrightarrow> no_nul t"
  "xml_content cs t \<Longrightarrow> list_all names_ok cs \<longrightarrow> no_nul t"
  by (induction rule: xml_elem_xml_content.inducts)
    (auto simp: no_nul_name no_nul_attrs no_nul_blank tag_ok_def)

lemma read_prolog: "parse_markup e r (tl xml_prolog @ x) = Some (Proceed r (CHR ''>'' # nl @ x))"
  by (simp add: parse_markup_def starts_name_def xml_prolog_def nl_def apos_def parse_instruction_def instruction_end.simps
      ezxml_proc_inst_def ws_def)

text \<open>
  The parser reads every document of the grammar as the tree the grammar gives it: with names that end where the parser ends them, it
  returns without an error, and what its accessors show of the root (names, attributes with their references decoded, children) is the tree.
\<close>

lemma ezxml_parses_document:
  assumes doc: "xml_document x text" and names: "names_ok x"
  shows "\<exists>r. ezxml_parse_str text = Some r \<and> failure r = None \<and> xml_view r (the_tree r) = x"
proof -
  obtain s w where sw: "text = xml_prolog @ s @ w" "xml_elem x s" "blank w" using doc by (auto simp: xml_document_def)
  obtain m where m: "s = CHR ''<'' # m @ ''>''" "tl (butlast s) = m" using elem_ends [OF sw(2)] by blast
  define e where "e = last (CHR ''>'' # w)"
  define u where "u = butlast (CHR ''>'' # w)"
  let ?new = "ezxml_new None"
  have "text = (xml_prolog @ CHR ''<'' # m) @ (CHR ''>'' # w)" using sw(1) m(1) by simp
  then have "last text = e" "butlast text = xml_prolog @ CHR ''<'' # m @ u"
    using butlast_append [of "xml_prolog @ CHR ''<'' # m" "CHR ''>'' # w"] last_appendR [of "CHR ''>'' # w" "xml_prolog @ CHR ''<'' # m"]
    by (simp_all add: e_def u_def del: last.simps butlast.simps)
  moreover have "at_gt e u" by (cases w) (simp_all add: e_def u_def at_gt_def)
  ultimately have u: "at_gt e u" "last text = e" "butlast text = xml_prolog @ CHR ''<'' # m @ u" by simp_all
  have "no_nul text"
    using no_nul_elem(1) [OF sw(2)] names no_nul_blank [OF sw(3)] by (simp add: sw(1) xml_prolog_def nl_def apos_def)
  then have "no_nul (butlast text)" by (auto simp: list_all_iff dest: in_set_butlastD)
  then have buffer: "takeWhile (\<lambda>c. c \<noteq> CHR 0x00) (butlast text) = butlast text"
    by (simp add: takeWhile_eq_all_conv list_all_iff)
  have prolog: "xml_prolog = CHR ''<'' # tl xml_prolog" "text \<noteq> []" "hd text = CHR ''<''" 
    using sw(1) by (simp_all add: xml_prolog_def)
  have new: "ready ?new" "open_tags ?new = [blank_tag None]" by (simp_all add: ready_def ezxml_new_def blank_tag_def default_entities_def)
  obtain z where z: "plain_view z = x" "parse_loop e ?new (m @ u) = go_on e (joined z ?new) u"
    using read_elements(1) [OF sw(2)] names new(1) u(1) m(2) by metis
  let ?r = "?new\<lparr>open_tags := [], root_tag := z\<rparr>"
  have "CHR ''<'' \<notin> set (tl u)" using sw(3) by (auto simp: u_def blank_def dest: in_set_butlastD split: if_splits)
  then have "go_on e (joined z ?new) u = Some ?r"
    using new(2) by (auto simp: go_on_def joined_def blank_tag_def parse_end_def Let_def)
  moreover have "go_on e ?new (CHR ''>'' # nl @ CHR ''<'' # m @ u) = parse_loop e ?new (m @ u)"
    using new(2) by (simp add: go_on_def nl_def ezxml_char_content_def blank_tag_def)
  ultimately have "parse_loop e ?new (tl xml_prolog @ CHR ''<'' # m @ u) = Some ?r"
    using z(2) loop_proceed [OF read_prolog, of e ?new] by simp
  moreover have "dropWhile (\<lambda>c. c \<noteq> CHR ''<'') (butlast text) = CHR ''<'' # tl xml_prolog @ CHR ''<'' # m @ u"
    unfolding u(3) by (subst prolog(1)) simp
  ultimately have "ezxml_parse_str text = Some ?r"
    using prolog(2,3) u(2) by (simp add: ezxml_parse_str_def ezxml_str2utf8_def buffer)
  moreover have "xml_view ?r z = x" using z(1) view_plain [of ?r z] by (simp add: ezxml_new_def)
  ultimately show ?thesis by (intro exI [of _ ?r]) (simp add: the_tree_def ezxml_new_def)
qed

lemma names_ok_users: "names_ok (users_tree us)"
  by (auto simp: users_tree_def user_tree_def credentials_tree_def privilege_tree_def preferences_tree_def rating_tree_def
      tag_ok_def name_char_def starts_name_def list_all_iff split: option.splits list.splits)

text \<open>
  C4: The users survive a restart, from memory to the bytes of the file and back through the parser: for users with unique names whose data
  has no control characters (and no markup in station ids), \<open>users_restore\<close> on the bytes that \<open>write_users\<close> wrote rebuilds every user with
  the name, password, rank, persistable privileges and remembered credentials it had, and with the same rating for every station.
\<close>

theorem user_file_restored:
  assumes "write_users us = Some body" and "unique_users us" and "\<forall>u \<in> set (user_list us). file_safe u"
    and "user_list us \<noteq> []" and "user_list us0 = []"
  shows "\<exists>us'. users_restore_file crypt rnd (Some body) us0 = Some us' \<and> \<not> dirty us'
    \<and> user_list us' = map restored_user (rev (user_list us))
    \<and> (\<forall>u \<in> set (user_list us). \<forall>sid. get_station_rating (restored_user u) sid = get_station_rating u sid)"
proof -
  obtain r where r: "ezxml_parse_str body = Some r" "xml_view r (the_tree r) = users_tree us"
    using ezxml_parses_document [OF _ names_ok_users] write_users_document [OF assms(1,3)] by blast
  then show ?thesis
    using users_tree_restored [OF assms, of crypt rnd] by (auto simp: users_restore_file_def ezxml_parse_file_def)
qed

theorem user_file_restored_witness:
  "\<exists>body us'. write_users demo_users1 = Some body \<and> users_restore_file demo_crypt (1, 2) (Some body) initial_users = Some us'
    \<and> user_list us' = [restored_user demo_user]"
proof -
  obtain body where 1: "write_users demo_users1 = Some body" using demo_users1_written by auto
  show ?thesis
    using user_file_restored [OF 1 demo_users1_safe, of initial_users demo_crypt "(1, 2)"] 1 demo_users1_safe
    by (auto simp: demo_users1_def initial_users_def)
qed

text \<open>
  A file that was cut off is not refused: the users in front of the cut are restored, the others are gone, and the error that the
  parser reports is not looked at.
\<close>

lemma cut_file_restored:
  "map_option (\<lambda>r. (xml_view r (the_tree r), failure r)) (ezxml_parse_str (''<a><b c='' @ apos @ ''1'' @ apos @ '' /><b c='' @ nl))
    = Some (Xml ''a'' [] [Xml ''b'' [(''c'', ''1'')] []], Some (Missing (CHR ''>'')))"
  by code_simp

end
