(* ===== verification/Seeds.thy ===== *)
theory Seeds
  imports Autotune
begin

text \<open>
  \<open>src/src/seeds.c\<close>, first part: the cache of station information, the matching of songs and artists by name,
  and the copying of seed and feedback ids into the songs at hand.  The commands on seeds and ratings are in
  SeedCommands, as they report through Report.
\<close>

section \<open>Cache\<close>

definition STATION_CACHE_TIME :: int where
  "STATION_CACHE_TIME = 10000"

text \<open>The \<open>info\<close> field of the request data.\<close>

fun requested_info :: "piano_request \<Rightarrow> station_info option" where
  "requested_info (GetStationInfo _ info) = Some info"
| "requested_info _ = None"

definition retrieve_station_info :: "world \<Rightarrow> station \<Rightarrow> appstate \<Rightarrow> (station_info option \<times> appstate) option" where
  "retrieve_station_info w s app = do {
    (ok, app, req) \<leftarrow> piano_transaction w None (GetStationInfo (st_id s) no_station_info) app;
    info \<leftarrow> requested_info req;
    Some (if ok then Some info else None, app)
  }"

definition add_cache_record :: "station \<Rightarrow> station_info \<Rightarrow> appstate \<Rightarrow> appstate" where
  "add_cache_record s info app =
    app\<lparr>cache := \<lparr>cache_station = st_id s, retrieved = now app, cache_info = info\<rparr> # cache app\<rparr>"

fun find_cached :: "stationinfo_cache list \<Rightarrow> string \<Rightarrow> stationinfo_cache option" where
  "find_cached [] sid = None"
| "find_cached (c # rest) sid = (if strcmp (cache_station c) sid = 0 then Some c else find_cached rest sid)"

definition get_cached_station :: "string \<Rightarrow> appstate \<Rightarrow> stationinfo_cache option" where
  "get_cached_station sid app = find_cached (cache app) sid"

fun update_cached :: "string \<Rightarrow> (stationinfo_cache \<Rightarrow> stationinfo_cache) \<Rightarrow> stationinfo_cache list \<Rightarrow> stationinfo_cache list" where
  "update_cached sid f [] = []"
| "update_cached sid f (c # rest) =
    (if strcmp (cache_station c) sid = 0 then f c # rest else c # update_cached sid f rest)"

definition get_station_info :: "world \<Rightarrow> station \<Rightarrow> appstate \<Rightarrow> (station_info option \<times> appstate) option" where
  "get_station_info w s app = (
    let info = get_cached_station (st_id s) app in do {
      (newinfo, app) \<leftarrow> (case info of
          None \<Rightarrow> retrieve_station_info w s app
        | Some c \<Rightarrow> if retrieved c + STATION_CACHE_TIME < now app then retrieve_station_info w s app
            else Some (None, app));
      Some (case (newinfo, info) of
          (Some n, Some _) \<Rightarrow> (Some n, app\<lparr>cache := update_cached (st_id s)
            (\<lambda>c. c\<lparr>cache_info := n, retrieved := now app\<rparr>) (cache app)\<rparr>)
        | (Some n, None) \<Rightarrow> (Some n, add_cache_record s n app)
        | (None, Some c) \<Rightarrow> (Some (cache_info c), app)
        | (None, None) \<Rightarrow> (None, app))
    })"

definition get_station_info_by_id :: "world \<Rightarrow> string \<Rightarrow> appstate \<Rightarrow> (station_info option \<times> appstate) option" where
  "get_station_info_by_id w sid app = (case PianoFindStationById (stations (ph app)) sid of
      Some s \<Rightarrow> get_station_info w s app
    | None \<Rightarrow> Some (None, app))"

section \<open>Matching\<close>

fun find_song_by_artist_and_title :: "song list \<Rightarrow> string \<Rightarrow> string \<Rightarrow> song option" where
  "find_song_by_artist_and_title [] art ttl = None"
| "find_song_by_artist_and_title (s # rest) art ttl =
    (if strcmp (artist s) art = 0 \<and> strcmp (title s) ttl = 0 then Some s
     else find_song_by_artist_and_title rest art ttl)"

text \<open>Two strings stepped through together as long as they agree: what is left of both.\<close>

fun skip_common :: "string \<Rightarrow> string \<Rightarrow> string \<times> string" where
  "skip_common (a # as) (b # bs) = (if a = b then skip_common as bs else (a # as, b # bs))"
| "skip_common as bs = (as, bs)"

text \<open>Pandora knows a classical artist as \<open>first last\<close> while songs have \<open>last, first\<close>.\<close>

definition same_artist :: "string \<Rightarrow> string \<Rightarrow> bool" where
  "same_artist candidate song_artist =
    (strcmp candidate song_artist = 0 \<or>
     (case dropWhile (\<lambda>c. c \<noteq> CHR '','') song_artist of
        [] \<Rightarrow> False
      | _ # after \<Rightarrow>
          (case skip_common (dropWhile (\<lambda>c. c = CHR '' '') after) candidate of
             (search, compare) \<Rightarrow> search = [] \<and> compare \<noteq> [] \<and> hd compare = CHR '' '' \<and>
               (case skip_common song_artist (tl compare) of
                  (search, compare) \<Rightarrow> search \<noteq> [] \<and> hd search = CHR '','' \<and> compare = []))))"

fun find_artist_by_name :: "artist list \<Rightarrow> string \<Rightarrow> artist option" where
  "find_artist_by_name [] art = None"
| "find_artist_by_name (a # rest) art =
    (if same_artist (artist_name a) art then Some a else find_artist_by_name rest art)"

section \<open>Bringing songs up to date\<close>

definition apply_details :: "station_info \<Rightarrow> song \<Rightarrow> song" where
  "apply_details details song = song\<lparr>
    feedbackId := Option.bind (find_song_by_artist_and_title (feedback details) (artist song) (title song)) feedbackId,
    seedId := Option.bind (find_song_by_artist_and_title (songSeeds details) (artist song) (title song)) seedId\<rparr>"

fun apply_station_info_to_songs :: "world \<Rightarrow> song list \<Rightarrow> appstate \<Rightarrow> (song list \<times> appstate) option" where
  "apply_station_info_to_songs w [] app = Some ([], app)"
| "apply_station_info_to_songs w (song # rest) app = do {
    sid \<leftarrow> stationId song;
    (details, app) \<leftarrow> get_station_info_by_id w sid app;
    (rest, app) \<leftarrow> apply_station_info_to_songs w rest app;
    Some ((case details of None \<Rightarrow> song | Some d \<Rightarrow> apply_details d song) # rest, app)
  }"

definition apply_station_info :: "world \<Rightarrow> appstate \<Rightarrow> appstate option" where
  "apply_station_info w app = do {
    (l, app) \<leftarrow> apply_station_info_to_songs w (song_history app) app;
    let app = app\<lparr>song_history := l\<rparr>;
    (l, app) \<leftarrow> apply_station_info_to_songs w (case current_song app of None \<Rightarrow> [] | Some s \<Rightarrow> [s]) app;
    let app = app\<lparr>current_song := (case l of [] \<Rightarrow> None | s # _ \<Rightarrow> Some s)\<rparr>;
    (l, app) \<leftarrow> apply_station_info_to_songs w (playlist app) app;
    Some (app\<lparr>playlist := l\<rparr>)
  }"

definition expire_station_info_by_id :: "world \<Rightarrow> string \<Rightarrow> appstate \<Rightarrow> appstate option" where
  "expire_station_info_by_id w sid app = (case get_cached_station sid app of
      None \<Rightarrow> Some app
    | Some _ \<Rightarrow> apply_station_info w (app\<lparr>cache := update_cached sid (\<lambda>c. c\<lparr>retrieved := 0\<rparr>) (cache app)\<rparr>))"

definition expire_station_info :: "world \<Rightarrow> station \<Rightarrow> appstate \<Rightarrow> appstate option" where
  "expire_station_info w s app = expire_station_info_by_id w (st_id s) app"

definition get_artist_seed_by_song :: "song \<Rightarrow> appstate \<Rightarrow> artist option option" where
  "get_artist_seed_by_song song app = do {
    sid \<leftarrow> stationId song;
    Some (Option.bind (get_cached_station sid app) (\<lambda>c. find_artist_by_name (artistSeeds (cache_info c)) (artist song)))
  }"

definition song_has_artist_seed :: "song \<Rightarrow> appstate \<Rightarrow> bool option" where
  "song_has_artist_seed song app = map_option (\<lambda>a. a \<noteq> None) (get_artist_seed_by_song song app)"

section \<open>Artists match under both spellings\<close>

lemma skip_common_append: "skip_common (p @ as) (p @ bs) = skip_common as bs"
  by (induction p) auto

lemma skip_common_split: "skip_common as bs = (x, y) \<Longrightarrow> \<exists>p. as = p @ x \<and> bs = p @ y"
proof (induction as bs rule: skip_common.induct)
  case (1 a as b bs)
  show ?case
  proof (cases "a = b")
    case True
    then obtain p where "as = p @ x" "bs = p @ y" using 1 by auto
    then show ?thesis using True by (intro exI [of _ "a # p"]) simp
  qed (use 1 in auto)
qed auto

lemma dropWhile_comma: "CHR '','' \<notin> set l \<Longrightarrow> dropWhile (\<lambda>c. c \<noteq> CHR '','') (l @ CHR '','' # r) = CHR '','' # r"
  by (induction l) auto

lemma dropWhile_spaces: "f = [] \<or> hd f \<noteq> CHR '' '' \<Longrightarrow> dropWhile (\<lambda>c. c = CHR '' '') (replicate k (CHR '' '') @ f) = f"
  by (induction k) (cases f; auto)+

lemma only_comma: "\<lbrakk>l @ c # r = p @ c # q; c \<notin> set l; c \<notin> set r\<rbrakk> \<Longrightarrow> p = l"
  by (auto simp: append_eq_append_conv2 append_eq_Cons_conv Cons_eq_append_conv)

text \<open>
  Classical artists are recognised: for a song whose artist is written \<open>last, first\<close> with one comma, an artist
  known to Pandora matches exactly when its name is spelt the same or is \<open>first last\<close>; no other spelling is
  taken for the artist.
\<close>
theorem same_artist_last_first:
  assumes "CHR '','' \<notin> set last_name" and "CHR '','' \<notin> set first_name"
    and "first_name = [] \<or> hd first_name \<noteq> CHR '' ''"
  shows "same_artist candidate (last_name @ '','' @ replicate k (CHR '' '') @ first_name) \<longleftrightarrow>
    candidate = last_name @ '','' @ replicate k (CHR '' '') @ first_name \<or> candidate = first_name @ '' '' @ last_name"
    (is "same_artist candidate ?a \<longleftrightarrow> _")
proof -
  obtain s1 c1 where 1: "skip_common first_name candidate = (s1, c1)" by (cases "skip_common first_name candidate")
  obtain s2 c2 where 2: "skip_common ?a (tl c1) = (s2, c2)" by (cases "skip_common ?a (tl c1)")
  have "same_artist candidate ?a \<longleftrightarrow> candidate = ?a \<or>
      s1 = [] \<and> c1 \<noteq> [] \<and> hd c1 = CHR '' '' \<and> s2 \<noteq> [] \<and> hd s2 = CHR '','' \<and> c2 = []"
    using 1 2 by (simp add: same_artist_def dropWhile_comma [OF assms(1)] dropWhile_spaces [OF assms(3)] strcmp_eq_0)
  moreover have "s1 = [] \<and> c1 \<noteq> [] \<and> hd c1 = CHR '' '' \<and> s2 \<noteq> [] \<and> hd s2 = CHR '','' \<and> c2 = []
      \<longleftrightarrow> candidate = first_name @ '' '' @ last_name" (is "?l \<longleftrightarrow> ?r")
  proof
    assume l: ?l
    then have cand: "candidate = first_name @ '' '' @ tl c1"
      using skip_common_split [OF 1] by (cases c1) auto
    obtain q where a: "?a = tl c1 @ CHR '','' # q"
      using skip_common_split [OF 2] l by (cases s2) auto
    have "CHR '','' \<notin> set (replicate k (CHR '' '') @ first_name)" using assms(2) by auto
    then have "tl c1 = last_name"
      using a assms(1) by (intro only_comma [of last_name _ "replicate k (CHR '' '') @ first_name"]) auto
    then show ?r using cand by simp
  next
    assume r: ?r
    then have "s1 = []" "c1 = '' '' @ last_name"
      using 1 skip_common_append [of first_name "[]" "'' '' @ last_name"] by simp_all
    then show ?l using 2 skip_common_append [of last_name "'','' @ replicate k (CHR '' '') @ first_name" "[]"] by simp
  qed
  ultimately show ?thesis by blast
qed

theorem same_artist_last_first_witness:
  "same_artist ''Johann Bach'' (''Bach'' @ '','' @ replicate 1 (CHR '' '') @ ''Johann'')"
  by (subst same_artist_last_first) simp_all

section \<open>The cache\<close>

definition cache_unique :: "appstate \<Rightarrow> bool" where
  "cache_unique app \<longleftrightarrow> distinct (map cache_station (cache app))"

lemma find_cached_find: "find_cached l sid = List.find (\<lambda>c. cache_station c = sid) l"
  by (induction l) (auto simp: strcmp_eq_0)

lemma find_cached_None: "find_cached l sid = None \<longleftrightarrow> sid \<notin> cache_station ` set l"
  by (auto simp: find_cached_find find_None_iff)

lemma update_cached_stations:
  "(\<And>c. cache_station (f c) = cache_station c) \<Longrightarrow> map cache_station (update_cached sid f l) = map cache_station l"
  by (induction l) auto

lemma find_update_cached:
  "(\<And>c. cache_station (f c) = cache_station c) \<Longrightarrow> find_cached l sid = Some c \<Longrightarrow>
    find_cached (update_cached sid f l) sid = Some (f c)"
  by (induction l) (auto simp: strcmp_eq_0)

lemma retrieve_keeps_cache:
  assumes "retrieve_station_info w s app = Some (i, app')"
  shows "cache app' = cache app"
proof -
  obtain ok req where call: "piano_transaction w None (GetStationInfo (st_id s) no_station_info) app = Some (ok, app', req)"
    using assms by (auto simp: retrieve_station_info_def bind_eq_Some_conv)
  obtain p sv t n where "app' = app\<lparr>ph := p, service := sv, now := t, questions := n\<rparr>"
    by (rule piano_transaction_keepsE [OF call])
  then show ?thesis by simp
qed

lemma find_update_other:
  "(\<And>c. cache_station (f c) = cache_station c) \<Longrightarrow> sid' \<noteq> sid \<Longrightarrow> find_cached (update_cached sid f l) sid' = find_cached l sid'"
  by (induction l) (auto simp: strcmp_eq_0)

lemma find_cached_station: "find_cached l sid = Some c \<Longrightarrow> cache_station c = sid"
  by (induction l) (auto simp: strcmp_eq_0 split: if_splits)

text \<open>
  C11: Station information is cached once per station and for a bounded time.  The cache keeps one record per station.  A record that is
  not older than STATION_CACHE_TIME is returned, and nothing else happens.  Without one, or with an older one, Pandora is asked, in exactly one
  transaction: if it succeeds its answer is returned, and the record of the station holds the answer and the present time; if it fails
  the old record, if any, is returned and stays as it is.  The records of the other stations never change.
\<close>
theorem get_station_info_cached:
  assumes "get_station_info w s app = Some (i, app')" and "cache_unique app"
  shows "cache_unique app'
    \<and> (\<forall>sid. sid \<noteq> st_id s \<longrightarrow> get_cached_station sid app' = get_cached_station sid app)
    \<and> (case get_cached_station (st_id s) app of
        Some c \<Rightarrow> now app \<le> retrieved c + STATION_CACHE_TIME \<longrightarrow> i = Some (cache_info c) \<and> app' = app
      | None \<Rightarrow> True)
    \<and> ((\<forall>c. get_cached_station (st_id s) app = Some c \<longrightarrow> retrieved c + STATION_CACHE_TIME < now app) \<longrightarrow>
        (\<exists>ok app1 req. piano_transaction w None (GetStationInfo (st_id s) no_station_info) app = Some (ok, app1, req)
          \<and> (if ok
             then (\<exists>x. requested_info req = Some x \<and> i = Some x
               \<and> get_cached_station (st_id s) app' = Some \<lparr>cache_station = st_id s, retrieved = now app1, cache_info = x\<rparr>)
             else i = map_option cache_info (get_cached_station (st_id s) app) \<and> app' = app1
               \<and> get_cached_station (st_id s) app' = get_cached_station (st_id s) app)))"
proof -
  have retrieve: "\<exists>ok req. piano_transaction w None (GetStationInfo (st_id s) no_station_info) app = Some (ok, app1, req)
      \<and> (case n of Some x \<Rightarrow> ok \<and> requested_info req = Some x | None \<Rightarrow> \<not> ok)"
    if "retrieve_station_info w s app = Some (n, app1)" for n app1
    using that by (auto simp: retrieve_station_info_def bind_eq_Some_conv split: option.splits)
  show ?thesis
  proof (cases "get_cached_station (st_id s) app")
    case None
    then obtain n app1 where r: "retrieve_station_info w s app = Some (n, app1)"
      and res: "(i, app') = (case n of None \<Rightarrow> (None, app1) | Some n \<Rightarrow> (Some n, add_cache_record s n app1))"
      using assms(1) by (auto simp: get_station_info_def bind_eq_Some_conv split: option.splits)
    have same: "cache app1 = cache app" by (rule retrieve_keeps_cache [OF r])
    have "st_id s \<notin> cache_station ` set (cache app)" using None by (simp add: get_cached_station_def find_cached_None)
    then have unique: "cache_unique app'" using res assms(2) same by (cases n) (simp_all add: cache_unique_def add_cache_record_def)
    obtain ok req where "piano_transaction w None (GetStationInfo (st_id s) no_station_info) app = Some (ok, app1, req)"
      "case n of Some x \<Rightarrow> ok \<and> requested_info req = Some x | None \<Rightarrow> \<not> ok"
      using retrieve [OF r] by blast
    with unique None res same show ?thesis
      by (cases n) (auto simp: add_cache_record_def get_cached_station_def strcmp_eq_0)
  next
    case (Some c)
    show ?thesis
    proof (cases "retrieved c + STATION_CACHE_TIME < now app")
      case False
      then show ?thesis using Some assms by (auto simp: get_station_info_def)
    next
      case True
      then obtain n app1 where r: "retrieve_station_info w s app = Some (n, app1)"
        and res: "(i, app') = (case n of None \<Rightarrow> (Some (cache_info c), app1) | Some n \<Rightarrow> (Some n, app1\<lparr>cache :=
          update_cached (st_id s) (\<lambda>c. c\<lparr>cache_info := n, retrieved := now app1\<rparr>) (cache app1)\<rparr>))"
        using assms(1) Some by (cases "retrieve_station_info w s app")
          (auto simp: get_station_info_def Let_def split: option.splits)
      have "cache app1 = cache app" by (rule retrieve_keeps_cache [OF r])
      moreover have "cache_station c = st_id s" using Some by (simp add: get_cached_station_def find_cached_station)
      ultimately show ?thesis
        using retrieve [OF r] Some True res assms(2)
        by (cases n) (auto simp: cache_unique_def get_cached_station_def update_cached_stations find_update_cached find_update_other)
    qed
  qed
qed

definition demo_cached :: appstate where
  "demo_cached = demo_app\<lparr>cache := [\<lparr>cache_station = ''1'', retrieved = 500, cache_info = no_station_info\<rparr>]\<rparr>"

theorem get_station_info_cached_witness:
  "\<exists>i app'. get_station_info demo_world (no_station\<lparr>st_id := ''1''\<rparr>) demo_cached = Some (i, app') \<and> cache_unique app'"
proof -
  have 1: "get_station_info demo_world (no_station\<lparr>st_id := ''1''\<rparr>) demo_cached = Some (Some no_station_info, demo_cached)"
    by (simp add: get_station_info_def get_cached_station_def demo_cached_def demo_app_def STATION_CACHE_TIME_def)
  have "cache_unique demo_cached" by (simp add: cache_unique_def demo_cached_def)
  then show ?thesis using get_station_info_cached [OF 1] 1 by auto
qed

end
