(* ===== verification/CommandCodes.thy ===== *)
theory CommandCodes
  imports Prelude
begin

text \<open>
  The codes of \<open>COMMAND\<close> in \<open>src/src/command.h\<close>, in a build with capture and shoutcast.  They are numbers
  because the code compares them: the owner commands lie between \<open>OWNER_RANGE_START\<close> and \<open>OWNER_RANGE_END\<close>.
\<close>

type_synonym command = int

abbreviation (input) NOP :: command where "NOP \<equiv> 1"
abbreviation (input) TIMESTATUS :: command where "TIMESTATUS \<equiv> 2"
abbreviation (input) HELP :: command where "HELP \<equiv> 3"
abbreviation (input) QUERYSTATUS :: command where "QUERYSTATUS \<equiv> 4"
abbreviation (input) QUERYHISTORY :: command where "QUERYHISTORY \<equiv> 5"
abbreviation (input) QUERYQUEUE :: command where "QUERYQUEUE \<equiv> 6"
abbreviation (input) NEXTSONG :: command where "NEXTSONG \<equiv> 7"
abbreviation (input) PAUSEPLAYBACK :: command where "PAUSEPLAYBACK \<equiv> 8"
abbreviation (input) STOPPLAYBACK :: command where "STOPPLAYBACK \<equiv> 9"
abbreviation (input) PLAY :: command where "PLAY \<equiv> 10"
abbreviation (input) PLAYPAUSE :: command where "PLAYPAUSE \<equiv> 11"
abbreviation (input) PLAYSTATION :: command where "PLAYSTATION \<equiv> 12"
abbreviation (input) PLAYQUICKMIX :: command where "PLAYQUICKMIX \<equiv> 13"
abbreviation (input) QUICKMIXINCLUDED :: command where "QUICKMIXINCLUDED \<equiv> 14"
abbreviation (input) QUICKMIXEXCLUDED :: command where "QUICKMIXEXCLUDED \<equiv> 15"
abbreviation (input) QUICKMIXSET :: command where "QUICKMIXSET \<equiv> 16"
abbreviation (input) QUICKMIXADD :: command where "QUICKMIXADD \<equiv> 17"
abbreviation (input) QUICKMIXDROP :: command where "QUICKMIXDROP \<equiv> 18"
abbreviation (input) QUICKMIXTOGGLE :: command where "QUICKMIXTOGGLE \<equiv> 19"
abbreviation (input) SELECTQUICKMIX :: command where "SELECTQUICKMIX \<equiv> 20"
abbreviation (input) SELECTSTATION :: command where "SELECTSTATION \<equiv> 21"
abbreviation (input) STATIONLIST :: command where "STATIONLIST \<equiv> 22"
abbreviation (input) STATIONRATINGS :: command where "STATIONRATINGS \<equiv> 23"
abbreviation (input) STATIONRATE :: command where "STATIONRATE \<equiv> 24"
abbreviation (input) AUTOTUNESETMODE :: command where "AUTOTUNESETMODE \<equiv> 25"
abbreviation (input) AUTOTUNEGETMODE :: command where "AUTOTUNEGETMODE \<equiv> 26"
abbreviation (input) AUTOTUNEUSERS :: command where "AUTOTUNEUSERS \<equiv> 27"
abbreviation (input) AUTOTUNEUSERSLIST :: command where "AUTOTUNEUSERSLIST \<equiv> 28"
abbreviation (input) AUTOTUNEADDREMOVE :: command where "AUTOTUNEADDREMOVE \<equiv> 29"
abbreviation (input) OWNER_RANGE_START :: command where "OWNER_RANGE_START \<equiv> 30"
abbreviation (input) STATIONINFO :: command where "STATIONINFO \<equiv> 31"
abbreviation (input) STATIONRENAME :: command where "STATIONRENAME \<equiv> 32"
abbreviation (input) STATIONDELETE :: command where "STATIONDELETE \<equiv> 33"
abbreviation (input) STATIONCREATEBYSONG :: command where "STATIONCREATEBYSONG \<equiv> 34"
abbreviation (input) STATIONCREATEBYSONGWNAME :: command where "STATIONCREATEBYSONGWNAME \<equiv> 35"
abbreviation (input) STATIONCREATE :: command where "STATIONCREATE \<equiv> 36"
abbreviation (input) STATIONCREATEWNAME :: command where "STATIONCREATEWNAME \<equiv> 37"
abbreviation (input) STATIONCREATEBYID :: command where "STATIONCREATEBYID \<equiv> 38"
abbreviation (input) STATIONCREATEBYIDWNAME :: command where "STATIONCREATEBYIDWNAME \<equiv> 39"
abbreviation (input) GETSUGGESTIONS :: command where "GETSUGGESTIONS \<equiv> 40"
abbreviation (input) RATELOVE :: command where "RATELOVE \<equiv> 41"
abbreviation (input) RATEHATE :: command where "RATEHATE \<equiv> 42"
abbreviation (input) RATENEUTRAL :: command where "RATENEUTRAL \<equiv> 43"
abbreviation (input) RATEOVERPLAYED :: command where "RATEOVERPLAYED \<equiv> 44"
abbreviation (input) SEEDADD :: command where "SEEDADD \<equiv> 45"
abbreviation (input) SEEDADDWSTATION :: command where "SEEDADDWSTATION \<equiv> 46"
abbreviation (input) SEEDDELETEBYSONG :: command where "SEEDDELETEBYSONG \<equiv> 47"
abbreviation (input) SEEDDELETEBYID :: command where "SEEDDELETEBYID \<equiv> 48"
abbreviation (input) SEEDADDBYSONG :: command where "SEEDADDBYSONG \<equiv> 49"
abbreviation (input) SEEDADDBYSONGWSTATION :: command where "SEEDADDBYSONGWSTATION \<equiv> 50"
abbreviation (input) EXPLAINSONGCHOICE :: command where "EXPLAINSONGCHOICE \<equiv> 51"
abbreviation (input) CREATEBOOKMARK :: command where "CREATEBOOKMARK \<equiv> 52"
abbreviation (input) OWNER_RANGE_END :: command where "OWNER_RANGE_END \<equiv> 53"
abbreviation (input) GETVOLUME :: command where "GETVOLUME \<equiv> 54"
abbreviation (input) SETVOLUME :: command where "SETVOLUME \<equiv> 55"
abbreviation (input) GETPROXY :: command where "GETPROXY \<equiv> 56"
abbreviation (input) SETPROXY :: command where "SETPROXY \<equiv> 57"
abbreviation (input) GETCONTROLPROXY :: command where "GETCONTROLPROXY \<equiv> 58"
abbreviation (input) SETCONTROLPROXY :: command where "SETCONTROLPROXY \<equiv> 59"
abbreviation (input) GETHISTORYSIZE :: command where "GETHISTORYSIZE \<equiv> 60"
abbreviation (input) SETHISTORYSIZE :: command where "SETHISTORYSIZE \<equiv> 61"
abbreviation (input) GETAUDIOQUALITY :: command where "GETAUDIOQUALITY \<equiv> 62"
abbreviation (input) SETAUDIOQUALITY :: command where "SETAUDIOQUALITY \<equiv> 63"
abbreviation (input) GETCAPTUREPATH :: command where "GETCAPTUREPATH \<equiv> 64"
abbreviation (input) SETCAPTUREPATH :: command where "SETCAPTUREPATH \<equiv> 65"
abbreviation (input) SETSHOUTCAST :: command where "SETSHOUTCAST \<equiv> 66"
abbreviation (input) GETRPCHOST :: command where "GETRPCHOST \<equiv> 67"
abbreviation (input) SETRPCHOST :: command where "SETRPCHOST \<equiv> 68"
abbreviation (input) GETRPCTLSPORT :: command where "GETRPCTLSPORT \<equiv> 69"
abbreviation (input) SETRPCTLSPORT :: command where "SETRPCTLSPORT \<equiv> 70"
abbreviation (input) GETPARTNER :: command where "GETPARTNER \<equiv> 71"
abbreviation (input) SETPARTNER :: command where "SETPARTNER \<equiv> 72"
abbreviation (input) GETPANDORADEVICE :: command where "GETPANDORADEVICE \<equiv> 73"
abbreviation (input) SETPANDORADEVICE :: command where "SETPANDORADEVICE \<equiv> 74"
abbreviation (input) GETENCRYPTPASSWORD :: command where "GETENCRYPTPASSWORD \<equiv> 75"
abbreviation (input) SETENCRYPTPASSWORD :: command where "SETENCRYPTPASSWORD \<equiv> 76"
abbreviation (input) GETDECRYPTPASSWORD :: command where "GETDECRYPTPASSWORD \<equiv> 77"
abbreviation (input) SETDECRYPTPASSWORD :: command where "SETDECRYPTPASSWORD \<equiv> 78"
abbreviation (input) GETTLSFINGERPRINT :: command where "GETTLSFINGERPRINT \<equiv> 79"
abbreviation (input) SETTLSFINGERPRINT :: command where "SETTLSFINGERPRINT \<equiv> 80"
abbreviation (input) GETOUTPUTDRIVER :: command where "GETOUTPUTDRIVER \<equiv> 81"
abbreviation (input) SETOUTPUTDRIVER :: command where "SETOUTPUTDRIVER \<equiv> 82"
abbreviation (input) GETOUTPUTDEVICE :: command where "GETOUTPUTDEVICE \<equiv> 83"
abbreviation (input) SETOUTPUTDEVICE :: command where "SETOUTPUTDEVICE \<equiv> 84"
abbreviation (input) GETOUTPUTID :: command where "GETOUTPUTID \<equiv> 85"
abbreviation (input) SETOUTPUTID :: command where "SETOUTPUTID \<equiv> 86"
abbreviation (input) GETOUTPUTSERVER :: command where "GETOUTPUTSERVER \<equiv> 87"
abbreviation (input) SETOUTPUTSERVER :: command where "SETOUTPUTSERVER \<equiv> 88"
abbreviation (input) TESTAUDIOOUTPUT :: command where "TESTAUDIOOUTPUT \<equiv> 89"
abbreviation (input) SETLOGGINGFLAGS :: command where "SETLOGGINGFLAGS \<equiv> 90"
abbreviation (input) SHOWUSERACTIONS :: command where "SHOWUSERACTIONS \<equiv> 91"
abbreviation (input) GETVISITORRANK :: command where "GETVISITORRANK \<equiv> 92"
abbreviation (input) SETVISITORRANK :: command where "SETVISITORRANK \<equiv> 93"
abbreviation (input) GETPAUSETIMEOUT :: command where "GETPAUSETIMEOUT \<equiv> 94"
abbreviation (input) SETPAUSETIMEOUT :: command where "SETPAUSETIMEOUT \<equiv> 95"
abbreviation (input) GETPLAYLISTTIMEOUT :: command where "GETPLAYLISTTIMEOUT \<equiv> 96"
abbreviation (input) SETPLAYLISTTIMEOUT :: command where "SETPLAYLISTTIMEOUT \<equiv> 97"
abbreviation (input) GETPANDORARETRY :: command where "GETPANDORARETRY \<equiv> 98"
abbreviation (input) SETPANDORARETRY :: command where "SETPANDORARETRY \<equiv> 99"
abbreviation (input) GETUSERRANK :: command where "GETUSERRANK \<equiv> 100"
abbreviation (input) GETPANDORAUSER :: command where "GETPANDORAUSER \<equiv> 101"
abbreviation (input) PANDORAUSER :: command where "PANDORAUSER \<equiv> 102"
abbreviation (input) PANDORAUSERSPECIFY :: command where "PANDORAUSERSPECIFY \<equiv> 103"
abbreviation (input) PANDORAEXISTING :: command where "PANDORAEXISTING \<equiv> 104"
abbreviation (input) WAITFORAUTHENTICATION :: command where "WAITFORAUTHENTICATION \<equiv> 105"
abbreviation (input) WAITFORENDOFSONG :: command where "WAITFORENDOFSONG \<equiv> 106"
abbreviation (input) WAITFORNEXTSONG :: command where "WAITFORNEXTSONG \<equiv> 107"
abbreviation (input) AUTHENTICATE :: command where "AUTHENTICATE \<equiv> 108"
abbreviation (input) AUTHANDEXEC :: command where "AUTHANDEXEC \<equiv> 109"
abbreviation (input) SETMYPASSWORD :: command where "SETMYPASSWORD \<equiv> 110"
abbreviation (input) USERCREATE :: command where "USERCREATE \<equiv> 111"
abbreviation (input) USERSETPASSWORD :: command where "USERSETPASSWORD \<equiv> 112"
abbreviation (input) USERSETRANK :: command where "USERSETRANK \<equiv> 113"
abbreviation (input) USERDELETE :: command where "USERDELETE \<equiv> 114"
abbreviation (input) USERGRANT :: command where "USERGRANT \<equiv> 115"
abbreviation (input) USERREVOKE :: command where "USERREVOKE \<equiv> 116"
abbreviation (input) USERLISTBYPRIVILEGE :: command where "USERLISTBYPRIVILEGE \<equiv> 117"
abbreviation (input) USERLIST :: command where "USERLIST \<equiv> 118"
abbreviation (input) USERLISTPANDORA :: command where "USERLISTPANDORA \<equiv> 119"
abbreviation (input) USERKICK :: command where "USERKICK \<equiv> 120"
abbreviation (input) USERKICKVISITORS :: command where "USERKICKVISITORS \<equiv> 121"
abbreviation (input) USERSONLINE :: command where "USERSONLINE \<equiv> 122"
abbreviation (input) YELL :: command where "YELL \<equiv> 123"
abbreviation (input) SHUTDOWN :: command where "SHUTDOWN \<equiv> 124"
abbreviation (input) QUIT :: command where "QUIT \<equiv> 125"

end
