(* ===== verification/Report.thy ===== *)
theory Report
  imports Seeds CommandCodes
begin

text \<open>
  \<open>src/src/response.c\<close>, second part: the reports on songs, stations, artists and the state of playback, and the
  announcement of what users do.  \<open>None\<close> is a failed assertion or a NULL printed as a string.
\<close>

section \<open>What users do\<close>

definition announce_action :: "nat \<Rightarrow> int \<Rightarrow> string option \<Rightarrow> appstate \<Rightarrow> appstate option" where
  "announce_action event code parameter app = do {
    k \<leftarrow> find_connection (service app) event;
    who \<leftarrow> (case conn_user k of None \<Rightarrow> Some ''A guest'' | Some u \<Rightarrow> get_user_name (users app) u);
    let status = (if code = I_YELL then I_YELL else I_INFO);
    Some (if broadcast_user_actions (settings app) \<or> code = I_YELL
      then on_service (emit Everyone status (who @ '' '' @ Response code @
        (case parameter of None \<Rightarrow> [] | Some p \<Rightarrow> '': '' @ p))) app
      else app)
  }"

section \<open>Playback\<close>

text \<open>\<open>%02i\<close>\<close>

definition show_02 :: "nat \<Rightarrow> string" where
  "show_02 n = (if n < 10 then CHR ''0'' # show_nat n else show_nat n)"

text \<open>Division of C, towards zero.\<close>

definition c_div :: "int \<Rightarrow> int \<Rightarrow> int" where
  "c_div a b = sgn a * sgn b * (\<bar>a\<bar> div \<bar>b\<bar>)"

definition show_time :: "nat \<Rightarrow> string" where
  "show_time ms = show_02 (ms div BAR_PLAYER_MS_TO_S_FACTOR div 60) @ '':''
    @ show_02 (ms div BAR_PLAYER_MS_TO_S_FACTOR mod 60)"

definition send_playback_status :: "dest \<Rightarrow> appstate \<Rightarrow> appstate" where
  "send_playback_status there app =
    (if mode (player app) \<ge> PLAYER_SAMPLESIZE_INITIALIZED \<and> mode (player app) < PLAYER_FINISHED_PLAYBACK then
       let state = (if playback_state app = PAUSED then I_PAUSED
             else if stalled (stall app) then I_STALLED else I_PLAYING);
           duration = songDuration (player app);
           played = songPlayed (player app);
           remaining = c_div (int duration - int played) 1000;
           sign = (if remaining < 0 then CHR ''+'' else CHR ''-'');
           left = nat \<bar>remaining\<bar>
       in on_service (emit there state (show_time played @ ''/'' @ show_time duration @ ''/'' @ sign #
         show_02 (left div 60) @ '':'' @ show_02 (left mod 60) @ '' '' @ Response state)) app
     else on_service (send_response there
       (if playback_state app = PLAYING \<and> selected_station app \<noteq> None then I_BETWEEN_TRACKS else I_STOPPED)) app)"

section \<open>Songs\<close>

datatype station_info_type = INFO_SONG | INFO_FEEDBACK | INFO_SONGSEED | INFO_STATIONSEED | INFO_ARTISTSEED
  | INFO_SONGSUGGESTION | INFO_ARTISTSUGGESTION | INFO_GENRESUGGESTION

primrec info_char :: "station_info_type \<Rightarrow> char" where
  "info_char INFO_SONG = CHR 0x00"
| "info_char INFO_FEEDBACK = CHR ''f''"
| "info_char INFO_SONGSEED = CHR ''s''"
| "info_char INFO_STATIONSEED = CHR ''t''"
| "info_char INFO_ARTISTSEED = CHR ''a''"
| "info_char INFO_SONGSUGGESTION = CHR ''S''"
| "info_char INFO_ARTISTSUGGESTION = CHR ''A''"
| "info_char INFO_GENRESUGGESTION = CHR ''G''"

definition send_id :: "dest \<Rightarrow> station_info_type \<Rightarrow> string \<Rightarrow> service \<Rightarrow> service" where
  "send_id there t i = emit there I_ID (Response I_ID @ '': '' @ [info_char t] @ i)"

text \<open>There is a third kind, whose assertion always fails.\<close>

definition send_seed_rating :: "dest \<Rightarrow> song \<Rightarrow> station_info_type \<Rightarrow> service \<Rightarrow> service option" where
  "send_seed_rating there song t sv =
    (if t = INFO_FEEDBACK then
       (if song_rating song = PIANO_RATE_NONE then None
        else Some (send_data there I_RATING (Some (if song_rating song = PIANO_RATE_LOVE then ''good'' else ''bad'')) sv))
     else if t = INFO_SONGSEED then
       (if seedId song = None then None else Some (send_data there I_RATING (Some ''seed'') sv))
     else None)"

definition send_song_rating :: "dest \<Rightarrow> song \<Rightarrow> appstate \<Rightarrow> appstate option" where
  "send_song_rating there song app = do {
    artist_seed \<leftarrow> song_has_artist_seed song app;
    Some (on_service (emit there I_RATING (Response I_RATING @ '': ''
      @ (if song_rating song = PIANO_RATE_LOVE then ''good''
         else if song_rating song = PIANO_RATE_BAN then ''bad'' else ''neutral'')
      @ (if seedId song \<noteq> None then '' seed'' else [])
      @ (if artist_seed then '' artistseed'' else []))) app)
  }"

definition send_song_or_detail_info :: "dest \<Rightarrow> song \<Rightarrow> station_info_type \<Rightarrow> appstate \<Rightarrow> appstate option" where
  "send_song_or_detail_info there song t app = do {
    app \<leftarrow> (if t = INFO_SONG then Some (on_service (send_data there I_ID (trackToken song)) app)
      else if t = INFO_FEEDBACK \<or> t = INFO_SONGSEED \<or> t = INFO_SONGSUGGESTION then do {
        i \<leftarrow> (if t = INFO_FEEDBACK then feedbackId song
          else if t = INFO_SONGSUGGESTION then musicId song else seedId song);
        Some (on_service (send_id there t i) app)
      } else None);
    let app = on_service (send_data there I_ALBUM (album song)) app;
    let app = on_service (send_data there I_ARTIST (Some (artist song))) app;
    let app = on_service (send_data there I_SONG (Some (title song))) app;
    let app = on_service (send_data there I_COVERART (coverArt song)) app;
    let app = (case Option.bind (stationId song) (PianoFindStationById (stations (ph app))) of
        None \<Rightarrow> app
      | Some s \<Rightarrow> on_service (send_data there I_STATION (Some (st_name s))) app);
    app \<leftarrow> (if t = INFO_SONG then send_song_rating there song app
      else if t = INFO_FEEDBACK \<or> t = INFO_SONGSEED then do {
        sv \<leftarrow> send_seed_rating there song t (service app);
        Some (app\<lparr>service := sv\<rparr>)
      } else Some app);
    Some (on_service (send_data there I_INFO_URL (detailUrl song)) app)
  }"

definition send_song_info :: "dest \<Rightarrow> song \<Rightarrow> appstate \<Rightarrow> appstate option" where
  "send_song_info there song app = send_song_or_detail_info there song INFO_SONG app"

fun send_songs_or_details :: "nat \<Rightarrow> song list \<Rightarrow> station_info_type \<Rightarrow> appstate \<Rightarrow> appstate option" where
  "send_songs_or_details event [] t app = Some app"
| "send_songs_or_details event (song # rest) t app = do {
    app \<leftarrow> send_song_or_detail_info (To event) song t (on_service (reply event S_DATA) app);
    app \<leftarrow> (if t = INFO_SONG then do {
        sid \<leftarrow> stationId song;
        k \<leftarrow> find_connection (service app) event;
        sv \<leftarrow> send_station_rating (users app) k sid (service app);
        Some (app\<lparr>service := sv\<rparr>)
      } else Some app);
    send_songs_or_details event rest t app
  }"

definition send_song_list :: "nat \<Rightarrow> song list \<Rightarrow> appstate \<Rightarrow> appstate option" where
  "send_song_list event songs app = do {
    app \<leftarrow> send_songs_or_details event songs INFO_SONG app;
    Some (on_service (send_response_code (To event) S_DATA_END (if songs \<noteq> [] then ''End of data'' else ''No data'')) app)
  }"

section \<open>Stations and artists\<close>

text \<open>Another command fails the assertion.\<close>

definition lists_station :: "command \<Rightarrow> station \<Rightarrow> bool option" where
  "lists_station cmd s =
    (if cmd = STATIONLIST then Some (\<not> isQuickMix s)
     else if cmd = QUICKMIXINCLUDED then Some (useQuickMix s \<and> \<not> isQuickMix s)
     else if cmd = QUICKMIXEXCLUDED then Some (\<not> useQuickMix s \<and> \<not> isQuickMix s)
     else None)"

fun send_stations :: "nat \<Rightarrow> command \<Rightarrow> station list \<Rightarrow> service \<Rightarrow> service option" where
  "send_stations event cmd [] sv = Some sv"
| "send_stations event cmd (s # rest) sv = do {
    listed \<leftarrow> lists_station cmd s;
    send_stations event cmd rest (if listed then send_data (To event) I_STATION (Some (st_name s)) sv else sv)
  }"

definition send_station_list :: "nat \<Rightarrow> command \<Rightarrow> station list \<Rightarrow> service \<Rightarrow> service option" where
  "send_station_list event cmd sts sv =
    map_option (reply event S_DATA_END) (send_stations event cmd sts (if sts \<noteq> [] then reply event S_DATA sv else sv))"

fun send_artists :: "nat \<Rightarrow> artist list \<Rightarrow> station_info_type \<Rightarrow> service \<Rightarrow> service option" where
  "send_artists event [] t sv = (if t = INFO_ARTISTSEED \<or> t = INFO_ARTISTSUGGESTION then Some sv else None)"
| "send_artists event (a # rest) t sv = do {
    i \<leftarrow> (if t = INFO_ARTISTSEED then artist_seedId a
      else if t = INFO_ARTISTSUGGESTION then artist_musicId a else None);
    let sv = send_id (To event) t i (reply event S_DATA sv);
    let sv = data_reply event I_ARTIST (artist_name a) sv;
    let sv = (if t = INFO_ARTISTSEED then data_reply event I_RATING ''artistseed'' sv else sv);
    send_artists event rest t sv
  }"

end
