(* ===== verification/SeedCommands.thy ===== *)
theory SeedCommands
  imports Report
begin

text \<open>
  \<open>src/src/seeds.c\<close>, second part: the commands that rate songs and manage seeds.

  A song is given by the reference get_song_by_id_or_current finds; reading through it after an exchange with Pandora
  gives the song as the exchange left it, since no exchange moves the lists of songs.
\<close>

section \<open>Expiry\<close>

text \<open>\<open>song == app->current_song\<close> compares addresses: it holds for the reference CurrentSong alone.\<close>

definition expire_station_info_by_song :: "world \<Rightarrow> song_ref \<Rightarrow> appstate \<Rightarrow> appstate option" where
  "expire_station_info_by_song w r app = do {
    song \<leftarrow> deref_song app r;
    sid \<leftarrow> stationId song;
    app \<leftarrow> expire_station_info_by_id w sid app;
    (if r = CurrentSong then do {
       song \<leftarrow> deref_song app r;
       send_song_rating Everyone song app
     } else Some app)
  }"

section \<open>Station information\<close>

fun send_station_seeds :: "nat \<Rightarrow> station list \<Rightarrow> service \<Rightarrow> service option" where
  "send_station_seeds event [] sv = Some sv"
| "send_station_seeds event (s # rest) sv = do {
    i \<leftarrow> st_seedId s;
    let sv = send_id (To event) INFO_STATIONSEED i (reply event S_DATA sv);
    let sv = data_reply event I_STATION (st_name s) sv;
    send_station_seeds event rest (data_reply event I_RATING ''stationseed'' sv)
  }"

definition send_station_info :: "world \<Rightarrow> nat \<Rightarrow> station \<Rightarrow> appstate \<Rightarrow> appstate option" where
  "send_station_info w event s app = do {
    (info, app) \<leftarrow> get_station_info w s app;
    (case info of
        None \<Rightarrow> Some (on_service (reply event E_NAK) app)
      | Some i \<Rightarrow> do {
          sv \<leftarrow> send_station_seeds event (stationSeeds i) (service app);
          sv \<leftarrow> send_artists event (artistSeeds i) INFO_ARTISTSEED sv;
          app \<leftarrow> send_songs_or_details event (feedback i) INFO_FEEDBACK (app\<lparr>service := sv\<rparr>);
          app \<leftarrow> send_songs_or_details event (songSeeds i) INFO_SONGSEED app;
          Some (on_service (reply event S_DATA_END) app)
        })
  }"

section \<open>Rating songs\<close>

text \<open>The song of the request data, which the answer to RATE_SONG changes.\<close>

fun rated_song :: "piano_request \<Rightarrow> song option" where
  "rated_song (RateSong song _) = Some song"
| "rated_song _ = None"

definition rate_neutral :: "world \<Rightarrow> nat \<Rightarrow> song_ref \<Rightarrow> appstate \<Rightarrow> appstate option" where
  "rate_neutral w event r app = do {
    app \<leftarrow> apply_station_info w app;
    song \<leftarrow> deref_song app r;
    (if feedbackId song = None
     then Some (on_service (reply event (if song_rating song = PIANO_RATE_NONE then S_OK else E_NAK)) app)
     else do {
       (ok, app, _) \<leftarrow> piano_transaction w (Some event) (DeleteFeedback song) app;
       (if ok then expire_station_info_by_song w r (update_song r (song_rating_update (\<lambda>_. PIANO_RATE_NONE)) app)
        else Some app)
     })
  }"

definition rate_love_or_hate :: "world \<Rightarrow> nat \<Rightarrow> rating \<Rightarrow> song_ref \<Rightarrow> appstate \<Rightarrow> appstate option" where
  "rate_love_or_hate w event new_rating r app = do {
    song \<leftarrow> deref_song app r;
    sid \<leftarrow> stationId song;
    (ok, app) \<leftarrow> pwn_station w event sid app;
    (if \<not> ok then Some app
     else if new_rating = song_rating song then Some (on_service (reply event S_OK) app)
     else do {
       (ok, app, req) \<leftarrow> piano_transaction w (Some event) (RateSong song new_rating) app;
       song \<leftarrow> rated_song req;
       let app = update_song r (\<lambda>_. song) app;
       (if ok then expire_station_info_by_song w r app else Some app)
     })
  }"

definition rate_song :: "world \<Rightarrow> nat \<Rightarrow> command \<Rightarrow> string option \<Rightarrow> appstate \<Rightarrow> appstate option" where
  "rate_song w event cmd song_id app = (case get_song_by_id_or_current event song_id app of
      (None, app) \<Rightarrow> Some app
    | (Some r, app) \<Rightarrow>
        if cmd = RATEOVERPLAYED then do {
          song \<leftarrow> deref_song app r;
          (_, app, _) \<leftarrow> piano_transaction w (Some event) (AddTiredSong song) app;
          Some app
        }
        else if cmd = RATENEUTRAL then rate_neutral w event r app
        else rate_love_or_hate w event (if cmd = RATELOVE then PIANO_RATE_LOVE else PIANO_RATE_BAN) r app)"

section \<open>Seeds by song\<close>

definition remove_song_seed :: "world \<Rightarrow> nat \<Rightarrow> bool \<Rightarrow> string option \<Rightarrow> appstate \<Rightarrow> appstate option" where
  "remove_song_seed w event by_artist song_id app = (case get_song_by_id_or_current event song_id app of
      (None, app) \<Rightarrow> Some app
    | (Some r, app) \<Rightarrow> do {
        song \<leftarrow> deref_song app r;
        seed \<leftarrow> (if by_artist then get_artist_seed_by_song song app else Some None);
        (if by_artist \<and> seed = None
         then Some (on_service (data_reply event E_INVALID ''Song does not have an artist seed.'') app)
         else if \<not> by_artist \<and> seedId song = None
         then Some (on_service (data_reply event E_INVALID ''Song does not have a song seed.'') app)
         else do {
           (ok, app, _) \<leftarrow> piano_transaction w (Some event)
             (if by_artist then DeleteSeed None seed None else DeleteSeed (Some song) None None) app;
           (if ok then expire_station_info_by_song w r app else Some app)
         })
      })"

text \<open>An empty id has the terminating NUL for its type, and the pointer then runs past it: not defined.\<close>

definition add_seed :: "world \<Rightarrow> nat \<Rightarrow> string option \<Rightarrow> string \<Rightarrow> appstate \<Rightarrow> appstate option" where
  "add_seed w event stationname suggestionid app = (case suggestionid of
      [] \<Rightarrow> None
    | t # suggestion \<Rightarrow> do {
        (station, app) \<leftarrow> get_station_by_name_or_current event stationname app;
        (case station of
            None \<Rightarrow> Some app
          | Some s \<Rightarrow>
              if t = CHR ''A'' \<or> t = CHR ''S'' \<or> t = CHR ''G'' then do {
                (ok, app) \<leftarrow> pwn_station w event (st_id s) app;
                (if \<not> ok then Some app
                 else do {
                   (ok, app, _) \<leftarrow> piano_transaction w (Some event) (AddSeed (st_id s) suggestion) app;
                   (if ok then expire_station_info w s app else Some app)
                 })
              }
              else Some (on_service (reply event E_INVALID) app))
      })"

fun search_results_of :: "piano_request \<Rightarrow> search_result option" where
  "search_results_of (Search _ r) = Some r"
| "search_results_of _ = None"

definition add_song_seed :: "world \<Rightarrow> nat \<Rightarrow> string option \<Rightarrow> bool \<Rightarrow> string option \<Rightarrow> appstate \<Rightarrow> appstate option" where
  "add_song_seed w event wanted by_artist songid app = (case get_song_by_id_or_current event songid app of
      (None, app) \<Rightarrow> Some app
    | (Some r, app) \<Rightarrow> do {
        song \<leftarrow> deref_song app r;
        station \<leftarrow> (case wanted of
            Some n \<Rightarrow> Some (PianoFindStationByName (stations (ph app)) n)
          | None \<Rightarrow> map_option (PianoFindStationById (stations (ph app))) (stationId song));
        (case station of
            None \<Rightarrow> Some (on_service (data_reply event E_NOTFOUND ''Station not found'') app)
          | Some s \<Rightarrow> do {
              (ok, app) \<leftarrow> pwn_station w event (st_id s) app;
              (if \<not> ok then Some app
               else do {
                 (ok, app, req) \<leftarrow> piano_transaction w None
                   (Search (if by_artist then artist song else title song) no_search_result) app;
                 found \<leftarrow> search_results_of req;
                 (if \<not> ok then Some (on_service (reply event E_NAK) app)
                  else (case (if by_artist
                        then Option.bind (find_artist_by_name (found_artists found) (artist song)) artist_musicId
                        else Option.bind (find_song_by_artist_and_title (found_songs found) (artist song) (title song))
                          musicId) of
                      None \<Rightarrow> Some (on_service (reply event E_NAK) app)
                    | Some mid \<Rightarrow> do {
                        (ok, app, _) \<leftarrow> piano_transaction w (Some event) (AddSeed (st_id s) mid) app;
                        (if ok then expire_station_info w s app else Some app)
                      }))
               })
            })
      })"

section \<open>Seeds by id\<close>

fun find_song_with :: "(song \<Rightarrow> string option) \<Rightarrow> string \<Rightarrow> song list \<Rightarrow> song option option" where
  "find_song_with field i [] = Some None"
| "find_song_with field i (s # rest) =
    Option.bind (field s) (\<lambda>x. if strcmp x i = 0 then Some (Some s) else find_song_with field i rest)"

fun find_artist_seed :: "string \<Rightarrow> artist list \<Rightarrow> artist option option" where
  "find_artist_seed i [] = Some None"
| "find_artist_seed i (a # rest) =
    Option.bind (artist_seedId a) (\<lambda>x. if strcmp x i = 0 then Some (Some a) else find_artist_seed i rest)"

fun find_station_seed :: "string \<Rightarrow> station list \<Rightarrow> station option option" where
  "find_station_seed i [] = Some None"
| "find_station_seed i (s # rest) =
    Option.bind (st_seedId s) (\<lambda>x. if strcmp x i = 0 then Some (Some s) else find_station_seed i rest)"

datatype seed_search = NoSuchType | NotCached | FoundIn string piano_request

text \<open>
  The loop over the cached stations; the result is the station it stops at and the request to send.  The type is looked at
  in the loop, so with an empty cache no type is refused.
\<close>

fun seed_loop :: "char \<Rightarrow> string \<Rightarrow> stationinfo_cache list \<Rightarrow> seed_search option" where
  "seed_loop t seedid [] = Some NotCached"
| "seed_loop t seedid (c # rest) = (let info = cache_info c in
    if t = CHR ''f'' then do {
      found \<leftarrow> find_song_with feedbackId seedid (feedback info);
      (case found of None \<Rightarrow> seed_loop t seedid rest | Some s \<Rightarrow> Some (FoundIn (cache_station c) (DeleteFeedback s)))
    }
    else if t = CHR ''s'' then do {
      found \<leftarrow> find_song_with seedId seedid (songSeeds info);
      (case found of None \<Rightarrow> seed_loop t seedid rest
        | Some s \<Rightarrow> Some (FoundIn (cache_station c) (DeleteSeed (Some s) None None)))
    }
    else if t = CHR ''a'' then do {
      found \<leftarrow> find_artist_seed seedid (artistSeeds info);
      (case found of None \<Rightarrow> seed_loop t seedid rest
        | Some a \<Rightarrow> Some (FoundIn (cache_station c) (DeleteSeed None (Some a) None)))
    }
    else if t = CHR ''t'' then do {
      found \<leftarrow> find_station_seed seedid (stationSeeds info);
      (case found of None \<Rightarrow> seed_loop t seedid rest
        | Some s \<Rightarrow> Some (FoundIn (cache_station c) (DeleteSeed None None (Some s))))
    }
    else Some NoSuchType)"

definition remove_seed :: "world \<Rightarrow> nat \<Rightarrow> string \<Rightarrow> appstate \<Rightarrow> appstate option" where
  "remove_seed w event seedid app = (case seedid of
      [] \<Rightarrow> None
    | t # i \<Rightarrow> do {
        found \<leftarrow> seed_loop t i (cache app);
        (case found of
            NoSuchType \<Rightarrow> Some (on_service (reply event E_INVALID) app)
          | NotCached \<Rightarrow> Some (on_service (reply event E_NOTFOUND) app)
          | FoundIn sid req \<Rightarrow> do {
              (ok, app, _) \<leftarrow> piano_transaction w (Some event) req app;
              (if ok then apply_station_info w (app\<lparr>cache := update_cached sid (\<lambda>c. c\<lparr>retrieved := 0\<rparr>) (cache app)\<rparr>)
               else Some app)
            })
      })"

end
