(* ===== verification/Query.thy ===== *)
theory Query
  imports Report
begin

text \<open>
  \<open>src/src/query.c\<close>: searching Pandora for artists, songs and genres; the last result is kept with the connection.
\<close>

fun starts_nocase :: "string \<Rightarrow> string \<Rightarrow> bool" where
  "starts_nocase hay [] = True"
| "starts_nocase [] (_ # _) = False"
| "starts_nocase (h # hay) (n # needle) = (to_lower h = to_lower n \<and> starts_nocase hay needle)"

text \<open>strcasestr, as a test.\<close>

fun strcasestr :: "string \<Rightarrow> string \<Rightarrow> bool" where
  "strcasestr [] needle = (needle = [])"
| "strcasestr (h # hay) needle = (starts_nocase (h # hay) needle \<or> strcasestr hay needle)"

definition destroy_search_context :: "nat \<Rightarrow> service \<Rightarrow> service" where
  "destroy_search_context c = update_connection c
    (\<lambda>k. if search_results k \<noteq> None then k\<lparr>search_results := None, search_term := None\<rparr> else k)"

definition send_genre :: "nat \<Rightarrow> genre_category \<Rightarrow> genre \<Rightarrow> service \<Rightarrow> service" where
  "send_genre event c g sv = data_reply event I_STATION (genre_name g)
    (data_reply event I_GENRE (category_name c)
      (send_id (To event) INFO_GENRESUGGESTION (genre_musicId g) (reply event S_DATA sv)))"

definition matching_genres :: "string \<Rightarrow> genre_category list \<Rightarrow> (genre_category \<times> genre) list" where
  "matching_genres search cs = concat (map (\<lambda>c.
    map (Pair c) (filter (\<lambda>g. strcasestr (category_name c) search \<or> strcasestr (genre_name g) search) (genres c))) cs)"

definition send_genres :: "world \<Rightarrow> nat \<Rightarrow> string \<Rightarrow> appstate \<Rightarrow> appstate option" where
  "send_genres w event search app = do {
    (ok, app) \<leftarrow> (if genreStations (ph app) = [] then do {
        (ok, app, _) \<leftarrow> piano_transaction w None GetGenreStations app;
        Some (ok, app)
      } else Some (True, app));
    Some (if ok then on_service (fold (\<lambda>(c, g). send_genre event c g) (matching_genres search (genreStations (ph app)))) app
      else app)
  }"

fun query_results :: "piano_request \<Rightarrow> search_result option" where
  "query_results (Search _ r) = Some r"
| "query_results _ = None"

text \<open>The search itself: whether to go on, and the state.\<close>

definition refresh_query :: "world \<Rightarrow> nat \<Rightarrow> string option \<Rightarrow> appstate \<Rightarrow> (bool \<times> appstate) option" where
  "refresh_query w event term app = do {
    k \<leftarrow> find_connection (service app) event;
    (case term of
        None \<Rightarrow> Some (True, app)
      | Some t \<Rightarrow>
          if (case search_term k of None \<Rightarrow> False | Some old \<Rightarrow> strcasecmp old t = 0) then Some (True, app)
          else do {
            (ok, app, req) \<leftarrow> piano_transaction w None (Search t no_search_result)
              (on_service (destroy_search_context event) app);
            (if ok then do {
               r \<leftarrow> query_results req;
               Some (True, on_service (update_connection event
                 (\<lambda>k. k\<lparr>search_term := Some t, search_results := Some r\<rparr>)) app)
             }
             else Some (False, on_service (reply event E_NAK) app))
          })
  }"

text \<open>\<open>what\<close> is the second word of the command, \<open>term\<close> the third, which is also what is remembered.\<close>

definition perform_query :: "world \<Rightarrow> nat \<Rightarrow> string \<Rightarrow> string option \<Rightarrow> appstate \<Rightarrow> appstate option" where
  "perform_query w event what term app = do {
    let showAny = (strcasecmp what ''any'' = 0);
    k \<leftarrow> find_connection (service app) event;
    (if term = None \<and> search_results k = None
     then Some (on_service (data_reply event E_WRONG_STATE ''Search must be performed.'') app)
     else do {
       (ok, app) \<leftarrow> refresh_query w event term app;
       (if \<not> ok then Some app
        else do {
          k \<leftarrow> find_connection (service app) event;
          found \<leftarrow> search_results k;
          app \<leftarrow> (if showAny \<or> strcasecmp what ''artist'' = 0 then do {
              sv \<leftarrow> send_artists event (found_artists found) INFO_ARTISTSUGGESTION (service app);
              Some (app\<lparr>service := sv\<rparr>)
            } else Some app);
          app \<leftarrow> (if showAny \<or> strcasecmp what ''song'' = 0
            then send_songs_or_details event (found_songs found) INFO_SONGSUGGESTION app else Some app);
          app \<leftarrow> (if showAny \<or> strcasecmp what ''genre'' = 0 then do {
              t \<leftarrow> search_term k;
              send_genres w event t app
            } else Some app);
          Some (on_service (reply event S_DATA_END) app)
        })
     })
  }"

section \<open>strcasestr finds a substring whatever the case\<close>

lemma starts_nocase_iff: "starts_nocase hay needle \<longleftrightarrow> (\<exists>r. map to_lower hay = map to_lower needle @ r)"
  by (induction hay needle rule: starts_nocase.induct) auto

lemma strcasestr_iff:
  "strcasestr hay needle \<longleftrightarrow> (\<exists>a b. map to_lower hay = a @ map to_lower needle @ b)"
proof (induction hay)
  case (Cons h hay)
  show ?case
  proof
    assume "strcasestr (h # hay) needle"
    then consider "starts_nocase (h # hay) needle" | "strcasestr hay needle" by auto
    then show "\<exists>a b. map to_lower (h # hay) = a @ map to_lower needle @ b"
    proof cases
      case 1
      then show ?thesis unfolding starts_nocase_iff by (metis append_Nil)
    next
      case 2
      then obtain a b where "map to_lower hay = a @ map to_lower needle @ b" using Cons.IH by blast
      then have "map to_lower (h # hay) = (to_lower h # a) @ map to_lower needle @ b" by simp
      then show ?thesis by blast
    qed
  next
    assume "\<exists>a b. map to_lower (h # hay) = a @ map to_lower needle @ b"
    then obtain a b where ab: "map to_lower (h # hay) = a @ map to_lower needle @ b" by blast
    show "strcasestr (h # hay) needle"
    proof (cases a)
      case Nil
      then show ?thesis using ab by (auto simp: starts_nocase_iff)
    next
      case (Cons x xs)
      then show ?thesis using ab Cons.IH by auto
    qed
  qed
qed auto

end
