(* ===== verification/Settings.thy ===== *)
theory Settings
  imports Report
begin

text \<open>
  \<open>src/src/settings.c\<close>: the defaults, where the configuration lives, and the commands that report and change settings.
  Dropping root privileges and creating files for another user are calls of the operating system and left out.
\<close>

section \<open>Defaults\<close>

text \<open>\<open>getenv\<close> is the environment, \<open>as_root\<close> whether the process runs as root, \<open>sysconfdir\<close> the directory of the build.\<close>

definition settings_get_config_dir :: "(string \<Rightarrow> string option) \<Rightarrow> bool \<Rightarrow> string \<Rightarrow> string \<Rightarrow> string \<Rightarrow> nat \<Rightarrow> string" where
  "settings_get_config_dir getenv as_root sysconfdir package filename retDirN =
    (case getenv ''XDG_CONFIG_HOME'' of
        Some (c # xdg) \<Rightarrow> snprintf retDirN ((c # xdg) @ ''/'' @ package @ ''/'' @ filename)
      | _ \<Rightarrow>
          if as_root then snprintf retDirN (sysconfdir @ ''/'' @ package @ ''.'' @ filename)
          else (case getenv ''HOME'' of
              Some (c # home) \<Rightarrow> snprintf retDirN ((c # home) @ ''/.config/'' @ package @ ''/'' @ filename)
            | _ \<Rightarrow> snprintf retDirN (package @ ''/'' @ filename)))"

definition TLS_FINGERPRINT_SIZE :: nat where
  "TLS_FINGERPRINT_SIZE = 20"

definition settings_initialize :: "(string \<Rightarrow> string option) \<Rightarrow> bool \<Rightarrow> string \<Rightarrow> settings" where
  "settings_initialize getenv as_root sysconfdir =
    \<lparr>rpcHost = Some ''tuner.pandora.com'', rpcTlsPort = None, partnerUser = Some ''android'',
     partnerPassword = Some ''AC7IBG09A3DTSYM4R41UJWL07VLN8JI7'', device = Some ''android-generic'',
     inkey = Some ''R=U!LH$O2B#'', outkey = Some ''6#26FRL$ZWD'',
     volume = 0, pandora_retry = 60, pandora = no_credentials, pending = no_credentials, control_proxy = None,
     proxy = (case getenv ''http_proxy'' of Some (c # p) \<Rightarrow> Some (c # p) | _ \<Rightarrow> None),
     capture_path = None, capture_pathlen = 0, shoutcast_server = None,
     tlsFingerprint = [0xFC, 0x2E, 0x6A, 0xF4, 0x9F, 0xC6, 0x3A, 0xED, 0xAD, 0x10, 0x78, 0xDC, 0x22, 0xD1, 0x18,
       0x5B, 0x80, 0x9E, 0x75, 0x34],
     audioQuality = PIANO_AQ_MEDIUM, history_length = 5, port = 4445, http_port = 4446, https_port = 4447,
     broadcast_user_actions = True, pause_timeout = 1800, playlist_expiration = 3600,
     user_file = settings_get_config_dir getenv as_root sysconfdir ''pianod'' ''passwd'' 4096,
     automatic_mode = TUNE_ON_LOGINS, output_driver = None, output_device = None, output_id = None,
     output_server = None\<rparr>"

section \<open>Commands\<close>

definition report_setting :: "nat \<Rightarrow> int \<Rightarrow> string option \<Rightarrow> service \<Rightarrow> service" where
  "report_setting event i setting sv = (case setting of
      Some v \<Rightarrow> reply event S_DATA_END (data_reply event i v (reply event S_DATA sv))
    | None \<Rightarrow> data_reply event S_DATA_END ''Parameter is unset.'' sv)"

text \<open>\<open>set\<close> writes the field; strdup is assumed to find memory.\<close>

definition change_setting :: "nat \<Rightarrow> string option \<Rightarrow> (string option \<Rightarrow> settings \<Rightarrow> settings) \<Rightarrow> appstate \<Rightarrow> appstate" where
  "change_setting event newvalue field app =
    (on_service (reply event S_OK) (on_settings (field newvalue) app))\<lparr>pianoparam_change_pending := True\<rparr>"

definition hex_char :: "nat \<Rightarrow> char" where
  "hex_char n = (if n < 10 then char_of (48 + n) else char_of (87 + n))"

text \<open>\<open>%02x\<close>\<close>

definition show_02x :: "byte \<Rightarrow> string" where
  "show_02x b = [hex_char (unat b div 16), hex_char (unat b mod 16)]"

definition report_fingerprint :: "nat \<Rightarrow> bytes \<Rightarrow> service \<Rightarrow> service" where
  "report_fingerprint event fingerprint sv = reply event S_DATA_END
    (emit (To event) I_TLSFINGERPRINT (Response I_TLSFINGERPRINT @ '': '' @
      concat (map show_02x (take TLS_FINGERPRINT_SIZE fingerprint))) (reply event S_DATA sv))"

definition xdigit :: "char \<Rightarrow> nat option" where
  "xdigit c = (let n = of_char c :: nat in
    if 48 \<le> n \<and> n \<le> 57 then Some (n - 48)
    else if 65 \<le> n \<and> n \<le> 70 then Some (n - 55)
    else if 97 \<le> n \<and> n \<le> 102 then Some (n - 87)
    else None)"

definition isxdigit :: "char \<Rightarrow> bool" where
  "isxdigit c = (xdigit c \<noteq> None)"

text \<open>The loop over the pairs of digits.\<close>

fun hex_pairs :: "string \<Rightarrow> bytes" where
  "hex_pairs (a # b # rest) = word_of_nat (16 * the (xdigit a) + the (xdigit b)) # hex_pairs rest"
| "hex_pairs _ = []"

definition change_fingerprint :: "nat \<Rightarrow> string \<Rightarrow> appstate \<Rightarrow> bool \<times> appstate" where
  "change_fingerprint event newvalue app =
    (if length newvalue = 2 * TLS_FINGERPRINT_SIZE \<and> list_all isxdigit newvalue then
       (True, (on_service (reply event S_OK) (on_settings (tlsFingerprint_update (\<lambda>_. hex_pairs newvalue)) app))
         \<lparr>pianoparam_change_pending := True\<rparr>)
     else (False, on_service (reply event E_INVALID) app))"

section \<open>A fingerprint is reported as it was given\<close>

lemma xdigit_range: "xdigit c = Some n \<Longrightarrow> n < 16"
  by (auto simp: xdigit_def Let_def split: if_splits)

lemma hex_char_xdigit: "xdigit c = Some n \<Longrightarrow> hex_char n = to_lower c"
  by (auto simp: xdigit_def hex_char_def to_lower_def Let_def split: if_splits)

lemma show_02x_pair:
  assumes "xdigit a = Some m" and "xdigit b = Some n"
  shows "show_02x (word_of_nat (16 * m + n)) = [to_lower a, to_lower b]"
proof -
  have "m < 16" "n < 16" using assms xdigit_range by blast+
  then have "unat (word_of_nat (16 * m + n) :: byte) = 16 * m + n"
    by (simp only: unat_of_nat len_of_numeral_defs) simp
  then show ?thesis
    using assms \<open>n < 16\<close> by (simp add: show_02x_def hex_char_xdigit)
qed

lemma hex_pairs_show:
  "\<lbrakk>even (length s); list_all isxdigit s\<rbrakk> \<Longrightarrow> concat (map show_02x (hex_pairs s)) = map to_lower s \<and> length (hex_pairs s) = length s div 2"
proof (induction s rule: hex_pairs.induct)
  case (1 a b rest)
  then obtain m n where "xdigit a = Some m" "xdigit b = Some n" by (auto simp: isxdigit_def)
  then show ?case using 1 show_02x_pair by auto
qed auto

text \<open>
  The TLS fingerprint is only replaced by a whole one and is reported as it was given: change_fingerprint accepts exactly the strings
  of 40 hexadecimal digits; what report_fingerprint then sends is that string in lower case; any other
  string is refused and leaves the fingerprint alone.
\<close>
theorem fingerprint_roundtrip:
  "(if length s = 40 \<and> list_all isxdigit s
    then fst (change_fingerprint event s app) \<and>
      out (report_fingerprint event (tlsFingerprint (settings (snd (change_fingerprint event s app)))) sv) =
        out sv @ [(To event, S_DATA, Response S_DATA),
          (To event, I_TLSFINGERPRINT, Response I_TLSFINGERPRINT @ '': '' @ map to_lower s),
          (To event, S_DATA_END, Response S_DATA_END)]
    else \<not> fst (change_fingerprint event s app) \<and>
      settings (snd (change_fingerprint event s app)) = settings app)"
proof (cases "length s = 40 \<and> list_all isxdigit s")
  case True
  then have "concat (map show_02x (hex_pairs s)) = map to_lower s" "length (hex_pairs s) = 20"
    using hex_pairs_show [of s] by auto
  then show ?thesis
    using True by (simp add: change_fingerprint_def report_fingerprint_def TLS_FINGERPRINT_SIZE_def on_service_def
        on_settings_def sending)
next
  case False
  then show ?thesis by (auto simp: change_fingerprint_def TLS_FINGERPRINT_SIZE_def on_service_def)
qed

end
