(* ===== verification/FbArgv.thy ===== *)
theory FbArgv
  imports Prelude
begin

text \<open>
  Splitting a command line into words, \<open>fb_create_argv\<close> of \<open>src/src/libfootball/fb_parser.c\<close>.  A word is kept with its
  remainder, the command line from that word on.  The characters of a string are those in front of its NUL.
\<close>

section \<open>The code\<close>

definition quote_char :: char where
  "quote_char = CHR 0x22"

text \<open>The count of words that gives the size of the vector; quotes do not matter to it.\<close>

function count_words :: "string \<Rightarrow> nat" where
  "count_words c = (if c = [] then 0 else 1 + count_words (dropWhile is_space (dropWhile (\<lambda>x. \<not> is_space x) c)))"
  by pat_completeness auto

lemma dropWhile_both_shorter:
  assumes "c \<noteq> []"
  shows "length (dropWhile is_space (dropWhile (\<lambda>x. \<not> is_space x) c)) < length c"
proof (cases "is_space (hd c)")
  case True
  then show ?thesis using assms length_dropWhile_le [of is_space "tl c"] by (cases c) auto
next
  case False
  then have "length (dropWhile (\<lambda>x. \<not> is_space x) c) < length c"
    using assms length_dropWhile_le [of "\<lambda>x. \<not> is_space x" "tl c"] by (cases c) auto
  then show ?thesis by (meson le_less_trans length_dropWhile_le)
qed

termination count_words
  by (relation "measure length") (auto intro: dropWhile_both_shorter)

declare count_words.simps [simp del]

text \<open>A quoted word ends at a quote at the end of a word; the result is its text and the line from where it stopped.\<close>

fun quoted_word :: "string \<Rightarrow> string \<times> string" where
  "quoted_word [] = ([], [])"
| "quoted_word (c # cs) =
    (if c = quote_char \<and> (cs = [] \<or> is_space (hd cs)) then ([], c # cs)
     else let (t, r) = quoted_word cs in (c # t, r))"

definition next_word :: "string \<Rightarrow> string \<times> string" where
  "next_word c = (if c \<noteq> [] \<and> hd c = quote_char then quoted_word (tl c)
    else (takeWhile (\<lambda>x. \<not> is_space x) c, dropWhile (\<lambda>x. \<not> is_space x) c))"

function argv_words :: "string \<Rightarrow> (string \<times> string) list" where
  "argv_words c = (if c = [] then []
    else (fst (next_word c), c) # argv_words (dropWhile is_space (drop 1 (snd (next_word c)))))"
  by pat_completeness auto

lemma quoted_word_shorter: "length (snd (quoted_word c)) \<le> length c"
  by (induction c) (auto split: prod.splits)

termination argv_words
proof (relation "measure length")
  fix c :: string
  assume c: "c \<noteq> []"
  have "length (drop 1 (snd (next_word c))) < length c"
    using c quoted_word_shorter [of "tl c"] length_dropWhile_le [of "\<lambda>x. \<not> is_space x" c]
    by (cases c) (auto simp: next_word_def)
  then show "(dropWhile is_space (drop 1 (snd (next_word c))), c) \<in> measure length"
    by (auto intro: le_less_trans [OF length_dropWhile_le])
qed auto

declare argv_words.simps [simp del]

definition fb_create_argv :: "string \<Rightarrow> string list \<times> string list" where
  "fb_create_argv commandline = (let ws = argv_words (dropWhile is_space commandline) in (map fst ws, map snd ws))"

text \<open>The slots that are allocated: two vectors with a NULL each.\<close>

definition argv_slots :: "string \<Rightarrow> nat" where
  "argv_slots commandline = (count_words (dropWhile is_space commandline) + 1) * 2"

section \<open>The vector is large enough\<close>

lemma count_words_Nil [simp]: "count_words [] = 0"
  by (subst count_words.simps) simp

lemma dropWhile_append_if: "dropWhile P (a @ b) = (if dropWhile P a = [] then dropWhile P b else dropWhile P a @ b)"
  by (induction a) auto

lemma count_words_boundary:
  "\<lbrakk>a \<noteq> []; \<not> is_space (hd a); b = [] \<or> is_space (hd b)\<rbrakk> \<Longrightarrow> count_words (dropWhile is_space b) < count_words (a @ b)"
proof (induction "length a" arbitrary: a rule: less_induct)
  case less
  let ?r = "dropWhile (\<lambda>x. \<not> is_space x) a"
  have step: "count_words (a @ b) = 1 + count_words (dropWhile is_space (?r @ b))"
  proof -
    have "dropWhile (\<lambda>x. \<not> is_space x) (a @ b) = ?r @ b"
      using less.prems(3) by (cases b) (auto simp: dropWhile_append_if)
    then show ?thesis using less.prems(1) by (subst count_words.simps) auto
  qed
  show ?case
  proof (cases "dropWhile is_space ?r = []")
    case True
    then have "dropWhile is_space (?r @ b) = dropWhile is_space b"
      by (simp only: dropWhile_append_if simp_thms if_True)
    then show ?thesis using step by simp
  next
    case False
    then have r: "dropWhile is_space (?r @ b) = dropWhile is_space ?r @ b"
      by (simp only: dropWhile_append_if if_False)
    have "length (dropWhile is_space ?r) < length a"
      using less.prems(1) by (rule dropWhile_both_shorter)
    then have "count_words (dropWhile is_space b) < count_words (dropWhile is_space ?r @ b)"
      using less.hyps False hd_dropWhile [OF False] less.prems(3) by blast
    then show ?thesis using step r by simp
  qed
qed

lemma quoted_word_split:
  "quoted_word c = (t, r) \<Longrightarrow> c = t @ r \<and> (r = [] \<or> (\<exists>r'. r = quote_char # r' \<and> (r' = [] \<or> is_space (hd r'))))"
  by (induction c arbitrary: t) (auto split: prod.splits if_splits)

lemma count_words_next:
  assumes "c \<noteq> []" and "\<not> is_space (hd c)"
  shows "count_words (dropWhile is_space (drop 1 (snd (next_word c)))) < count_words c"
proof (cases "hd c = quote_char")
  case True
  then obtain t r where q: "quoted_word (tl c) = (t, r)" "next_word c = (t, r)"
    using assms(1) by (cases "quoted_word (tl c)") (auto simp: next_word_def)
  obtain s where c: "c = quote_char # s" using True assms(1) by (cases c) auto
  have "s = t @ r" "r = [] \<or> (\<exists>r'. r = quote_char # r' \<and> (r' = [] \<or> is_space (hd r')))"
    using quoted_word_split [OF q(1)] c by auto
  then consider "r = []" | r' where "s = t @ quote_char # r'" "r = quote_char # r'" "r' = [] \<or> is_space (hd r')"
    by auto
  then show ?thesis
  proof cases
    case 1
    then show ?thesis using q(2) assms(1) by (subst (2) count_words.simps) simp
  next
    case (2 r')
    have "count_words (dropWhile is_space r') < count_words ((quote_char # t @ [quote_char]) @ r')"
      using 2(3) c assms(2) by (intro count_words_boundary) auto
    then show ?thesis using 2 c q(2) by simp
  qed
next
  case False
  then have s: "snd (next_word c) = dropWhile (\<lambda>x. \<not> is_space x) c" by (simp add: next_word_def)
  let ?r = "dropWhile (\<lambda>x. \<not> is_space x) c"
  have "dropWhile is_space (drop 1 ?r) = dropWhile is_space ?r"
  proof (cases ?r)
    case (Cons x xs)
    then have "is_space x" using hd_dropWhile [of "\<lambda>x. \<not> is_space x" c] by auto
    then show ?thesis using Cons by simp
  next
    case Nil
    show ?thesis unfolding Nil by simp
  qed
  then show ?thesis using s assms(1) by (subst (2) count_words.simps) simp
qed

lemma length_argv_words:
  "c = [] \<or> \<not> is_space (hd c) \<Longrightarrow> length (argv_words c) \<le> count_words c"
proof (induction "length c" arbitrary: c rule: less_induct)
  case less
  show ?case
  proof (cases "c = []")
    case True
    then show ?thesis by (simp add: argv_words.simps)
  next
    case False
    let ?d = "dropWhile is_space (drop 1 (snd (next_word c)))"
    have "length (drop 1 (snd (next_word c))) < length c"
      using False quoted_word_shorter [of "tl c"] length_dropWhile_le [of "\<lambda>x. \<not> is_space x" c]
      by (cases c) (auto simp: next_word_def)
    then have "length ?d < length c" by (meson le_less_trans length_dropWhile_le)
    moreover have "?d = [] \<or> \<not> is_space (hd ?d)" using hd_dropWhile by blast
    ultimately have "length (argv_words ?d) \<le> count_words ?d" using less.hyps by blast
    moreover have "count_words ?d < count_words c" using count_words_next False less.prems by blast
    ultimately show ?thesis using False by (subst argv_words.simps) simp
  qed
qed

text \<open>
  fb_create_argv never writes beyond the vector it allocates: the words it finds, quoted words included, and the
  remainders, with a NULL behind each, fit into the slots counted in its first pass, which does not look at quotes.
\<close>
theorem fb_create_argv_fits:
  "length (fst (fb_create_argv commandline)) + 1 + (length (snd (fb_create_argv commandline)) + 1) \<le> argv_slots commandline"
proof -
  let ?c = "dropWhile is_space commandline"
  have "length (argv_words ?c) \<le> count_words ?c"
    using length_argv_words hd_dropWhile by blast
  then show ?thesis by (simp add: fb_create_argv_def argv_slots_def Let_def)
qed

section \<open>Quoting a word protects it\<close>

text \<open>A word that cannot end early: no quote of it is in front of a space.\<close>

fun quotable :: "string \<Rightarrow> bool" where
  "quotable (a # b # w) = (\<not> (a = quote_char \<and> is_space b) \<and> quotable (b # w))"
| "quotable w = True"

definition quoted :: "string \<Rightarrow> string" where
  "quoted w = quote_char # w @ [quote_char]"

lemma is_space_quote [simp]: "\<not> is_space quote_char"
  by (simp add: is_space_def quote_char_def)

lemma quoted_word_text:
  "\<lbrakk>quotable w; rest = [] \<or> is_space (hd rest)\<rbrakk> \<Longrightarrow> quoted_word (w @ quote_char # rest) = (w, quote_char # rest)"
proof (induction w rule: quotable.induct)
  case (1 a b w)
  have IH: "quoted_word (b # w @ quote_char # rest) = (b # w, quote_char # rest)"
    using 1 by simp
  show ?case
    using IH "1.prems"(1) by (auto simp del: quoted_word.simps simp: quoted_word.simps(2) [of a])
qed auto

lemma argv_words_quoted:
  assumes "quotable w" and "rest = [] \<or> is_space (hd rest)"
  shows "argv_words (quoted w @ rest) = (w, quoted w @ rest) # argv_words (dropWhile is_space rest)"
  using quoted_word_text [OF assms]
  by (subst argv_words.simps) (simp add: next_word_def quoted_def)

text \<open>
  C22: What a client puts in quotes arrives as one word: a command line made of quoted words with spaces between them is split into
  exactly these words, empty ones and words with spaces included, as long as no word has a quote directly in
  front of a space.
\<close>
theorem fb_create_argv_quoted:
  "list_all quotable ws \<Longrightarrow> fst (fb_create_argv (concat (map (\<lambda>w. CHR '' '' # quoted w) ws))) = ws"
proof (induction ws)
  case Nil
  then show ?case by (simp add: fb_create_argv_def argv_words.simps)
next
  case (Cons w ws)
  let ?rest = "concat (map (\<lambda>w. CHR '' '' # quoted w) ws)"
  have sp: "is_space (CHR '' '')" by (simp add: is_space_def)
  have "?rest = [] \<or> is_space (hd ?rest)" by (cases ws) (auto simp: sp)
  then have "argv_words (quoted w @ ?rest) = (w, quoted w @ ?rest) # argv_words (dropWhile is_space ?rest)"
    using Cons.prems argv_words_quoted by simp
  moreover have "dropWhile is_space (CHR '' '' # quoted w @ ?rest) = quoted w @ ?rest"
    by (simp add: sp quoted_def)
  ultimately show ?case using Cons by (simp add: fb_create_argv_def Let_def)
qed

theorem fb_create_argv_quoted_witness:
  "fst (fb_create_argv (concat (map (\<lambda>w. CHR '' '' # quoted w) [''play'', ''Miles Davis'', '''']))) =
    [''play'', ''Miles Davis'', '''']"
  by (rule fb_create_argv_quoted) (simp add: quote_char_def)

end
