(* ===== verification/Strtod.thy ===== *)
theory Strtod
  imports Prelude
begin

text \<open>
  strtod of the C library, and the comparisons of its results.  A double is the rational number it stands for, an infinity, or not a
  number; the two zeros, which compare equal, are one.  The value is the double nearest to the number of the text, of two equally near
  ones the even one.  The decimal point is that of the C locale.
\<close>

section \<open>Doubles\<close>

text \<open>True is the negative infinity.\<close>

datatype double = Finite rat | Infinite bool | Not_a_number

fun double_less :: "double \<Rightarrow> double \<Rightarrow> bool" where
  "double_less (Finite x) (Finite y) = (x < y)"
| "double_less (Finite x) (Infinite neg) = (\<not> neg)"
| "double_less (Infinite neg) (Finite y) = neg"
| "double_less (Infinite neg) (Infinite neg') = (neg \<and> \<not> neg')"
| "double_less _ _ = False"

function bits_of_int :: "int \<Rightarrow> int" where
  "bits_of_int n = (if n \<le> 0 then 0 else bits_of_int (n div 2) + 1)"
  by pat_completeness auto
termination by (relation "measure nat") auto

declare bits_of_int.simps [simp del]

definition two_to :: "int \<Rightarrow> rat" where
  "two_to e = (if e \<ge> 0 then 2 ^ nat e else 1 / 2 ^ nat (- e))"

text \<open>The exponent of the greatest power of two that is not above a positive number.\<close>

definition binary_exponent :: "rat \<Rightarrow> int" where
  "binary_exponent x = (let (n, d) = quotient_of x; e = bits_of_int n - bits_of_int d
    in if x < two_to e then e - 1 else e)"

definition round_half_even :: "rat \<Rightarrow> int" where
  "round_half_even x = (let n = floor x; r = x - of_int n in if r < 1 / 2 \<or> r = 1 / 2 \<and> even n then n else n + 1)"

text \<open>53 bits, with exponents from -1022 (below that the numbers are denormal) to 1023.\<close>

definition nearest_double :: "rat \<Rightarrow> double" where
  "nearest_double x =
    (if x = 0 then Finite 0
     else let ulp = two_to (max (binary_exponent \<bar>x\<bar>) (- 1022) - 52);
         v = of_int (round_half_even (\<bar>x\<bar> / ulp)) * ulp
       in if v \<ge> two_to 1024 then Infinite (x < 0) else Finite (if x < 0 then - v else v))"

section \<open>The text of a number\<close>

text \<open>The digits in front of and behind the point; \<open>None\<close> when there are none.\<close>

definition scan_mantissa :: "nat \<Rightarrow> string \<Rightarrow> (int \<times> nat \<times> string) option" where
  "scan_mantissa base s = (let digit = (\<lambda>c. digit_value c < base); ds = takeWhile digit s; r = dropWhile digit s;
      (fs, r') = (case r of c # r' \<Rightarrow> if c = CHR ''.'' then (takeWhile digit r', dropWhile digit r') else ([], r) | [] \<Rightarrow> ([], r))
    in if ds @ fs = [] then None else Some (digits_value base (ds @ fs), length fs, r'))"

text \<open>An exponent behind the letter, or nothing.\<close>

definition scan_exponent :: "char \<Rightarrow> string \<Rightarrow> int \<times> string" where
  "scan_exponent letter s = (case s of
      c # r \<Rightarrow> (let (negative, r) = strip_sign r; ds = takeWhile (\<lambda>c. digit_value c < 10) r; e = digits_value 10 ds
        in if to_lower c = letter \<and> ds \<noteq> [] then (if negative then - e else e, drop (length ds) r) else (0, s))
    | [] \<Rightarrow> (0, s))"

definition ten_to :: "int \<Rightarrow> rat" where
  "ten_to e = (if e \<ge> 0 then 10 ^ nat e else 1 / 10 ^ nat (- e))"

definition starts_with :: "string \<Rightarrow> string \<Rightarrow> bool" where
  "starts_with w s = (map to_lower (take (length w) s) = w)"

text \<open>The letters, digits and underscores in parentheses that may follow nan.\<close>

definition after_nan :: "string \<Rightarrow> string" where
  "after_nan s = (case s of
      c # r \<Rightarrow> (let r' = dropWhile (\<lambda>c. digit_value c < 36 \<or> c = CHR ''_'') r in
        if c = CHR ''('' \<and> r' \<noteq> [] \<and> hd r' = CHR '')'' then tl r' else s)
    | [] \<Rightarrow> s)"

definition scan_number :: "string \<Rightarrow> (rat \<times> string) option" where
  "scan_number s =
    (case (if starts_with ''0x'' s then scan_mantissa 16 (drop 2 s) else None) of
        Some (m, k, r) \<Rightarrow> (let (e, r) = scan_exponent (CHR ''p'') r in Some (of_int m * two_to (e - 4 * int k), r))
      | None \<Rightarrow> (case scan_mantissa 10 s of
          Some (m, k, r) \<Rightarrow> (let (e, r) = scan_exponent (CHR ''e'') r in Some (of_int m * ten_to (e - int k), r))
        | None \<Rightarrow> None))"

text \<open>The value and what follows the number, the whole text when there is none.\<close>

definition strtod :: "string \<Rightarrow> double \<times> string" where
  "strtod s = (let (negative, r) = strip_sign (dropWhile is_space s) in
    if starts_with ''infinity'' r then (Infinite negative, drop 8 r)
    else if starts_with ''inf'' r then (Infinite negative, drop 3 r)
    else if starts_with ''nan'' r then (Not_a_number, after_nan (drop 3 r))
    else (case scan_number r of
        Some (x, r) \<Rightarrow> (nearest_double (if negative then - x else x), r)
      | None \<Rightarrow> (Finite 0, s)))"

end
