(* ===== verification/FbParser.thy ===== *)
theory FbParser
  imports FbArgv Strtod "HOL-Library.Monad_Syntax"
begin

text \<open>
  \<open>src/src/libfootball/fb_parser.c\<close>: the tree of command patterns and its interpretation.  \<open>None\<close> is a failed
  assertion, which the parser uses for every mistake in a pattern.  Memory is assumed to be there.
\<close>

section \<open>The tree\<close>

datatype fb_parser_type = FB_PARSER_UNDETERMINED | FB_PARSER_KEYWORD | FB_PARSER_VALUE | FB_PARSER_OPENEND

text \<open>A ranged integer has its least and greatest value and its radix, a ranged real its least and greatest value.\<close>

datatype fb_valuetype = FB_VALUE_STRING | FB_VALUE_NUMERIC | FB_VALUE_RANGED_INTEGER int int nat | FB_VALUE_RANGED_REAL double double

datatype fb_parser = Fb_Parser (pa_type: fb_parser_type) (pa_value: fb_valuetype) (pa_word: "string option")
  (pa_name: "string option") (is_named: bool) (pa_response: int) (subcomponents: "fb_parser list")

abbreviation (input) FB_PARSE_FAILURE :: int where "FB_PARSE_FAILURE \<equiv> 0"
abbreviation (input) FB_PARSE_INCOMPLETE :: int where "FB_PARSE_INCOMPLETE \<equiv> - 1"
abbreviation (input) FB_PARSE_INVALID_KEYWORD :: int where "FB_PARSE_INVALID_KEYWORD \<equiv> - 2"
abbreviation (input) FB_PARSE_EXTRA_TERMS :: int where "FB_PARSE_EXTRA_TERMS \<equiv> - 3"
abbreviation (input) FB_PARSE_NUMERIC :: int where "FB_PARSE_NUMERIC \<equiv> - 4"
abbreviation (input) FB_PARSE_RANGE :: int where "FB_PARSE_RANGE \<equiv> - 5"

definition fb_create_parser :: fb_parser where
  "fb_create_parser = Fb_Parser FB_PARSER_UNDETERMINED FB_VALUE_STRING None None False 0 []"

fun set_type :: "fb_parser_type \<Rightarrow> fb_parser \<Rightarrow> fb_parser" where
  "set_type t (Fb_Parser _ v w n b r subs) = Fb_Parser t v w n b r subs"

fun set_response :: "int \<Rightarrow> fb_parser \<Rightarrow> fb_parser" where
  "set_response r (Fb_Parser t v w n b _ subs) = Fb_Parser t v w n b r subs"

fun set_name :: "string option \<Rightarrow> fb_parser \<Rightarrow> fb_parser" where
  "set_name n (Fb_Parser t v w _ b r subs) = Fb_Parser t v w n b r subs"

fun set_subcomponents :: "fb_parser list \<Rightarrow> fb_parser \<Rightarrow> fb_parser" where
  "set_subcomponents subs (Fb_Parser t v w n b r _) = Fb_Parser t v w n b r subs"

text \<open>\<open>word\<close> against the word of a node; every node below the root has one.\<close>

definition fb_parse_compare :: "string \<Rightarrow> fb_parser \<Rightarrow> int" where
  "fb_parse_compare word p = (case pa_word p of Some w \<Rightarrow> strcasecmp word w | None \<Rightarrow> 1)"

section \<open>Adding a pattern\<close>

text \<open>lfind\<close>

fun lfind :: "('a \<Rightarrow> int) \<Rightarrow> 'a list \<Rightarrow> nat option" where
  "lfind cmp [] = None"
| "lfind cmp (x # xs) = (if cmp x = 0 then Some 0 else map_option Suc (lfind cmp xs))"

text \<open>\<open>k\<close> adds the rest of the pattern, \<open>argv + 1\<close>, below a node.\<close>

definition fb_parser_add_keyword ::
  "(fb_parser \<Rightarrow> fb_parser option) \<Rightarrow> string \<Rightarrow> string option \<Rightarrow> fb_parser \<Rightarrow> fb_parser option" where
  "fb_parser_add_keyword k keyword nm parser = do {
    parser \<leftarrow> (case (nm, pa_name parser) of
        (Some n, Some old) \<Rightarrow> if strcmp old n \<noteq> 0 then None else Some parser
      | (Some n, None) \<Rightarrow> Some (set_name nm parser)
      | (None, _) \<Rightarrow> Some parser);
    let subs = subcomponents parser;
    (case lfind (fb_parse_compare keyword) subs of
        None \<Rightarrow> do {
          new \<leftarrow> k (Fb_Parser FB_PARSER_UNDETERMINED FB_VALUE_STRING (Some keyword) None (nm \<noteq> None) 0 []);
          Some (set_subcomponents (subs @ [new]) parser)
        }
      | Some i \<Rightarrow>
          if is_named (subs ! i) \<noteq> (nm \<noteq> None) then None
          else do {
            found \<leftarrow> k (subs ! i);
            Some (set_subcomponents (subs[i := found]) parser)
          })
  }"

text \<open>The character at a position of a string, its NUL included.\<close>

definition char_at :: "string \<Rightarrow> nat \<Rightarrow> char" where
  "char_at s i = (if i < length s then s ! i else CHR 0x00)"

text \<open>
  The range of \<open>{#name:min-max}\<close>, given what follows the colon: the position of the minus sign between the bounds, and the
  bounds, which are integers or reals.
\<close>

definition upper_range :: "string \<Rightarrow> nat option" where
  "upper_range rng =
    (if char_at rng 0 = CHR ''-'' then map_option Suc (strchr (tl rng) (CHR ''-'')) else strchr rng (CHR ''-''))"

definition integer_range :: "string \<Rightarrow> fb_valuetype option" where
  "integer_range rng = do {
    i \<leftarrow> upper_range rng;
    let upperrange = drop i rng;
    let radix = (if char_at rng 0 = CHR ''0'' \<and> char_at rng 1 \<noteq> CHR ''-''
        \<or> char_at rng 0 = CHR ''-'' \<and> char_at rng 1 = CHR ''0''
        \<or> char_at upperrange 0 = CHR ''0'' \<and> char_at rng 1 \<noteq> CHR ''}''
        \<or> char_at upperrange 0 = CHR ''-'' \<and> char_at upperrange 1 = CHR ''0'' then 0 else 10);
    let (min_integer, error) = strtol radix rng;
    (if length error \<noteq> length upperrange then None else Some ());
    let (max_integer, error) = strtol radix (drop 1 upperrange);
    (if char_at error 0 \<noteq> CHR ''}'' then None else Some ());
    (if min_integer < max_integer then Some (FB_VALUE_RANGED_INTEGER min_integer max_integer radix) else None)
  }"

definition real_range :: "string \<Rightarrow> fb_valuetype option" where
  "real_range rng = do {
    i \<leftarrow> upper_range rng;
    let upperrange = drop i rng;
    let (min_double, error) = strtod rng;
    (if length error \<noteq> length upperrange then None else Some ());
    let (max_double, error) = strtod (drop 1 upperrange);
    (if char_at error 0 \<noteq> CHR ''}'' then None else Some ());
    (if double_less min_double max_double then Some (FB_VALUE_RANGED_REAL min_double max_double) else None)
  }"

definition fill_in_value :: "string \<Rightarrow> fb_valuetype option" where
  "fill_in_value blankname =
    (if char_at blankname 1 = CHR ''#'' then
       (case strchr blankname (CHR '':'') of
           None \<Rightarrow> Some FB_VALUE_NUMERIC
         | Some i \<Rightarrow> (if strchr blankname (CHR ''.'') \<noteq> None then real_range else integer_range) (drop (Suc i) blankname))
     else Some FB_VALUE_STRING)"

text \<open>The name of a value; \<open>None\<close> inside is the name of length 0.\<close>

definition fill_in_name :: "string \<Rightarrow> string option option" where
  "fill_in_name blankname = do {
    let startname = drop 1 blankname;
    let startname = (if char_at startname 0 = CHR ''#'' then drop 1 startname else startname);
    endname \<leftarrow> (case strchr startname (CHR '':'') of Some i \<Rightarrow> Some i | None \<Rightarrow> strchr startname (CHR ''}''));
    Some (if endname = 0 then None else Some (take endname startname))
  }"

definition fill_in_word :: "string \<Rightarrow> string" where
  "fill_in_word blankname = (case strchr blankname (CHR '':'') of Some i \<Rightarrow> take i blankname @ ''}'' | None \<Rightarrow> blankname)"

text \<open>The radix is not compared.  The bounds of a range of reals are numbers, so that equality of doubles is equality.\<close>

fun same_value :: "fb_valuetype \<Rightarrow> fb_valuetype \<Rightarrow> bool" where
  "same_value FB_VALUE_STRING FB_VALUE_STRING = True"
| "same_value FB_VALUE_NUMERIC FB_VALUE_NUMERIC = True"
| "same_value (FB_VALUE_RANGED_INTEGER lo hi _) (FB_VALUE_RANGED_INTEGER lo' hi' _) = (lo = lo' \<and> hi = hi')"
| "same_value (FB_VALUE_RANGED_REAL lo hi) (FB_VALUE_RANGED_REAL lo' hi') = (lo = lo' \<and> hi = hi')"
| "same_value _ _ = False"

definition fb_parser_add_fill_in :: "(fb_parser \<Rightarrow> fb_parser option) \<Rightarrow> string \<Rightarrow> fb_parser \<Rightarrow> fb_parser option" where
  "fb_parser_add_fill_in k blankname parser = do {
    v \<leftarrow> fill_in_value blankname;
    nm \<leftarrow> fill_in_name blankname;
    (if pa_type parser = FB_PARSER_VALUE then
       (case subcomponents parser of
           [sub] \<Rightarrow>
             if same_value (pa_value parser) v \<and> pa_name parser = nm then do {
               sub \<leftarrow> k sub;
               Some (set_subcomponents [sub] parser)
             } else None
         | _ \<Rightarrow> None)
     else if pa_type parser = FB_PARSER_UNDETERMINED then do {
       sub \<leftarrow> k (Fb_Parser FB_PARSER_UNDETERMINED FB_VALUE_STRING (Some (fill_in_word blankname)) None False 0 []);
       Some (Fb_Parser FB_PARSER_VALUE v (pa_word parser) nm (is_named parser) (pa_response parser) [sub])
     }
     else None)
  }"

definition end_statement :: "int \<Rightarrow> fb_parser \<Rightarrow> fb_parser option" where
  "end_statement r parser = (if pa_response parser \<noteq> 0 then None else Some (set_response r parser))"

definition bracketed :: "char \<Rightarrow> char \<Rightarrow> string \<Rightarrow> bool" where
  "bracketed a b word = (word \<noteq> [] \<and> hd word = a \<and> last word = b)"

definition optional_fill_in :: "string \<Rightarrow> bool" where
  "optional_fill_in word = (bracketed (CHR ''['') (CHR '']'') word \<and> bracketed (CHR ''{'') (CHR ''}'') (tl (butlast word)))"

fun split_on :: "char \<Rightarrow> string \<Rightarrow> string list" where
  "split_on c [] = [[]]"
| "split_on c (x # xs) = (case split_on c xs of
      w # ws \<Rightarrow> if x = c then [] # w # ws else (x # w) # ws
    | [] \<Rightarrow> [])"

text \<open>The name and the words of \<open><name:a|b>\<close> or \<open>[a|b]\<close>; without a name it is the first word.\<close>

definition alternation :: "string \<Rightarrow> string \<times> string list" where
  "alternation word = (let commandcopy = tl (butlast word) in
    case strchr commandcopy (CHR '':'') of
      Some i \<Rightarrow> (take i commandcopy, filter (\<lambda>w. w \<noteq> []) (split_on (CHR ''|'') (drop (Suc i) commandcopy)))
    | None \<Rightarrow> (takeWhile (\<lambda>c. c \<noteq> CHR ''|'') commandcopy, filter (\<lambda>w. w \<noteq> []) (split_on (CHR ''|'') commandcopy)))"

fun add_alternatives :: "(fb_parser \<Rightarrow> fb_parser option) \<Rightarrow> string \<Rightarrow> string list \<Rightarrow> fb_parser \<Rightarrow> fb_parser option" where
  "add_alternatives k nm [] parser = Some parser"
| "add_alternatives k nm (w # ws) parser =
    Option.bind (fb_parser_add_keyword k w (Some nm) parser) (add_alternatives k nm ws)"

primrec fb_parser_add :: "string list \<Rightarrow> int \<Rightarrow> fb_parser \<Rightarrow> fb_parser option" where
  "fb_parser_add [] r parser = end_statement r parser"
| "fb_parser_add (word # argv) r parser =
    (if optional_fill_in word then
       (if argv \<noteq> [] \<and> (length argv \<noteq> 1 \<or> strcasecmp (hd argv) ''...'' \<noteq> 0) then None
        else Option.bind (end_statement r parser) (fb_parser_add_fill_in (fb_parser_add argv r) (tl (butlast word))))
     else if strcmp word ''...'' = 0 then
       (if pa_type parser \<noteq> FB_PARSER_UNDETERMINED \<or> pa_response parser \<noteq> 0 then None
        else Some (set_response r (set_type FB_PARSER_OPENEND parser)))
     else if bracketed (CHR ''{'') (CHR ''}'') word then fb_parser_add_fill_in (fb_parser_add argv r) word parser
     else if pa_type parser \<noteq> FB_PARSER_UNDETERMINED \<and> pa_type parser \<noteq> FB_PARSER_KEYWORD then None
     else if bracketed (CHR ''<'') (CHR ''>'') word \<or> bracketed (CHR ''['') (CHR '']'') word then
       Option.bind (if hd word = CHR ''['' then fb_parser_add argv r (set_type FB_PARSER_KEYWORD parser)
           else Some (set_type FB_PARSER_KEYWORD parser))
         (add_alternatives (fb_parser_add argv r) (fst (alternation word)) (snd (alternation word)))
     else fb_parser_add_keyword (fb_parser_add argv r) word None (set_type FB_PARSER_KEYWORD parser))"

section \<open>Sorting and all statements\<close>

definition compare_words :: "fb_parser \<Rightarrow> fb_parser \<Rightarrow> int" where
  "compare_words p q = (case pa_word p of Some w \<Rightarrow> fb_parse_compare w q | None \<Rightarrow> - 1)"

text \<open>qsort; no two words of a node are equal, so the order is determined.\<close>

fun insert_word :: "fb_parser \<Rightarrow> fb_parser list \<Rightarrow> fb_parser list" where
  "insert_word p [] = [p]"
| "insert_word p (q # qs) = (if compare_words p q \<le> 0 then p # q # qs else q # insert_word p qs)"

definition sort_words :: "fb_parser list \<Rightarrow> fb_parser list" where
  "sort_words ps = foldr insert_word ps []"

text \<open>The branches may be sorted before their node: sorting does not change the words compared.\<close>

primrec fb_sort_all :: "fb_parser \<Rightarrow> fb_parser" where
  "fb_sort_all (Fb_Parser t v w n b r subs) = Fb_Parser t v w n b r (sort_words (map fb_sort_all subs))"

fun add_statements :: "(int \<times> string) list \<Rightarrow> fb_parser \<Rightarrow> fb_parser option" where
  "add_statements [] parser = Some parser"
| "add_statements ((response, statement) # def) parser =
    Option.bind (fb_parser_add (fst (fb_create_argv statement)) response parser) (add_statements def)"

definition fb_parser_add_statements :: "fb_parser \<Rightarrow> (int \<times> string) list \<Rightarrow> fb_parser option" where
  "fb_parser_add_statements parser def = map_option fb_sort_all (add_statements def parser)"

section \<open>Interpreting a command\<close>

text \<open>What is wrong with the text of a value.\<close>

fun value_error :: "fb_valuetype \<Rightarrow> string \<Rightarrow> int option" where
  "value_error FB_VALUE_STRING arg = None"
| "value_error FB_VALUE_NUMERIC arg =
    (if list_all is_digit (if char_at arg 0 = CHR ''-'' then tl arg else arg) then None else Some FB_PARSE_NUMERIC)"
| "value_error (FB_VALUE_RANGED_INTEGER min_integer max_integer radix) arg =
    (let (v, error) = strtol radix arg
     in if error \<noteq> [] then Some FB_PARSE_NUMERIC
        else if v < min_integer \<or> v > max_integer then Some FB_PARSE_RANGE
        else None)"
| "value_error (FB_VALUE_RANGED_REAL min_double max_double) arg =
    (let (v, error) = strtod arg
     in if error \<noteq> [] then Some FB_PARSE_NUMERIC
        else if double_less v min_double \<or> double_less max_double v then Some FB_PARSE_RANGE
        else None)"

text \<open>The response and the error term; argname is not modelled, fb_interpret passes NULL.\<close>

fun fb_interpret_recurse :: "fb_parser \<Rightarrow> string list \<Rightarrow> (int \<times> string option) option" where
  "fb_interpret_recurse parser [] = Some
    (if pa_response parser \<noteq> 0 then (pa_response parser, None) else (FB_PARSE_INCOMPLETE, pa_word parser))"
| "fb_interpret_recurse parser (arg # argv) = (case pa_type parser of
      FB_PARSER_UNDETERMINED \<Rightarrow> Some (FB_PARSE_EXTRA_TERMS, Some arg)
    | FB_PARSER_OPENEND \<Rightarrow> Some (pa_response parser, Some arg)
    | FB_PARSER_KEYWORD \<Rightarrow>
        (case bsearch (fb_parse_compare arg) (subcomponents parser) 0 (length (subcomponents parser)) of
            None \<Rightarrow> Some (FB_PARSE_INVALID_KEYWORD, Some arg)
          | Some i \<Rightarrow> fb_interpret_recurse (subcomponents parser ! i) argv)
    | FB_PARSER_VALUE \<Rightarrow>
        (case value_error (pa_value parser) arg of
            Some e \<Rightarrow> Some (e, Some arg)
          | None \<Rightarrow> (case subcomponents parser of [] \<Rightarrow> None | sub # _ \<Rightarrow> fb_interpret_recurse sub argv)))"

definition fb_interpret :: "fb_parser \<Rightarrow> string list \<Rightarrow> (int \<times> string option) option" where
  "fb_interpret parser argv = fb_interpret_recurse parser argv"

end
