(* ===== verification/FbParserProofs.thy ===== *)
theory FbParserProofs
  imports FbParser
begin

text \<open>
  The parser against a reference: what a pattern means is said on the pattern itself, by \<open>matches\<close>, and the
  tree that is built from any list of patterns understands exactly the commands that match one of them.
\<close>

section \<open>What a pattern means\<close>

definition fits :: "string \<Rightarrow> string \<Rightarrow> bool" where
  "fits blank arg = (case fill_in_value blank of Some v \<Rightarrow> value_error v arg = None | None \<Rightarrow> False)"

fun matches :: "string list \<Rightarrow> string list \<Rightarrow> bool" where
  "matches [] args = (args = [])"
| "matches (w # pat) args =
    (if optional_fill_in w then args = [] \<or> (args \<noteq> [] \<and> fits (tl (butlast w)) (hd args) \<and> matches pat (tl args))
     else if w = ''...'' then True
     else if bracketed (CHR ''{'') (CHR ''}'') w then args \<noteq> [] \<and> fits w (hd args) \<and> matches pat (tl args)
     else if bracketed (CHR ''<'') (CHR ''>'') w \<or> bracketed (CHR ''['') (CHR '']'') w then
       hd w = CHR ''['' \<and> matches pat args
       \<or> args \<noteq> [] \<and> list_ex (\<lambda>k. strcasecmp (hd args) k = 0) (snd (alternation w)) \<and> matches pat (tl args)
     else args \<noteq> [] \<and> strcasecmp (hd args) w = 0 \<and> matches pat (tl args))"

text \<open>Ranges with the same bounds have the same radix, which is what fb_parser_add_fill_in does not compare.\<close>

fun radix_ok :: "(int \<Rightarrow> int \<Rightarrow> nat) \<Rightarrow> fb_valuetype \<Rightarrow> bool" where
  "radix_ok R (FB_VALUE_RANGED_INTEGER lo hi radix) = (radix = R lo hi)"
| "radix_ok R _ = True"

definition blank_of :: "string \<Rightarrow> string" where
  "blank_of w = (if optional_fill_in w then tl (butlast w) else w)"

definition word_radix_ok :: "(int \<Rightarrow> int \<Rightarrow> nat) \<Rightarrow> string \<Rightarrow> bool" where
  "word_radix_ok R w = (case fill_in_value (blank_of w) of Some v \<Rightarrow> radix_ok R v | None \<Rightarrow> True)"

section \<open>What a tree accepts\<close>

primrec accepts :: "string list \<Rightarrow> fb_parser \<Rightarrow> int \<Rightarrow> bool" where
  "accepts [] p q = (pa_response p = q)"
| "accepts (a # args) p q = (case pa_type p of
      FB_PARSER_UNDETERMINED \<Rightarrow> False
    | FB_PARSER_OPENEND \<Rightarrow> pa_response p = q
    | FB_PARSER_KEYWORD \<Rightarrow> (\<exists>c \<in> set (subcomponents p). fb_parse_compare a c = 0 \<and> accepts args c q)
    | FB_PARSER_VALUE \<Rightarrow> value_error (pa_value p) a = None \<and> (\<exists>c \<in> set (subcomponents p). accepts args c q))"

definition word_key :: "fb_parser \<Rightarrow> string" where
  "word_key p = map to_lower (the (pa_word p))"

fun parser_wf :: "(int \<Rightarrow> int \<Rightarrow> nat) \<Rightarrow> fb_parser \<Rightarrow> bool" where
  "parser_wf R (Fb_Parser t v w n b r subs) \<longleftrightarrow> r \<ge> 0 \<and>
    (case t of
        FB_PARSER_UNDETERMINED \<Rightarrow> subs = []
      | FB_PARSER_OPENEND \<Rightarrow> subs = [] \<and> 0 < r
      | FB_PARSER_VALUE \<Rightarrow> length subs = 1 \<and> radix_ok R v
      | FB_PARSER_KEYWORD \<Rightarrow> (\<forall>c \<in> set subs. pa_word c \<noteq> None) \<and> distinct (map word_key subs)) \<and>
    (\<forall>c \<in> set subs. parser_wf R c)"

text \<open>\<open>p'\<close> understands what \<open>p\<close> does and, as \<open>r\<close>, the commands of \<open>M\<close>.\<close>

definition extends :: "(int \<Rightarrow> int \<Rightarrow> nat) \<Rightarrow> int \<Rightarrow> (string list \<Rightarrow> bool) \<Rightarrow> fb_parser \<Rightarrow> fb_parser \<Rightarrow> bool" where
  "extends R r M p p' \<longleftrightarrow> parser_wf R p' \<and> pa_word p' = pa_word p \<and>
    (\<forall>args q. 0 < q \<longrightarrow> accepts args p' q = (accepts args p q \<or> q = r \<and> M args))"

definition adds :: "(int \<Rightarrow> int \<Rightarrow> nat) \<Rightarrow> int \<Rightarrow> (string list \<Rightarrow> bool) \<Rightarrow> (fb_parser \<Rightarrow> fb_parser option) \<Rightarrow> bool" where
  "adds R r M k \<longleftrightarrow> (\<forall>p p'. parser_wf R p \<longrightarrow> k p = Some p' \<longrightarrow> extends R r M p p')"

lemma addsD: "\<lbrakk>adds R r M k; parser_wf R p; k p = Some p'\<rbrakk> \<Longrightarrow> extends R r M p p'"
  by (simp add: adds_def)

lemma extends_trans: "\<lbrakk>extends R r M p p'; extends R r N p' p''\<rbrakk> \<Longrightarrow> extends R r (\<lambda>args. M args \<or> N args) p p''"
  by (auto simp: extends_def)

lemma extends_cong: "\<lbrakk>extends R r M p p'; \<And>args. M args = N args\<rbrakk> \<Longrightarrow> extends R r N p p'"
  by (simp add: extends_def)

lemma extends_wf: "extends R r M p p' \<Longrightarrow> parser_wf R p'"
  by (simp add: extends_def)

lemma compare_eq_0: "pa_word c \<noteq> None \<Longrightarrow> fb_parse_compare a c = 0 \<longleftrightarrow> map to_lower a = word_key c"
  by (auto simp: fb_parse_compare_def word_key_def strcasecmp_eq_0)

section \<open>Keywords\<close>

lemma lfind_SomeD: "lfind cmp xs = Some i \<Longrightarrow> i < length xs \<and> cmp (xs ! i) = 0"
  by (induction xs arbitrary: i) (auto split: if_splits)

lemma lfind_NoneD: "lfind cmp xs = None \<Longrightarrow> x \<in> set xs \<Longrightarrow> cmp x \<noteq> 0"
  by (induction xs) (auto split: if_splits)

text \<open>A node as its parts, which is what the proofs split.\<close>

lemmas node_defs = extends_def fb_create_parser_def

lemma accepts_fresh [simp]: "0 < q \<Longrightarrow> \<not> accepts args (Fb_Parser FB_PARSER_UNDETERMINED v w n b 0 subs) q"
  by (cases args) auto

lemma extendsI:
  assumes "parser_wf R p'" and "pa_word p' = pa_word p"
    and "\<And>q. 0 < q \<Longrightarrow> accepts [] p' q = (accepts [] p q \<or> q = r \<and> M [])"
    and "\<And>a args q. 0 < q \<Longrightarrow> accepts (a # args) p' q = (accepts (a # args) p q \<or> q = r \<and> M (a # args))"
  shows "extends R r M p p'"
  unfolding extends_def
proof (intro conjI allI impI)
  fix args q assume "(0 :: int) < q"
  then show "accepts args p' q = (accepts args p q \<or> q = r \<and> M args)" using assms(3,4) by (cases args) auto
qed (use assms in auto)

lemma keyword_append:
  assumes p: "p = Fb_Parser FB_PARSER_KEYWORD v w n b r0 subs" and wf: "parser_wf R p"
    and none: "lfind (fb_parse_compare keyword) subs = None"
    and new: "extends R r M (Fb_Parser FB_PARSER_UNDETERMINED FB_VALUE_STRING (Some keyword) None nb 0 []) c"
  shows "extends R r (\<lambda>args. args \<noteq> [] \<and> strcasecmp (hd args) keyword = 0 \<and> M (tl args)) p
    (Fb_Parser FB_PARSER_KEYWORD v w n' b r0 (subs @ [c]))"
proof (rule extendsI)
  have c: "pa_word c = Some keyword" "parser_wf R c"
    and acc: "\<And>args q. 0 < q \<Longrightarrow> accepts args c q = (q = r \<and> M args)"
    using new by (auto simp: extends_def)
  have words: "\<forall>d \<in> set subs. pa_word d \<noteq> None" "distinct (map word_key subs)" using wf p by auto
  have "word_key c \<notin> word_key ` set subs"
    using lfind_NoneD [OF none] words(1) compare_eq_0 [of _ keyword] c(1) by (force simp: word_key_def)
  then show "parser_wf R (Fb_Parser FB_PARSER_KEYWORD v w n' b r0 (subs @ [c]))"
    using wf p c words by auto
  have compare: "fb_parse_compare a c = 0 \<longleftrightarrow> strcasecmp a keyword = 0" for a
    using c(1) by (simp add: fb_parse_compare_def)
  fix a args and q :: int assume "0 < q"
  then show "accepts (a # args) (Fb_Parser FB_PARSER_KEYWORD v w n' b r0 (subs @ [c])) q =
      (accepts (a # args) p q \<or> q = r \<and> a # args \<noteq> [] \<and> strcasecmp (hd (a # args)) keyword = 0 \<and> M (tl (a # args)))"
    using p acc compare by auto
qed (simp_all add: p)

lemma bex_set_nth: "(\<exists>x \<in> set xs. Q x) \<longleftrightarrow> (\<exists>j < length xs. Q (xs ! j))"
  by (metis in_set_conv_nth)

lemma bex_split: "i < length xs \<Longrightarrow> (\<exists>x \<in> set xs. Q x) \<longleftrightarrow> Q (xs ! i) \<or> (\<exists>j < length xs. j \<noteq> i \<and> Q (xs ! j))"
  unfolding bex_set_nth by metis

lemma bex_update:
  "i < length xs \<Longrightarrow> (\<exists>x \<in> set (xs[i := c]). Q x) \<longleftrightarrow> Q c \<or> (\<exists>j < length xs. j \<noteq> i \<and> Q (xs ! j))"
  using bex_split [of i "xs[i := c]" Q] by (metis length_list_update nth_list_update_eq nth_list_update_neq)

lemma keyword_update:
  assumes p: "p = Fb_Parser FB_PARSER_KEYWORD v w n b r0 subs" and wf: "parser_wf R p"
    and found: "lfind (fb_parse_compare keyword) subs = Some i"
    and new: "extends R r M (subs ! i) c"
  shows "extends R r (\<lambda>args. args \<noteq> [] \<and> strcasecmp (hd args) keyword = 0 \<and> M (tl args)) p
    (Fb_Parser FB_PARSER_KEYWORD v w n' b r0 (subs[i := c]))"
proof (rule extendsI)
  have i: "i < length subs" "fb_parse_compare keyword (subs ! i) = 0" using lfind_SomeD [OF found] by auto
  have words: "\<forall>d \<in> set subs. pa_word d \<noteq> None" "distinct (map word_key subs)" using wf p by auto
  have c: "pa_word c = pa_word (subs ! i)" "parser_wf R c" "word_key c = word_key (subs ! i)"
    and acc: "\<And>args q. 0 < q \<Longrightarrow> accepts args c q = (accepts args (subs ! i) q \<or> q = r \<and> M args)"
    using new by (auto simp: extends_def word_key_def)
  have keys: "map word_key (subs[i := c]) = map word_key subs"
    using c(3) i(1) by (simp add: map_update list_update_same_conv)
  show "parser_wf R (Fb_Parser FB_PARSER_KEYWORD v w n' b r0 (subs[i := c]))"
    using wf p c words i keys set_update_subset_insert [of subs i c] nth_mem [OF i(1)] by auto
  have at: "fb_parse_compare a c = 0 \<longleftrightarrow> fb_parse_compare a (subs ! i) = 0"
    "fb_parse_compare a (subs ! i) = 0 \<longleftrightarrow> strcasecmp a keyword = 0" for a
  proof -
    show "fb_parse_compare a c = 0 \<longleftrightarrow> fb_parse_compare a (subs ! i) = 0"
      using c(1) by (simp add: fb_parse_compare_def)
    show "fb_parse_compare a (subs ! i) = 0 \<longleftrightarrow> strcasecmp a keyword = 0"
      using i words(1) compare_eq_0 [of "subs ! i"] by (auto simp: strcasecmp_eq_0)
  qed
  fix a args and q :: int assume q: "0 < q"
  have "(\<exists>d \<in> set (subs[i := c]). fb_parse_compare a d = 0 \<and> accepts args d q)
      \<longleftrightarrow> (\<exists>d \<in> set subs. fb_parse_compare a d = 0 \<and> accepts args d q) \<or> q = r \<and> strcasecmp a keyword = 0 \<and> M args"
    unfolding bex_update [OF i(1)] bex_split [OF i(1)] using at [of a] acc [OF q] by blast
  then show "accepts (a # args) (Fb_Parser FB_PARSER_KEYWORD v w n' b r0 (subs[i := c])) q =
      (accepts (a # args) p q \<or> q = r \<and> a # args \<noteq> [] \<and> strcasecmp (hd (a # args)) keyword = 0 \<and> M (tl (a # args)))"
    using p by simp
qed (simp_all add: p)

lemma parser_wf_fresh [simp]: "parser_wf R (Fb_Parser FB_PARSER_UNDETERMINED v w n b 0 [])"
  by simp

lemma add_keyword_extends:
  assumes k: "adds R r M k" and wf: "parser_wf R p" and kw: "pa_type p = FB_PARSER_KEYWORD"
    and some: "fb_parser_add_keyword k keyword nm p = Some p'"
  shows "extends R r (\<lambda>args. args \<noteq> [] \<and> strcasecmp (hd args) keyword = 0 \<and> M (tl args)) p p'
    \<and> pa_type p' = FB_PARSER_KEYWORD"
proof -
  obtain v w n b r0 subs where p: "p = Fb_Parser FB_PARSER_KEYWORD v w n b r0 subs"
    using kw by (cases p) auto
  show ?thesis
  proof (cases "lfind (fb_parse_compare keyword) subs")
    case None
    then obtain c n' where "k (Fb_Parser FB_PARSER_UNDETERMINED FB_VALUE_STRING (Some keyword) None (nm \<noteq> None) 0 []) = Some c"
      "p' = Fb_Parser FB_PARSER_KEYWORD v w n' b r0 (subs @ [c])"
      using some p by (auto simp: fb_parser_add_keyword_def Let_def bind_eq_Some_conv split: option.splits if_splits)
    then show ?thesis
      using keyword_append [OF p wf None addsD [OF k parser_wf_fresh]] by simp
  next
    case (Some i)
    then obtain c n' where "k (subs ! i) = Some c" "p' = Fb_Parser FB_PARSER_KEYWORD v w n' b r0 (subs[i := c])"
      using some p by (auto simp: fb_parser_add_keyword_def Let_def bind_eq_Some_conv split: option.splits if_splits)
    moreover have "parser_wf R (subs ! i)" using wf p lfind_SomeD [OF Some] by simp
    ultimately show ?thesis
      using keyword_update [OF p wf Some addsD [OF k]] by simp
  qed
qed

lemma add_alternatives_extends:
  "\<lbrakk>adds R r M k; parser_wf R p; pa_type p = FB_PARSER_KEYWORD; add_alternatives k nm ws p = Some p'\<rbrakk> \<Longrightarrow>
    extends R r (\<lambda>args. args \<noteq> [] \<and> list_ex (\<lambda>w. strcasecmp (hd args) w = 0) ws \<and> M (tl args)) p p'"
proof (induction ws arbitrary: p)
  case Nil
  then show ?case by (simp add: extends_def)
next
  case (Cons w ws)
  then obtain p1 where p1: "fb_parser_add_keyword k w (Some nm) p = Some p1" "add_alternatives k nm ws p1 = Some p'"
    by (auto simp: bind_eq_Some_conv)
  have e: "extends R r (\<lambda>args. args \<noteq> [] \<and> strcasecmp (hd args) w = 0 \<and> M (tl args)) p p1" "pa_type p1 = FB_PARSER_KEYWORD"
    using add_keyword_extends [OF Cons.prems(1-3) p1(1)] by auto
  show ?case
    using extends_trans [OF e(1) Cons.IH [OF Cons.prems(1) extends_wf [OF e(1)] e(2) p1(2)]]
    by (rule extends_cong) auto
qed

section \<open>Values and whole patterns\<close>

lemma same_value_radix: "\<lbrakk>same_value v v'; radix_ok R v; radix_ok R v'\<rbrakk> \<Longrightarrow> v = v'"
  by (cases v; cases v') auto

lemma add_fill_in_extends:
  assumes k: "adds R r M k" and wf: "parser_wf R p" and radix: "\<And>v. fill_in_value blank = Some v \<Longrightarrow> radix_ok R v"
    and some: "fb_parser_add_fill_in k blank p = Some p'"
  shows "extends R r (\<lambda>args. args \<noteq> [] \<and> fits blank (hd args) \<and> M (tl args)) p p'"
proof -
  obtain t v0 w n b r0 subs where p: "p = Fb_Parser t v0 w n b r0 subs" by (cases p)
  obtain v nm where v: "fill_in_value blank = Some v"
    and "fill_in_name blank = Some nm"
    using some by (auto simp: fb_parser_add_fill_in_def bind_eq_Some_conv)
  have fits: "fits blank a \<longleftrightarrow> value_error v a = None" for a by (simp add: fits_def v)
  consider (old) sub sub' where "t = FB_PARSER_VALUE" "subs = [sub]" "v = v0" "k sub = Some sub'"
      "p' = Fb_Parser FB_PARSER_VALUE v w n b r0 [sub']"
    | (new) sub' x where "t = FB_PARSER_UNDETERMINED"
      "k (Fb_Parser FB_PARSER_UNDETERMINED FB_VALUE_STRING (Some x) None False 0 []) = Some sub'"
      "p' = Fb_Parser FB_PARSER_VALUE v w nm b r0 [sub']"
  proof (cases t)
    case FB_PARSER_VALUE
    then obtain sub where subs: "subs = [sub]" using wf p by (auto simp: length_Suc_conv)
    then obtain sub' where "same_value v0 v" "k sub = Some sub'"
      "p' = Fb_Parser FB_PARSER_VALUE v0 w n b r0 [sub']"
      using some v p FB_PARSER_VALUE by (auto simp: fb_parser_add_fill_in_def bind_eq_Some_conv split: if_splits)
    moreover have "v = v0"
      using same_value_radix [of v0 v R] wf p radix [OF v] FB_PARSER_VALUE \<open>same_value v0 v\<close> by auto
    ultimately show ?thesis using FB_PARSER_VALUE subs old by blast
  qed (use some v p \<open>fill_in_name blank = Some nm\<close> new in
      \<open>auto simp: fb_parser_add_fill_in_def bind_eq_Some_conv split: list.splits if_splits\<close>)
  then show ?thesis
  proof cases
    case old
    have "extends R r M sub sub'" using addsD [OF k _ old(4)] wf p old by simp
    then show ?thesis
      using wf old by (intro extendsI) (auto simp: p extends_def fits)
  next
    case new
    have "extends R r M (Fb_Parser FB_PARSER_UNDETERMINED FB_VALUE_STRING (Some x) None False 0 []) sub'"
      using addsD [OF k parser_wf_fresh new(2)] by simp
    then show ?thesis
      using wf new radix [OF v] by (intro extendsI) (auto simp: p extends_def fits)
  qed
qed

lemma end_statement_extends:
  assumes "parser_wf R p" and "0 < r" and "end_statement r p = Some p'"
  shows "extends R r (\<lambda>args. args = []) p p'"
proof -
  obtain t v w n b r0 subs where p: "p = Fb_Parser t v w n b r0 subs" by (cases p)
  then have "r0 = 0" "p' = Fb_Parser t v w n b r subs"
    using assms(3) by (auto simp: end_statement_def split: if_splits)
  moreover have "t \<noteq> FB_PARSER_OPENEND" using assms(1) p calculation by auto
  ultimately show ?thesis
    using assms p by (intro extendsI) (auto split: fb_parser_type.splits)
qed

lemma set_type_extends:
  assumes "parser_wf R p" and "pa_type p = FB_PARSER_UNDETERMINED \<or> pa_type p = FB_PARSER_KEYWORD"
  shows "extends R r (\<lambda>args. False) p (set_type FB_PARSER_KEYWORD p)"
  using assms by (cases p) (auto intro!: extendsI)

lemma openend_extends:
  assumes "parser_wf R p" and "pa_type p = FB_PARSER_UNDETERMINED" and "pa_response p = 0" and "0 < r"
  shows "extends R r (\<lambda>args. True) p (set_response r (set_type FB_PARSER_OPENEND p))"
  using assms by (cases p) (auto intro!: extendsI)

lemma add_keyword_type: "fb_parser_add_keyword k w nm p = Some p' \<Longrightarrow> pa_type p' = pa_type p"
  by (cases p) (auto simp: fb_parser_add_keyword_def Let_def bind_eq_Some_conv split: option.splits if_splits)

lemma add_alternatives_type: "add_alternatives k nm ws p = Some p' \<Longrightarrow> pa_type p' = pa_type p"
  by (induction ws arbitrary: p) (auto simp: bind_eq_Some_conv dest!: add_keyword_type)

lemma fb_parser_add_keeps_type:
  "\<lbrakk>pa_type p = FB_PARSER_KEYWORD; fb_parser_add pat r p = Some p'\<rbrakk> \<Longrightarrow> pa_type p' = FB_PARSER_KEYWORD"
proof (induction pat arbitrary: p p')
  case Nil
  then show ?case by (cases p) (auto simp: end_statement_def split: if_splits)
next
  case (Cons w pat)
  have k: "pa_type (set_type FB_PARSER_KEYWORD p) = FB_PARSER_KEYWORD" by (cases p) simp
  have e: "pa_type q = FB_PARSER_KEYWORD" if "end_statement r p = Some q" for q
    using that Cons.prems(1) by (cases p) (auto simp: end_statement_def split: if_splits)
  have f: "fb_parser_add_fill_in k' b q = None" if "pa_type q = FB_PARSER_KEYWORD" for k' b q
    using that by (auto simp: fb_parser_add_fill_in_def split: option.splits)
  show ?case
    using Cons.prems k Cons.IH
    by (auto simp: bind_eq_Some_conv f dest!: e split: if_splits dest: add_keyword_type add_alternatives_type)
qed

text \<open>Adding a pattern adds its meaning and nothing else.\<close>

lemma fb_parser_add_extends:
  "\<lbrakk>0 < r; list_all (word_radix_ok R) pat\<rbrakk> \<Longrightarrow> adds R r (matches pat) (fb_parser_add pat r)"
proof (induction pat)
  case Nil
  then show ?case by (simp add: adds_def end_statement_extends)
next
  case (Cons word argv)
  have k: "adds R r (matches argv) (fb_parser_add argv r)" using Cons by simp
  have radix: "radix_ok R v" if "fill_in_value (blank_of word) = Some v" for v
    using Cons.prems(2) that by (simp add: word_radix_ok_def)
  show ?case unfolding adds_def
  proof (intro allI impI)
    fix p p' assume wf: "parser_wf R p" and some: "fb_parser_add (word # argv) r p = Some p'"
    consider (opt) "optional_fill_in word"
      | (dots) "\<not> optional_fill_in word" "word = ''...''"
      | (fill) "\<not> optional_fill_in word" "word \<noteq> ''...''" "bracketed (CHR ''{'') (CHR ''}'') word"
      | (alt) "\<not> optional_fill_in word" "word \<noteq> ''...''" "\<not> bracketed (CHR ''{'') (CHR ''}'') word"
          "bracketed (CHR ''<'') (CHR ''>'') word \<or> bracketed (CHR ''['') (CHR '']'') word"
      | (plain) "\<not> optional_fill_in word" "word \<noteq> ''...''" "\<not> bracketed (CHR ''{'') (CHR ''}'') word"
          "\<not> (bracketed (CHR ''<'') (CHR ''>'') word \<or> bracketed (CHR ''['') (CHR '']'') word)"
      by blast
    then show "extends R r (matches (word # argv)) p p'"
    proof cases
      case opt
      then obtain p1 where p1: "end_statement r p = Some p1"
        "fb_parser_add_fill_in (fb_parser_add argv r) (tl (butlast word)) p1 = Some p'"
        using some by (auto simp: bind_eq_Some_conv split: if_splits)
      have e: "extends R r (\<lambda>args. args = []) p p1" using end_statement_extends wf Cons.prems(1) p1(1) by blast
      have "extends R r (\<lambda>args. args \<noteq> [] \<and> fits (tl (butlast word)) (hd args) \<and> matches argv (tl args)) p1 p'"
        using add_fill_in_extends [OF k extends_wf [OF e] _ p1(2)] radix opt by (simp add: blank_of_def)
      from extends_trans [OF e this] show ?thesis
        by (rule extends_cong) (use opt in simp)
    next
      case dots
      then have "pa_type p = FB_PARSER_UNDETERMINED" "pa_response p = 0" "p' = set_response r (set_type FB_PARSER_OPENEND p)"
        using some by (auto simp: strcmp_eq_0 split: if_splits)
      then show ?thesis
        using extends_cong [OF openend_extends [OF wf]] Cons.prems(1) dots by auto
    next
      case fill
      then have "extends R r (\<lambda>args. args \<noteq> [] \<and> fits word (hd args) \<and> matches argv (tl args)) p p'"
        using add_fill_in_extends [OF k wf] radix some by (simp add: blank_of_def strcmp_eq_0)
      then show ?thesis by (rule extends_cong) (use fill in simp)
    next
      case alt
      let ?k = "set_type FB_PARSER_KEYWORD p"
      have t: "pa_type p = FB_PARSER_UNDETERMINED \<or> pa_type p = FB_PARSER_KEYWORD"
        using some alt by (auto simp: strcmp_eq_0 split: if_splits)
      have e0: "extends R r (\<lambda>args. False) p ?k" using set_type_extends [OF wf t] .
      obtain p1 where p1: "(if hd word = CHR ''['' then fb_parser_add argv r ?k else Some ?k) = Some p1"
        "add_alternatives (fb_parser_add argv r) (fst (alternation word)) (snd (alternation word)) p1 = Some p'"
        using some alt t by (auto simp: strcmp_eq_0 bind_eq_Some_conv simp del: add_alternatives.simps split: if_splits)
      have e1: "extends R r (\<lambda>args. hd word = CHR ''['' \<and> matches argv args) ?k p1"
        using p1(1) addsD [OF k extends_wf [OF e0]] extends_wf [OF e0]
        by (auto simp: extends_def split: if_splits)
      have "pa_type ?k = FB_PARSER_KEYWORD" by (cases p) simp
      then have "pa_type p1 = FB_PARSER_KEYWORD"
        using p1(1) by (auto simp: fb_parser_add_keeps_type split: if_splits)
      then have "extends R r (\<lambda>args. args \<noteq> [] \<and> list_ex (\<lambda>w. strcasecmp (hd args) w = 0) (snd (alternation word))
          \<and> matches argv (tl args)) p1 p'"
        using add_alternatives_extends [OF k extends_wf [OF e1] _ p1(2)] by simp
      from extends_trans [OF e0 extends_trans [OF e1 this]] show ?thesis
        by (rule extends_cong) (use alt in auto)
    next
      case plain
      have t: "pa_type p = FB_PARSER_UNDETERMINED \<or> pa_type p = FB_PARSER_KEYWORD"
        using some plain by (auto simp: strcmp_eq_0 split: if_splits)
      have e0: "extends R r (\<lambda>args. False) p (set_type FB_PARSER_KEYWORD p)" using set_type_extends [OF wf t] .
      have "pa_type (set_type FB_PARSER_KEYWORD p) = FB_PARSER_KEYWORD" by (cases p) simp
      then have "extends R r (\<lambda>args. args \<noteq> [] \<and> strcasecmp (hd args) word = 0 \<and> matches argv (tl args))
          (set_type FB_PARSER_KEYWORD p) p'"
        using add_keyword_extends [OF k extends_wf [OF e0]] some plain t by (auto simp: strcmp_eq_0)
      from extends_trans [OF e0 this] show ?thesis
        by (rule extends_cong) (use plain in auto)
    qed
  qed
qed

section \<open>Sorting\<close>

lemma set_insert_word [simp]: "set (insert_word p qs) = insert p (set qs)"
  by (induction qs) auto

lemma set_sort_words [simp]: "set (sort_words ps) = set ps"
  by (induction ps) (auto simp: sort_words_def)

lemma length_sort_words [simp]: "length (sort_words ps) = length ps"
proof -
  have "length (insert_word p qs) = Suc (length qs)" for p qs by (induction qs) auto
  then show ?thesis by (induction ps) (auto simp: sort_words_def)
qed

lemma distinct_sort_words: "distinct (map f (sort_words ps)) = distinct (map f ps)"
proof -
  have "distinct (map f (insert_word p qs)) \<longleftrightarrow> f p \<notin> f ` set qs \<and> distinct (map f qs)" for p qs
    by (induction qs) auto
  then show ?thesis
    using set_sort_words by (induction ps) (auto simp: sort_words_def)
qed

lemma sort_all_parts [simp]:
  "pa_word (fb_sort_all p) = pa_word p" "pa_type (fb_sort_all p) = pa_type p" "pa_value (fb_sort_all p) = pa_value p"
  "pa_response (fb_sort_all p) = pa_response p" "fb_parse_compare a (fb_sort_all p) = fb_parse_compare a p"
  "word_key (fb_sort_all p) = word_key p"
  "subcomponents (fb_sort_all p) = sort_words (map fb_sort_all (subcomponents p))"
  by (cases p; simp add: fb_parse_compare_def word_key_def)+

lemma accepts_sort_all: "accepts args (fb_sort_all p) q = accepts args p q"
  by (induction args arbitrary: p) (auto split: fb_parser_type.splits)

lemma parser_wf_sort_all: "parser_wf R p \<Longrightarrow> parser_wf R (fb_sort_all p)"
proof (induction p)
  case (Fb_Parser t v w n b r subs)
  have "map word_key (map fb_sort_all subs) = map word_key subs" by simp
  then show ?case
    using Fb_Parser by (auto simp: distinct_sort_words simp del: map_map split: fb_parser_type.splits)
       (auto simp: comp_def length_Suc_conv sort_words_def)
qed

definition word_less :: "fb_parser \<Rightarrow> fb_parser \<Rightarrow> bool" where
  "word_less p q \<longleftrightarrow> strcasecmp (the (pa_word p)) (the (pa_word q)) < 0"

fun sorted_tree :: "fb_parser \<Rightarrow> bool" where
  "sorted_tree (Fb_Parser t v w n b r subs) \<longleftrightarrow>
    (t = FB_PARSER_KEYWORD \<longrightarrow> sorted_wrt word_less subs) \<and> (\<forall>c \<in> set subs. sorted_tree c)"

lemma insert_word_sorted:
  "\<lbrakk>sorted_wrt word_less qs; \<forall>q \<in> set (p # qs). pa_word q \<noteq> None; word_key p \<notin> word_key ` set qs\<rbrakk> \<Longrightarrow>
    sorted_wrt word_less (insert_word p qs)"
proof (induction qs)
  case (Cons q qs)
  have c: "compare_words p q = strcasecmp (the (pa_word p)) (the (pa_word q))"
    using Cons.prems(2) by (auto simp: compare_words_def fb_parse_compare_def)
  have ne: "strcasecmp (the (pa_word p)) (the (pa_word q)) \<noteq> 0"
    using Cons.prems(3) by (auto simp: strcasecmp_eq_0 word_key_def)
  show ?case
  proof (cases "compare_words p q \<le> 0")
    case True
    then have "word_less p q" using c ne by (simp add: word_less_def)
    moreover have "word_less p r" if "r \<in> set qs" for r
      using Cons.prems(1) that strcasecmp_trans calculation by (auto simp: word_less_def)
    ultimately show ?thesis using True Cons.prems(1) by auto
  next
    case False
    then have "word_less q p" using c strcasecmp_antisym [of "the (pa_word p)" "the (pa_word q)"] by (simp add: word_less_def)
    then show ?thesis using False Cons by auto
  qed
qed simp

lemma sort_words_sorted:
  "\<lbrakk>\<forall>q \<in> set ps. pa_word q \<noteq> None; distinct (map word_key ps)\<rbrakk> \<Longrightarrow> sorted_wrt word_less (sort_words ps)"
proof (induction ps)
  case (Cons p ps)
  have "set (foldr insert_word ps []) = set ps" using set_sort_words [of ps] by (simp add: sort_words_def)
  then show ?case
    using Cons insert_word_sorted [of "foldr insert_word ps []" p] by (auto simp: sort_words_def)
qed (simp add: sort_words_def)

lemma sorted_tree_sort_all: "parser_wf R p \<Longrightarrow> sorted_tree (fb_sort_all p)"
proof (induction p)
  case (Fb_Parser t v w n b r subs)
  have "map word_key (map fb_sort_all subs) = map word_key subs" by simp
  then show ?case
    using Fb_Parser sort_words_sorted [of "map fb_sort_all subs"]
    by (auto simp del: map_map split: fb_parser_type.splits)
qed

section \<open>Interpreting a sorted tree\<close>

lemma bsearch_word:
  assumes "sorted_wrt word_less subs" and "\<forall>c \<in> set subs. pa_word c \<noteq> None"
    and "i < length subs" and "fb_parse_compare a (subs ! i) = 0"
  shows "bsearch (fb_parse_compare a) subs 0 (length subs) = Some i"
proof (rule bsearch_finds)
  have c: "fb_parse_compare a (subs ! j) = strcasecmp a (the (pa_word (subs ! j)))" if "j < length subs" for j
    using assms(2) nth_mem [OF that] by (auto simp: fb_parse_compare_def)
  have same: "map to_lower a = map to_lower (the (pa_word (subs ! i)))"
    using c [OF assms(3)] assms(4) by (simp add: strcasecmp_eq_0)
  have cong: "strcasecmp a b = strcasecmp (the (pa_word (subs ! i))) b" for b
    using same by (simp add: strcasecmp_def flip: map_map)
  fix j
  show "fb_parse_compare a (subs ! j) > 0" if "j < i"
    using sorted_wrt_nth_less [OF assms(1) that assms(3)] c [of j] assms(3) that cong
      strcasecmp_antisym [of "the (pa_word (subs ! j))" "the (pa_word (subs ! i))"]
    by (simp add: word_less_def)
  show "fb_parse_compare a (subs ! j) < 0" if "i < j" "j < length subs"
    using sorted_wrt_nth_less [OF assms(1) that] c [of j] that cong by (simp add: word_less_def)
qed (use assms in auto)

lemma unique_word:
  assumes "distinct (map word_key subs)" and "\<forall>c \<in> set subs. pa_word c \<noteq> None"
    and "c \<in> set subs" and "d \<in> set subs" and "fb_parse_compare a c = 0" and "fb_parse_compare a d = 0"
  shows "c = d"
  using assms compare_eq_0 by (metis distinct_map inj_onD)

lemma interpret_sorted:
  "\<lbrakk>parser_wf R p; sorted_tree p\<rbrakk> \<Longrightarrow>
    \<exists>q e. fb_interpret_recurse p args = Some (q, e) \<and> (\<forall>c > 0. (q = c) = accepts args p c)"
proof (induction args arbitrary: p)
  case Nil
  then show ?case by (cases p) auto
next
  case (Cons a args)
  obtain t v w n b r subs where p: "p = Fb_Parser t v w n b r subs" by (cases p)
  have IH: "\<exists>q e. fb_interpret_recurse s args = Some (q, e) \<and> (\<forall>c > 0. (q = c) = accepts args s c)" if "s \<in> set subs" for s
    using Cons that p by auto
  show ?case
  proof (cases t)
    case FB_PARSER_KEYWORD
    then have words: "\<forall>c \<in> set subs. pa_word c \<noteq> None" "distinct (map word_key subs)" "sorted_wrt word_less subs"
      using Cons.prems p by auto
    show ?thesis
    proof (cases "\<exists>i < length subs. fb_parse_compare a (subs ! i) = 0")
      case True
      then obtain i where i: "i < length subs" "fb_parse_compare a (subs ! i) = 0" by blast
      have "bsearch (fb_parse_compare a) subs 0 (length subs) = Some i"
        using bsearch_word words i by blast
      moreover have "accepts (a # args) p c = accepts args (subs ! i) c" for c
      proof -
        have "d = subs ! i" if "d \<in> set subs" "fb_parse_compare a d = 0" for d
          using unique_word [OF words(2,1) that(1) nth_mem [OF i(1)] that(2) i(2)] .
        then show ?thesis using i FB_PARSER_KEYWORD p nth_mem [OF i(1)] by auto
      qed
      ultimately show ?thesis using IH [OF nth_mem [OF i(1)]] FB_PARSER_KEYWORD p by auto
    next
      case False
      then have "bsearch (fb_parse_compare a) subs 0 (length subs) = None"
        by (cases "bsearch (fb_parse_compare a) subs 0 (length subs)") (auto dest: bsearch_SomeD)
      moreover have "\<not> accepts (a # args) p c" for c
        using False FB_PARSER_KEYWORD p by (auto simp: in_set_conv_nth)
      ultimately show ?thesis using FB_PARSER_KEYWORD p by auto
    qed
  next
    case FB_PARSER_VALUE
    then obtain s where "subs = [s]" using Cons.prems p by (auto simp: length_Suc_conv)
    moreover have "e < 0" if "value_error v a = Some e" for e
      using that by (cases v) (auto simp: Let_def split: if_splits prod.splits)
    ultimately show ?thesis using IH [of s] FB_PARSER_VALUE p by (cases "value_error v a") force+
  qed (use p Cons.prems in auto)
qed

text \<open>What the interpreter answers is the code of a statement or one of five errors.\<close>

lemma interpret_codes:
  "\<lbrakk>parser_wf R p; fb_interpret_recurse p args = Some (q, e)\<rbrakk> \<Longrightarrow>
    0 < q \<or> q \<in> {FB_PARSE_INCOMPLETE, FB_PARSE_INVALID_KEYWORD, FB_PARSE_EXTRA_TERMS, FB_PARSE_NUMERIC, FB_PARSE_RANGE}"
proof (induction args arbitrary: p)
  case Nil
  then show ?case by (cases p) (auto split: if_splits)
next
  case (Cons a args)
  obtain t v w n b r subs where p: "p = Fb_Parser t v w n b r subs" by (cases p)
  show ?case
  proof (cases t)
    case FB_PARSER_KEYWORD
    then show ?thesis
      using Cons.prems p Cons.IH [of "subs ! the (bsearch (fb_parse_compare a) subs 0 (length subs))"]
      by (cases "bsearch (fb_parse_compare a) subs 0 (length subs)") (simp_all add: bsearch_SomeD)
  next
    case FB_PARSER_VALUE
    then obtain s where "subs = [s]" using Cons.prems p by (auto simp: length_Suc_conv)
    then show ?thesis
      using Cons p FB_PARSER_VALUE by (cases v) (auto simp: Let_def split: if_splits prod.splits option.splits)
  qed (use Cons.prems p in auto)
qed

section \<open>The parser understands what its patterns mean\<close>

lemma add_statements_accepts:
  "\<lbrakk>parser_wf R p; \<forall>(r, s) \<in> set def. 0 < r \<and> list_all (word_radix_ok R) (fst (fb_create_argv s)); add_statements def p = Some p'\<rbrakk>
   \<Longrightarrow> parser_wf R p' \<and> (\<forall>args q. 0 < q \<longrightarrow> accepts args p' q =
     (accepts args p q \<or> (\<exists>s. (q, s) \<in> set def \<and> matches (fst (fb_create_argv s)) args)))"
proof (induction "def" arbitrary: p)
  case (Cons d "def")
  obtain r s where d: "d = (r, s)" by force
  then obtain p1 where p1: "fb_parser_add (fst (fb_create_argv s)) r p = Some p1" "add_statements def p1 = Some p'"
    using Cons.prems(3) by (auto simp: bind_eq_Some_conv)
  have e: "extends R r (matches (fst (fb_create_argv s))) p p1"
    using addsD [OF fb_parser_add_extends Cons.prems(1) p1(1)] Cons.prems(2) d by auto
  show ?case
    using Cons.IH [OF extends_wf [OF e] _ p1(2)] Cons.prems(2) e d by (auto simp: extends_def)
qed simp

definition uniform_statements :: "(int \<Rightarrow> int \<Rightarrow> nat) \<Rightarrow> (int \<times> string) list \<Rightarrow> bool" where
  "uniform_statements R def \<longleftrightarrow> list_all (\<lambda>(r, s). 0 < r \<and> list_all (word_radix_ok R) (fst (fb_create_argv s))) def"

lemma add_statements_parser:
  assumes "parser_wf R p" and "uniform_statements R def" and "fb_parser_add_statements p def = Some p'"
  shows "parser_wf R p' \<and> sorted_tree p' \<and> (\<forall>args q. 0 < q \<longrightarrow> accepts args p' q =
     (accepts args p q \<or> (\<exists>s. (q, s) \<in> set def \<and> matches (fst (fb_create_argv s)) args)))"
proof -
  obtain p1 where p1: "add_statements def p = Some p1" "p' = fb_sort_all p1"
    using assms(3) by (auto simp: fb_parser_add_statements_def)
  have "\<forall>(r, s) \<in> set def. 0 < r \<and> list_all (word_radix_ok R) (fst (fb_create_argv s))"
    using assms(2) by (simp add: uniform_statements_def list_all_iff)
  from add_statements_accepts [OF assms(1) this p1(1)] show ?thesis
    using p1(2) parser_wf_sort_all sorted_tree_sort_all by (auto simp: accepts_sort_all)
qed

text \<open>Not a number is in every range of reals: both comparisons with the bounds fail.\<close>

lemma nan_in_every_range: "value_error (FB_VALUE_RANGED_REAL lo hi) ''nan'' = None"
proof -
  have "strtod ''nan'' = (Not_a_number, [])" by code_simp
  then show ?thesis by simp
qed

text \<open>
  C31: The parser keeps its type when it grows: adding a list of statements to a well-formed parser, statements whose codes are positive and
  whose patterns write integer ranges with the same bounds in the same radix (the radix R of these bounds), as the parser does too, gives a
  well-formed one (nodes of a kind have the children that kind allows, the words of a node are distinct) whose words are sorted at
  every node, as bsearch needs, and it still accepts what it accepted before.
\<close>
theorem fb_parser_stays_wf:
  assumes "parser_wf R parser" and "uniform_statements R def" and "fb_parser_add_statements parser def = Some parser'"
  shows "parser_wf R parser' \<and> sorted_tree parser' \<and> {(args, q). 0 < q \<and> accepts args parser q} \<subseteq> {(args, q). accepts args parser' q}"
  using add_statements_parser [OF assms] by auto

theorem fb_parser_stays_wf_witness:
  "\<exists>parser. fb_parser_add_statements fb_create_parser [(3, ''help [{command}]''), (125, ''quit'')] = Some parser
    \<and> parser_wf (\<lambda>_ _. 10) parser \<and> sorted_tree parser"
proof -
  let ?def = "[(3, ''help [{command}]''), (125, ''quit'')] :: (int \<times> string) list"
  have "fb_parser_add_statements fb_create_parser ?def \<noteq> None" by code_simp
  then obtain parser where parser: "fb_parser_add_statements fb_create_parser ?def = Some parser" by auto
  have "uniform_statements (\<lambda>_ _. 10) ?def" by code_simp
  moreover have "parser_wf (\<lambda>_ _. 10) fb_create_parser" by (simp add: fb_create_parser_def)
  ultimately show ?thesis using fb_parser_stays_wf parser by blast
qed

text \<open>
  C20: The command parser is equivalent to matching every pattern: the tree that fb_parser_add_statements builds from a
  list of patterns, searched with bsearch by fb_interpret, answers every command line, and its answer is the
  code c of a statement exactly when the words match a pattern given with that code.  The codes must be positive, and patterns that use
  an integer range with the same bounds must write it in the same radix, because the parser would read both with that of the first.
\<close>
theorem fb_interpret_equiv:
  assumes "fb_parser_add_statements fb_create_parser def = Some parser" and "uniform_statements R def"
  shows "\<exists>q e. fb_interpret parser argv = Some (q, e) \<and>
    (\<forall>c > 0. q = c \<longleftrightarrow> (\<exists>s. (c, s) \<in> set def \<and> matches (fst (fb_create_argv s)) argv))"
proof -
  have "parser_wf R fb_create_parser" by (simp add: fb_create_parser_def)
  from add_statements_parser [OF this assms(2,1)] have
    wf: "parser_wf R parser" "sorted_tree parser" and
    acc: "\<And>args q. 0 < q \<Longrightarrow> accepts args parser q = (\<exists>s. (q, s) \<in> set def \<and> matches (fst (fb_create_argv s)) args)"
    by (auto simp: fb_create_parser_def)
  show ?thesis
    using interpret_sorted [OF wf, of argv] acc by (auto simp: fb_interpret_def)
qed

theorem fb_interpret_equiv_witness:
  "\<exists>parser e. fb_parser_add_statements fb_create_parser [(3, ''help [{command}]''), (125, ''quit'')] = Some parser
    \<and> fb_interpret parser [''HELP'', ''play''] = Some (3, e)"
proof -
  let ?def = "[(3, ''help [{command}]''), (125, ''quit'')] :: (int \<times> string) list"
  have "fb_parser_add_statements fb_create_parser ?def \<noteq> None" by code_simp
  then obtain parser where parser: "fb_parser_add_statements fb_create_parser ?def = Some parser" by auto
  have "uniform_statements (\<lambda>_ _. 10) ?def" by code_simp
  from fb_interpret_equiv [OF parser this, of "[''HELP'', ''play'']"]
  obtain q e where q: "fb_interpret parser [''HELP'', ''play''] = Some (q, e)"
    and c: "\<forall>c > 0. q = c \<longleftrightarrow> (\<exists>s. (c, s) \<in> set ?def \<and> matches (fst (fb_create_argv s)) [''HELP'', ''play''])"
    by blast
  have "matches (fst (fb_create_argv ''help [{command}]'')) [''HELP'', ''play'']" by code_simp
  then have "q = 3" using c [rule_format, of 3] by auto
  then show ?thesis using parser q by blast
qed

end
