(* ===== verification/CommandTables.thy ===== *)
theory CommandTables
  imports FbParserProofs CommandCodes Users
begin

text \<open>
  The command patterns of \<open>src/src/command.c\<close>, in a build with capture and shoutcast, and \<open>init_parser\<close>, which
  builds the parser from them.
\<close>

section \<open>The tables\<close>

definition loginstatements :: "(command \<times> string) list" where
  "loginstatements = [
    (HELP, ''help [{command}]''),
    (QUIT, ''quit''),
    (AUTHENTICATE, ''user {username} {password}''),
    (AUTHANDEXEC, ''as user {username} {password} {command} ...''),
    (GETUSERRANK, ''get privileges'')]"

definition listenerstatements :: "(command \<times> string) list" where
  "listenerstatements = [
    (TIMESTATUS, ''''),
    (NOP, ''# ...''),
    (HELP, ''? [{command}]''),
    (QUERYSTATUS, ''status''),
    (QUERYHISTORY, ''history [{#index}]''),
    (QUERYQUEUE, ''queue [{#index}]''),
    (YELL, ''yell {announcement}''),
    (GETHISTORYSIZE, ''get history length''),
    (GETAUDIOQUALITY, ''get audio quality''),
    (AUTOTUNEGETMODE, ''autotune mode''),
    (GETVOLUME, ''volume''),
    (SETMYPASSWORD, ''set password {old} {new}''),
    (WAITFORENDOFSONG, ''wait for end of song''),
    (WAITFORNEXTSONG, ''wait for next song'')]"

definition influencestatements :: "(command \<times> string) list" where
  "influencestatements = [
    (STATIONRATE, ''rate station <good|bad|neutral> [{station}]''),
    (STATIONRATINGS, ''station ratings [{station}]'')]"

definition userstatements :: "(command \<times> string) list" where
  "userstatements = [
    (NEXTSONG, ''skip''),
    (PAUSEPLAYBACK, ''pause''),
    (STOPPLAYBACK, ''stop [now]''),
    (PLAY, ''play''),
    (PLAYPAUSE, ''playpause''),
    (PLAYQUICKMIX, ''play <mix|auto>''),
    (PLAYSTATION, ''play station {station}''),
    (SELECTQUICKMIX, ''select <mix|auto>''),
    (SELECTSTATION, ''select station {station}''),
    (STATIONLIST, ''stations [list]''),
    (STATIONINFO, ''station seeds [{station}]''),
    (QUICKMIXINCLUDED, ''mix''),
    (QUICKMIXINCLUDED, ''mix list''),
    (QUICKMIXINCLUDED, ''mix list included''),
    (QUICKMIXEXCLUDED, ''mix list excluded''),
    (QUICKMIXADD, ''mix add {station} ...''),
    (QUICKMIXDROP, ''mix remove {station} ...''),
    (QUICKMIXSET, ''mix set {station} ...''),
    (QUICKMIXTOGGLE, ''mix toggle {station} ...''),
    (GETSUGGESTIONS, ''find <any|song|artist|genre> [{specifier}]''),
    (SETVOLUME, ''volume {level}'')]"

definition adminstatements :: "(command \<times> string) list" where
  "adminstatements = [
    (SETAUDIOQUALITY, ''set audio quality <high|medium|low>''),
    (GETPANDORAUSER, ''get pandora user''),
    (GETRPCHOST, ''get rpc host''),
    (SETRPCHOST, ''set rpc host {hostname}''),
    (GETRPCTLSPORT, ''get rpc tls port''),
    (SETRPCTLSPORT, ''set rpc tls port [{port}]''),
    (GETPARTNER, ''get partner''),
    (SETPARTNER, ''set partner {user} {password}''),
    (GETPANDORADEVICE, ''get pandora device''),
    (SETPANDORADEVICE, ''set pandora device {devicetype}''),
    (GETENCRYPTPASSWORD, ''get encryption password''),
    (SETENCRYPTPASSWORD, ''set encryption password {password}''),
    (GETDECRYPTPASSWORD, ''get decryption password''),
    (SETDECRYPTPASSWORD, ''set decryption password {password}''),
    (GETTLSFINGERPRINT, ''get tls fingerprint''),
    (SETTLSFINGERPRINT, ''set tls fingerprint {fingerprint}''),
    (GETOUTPUTDRIVER, ''get audio output driver''),
    (SETOUTPUTDRIVER, ''set audio output driver [{driver}]''),
    (GETOUTPUTDEVICE, ''get audio output device''),
    (SETOUTPUTDEVICE, ''set audio output device [{device}]''),
    (GETOUTPUTID, ''get audio output id''),
    (SETOUTPUTID, ''set audio output id [{#id}]''),
    (GETOUTPUTSERVER, ''get audio output server''),
    (SETOUTPUTSERVER, ''set audio output server [{server}]''),
    (TESTAUDIOOUTPUT, ''test audio output''),
    (GETCAPTUREPATH, ''get capture''),
    (SETCAPTUREPATH, ''set capture <path|off> [{path}]''),
    (SETSHOUTCAST, ''set shoutcast <server|on|off> [{connect-string}]''),
    (SETLOGGINGFLAGS, ''set [football] logging flags {#logging-flags:0x0-0xffff}''),
    (GETPROXY, ''get proxy''),
    (SETPROXY, ''set proxy {url}''),
    (GETCONTROLPROXY, ''get control proxy''),
    (SETCONTROLPROXY, ''set control proxy {url}''),
    (GETPAUSETIMEOUT, ''get pause timeout''),
    (SETPAUSETIMEOUT, ''set pause timeout {#duration:15-86400}''),
    (GETPANDORARETRY, ''get pandora retry''),
    (SETPANDORARETRY, ''set pandora retry {#duration:5-300}''),
    (GETPLAYLISTTIMEOUT, ''get playlist timeout''),
    (SETPLAYLISTTIMEOUT, ''set playlist timeout {#duration:1800-86400}''),
    (SETHISTORYSIZE, ''set history length {#length:1-50}''),
    (SETVISITORRANK, ''set visitor rank <disabled|listener|user|admin>''),
    (AUTOTUNESETMODE, ''autotune mode <login|flag|all>''),
    (SHOWUSERACTIONS, ''announce user actions <on|off>''),
    (SHUTDOWN, ''shutdown''),
    (USERCREATE, ''create <listener|user|admin> {user} {passwd}''),
    (USERSETPASSWORD, ''set user password {user} {password}''),
    (USERSETRANK, ''set user rank {user} <disabled|listener|user|admin>''),
    (USERDELETE, ''delete user {user}''),
    (USERGRANT, ''grant <service|influence|tuner> to {user} ...''),
    (USERREVOKE, ''revoke <service|influence|tuner> from {user} ...''),
    (USERLISTBYPRIVILEGE, ''users with <owner|service|influence|tuner|present>''),
    (USERLIST, ''users list [{user}]''),
    (USERSONLINE, ''users online''),
    (USERKICK, ''kick user {user} [{message}]''),
    (USERKICKVISITORS, ''kick visitors [{message}]'')]"

definition ownerstatements :: "(command \<times> string) list" where
  "ownerstatements = [
    (RATELOVE, ''rate good [{songid}]''),
    (RATEHATE, ''rate bad [{songid}]''),
    (RATENEUTRAL, ''rate neutral [{songid}]''),
    (RATEOVERPLAYED, ''rate overplayed [{songid}]''),
    (STATIONCREATEBYSONG, ''create station from <song|artist> [{songid}]''),
    (STATIONCREATEBYSONGWNAME, ''create station named {name} from <song|artist> [{songid}]''),
    (STATIONCREATE, ''create station from suggestion {suggestionid}''),
    (STATIONCREATEWNAME, ''create station named {name} from suggestion {suggestionid}''),
    (STATIONCREATEBYID, ''create station from shared {stationId}''),
    (STATIONCREATEBYIDWNAME, ''create station named {name} from shared {stationId}''),
    (STATIONRENAME, ''rename station {station} to {newname}''),
    (STATIONDELETE, ''delete station {station}''),
    (SEEDADD, ''add seed from suggestion {suggestionid}''),
    (SEEDADDWSTATION, ''add seed from suggestion {suggestionid} to {station}''),
    (SEEDADDBYSONG, ''add <song|artist> seed from song [{songid}]''),
    (SEEDADDBYSONGWSTATION, ''add <song|artist> seed to {station} from song [{songid}]''),
    (SEEDDELETEBYSONG, ''delete <song|artist> seed [{songid}]''),
    (SEEDDELETEBYID, ''delete seed {seedid}''),
    (EXPLAINSONGCHOICE, ''explain song [{songid}]''),
    (CREATEBOOKMARK, ''bookmark {song|artist} for song [{songid}]'')]"

definition servicestatements :: "(command \<times> string) list" where
  "servicestatements = [
    (PANDORAUSER, ''[remember] pandora user {user} {passwd} [mine|unowned]''),
    (PANDORAUSERSPECIFY, ''pandora user {user} {passwd} managed by {user}''),
    (PANDORAEXISTING, ''pandora use {user}''),
    (WAITFORAUTHENTICATION, ''wait for authentication''),
    (USERLISTPANDORA, ''pandora list users'')]"

definition tunerstatements :: "(command \<times> string) list" where
  "tunerstatements = [
    (AUTOTUNEUSERS, ''autotune for ...''),
    (AUTOTUNEUSERSLIST, ''autotune list users''),
    (AUTOTUNEADDREMOVE, ''autotune <consider|disregard> {user} ...'')]"

definition deprecatedstatements :: "(command \<times> string) list" where
  "deprecatedstatements = [
    (SETVISITORRANK, ''set guest level <disabled|guest|user|admin>''),
    (USERSETRANK, ''set user level {user} <disabled|guest|user|admin>''),
    (SETVISITORRANK, ''set visitor rank guest''),
    (USERCREATE, ''create guest {user} {passwd}''),
    (USERSETRANK, ''set user rank {user} guest ''),
    (PANDORAUSERSPECIFY, ''pandora user {user} {passwd} owned by {user}'')]"

text \<open>\<open>NOT_APPLICABLE\<close> is \<open>None\<close>.\<close>

type_synonym commandset = "user_rank option \<times> privilege option \<times> (command \<times> string) list"

definition allstatements :: "commandset list" where
  "allstatements = [
    (Some RANK_NONE, None, loginstatements),
    (Some RANK_LISTENER, None, listenerstatements),
    (None, Some PRIVILEGE_INFLUENCE, influencestatements),
    (Some RANK_STANDARD, None, userstatements),
    (Some RANK_ADMINISTRATOR, None, adminstatements),
    (None, Some PRIVILEGE_MANAGER, ownerstatements),
    (Some RANK_ADMINISTRATOR, Some PRIVILEGE_SERVICE, servicestatements),
    (Some RANK_ADMINISTRATOR, Some PRIVILEGE_TUNER, tunerstatements),
    (None, None, deprecatedstatements)]"

section \<open>The parser\<close>

fun add_statement_sets :: "commandset list \<Rightarrow> fb_parser \<Rightarrow> fb_parser option" where
  "add_statement_sets [] parser = Some parser"
| "add_statement_sets ((_, _, commandset) # rest) parser =
    Option.bind (fb_parser_add_statements parser commandset) (add_statement_sets rest)"

definition init_parser :: "fb_parser option" where
  "init_parser = add_statement_sets allstatements fb_create_parser"

end
