(* ===== verification/Commands.thy ===== *)
theory Commands
  imports SeedCommands Query Settings CommandTables
begin

text \<open>
  \<open>src/src/command.c\<close>, first part: the functions the commands are made of.  \<open>event\<close> is the number of the connection a
  command came from, \<open>argv\<close> its words.  \<open>None\<close> is a failed assertion or a NULL pointer followed.
\<close>

section \<open>Small things\<close>

text \<open>\<open>argv[i]\<close>; the vector ends with a NULL.\<close>

definition arg :: "string list \<Rightarrow> nat \<Rightarrow> string option" where
  "arg argv i = (if i < length argv then Some (argv ! i) else None)"

abbreviation (input) answer :: "nat \<Rightarrow> int \<Rightarrow> appstate \<Rightarrow> appstate" where
  "answer event code app \<equiv> on_service (reply event code) app"

definition send_rating_of :: "nat \<Rightarrow> song \<Rightarrow> appstate \<Rightarrow> appstate option" where
  "send_rating_of event song app = do {
    sid \<leftarrow> stationId song;
    k \<leftarrow> find_connection (service app) event;
    sv \<leftarrow> send_station_rating (users app) k sid (service app);
    Some (app\<lparr>service := sv\<rparr>)
  }"

definition announce :: "int \<Rightarrow> string \<Rightarrow> appstate \<Rightarrow> appstate" where
  "announce code value app = on_service (emit Everyone code (Response code @ '': '' @ value)) app"

text \<open>strncasecmp with the length of the second text, as a test.\<close>

definition begins_nocase :: "string \<Rightarrow> string \<Rightarrow> bool" where
  "begins_nocase s p = (strcasecmp (take (length p) s) p = 0)"

section \<open>Help\<close>

definition shown_to :: "users_state \<Rightarrow> user option \<Rightarrow> commandset \<Rightarrow> bool" where
  "shown_to us u c = (case c of (usertype, priv, _) \<Rightarrow>
    (case usertype of Some r \<Rightarrow> have_rank us u r | None \<Rightarrow> False)
    \<or> (case priv of Some p \<Rightarrow> have_privilege us u p | None \<Rightarrow> False))"

definition statements_on :: "string option \<Rightarrow> commandset \<Rightarrow> string list" where
  "statements_on topic c = filter (\<lambda>s. case topic of None \<Rightarrow> True | Some t \<Rightarrow> begins_nocase s t) (map snd (snd (snd c)))"

definition send_statement_list :: "nat \<Rightarrow> user option \<Rightarrow> string option \<Rightarrow> appstate \<Rightarrow> appstate" where
  "send_statement_list event u topic app = on_service
    (fold (\<lambda>s. send_response_code (To event) I_INFO s)
      (concat (map (statements_on topic) (filter (shown_to (users app) u) allstatements)))) app"

section \<open>Quick mix\<close>

definition quickmix_value :: "command \<Rightarrow> bool \<Rightarrow> bool option" where
  "quickmix_value cmd old =
    (if cmd = QUICKMIXSET \<or> cmd = QUICKMIXADD then Some True
     else if cmd = QUICKMIXDROP then Some False
     else if cmd = QUICKMIXTOGGLE then Some (\<not> old)
     else None)"

text \<open>The stations, the number of changes and the last of them.\<close>

fun quickmix_loop :: "command \<Rightarrow> string list \<Rightarrow> station list \<Rightarrow> nat \<Rightarrow> (string \<times> int) option \<Rightarrow>
    (station list \<times> nat \<times> (string \<times> int) option) option" where
  "quickmix_loop cmd [] sts change_count change = Some (sts, change_count, change)"
| "quickmix_loop cmd (word # argv) sts change_count change = do {
    s \<leftarrow> PianoFindStationByName sts word;
    if isQuickMix s then None else do {
      v \<leftarrow> quickmix_value cmd (useQuickMix s);
      let sts = update_station (st_id s) (\<lambda>s. s\<lparr>useQuickMix := v\<rparr>) sts;
      (if useQuickMix s \<noteq> v then quickmix_loop cmd argv sts (change_count + 1) (Some (word, if v then A_MIX_ADDED else A_MIX_REMOVED))
       else quickmix_loop cmd argv sts change_count change)
    }
  }"

definition manipulate_quickmix :: "world \<Rightarrow> nat \<Rightarrow> command \<Rightarrow> string list \<Rightarrow> appstate \<Rightarrow> (int \<times> appstate) option" where
  "manipulate_quickmix w event cmd argv app = do {
    let (app, change_count) = (if cmd = QUICKMIXSET then (on_stations (map (\<lambda>s. s\<lparr>useQuickMix := False\<rparr>)) app, 2) else (app, 0));
    (sts, change_count, change) \<leftarrow> quickmix_loop cmd argv (stations (ph app)) change_count None;
    let app = on_stations (\<lambda>_. sts) app;
    (if change_count > 0 then do {
       (ok, app, _) \<leftarrow> piano_transaction w None SetQuickMix app;
       (if ok then do {
          (nm, action) \<leftarrow> (if change_count = 1 then map_option (\<lambda>(n, a). (Some n, a)) change else Some (None, A_CHANGED_MIX));
          app \<leftarrow> announce_action event action nm (on_service (send_response Everyone I_MIX_CHANGED) app);
          Some (S_OK, app)
        } else Some (E_NAK, app))
     } else Some (S_OK, app))
  }"

section \<open>Queue and history\<close>

definition send_song_lists :: "nat \<Rightarrow> command \<Rightarrow> string list \<Rightarrow> appstate \<Rightarrow> appstate option" where
  "send_song_lists event cmd argv app = (case arg argv 1 of
      None \<Rightarrow> send_song_list event (if cmd = QUERYHISTORY then song_history app else playlist app) app
    | Some a \<Rightarrow>
        let index = atoi a
        in if index = 0 then
             (case current_song app of
                 Some song \<Rightarrow> send_song_list event [song] app
               | None \<Rightarrow> Some (answer event E_WRONG_STATE app))
           else
             let songs = (if (cmd = QUERYHISTORY) = (index > 0) then song_history app else playlist app)
             in (case drop (nat \<bar>index\<bar> - 1) songs of
                   song # _ \<Rightarrow> do {
                     app \<leftarrow> send_song_info (To event) song (answer event S_DATA app);
                     app \<leftarrow> send_rating_of event song app;
                     Some (answer event S_DATA_END app)
                   }
                 | [] \<Rightarrow> Some (answer event E_NOTFOUND app)))"

section \<open>Playback\<close>

text \<open>The state a command asks for; the lock of the mutex is assumed to succeed.\<close>

definition commanded_state :: "command \<Rightarrow> playback_state \<Rightarrow> playback_state option" where
  "commanded_state cmd state =
    (if cmd = PLAY then Some PLAYING
     else if cmd = PAUSEPLAYBACK then Some PAUSED
     else if cmd = PLAYPAUSE then Some (if state = PLAYING then PAUSED else PLAYING)
     else None)"

definition control_playback :: "nat \<Rightarrow> command \<Rightarrow> appstate \<Rightarrow> appstate option" where
  "control_playback event cmd app = do {
    let orig_state = playback_state app;
    state \<leftarrow> commanded_state cmd orig_state;
    let app = app\<lparr>playback_state := state\<rparr>;
    let app = (if mode (player app) \<ge> PLAYER_STARTING then
        (let app = app\<lparr>player := (player app)\<lparr>doPause := (state = PAUSED)\<rparr>\<rparr>;
             app = answer event S_OK (send_playback_status Everyone app)
         in if state = PAUSED \<and> paused_since app = 0 then app\<lparr>paused_since := now app\<rparr>
            else if state = PLAYING then app\<lparr>paused_since := 0\<rparr>
            else app)
      else if selected_station app = None then
        (on_service (data_reply event E_WRONG_STATE ''No station selected'') app)\<lparr>playback_state := orig_state\<rparr>
      else answer event S_OK app);
    Some (if playback_state app = PAUSED then app\<lparr>stall := no_stall\<rparr> else app)
  }"

section \<open>Stations\<close>

definition rename_new_station :: "world \<Rightarrow> nat \<Rightarrow> string option \<Rightarrow> appstate \<Rightarrow> appstate option" where
  "rename_new_station w event to_name app = (case to_name of
      None \<Rightarrow> Some app
    | Some n \<Rightarrow>
        if stations (ph app) = [] then Some app
        else do {
          let sid = st_id (last (stations (ph app)));
          (ok, app) \<leftarrow> pwn_station w event sid app;
          (if ok then do {
             (ok, app, _) \<leftarrow> piano_transaction w None (RenameStation sid n) app;
             Some (if ok then app
               else on_service (send_response_code (To event) E_INCOMPLETE ''Station created but retains default name'') app)
           } else Some app)
        })"

text \<open>What the three ways to create a station end with.\<close>

definition create_station :: "world \<Rightarrow> nat \<Rightarrow> string option \<Rightarrow> string \<Rightarrow> music_type \<Rightarrow> appstate \<Rightarrow> appstate option" where
  "create_station w event nm token t app = do {
    (ok, app, _) \<leftarrow> piano_transaction w (Some event) (CreateStation token t) app;
    (if ok then do {
       app \<leftarrow> rename_new_station w event nm app;
       announce_action event A_CREATED_STATION nm (on_service (send_response Everyone I_STATIONS_CHANGED) app)
     } else Some app)
  }"

definition create_station_from_song ::
  "world \<Rightarrow> nat \<Rightarrow> string option \<Rightarrow> bool \<Rightarrow> string option \<Rightarrow> appstate \<Rightarrow> appstate option" where
  "create_station_from_song w event nm by_artist songid app = (case get_song_by_id_or_current event songid app of
      (None, app) \<Rightarrow> Some app
    | (Some r, app) \<Rightarrow> do {
        song \<leftarrow> deref_song app r;
        token \<leftarrow> trackToken song;
        create_station w event nm token (if by_artist then PIANO_MUSICTYPE_ARTIST else PIANO_MUSICTYPE_SONG) app
      })"

definition create_station_from_shared :: "world \<Rightarrow> nat \<Rightarrow> string option \<Rightarrow> string \<Rightarrow> appstate \<Rightarrow> appstate option" where
  "create_station_from_shared w event nm station_id app =
    (if \<not> list_all is_digit station_id then Some (answer event E_INVALID app)
     else create_station w event nm station_id PIANO_MUSICTYPE_INVALID app)"

definition create_station_from_suggestion :: "world \<Rightarrow> nat \<Rightarrow> string option \<Rightarrow> string \<Rightarrow> appstate \<Rightarrow> appstate option" where
  "create_station_from_suggestion w event nm suggestionid app = (case suggestionid of
      [] \<Rightarrow> Some (answer event E_INVALID app)
    | t # i \<Rightarrow>
        if t = info_char INFO_SONGSUGGESTION \<or> t = info_char INFO_ARTISTSUGGESTION \<or> t = info_char INFO_GENRESUGGESTION
        then create_station w event nm i PIANO_MUSICTYPE_INVALID app
        else Some (answer event E_INVALID app))"

text \<open>After E_NOTFOUND the code goes on and follows the NULL pointer.\<close>

definition rename_station :: "world \<Rightarrow> nat \<Rightarrow> string \<Rightarrow> string \<Rightarrow> appstate \<Rightarrow> appstate option" where
  "rename_station w event from_name to_name app = do {
    station \<leftarrow> PianoFindStationByName (stations (ph app)) from_name;
    (ok, app) \<leftarrow> pwn_station w event (st_id station) app;
    (if \<not> ok then Some app
     else do {
       (ok, app, _) \<leftarrow> piano_transaction w (Some event) (RenameStation (st_id station) to_name) app;
       (if ok then announce_action event A_RENAMED_STATION (Some from_name) (on_service (send_response Everyone I_STATIONS_CHANGED) app)
        else Some app)
     })
  }"

definition delete_station :: "world \<Rightarrow> nat \<Rightarrow> string \<Rightarrow> appstate \<Rightarrow> appstate option" where
  "delete_station w event station_name app = (case PianoFindStationByName (stations (ph app)) station_name of
      None \<Rightarrow> Some (answer event E_NOTFOUND app)
    | Some s \<Rightarrow> do {
        let app = (if selected_station app = Some (st_id s) then app\<lparr>selected_station := None\<rparr> else app);
        (ok, app, _) \<leftarrow> piano_transaction w (Some event) (DeleteStation (st_id s)) app;
        (if ok then announce_action event A_DELETED_STATION (Some station_name)
           (on_service (send_response Everyone I_STATIONS_CHANGED) app)
         else Some app)
      })"

fun explanation_of :: "piano_request \<Rightarrow> string option" where
  "explanation_of (Explain _ t) = t"
| "explanation_of _ = None"

definition explain_song_choice :: "world \<Rightarrow> nat \<Rightarrow> string option \<Rightarrow> appstate \<Rightarrow> appstate option" where
  "explain_song_choice w event song_id app = (case get_song_by_id_or_current event song_id app of
      (None, app) \<Rightarrow> Some app
    | (Some r, app) \<Rightarrow> do {
        song \<leftarrow> deref_song app r;
        (ok, app, req) \<leftarrow> piano_transaction w None (Explain song None) app;
        (if ok then do {
           t \<leftarrow> explanation_of req;
           Some (answer event S_DATA_END (on_service (data_reply event I_CHOICEEXPLANATION t) (answer event S_DATA app)))
         } else Some (answer event E_NAK app))
      })"

section \<open>Pandora credentials\<close>

text \<open>\<open>argv\<close> is the event's, \<open>manager\<close> the word behind "managed by".\<close>

definition new_credentials :: "user_ref option \<Rightarrow> user_ref option \<Rightarrow> bool \<Rightarrow> string list \<Rightarrow> credentials option" where
  "new_credentials u manageruser remember argv = do {
    username \<leftarrow> arg argv 2;
    password \<leftarrow> arg argv 3;
    let (rule, manager) = (case manageruser of
        Some m \<Rightarrow> (MANAGER_USER, Some m)
      | None \<Rightarrow> (case arg argv 4 of
          Some a \<Rightarrow> if strcasecmp a ''mine'' = 0 then (MANAGER_USER, u) else (MANAGER_NONE, None)
        | None \<Rightarrow> (MANAGER_ADMINISTRATOR, None)));
    (if rule = MANAGER_USER \<and> manager = None then None
     else Some (no_credentials\<lparr>cred_creator := (if remember then u else None), cred_username := Some username,
       cred_password := Some password, cred_rule := rule, cred_manager := manager\<rparr>))
  }"

definition accept_new_credentials :: "world \<Rightarrow> nat \<Rightarrow> string list \<Rightarrow> string option \<Rightarrow> appstate \<Rightarrow> appstate option" where
  "accept_new_credentials w event argv manager app = do {
    k \<leftarrow> find_connection (service app) event;
    first \<leftarrow> arg argv 0;
    let remember_credentials = (strcasecmp first ''remember'' = 0);
    let argv = (if remember_credentials then drop 1 argv else argv);
    (if ((case arg argv 4 of Some a \<Rightarrow> strcasecmp a ''mine'' = 0 | None \<Rightarrow> False) \<or> remember_credentials) \<and> conn_user k = None
     then Some (answer event E_LOGINREQUIRED app)
     else
       let (manageruser, sv) = (case manager of
           None \<Rightarrow> (None, service app)
         | Some m \<Rightarrow> get_user_by_name event m (users app) (service app));
         app = app\<lparr>service := sv\<rparr>
       in if manager \<noteq> None \<and> manageruser = None then Some app
          else do {
            creds \<leftarrow> new_credentials (conn_user k) manageruser remember_credentials argv;
            set_pandora_user w (Some event) (on_settings (pending_update (\<lambda>_. creds)) app)
          })
  }"

end
