(* ===== verification/Execute.thy ===== *)
theory Execute
  imports Commands
begin

text \<open>
  \<open>src/src/command.c\<close>, second part: \<open>execute_command\<close>, from the parser's answer to the reply.  The function is a row of
  switches with checks of rank and privilege in between; each switch is a stage, which handles a command or
  leaves it to the next one.
\<close>

datatype stage = Handled "appstate option" | Next

fun or_else :: "stage \<Rightarrow> appstate option \<Rightarrow> appstate option" where
  "or_else (Handled r) _ = r"
| "or_else Next r = r"

abbreviation (input) handled :: "appstate \<Rightarrow> stage" where
  "handled app \<equiv> Handled (Some app)"

section \<open>Commands for everybody\<close>

definition report_privileges :: "nat \<Rightarrow> appstate \<Rightarrow> appstate" where
  "report_privileges event app =
    on_service (send_privileges event (users app) (event_user event app)) (answer event S_OK app)"

definition authenticate_command :: "world \<Rightarrow> nat \<Rightarrow> string list \<Rightarrow> appstate \<Rightarrow> appstate option" where
  "authenticate_command w event argv app = do {
    username \<leftarrow> arg argv 1;
    password \<leftarrow> arg argv 2;
    u \<leftarrow> authenticate_user (w_crypt w) (users app) username password;
    let app = on_service (update_connection event (\<lambda>k. k\<lparr>conn_user := u\<rparr>)) app;
    (if u = None then Some (answer event E_CREDENTIALS app)
     else do {
       app \<leftarrow> announce_action event A_SIGNED_IN None app;
       app \<leftarrow> (case current_song app of Some song \<Rightarrow> send_rating_of event song app | None \<Rightarrow> Some app);
       app \<leftarrow> recompute_stations w app;
       Some (report_privileges event app)
     })
  }"

definition unprivileged_command :: "world \<Rightarrow> nat \<Rightarrow> command \<Rightarrow> string list \<Rightarrow> appstate \<Rightarrow> stage" where
  "unprivileged_command w event cmd argv app =
    (if cmd = HELP then handled (send_statement_list event (event_user event app) (arg argv 1) (answer event S_OK app))
     else if cmd = QUIT then handled (on_service (fb_close_connection event) (answer event S_SIGNOFF app))
     else if cmd = AUTHENTICATE then Handled (authenticate_command w event argv app)
     else if cmd = GETUSERRANK then handled (report_privileges event app)
     else Next)"

section \<open>Owner commands\<close>

definition owner_station_command :: "world \<Rightarrow> nat \<Rightarrow> command \<Rightarrow> string list \<Rightarrow> appstate \<Rightarrow> stage" where
  "owner_station_command w event cmd argv app =
    (if cmd = STATIONINFO then Handled (do {
       (station, app) \<leftarrow> get_station_by_name_or_current event (arg argv 2) app;
       (case station of Some s \<Rightarrow> send_station_info w event s app | None \<Rightarrow> Some app)
     })
     else if cmd = STATIONRENAME then Handled (do {
       from_name \<leftarrow> arg argv 2;
       to_name \<leftarrow> arg argv 4;
       rename_station w event from_name to_name app
     })
     else if cmd = STATIONDELETE then Handled (do { n \<leftarrow> arg argv 2; delete_station w event n app })
     else if cmd = STATIONCREATEBYSONG then Handled (do {
       kind \<leftarrow> arg argv 3;
       create_station_from_song w event None (strcasecmp kind ''artist'' = 0) (arg argv 4) app
     })
     else if cmd = STATIONCREATEBYSONGWNAME then Handled (do {
       kind \<leftarrow> arg argv 3;
       create_station_from_song w event (arg argv 3) (strcasecmp kind ''artist'' = 0) (arg argv 6) app
     })
     else if cmd = STATIONCREATEBYID then Handled (do { i \<leftarrow> arg argv 4; create_station_from_shared w event None i app })
     else if cmd = STATIONCREATEBYIDWNAME then Handled (do {
       i \<leftarrow> arg argv 6;
       create_station_from_shared w event (arg argv 3) i app
     })
     else if cmd = STATIONCREATE then Handled (do { i \<leftarrow> arg argv 4; create_station_from_suggestion w event None i app })
     else if cmd = STATIONCREATEWNAME then Handled (do {
       i \<leftarrow> arg argv 6;
       create_station_from_suggestion w event (arg argv 3) i app
     })
     else Next)"

definition owner_seed_command :: "world \<Rightarrow> nat \<Rightarrow> command \<Rightarrow> string list \<Rightarrow> appstate \<Rightarrow> stage" where
  "owner_seed_command w event cmd argv app =
    (if cmd = GETSUGGESTIONS then Handled (do { what \<leftarrow> arg argv 1; perform_query w event what (arg argv 2) app })
     else if cmd = RATELOVE \<or> cmd = RATEHATE \<or> cmd = RATENEUTRAL \<or> cmd = RATEOVERPLAYED then
       Handled (rate_song w event cmd (arg argv 2) app)
     else if cmd = SEEDADD then Handled (do { i \<leftarrow> arg argv 4; add_seed w event None i app })
     else if cmd = SEEDADDWSTATION then Handled (do { i \<leftarrow> arg argv 4; add_seed w event (arg argv 6) i app })
     else if cmd = SEEDDELETEBYSONG then Handled (do {
       kind \<leftarrow> arg argv 1;
       remove_song_seed w event (strcasecmp kind ''artist'' = 0) (arg argv 3) app
     })
     else if cmd = SEEDDELETEBYID then Handled (do { i \<leftarrow> arg argv 2; remove_seed w event i app })
     else if cmd = SEEDADDBYSONG then Handled (do {
       kind \<leftarrow> arg argv 1;
       add_song_seed w event None (strcasecmp kind ''artist'' = 0) (arg argv 5) app
     })
     else if cmd = SEEDADDBYSONGWSTATION then Handled (do {
       kind \<leftarrow> arg argv 1;
       add_song_seed w event (arg argv 4) (strcasecmp kind ''artist'' = 0) (arg argv 7) app
     })
     else if cmd = EXPLAINSONGCHOICE then Handled (explain_song_choice w event (arg argv 2) app)
     else if cmd = CREATEBOOKMARK then Handled (case get_song_by_id_or_current event (arg argv 4) app of
         (None, app) \<Rightarrow> Some app
       | (Some r, app) \<Rightarrow> do {
           song \<leftarrow> deref_song app r;
           kind \<leftarrow> arg argv 1;
           (_, app, _) \<leftarrow> piano_transaction w (Some event)
             (if strcasecmp kind ''artist'' = 0 then BookmarkArtist song else BookmarkSong song) app;
           Some app
         })
     else Next)"

definition owner_command :: "world \<Rightarrow> nat \<Rightarrow> command \<Rightarrow> string list \<Rightarrow> appstate \<Rightarrow> appstate option" where
  "owner_command w event cmd argv app =
    (if \<not> have_privilege (users app) (event_user event app) PRIVILEGE_MANAGER then Some (answer event E_UNAUTHORIZED app)
     else or_else (owner_station_command w event cmd argv app)
       (or_else (owner_seed_command w event cmd argv app) (Some (answer event E_NOT_IMPLEMENTED app))))"

section \<open>Listener commands\<close>

text \<open>\<open>%s\<close> of the error term, of which the root of the parser has none.\<close>

definition bad_command :: "nat \<Rightarrow> string \<Rightarrow> string option \<Rightarrow> appstate \<Rightarrow> stage" where
  "bad_command event what errorpoint app = handled (on_service
    (emit (To event) E_BAD_COMMAND (what @ (case errorpoint of Some t \<Rightarrow> t | None \<Rightarrow> ''(null)''))) app)"

definition parse_error_command :: "nat \<Rightarrow> command \<Rightarrow> string option \<Rightarrow> appstate \<Rightarrow> stage" where
  "parse_error_command event cmd errorpoint app =
    (if cmd = FB_PARSE_FAILURE then handled (answer event E_FAILURE app)
     else if cmd = FB_PARSE_INCOMPLETE then bad_command event ''Command incomplete after '' errorpoint app
     else if cmd = FB_PARSE_INVALID_KEYWORD then bad_command event ''Bad command '' errorpoint app
     else if cmd = FB_PARSE_NUMERIC then bad_command event ''Numeric value expected: '' errorpoint app
     else if cmd = FB_PARSE_RANGE then bad_command event ''Numeric value out of range: '' errorpoint app
     else if cmd = FB_PARSE_EXTRA_TERMS then bad_command event ''Run-on command at '' errorpoint app
     else if cmd = NOP then handled app
     else Next)"

text \<open>What the commands that show one number do.\<close>

definition report_number :: "nat \<Rightarrow> int \<Rightarrow> int \<Rightarrow> appstate \<Rightarrow> stage" where
  "report_number event code value app = handled (answer event S_DATA_END (on_service
    (emit (To event) code (Response code @ '': '' @ show_int value)) (answer event S_DATA app)))"

definition status_command :: "nat \<Rightarrow> command \<Rightarrow> string list \<Rightarrow> appstate \<Rightarrow> stage" where
  "status_command event cmd argv app =
    (if cmd = YELL then Handled (map_option (answer event S_OK) (announce_action event I_YELL (arg argv 1) app))
     else if cmd = GETVOLUME then report_number event I_VOLUME (volume (settings app)) app
     else if cmd = AUTOTUNEGETMODE then handled (on_service (report_setting event I_AUTOTUNE_MODE
       (Some (if automatic_mode (settings app) = TUNE_ON_LOGINS then ''login''
         else if automatic_mode (settings app) = TUNE_ON_ATTRIBUTE then ''flag'' else ''all''))) app)
     else if cmd = GETHISTORYSIZE then report_number event I_HISTORYSIZE (int (history_length (settings app))) app
     else if cmd = GETAUDIOQUALITY then handled (on_service (report_setting event I_AUDIOQUALITY
       (PianoGetAudioQualityName (audioQuality (settings app)))) app)
     else if cmd = TIMESTATUS then handled (send_playback_status (To event) app)
     else if cmd = QUERYSTATUS then Handled (do {
       app \<leftarrow> (case current_song app of
           Some song \<Rightarrow> do {
             app \<leftarrow> send_song_info (To event) song (answer event S_DATA app);
             send_rating_of event song app
           }
         | None \<Rightarrow> Some app);
       send_selectedstation (To event) (send_playback_status (To event) (answer event S_DATA_END app))
     })
     else if cmd = QUERYHISTORY \<or> cmd = QUERYQUEUE then Handled (send_song_lists event cmd argv app)
     else if cmd = QUICKMIXINCLUDED \<or> cmd = QUICKMIXEXCLUDED \<or> cmd = STATIONLIST then
       Handled (map_option (\<lambda>sv. app\<lparr>service := sv\<rparr>) (send_station_list event cmd (stations (ph app)) (service app)))
     else Next)"

definition account_command :: "world \<Rightarrow> nat \<Rightarrow> command \<Rightarrow> string list \<Rightarrow> appstate \<Rightarrow> stage" where
  "account_command w event cmd argv app =
    (if cmd = STATIONRATINGS then Handled
       (if event_user_ref event app \<noteq> None then send_station_ratings event (arg argv 2) app
        else Some (answer event E_LOGINREQUIRED app))
     else if cmd = STATIONRATE then Handled (case event_user_ref event app of
         Some u \<Rightarrow> do { r \<leftarrow> arg argv 2; rate_station w event r (arg argv 3) u app }
       | None \<Rightarrow> Some (answer event E_LOGINREQUIRED app))
     else if cmd = SETMYPASSWORD then Handled (case event_user_ref event app of
         Some u \<Rightarrow> do {
           old \<leftarrow> arg argv 2;
           new \<leftarrow> arg argv 3;
           (ok, us) \<leftarrow> change_password (w_crypt w) (w_random w (questions app)) u old new (users app);
           Some (answer event (if ok then S_OK else E_CREDENTIALS) (app\<lparr>users := us, questions := questions app + 1\<rparr>))
         }
       | None \<Rightarrow> Some (answer event E_LOGINREQUIRED app))
     else if cmd = WAITFORENDOFSONG then Handled
       (if current_song app \<noteq> None
        then map_option (\<lambda>sv. app\<lparr>service := sv\<rparr>) (wait_for_event event EVENT_TRACK_ENDED (service app))
        else Some (answer event E_WRONG_STATE app))
     else if cmd = WAITFORNEXTSONG then
       Handled (map_option (\<lambda>sv. app\<lparr>service := sv\<rparr>) (wait_for_event event EVENT_TRACK_STARTED (service app)))
     else Next)"

section \<open>Commands with a privilege of their own\<close>

definition list_users :: "nat \<Rightarrow> nat \<Rightarrow> bool \<Rightarrow> appstate \<Rightarrow> appstate option" where
  "list_users event which details app =
    map_option (\<lambda>sv. app\<lparr>service := sv\<rparr>) (send_select_users event which details (users app) (service app))"

definition pandora_existing :: "world \<Rightarrow> nat \<Rightarrow> string list \<Rightarrow> appstate \<Rightarrow> appstate option" where
  "pandora_existing w event argv app = do {
    n \<leftarrow> arg argv 2;
    (case get_user_by_name event n (users app) (service app) of
        (None, sv) \<Rightarrow> Some (app\<lparr>service := sv\<rparr>)
      | (Some r, _) \<Rightarrow> do {
          u \<leftarrow> deref_user (users app) r;
          (ok, creds) \<leftarrow> restore_pandora_credentials u (pending (settings app));
          (if ok then do {
             app \<leftarrow> set_pandora_user w (Some event) (on_settings (pending_update (\<lambda>_. creds)) app);
             let own = (event_user_ref event app = Some r);
             uname \<leftarrow> get_user_name (users app) r;
             announce_action event (if own then A_PANDORA_SET else A_PANDORA_BORROW) (if own then None else Some uname) app
           } else Some (answer event E_WRONG_STATE app))
        })
  }"

definition autotune_users :: "world \<Rightarrow> nat \<Rightarrow> command \<Rightarrow> string list \<Rightarrow> appstate \<Rightarrow> appstate option" where
  "autotune_users w event cmd argv app = (
    let (valid, sv) = valid_user_list event (users app) (drop 2 argv) (service app);
      app = app\<lparr>service := sv\<rparr>
    in if valid then do {
         let us = (if cmd = AUTOTUNEUSERS then clear_privilege ATTRIBUTE_PRESENT (users app) else users app);
         verb \<leftarrow> arg argv 1;
         us \<leftarrow> set_privileges (drop 2 argv) ATTRIBUTE_PRESENT (strcasecmp verb ''disregard'' \<noteq> 0) us;
         recompute_stations w (answer event S_OK (app\<lparr>users := us\<rparr>))
       } else Some app)"

definition privileged_command :: "world \<Rightarrow> nat \<Rightarrow> command \<Rightarrow> string list \<Rightarrow> appstate \<Rightarrow> stage" where
  "privileged_command w event cmd argv app = (
    let u = event_user event app;
      admin = have_rank (users app) u RANK_ADMINISTRATOR;
      allowed = have_privilege (users app) u;
      refuse = Some (answer event E_UNAUTHORIZED app)
    in if cmd = USERSONLINE then Handled
         (if admin \<or> broadcast_user_actions (settings app) then list_users event SEND_USERS_ONLINE admin app else refuse)
       else if cmd = USERLISTPANDORA then Handled
         (if allowed PRIVILEGE_SERVICE then list_users event SEND_USERS_REMEMBERING_CREDENTIALS admin app else refuse)
       else if cmd = PANDORAUSER \<or> cmd = PANDORAUSERSPECIFY then Handled
         (if allowed PRIVILEGE_SERVICE then do {
            app \<leftarrow> announce_action event A_PANDORA_SET None app;
            accept_new_credentials w event argv (if cmd = PANDORAUSERSPECIFY then arg argv 6 else None) app
          } else refuse)
       else if cmd = PANDORAEXISTING then Handled
         (if \<not> allowed PRIVILEGE_SERVICE then refuse else pandora_existing w event argv app)
       else if cmd = WAITFORAUTHENTICATION then Handled
         (if allowed PRIVILEGE_SERVICE then
            (if cred_username (pending (settings app)) \<noteq> None
             then map_option (\<lambda>sv. app\<lparr>service := sv\<rparr>) (wait_for_event event EVENT_AUTHENTICATED (service app))
             else Some (answer event E_WRONG_STATE app))
          else refuse)
       else if cmd = AUTOTUNEUSERSLIST then Handled
         (if allowed PRIVILEGE_TUNER \<or> broadcast_user_actions (settings app)
          then list_users event (automatic_mode (settings app)) admin app else refuse)
       else if cmd = AUTOTUNEUSERS \<or> cmd = AUTOTUNEADDREMOVE then Handled
         (if allowed PRIVILEGE_TUNER then autotune_users w event cmd argv app else refuse)
       else Next)"

section \<open>User commands\<close>

text \<open>Either a new volume or the reply that refuses it.\<close>

definition new_volume :: "string \<Rightarrow> int \<Rightarrow> string option + int" where
  "new_volume word old =
    (if strcasecmp word ''up'' = 0 then (if old \<ge> 100 then Inl (Some ''Already at maximum volume'') else Inr (old + 1))
     else if strcasecmp word ''down'' = 0 then (if old \<le> - 100 then Inl (Some ''Already at minimum volume'') else Inr (old - 1))
     else (let (l, errorpoint) = strtol 10 word
       in if errorpoint \<noteq> [] \<or> l < - 100 \<or> l > 100 then Inl None else Inr l))"

definition set_volume :: "world \<Rightarrow> nat \<Rightarrow> string \<Rightarrow> appstate \<Rightarrow> appstate" where
  "set_volume w event word app = (case new_volume word (volume (settings app)) of
      Inl (Some text) \<Rightarrow> on_service (data_reply event E_INVALID text) app
    | Inl None \<Rightarrow> answer event E_INVALID app
    | Inr v \<Rightarrow>
        let app = answer event S_OK (on_settings (volume_update (\<lambda>_. v)) app);
          app = app\<lparr>player := (player app)\<lparr>player_scale := BarPlayerCalcScale w (player_gain (player app) + of_int v)\<rparr>\<rparr>
        in announce I_VOLUME (show_int v) app)"

definition skip_song :: "nat \<Rightarrow> appstate \<Rightarrow> appstate option" where
  "skip_song event app =
    (if mode (player app) > PLAYER_INITIALIZED then do {
       (available, app) \<leftarrow> (if doQuit (player app) then Some (True, app)
         else do {
           song \<leftarrow> current_song app;
           sid \<leftarrow> stationId song;
           Some (skips_are_available event sid app)
         });
       (if available then do {
          let app = cancel_playback app;
          song \<leftarrow> current_song app;
          app \<leftarrow> announce_action event A_SKIPPED (Some (title song)) app;
          Some (answer event S_OK app)
        } else Some (answer event E_QUOTA app))
     } else Some (answer event E_WRONG_STATE app))"

definition select_station :: "world \<Rightarrow> nat \<Rightarrow> command \<Rightarrow> string list \<Rightarrow> appstate \<Rightarrow> appstate option" where
  "select_station w event cmd argv app = do {
    let mix = (cmd = PLAYQUICKMIX \<or> cmd = SELECTQUICKMIX);
    station \<leftarrow> (if mix then Some (PianoFindQuickMixStation (stations (ph app)))
      else map_option (PianoFindStationByName (stations (ph app))) (arg argv 2));
    (case station of
        None \<Rightarrow> Some (answer event E_NOTFOUND app)
      | Some s \<Rightarrow> do {
          kind \<leftarrow> arg argv 1;
          let app = app\<lparr>selected_station := Some (st_id s), automatic_stations := (mix \<and> strcasecmp kind ''auto'' = 0)\<rparr>;
          app \<leftarrow> announce_action event A_SELECTED_STATION (Some (st_name s)) app;
          app \<leftarrow> send_selectedstation Everyone app;
          app \<leftarrow> recompute_stations w app;
          (if cmd = SELECTSTATION \<or> cmd = SELECTQUICKMIX then Some (answer event S_OK app)
           else control_playback event PLAY app)
        })
  }"

definition stop_playback :: "nat \<Rightarrow> string list \<Rightarrow> appstate \<Rightarrow> appstate option" where
  "stop_playback event argv app = do {
    let app = app\<lparr>selected_station := None\<rparr>;
    let app = (if length argv = 2 then cancel_playback app else app);
    app \<leftarrow> announce_action event A_STOPPED None app;
    app \<leftarrow> send_selectedstation Everyone app;
    Some (answer event S_OK app)
  }"

definition user_command :: "world \<Rightarrow> nat \<Rightarrow> command \<Rightarrow> string list \<Rightarrow> appstate \<Rightarrow> stage" where
  "user_command w event cmd argv app =
    (if cmd = SETVOLUME then Handled (do { word \<leftarrow> arg argv 1; Some (set_volume w event word app) })
     else if cmd = NEXTSONG then Handled (skip_song event app)
     else if cmd = PLAYSTATION \<or> cmd = PLAYQUICKMIX \<or> cmd = SELECTSTATION \<or> cmd = SELECTQUICKMIX then
       Handled (select_station w event cmd argv app)
     else if cmd = STOPPLAYBACK then Handled (stop_playback event argv app)
     else if cmd = PLAY \<or> cmd = PAUSEPLAYBACK \<or> cmd = PLAYPAUSE then Handled (do {
       let old = playback_state app;
       app \<leftarrow> control_playback event cmd app;
       (if old \<noteq> playback_state app
        then announce_action event (if playback_state app = PLAYING then A_RESUMED else A_PAUSED) None app
        else Some app)
     })
     else if cmd = QUICKMIXSET \<or> cmd = QUICKMIXADD \<or> cmd = QUICKMIXDROP \<or> cmd = QUICKMIXTOGGLE then
       Handled (case validate_station_list event (drop 2 argv) app of
           (True, app) \<Rightarrow> do {
             (code, app) \<leftarrow> manipulate_quickmix w event cmd (drop 2 argv) app;
             Some (answer event code app)
           }
         | (False, app) \<Rightarrow> Some (answer event E_NOTFOUND app))
     else Next)"

end
