(* ===== verification/Admin.thy ===== *)
theory Admin
  imports Execute
begin

text \<open>
  \<open>src/src/command.c\<close>, third part: the commands of administrators, and \<open>execute_command\<close> as a whole.  strdup and
  malloc are assumed to find memory.
\<close>

section \<open>Preferences\<close>

definition preference_command :: "world \<Rightarrow> nat \<Rightarrow> command \<Rightarrow> string list \<Rightarrow> appstate \<Rightarrow> stage" where
  "preference_command w event cmd argv app =
    (if cmd = AUTOTUNESETMODE then Handled (do {
       kind \<leftarrow> arg argv 2;
       m \<leftarrow> (if strcasecmp kind ''login'' = 0 then Some TUNE_ON_LOGINS
         else if strcasecmp kind ''flag'' = 0 then Some TUNE_ON_ATTRIBUTE
         else if strcasecmp kind ''all'' = 0 then Some TUNE_ON_ALL
         else None);
       recompute_stations w (answer event S_OK (on_settings (automatic_mode_update (\<lambda>_. m)) app))
     })
     else if cmd = SETHISTORYSIZE then Handled (do {
       a \<leftarrow> arg argv 3;
       Some (answer event S_OK (announce I_HISTORYSIZE (show_int (atoi a))
         (on_settings (history_length_update (\<lambda>_. nat (atoi a))) app)))
     })
     else if cmd = SETAUDIOQUALITY then Handled (do {
       a \<leftarrow> arg argv 3;
       let q = (if strcasecmp a ''low'' = 0 then PIANO_AQ_LOW
         else if strcasecmp a ''medium'' = 0 then PIANO_AQ_MEDIUM else PIANO_AQ_HIGH);
       text \<leftarrow> PianoGetAudioQualityName q;
       Some (answer event S_OK (announce I_AUDIOQUALITY text (on_settings (audioQuality_update (\<lambda>_. q)) app)))
     })
     else Next)"

definition set_shoutcast :: "world \<Rightarrow> nat \<Rightarrow> string list \<Rightarrow> appstate \<Rightarrow> appstate option" where
  "set_shoutcast w event argv app = do {
    a \<leftarrow> arg argv 2;
    Some (if strcasecmp a ''off'' = 0 then
        answer event S_OK (if shoutcast app
          then on_service (send_data Everyone I_SHOUTCAST (Some ''disabled'')) (app\<lparr>shoutcast := False\<rparr>) else app)
      else if strcasecmp a ''on'' = 0 then
        (if shoutcast app then answer event S_OK app
         else if w_shoutcast w (questions app) (shoutcast_server (settings app)) then
           answer event S_OK (on_service (send_data Everyone I_SHOUTCAST (Some ''enabled''))
             (app\<lparr>shoutcast := True, questions := questions app + 1\<rparr>))
         else answer event E_FAILURE (app\<lparr>questions := questions app + 1\<rparr>))
      else if strcasecmp a ''server'' = 0 then
        (case arg argv 3 of
            Some s \<Rightarrow> answer event S_OK (on_service (send_data Everyone I_SHOUTCAST (Some s))
              (on_settings (shoutcast_server_update (\<lambda>_. Some s)) app))
          | None \<Rightarrow> answer event E_FAILURE app)
      else answer event E_INVALID app)
  }"

definition set_capture_path :: "world \<Rightarrow> nat \<Rightarrow> string list \<Rightarrow> appstate \<Rightarrow> appstate option" where
  "set_capture_path w event argv app = do {
    a \<leftarrow> arg argv 2;
    Some (if strcasecmp a ''off'' = 0 then
        answer event S_OK (on_settings (\<lambda>s. s\<lparr>capture_path := None, capture_pathlen := 0\<rparr>) app)
      else (case arg argv 3 of
          Some path \<Rightarrow>
            if w_isdir w path then
              answer event S_OK (on_service (send_data Everyone I_CAPTUREPATH (Some path))
                (on_settings (\<lambda>s. s\<lparr>capture_path := Some path, capture_pathlen := length path\<rparr>) app))
            else answer event E_NOTFOUND app
        | None \<Rightarrow> on_service (data_reply event E_NAK (w_strerror w (questions app))) app))
  }"

definition stream_command :: "world \<Rightarrow> nat \<Rightarrow> command \<Rightarrow> string list \<Rightarrow> appstate \<Rightarrow> stage" where
  "stream_command w event cmd argv app =
    (if cmd = SETSHOUTCAST then Handled (set_shoutcast w event argv app)
     else if cmd = GETCAPTUREPATH then handled (on_service (report_setting event I_CAPTUREPATH
       (if capture_pathlen (settings app) \<noteq> 0 then capture_path (settings app) else Some ''capture off'')) app)
     else if cmd = SETCAPTUREPATH then Handled (set_capture_path w event argv app)
     else Next)"

section \<open>Proxies and timeouts\<close>

definition on_proxy :: "string \<Rightarrow> appstate \<Rightarrow> bool \<times> appstate" where
  "on_proxy url app = (let (ok, p) = WaitressSplitUrl url (waith_proxy app) in (ok, app\<lparr>waith_proxy := p\<rparr>))"

definition set_number :: "nat \<Rightarrow> int \<Rightarrow> (int \<Rightarrow> settings \<Rightarrow> settings) \<Rightarrow> string list \<Rightarrow> appstate \<Rightarrow> appstate option" where
  "set_number event code field argv app = do {
    a \<leftarrow> arg argv 3;
    Some (answer event S_OK (announce code (show_int (atoi a)) (on_settings (field (atoi a)) app)))
  }"

definition set_control_proxy :: "nat \<Rightarrow> string list \<Rightarrow> appstate \<Rightarrow> appstate option" where
  "set_control_proxy event argv app = do {
    url \<leftarrow> arg argv 3;
    let (ok, app) = on_proxy url app;
    Some (if ok then answer event S_OK (on_service (send_data Everyone I_CONTROLPROXY (Some url))
        (on_settings (control_proxy_update (\<lambda>_. Some url)) app))
      else answer event E_INVALID app)
  }"

definition set_proxy :: "nat \<Rightarrow> string list \<Rightarrow> appstate \<Rightarrow> appstate option" where
  "set_proxy event argv app = do {
    url \<leftarrow> arg argv 2;
    Some (if \<not> begins_nocase url ''http://'' then answer event E_INVALID app
      else
        let app = on_settings (proxy_update (\<lambda>_. Some url)) app;
          app = (if control_proxy (settings app) = None then snd (on_proxy url app) else app)
        in answer event S_OK (announce I_PROXY url app))
  }"

definition timeout_command :: "nat \<Rightarrow> command \<Rightarrow> string list \<Rightarrow> appstate \<Rightarrow> stage" where
  "timeout_command event cmd argv app =
    (if cmd = GETCONTROLPROXY then handled (on_service (report_setting event I_CONTROLPROXY (control_proxy (settings app))) app)
     else if cmd = SETCONTROLPROXY then Handled (set_control_proxy event argv app)
     else if cmd = GETPAUSETIMEOUT then report_number event I_PAUSE_TIMEOUT (pause_timeout (settings app)) app
     else if cmd = SETPAUSETIMEOUT then Handled (set_number event I_PAUSE_TIMEOUT (\<lambda>i. pause_timeout_update (\<lambda>_. i)) argv app)
     else if cmd = GETPLAYLISTTIMEOUT then report_number event I_PLAYLIST_TIMEOUT (playlist_expiration (settings app)) app
     else if cmd = SETPLAYLISTTIMEOUT then
       Handled (set_number event I_PLAYLIST_TIMEOUT (\<lambda>i. playlist_expiration_update (\<lambda>_. i)) argv app)
     else if cmd = GETPANDORARETRY then report_number event I_PANDORA_RETRY (pandora_retry (settings app)) app
     else if cmd = SETPANDORARETRY then Handled (set_number event I_PANDORA_RETRY (\<lambda>i. pandora_retry_update (\<lambda>_. i)) argv app)
     else if cmd = GETPROXY then handled (on_service (report_setting event I_PROXY (proxy (settings app))) app)
     else if cmd = SETPROXY then Handled (set_proxy event argv app)
     else Next)"

section \<open>libpiano and libao\<close>

abbreviation (input) report :: "nat \<Rightarrow> int \<Rightarrow> (settings \<Rightarrow> string option) \<Rightarrow> appstate \<Rightarrow> stage" where
  "report event code field app \<equiv> handled (on_service (report_setting event code (field (settings app))) app)"

abbreviation (input) change :: "nat \<Rightarrow> string option \<Rightarrow> ((string option \<Rightarrow> string option) \<Rightarrow> settings \<Rightarrow> settings) \<Rightarrow> appstate \<Rightarrow> stage" where
  "change event value field app \<equiv> handled (change_setting event value (\<lambda>v. field (\<lambda>_. v)) app)"

definition report_partner :: "nat \<Rightarrow> appstate \<Rightarrow> appstate option" where
  "report_partner event app = do {
    u \<leftarrow> partnerUser (settings app);
    p \<leftarrow> partnerPassword (settings app);
    Some (answer event S_DATA_END (on_service (data_reply event I_PARTNERPASSWORD p)
      (on_service (data_reply event I_PARTNERUSER u) (answer event S_DATA app))))
  }"

definition libpiano_command :: "nat \<Rightarrow> command \<Rightarrow> string list \<Rightarrow> appstate \<Rightarrow> stage" where
  "libpiano_command event cmd argv app =
    (if cmd = GETRPCHOST then report event I_RPCHOST rpcHost app
     else if cmd = SETRPCHOST then change event (arg argv 3) rpcHost_update app
     else if cmd = GETRPCTLSPORT then report event I_RPCTLSPORT rpcTlsPort app
     else if cmd = SETRPCTLSPORT then change event (arg argv 4) rpcTlsPort_update app
     else if cmd = GETPANDORADEVICE then report event I_PANDORADEVICE device app
     else if cmd = SETPANDORADEVICE then change event (arg argv 3) device_update app
     else if cmd = GETENCRYPTPASSWORD then report event I_ENCRYPTION_PASSWORD outkey app
     else if cmd = SETENCRYPTPASSWORD then change event (arg argv 3) outkey_update app
     else if cmd = GETDECRYPTPASSWORD then report event I_DECRYPTION_PASSWORD inkey app
     else if cmd = SETDECRYPTPASSWORD then change event (arg argv 3) inkey_update app
     else if cmd = GETPARTNER then Handled (report_partner event app)
     else if cmd = SETPARTNER then Handled (do {
       u \<leftarrow> arg argv 2;
       Some (on_settings (partnerUser_update (\<lambda>_. Some u))
         (change_setting event (arg argv 3) (\<lambda>v. partnerPassword_update (\<lambda>_. v)) app))
     })
     else if cmd = GETTLSFINGERPRINT then handled (on_service (report_fingerprint event (tlsFingerprint (settings app))) app)
     else if cmd = SETTLSFINGERPRINT then Handled (map_option (\<lambda>a. snd (change_fingerprint event a app)) (arg argv 3))
     else Next)"

text \<open>
  generate_test_tone of \<open>support.c\<close>, for what it answers: the outcome of opening the device comes from the world, with
  whether a default driver was found, and the reason.  The tone itself is not modelled.
\<close>

definition or_text :: "string option \<Rightarrow> string \<Rightarrow> string" where
  "or_text value otherwise = (case value of Some v \<Rightarrow> v | None \<Rightarrow> otherwise)"

definition generate_test_tone :: "world \<Rightarrow> nat \<Rightarrow> appstate \<Rightarrow> appstate" where
  "generate_test_tone w event app = (
    let s = settings app;
      outcome = w_test_tone w (questions app);
      no_driver = (case output_driver s of Some d \<Rightarrow> \<not> w_ao_driver w d
        | None \<Rightarrow> (case outcome of Some (found, _) \<Rightarrow> \<not> found | None \<Rightarrow> False));
      app = app\<lparr>questions := questions app + 1\<rparr>
    in if no_driver then
         on_service (emit (To event) E_NAK (''audio driver '' @ [CHR 0x27] @ or_text (output_driver s) ''(default)'' @ [CHR 0x27] @ '' not found'')) app
       else (case outcome of
           Some (_, reason) \<Rightarrow> on_service (emit (To event) E_NAK (''Cannot open audio device ''
             @ or_text (output_device s) ''default'' @ ''/'' @ or_text (output_id s) ''default'' @ ''/''
             @ or_text (output_server s) ''default'' @ '': '' @ reason)) app
         | None \<Rightarrow> answer event S_OK app))"

definition libao_command :: "world \<Rightarrow> nat \<Rightarrow> command \<Rightarrow> string list \<Rightarrow> appstate \<Rightarrow> stage" where
  "libao_command w event cmd argv app =
    (if cmd = GETOUTPUTDRIVER then report event I_OUTPUT_DRIVER output_driver app
     else if cmd = SETOUTPUTDRIVER then
       (if (case arg argv 4 of Some d \<Rightarrow> \<not> w_ao_driver w d | None \<Rightarrow> False) then handled (answer event E_NOTFOUND app)
        else change event (arg argv 4) output_driver_update app)
     else if cmd = GETOUTPUTDEVICE then report event I_OUTPUT_DEVICE output_device app
     else if cmd = SETOUTPUTDEVICE then change event (arg argv 4) output_device_update app
     else if cmd = GETOUTPUTID then report event I_OUTPUT_ID output_id app
     else if cmd = SETOUTPUTID then change event (arg argv 4) output_id_update app
     else if cmd = GETOUTPUTSERVER then report event I_OUTPUT_SERVER output_server app
     else if cmd = SETOUTPUTSERVER then change event (arg argv 4) output_server_update app
     else if cmd = TESTAUDIOOUTPUT then
       (if current_song app \<noteq> None then handled (answer event E_WRONG_STATE app)
        else handled (generate_test_tone w event app))
     else Next)"

section \<open>The server\<close>

text \<open>Logging flags have no reply.\<close>

definition server_command :: "nat \<Rightarrow> command \<Rightarrow> string list \<Rightarrow> appstate \<Rightarrow> stage" where
  "server_command event cmd argv app =
    (if cmd = SETLOGGINGFLAGS then
       (if length argv = 4 then Handled (do {
          a \<leftarrow> arg argv 3;
          Some (app\<lparr>log_flags := (nat (fst (strtol 0 a)), snd (log_flags app))\<rparr>)
        })
        else Handled (do {
          a \<leftarrow> arg argv 4;
          Some (app\<lparr>log_flags := (fst (log_flags app), nat (fst (strtol 0 a)))\<rparr>)
        }))
     else if cmd = SHOWUSERACTIONS then Handled (do {
       a \<leftarrow> arg argv 3;
       Some (answer event S_OK (on_settings (broadcast_user_actions_update (\<lambda>_. strcasecmp a ''on'' = 0)) app))
     })
     else if cmd = SHUTDOWN then handled (answer event S_OK (app\<lparr>quit_requested := True\<rparr>))
     else if cmd = GETVISITORRANK then handled (answer event S_OK (on_service (send_privileges event (users app) None) app))
     else if cmd = SETVISITORRANK then Handled (do {
       a \<leftarrow> arg argv 3;
       r \<leftarrow> get_rank_by_name a;
       Some (answer event S_OK (announce_all_privileges (on_users (set_visitor_rank r) app)))
     })
     else if cmd = GETPANDORAUSER then Handled
       (case cred_username (pandora (settings app)) of
           None \<Rightarrow> Some (on_service (data_reply event S_DATA_END ''Pandora credentials not set.'') app)
         | Some u \<Rightarrow>
             if have_privilege (users app) (event_user event app) PRIVILEGE_MANAGER then do {
               p \<leftarrow> cred_password (pandora (settings app));
               Some (answer event S_DATA_END (on_service (data_reply event I_PANDORA_PASSWORD p)
                 (on_service (data_reply event I_PANDORA_USER u) (answer event S_DATA app))))
             } else Some (answer event E_UNAUTHORIZED app))
     else Next)"

section \<open>User accounts\<close>

text \<open>get_user_by_name, which answers when there is no such user.\<close>

definition with_user :: "nat \<Rightarrow> string option \<Rightarrow> (user_ref \<Rightarrow> appstate \<Rightarrow> appstate option) \<Rightarrow> appstate \<Rightarrow> appstate option" where
  "with_user event n f app = do {
    n \<leftarrow> n;
    (case get_user_by_name event n (users app) (service app) of
        (None, sv) \<Rightarrow> Some (app\<lparr>service := sv\<rparr>)
      | (Some r, sv) \<Rightarrow> f r (app\<lparr>service := sv\<rparr>))
  }"

definition create_user_command :: "world \<Rightarrow> nat \<Rightarrow> string list \<Rightarrow> appstate \<Rightarrow> appstate option" where
  "create_user_command w event argv app = do {
    n \<leftarrow> arg argv 2;
    password \<leftarrow> arg argv 3;
    let (new, us) = create_new_user (w_crypt w) (w_random w (questions app)) n password (users app);
    let app = app\<lparr>users := us, questions := questions app + 1\<rparr>;
    (case new of
        Some r \<Rightarrow> do {
          a \<leftarrow> arg argv 1;
          k \<leftarrow> get_rank_by_name a;
          us \<leftarrow> set_rank r k us;
          Some (answer event S_OK (app\<lparr>users := us\<rparr>))
        }
      | None \<Rightarrow> Some (answer event E_DUPLICATE app))
  }"

definition grant_command :: "world \<Rightarrow> nat \<Rightarrow> command \<Rightarrow> string list \<Rightarrow> appstate \<Rightarrow> appstate option" where
  "grant_command w event cmd argv app = (
    let (valid, sv) = valid_user_list event (users app) (drop 3 argv) (service app);
      app = app\<lparr>service := sv\<rparr>
    in if valid then do {
         a \<leftarrow> arg argv 1;
         p \<leftarrow> get_privilege_id_by_name a;
         us \<leftarrow> set_privileges (drop 3 argv) p (cmd = USERGRANT) (users app);
         app \<leftarrow> (if p = PRIVILEGE_INFLUENCE then recompute_stations w (app\<lparr>users := us\<rparr>) else Some (app\<lparr>users := us\<rparr>));
         Some (answer event S_OK (announce_all_privileges app))
       } else Some app)"

text \<open>A user that is deleted no longer creates or manages an account.\<close>

definition detach_user :: "user_ref \<Rightarrow> credentials \<Rightarrow> credentials" where
  "detach_user r c = c\<lparr>cred_creator := (if cred_creator c = Some r then None else cred_creator c),
     cred_manager := (if cred_manager c = Some r then None else cred_manager c)\<rparr>"

definition delete_user_command :: "nat \<Rightarrow> user_ref \<Rightarrow> appstate \<Rightarrow> appstate option" where
  "delete_user_command event r app =
    (if is_user_online (service app) r then Some (on_service (data_reply event E_WRONG_STATE ''User is logged in.'') app)
     else do {
       let app = on_settings (\<lambda>s. s\<lparr>pending := detach_user r (pending s), pandora := detach_user r (pandora s)\<rparr>) app;
       us \<leftarrow> delete_user r (users app);
       Some (answer event S_OK (app\<lparr>users := us\<rparr>))
     })"

definition kick_user_command :: "nat \<Rightarrow> string list \<Rightarrow> user_ref \<Rightarrow> appstate \<Rightarrow> appstate option" where
  "kick_user_command event argv r app =
    (if is_user_online (service app) r then
       announce_action event A_KICKED (arg argv 2) (answer event S_OK (on_service (user_logoff (Some r) (arg argv 3)) app))
     else Some (on_service (data_reply event E_WRONG_STATE ''User is not logged in.'') app))"

definition users_command :: "world \<Rightarrow> nat \<Rightarrow> command \<Rightarrow> string list \<Rightarrow> appstate \<Rightarrow> stage" where
  "users_command w event cmd argv app =
    (if cmd = USERCREATE then Handled (create_user_command w event argv app)
     else if cmd = USERSETPASSWORD then Handled (with_user event (arg argv 3) (\<lambda>r app. do {
       password \<leftarrow> arg argv 4;
       let us = set_user_password (w_crypt w) (w_random w (questions app)) r password (users app);
       Some (answer event S_OK (app\<lparr>users := us, questions := questions app + 1\<rparr>))
     }) app)
     else if cmd = USERSETRANK then Handled (with_user event (arg argv 3) (\<lambda>r app. do {
       a \<leftarrow> arg argv 4;
       k \<leftarrow> get_rank_by_name a;
       us \<leftarrow> set_rank r k (users app);
       Some (answer event S_OK (on_service (announce_privileges (Some r) us) (app\<lparr>users := us\<rparr>)))
     }) app)
     else if cmd = USERGRANT \<or> cmd = USERREVOKE then Handled (grant_command w event cmd argv app)
     else if cmd = USERLISTBYPRIVILEGE then Handled (do {
       a \<leftarrow> arg argv 2;
       p \<leftarrow> get_privilege_id_by_name a;
       list_users event (privilege_code p) True app
     })
     else if cmd = USERKICKVISITORS then handled (answer event S_OK (on_service (user_logoff None (arg argv 2)) app))
     else if cmd = USERKICK then Handled (with_user event (arg argv 2) (kick_user_command event argv) app)
     else if cmd = USERDELETE then Handled (with_user event (arg argv 2) (delete_user_command event) app)
     else if cmd = USERLIST then handled (on_service (send_user_list event (arg argv 2) (users app)) app)
     else Next)"

section \<open>execute_command\<close>

definition admin_command :: "world \<Rightarrow> nat \<Rightarrow> command \<Rightarrow> string list \<Rightarrow> appstate \<Rightarrow> appstate option" where
  "admin_command w event cmd argv app =
    or_else (preference_command w event cmd argv app)
     (or_else (stream_command w event cmd argv app)
      (or_else (timeout_command event cmd argv app)
       (or_else (libpiano_command event cmd argv app)
        (or_else (libao_command w event cmd argv app)
         (or_else (server_command event cmd argv app)
          (or_else (users_command w event cmd argv app)
           (Some (answer event E_NOT_IMPLEMENTED app))))))))"

definition listener_command :: "world \<Rightarrow> nat \<Rightarrow> command \<Rightarrow> string option \<Rightarrow> string list \<Rightarrow> appstate \<Rightarrow> appstate option \<Rightarrow> appstate option" where
  "listener_command w event cmd errorpoint argv app others =
    or_else (parse_error_command event cmd errorpoint app)
     (or_else (status_command event cmd argv app)
      (or_else (account_command w event cmd argv app)
       (or_else (privileged_command w event cmd argv app) others)))"

text \<open>Everything but AUTHANDEXEC, which runs another command.\<close>

definition run_command :: "world \<Rightarrow> nat \<Rightarrow> command \<Rightarrow> string option \<Rightarrow> string list \<Rightarrow> appstate \<Rightarrow> appstate option" where
  "run_command w event cmd errorpoint argv app = (
    let has = have_rank (users app) (event_user event app);
      refuse = Some (answer event E_UNAUTHORIZED app)
    in or_else (unprivileged_command w event cmd argv app)
        (if \<not> has RANK_LISTENER then refuse
         else if OWNER_RANGE_START < cmd \<and> cmd < OWNER_RANGE_END then owner_command w event cmd argv app
         else listener_command w event cmd errorpoint argv app
          (if \<not> has RANK_STANDARD then refuse
           else or_else (user_command w event cmd argv app)
            (if \<not> has RANK_ADMINISTRATOR then refuse
             else admin_command w event cmd argv app))))"

text \<open>
  authorize_and_execute, up to the command it runs: the connection starts to close and its user becomes the one whose
  name and password are given, if they are right.
\<close>

definition authorize :: "world \<Rightarrow> nat \<Rightarrow> string list \<Rightarrow> appstate \<Rightarrow> (bool \<times> appstate) option" where
  "authorize w event argv app = do {
    let app = on_service (fb_close_connection event) app;
    username \<leftarrow> arg argv 2;
    password \<leftarrow> arg argv 3;
    u \<leftarrow> authenticate_user (w_crypt w) (users app) username password;
    Some (u \<noteq> None, on_service (update_connection event (\<lambda>k. k\<lparr>conn_user := u\<rparr>)) app)
  }"

definition forget_user :: "nat \<Rightarrow> appstate \<Rightarrow> appstate" where
  "forget_user event app = on_service (update_connection event (\<lambda>k. k\<lparr>conn_user := None\<rparr>)) app"

function execute_command :: "world \<Rightarrow> fb_parser \<Rightarrow> nat \<Rightarrow> string list \<Rightarrow> appstate \<Rightarrow> appstate option" where
  "execute_command w parser event argv app = (case fb_interpret parser argv of
      None \<Rightarrow> None
    | Some (cmd, errorpoint) \<Rightarrow>
        if cmd = AUTHANDEXEC then
          (case authorize w event argv app of
              None \<Rightarrow> None
            | Some (ok, app) \<Rightarrow>
                if \<not> ok then Some (answer event E_CREDENTIALS app)
                else if length argv \<le> 4 then None
                else map_option (forget_user event)
                  (if strcasecmp (argv ! 4) ''quit'' = 0 then Some (answer event S_OK app)
                   else execute_command w parser event (drop 4 argv) app))
        else run_command w event cmd errorpoint argv app)"
  by pat_completeness auto
termination by (relation "measure (\<lambda>(w, parser, event, argv, app). length argv)") auto

declare execute_command.simps [simp del]

end
