(* ===== verification/Pianod.thy ===== *)
theory Pianod
  imports Admin UserFile
begin

text \<open>
  \<open>src/src/pianod.c\<close>: the main loop, which starts and ends songs, retries logins, watches the player and hands commands to
  \<open>execute_command\<close>.  The player thread changes the fields of the player between two steps.  \<open>None\<close> is a failed
  assertion.  Writing the user file gives file system operations, which are returned next to the state.
\<close>

section \<open>Songs\<close>

fun playlist_of :: "piano_request \<Rightarrow> song list" where
  "playlist_of (GetPlaylist _ _ l) = l"
| "playlist_of _ = []"

definition deselect :: "appstate \<Rightarrow> appstate option" where
  "deselect app = send_selectedstation Everyone (app\<lparr>selected_station := None\<rparr>)"

definition get_play_list :: "world \<Rightarrow> appstate \<Rightarrow> appstate option" where
  "get_play_list w app = (if playlist app \<noteq> [] then None else do {
    sid \<leftarrow> selected_station app;
    (ok, app, req) \<leftarrow> piano_transaction w None (GetPlaylist sid (audioQuality (settings app)) []) app;
    (if \<not> ok then deselect app
     else let app = app\<lparr>playlist := playlist_of req\<rparr>
       in if playlist app = [] then
            deselect (on_service (send_response_code Everyone E_RESOURCE ''Unable to retrieve playlist'') app)
          else Some (on_service (send_status Everyone ''Retrieved new playlist'') (app\<lparr>playlist_retrieved := now app\<rparr>)))
  })"

text \<open>The player for a song, before its thread starts; opening a capture file and naming the stream are left out.\<close>

definition new_player :: "world \<Rightarrow> settings \<Rightarrow> string \<Rightarrow> song \<Rightarrow> audioPlayer" where
  "new_player w s url song = no_player\<lparr>
    player_url := snd (WaitressSplitUrl url no_url),
    player_proxy := (case proxy s of Some p \<Rightarrow> snd (WaitressSplitUrl p no_url) | None \<Rightarrow> no_url),
    player_gain := fileGain song,
    player_scale := BarPlayerCalcScale w (fileGain song + of_int (volume s)),
    player_format := audioFormat song,
    player_output := [output_driver s, output_device s, output_id s, output_server s],
    mode := PLAYER_STARTING\<rparr>"

definition playback_start :: "world \<Rightarrow> appstate \<Rightarrow> appstate option" where
  "playback_start w app = (if current_song app \<noteq> None then None
    else (case playlist app of
        [] \<Rightarrow> None
      | song # rest \<Rightarrow>
          let app = app\<lparr>playlist := rest\<rparr>
          in (case audioUrl song of
              None \<Rightarrow> Some (on_service (send_response_code Everyone E_FAILURE ''Invalid song url.'') app)
            | Some url \<Rightarrow>
                let app = (case proxy (settings app) of
                      Some p \<Rightarrow> if fst (WaitressSplitUrl p no_url) then app
                        else on_service (send_response Everyone I_PROXY_CONFIG) app
                    | None \<Rightarrow> app)
                in Some (app\<lparr>current_song := Some song, stall := no_stall,
                     player := new_player w (settings app) url song, broadcast_status := True\<rparr>))))"

datatype player_ret = PLAYER_RET_OK | PLAYER_RET_HARDFAIL | PLAYER_RET_SOFTFAIL

text \<open>\<open>ret\<close> is what the player thread returned.\<close>

definition playback_cleanup :: "player_ret \<Rightarrow> appstate \<Rightarrow> appstate option" where
  "playback_cleanup ret app = do {
    song \<leftarrow> current_song app;
    let app = on_service (send_response Everyone I_TRACK_COMPLETE) app;
    app \<leftarrow> (if ret \<noteq> PLAYER_RET_OK then do {
        let soft = (ret = PLAYER_RET_SOFTFAIL);
        let app = on_service (send_data Everyone E_FAILURE
          (Some (if soft then ''Transient player error'' else ''Player failure''))) app;
        let app = (if soft then app\<lparr>player_soft_errors := player_soft_errors app + 1\<rparr> else app);
        (if selected_station app \<noteq> None \<and> (\<not> soft \<or> player_soft_errors app > 1) then deselect app else Some app)
      } else Some (app\<lparr>player_soft_errors := 0\<rparr>));
    let app = prepend_history song (app\<lparr>player := no_player, stall := no_stall\<rparr>);
    Some (on_service (event_occurred EVENT_TRACK_ENDED S_OK) (app\<lparr>current_song := None\<rparr>))
  }"

section \<open>Events of the connections\<close>

datatype fb_event = FB_EVENT_CONNECT nat | FB_EVENT_CLOSE nat | FB_EVENT_INPUT nat "string list" | FB_EVENT_STOPPED
  | FB_EVENT_TIMEOUT | FB_EVENT_WRITABLE | FB_EVENT_READABLE | FB_EVENT_FAULTING

definition greet :: "nat \<Rightarrow> appstate \<Rightarrow> appstate option" where
  "greet event app = do {
    let app = on_service (emit (To event) S_OK ''Connected'') app;
    let app = answer event I_WELCOME app;
    let app = on_service (emit (To event) I_VOLUME (Response I_VOLUME @ '': '' @ show_int (volume (settings app)))) app;
    app \<leftarrow> send_selectedstation (To event) app;
    let app = send_playback_status (To event) app;
    (case current_song app of
        None \<Rightarrow> Some app
      | Some song \<Rightarrow> do {
          app \<leftarrow> send_song_info (To event) song app;
          send_rating_of event song app
        })
  }"

definition run_service :: "world \<Rightarrow> fb_parser \<Rightarrow> fb_event \<Rightarrow> appstate \<Rightarrow> appstate option" where
  "run_service w parser ev app = (case ev of
      FB_EVENT_CONNECT event \<Rightarrow> greet event app
    | FB_EVENT_CLOSE event \<Rightarrow> do {
        app \<leftarrow> (if event_user_ref event app \<noteq> None then announce_action event A_SIGNED_OUT None app else Some app);
        let app = on_service (destroy_search_context event) app;
        recompute_stations w (forget_user event app)
      }
    | FB_EVENT_INPUT event argv \<Rightarrow> execute_command w parser event argv app
    | FB_EVENT_STOPPED \<Rightarrow> Some (app\<lparr>service_running := False\<rparr>)
    | FB_EVENT_TIMEOUT \<Rightarrow> Some app
    | _ \<Rightarrow> None)"

section \<open>Settings of libpiano\<close>

definition PianoInit :: "settings \<Rightarrow> piano_handle option" where
  "PianoInit s = do {
    u \<leftarrow> partnerUser s;
    p \<leftarrow> partnerPassword s;
    d \<leftarrow> device s;
    Some \<lparr>listenerId = None, authToken = None, stations = [], genreStations = [],
      ph_partner = \<lparr>partner_authToken = None, partner_device = d, partner_user = u, partner_password = p, partner_id = 0\<rparr>,
      timeOffset = 0\<rparr>
  }"

definition change_piano_settings :: "world \<Rightarrow> appstate \<Rightarrow> appstate option" where
  "change_piano_settings w app = do {
    new_ph \<leftarrow> PianoInit (settings app);
    let status = w_piano_init w (questions app);
    let app = app\<lparr>questions := questions app + 1\<rparr>;
    app \<leftarrow> (if status = PIANO_RET_OK then do {
        app \<leftarrow> (if selected_station app \<noteq> None then deselect app else Some app);
        Some (app\<lparr>ph := new_ph\<rparr>)
      } else Some (on_service (send_response_code Everyone E_INCOMPLETE (PianoErrorToStr status)) app));
    let app = app\<lparr>waith_host := rpcHost (settings app), waith_tlsPort := rpcTlsPort (settings app),
      waith_fingerprint := tlsFingerprint (settings app)\<rparr>;
    let app = on_settings (\<lambda>s. if cred_username (pending s) \<noteq> None then s\<lparr>pandora := no_credentials\<rparr>
      else s\<lparr>pending := pandora s, pandora := no_credentials\<rparr>) app;
    Some (app\<lparr>retry_login_time := (if cred_username (pending (settings app)) \<noteq> None then 1 else 0), update_station_list_time := 0\<rparr>)
  }"

section \<open>Watching the player\<close>

definition song_remaining :: "appstate \<Rightarrow> int" where
  "song_remaining app = c_div (int (songDuration (player app)) - int (songPlayed (player app))) (int BAR_PLAYER_MS_TO_S_FACTOR)"

text \<open>A playlist that is about to end is replaced early.\<close>

definition refill_playlist :: "world \<Rightarrow> appstate \<Rightarrow> appstate option" where
  "refill_playlist w app = do {
    app \<leftarrow> (if selected_station app \<noteq> None \<and> song_remaining app \<le> 5 then purge_unselected_songs app else Some app);
    (if selected_station app \<noteq> None \<and> playlist app = [] \<and> \<not> pianoparam_change_pending app \<and> song_remaining app < 15 then do {
       (_, app) \<leftarrow> update_station_list w app;
       (if selected_station app \<noteq> None then do {
          app \<leftarrow> get_play_list w app;
          apply_station_info w app
        } else Some app)
     } else Some app)
  }"

definition track_stalls :: "int \<Rightarrow> int \<Rightarrow> appstate \<Rightarrow> appstate" where
  "track_stalls t remaining app = (
    let st = stall app;
      unchanged = (sample_time st \<noteq> 0 \<and> remaining = sample st);
      is_stalled = (unchanged \<and> t - sample_time st > 2);
      st = (if unchanged then st else st\<lparr>sample_time := t, sample := remaining\<rparr>);
      st = (if is_stalled \<and> \<not> stalled st then st\<lparr>stall_since := sample_time st\<rparr> else st);
      app = app\<lparr>stall := st\<lparr>stalled := is_stalled\<rparr>\<rparr>
    in if stalled st \<noteq> is_stalled then send_playback_status Everyone app else app)"

definition check_player_status :: "world \<Rightarrow> persist_env \<Rightarrow> appstate \<Rightarrow> (appstate \<times> fs_op list) option" where
  "check_player_status w env app = (
    let t = now app
    in if broadcast_status app then do {
         song \<leftarrow> current_song app;
         app \<leftarrow> send_song_rating Everyone song (send_playback_status Everyone app);
         let app = on_service (event_occurred EVENT_TRACK_STARTED S_OK) (app\<lparr>broadcast_status := False\<rparr>);
         (_, us, ops) \<leftarrow> users_persist env (user_file (settings app)) (users app);
         Some (app\<lparr>users := us\<rparr>, ops)
       }
       else if playback_state app = PLAYING then do {
         let remaining = song_remaining app;
         app \<leftarrow> refill_playlist w app;
         Some (track_stalls t remaining app, [])
       }
       else if paused_since app \<noteq> 0 \<and> t - paused_since app > pause_timeout (settings app)
       then Some (cancel_playback app, [])
       else Some (app, []))"

section \<open>The loop\<close>

definition start_shoutcast :: "world \<Rightarrow> appstate \<Rightarrow> appstate option" where
  "start_shoutcast w app =
    (if \<not> shoutcast app then Some app
     else if map audioFormat (take 1 (playlist app)) = [PIANO_AF_AACPLUS] then Some (app\<lparr>shoutcast := False\<rparr>)
     else do {
       nm \<leftarrow> (if selected_station app = None then Some None else map_option (\<lambda>s. Some (st_name s)) (selected app));
       Some (app\<lparr>shoutcast := w_shoutcast w (questions app) nm, questions := questions app + 1\<rparr>)
     })"

definition start_next_song :: "world \<Rightarrow> appstate \<Rightarrow> appstate option" where
  "start_next_song w app = do {
    app \<leftarrow> purge_unselected_songs app;
    let new_list = (playlist app = []);
    app \<leftarrow> (if new_list then do {
        (_, app) \<leftarrow> update_station_list w app;
        (if selected_station app \<noteq> None then get_play_list w app else Some app)
      } else Some app);
    (if playlist app = [] then Some app
     else do {
       app \<leftarrow> start_shoutcast w app;
       app \<leftarrow> playback_start w app;
       song \<leftarrow> current_song app;
       app \<leftarrow> send_song_info Everyone song app;
       app \<leftarrow> announce_station_ratings None app;
       (if new_list then apply_station_info w app else Some app)
     })
  }"

definition fb_close_service :: "service \<Rightarrow> service" where
  "fb_close_service sv = fold (\<lambda>k. fb_close_connection (conn_id k)) (conns sv) sv"

definition idle_player :: "world \<Rightarrow> appstate \<Rightarrow> appstate option" where
  "idle_player w app =
    (if quit_requested app then
       Some (if \<not> quit_initiated app
         then (on_service fb_close_service (on_service (send_response Everyone E_SHUTDOWN) app))\<lparr>quit_initiated := True\<rparr>
         else app)
     else if selected_station app = None then
       Some (if playback_state app \<noteq> PAUSED then send_playback_status Everyone (app\<lparr>playback_state := PAUSED\<rparr>) else app)
     else if automatic_stations app \<and> computed_stations_is_empty_set app then Some app
     else if playback_state app = PLAYING then start_next_song w app
     else Some app)"

text \<open>One pass up to the events: \<open>ret\<close> is what the thread of a player that finished returned.\<close>

definition before_events :: "world \<Rightarrow> persist_env \<Rightarrow> player_ret \<Rightarrow> appstate \<Rightarrow> (appstate \<times> fs_op list) option" where
  "before_events w env ret app = do {
    app \<leftarrow> (if mode (player app) = PLAYER_FINISHED_PLAYBACK then playback_cleanup ret app else Some app);
    app \<leftarrow> (if mode (player app) = PLAYER_FREED \<and> pianoparam_change_pending app
      then change_piano_settings w (app\<lparr>pianoparam_change_pending := False\<rparr>) else Some app);
    app \<leftarrow> (if retry_login_time app \<noteq> 0 \<and> retry_login_time app < now app then set_pandora_user w None app else Some app);
    app \<leftarrow> (if mode (player app) = PLAYER_FREED then idle_player w app else Some app);
    (app, ops) \<leftarrow> (if PLAYER_SAMPLESIZE_INITIALIZED \<le> mode (player app) \<and> mode (player app) < PLAYER_FINISHED_PLAYBACK
      then check_player_status w env app else Some (app, []));
    Some (if playlist app \<noteq> [] \<and> now app > playlist_retrieved app + playlist_expiration (settings app)
      then app\<lparr>playlist := []\<rparr> else app, ops)
  }"

definition after_events :: "bool \<Rightarrow> appstate \<Rightarrow> appstate" where
  "after_events shutdown_signalled app =
    (if shutdown_signalled then cancel_playback (app\<lparr>quit_requested := True\<rparr>) else app)"

definition pianod_step :: "world \<Rightarrow> fb_parser \<Rightarrow> persist_env \<Rightarrow> player_ret \<Rightarrow> fb_event \<Rightarrow> bool \<Rightarrow> appstate \<Rightarrow>
    (appstate \<times> fs_op list) option" where
  "pianod_step w parser env ret ev shutdown_signalled app = do {
    (app, ops) \<leftarrow> before_events w env ret app;
    app \<leftarrow> run_service w parser ev app;
    Some (after_events shutdown_signalled app, ops)
  }"

end
