(* ===== verification/Invariant.thy ===== *)
theory Invariant
  imports Pianod
begin

text \<open>
  An invariant of the whole program and that every operation keeps it: the volume stays in its bounds, no two users
  share a name, and there is a current song exactly while there is a player.  The proofs are by weakest preconditions
  for operations that may fail.
\<close>

section \<open>The invariant\<close>

definition volume_bounds :: "int \<Rightarrow> bool" where
  "volume_bounds v \<longleftrightarrow> - 100 \<le> v \<and> v \<le> 100"

definition app_ok :: "appstate \<Rightarrow> bool" where
  "app_ok app \<longleftrightarrow> volume_bounds (volume (settings app)) \<and> unique_users (users app)
    \<and> ((current_song app = None) = (mode (player app) = PLAYER_FREED))"

lemma app_ok_simps [simp]:
  "app_ok (on_service f app) = app_ok app" "app_ok (on_stations g app) = app_ok app"
  "app_ok (app\<lparr>ph := p\<rparr>) = app_ok app" "app_ok (app\<lparr>service := sv\<rparr>) = app_ok app" "app_ok (app\<lparr>now := t\<rparr>) = app_ok app"
  "app_ok (app\<lparr>questions := n\<rparr>) = app_ok app" "app_ok (app\<lparr>playlist := l\<rparr>) = app_ok app" "app_ok (app\<lparr>song_history := l\<rparr>) = app_ok app"
  "app_ok (app\<lparr>selected_station := s\<rparr>) = app_ok app" "app_ok (app\<lparr>playback_state := ps\<rparr>) = app_ok app"
  "app_ok (app\<lparr>automatic_stations := b\<rparr>) = app_ok app" "app_ok (app\<lparr>paused_since := t\<rparr>) = app_ok app"
  "app_ok (app\<lparr>stall := st\<rparr>) = app_ok app" "app_ok (app\<lparr>player_soft_errors := n\<rparr>) = app_ok app"
  "app_ok (app\<lparr>shoutcast := b\<rparr>) = app_ok app" "app_ok (app\<lparr>service_running := b\<rparr>) = app_ok app"
  "app_ok (app\<lparr>retry_login_time := t\<rparr>) = app_ok app" "app_ok (app\<lparr>update_station_list_time := t\<rparr>) = app_ok app"
  "app_ok (app\<lparr>pianoparam_change_pending := b\<rparr>) = app_ok app" "app_ok (app\<lparr>quit_requested := b\<rparr>) = app_ok app"
  "app_ok (app\<lparr>quit_initiated := b\<rparr>) = app_ok app" "app_ok (app\<lparr>broadcast_status := b\<rparr>) = app_ok app"
  "app_ok (app\<lparr>skip_history := h\<rparr>) = app_ok app" "app_ok (app\<lparr>computation_had_results := b\<rparr>) = app_ok app"
  "app_ok (app\<lparr>computation_has_listeners := b\<rparr>) = app_ok app" "app_ok (app\<lparr>cache := c\<rparr>) = app_ok app"
  "app_ok (app\<lparr>log_flags := fl\<rparr>) = app_ok app" "app_ok (app\<lparr>playlist_retrieved := t\<rparr>) = app_ok app"
  "app_ok (app\<lparr>waith_host := h1\<rparr>) = app_ok app" "app_ok (app\<lparr>waith_tlsPort := h1\<rparr>) = app_ok app"
  "app_ok (app\<lparr>waith_fingerprint := fp\<rparr>) = app_ok app" "app_ok (app\<lparr>waith_proxy := u\<rparr>) = app_ok app"
  by (simp_all add: app_ok_def on_service_def on_stations_def)

definition same_names :: "users_state \<Rightarrow> users_state \<Rightarrow> bool" where
  "same_names us us' \<longleftrightarrow> map name (user_list us') = map name (user_list us)"

lemma app_ok_users: "\<lbrakk>app_ok app; same_names (users app) us\<rbrakk> \<Longrightarrow> app_ok (app\<lparr>users := us\<rparr>)"
  by (auto simp: app_ok_def same_names_def intro: unique_usersI)

lemma app_ok_settings: "\<lbrakk>app_ok app; volume (f (settings app)) = volume (settings app)\<rbrakk> \<Longrightarrow> app_ok (on_settings f app)"
  by (simp add: app_ok_def on_settings_def)

lemma on_settings_simps [simp]:
  "users (on_settings f app) = users app" "current_song (on_settings f app) = current_song app"
  "player (on_settings f app) = player app" "settings (on_settings f app) = f (settings app)"
  by (simp_all add: on_settings_def)

lemma app_ok_current_song: "\<lbrakk>app_ok app; (s = None) = (current_song app = None)\<rbrakk> \<Longrightarrow> app_ok (app\<lparr>current_song := s\<rparr>)"
  by (simp add: app_ok_def)

lemma app_ok_player: "\<lbrakk>app_ok app; mode p = mode (player app)\<rbrakk> \<Longrightarrow> app_ok (app\<lparr>player := p\<rparr>)"
  by (simp add: app_ok_def)

text \<open>Sequences: the first part gives a state, or a state with another result.\<close>

lemma wp_bind_app: "\<lbrakk>wp m app_ok; \<And>app. app_ok app \<Longrightarrow> wp (f app) Q\<rbrakk> \<Longrightarrow> wp (Option.bind m f) Q"
  by (rule wp_bind)

abbreviation second_ok :: "'a \<times> appstate \<Rightarrow> bool" where
  "second_ok x \<equiv> app_ok (snd x)"

abbreviation middle_ok :: "'a \<times> appstate \<times> 'b \<Rightarrow> bool" where
  "middle_ok x \<equiv> app_ok (fst (snd x))"

lemma wp_bind_second: "\<lbrakk>wp m second_ok; \<And>x. second_ok x \<Longrightarrow> wp (f x) Q\<rbrakk> \<Longrightarrow> wp (Option.bind m f) Q"
  by (rule wp_bind)

lemma wp_bind_middle: "\<lbrakk>wp m middle_ok; \<And>x. middle_ok x \<Longrightarrow> wp (f x) Q\<rbrakk> \<Longrightarrow> wp (Option.bind m f) Q"
  by (rule wp_bind)

lemma wp_bind_first:
  "\<lbrakk>wp m (\<lambda>x. app_ok (fst x)); \<And>x. app_ok (fst x) \<Longrightarrow> wp (f x) Q\<rbrakk> \<Longrightarrow> wp (Option.bind m f) Q"
  by (rule wp_bind)

lemma wp_seed_search:
  "\<lbrakk>wp a Q; wp b Q; \<And>s r. x = FoundIn s r \<Longrightarrow> wp (f s r) Q\<rbrakk> \<Longrightarrow>
    wp (case x of NoSuchType \<Rightarrow> a | NotCached \<Rightarrow> b | FoundIn s r \<Rightarrow> f s r) Q"
  by (cases x) auto

lemmas wp_rules = wp_seed_search wp_if wp_option wp_list wp_prod wp_let wp_bind_app wp_bind_second wp_bind_middle wp_bind_first wp_bind_any

lemmas app_ok_intros = app_ok_users app_ok_settings app_ok_current_song app_ok_player

text \<open>What is known of the operations; each proof uses what this collection holds of the operations called.\<close>

named_theorems keeps

section \<open>Users\<close>

lemma names_update_user: "(\<And>u. name (f u) = name u) \<Longrightarrow> map name (user_list (update_user r f us)) = map name (user_list us)"
  by (cases r) (auto simp: comp_def)

lemma names_clear_privilege [simp]: "map name (user_list (clear_privilege p us)) = map name (user_list us)"
  by (simp add: clear_privilege_def comp_def)

lemma names_set_privilege: "set_privilege r p b us = Some us' \<Longrightarrow> map name (user_list us') = map name (user_list us)"
  by (auto simp: set_privilege_def names_update_user split: option.splits)

lemma names_set_privileges: "set_privileges ns p b us = Some us' \<Longrightarrow> map name (user_list us') = map name (user_list us)"
  by (induction ns arbitrary: us) (auto simp: bind_eq_Some_conv dest: names_set_privilege)

lemma names_set_ownership_rule:
  "set_ownership_rule rule m us = Some us' \<Longrightarrow> map name (user_list us') = map name (user_list us)"
  by (auto simp: set_ownership_rule_def Let_def names_update_user split: option.splits if_splits)

lemma names_save_pandora_credentials:
  "save_pandora_credentials c us = Some us' \<Longrightarrow> map name (user_list us') = map name (user_list us)"
  by (auto simp: save_pandora_credentials_def bind_eq_Some_conv names_update_user split: option.splits)

lemma names_set_rank: "set_rank r k us = Some us' \<Longrightarrow> map name (user_list us') = map name (user_list us)"
  by (auto simp: set_rank_def names_update_user split: option.splits)

lemma names_set_user_password [simp]: "map name (user_list (set_user_password c rnd r pw us)) = map name (user_list us)"
  by (simp add: set_user_password_def names_update_user)

lemma names_change_password:
  "change_password c rnd r old pw us = Some (ok, us') \<Longrightarrow> map name (user_list us') = map name (user_list us)"
  by (auto simp: change_password_def bind_eq_Some_conv split: option.splits if_splits)

lemma names_set_station_rating:
  "set_station_rating r sid k us = Some us' \<Longrightarrow> map name (user_list us') = map name (user_list us)"
  by (auto simp: set_station_rating_def bind_eq_Some_conv set_station_preferences_def names_update_user split: option.splits)


lemma names_clear [simp]: "same_names us (clear_privilege p us)" "same_names us (set_user_password c rnd r pw us)"
  by (simp_all add: same_names_def)

lemmas names = names_set_privilege names_set_privileges names_set_ownership_rule names_save_pandora_credentials
  names_set_rank names_change_password names_set_station_rating

section \<open>Pandora\<close>

lemma piano_transaction_keeps [keeps]: "app_ok app \<Longrightarrow> wp (piano_transaction w e r app) middle_ok"
  by (rule wpI) (auto elim!: piano_transaction_keepsE)

lemma bar_ui_piano_call_keeps [keeps]: "app_ok app \<Longrightarrow> wp (bar_ui_piano_call w app r) middle_ok"
  by (rule wpI) (auto dest!: bar_ui_piano_call_calls_only elim!: calls_onlyE)

section \<open>Reports\<close>

lemma announce_action_keeps [keeps]: "app_ok app \<Longrightarrow> wp (announce_action e c p app) app_ok"
  unfolding announce_action_def by (intro wp_rules) auto

lemma send_selectedstation_keeps [keeps]: "app_ok app \<Longrightarrow> wp (send_selectedstation there app) app_ok"
  unfolding send_selectedstation_def by (intro wp_rules) auto

lemma send_playback_status_keeps [simp]: "app_ok (send_playback_status there app) = app_ok app"
  by (simp add: send_playback_status_def Let_def)

lemma send_song_rating_keeps [keeps]: "app_ok app \<Longrightarrow> wp (send_song_rating there s app) app_ok"
  unfolding send_song_rating_def by (intro wp_rules) auto

lemma send_song_or_detail_info_keeps [keeps]: "app_ok app \<Longrightarrow> wp (send_song_or_detail_info there s t app) app_ok"
  unfolding send_song_or_detail_info_def by (intro wp_rules keeps) (auto split: option.splits)

lemma send_song_info_keeps [keeps]: "app_ok app \<Longrightarrow> wp (send_song_info there s app) app_ok"
  unfolding send_song_info_def by (intro wp_rules keeps)

lemma send_songs_or_details_keeps [keeps]: "app_ok app \<Longrightarrow> wp (send_songs_or_details e l t app) app_ok"
proof (induction l arbitrary: app)
  case (Cons s l)
  then show ?case unfolding send_songs_or_details.simps by (intro wp_rules keeps) (auto intro: keeps)
qed simp

lemma send_song_list_keeps [keeps]: "app_ok app \<Longrightarrow> wp (send_song_list e l app) app_ok"
  unfolding send_song_list_def by (intro wp_rules) (auto intro: keeps)

lemma send_rating_of_keeps [keeps]: "app_ok app \<Longrightarrow> wp (send_rating_of e s app) app_ok"
  unfolding send_rating_of_def by (intro wp_rules) auto

lemma announce_station_ratings_keeps [keeps]: "app_ok app \<Longrightarrow> wp (announce_station_ratings u app) app_ok"
  unfolding announce_station_ratings_def by (intro wp_rules) auto

lemma send_rating_line_keeps [keeps]: "app_ok app \<Longrightarrow> wp (send_rating_line e s app) app_ok"
  unfolding send_rating_line_def by (intro wp_rules) auto

lemma send_rating_lines_keeps [keeps]: "app_ok app \<Longrightarrow> wp (send_rating_lines e l app) app_ok"
proof (induction l arbitrary: app)
  case (Cons s l)
  then show ?case unfolding send_rating_lines.simps by (intro wp_rules keeps)
qed simp

section \<open>Support\<close>

lemma get_song_keeps: "\<lbrakk>get_song_by_id_or_current e i app = (r, app'); app_ok app\<rbrakk> \<Longrightarrow> app_ok app'"
  by (auto simp: get_song_by_id_or_current_def Let_def split: option.splits if_splits)

lemma get_station_keeps [keeps]: "app_ok app \<Longrightarrow> wp (get_station_by_name_or_current e n app) second_ok"
  unfolding get_station_by_name_or_current_def by (intro wp_rules) auto

lemma send_station_ratings_keeps [keeps]: "app_ok app \<Longrightarrow> wp (send_station_ratings e n app) app_ok"
  unfolding send_station_ratings_def by (intro wp_rules keeps) (auto intro!: keeps)

lemma pwn_station_keeps [keeps]: "app_ok app \<Longrightarrow> wp (pwn_station w e sid app) second_ok"
  unfolding pwn_station_def by (intro wp_rules keeps) auto

lemma skips_keeps: "app_ok app \<Longrightarrow> second_ok (skips_are_available e st app)"
  by (simp add: skips_are_available_def Let_def split: prod.split)

lemma cancel_playback_keeps [simp]: "app_ok (cancel_playback app) = app_ok app"
  by (simp add: cancel_playback_def app_ok_def)

lemma prepend_history_keeps [simp]: "app_ok (prepend_history s app) = app_ok app"
  by (simp add: prepend_history_def)

lemma purge_keeps [keeps]: "app_ok app \<Longrightarrow> wp (purge_unselected_songs app) app_ok"
  unfolding purge_unselected_songs_def by (intro wp_rules) auto

lemma say_keeps [simp]: "app_ok (say there c t app) = app_ok app"
  by (simp add: say_def)

lemma check_for_station_changes_keeps_ok [simp]: "app_ok (check_for_station_changes old new app) = app_ok app"
  by (simp add: check_for_station_changes_def split_beta Let_def)

lemma settle_selection_keeps [keeps]: "app_ok app \<Longrightarrow> wp (settle_selection app) app_ok"
  unfolding settle_selection_def by (intro wp_rules keeps) auto

lemma update_station_list_keeps [keeps]: "app_ok app \<Longrightarrow> wp (update_station_list w app) second_ok"
  unfolding update_station_list_def by (intro wp_rules keeps) auto

lemma validate_station_list_keeps: "\<lbrakk>validate_station_list e ns app = (ok, app'); app_ok app\<rbrakk> \<Longrightarrow> app_ok app'"
  by (auto simp: validate_station_list_def Let_def split: prod.splits if_splits)

lemma to_event_keeps [simp]: "app_ok (to_event e f app) = app_ok app"
  by (simp add: to_event_def split: option.split)

lemma announce_all_keeps [simp]: "app_ok (announce_all_privileges app) = app_ok app"
  by (simp add: announce_all_privileges_def)

lemma install_pandora_user_keeps [keeps]: "app_ok app \<Longrightarrow> wp (install_pandora_user w c app) app_ok"
  unfolding install_pandora_user_def
  by (intro wp_rules keeps) (auto intro!: app_ok_intros dest!: names simp: same_names_def)

lemma set_pandora_user_keeps [keeps]: "app_ok app \<Longrightarrow> wp (set_pandora_user w e app) app_ok"
  unfolding set_pandora_user_def
  by (intro wp_rules keeps) (auto intro!: app_ok_intros split: option.splits)

section \<open>The autotuner\<close>

lemma install_selection_keeps [keeps]: "app_ok app \<Longrightarrow> wp (install_selection w a sels app) app_ok"
  unfolding install_selection_def by (intro wp_rules keeps) auto

lemma recompute_stations_keeps [keeps]: "app_ok app \<Longrightarrow> wp (recompute_stations w app) app_ok"
  unfolding recompute_stations_def by (intro wp_rules keeps) auto

lemma rate_station_keeps [keeps]: "app_ok app \<Longrightarrow> wp (rate_station w e a b u app) app_ok"
  unfolding rate_station_def by (intro wp_rules keeps) (auto intro!: app_ok_users dest!: names simp: same_names_def)

section \<open>Seeds\<close>

lemma retrieve_station_info_keeps [keeps]: "app_ok app \<Longrightarrow> wp (retrieve_station_info w s app) second_ok"
  unfolding retrieve_station_info_def by (intro wp_rules keeps) auto

lemma add_cache_record_keeps [simp]: "app_ok (add_cache_record s i app) = app_ok app"
  by (simp add: add_cache_record_def)

lemma get_station_info_keeps [keeps]: "app_ok app \<Longrightarrow> wp (get_station_info w s app) second_ok"
  unfolding get_station_info_def by (intro wp_rules keeps) (auto split: option.splits)

lemma get_station_info_by_id_keeps [keeps]: "app_ok app \<Longrightarrow> wp (get_station_info_by_id w s app) second_ok"
  unfolding get_station_info_by_id_def by (intro wp_rules keeps) auto

lemma apply_station_info_to_songs_keeps [keeps]: "app_ok app \<Longrightarrow> wp (apply_station_info_to_songs w l app) second_ok"
proof (induction l arbitrary: app)
  case (Cons s l)
  then show ?case unfolding apply_station_info_to_songs.simps by (intro wp_rules keeps) auto
qed simp

lemma retrieve_station_info_song: "wp (retrieve_station_info w s app) (\<lambda>x. current_song (snd x) = current_song app)"
  by (rule wpI) (auto simp: retrieve_station_info_def bind_eq_Some_conv elim: piano_transaction_keepsE)

lemma get_station_info_by_id_song:
  "get_station_info_by_id w s app = Some (i, app') \<Longrightarrow> current_song app' = current_song app"
  using retrieve_station_info_song [THEN wpD]
  by (fastforce simp: get_station_info_by_id_def get_station_info_def add_cache_record_def bind_eq_Some_conv Let_def
      split: option.splits if_splits)

lemma apply_station_info_to_songs_song:
  "apply_station_info_to_songs w l app = Some (l', app') \<Longrightarrow> length l' = length l \<and> current_song app' = current_song app"
  by (induction l arbitrary: app l') (auto simp: bind_eq_Some_conv dest!: get_station_info_by_id_song)

lemma apply_station_info_keeps [keeps]:
  assumes "app_ok app"
  shows "wp (apply_station_info w app) app_ok"
proof (rule wpI)
  fix app'
  let ?playing = "\<lambda>app. case current_song app of None \<Rightarrow> [] | Some s \<Rightarrow> [s]"
  assume "apply_station_info w app = Some app'"
  then obtain l1 app1 l2 app2 l3 app3 where 1: "apply_station_info_to_songs w (song_history app) app = Some (l1, app1)"
    and 2: "apply_station_info_to_songs w (?playing app1) (app1\<lparr>song_history := l1\<rparr>) = Some (l2, app2)"
    and 3: "apply_station_info_to_songs w (playlist app2)
      (app2\<lparr>current_song := case l2 of [] \<Rightarrow> None | s # _ \<Rightarrow> Some s\<rparr>) = Some (l3, app3)"
    and app': "app' = app3\<lparr>playlist := l3\<rparr>"
    by (auto simp: apply_station_info_def bind_eq_Some_conv Let_def)
  have "app_ok app1" using wpD [OF apply_station_info_to_songs_keeps 1] assms by simp
  then have 4: "app_ok app2" using wpD [OF apply_station_info_to_songs_keeps 2] by simp
  have "app_ok (app2\<lparr>current_song := case l2 of [] \<Rightarrow> None | s # _ \<Rightarrow> Some s\<rparr>)"
    using apply_station_info_to_songs_song [OF 2] by (auto intro!: app_ok_current_song [OF 4] split: option.splits list.splits)
  then show "app_ok app'" using wpD [OF apply_station_info_to_songs_keeps 3] app' by simp
qed

lemma expire_by_id_keeps [keeps]: "app_ok app \<Longrightarrow> wp (expire_station_info_by_id w sid app) app_ok"
  unfolding expire_station_info_by_id_def by (intro wp_rules keeps) auto

lemma expire_keeps [keeps]: "app_ok app \<Longrightarrow> wp (expire_station_info w s app) app_ok"
  unfolding expire_station_info_def by (intro keeps)

lemma expire_by_song_keeps [keeps]: "app_ok app \<Longrightarrow> wp (expire_station_info_by_song w r app) app_ok"
  unfolding expire_station_info_by_song_def by (intro wp_rules keeps) auto

lemma send_station_info_keeps [keeps]: "app_ok app \<Longrightarrow> wp (send_station_info w e s app) app_ok"
  unfolding send_station_info_def by (intro wp_rules keeps) auto

lemma update_song_keeps [simp]: "app_ok (update_song r f app) = app_ok app"
  by (cases r) (auto simp: app_ok_def)

lemma rate_neutral_keeps [keeps]: "app_ok app \<Longrightarrow> wp (rate_neutral w e r app) app_ok"
  unfolding rate_neutral_def by (intro wp_rules keeps) auto

lemma rate_love_or_hate_keeps [keeps]: "app_ok app \<Longrightarrow> wp (rate_love_or_hate w e x r app) app_ok"
  unfolding rate_love_or_hate_def by (intro wp_rules keeps) auto

lemma song_found_keeps:
  "\<lbrakk>app_ok app; \<And>app. app_ok app \<Longrightarrow> wp (f app) app_ok; \<And>r app. app_ok app \<Longrightarrow> wp (g r app) app_ok\<rbrakk> \<Longrightarrow>
    wp (case get_song_by_id_or_current e i app of (None, app) \<Rightarrow> f app | (Some r, app) \<Rightarrow> g r app) app_ok"
  by (auto dest: get_song_keeps split: prod.split option.split)

lemma rate_song_keeps [keeps]: "app_ok app \<Longrightarrow> wp (rate_song w e c i app) app_ok"
  unfolding rate_song_def by (intro song_found_keeps wp_rules keeps) auto

lemma remove_song_seed_keeps [keeps]: "app_ok app \<Longrightarrow> wp (remove_song_seed w e b i app) app_ok"
  unfolding remove_song_seed_def by (intro song_found_keeps wp_rules keeps) auto

lemma add_seed_keeps [keeps]: "app_ok app \<Longrightarrow> wp (add_seed w e n i app) app_ok"
  unfolding add_seed_def by (intro wp_rules keeps) auto

lemma add_song_seed_keeps [keeps]: "app_ok app \<Longrightarrow> wp (add_song_seed w e n b i app) app_ok"
  unfolding add_song_seed_def by (intro song_found_keeps wp_rules keeps) auto

lemma remove_seed_keeps [keeps]: "app_ok app \<Longrightarrow> wp (remove_seed w e i app) app_ok"
  unfolding remove_seed_def by (intro wp_rules keeps) auto

section \<open>Queries\<close>

lemma send_genres_keeps [keeps]: "app_ok app \<Longrightarrow> wp (send_genres w e s app) app_ok"
  unfolding send_genres_def by (intro wp_rules keeps) auto

lemma refresh_query_keeps [keeps]: "app_ok app \<Longrightarrow> wp (refresh_query w e t app) second_ok"
  unfolding refresh_query_def by (intro wp_rules keeps) auto

lemma perform_query_keeps [keeps]: "app_ok app \<Longrightarrow> wp (perform_query w e what t app) app_ok"
  unfolding perform_query_def by (intro wp_rules keeps) auto

section \<open>Commands\<close>

lemma send_statement_list_keeps [simp]: "app_ok (send_statement_list e u t app) = app_ok app"
  by (simp add: send_statement_list_def)

lemma announce_keeps [simp]: "app_ok (announce c v app) = app_ok app"
  by (simp add: announce_def)

lemma manipulate_quickmix_keeps [keeps]: "app_ok app \<Longrightarrow> wp (manipulate_quickmix w e c argv app) second_ok"
  unfolding manipulate_quickmix_def by (intro wp_rules keeps) (auto split: if_splits)

lemma send_song_lists_keeps [keeps]: "app_ok app \<Longrightarrow> wp (send_song_lists e c argv app) app_ok"
  unfolding send_song_lists_def by (intro wp_rules keeps) auto

lemma app_ok_pause: "app_ok app \<Longrightarrow> app_ok (app\<lparr>player := (player app)\<lparr>doPause := b\<rparr>\<rparr>)"
  by (simp add: app_ok_def)

lemma control_playback_keeps [keeps]: "app_ok app \<Longrightarrow> wp (control_playback e c app) app_ok"
  unfolding control_playback_def by (intro wp_rules keeps) (auto simp: Let_def intro!: app_ok_player)

lemma rename_new_station_keeps [keeps]: "app_ok app \<Longrightarrow> wp (rename_new_station w e n app) app_ok"
  unfolding rename_new_station_def by (intro wp_rules keeps) auto

lemma create_station_keeps [keeps]: "app_ok app \<Longrightarrow> wp (create_station w e n token t app) app_ok"
  unfolding create_station_def by (intro wp_rules keeps) auto

lemma create_station_from_song_keeps [keeps]: "app_ok app \<Longrightarrow> wp (create_station_from_song w e n b i app) app_ok"
  unfolding create_station_from_song_def by (intro song_found_keeps wp_rules keeps) auto

lemma create_station_from_shared_keeps [keeps]: "app_ok app \<Longrightarrow> wp (create_station_from_shared w e n i app) app_ok"
  unfolding create_station_from_shared_def by (intro wp_rules keeps) auto

lemma create_station_from_suggestion_keeps [keeps]:
  "app_ok app \<Longrightarrow> wp (create_station_from_suggestion w e n i app) app_ok"
  unfolding create_station_from_suggestion_def by (intro wp_rules keeps) auto

lemma rename_station_keeps [keeps]: "app_ok app \<Longrightarrow> wp (rename_station w e a b app) app_ok"
  unfolding rename_station_def by (intro wp_rules keeps) auto

lemma delete_station_keeps [keeps]: "app_ok app \<Longrightarrow> wp (delete_station w e n app) app_ok"
  unfolding delete_station_def by (intro wp_rules keeps) auto

lemma explain_song_choice_keeps [keeps]: "app_ok app \<Longrightarrow> wp (explain_song_choice w e i app) app_ok"
  unfolding explain_song_choice_def by (intro song_found_keeps wp_rules keeps) auto

lemma accept_new_credentials_keeps [keeps]: "app_ok app \<Longrightarrow> wp (accept_new_credentials w e argv m app) app_ok"
  unfolding accept_new_credentials_def by (intro wp_rules keeps) (auto intro!: app_ok_settings)

section \<open>Stages\<close>

fun stage_ok :: "stage \<Rightarrow> bool" where
  "stage_ok (Handled m) = wp m app_ok"
| "stage_ok Next = True"

lemma stage_if: "\<lbrakk>b \<Longrightarrow> stage_ok s; \<not> b \<Longrightarrow> stage_ok t\<rbrakk> \<Longrightarrow> stage_ok (if b then s else t)"
  by simp

lemma stage_handled: "wp m app_ok \<Longrightarrow> stage_ok (Handled m)"
  by simp

lemma stage_let: "(\<And>y. y = x \<Longrightarrow> stage_ok (f y)) \<Longrightarrow> stage_ok (let y = x in f y)"
  by simp

lemma wp_or_else: "\<lbrakk>stage_ok s; wp m app_ok\<rbrakk> \<Longrightarrow> wp (or_else s m) app_ok"
  by (cases s) auto

lemmas stage_rules = stage_if stage_handled stage_let wp_or_else

lemma report_privileges_keeps [simp]: "app_ok (report_privileges e app) = app_ok app"
  by (simp add: report_privileges_def)

lemma authenticate_command_keeps [keeps]: "app_ok app \<Longrightarrow> wp (authenticate_command w e argv app) app_ok"
  unfolding authenticate_command_def by (intro wp_rules keeps) auto

lemma unprivileged_command_keeps: "app_ok app \<Longrightarrow> stage_ok (unprivileged_command w e c argv app)"
  unfolding unprivileged_command_def by (intro stage_rules keeps) auto

lemma owner_station_command_keeps: "app_ok app \<Longrightarrow> stage_ok (owner_station_command w e c argv app)"
  unfolding owner_station_command_def by (intro stage_rules wp_rules keeps) auto

lemma owner_seed_command_keeps: "app_ok app \<Longrightarrow> stage_ok (owner_seed_command w e c argv app)"
  unfolding owner_seed_command_def by (intro stage_rules song_found_keeps wp_rules keeps) auto

lemma owner_command_keeps [keeps]: "app_ok app \<Longrightarrow> wp (owner_command w e c argv app) app_ok"
  unfolding owner_command_def by (intro stage_rules owner_station_command_keeps owner_seed_command_keeps wp_if) auto

lemma parse_error_command_keeps: "app_ok app \<Longrightarrow> stage_ok (parse_error_command e c p app)"
  unfolding parse_error_command_def bad_command_def by (intro stage_rules) auto

lemma report_number_keeps: "app_ok app \<Longrightarrow> stage_ok (report_number e c v app)"
  by (simp add: report_number_def)

lemma status_command_keeps: "app_ok app \<Longrightarrow> stage_ok (status_command e c argv app)"
  unfolding status_command_def by (intro stage_rules report_number_keeps wp_rules keeps) (auto intro: keeps wpI)

lemma account_command_keeps: "app_ok app \<Longrightarrow> stage_ok (account_command w e c argv app)"
  unfolding account_command_def
  by (intro stage_rules wp_rules keeps) (auto intro: wpI intro!: app_ok_users dest!: names simp: same_names_def)

lemma list_users_keeps [keeps]: "app_ok app \<Longrightarrow> wp (list_users e n b app) app_ok"
  by (rule wpI) (auto simp: list_users_def)

lemma pandora_existing_keeps [keeps]: "app_ok app \<Longrightarrow> wp (pandora_existing w e argv app) app_ok"
  unfolding pandora_existing_def by (intro wp_rules keeps) (auto intro!: app_ok_settings)

lemma autotune_users_keeps [keeps]: "app_ok app \<Longrightarrow> wp (autotune_users w e c argv app) app_ok"
  unfolding autotune_users_def by (intro wp_rules keeps) (auto intro!: app_ok_users dest!: names simp: same_names_def)

lemma privileged_command_keeps: "app_ok app \<Longrightarrow> stage_ok (privileged_command w e c argv app)"
  unfolding privileged_command_def by (intro stage_rules wp_rules keeps) (auto intro: wpI)

lemma new_volume_bounds: "\<lbrakk>volume_bounds v; new_volume word v = Inr v'\<rbrakk> \<Longrightarrow> volume_bounds v'"
  by (auto simp: new_volume_def volume_bounds_def split: if_splits prod.splits)

lemma app_ok_volume: "\<lbrakk>app_ok app; volume_bounds v\<rbrakk> \<Longrightarrow> app_ok (on_settings (volume_update (\<lambda>_. v)) app)"
  by (simp add: app_ok_def)

lemma set_volume_keeps:
  assumes "app_ok app"
  shows "app_ok (set_volume w e word app)"
proof (cases "new_volume word (volume (settings app))")
  case (Inl a)
  then show ?thesis using assms by (simp add: set_volume_def split: option.split)
next
  case (Inr v)
  then have "volume_bounds v" using assms new_volume_bounds [of "volume (settings app)" word v] by (simp add: app_ok_def)
  then show ?thesis
    using assms Inr by (simp add: set_volume_def Let_def app_ok_volume app_ok_player)
qed

lemma skip_song_keeps [keeps]: "app_ok app \<Longrightarrow> wp (skip_song e app) app_ok"
  unfolding skip_song_def by (intro wp_rules keeps) (auto dest: skips_keeps)

lemma select_station_keeps [keeps]: "app_ok app \<Longrightarrow> wp (select_station w e c argv app) app_ok"
  unfolding select_station_def by (intro wp_rules keeps) auto

lemma stop_playback_keeps [keeps]: "app_ok app \<Longrightarrow> wp (stop_playback e argv app) app_ok"
  unfolding stop_playback_def by (intro wp_rules keeps) (auto split: if_splits)

lemma wp_validated:
  "\<lbrakk>\<And>a. x = (True, a) \<Longrightarrow> wp (f a) Q; \<And>a. x = (False, a) \<Longrightarrow> wp (g a) Q\<rbrakk> \<Longrightarrow>
    wp (case x of (True, a) \<Rightarrow> f a | (False, a) \<Rightarrow> g a) Q"
  by (auto split: prod.split bool.split)

lemma user_command_keeps: "app_ok app \<Longrightarrow> stage_ok (user_command w e c argv app)"
  unfolding user_command_def
  by (intro stage_rules wp_validated wp_rules keeps) (auto intro: set_volume_keeps dest: validate_station_list_keeps)

section \<open>Commands of administrators\<close>

lemma preference_command_keeps: "app_ok app \<Longrightarrow> stage_ok (preference_command w e c argv app)"
  unfolding preference_command_def by (intro stage_rules wp_rules keeps) (auto intro!: app_ok_settings)

lemma set_shoutcast_keeps [keeps]: "app_ok app \<Longrightarrow> wp (set_shoutcast w e argv app) app_ok"
  unfolding set_shoutcast_def by (intro wp_rules) (auto intro!: app_ok_settings split: option.split)

lemma set_capture_path_keeps [keeps]: "app_ok app \<Longrightarrow> wp (set_capture_path w e argv app) app_ok"
  unfolding set_capture_path_def by (intro wp_rules) (auto intro!: app_ok_settings split: option.split)

lemma stream_command_keeps: "app_ok app \<Longrightarrow> stage_ok (stream_command w e c argv app)"
  unfolding stream_command_def by (intro stage_rules keeps) auto

lemma on_proxy_keeps: "app_ok app \<Longrightarrow> second_ok (on_proxy u app)"
  by (simp add: on_proxy_def split: prod.split)

lemma set_number_keeps:
  "\<lbrakk>app_ok app; \<And>i s. volume (f i s) = volume s\<rbrakk> \<Longrightarrow> wp (set_number e c f argv app) app_ok"
  unfolding set_number_def by (intro wp_rules) (auto intro!: app_ok_settings)

lemma set_control_proxy_keeps [keeps]: "app_ok app \<Longrightarrow> wp (set_control_proxy e argv app) app_ok"
  unfolding set_control_proxy_def
  by (intro wp_rules) (auto intro!: app_ok_settings dest: on_proxy_keeps [where u = "_ :: string"] simp: on_proxy_def split: prod.splits)

lemma set_proxy_keeps [keeps]: "app_ok app \<Longrightarrow> wp (set_proxy e argv app) app_ok"
  unfolding set_proxy_def by (intro wp_rules) (auto simp: Let_def intro!: app_ok_settings on_proxy_keeps)

lemma timeout_command_keeps: "app_ok app \<Longrightarrow> stage_ok (timeout_command e c argv app)"
  unfolding timeout_command_def by (intro stage_rules set_number_keeps report_number_keeps keeps) auto

lemma change_setting_keeps:
  "\<lbrakk>app_ok app; \<And>s. volume (f v s) = volume s\<rbrakk> \<Longrightarrow> app_ok (change_setting e v f app)"
  by (simp add: change_setting_def app_ok_settings)

lemma change_fingerprint_keeps: "app_ok app \<Longrightarrow> second_ok (change_fingerprint e v app)"
  by (simp add: change_fingerprint_def app_ok_settings)

lemma report_partner_keeps [keeps]: "app_ok app \<Longrightarrow> wp (report_partner e app) app_ok"
  unfolding report_partner_def by (intro wp_rules) auto

lemma libpiano_command_keeps: "app_ok app \<Longrightarrow> stage_ok (libpiano_command e c argv app)"
  unfolding libpiano_command_def
  by (intro stage_rules wp_rules keeps) (auto intro!: app_ok_settings change_setting_keeps change_fingerprint_keeps wpI)

lemma generate_test_tone_keeps [simp]: "app_ok (generate_test_tone w e app) = app_ok app"
  by (simp add: generate_test_tone_def Let_def split: option.split)

lemma libao_command_keeps: "app_ok app \<Longrightarrow> stage_ok (libao_command w e c argv app)"
  unfolding libao_command_def by (intro stage_rules) (auto intro!: change_setting_keeps)

lemma server_command_keeps: "app_ok app \<Longrightarrow> stage_ok (server_command e c argv app)"
  unfolding server_command_def
  by (intro stage_rules wp_rules) (auto intro!: app_ok_settings app_ok_users simp: on_users_def same_names_def set_visitor_rank_def)

lemma with_user_keeps:
  "\<lbrakk>app_ok app; \<And>r app. app_ok app \<Longrightarrow> wp (f r app) app_ok\<rbrakk> \<Longrightarrow> wp (with_user e n f app) app_ok"
  unfolding with_user_def by (intro wp_rules) (auto split: prod.split option.split)

lemma app_ok_new_users: "\<lbrakk>app_ok app; unique_users us\<rbrakk> \<Longrightarrow> app_ok (app\<lparr>users := us\<rparr>)"
  by (simp add: app_ok_def)

lemma app_ok_unique: "app_ok app \<Longrightarrow> unique_users (users app)"
  by (simp add: app_ok_def)

lemma set_rank_unique: "\<lbrakk>set_rank r k us = Some us'; unique_users us\<rbrakk> \<Longrightarrow> unique_users us'"
  by (metis unique_usersI names_set_rank)

lemma create_new_user_unique: "\<lbrakk>create_new_user c rnd n pw us = (new, us'); unique_users us\<rbrakk> \<Longrightarrow> unique_users us'"
  using unique_users_create by (metis create_new_user_def snd_conv)

lemma create_user_command_keeps [keeps]: "app_ok app \<Longrightarrow> wp (create_user_command w e argv app) app_ok"
  unfolding create_user_command_def
  by (intro wp_rules) (auto intro!: app_ok_new_users dest!: create_new_user_unique [OF sym] dest: app_ok_unique set_rank_unique)

lemma grant_command_keeps [keeps]: "app_ok app \<Longrightarrow> wp (grant_command w e c argv app) app_ok"
  unfolding grant_command_def by (intro wp_rules keeps) (auto intro!: app_ok_users dest!: names simp: same_names_def)

lemma delete_user_command_keeps: "app_ok app \<Longrightarrow> wp (delete_user_command e r app) app_ok"
  unfolding delete_user_command_def
  by (intro wp_rules) (auto intro!: app_ok_new_users app_ok_settings dest: unique_users_delete [OF app_ok_unique])

lemma kick_user_command_keeps: "app_ok app \<Longrightarrow> wp (kick_user_command e argv r app) app_ok"
  unfolding kick_user_command_def by (intro wp_rules keeps) auto

lemma users_command_keeps: "app_ok app \<Longrightarrow> stage_ok (users_command w e c argv app)"
  unfolding users_command_def
  by (intro stage_rules with_user_keeps delete_user_command_keeps kick_user_command_keeps wp_rules keeps)
    (auto intro!: app_ok_users dest!: names simp: same_names_def)

lemmas stages_keep = unprivileged_command_keeps parse_error_command_keeps status_command_keeps account_command_keeps
  privileged_command_keeps user_command_keeps preference_command_keeps stream_command_keeps timeout_command_keeps
  libpiano_command_keeps libao_command_keeps server_command_keeps users_command_keeps

lemma admin_command_keeps [keeps]: "app_ok app \<Longrightarrow> wp (admin_command w e c argv app) app_ok"
  unfolding admin_command_def by (intro wp_or_else stages_keep) auto

lemma listener_command_keeps:
  "\<lbrakk>app_ok app; wp others app_ok\<rbrakk> \<Longrightarrow> wp (listener_command w e c p argv app others) app_ok"
  unfolding listener_command_def by (intro wp_or_else stages_keep)

lemma run_command_keeps [keeps]: "app_ok app \<Longrightarrow> wp (run_command w e c p argv app) app_ok"
  unfolding run_command_def Let_def by (intro wp_if wp_or_else listener_command_keeps stages_keep keeps) auto

lemma authorize_keeps [keeps]: "app_ok app \<Longrightarrow> wp (authorize w e argv app) second_ok"
  unfolding authorize_def by (intro wp_rules) auto

lemma forget_user_keeps [simp]: "app_ok (forget_user e app) = app_ok app"
  by (simp add: forget_user_def)

lemma execute_command_keeps [keeps]: "app_ok app \<Longrightarrow> wp (execute_command w parser e argv app) app_ok"
proof (induction w parser e argv app rule: execute_command.induct)
  case (1 w parser e argv app)
  show ?case
    unfolding execute_command.simps [of w parser e argv app] using 1
    by (intro wp_rules keeps) (auto dest: wpD [OF authorize_keeps, rotated])
qed

section \<open>The loop\<close>

lemma deselect_keeps [keeps]: "app_ok app \<Longrightarrow> wp (deselect app) app_ok"
  unfolding deselect_def by (intro keeps) simp

lemma get_play_list_keeps [keeps]: "app_ok app \<Longrightarrow> wp (get_play_list w app) app_ok"
  unfolding get_play_list_def by (intro wp_rules keeps) auto

lemma app_ok_freed: "app_ok app \<Longrightarrow>
    app_ok ((prepend_history s (app\<lparr>player := no_player, stall := no_stall\<rparr>))\<lparr>current_song := None\<rparr>)"
  by (simp add: app_ok_def prepend_history_def no_player_def)

lemma playback_cleanup_keeps [keeps]: "app_ok app \<Longrightarrow> wp (playback_cleanup ret app) app_ok"
  unfolding playback_cleanup_def by (intro wp_rules keeps) (auto intro: app_ok_freed)

lemma playback_start_keeps [keeps]: "app_ok app \<Longrightarrow> wp (playback_start w app) app_ok"
  unfolding playback_start_def by (intro wp_rules) (auto simp: app_ok_def new_player_def on_service_def split: option.split)


lemma greet_keeps [keeps]: "app_ok app \<Longrightarrow> wp (greet e app) app_ok"
  unfolding greet_def by (intro wp_rules keeps) auto

lemma run_service_keeps [keeps]: "app_ok app \<Longrightarrow> wp (run_service w parser ev app) app_ok"
  unfolding run_service_def
  by (cases ev) (auto intro!: keeps wp_bind_app simp: Let_def)

lemma change_piano_settings_keeps [keeps]: "app_ok app \<Longrightarrow> wp (change_piano_settings w app) app_ok"
  unfolding change_piano_settings_def by (intro wp_rules keeps) (auto intro!: app_ok_settings)

lemma refill_playlist_keeps [keeps]: "app_ok app \<Longrightarrow> wp (refill_playlist w app) app_ok"
  unfolding refill_playlist_def by (intro wp_rules keeps) auto

lemma track_stalls_keeps [simp]: "app_ok (track_stalls t r app) = app_ok app"
  by (simp add: track_stalls_def Let_def)

lemma users_persist_names: "users_persist env f us = Some (ok, us', ops) \<Longrightarrow> same_names us us'"
  by (auto simp: users_persist_def same_names_def bind_eq_Some_conv Let_def split: if_splits)

lemma check_player_status_keeps [keeps]: "app_ok app \<Longrightarrow> wp (check_player_status w env app) (\<lambda>x. app_ok (fst x))"
  unfolding check_player_status_def
  by (intro wp_rules keeps) (auto intro!: app_ok_users dest: users_persist_names)

lemma start_shoutcast_keeps [keeps]: "app_ok app \<Longrightarrow> wp (start_shoutcast w app) app_ok"
  unfolding start_shoutcast_def by (intro wp_rules) auto

lemma start_next_song_keeps [keeps]: "app_ok app \<Longrightarrow> wp (start_next_song w app) app_ok"
  unfolding start_next_song_def by (intro wp_rules keeps) auto

lemma idle_player_keeps [keeps]: "app_ok app \<Longrightarrow> wp (idle_player w app) app_ok"
  unfolding idle_player_def by (intro wp_rules keeps) (auto split: if_splits)

lemma before_events_keeps [keeps]: "app_ok app \<Longrightarrow> wp (before_events w env ret app) (\<lambda>x. app_ok (fst x))"
  unfolding before_events_def by (intro wp_rules keeps) auto

lemma after_events_keeps [simp]: "app_ok (after_events b app) = app_ok app"
  by (simp add: after_events_def)

lemma pianod_step_keeps: "app_ok app \<Longrightarrow> wp (pianod_step w parser env ret ev b app) (\<lambda>x. app_ok (fst x))"
  unfolding pianod_step_def by (intro wp_rules keeps) auto

lemma prepend_history_keeps_player: "player (prepend_history s app) = player app"
  by (simp add: prepend_history_def)

definition demo_persist_env :: persist_env where
  "demo_persist_env = \<lparr>new_opens = True, links = True, renames = True, direct_opens = True, bufsize = 4096, transfers = []\<rparr>"

section \<open>Everything the program does\<close>

text \<open>
  From \<open>app\<close> the program gets to the states below by passes of the loop, while the thread of the player moves on (it
  neither creates nor frees the player) and time passes.
\<close>

inductive pianod_run :: "world \<Rightarrow> fb_parser \<Rightarrow> appstate \<Rightarrow> appstate \<Rightarrow> bool" for w parser app where
  start: "pianod_run w parser app app"
| pass: "\<lbrakk>pianod_run w parser app b; pianod_step w parser env ret ev sig b = Some (c, ops)\<rbrakk> \<Longrightarrow> pianod_run w parser app c"
| player: "\<lbrakk>pianod_run w parser app b; mode (player b) = PLAYER_FREED \<longleftrightarrow> mode p = PLAYER_FREED\<rbrakk> \<Longrightarrow>
    pianod_run w parser app (b\<lparr>player := p\<rparr>)"
| time: "\<lbrakk>pianod_run w parser app b; now b \<le> t\<rbrakk> \<Longrightarrow> pianod_run w parser app (b\<lparr>now := t\<rparr>)"

lemma run_keeps: "\<lbrakk>pianod_run w parser a b; app_ok a\<rbrakk> \<Longrightarrow> app_ok b"
proof (induction rule: pianod_run.induct)
  case (pass b env ret ev sig c ops)
  then show ?case using wpD [OF pianod_step_keeps] by fastforce
next
  case (player b p)
  then show ?case by (simp add: app_ok_def)
qed auto

lemma demo_app_ok: "app_ok demo_app"
proof -
  have "unique_users (users demo_app)"
    by (simp add: demo_app_def unique_users_def demo_users1_def)
  then show ?thesis by (simp add: app_ok_def demo_app_def volume_bounds_def demo_settings_def no_player_def)
qed

text \<open>
  C24: The invariant of the whole program: whatever clients send, Pandora answers and the thread of the player does, the volume
  stays between -100 and 100, no two users have the same name, and a current song exists exactly while there is a
  player.
\<close>
theorem pianod_run_invariant:
  assumes "pianod_run w parser app app'" and "app_ok app"
  shows "volume_bounds (volume (settings app')) \<and> unique_users (users app')
    \<and> (current_song app' = None \<longleftrightarrow> mode (player app') = PLAYER_FREED)"
  using run_keeps [OF assms] by (simp add: app_ok_def)

theorem pianod_run_invariant_witness:
  "pianod_run demo_world fb_create_parser demo_app (demo_app\<lparr>service_running := False, now := 2000\<rparr>)
    \<and> volume_bounds (volume (settings (demo_app\<lparr>service_running := False, now := 2000\<rparr>)))
    \<and> unique_users (users (demo_app\<lparr>service_running := False, now := 2000\<rparr>))"
proof -
  have "pianod_step demo_world fb_create_parser demo_persist_env PLAYER_RET_OK FB_EVENT_STOPPED False demo_app
      = Some (demo_app\<lparr>service_running := False\<rparr>, [])"
    by (simp add: pianod_step_def before_events_def idle_player_def run_service_def after_events_def demo_app_def no_player_def
        less_eq_player_mode_def)
  then have 1: "pianod_run demo_world fb_create_parser demo_app (demo_app\<lparr>service_running := False\<rparr>)"
    by (rule pianod_run.pass [OF pianod_run.start])
  have "now (demo_app\<lparr>service_running := False\<rparr>) \<le> 2000" by (simp add: demo_app_def)
  from pianod_run.time [OF 1 this]
  have "pianod_run demo_world fb_create_parser demo_app (demo_app\<lparr>service_running := False, now := 2000\<rparr>)" by simp
  from pianod_run_invariant [OF this demo_app_ok] this show ?thesis by blast
qed

text \<open>
  C29: A finished song is always cleaned up: in every state the program can get to, when the player has finished, whatever its thread
  returned, the assertion of playback_cleanup holds, the player is gone afterwards, and the song is the
  newest of the history (cut to its length).
\<close>
theorem finished_song_cleaned_up:
  assumes "pianod_run w parser app app'" and "app_ok app" and "mode (player app') = PLAYER_FINISHED_PLAYBACK"
  shows "\<exists>song app''. current_song app' = Some song \<and> playback_cleanup ret app' = Some app''
    \<and> mode (player app'') = PLAYER_FREED \<and> current_song app'' = None
    \<and> song_history app'' = (if history_length (settings app') = 0 then song_history app'
        else take (history_length (settings app')) (song # song_history app'))"
proof -
  have "current_song app' \<noteq> None" using run_keeps [OF assms(1,2)] assms(3) by (simp add: app_ok_def)
  then obtain song where song: "current_song app' = Some song" by auto
  let ?finish = "\<lambda>app1. on_service (event_occurred EVENT_TRACK_ENDED S_OK)
    ((prepend_history song (app1\<lparr>player := no_player, stall := no_stall\<rparr>))\<lparr>current_song := None\<rparr>)"
  have "\<exists>app1. playback_cleanup ret app' = Some (?finish app1) \<and> settings app1 = settings app' \<and> song_history app1 = song_history app'"
    using song by (auto simp: playback_cleanup_def deselect_def send_selectedstation_def Let_def on_service_def)
  then show ?thesis
    using song by (auto simp: prepend_history_songs on_service_def no_player_def prepend_history_keeps_player)
qed

definition demo_finished :: appstate where
  "demo_finished = demo_app\<lparr>current_song := Some no_song, player := no_player\<lparr>mode := PLAYER_FINISHED_PLAYBACK\<rparr>\<rparr>"

theorem finished_song_cleaned_up_witness:
  "\<exists>app''. playback_cleanup PLAYER_RET_SOFTFAIL demo_finished = Some app''
    \<and> mode (player app'') = PLAYER_FREED \<and> song_history app'' = [no_song]"
proof -
  have "app_ok demo_finished" "mode (player demo_finished) = PLAYER_FINISHED_PLAYBACK"
    using demo_app_ok by (simp_all add: app_ok_def demo_finished_def)
  note finished_song_cleaned_up [OF pianod_run.start [of demo_world fb_create_parser] this, of PLAYER_RET_SOFTFAIL]
  moreover have "current_song demo_finished = Some no_song" "song_history demo_finished = []"
    "history_length (settings demo_finished) = 5"
    by (simp_all add: demo_finished_def demo_app_def demo_settings_def)
  ultimately show ?thesis by auto
qed

text \<open>
  The volume is set to what is asked and stays in its bounds: a number in decimal, however large, is taken exactly when it lies between -100
  and 100 and refused otherwise; up and down move the volume by one and are refused at the bounds; no other
  word moves it out of them.
\<close>
theorem new_volume_correct:
  assumes "volume_bounds v"
  shows "new_volume (show_int n) v = (if volume_bounds n then Inr n else Inl None)
    \<and> new_volume ''up'' v = (if v = 100 then Inl (Some ''Already at maximum volume'') else Inr (v + 1))
    \<and> new_volume ''down'' v = (if v = - 100 then Inl (Some ''Already at minimum volume'') else Inr (v - 1))
    \<and> (case new_volume word v of Inr v' \<Rightarrow> volume_bounds v' | Inl _ \<Rightarrow> True)"
proof -
  have "strcasecmp (show_int n) ''up'' \<noteq> 0" "strcasecmp (show_int n) ''down'' \<noteq> 0"
    by (rule number_not_word; simp add: to_lower_def)+
  then have "new_volume (show_int n) v = (if volume_bounds n then Inr n else Inl None)"
    by (auto simp: new_volume_def strtol_show_int clamp_long_def LONG_MAX_def volume_bounds_def)
  moreover have "strcasecmp ''down'' ''up'' \<noteq> 0" "strcasecmp ''up'' ''up'' = 0" "strcasecmp ''down'' ''down'' = 0"
    by code_simp+
  ultimately show ?thesis
    using assms new_volume_bounds [of v word] by (auto simp: new_volume_def volume_bounds_def split: sum.split)
qed

theorem new_volume_correct_witness: "new_volume ''99999999999999999999'' 7 = Inl None \<and> new_volume ''up'' 7 = Inr 8"
proof -
  have nine: "char_of (57 :: nat) = CHR ''9''" by code_simp
  have n: "show_int 99999999999999999999 = ''99999999999999999999''"
    using nine by (simp add: show_int_def show_nat.simps)
  have v: "volume_bounds 7" by (simp add: volume_bounds_def)
  show ?thesis
    using new_volume_correct [OF v, of 99999999999999999999] by (simp add: n volume_bounds_def)
qed

end
