(* ===== verification/WaitressHttp.thy ===== *)
theory WaitressHttp
  imports Waitress "HOL-Library.Monad_Syntax"
begin

text \<open>
  The HTTP client of libwaitress (\<open>src/src/libwaitress/waitress.c\<close>): connecting, the request, the headers of the response, and
  its body, which is plain or in chunks.

  The network is what the calls of the operating system give: the outcomes of connecting to each address, of the writes, and what
  each read returns.  The TLS libraries are a parameter (the outcome of the handshake and of the check of the certificate).
  \<open>None\<close> is a failed assertion or a write behind the end of a buffer.
\<close>

section \<open>Handle and network\<close>

datatype chunked_state = CHUNKSIZE | DATA

text \<open>The part of the handle that lives for one request; \<open>chunked\<close> tells which data handler is set, \<open>is_secure\<close> whether the
  functions that read and write are those of TLS, \<open>connected\<close> whether there is a socket.\<close>

record request =
  contentLength :: "64 word"
  contentReceived :: "64 word"
  chunkSize :: "64 word"
  contentLengthKnown :: bool
  chunkedState :: chunked_state
  chunked :: bool
  is_secure :: bool
  connected :: bool

text \<open>\<open>callback\<close> takes the bytes and its data, and says whether to go on.\<close>

record 'd http_handle =
  post :: bool
  extraHeaders :: "string option"
  postData :: "string option"
  cb_data :: 'd
  callback :: "string \<Rightarrow> 'd \<Rightarrow> bool \<times> 'd"
  h_url :: waitress_url
  h_tls :: bool
  h_tlsPort :: "string option"
  h_proxy :: waitress_url
  request :: request

definition WAITRESS_BUFFER_SIZE :: nat where
  "WAITRESS_BUFFER_SIZE = 10 * 1024"

text \<open>
  What a read finds: bytes, of which it takes at most what it asks for, or a failure; after the last of them the connection
  is closed.  A write may take less than it is given.
\<close>

datatype net_read = Got string | Read_timeout | Read_poll_fails | Read_fails

datatype net_write = Wrote nat | Write_timeout | Write_fails

text \<open>\<open>writes\<close> are the outcomes of the next writes (all is taken when it is empty), \<open>sent\<close> the bytes that went out.\<close>

record net =
  reads :: "net_read list"
  writes :: "net_write list"
  sent :: string

text \<open>WaitressOrdinaryRead, and WaitressTlsRead once the connection is secure.\<close>

fun read_failure :: "bool \<Rightarrow> net_read \<Rightarrow> int" where
  "read_failure True _ = WAITRESS_RET_TLS_READ_ERR"
| "read_failure False Read_timeout = WAITRESS_RET_TIMEOUT"
| "read_failure False Read_poll_fails = WAITRESS_RET_ERR"
| "read_failure False _ = WAITRESS_RET_READ_ERR"

fun take_read :: "bool \<Rightarrow> nat \<Rightarrow> net_read list \<Rightarrow> int \<times> string \<times> net_read list" where
  "take_read secure count [] = (WAITRESS_RET_OK, [], [])"
| "take_read secure count (Got s # rest) =
    (if length s \<le> count then (WAITRESS_RET_OK, s, rest) else (WAITRESS_RET_OK, take count s, Got (drop count s) # rest))"
| "take_read secure count (failure # rest) = (read_failure secure failure, [], rest)"

definition write_failure :: "bool \<Rightarrow> net_write \<Rightarrow> int" where
  "write_failure secure w = (if secure then WAITRESS_RET_TLS_WRITE_ERR
    else if w = Write_timeout then WAITRESS_RET_TIMEOUT else WAITRESS_RET_ERR)"

text \<open>The WRITE_RETs of a function in a row: the first failure ends it.  What a short write leaves over is not sent.\<close>

fun write_all :: "bool \<Rightarrow> string list \<Rightarrow> net \<Rightarrow> int \<times> net" where
  "write_all secure [] net = (WAITRESS_RET_OK, net)"
| "write_all secure (s # rest) net = (case writes net of
      [] \<Rightarrow> write_all secure rest (net\<lparr>sent := sent net @ s\<rparr>)
    | Wrote n # ws \<Rightarrow> write_all secure rest (net\<lparr>sent := sent net @ take n s, writes := ws\<rparr>)
    | failure # ws \<Rightarrow> (write_failure secure failure, net\<lparr>writes := ws\<rparr>))"

section \<open>Texts\<close>

definition crlf :: string where
  "crlf = [CHR 0x0D, CHR 0x0A]"

definition WaitressProxyEnabled :: "'d http_handle \<Rightarrow> bool" where
  "WaitressProxyEnabled h = (url_host (h_proxy h) \<noteq> None)"

text \<open>\<open>%s\<close> of a pointer that may be NULL.\<close>

definition or_null :: "string option \<Rightarrow> string" where
  "or_null s = (case s of Some t \<Rightarrow> t | None \<Rightarrow> ''(null)'')"

definition WaitressFormatAuthorization :: "waitress_url \<Rightarrow> string \<Rightarrow> nat \<Rightarrow> string option" where
  "WaitressFormatAuthorization url pre writeBufSize = (case url_user url of
      None \<Rightarrow> None
    | Some u \<Rightarrow>
        let userPass = snprintf 1024 (u @ '':'' @ (case url_password url of Some p \<Rightarrow> p | None \<Rightarrow> []));
          encodedUserPass = WaitressBase64Encode (bytes_of userPass)
        in Some (snprintf writeBufSize (pre @ ''Authorization: Basic '' @ encodedUserPass @ crlf)))"

definition WaitressDefaultPort :: "bool \<Rightarrow> string option \<Rightarrow> waitress_url \<Rightarrow> string" where
  "WaitressDefaultPort tls tlsPort url =
    (if tls then (case tlsPort of None \<Rightarrow> ''443'' | Some p \<Rightarrow> p)
     else (case url_port url of None \<Rightarrow> ''80'' | Some p \<Rightarrow> p))"

definition url_default_port :: "'d http_handle \<Rightarrow> string" where
  "url_default_port h = WaitressDefaultPort (h_tls h) (h_tlsPort h) (h_url h)"

text \<open>strchr stops at the NUL behind the text; the line ends there for the caller.\<close>

definition WaitressGetline :: "string \<Rightarrow> (string \<times> string) option" where
  "WaitressGetline s = (
    let line = takeWhile (\<lambda>c. c \<noteq> CHR 0x00 \<and> c \<noteq> CHR 0x0A) s
    in (case drop (length line) s of
        c # next_line \<Rightarrow>
          if c = CHR 0x0A then
            Some (if line \<noteq> [] \<and> last line = CHR 0x0D then butlast line else line, next_line)
          else None
      | [] \<Rightarrow> None))"

section \<open>Handlers of the body\<close>

datatype handler_return = WAITRESS_HANDLER_CONTINUE | WAITRESS_HANDLER_DONE | WAITRESS_HANDLER_ERR | WAITRESS_HANDLER_ABORTED

definition on_request :: "(request \<Rightarrow> request) \<Rightarrow> 'd http_handle \<Rightarrow> 'd http_handle" where
  "on_request f h = h\<lparr>request := f (request h)\<rparr>"

definition WaitressHandleIdentity :: "string \<Rightarrow> 'd http_handle \<Rightarrow> handler_return \<times> 'd http_handle" where
  "WaitressHandleIdentity buf h = (
    let h = on_request (\<lambda>r. r\<lparr>contentReceived := contentReceived r + word_of_nat (length buf)\<rparr>) h;
      (ok, d) = callback h buf (cb_data h)
    in (if ok then WAITRESS_HANDLER_CONTINUE else WAITRESS_HANDLER_ABORTED, h\<lparr>cb_data := d\<rparr>))"

text \<open>A hexadecimal digit; upper case letters are not known.\<close>

definition chunk_digit :: "char \<Rightarrow> (64 word) option" where
  "chunk_digit c = (let n = (of_char c :: nat) in
    if 48 \<le> n \<and> n \<le> 57 then Some (word_of_nat n AND 0xf)
    else if 97 \<le> n \<and> n \<le> 102 then Some ((word_of_nat n + 9) AND 0xf)
    else None)"

function WaitressHandleChunked :: "string \<Rightarrow> 'd http_handle \<Rightarrow> handler_return \<times> 'd http_handle" where
  "WaitressHandleChunked [] h = (WAITRESS_HANDLER_CONTINUE, h)"
| "WaitressHandleChunked (c # buf) h = (case chunkedState (request h) of
      CHUNKSIZE \<Rightarrow> (case chunk_digit c of
          Some d \<Rightarrow> WaitressHandleChunked buf (on_request (\<lambda>r. r\<lparr>chunkSize := push_bit 4 (chunkSize r) OR d\<rparr>) h)
        | None \<Rightarrow>
            if c = CHR 0x0D then WaitressHandleChunked buf h
            else if c = CHR 0x0A then
              (let h = on_request (chunkedState_update (\<lambda>_. DATA)) h
               in if chunkSize (request h) = 0 then (WAITRESS_HANDLER_DONE, h) else WaitressHandleChunked buf h)
            else (WAITRESS_HANDLER_ERR, h))
    | DATA \<Rightarrow>
        if chunkSize (request h) > 0 then
          (let payloadSize = min (length (c # buf)) (unat (chunkSize (request h)));
             (ret, h) = WaitressHandleIdentity (take payloadSize (c # buf)) h
           in if ret = WAITRESS_HANDLER_ABORTED then (WAITRESS_HANDLER_ABORTED, h)
             else WaitressHandleChunked (drop payloadSize (c # buf))
               (on_request (\<lambda>r. r\<lparr>chunkSize := chunkSize r - word_of_nat payloadSize\<rparr>) h))
        else WaitressHandleChunked buf
          (if c = CHR 0x0A then on_request (chunkedState_update (\<lambda>_. CHUNKSIZE)) h else h))"
  by pat_completeness auto
termination
proof (relation "measure (\<lambda>(buf, h). length buf)", goal_cases)
  case (5 c buf h p x ret h')
  then have "unat (chunkSize (request h)) > 0" by (simp add: unat_gt_0)
  then show ?case using 5 by auto
qed auto

declare WaitressHandleChunked.simps [simp del]

definition data_handler :: "string \<Rightarrow> 'd http_handle \<Rightarrow> handler_return \<times> 'd http_handle" where
  "data_handler buf h = (if chunked (request h) then WaitressHandleChunked buf h else WaitressHandleIdentity buf h)"

section \<open>Headers of the response\<close>

definition atol :: "string \<Rightarrow> int" where
  "atol s = fst (strtol 10 s)"

definition WaitressHandleHeader :: "string \<Rightarrow> string \<Rightarrow> 'd http_handle \<Rightarrow> 'd http_handle" where
  "WaitressHandleHeader key value h =
    (if strcasecmp key ''Content-Length'' = 0 then
       on_request (\<lambda>r. r\<lparr>contentLength := word_of_int (atol value), contentLengthKnown := True\<rparr>) h
     else if strcasecmp key ''Transfer-Encoding'' = 0 then
       (if strcasecmp value ''chunked'' = 0 then on_request (chunked_update (\<lambda>_. True)) h else h)
     else h)"

definition decimal :: "char \<Rightarrow> bool" where
  "decimal c = (digit_value c < 10)"

text \<open>sscanf with \<open>HTTP/1.%*1[0-9] %3[0-9] \<close>.\<close>

definition WaitressParseStatusline :: "string \<Rightarrow> int" where
  "WaitressParseStatusline line =
    (if has_prefix ''HTTP/1.'' line then (case drop 7 line of
         d # r \<Rightarrow>
           if decimal d then
             (let status = takeWhile decimal (take 3 (dropWhile is_space r))
              in if status = [] then - 1 else atoi status)
           else - 1
       | [] \<Rightarrow> - 1)
     else - 1)"

datatype hdr_mode = HDRM_HEAD | HDRM_LINES | HDRM_FINISHED

definition status_result :: "int \<Rightarrow> int \<times> hdr_mode" where
  "status_result status =
    (if status = 200 \<or> status = 206 then (WAITRESS_RET_OK, HDRM_LINES)
     else if status = 400 then (WAITRESS_RET_BAD_REQUEST, HDRM_HEAD)
     else if status = 403 then (WAITRESS_RET_FORBIDDEN, HDRM_HEAD)
     else if status = 404 then (WAITRESS_RET_NOTFOUND, HDRM_HEAD)
     else if status = - 1 then (WAITRESS_RET_OK, HDRM_HEAD)
     else (WAITRESS_RET_STATUS_UNKNOWN, HDRM_HEAD))"

definition header_line :: "hdr_mode \<Rightarrow> string \<Rightarrow> 'd http_handle \<Rightarrow> int \<times> hdr_mode \<times> 'd http_handle" where
  "header_line mode line h = (case mode of
      HDRM_HEAD \<Rightarrow> (let (ret, mode) = status_result (WaitressParseStatusline line) in (ret, mode, h))
    | HDRM_LINES \<Rightarrow>
        if line = [] then (WAITRESS_RET_OK, HDRM_FINISHED, h)
        else (case dropWhile (\<lambda>c. c \<noteq> CHR '':'') line of
            _ # val \<Rightarrow> (WAITRESS_RET_OK, HDRM_LINES,
              WaitressHandleHeader (takeWhile (\<lambda>c. c \<noteq> CHR '':'') line) (dropWhile is_space val) h)
          | [] \<Rightarrow> (WAITRESS_RET_OK, HDRM_LINES, h))
    | HDRM_FINISHED \<Rightarrow> (WAITRESS_RET_OK, HDRM_FINISHED, h))"

lemma getline_shorter: "WaitressGetline s = Some (line, rest) \<Longrightarrow> length rest < length s"
  by (auto simp: WaitressGetline_def Let_def split: list.splits if_splits dest!: arg_cong [where f = length])

text \<open>The loop over the lines there are; the result has what is left of the buffer.\<close>

function header_lines :: "hdr_mode \<Rightarrow> string \<Rightarrow> 'd http_handle \<Rightarrow> int \<times> hdr_mode \<times> string \<times> 'd http_handle" where
  "header_lines mode buf h =
    (if mode = HDRM_FINISHED then (WAITRESS_RET_OK, mode, buf, h)
     else (case WaitressGetline buf of
         None \<Rightarrow> (WAITRESS_RET_OK, mode, buf, h)
       | Some (line, next_line) \<Rightarrow>
           (case header_line mode line h of (ret, mode, h) \<Rightarrow>
             if ret \<noteq> WAITRESS_RET_OK then (ret, mode, next_line, h)
             else header_lines mode next_line h)))"
  by pat_completeness auto
termination
  by (relation "measure (\<lambda>(mode, buf, h). length buf)") (auto dest: getline_shorter)

declare header_lines.simps [simp del]

definition reads_size :: "net_read list \<Rightarrow> nat" where
  "reads_size rs = sum_list (map (\<lambda>r. case r of Got s \<Rightarrow> length s + 1 | _ \<Rightarrow> 1) rs)"

lemma take_read_smaller:
  "\<lbrakk>take_read secure count rs = (ret, s, rs'); s \<noteq> []\<rbrakk> \<Longrightarrow> reads_size rs' < reads_size rs"
  by (cases "(secure, count, rs)" rule: take_read.cases) (auto simp: reads_size_def split: if_splits)

text \<open>The loop of WaitressReceiveHeaders; a buffer that is full of a line without an end reads nothing more.\<close>

function receive_headers :: "hdr_mode \<Rightarrow> string \<Rightarrow> net_read list \<Rightarrow> 'd http_handle \<Rightarrow>
    int \<times> string \<times> net_read list \<times> 'd http_handle" where
  "receive_headers mode buf rs h = (case take_read (is_secure (request h)) (WAITRESS_BUFFER_SIZE - 1 - length buf) rs of (ret, s, rs') \<Rightarrow>
    if ret \<noteq> WAITRESS_RET_OK then (ret, buf, rs', h)
    else if s = [] then (WAITRESS_RET_CONNECTION_CLOSED, buf, rs', h)
    else (case header_lines mode (buf @ s) h of (ret, mode, buf, h) \<Rightarrow>
      if ret \<noteq> WAITRESS_RET_OK then (ret, buf, rs', h)
      else if mode = HDRM_FINISHED then (WAITRESS_RET_OK, buf, rs', h)
      else receive_headers mode buf rs' h))"
  by pat_completeness auto
termination
  by (relation "measure (\<lambda>(mode, buf, rs, h). reads_size rs)") (auto dest: take_read_smaller [OF sym])

declare receive_headers.simps [simp del]

definition WaitressReceiveHeaders :: "net_read list \<Rightarrow> 'd http_handle \<Rightarrow> int \<times> string \<times> net_read list \<times> 'd http_handle" where
  "WaitressReceiveHeaders rs h = receive_headers HDRM_HEAD [] rs h"

section \<open>The whole response\<close>

function receive_body :: "string \<Rightarrow> net_read list \<Rightarrow> 'd http_handle \<Rightarrow> int \<times> net_read list \<times> 'd http_handle" where
  "receive_body buf rs h = (case data_handler buf h of
      (WAITRESS_HANDLER_DONE, h) \<Rightarrow> (WAITRESS_RET_OK, rs, h)
    | (WAITRESS_HANDLER_ERR, h) \<Rightarrow> (WAITRESS_RET_DECODING_ERR, rs, h)
    | (WAITRESS_HANDLER_ABORTED, h) \<Rightarrow> (WAITRESS_RET_CB_ABORT, rs, h)
    | (WAITRESS_HANDLER_CONTINUE, h) \<Rightarrow>
        if contentLengthKnown (request h) \<and> contentReceived (request h) \<ge> contentLength (request h)
        then (WAITRESS_RET_OK, rs, h)
        else (case take_read (is_secure (request h)) (WAITRESS_BUFFER_SIZE - 1) rs of (ret, s, rs') \<Rightarrow>
          if ret \<noteq> WAITRESS_RET_OK then (ret, rs', h)
          else if s = [] then (WAITRESS_RET_OK, rs', h)
          else receive_body s rs' h))"
  by pat_completeness auto
termination
  by (relation "measure (\<lambda>(buf, rs, h). reads_size rs)") (auto dest: take_read_smaller [OF sym])

declare receive_body.simps [simp del]

definition WaitressReceiveResponse :: "net_read list \<Rightarrow> 'd http_handle \<Rightarrow> int \<times> net_read list \<times> 'd http_handle" where
  "WaitressReceiveResponse rs h = (case WaitressReceiveHeaders rs h of (ret, buf, rs', h) \<Rightarrow>
    if ret \<noteq> WAITRESS_RET_OK then (ret, rs', h) else receive_body buf rs' h)"

section \<open>Connecting\<close>

text \<open>The outcome of one round of the loop over the addresses.\<close>

datatype address_try = Socket_fails | Connect_fails | Connect_times_out | Connect_poll_fails | Connect_refused | Connect_works

text \<open>
  The last return value and whether there is a socket.  When connect fails at once the loop goes on with the return value OK it began with.
\<close>

fun try_addresses :: "int option \<Rightarrow> address_try list \<Rightarrow> int option \<times> bool" where
  "try_addresses ret [] = (ret, False)"
| "try_addresses ret (a # rest) = (case a of
      Socket_fails \<Rightarrow> try_addresses (Some WAITRESS_RET_SOCK_ERR) rest
    | Connect_fails \<Rightarrow> try_addresses (Some WAITRESS_RET_OK) rest
    | Connect_times_out \<Rightarrow> try_addresses (Some WAITRESS_RET_TIMEOUT) rest
    | Connect_poll_fails \<Rightarrow> try_addresses (Some WAITRESS_RET_ERR) rest
    | Connect_refused \<Rightarrow> try_addresses (Some WAITRESS_RET_CONNECT_REFUSED) rest
    | Connect_works \<Rightarrow> (Some WAITRESS_RET_OK, True))"

text \<open>A write without a socket fails the assertion of WaitressPollLoop.\<close>

definition write_rets :: "string list \<Rightarrow> 'd http_handle \<Rightarrow> net \<Rightarrow> (int \<times> net) option" where
  "write_rets texts h net = (if texts \<noteq> [] \<and> \<not> connected (request h) then None
    else Some (write_all (is_secure (request h)) texts net))"

definition CONNECT_BUFFER_SIZE :: nat where
  "CONNECT_BUFFER_SIZE = 256"

text \<open>The tunnel through a proxy.  The authorization is formatted into a buffer of 256 bytes as if it had 10240.\<close>

definition proxy_tunnel :: "net \<Rightarrow> 'd http_handle \<Rightarrow> (int \<times> net \<times> 'd http_handle) option" where
  "proxy_tunnel net h = do {
    let target = or_null (url_host (h_url h)) @ '':'' @ url_default_port h;
    (ret, net) \<leftarrow> write_rets [snprintf CONNECT_BUFFER_SIZE (''CONNECT '' @ target @ '' HTTP/1.1'' @ crlf
      @ ''Host: '' @ target @ crlf @ ''Proxy-Connection: close'' @ crlf)] h net;
    let auth = (case WaitressFormatAuthorization (h_proxy h) ''Proxy-'' WAITRESS_BUFFER_SIZE of Some a \<Rightarrow> [a] | None \<Rightarrow> []);
    (if ret \<noteq> WAITRESS_RET_OK then Some (ret, net, h)
     else if list_ex (\<lambda>a. length a \<ge> CONNECT_BUFFER_SIZE) auth then None
     else do {
       (ret, net) \<leftarrow> write_rets (auth @ [crlf]) h net;
       (if ret \<noteq> WAITRESS_RET_OK then Some (ret, net, h)
        else (case WaitressReceiveHeaders (reads net) h of (ret, _, rs, h) \<Rightarrow> Some (ret, net\<lparr>reads := rs\<rparr>, h)))
     })
  }"

text \<open>
  \<open>lookup\<close> is what getaddrinfo gives, and then each address; \<open>tls_ret\<close> the result of the handshake and the check of
  the certificate.
\<close>

definition WaitressConnect :: "address_try list option \<Rightarrow> int \<Rightarrow> net \<Rightarrow> 'd http_handle \<Rightarrow> (int \<times> net \<times> 'd http_handle) option" where
  "WaitressConnect lookup tls_ret net h = (case lookup of
      None \<Rightarrow> Some (WAITRESS_RET_GETADDR_ERR, net, h)
    | Some addresses \<Rightarrow> do {
        let (ret, socket) = try_addresses None addresses;
        ret \<leftarrow> ret;
        let h = on_request (connected_update (\<lambda>_. socket)) h;
        (if ret \<noteq> WAITRESS_RET_OK then Some (ret, net, h)
         else if h_tls h then do {
           (ret, net, h) \<leftarrow> (if WaitressProxyEnabled h then proxy_tunnel net h else Some (WAITRESS_RET_OK, net, h));
           (if ret \<noteq> WAITRESS_RET_OK then Some (ret, net, h)
            else if \<not> socket then None
            else if tls_ret \<noteq> WAITRESS_RET_OK then Some (tls_ret, net, h)
            else Some (WAITRESS_RET_OK, net, on_request (is_secure_update (\<lambda>_. True)) h))
         }
         else Some (WAITRESS_RET_OK, net, h))
      })"

section \<open>The request\<close>

definition method_name :: "'d http_handle \<Rightarrow> string" where
  "method_name h = (if post h then ''POST'' else ''GET'')"

definition request_path :: "'d http_handle \<Rightarrow> string" where
  "request_path h = (case url_path (h_url h) of
      None \<Rightarrow> []
    | Some p \<Rightarrow> if p \<noteq> [] \<and> hd p = CHR ''/'' then tl p else p)"

definition request_head :: "'d http_handle \<Rightarrow> string" where
  "request_head h = (
    let host = or_null (url_host (h_url h));
      common = '' HTTP/1.1'' @ crlf @ ''Host: '' @ host @ crlf @ ''User-Agent: libwaitress'' @ crlf @ ''Connection: Close'' @ crlf
    in snprintf WAITRESS_BUFFER_SIZE
      (if WaitressProxyEnabled h \<and> \<not> h_tls h
       then method_name h @ '' http://'' @ host @ '':'' @ url_default_port h @ ''/'' @ request_path h @ common
       else method_name h @ '' /'' @ request_path h @ common))"

definition opt_list :: "'a option \<Rightarrow> 'a list" where
  "opt_list x = (case x of Some a \<Rightarrow> [a] | None \<Rightarrow> [])"

definition post_body :: "'d http_handle \<Rightarrow> string option" where
  "post_body h = (if post h then postData h else None)"

text \<open>What the WRITE_RETs write, in order.\<close>

definition request_texts :: "'d http_handle \<Rightarrow> string list" where
  "request_texts h = [request_head h]
    @ opt_list (map_option (\<lambda>d. snprintf WAITRESS_BUFFER_SIZE (''Content-Length: '' @ show_nat (length d) @ crlf)) (post_body h))
    @ opt_list (WaitressFormatAuthorization (h_url h) [] WAITRESS_BUFFER_SIZE)
    @ (if h_tls h then [] else opt_list (WaitressFormatAuthorization (h_proxy h) ''Proxy-'' WAITRESS_BUFFER_SIZE))
    @ opt_list (extraHeaders h)
    @ [crlf]
    @ opt_list (post_body h)"

definition WaitressSendRequest :: "net \<Rightarrow> 'd http_handle \<Rightarrow> (int \<times> net) option" where
  "WaitressSendRequest net h = write_rets (request_texts h) h net"

section \<open>Fetching\<close>

definition no_request :: request where
  "no_request = \<lparr>contentLength = 0, contentReceived = 0, chunkSize = 0, contentLengthKnown = False,
    chunkedState = CHUNKSIZE, chunked = False, is_secure = False, connected = False\<rparr>"

definition WaitressFetchCall :: "address_try list option \<Rightarrow> int \<Rightarrow> net \<Rightarrow> 'd http_handle \<Rightarrow> (int \<times> net \<times> 'd http_handle) option" where
  "WaitressFetchCall lookup tls_ret net h = do {
    (ret, net, h) \<leftarrow> WaitressConnect lookup tls_ret net (h\<lparr>request := no_request\<rparr>);
    (ret, net, h) \<leftarrow> (if ret \<noteq> WAITRESS_RET_OK then Some (ret, net, h)
      else do {
        (ret, net) \<leftarrow> WaitressSendRequest net h;
        (if ret \<noteq> WAITRESS_RET_OK then Some (ret, net, h)
         else (case WaitressReceiveResponse (reads net) h of (ret, rs, h) \<Rightarrow> Some (ret, net\<lparr>reads := rs\<rparr>, h)))
      });
    Some (if ret = WAITRESS_RET_OK \<and> contentReceived (request h) < contentLength (request h)
      then WAITRESS_RET_PARTIAL_FILE else ret, net, h)
  }"

text \<open>The callback that collects the bytes; malloc is assumed to find memory.\<close>

definition WaitressFetchBufCb :: "string \<Rightarrow> string option \<Rightarrow> bool \<times> string option" where
  "WaitressFetchBufCb recvData buffer = (True, Some (case buffer of None \<Rightarrow> recvData | Some t \<Rightarrow> t @ recvData))"

definition WaitressFetchBuf :: "address_try list option \<Rightarrow> int \<Rightarrow> net \<Rightarrow> string option http_handle \<Rightarrow>
    (int \<times> string option \<times> net) option" where
  "WaitressFetchBuf lookup tls_ret net h = do {
    (ret, net, h) \<leftarrow> WaitressFetchCall lookup tls_ret net (h\<lparr>cb_data := None, callback := WaitressFetchBufCb\<rparr>);
    Some (ret, cb_data h, net)
  }"

end
