(* ===== verification/ThreadQueue.thy ===== *)
theory ThreadQueue
  imports Prelude
begin

text \<open>
  The message queue between the player thread and the Shoutcast thread,
  \<open>src/src/threadqueue.c\<close>.

  A node of the linked list is a \<open>threadmsg\<close>; the list from \<open>first\<close> to \<open>last\<close> and the pool of
  spare nodes are HOL lists, so that \<open>last == NULL\<close> is \<open>first == NULL\<close> by construction, while the counters
  \<open>length\<close> and \<open>msgpool_length\<close>, which the C code keeps apart from the lists, stay fields of their own.
  Every operation runs under the queue's mutex and is one atomic step here.  Waiting on the condition
  variable is an argument: the list of events a waiter sees, each a wake-up with the queue as it
  is then, or a time-out.

  \<open>queue_wf\<close> is the invariant, \<open>fifo\<close> the contract, and the interpretation at the end shows that
  the queue keeps it.
\<close>

section \<open>State\<close>

record 'd threadmsg =
  data :: "'d option"
  msgtype :: int
  qlength :: int

record 'd threadqueue =
  length_of :: int
  msgs :: "'d threadmsg list"
  msgpool :: "'d threadmsg list"
  msgpool_length :: int

definition MSGPOOL_SIZE :: int where
  "MSGPOOL_SIZE = 32"

datatype tq_error = EINVAL | ENOMEM | ETIMEDOUT | ESYS int

section \<open>Operations\<close>

definition blank_msg :: "'d threadmsg" where
  "blank_msg = \<lparr>data = None, msgtype = 0, qlength = 0\<rparr>"

text \<open>\<open>malloc_ok\<close> says whether malloc finds memory when the pool is empty.\<close>

definition get_msglist :: "bool \<Rightarrow> 'd threadqueue \<Rightarrow> 'd threadmsg option \<times> 'd threadqueue" where
  "get_msglist malloc_ok queue = (case msgpool queue of
      tmp # rest \<Rightarrow>
        (Some tmp, queue\<lparr>msgpool := rest, msgpool_length := msgpool_length queue - 1\<rparr>)
    | [] \<Rightarrow> (if malloc_ok then Some blank_msg else None, queue))"

definition release_msglist :: "'d threadmsg \<Rightarrow> 'd threadqueue \<Rightarrow> 'd threadqueue" where
  "release_msglist node queue =
    (if msgpool_length queue + length_of queue < MSGPOOL_SIZE
     then queue\<lparr>msgpool := node\<lparr>data := None, msgtype := 0\<rparr> # msgpool queue,
                msgpool_length := msgpool_length queue + 1\<rparr>
     else queue)"

text \<open>\<open>cond_ret\<close> and \<open>mutex_ret\<close> are the results of the two pthread initialisers.\<close>

definition thread_queue_init :: "int \<Rightarrow> int \<Rightarrow> tq_error + 'd threadqueue" where
  "thread_queue_init cond_ret mutex_ret =
    (if cond_ret \<noteq> 0 then Inl (ESYS cond_ret)
     else if mutex_ret \<noteq> 0 then Inl (ESYS mutex_ret)
     else Inr \<lparr>length_of = 0, msgs = [], msgpool = [], msgpool_length = 0\<rparr>)"

definition thread_queue_add ::
    "bool \<Rightarrow> 'd option \<Rightarrow> int \<Rightarrow> 'd threadqueue \<Rightarrow> (tq_error + bool) \<times> 'd threadqueue" where
  "thread_queue_add malloc_ok d mtype queue = (case get_msglist malloc_ok queue of
      (None, queue) \<Rightarrow> (Inl ENOMEM, queue)
    | (Some newmsg, queue) \<Rightarrow>
        let newmsg = newmsg\<lparr>data := d, msgtype := mtype\<rparr>;
            queue = queue\<lparr>msgs := msgs queue @ [newmsg]\<rparr>;
            signalled = (length_of queue = 0)
        in (Inr signalled, queue\<lparr>length_of := length_of queue + 1\<rparr>))"

text \<open>
  What a thread blocked in \<open>pthread_cond_timedwait\<close> may see: the deadline, or a wake-up (spurious or not)
  with the queue as other threads left it.
\<close>

datatype 'd queue_event = Timeout "'d threadqueue" | Wakeup "'d threadqueue"

fun wait_for_message ::
    "'d threadqueue \<Rightarrow> 'd queue_event list \<Rightarrow> (tq_error + unit) option \<times> 'd threadqueue" where
  "wait_for_message queue evs = (if msgs queue \<noteq> [] then (Some (Inr ()), queue) else (case evs of
      [] \<Rightarrow> (None, queue)
    | Timeout queue' # _ \<Rightarrow> (Some (Inl ETIMEDOUT), queue')
    | Wakeup queue' # evs' \<Rightarrow> wait_for_message queue' evs'))"

declare wait_for_message.simps [simp del]

definition take_message :: "'d threadqueue \<Rightarrow> 'd threadmsg \<times> 'd threadqueue" where
  "take_message queue = (
    let firstrec = hd (msgs queue);
        queue = queue\<lparr>msgs := tl (msgs queue), length_of := length_of queue - 1\<rparr>;
        queue = (if msgs queue = [] then queue\<lparr>length_of := 0\<rparr> else queue);
        msg = \<lparr>data = data firstrec, msgtype = msgtype firstrec, qlength = length_of queue\<rparr>
    in (msg, release_msglist firstrec queue))"

text \<open>The outer \<open>None\<close>: the caller is still waiting when the events run out.\<close>

definition thread_queue_get ::
    "'d threadqueue \<Rightarrow> 'd queue_event list \<Rightarrow> (tq_error + 'd threadmsg) option \<times> 'd threadqueue" where
  "thread_queue_get queue evs = (case wait_for_message queue evs of
      (None, queue) \<Rightarrow> (None, queue)
    | (Some (Inl e), queue) \<Rightarrow> (Some (Inl e), queue)
    | (Some (Inr _), queue) \<Rightarrow>
        let (msg, queue) = take_message queue in (Some (Inr msg), queue))"

definition thread_queue_length :: "'d threadqueue \<Rightarrow> int" where
  "thread_queue_length queue = length_of queue"

text \<open>
  Cleanup frees every node, and every message's data when asked; the model returns the data that is freed.
  The C code leaves the pointers and counters as they are, so the queue must be initialised again before use.
\<close>

definition thread_queue_cleanup :: "bool \<Rightarrow> 'd threadqueue \<Rightarrow> 'd list" where
  "thread_queue_cleanup freedata queue =
    (if freedata then List.map_filter data (msgs queue @ msgpool queue) else [])"

section \<open>Invariant\<close>

definition queue_wf :: "'d threadqueue \<Rightarrow> bool" where
  "queue_wf queue \<longleftrightarrow>
    length_of queue = int (length (msgs queue)) \<and>
    msgpool_length queue = int (length (msgpool queue)) \<and>
    msgpool_length queue \<le> MSGPOOL_SIZE \<and>
    (\<forall>m \<in> set (msgpool queue). data m = None)"

definition contents :: "'d threadqueue \<Rightarrow> ('d option \<times> int) list" where
  "contents queue = map (\<lambda>m. (data m, msgtype m)) (msgs queue)"

lemma init_wf: "thread_queue_init c m = Inr q \<Longrightarrow> queue_wf q \<and> contents q = []"
  by (auto simp: thread_queue_init_def queue_wf_def contents_def MSGPOOL_SIZE_def split: if_splits)

lemma get_msglist_wf:
  "\<lbrakk>queue_wf q; get_msglist ok q = (r, q')\<rbrakk> \<Longrightarrow>
    queue_wf q' \<and> msgs q' = msgs q \<and> length_of q' = length_of q"
  by (auto simp: get_msglist_def queue_wf_def split: list.splits)

lemma release_msglist_wf:
  "queue_wf q \<Longrightarrow> queue_wf (release_msglist n q)"
  by (auto simp: release_msglist_def queue_wf_def)

lemma release_msglist_fields [simp]:
  "msgs (release_msglist n q) = msgs q" "length_of (release_msglist n q) = length_of q"
  by (simp_all add: release_msglist_def)

lemma thread_queue_add_spec:
  assumes "queue_wf q"
  shows "queue_wf (snd (thread_queue_add ok d t q)) \<and>
    (case fst (thread_queue_add ok d t q) of
        Inl e \<Rightarrow> e = ENOMEM \<and> \<not> ok \<and> snd (thread_queue_add ok d t q) = q
      | Inr signalled \<Rightarrow> contents (snd (thread_queue_add ok d t q)) = contents q @ [(d, t)]
          \<and> signalled = (contents q = []))"
  using assms
  by (cases "msgpool q") (auto simp: thread_queue_add_def get_msglist_def queue_wf_def contents_def Let_def)

lemma take_message_wf:
  assumes "queue_wf q" and "msgs q \<noteq> []"
  shows "queue_wf (snd (take_message q))"
  using assms unfolding take_message_def Let_def snd_conv
  by (intro release_msglist_wf) (cases "msgs q"; auto simp: queue_wf_def)

lemma take_message_contents:
  assumes "msgs q \<noteq> []"
  shows "contents q = (data (fst (take_message q)), msgtype (fst (take_message q)))
      # contents (snd (take_message q))"
  using assms by (cases "msgs q") (auto simp: take_message_def contents_def Let_def)

lemma take_message_qlength:
  assumes "queue_wf q" and "msgs q \<noteq> []"
  shows "qlength (fst (take_message q)) = int (length (contents q)) - 1"
  using assms by (cases "msgs q") (auto simp: take_message_def contents_def queue_wf_def Let_def)

lemma contents_Nil_iff [simp]: "contents q = [] \<longleftrightarrow> msgs q = []"
  by (simp add: contents_def)

lemma get_when_ready:
  "msgs q \<noteq> [] \<Longrightarrow>
    thread_queue_get q evs = (Some (Inr (fst (take_message q))), snd (take_message q))"
  by (simp add: thread_queue_get_def wait_for_message.simps [of q] split_beta)

lemma get_timeout:
  "msgs q = [] \<Longrightarrow> thread_queue_get q (Timeout q' # evs) = (Some (Inl ETIMEDOUT), q')"
  by (simp add: thread_queue_get_def wait_for_message.simps [of q])

lemma get_spurious:
  "msgs q = [] \<Longrightarrow> thread_queue_get q (Wakeup q' # evs) = thread_queue_get q' evs"
  by (simp add: thread_queue_get_def wait_for_message.simps [of q])

lemma get_starved: "msgs q = [] \<Longrightarrow> thread_queue_get q [] = (None, q)"
  by (simp add: thread_queue_get_def wait_for_message.simps [of q])

text \<open>A reader that is handed a message took the oldest one of the queue it woke up with.\<close>

lemma wait_for_message_ready:
  "wait_for_message q evs = (Some (Inr ()), q') \<Longrightarrow> msgs q' \<noteq> [] \<and> (q' = q \<or> Wakeup q' \<in> set evs)"
  by (induction evs arbitrary: q) (auto simp: wait_for_message.simps split: if_splits queue_event.splits)

section \<open>The contract: first in, first out\<close>

text \<open>
  A queue's client sees a sequence of additions and removals.  From the laws of one addition and
  one removal follows what holds of every sequence of them.
\<close>

datatype 'x queue_op = Enq 'x | Deq

fun run_queue ::
    "('x \<Rightarrow> 'q \<Rightarrow> 'q) \<Rightarrow> ('q \<Rightarrow> 'x option \<times> 'q) \<Rightarrow> 'x queue_op list \<Rightarrow> 'q \<Rightarrow> 'x list \<times> 'q" where
  "run_queue enq deq [] q = ([], q)"
| "run_queue enq deq (Enq x # ops) q = run_queue enq deq ops (enq x q)"
| "run_queue enq deq (Deq # ops) q = (let (r, q') = deq q; (out, q'') = run_queue enq deq ops q'
    in (case r of None \<Rightarrow> out | Some x \<Rightarrow> x # out, q''))"

fun put_in :: "'x queue_op list \<Rightarrow> 'x list" where
  "put_in [] = []"
| "put_in (Enq x # ops) = x # put_in ops"
| "put_in (Deq # ops) = put_in ops"

locale fifo =
  fixes enq :: "'x \<Rightarrow> 'q \<Rightarrow> 'q"
    and deq :: "'q \<Rightarrow> 'x option \<times> 'q"
    and abs :: "'q \<Rightarrow> 'x list"
    and inv :: "'q \<Rightarrow> bool"
  assumes inv_enq: "inv q \<Longrightarrow> inv (enq x q)"
    and abs_enq: "inv q \<Longrightarrow> abs (enq x q) = abs q @ [x]"
    and inv_deq: "inv q \<Longrightarrow> inv (snd (deq q))"
    and deq_empty: "\<lbrakk>inv q; abs q = []\<rbrakk> \<Longrightarrow> deq q = (None, q)"
    and deq_first: "\<lbrakk>inv q; abs q = x # xs\<rbrakk> \<Longrightarrow> fst (deq q) = Some x \<and> abs (snd (deq q)) = xs"
begin

lemma run_order:
  "inv q \<Longrightarrow> inv (snd (run_queue enq deq ops q)) \<and>
    fst (run_queue enq deq ops q) @ abs (snd (run_queue enq deq ops q)) = abs q @ put_in ops"
proof (induction ops arbitrary: q)
  case (Cons op ops)
  show ?case
  proof (cases op)
    case (Enq x)
    then show ?thesis using Cons by (simp add: inv_enq abs_enq)
  next
    case Deq
    show ?thesis
    proof (cases "abs q")
      case Nil
      then show ?thesis using Cons Deq by (simp add: deq_empty split_beta)
    next
      case (Cons x xs)
      then show ?thesis using Cons.IH [of "snd (deq q)"] Cons.prems Deq
        by (simp add: deq_first inv_deq split_beta)
    qed
  qed
qed simp

end

definition tq_enq :: "'d option \<times> int \<Rightarrow> 'd threadqueue \<Rightarrow> 'd threadqueue" where
  "tq_enq x q = snd (thread_queue_add True (fst x) (snd x) q)"

text \<open>A removal that does not wait: the deadline passes at once.\<close>

definition tq_deq :: "'d threadqueue \<Rightarrow> ('d option \<times> int) option \<times> 'd threadqueue" where
  "tq_deq q = (case thread_queue_get q [Timeout q] of
      (Some (Inr m), q') \<Rightarrow> (Some (data m, msgtype m), q')
    | (_, q') \<Rightarrow> (None, q'))"

lemma tq_deq_empty: "msgs q = [] \<Longrightarrow> tq_deq q = (None, q)"
  by (simp add: tq_deq_def get_timeout)

lemma tq_deq_ready: "msgs q \<noteq> [] \<Longrightarrow>
    tq_deq q = (Some (data (fst (take_message q)), msgtype (fst (take_message q))), snd (take_message q))"
  by (simp add: tq_deq_def get_when_ready)

interpretation tq: fifo tq_enq tq_deq contents queue_wf
proof unfold_locales
  fix q :: "'d threadqueue" and x :: "'d option \<times> int"
  assume wf: "queue_wf q"
  show "queue_wf (tq_enq x q)" and "contents (tq_enq x q) = contents q @ [x]"
    using thread_queue_add_spec [OF wf, of True "fst x" "snd x"]
    by (auto simp: tq_enq_def split: sum.splits)
  show "queue_wf (snd (tq_deq q))"
    using wf by (cases "msgs q = []") (simp_all add: tq_deq_empty tq_deq_ready take_message_wf)
next
  fix q :: "'d threadqueue" and x xs
  assume "contents q = x # xs"
  then show "fst (tq_deq q) = Some x \<and> contents (snd (tq_deq q)) = xs"
    using take_message_contents [of q] by (cases "msgs q = []") (auto simp: tq_deq_ready contents_def)
qed (simp add: tq_deq_empty)

text \<open>
  C17: The thread queue is a bounded-pool FIFO: over every sequence of additions and removals that starts from a
  well-formed queue, the messages handed out followed by those still queued are the messages first queued
  followed by those added, in that order, and the queue stays well-formed (the counters agree with the lists, the
  pool of spare nodes holds at most MSGPOOL_SIZE nodes and none of them keeps a message's data).
\<close>
theorem thread_queue_fifo:
  assumes "queue_wf q"
  shows "queue_wf (snd (run_queue tq_enq tq_deq ops q)) \<and>
    fst (run_queue tq_enq tq_deq ops q) @ contents (snd (run_queue tq_enq tq_deq ops q)) =
      contents q @ put_in ops"
  using assms by (rule tq.run_order)

definition tq_example :: "nat threadqueue" where
  "tq_example = \<lparr>length_of = 1, msgs = [\<lparr>data = Some 7, msgtype = 2, qlength = 0\<rparr>],
    msgpool = [blank_msg], msgpool_length = 1\<rparr>"

theorem thread_queue_fifo_witness:
  "queue_wf (snd (run_queue tq_enq tq_deq [Enq (Some 8, 2), Deq, Deq, Deq] tq_example)) \<and>
    fst (run_queue tq_enq tq_deq [Enq (Some 8, 2), Deq, Deq, Deq] tq_example)
      @ contents (snd (run_queue tq_enq tq_deq [Enq (Some 8, 2), Deq, Deq, Deq] tq_example)) =
    contents tq_example @ put_in [Enq (Some 8, 2), Deq, Deq, Deq]"
  by (rule thread_queue_fifo) (simp add: queue_wf_def tq_example_def blank_msg_def MSGPOOL_SIZE_def)

end
