(* ===== verification/Shoutcast.thy ===== *)
theory Shoutcast
  imports ThreadQueue Piano "HOL-Library.Monad_Syntax"
begin

text \<open>
  \<open>src/src/shoutcast.c\<close>: the pool of stream buffers, the connection to the icecast server and the thread that sends what the
  player queues.  The library libshout is outside: what its calls answer is passed to the operations.  The thread's loop is a step
  function; between two steps other threads may queue messages or ask it to quit.  Log lines are left out.
\<close>

section \<open>Buffers\<close>

record stream_data =
  sd_len :: nat
  sd_buf :: string
  sd_size :: nat
  sd_special :: bool

text \<open>The list of free buffers, and the number of buffers that have been allocated for the pool.\<close>

record sc_pool =
  icy_free :: "stream_data list"
  icy_bufcnt :: int

definition ICY_MAX :: int where
  "ICY_MAX = 4"

definition ICY_BFRMAXQ :: int where
  "ICY_BFRMAXQ = 2 * ICY_MAX"

definition ICY_BUFSIZE :: nat where
  "ICY_BUFSIZE = 10 * 1024 + 144 * (192000 div 44100)"

definition empty_pool :: sc_pool where
  "empty_pool = \<lparr>icy_free = [], icy_bufcnt = 0\<rparr>"

definition new_stream_data :: "nat \<Rightarrow> bool \<Rightarrow> nat \<Rightarrow> stream_data" where
  "new_stream_data bytes special len = \<lparr>sd_len = len, sd_buf = [], sd_size = bytes, sd_special = special\<rparr>"

definition sc_buffer_get :: "bool \<Rightarrow> nat \<Rightarrow> sc_pool \<Rightarrow> stream_data option \<times> sc_pool" where
  "sc_buffer_get malloc_ok len p =
    (if icy_bufcnt p > ICY_BFRMAXQ then (None, p)
     else if len \<le> ICY_BUFSIZE then
       (case icy_free p of
          b # rest \<Rightarrow> (Some (b\<lparr>sd_len := len\<rparr>), p\<lparr>icy_free := rest\<rparr>)
        | [] \<Rightarrow> (let p = p\<lparr>icy_bufcnt := icy_bufcnt p + 1\<rparr> in
            if malloc_ok then (Some (new_stream_data ICY_BUFSIZE False len), p)
            else (None, p\<lparr>icy_bufcnt := icy_bufcnt p - 1\<rparr>)))
     else (if malloc_ok then Some (new_stream_data len True len) else None, p))"

definition sc_buffer_release :: "stream_data \<Rightarrow> sc_pool \<Rightarrow> sc_pool" where
  "sc_buffer_release b p =
    (if sd_special b then p
     else if icy_bufcnt p > ICY_MAX then p\<lparr>icy_bufcnt := icy_bufcnt p - 1\<rparr>
     else p\<lparr>icy_free := b # icy_free p\<rparr>)"

section \<open>The service\<close>

datatype sc_state = SC_IDLE | SC_QUIT | SC_RUNNING

abbreviation (input) SCDATA :: int where "SCDATA \<equiv> 1"
abbreviation (input) SCPAUSE :: int where "SCPAUSE \<equiv> 2"
abbreviation (input) SCQUIT :: int where "SCQUIT \<equiv> 3"

text \<open>\<open>streamed\<close> is what the server has taken, \<open>silences\<close> the number of times it got silence instead.\<close>

record sc_service =
  sc_paused :: bool
  sc_state :: sc_state
  sc_host :: "string option"
  sc_port :: "string option"
  sc_user :: "string option"
  sc_passwd :: "string option"
  sc_mount :: string
  sc_bitrate :: string
  sc_queue :: "stream_data threadqueue"
  sc_buffers :: sc_pool
  streamed :: "string list"
  silences :: nat

definition blank_queue :: "stream_data threadqueue" where
  "blank_queue = \<lparr>length_of = 0, msgs = [], msgpool = [], msgpool_length = 0\<rparr>"

definition split_first :: "char \<Rightarrow> string \<Rightarrow> string \<times> string option" where
  "split_first c s = (takeWhile (\<lambda>x. x \<noteq> c) s, case dropWhile (\<lambda>x. x \<noteq> c) s of [] \<Rightarrow> None | _ # r \<Rightarrow> Some r)"

text \<open>\<open>user:passwd@host:port\<close>; without an at sign all of it is about the user.\<close>

definition sc_init_service :: "bool \<Rightarrow> string option \<Rightarrow> sc_service option" where
  "sc_init_service shout_new_ok server_info =
    (if \<not> shout_new_ok then None
     else (let (front, back) = (case server_info of None \<Rightarrow> ([], None) | Some s \<Rightarrow> split_first (CHR ''@'') s);
         (user, passwd) = split_first (CHR '':'') front
       in Some \<lparr>sc_paused = True, sc_state = SC_IDLE,
         sc_host = map_option (\<lambda>b. fst (split_first (CHR '':'') b)) back,
         sc_port = Option.bind back (\<lambda>b. snd (split_first (CHR '':'') b)),
         sc_user = (if front = [] then None else Some user), sc_passwd = passwd,
         sc_mount = ''/pandora'', sc_bitrate = ''192'',
         sc_queue = blank_queue, sc_buffers = empty_pool, streamed = [], silences = 0\<rparr>))"

definition or_default :: "string option \<Rightarrow> string \<Rightarrow> string" where
  "or_default s d = (case s of None \<Rightarrow> d | Some t \<Rightarrow> t)"

text \<open>The calls of sc_stream_setup in their order; the first that fails ends it.\<close>

definition sc_settings :: "sc_service \<Rightarrow> string option \<Rightarrow> (string \<times> string) list" where
  "sc_settings svc station_name =
    [(''host'', or_default (sc_host svc) ''localhost''),
     (''protocol'', ''http''),
     (''port'', show_int (case sc_port svc of None \<Rightarrow> 8000 | Some p \<Rightarrow> atoi p)),
     (''user'', or_default (sc_user svc) ''source''),
     (''password'', or_default (sc_passwd svc) ''hackme''),
     (''mount'', sc_mount svc),
     (''content_format'', ''mp3''),
     (''name'', ''PandoraRadio''),
     (''url'', ''http://www.pandora.com''),
     (''genre'', ''eclectic''),
     (''description'', or_default station_name ''Things I listen to''),
     (''bitrate'', sc_bitrate svc),
     (''channels'', ''2''),
     (''samplerate'', ''44100''),
     (''public'', ''0'')]"

definition sc_stream_setup :: "(string \<times> string \<Rightarrow> bool) \<Rightarrow> sc_service \<Rightarrow> string option \<Rightarrow> int \<times> (string \<times> string) list" where
  "sc_stream_setup accepts svc station_name =
    (let l = sc_settings svc station_name in (if list_all accepts l then 0 else - 1, takeWhile accepts l))"

text \<open>
  Connecting: for each try whether shout_open succeeds, and the state of the service as it is seen afterwards.  0 for a
  connection, 1 for giving up; \<open>None\<close> if it is still trying when the list ends.
\<close>

fun sc_shout_connect :: "bool \<Rightarrow> (bool \<times> sc_state) list \<Rightarrow> int option" where
  "sc_shout_connect again [] = None"
| "sc_shout_connect again ((opened, state) # tries) =
    (if opened then Some 0 else if \<not> again \<or> state = SC_QUIT then Some 1 else sc_shout_connect again tries)"

text \<open>Starting: the results of the pthread initialisers, of the settings, of the one attempt to connect, of creating the thread.\<close>

record start_answers =
  queue_inits :: "int \<times> int"
  accepts :: "string \<times> string \<Rightarrow> bool"
  opens_at_start :: bool
  creates :: bool

definition sc_start_service :: "start_answers \<Rightarrow> sc_service \<Rightarrow> string option \<Rightarrow> int \<times> sc_service" where
  "sc_start_service a svc station_name =
    (if sc_state svc = SC_RUNNING then (0, svc)
     else (case thread_queue_init (fst (queue_inits a)) (snd (queue_inits a)) of
         Inl _ \<Rightarrow> (- 1, svc)
       | Inr q \<Rightarrow>
           (let svc = svc\<lparr>sc_queue := q\<rparr> in
            if fst (sc_stream_setup (accepts a) svc station_name) \<noteq> 0 then (- 1, svc)
            else if sc_shout_connect False [(opens_at_start a, sc_state svc)] = Some 0 \<and> creates a then (0, svc)
            else (- 1, svc))))"

text \<open>Add a buffer to the queue if the thread is running; \<open>malloc_ok\<close> is about the node of the queue.\<close>

definition sc_queue_add :: "bool \<Rightarrow> stream_data \<Rightarrow> int \<Rightarrow> sc_service \<Rightarrow> sc_service" where
  "sc_queue_add malloc_ok b mtype svc =
    (if sc_state svc \<noteq> SC_RUNNING then svc\<lparr>sc_buffers := sc_buffer_release b (sc_buffers svc)\<rparr>
     else svc\<lparr>sc_queue := snd (thread_queue_add malloc_ok (Some b) mtype (sc_queue svc))\<rparr>)"

section \<open>The thread\<close>

text \<open>
  The thread is the service with the message in hand: \<open>Some\<close> while it has to be sent again.  One pass of the loop
  gets whether the connection stands, the tries to connect, and whether the server takes what is sent.  When the queue is
  empty the wait times out; a message that arrives during the wait is one that is queued before this step.
\<close>

record step_answers =
  connected :: bool
  tries :: "(bool \<times> sc_state) list"
  takes :: bool

datatype sc_progress = Sending sc_service "stream_data threadmsg option" | Ended sc_service

definition sc_handle :: "step_answers \<Rightarrow> stream_data threadmsg \<Rightarrow> sc_service \<Rightarrow> sc_progress option" where
  "sc_handle a msg svc =
    (if msgtype msg = SCDATA then do {
       b \<leftarrow> data msg;
       (if takes a then Some (Sending (svc\<lparr>streamed := streamed svc @ [take (sd_len b) (sd_buf b)],
           sc_buffers := sc_buffer_release b (sc_buffers svc)\<rparr>) None)
        else do { _ \<leftarrow> sc_shout_connect True (tries a); Some (Sending svc (Some msg)) })
     }
     else if msgtype msg = SCQUIT then Some (Ended (svc\<lparr>sc_state := SC_IDLE\<rparr>))
     else if msgtype msg = SCPAUSE then Some (Sending (svc\<lparr>sc_paused := \<not> sc_paused svc\<rparr>) None)
     else Some (Sending svc None))"

definition sc_thread_step :: "step_answers \<Rightarrow> sc_service \<Rightarrow> stream_data threadmsg option \<Rightarrow> sc_progress option" where
  "sc_thread_step a svc in_hand =
    (if \<not> connected a then do { _ \<leftarrow> sc_shout_connect True (tries a); Some (Sending svc in_hand) }
     else (case in_hand of
         Some msg \<Rightarrow> sc_handle a msg svc
       | None \<Rightarrow> (case thread_queue_get (sc_queue svc) [Timeout (sc_queue svc)] of
             (None, q) \<Rightarrow> None
           | (Some (Inl _), q) \<Rightarrow>
               (let svc = svc\<lparr>sc_queue := q\<rparr> in
                if takes a then Some (Sending (svc\<lparr>silences := silences svc + 1\<rparr>) None)
                else do { _ \<leftarrow> sc_shout_connect True (tries a); Some (Sending svc None) })
           | (Some (Inr msg), q) \<Rightarrow> sc_handle a msg (svc\<lparr>sc_queue := q\<rparr>))))"

text \<open>What happens over time: the player queues a buffer, the service is asked to quit, or the thread makes a pass.\<close>

datatype sc_event = Player_queues stream_data | Asked_to_quit | Thread_passes step_answers

fun sc_run :: "sc_event list \<Rightarrow> sc_progress \<Rightarrow> sc_progress option" where
  "sc_run [] s = Some s"
| "sc_run (ev # evs) (Ended svc) = Some (Ended svc)"
| "sc_run (ev # evs) (Sending svc in_hand) = (case ev of
      Player_queues b \<Rightarrow> sc_run evs (Sending (sc_queue_add True b SCDATA svc) in_hand)
    | Asked_to_quit \<Rightarrow> sc_run evs (Sending (svc\<lparr>sc_state := SC_QUIT,
        sc_queue := snd (thread_queue_add True None SCQUIT (sc_queue svc))\<rparr>) in_hand)
    | Thread_passes a \<Rightarrow> do { s \<leftarrow> sc_thread_step a svc in_hand; sc_run evs s })"

text \<open>
  Closing: the thread is asked to quit and joined; \<open>evs\<close> is what happens until then.  The queue is cleaned up without its
  buffers, the free buffers are freed.  \<open>None\<close> when the thread has not ended.
\<close>

definition sc_close_service :: "bool \<Rightarrow> sc_event list \<Rightarrow> sc_service \<Rightarrow> stream_data threadmsg option \<Rightarrow> sc_service option" where
  "sc_close_service has_thread evs svc in_hand = do {
    svc \<leftarrow> (if has_thread then do {
        s \<leftarrow> sc_run (Asked_to_quit # evs) (Sending svc in_hand);
        (case s of Ended svc \<Rightarrow> Some svc | Sending _ _ \<Rightarrow> None)
      } else Some svc);
    Some (svc\<lparr>sc_buffers := (sc_buffers svc)\<lparr>icy_free := []\<rparr>\<rparr>)
  }"

text \<open>
  The metadata of a song: \<open>None\<close> if libshout has no memory for it, else what is handed over; an entry that is refused is
  left out, and the function answers 0 in any case.
\<close>

definition sc_set_metadata :: "bool \<Rightarrow> (string \<times> string \<Rightarrow> bool) \<Rightarrow> song \<Rightarrow> int \<times> (string \<times> string) list option" where
  "sc_set_metadata has_memory adds song =
    (0, if has_memory then Some (filter adds [(''charset'', ''UTF-8''), (''artist'', artist song), (''title'', title song)]) else None)"

section \<open>The pool\<close>

text \<open>\<open>pool_reach p n\<close>: the pool can be \<open>p\<close> while \<open>n\<close> of its buffers are in use.\<close>

inductive pool_reach :: "sc_pool \<Rightarrow> nat \<Rightarrow> bool" where
  pool_start: "pool_reach empty_pool 0"
| pool_get: "\<lbrakk>pool_reach p n; sc_buffer_get ok len p = (Some b, p'); \<not> sd_special b\<rbrakk> \<Longrightarrow> pool_reach p' (Suc n)"
| pool_get_large: "\<lbrakk>pool_reach p n; sc_buffer_get ok len p = (Some b, p'); sd_special b\<rbrakk> \<Longrightarrow> pool_reach p' n"
| pool_refuse: "\<lbrakk>pool_reach p n; sc_buffer_get ok len p = (None, p')\<rbrakk> \<Longrightarrow> pool_reach p' n"
| pool_release: "\<lbrakk>pool_reach p (Suc n); \<not> sd_special b; sd_size b = ICY_BUFSIZE\<rbrakk> \<Longrightarrow> pool_reach (sc_buffer_release b p) n"
| pool_release_large: "\<lbrakk>pool_reach p n; sd_special b\<rbrakk> \<Longrightarrow> pool_reach (sc_buffer_release b p) n"

definition pool_ok :: "sc_pool \<Rightarrow> nat \<Rightarrow> bool" where
  "pool_ok p n \<longleftrightarrow> icy_bufcnt p = int n + int (length (icy_free p)) \<and> icy_bufcnt p \<le> ICY_BFRMAXQ + 1
    \<and> (icy_free p \<noteq> [] \<longrightarrow> icy_bufcnt p \<le> ICY_MAX) \<and> (\<forall>b \<in> set (icy_free p). \<not> sd_special b \<and> sd_size b = ICY_BUFSIZE)"

lemma pool_reach_ok: "pool_reach p n \<Longrightarrow> pool_ok p n"
proof (induction rule: pool_reach.induct)
  case pool_start
  then show ?case by (simp add: pool_ok_def empty_pool_def ICY_BFRMAXQ_def ICY_MAX_def)
qed (auto simp: pool_ok_def sc_buffer_get_def sc_buffer_release_def new_stream_data_def Let_def ICY_BFRMAXQ_def ICY_MAX_def
    split: if_splits list.splits)

text \<open>
  C26: The pool of stream buffers keeps its books: whatever buffers are taken and given back, the count is the number of
  buffers in use and on the free list, no more than nine are ever allocated and no more than four kept free; every buffer that is handed
  out has room for what was asked for; and with memory a buffer is refused only when nine are in use.
\<close>

theorem sc_pool_bounded:
  assumes "pool_reach p n"
  shows "icy_bufcnt p = int n + int (length (icy_free p)) \<and> icy_bufcnt p \<le> 9 \<and> length (icy_free p) \<le> 4
    \<and> (case fst (sc_buffer_get True len p) of
        Some b \<Rightarrow> sd_len b = len \<and> len \<le> sd_size b
      | None \<Rightarrow> 9 \<le> n)"
  using pool_reach_ok [OF assms]
  by (auto simp: pool_ok_def sc_buffer_get_def new_stream_data_def Let_def ICY_BFRMAXQ_def ICY_MAX_def split: list.splits)

theorem sc_pool_bounded_witness:
  "(case fst (sc_buffer_get True 100 empty_pool) of Some b \<Rightarrow> sd_len b = 100 | None \<Rightarrow> False)"
  using sc_pool_bounded [OF pool_start, of 100] by (auto split: option.splits simp: empty_pool_def)

section \<open>What the server gets\<close>

definition payload :: "stream_data \<Rightarrow> string" where
  "payload b = take (sd_len b) (sd_buf b)"

definition hand_ok :: "stream_data threadmsg option \<Rightarrow> bool" where
  "hand_ok h \<longleftrightarrow> (case h of None \<Rightarrow> True | Some m \<Rightarrow> msgtype m = SCDATA \<and> data m \<noteq> None)"

definition in_hand :: "stream_data threadmsg option \<Rightarrow> string list" where
  "in_hand h = (case h of None \<Rightarrow> [] | Some m \<Rightarrow> (case data m of None \<Rightarrow> [] | Some b \<Rightarrow> [payload b]))"

text \<open>The queue holds buffers, and behind them the requests to quit once there are any.\<close>

definition lane :: "stream_data list \<Rightarrow> nat \<Rightarrow> sc_service \<Rightarrow> bool" where
  "lane bs k svc \<longleftrightarrow> queue_wf (sc_queue svc)
    \<and> contents (sc_queue svc) = map (\<lambda>b. (Some b, SCDATA)) bs @ replicate k (None, SCQUIT)
    \<and> (sc_state svc = SC_RUNNING \<and> k = 0 \<or> sc_state svc = SC_QUIT \<and> 0 < k)"

lemma lane_fields [simp]:
  "lane bs k (svc\<lparr>streamed := x\<rparr>) = lane bs k svc" "lane bs k (svc\<lparr>silences := n\<rparr>) = lane bs k svc"
  "lane bs k (svc\<lparr>sc_buffers := p\<rparr>) = lane bs k svc"
  by (simp_all add: lane_def)

definition sc_inv :: "string list \<Rightarrow> sc_service \<Rightarrow> stream_data threadmsg option \<Rightarrow> bool" where
  "sc_inv l svc h \<longleftrightarrow> hand_ok h \<and> (\<exists>bs k. lane bs k svc \<and> streamed svc @ in_hand h @ map payload bs = l)"

definition progress_inv :: "string list \<Rightarrow> sc_progress \<Rightarrow> bool" where
  "progress_inv l s \<longleftrightarrow> (case s of Sending svc h \<Rightarrow> sc_inv l svc h | Ended svc \<Rightarrow> streamed svc = l)"

lemma queue_added:
  assumes "queue_wf q"
  shows "queue_wf (snd (thread_queue_add True d t q))" "contents (snd (thread_queue_add True d t q)) = contents q @ [(d, t)]"
  using thread_queue_add_spec [OF assms, of True d t] by (auto split: sum.splits)

lemma handle_data:
  assumes "sc_inv l svc (Some m)" and "sc_handle a m svc = Some s"
  shows "progress_inv l s"
proof -
  obtain b where b: "data m = Some b" "msgtype m = SCDATA" using assms(1) by (auto simp: sc_inv_def hand_ok_def)
  show ?thesis
  proof (cases "takes a")
    case True
    then show ?thesis using assms b by (auto simp: sc_handle_def progress_inv_def sc_inv_def hand_ok_def in_hand_def payload_def; blast)
  next
    case False
    then have "s = Sending svc (Some m)" using assms(2) b by (auto simp: sc_handle_def bind_eq_Some_conv)
    then show ?thesis using assms(1) by (simp add: progress_inv_def)
  qed
qed

lemma step_inv:
  assumes inv: "sc_inv l svc h" and run: "sc_thread_step a svc h = Some s"
  shows "progress_inv l s"
proof (cases "connected a")
  case False
  then have "s = Sending svc h" using run by (auto simp: sc_thread_step_def bind_eq_Some_conv)
  then show ?thesis using inv by (simp add: progress_inv_def)
next
  case connected: True
  show ?thesis
  proof (cases h)
    case (Some m)
    then show ?thesis using handle_data inv run connected by (simp add: sc_thread_step_def)
  next
    case None
    let ?q = "sc_queue svc"
    obtain bs k where lane: "lane bs k svc" "streamed svc @ map payload bs = l"
      using inv None by (auto simp: sc_inv_def in_hand_def)
    then have wf: "queue_wf ?q" and q: "contents ?q = map (\<lambda>b. (Some b, SCDATA)) bs @ replicate k (None, SCQUIT)"
      by (simp_all add: lane_def)
    show ?thesis
    proof (cases "msgs ?q = []")
      case True
      then have "\<exists>n. s = Sending (svc\<lparr>silences := n\<rparr>) None"
        using run connected None by (auto simp: sc_thread_step_def get_timeout Let_def bind_eq_Some_conv split: if_splits intro: exI [of _ "silences svc"])
      then show ?thesis using inv None by (auto simp: progress_inv_def sc_inv_def; blast)
    next
      case False
      let ?m = "fst (take_message ?q)" and ?svc = "svc\<lparr>sc_queue := snd (take_message ?q)\<rparr>"
      have step: "sc_handle a ?m ?svc = Some s"
        using run connected None get_when_ready [OF False, of "[Timeout ?q]"] by (simp add: sc_thread_step_def)
      have wf': "queue_wf (snd (take_message ?q))" by (rule take_message_wf [OF wf False])
      have c: "contents ?q = (data ?m, msgtype ?m) # contents (snd (take_message ?q))" by (rule take_message_contents [OF False])
      show ?thesis
      proof (cases bs)
        case Nil
        then have "msgtype ?m = SCQUIT" using c q by (cases k) auto
        then show ?thesis using step Nil lane(2) by (auto simp: sc_handle_def progress_inv_def)
      next
        case (Cons b bs')
        then have m: "data ?m = Some b" "msgtype ?m = SCDATA"
          and rest: "contents (snd (take_message ?q)) = map (\<lambda>b. (Some b, SCDATA)) bs' @ replicate k (None, SCQUIT)"
          using c q by auto
        have "lane bs' k ?svc" using lane(1) wf' rest by (simp add: lane_def)
        then have "sc_inv l ?svc (Some ?m)" using lane(2) Cons m by (auto simp: sc_inv_def hand_ok_def in_hand_def)
        then show ?thesis using step by (rule handle_data)
      qed
    qed
  qed
qed

lemma handle_state: "sc_handle a m svc = Some (Sending svc' h') \<Longrightarrow> sc_state svc' = sc_state svc"
  by (auto simp: sc_handle_def bind_eq_Some_conv split: if_splits)

lemma step_state:
  assumes "sc_thread_step a svc h = Some s" and "s = Sending svc' h'"
  shows "sc_state svc' = sc_state svc"
  using assms by (auto simp: sc_thread_step_def Let_def bind_eq_Some_conv split: if_splits option.splits prod.splits sum.splits
      dest!: handle_state)

lemma ended_only_after_quit:
  assumes inv: "sc_inv l svc h" and run: "sc_thread_step a svc h = Some (Ended svc')"
  shows "sc_state svc \<noteq> SC_RUNNING"
proof
  assume running: "sc_state svc = SC_RUNNING"
  then obtain bs where q: "contents (sc_queue svc) = map (\<lambda>b. (Some b, SCDATA)) bs" using inv by (auto simp: sc_inv_def lane_def)
  have quits: "sc_handle a m svc1 = Some (Ended svc2) \<Longrightarrow> msgtype m = SCQUIT" for m svc1 svc2
    by (auto simp: sc_handle_def bind_eq_Some_conv split: if_splits)
  have "msgtype m = SCDATA" if "h = Some m" for m using inv that by (auto simp: sc_inv_def hand_ok_def)
  moreover have "msgtype (fst (take_message (sc_queue svc))) = SCDATA" if "msgs (sc_queue svc) \<noteq> []"
    using take_message_contents [OF that] q by (cases bs) auto
  ultimately show False
    using run quits get_when_ready [of "sc_queue svc"] get_timeout [of "sc_queue svc"]
    by (cases "msgs (sc_queue svc) = []"; cases h) (fastforce simp: sc_thread_step_def Let_def bind_eq_Some_conv split: if_splits)+
qed

text \<open>The buffers that the queue accepts: those that arrive before the service is asked to quit.\<close>

fun accepted :: "sc_event list \<Rightarrow> string list" where
  "accepted [] = []"
| "accepted (Asked_to_quit # evs) = []"
| "accepted (Player_queues b # evs) = payload b # accepted evs"
| "accepted (Thread_passes a # evs) = accepted evs"

lemma run_inv:
  "\<lbrakk>sc_inv l svc h; sc_run evs (Sending svc h) = Some s\<rbrakk> \<Longrightarrow>
    progress_inv (l @ (if sc_state svc = SC_RUNNING then accepted evs else [])) s"
proof (induction evs arbitrary: l svc h)
  case Nil
  then show ?case by (auto simp: progress_inv_def)
next
  case (Cons ev evs)
  obtain bs k where lane: "lane bs k svc" "streamed svc @ in_hand h @ map payload bs = l" and hand: "hand_ok h"
    using Cons.prems(1) by (auto simp: sc_inv_def)
  have wf: "queue_wf (sc_queue svc)" using lane(1) by (simp add: lane_def)
  show ?case
  proof (cases ev)
    case (Player_queues b)
    let ?svc = "sc_queue_add True b SCDATA svc"
    have same: "sc_state ?svc = sc_state svc" "streamed ?svc = streamed svc" by (simp_all add: sc_queue_add_def)
    have "lane (if sc_state svc = SC_RUNNING then bs @ [b] else bs) k ?svc"
      using lane(1) queue_added [OF wf, of "Some b" SCDATA] by (auto simp: sc_queue_add_def lane_def)
    then have "sc_inv (l @ (if sc_state svc = SC_RUNNING then [payload b] else [])) ?svc h"
      using lane(2) hand same(2) by (fastforce simp: sc_inv_def)
    from Cons.IH [OF this, unfolded same] show ?thesis using Cons.prems(2) Player_queues by (simp split: if_splits)
  next
    case Asked_to_quit
    let ?svc = "svc\<lparr>sc_state := SC_QUIT, sc_queue := snd (thread_queue_add True None SCQUIT (sc_queue svc))\<rparr>"
    have "lane bs (Suc k) ?svc"
      using lane(1) queue_added [OF wf, of None SCQUIT] by (auto simp: lane_def replicate_append_same)
    then have "sc_inv l ?svc h" using lane(2) hand by (auto simp: sc_inv_def)
    from Cons.IH [OF this] show ?thesis using Cons.prems(2) Asked_to_quit by simp
  next
    case (Thread_passes a)
    then obtain s1 where s1: "sc_thread_step a svc h = Some s1" "sc_run evs s1 = Some s"
      using Cons.prems(2) by (auto simp: bind_eq_Some_conv)
    have ok: "progress_inv l s1" by (rule step_inv [OF Cons.prems(1) s1(1)])
    show ?thesis
    proof (cases s1)
      case (Sending svc1 h1)
      have "sc_state svc1 = sc_state svc" using s1(1) Sending by (rule step_state)
      then show ?thesis using Cons.IH [of l svc1 h1] ok s1(2) Sending Thread_passes
        by (cases "sc_state svc = SC_RUNNING") (simp_all add: progress_inv_def)
    next
      case (Ended svc1)
      then have "sc_state svc \<noteq> SC_RUNNING" using s1(1) ended_only_after_quit [OF Cons.prems(1)] by blast
      moreover have "sc_run evs (Ended svc1) = Some (Ended svc1)" by (cases evs) simp_all
      ultimately show ?thesis using ok s1(2) Ended by simp
    qed
  qed
qed

text \<open>
  C9: Everything the player queues is streamed, once and in order: while the thread runs, whatever the connection does (lost,
  opened again, sends that fail and are repeated) and whenever the queue is empty, what the server has taken, what the thread has in hand and what is queued
  are together the buffers that were accepted; when the thread has ended, the server has taken all of them, also those that were
  queued when the service was asked to quit.
\<close>

theorem sc_streams_in_order:
  assumes "sc_state svc = SC_RUNNING" and "queue_wf (sc_queue svc)" and "contents (sc_queue svc) = []"
    and "sc_run evs (Sending svc None) = Some s"
  shows "case s of
      Ended svc' \<Rightarrow> streamed svc' = streamed svc @ accepted evs
    | Sending svc' h \<Rightarrow> streamed svc' @ in_hand h @ map payload (List.map_filter fst (contents (sc_queue svc'))) = streamed svc @ accepted evs"
proof -
  have "lane [] 0 svc" using assms(1-3) by (simp add: lane_def)
  then have "sc_inv (streamed svc) svc None" by (auto simp: sc_inv_def hand_ok_def in_hand_def)
  from run_inv [OF this assms(4)] have inv: "progress_inv (streamed svc @ accepted evs) s" using assms(1) by simp
  have "List.map_filter fst (map (\<lambda>b. (Some b, SCDATA)) bs @ replicate k (None, SCQUIT)) = bs" for bs :: "stream_data list" and k
    by (induction bs) (simp_all add: List.map_filter_def)
  moreover from this [of _ 0] have "List.map_filter fst (map (\<lambda>b. (Some b, SCDATA)) bs) = bs" for bs :: "stream_data list" by simp
  ultimately show ?thesis using inv by (cases s) (auto simp: progress_inv_def sc_inv_def lane_def)
qed

definition demo_service :: sc_service where
  "demo_service = the (sc_init_service True None)\<lparr>sc_state := SC_RUNNING\<rparr>"

definition demo_buffer :: stream_data where
  "demo_buffer = \<lparr>sd_len = 2, sd_buf = ''abc'', sd_size = 3, sd_special = False\<rparr>"

lemma ended_run: "(case x of Some (Ended _) \<Rightarrow> True | _ \<Rightarrow> False) \<Longrightarrow> \<exists>svc. x = Some (Ended svc)"
  by (auto split: option.splits sc_progress.splits)

theorem sc_streams_in_order_witness:
  "streamed demo_service = [] \<and> (\<exists>svc'. sc_run [Player_queues demo_buffer,
      Thread_passes \<lparr>connected = True, tries = [(True, SC_RUNNING)], takes = False\<rparr>,
      Thread_passes \<lparr>connected = False, tries = [(True, SC_RUNNING)], takes = True\<rparr>, Asked_to_quit,
      Thread_passes \<lparr>connected = True, tries = [], takes = True\<rparr>, Thread_passes \<lparr>connected = True, tries = [], takes = True\<rparr>]
    (Sending demo_service None) = Some (Ended svc') \<and> streamed svc' = [''ab''])"
proof -
  let ?evs = "[Player_queues demo_buffer,
      Thread_passes \<lparr>connected = True, tries = [(True, SC_RUNNING)], takes = False\<rparr>,
      Thread_passes \<lparr>connected = False, tries = [(True, SC_RUNNING)], takes = True\<rparr>, Asked_to_quit,
      Thread_passes \<lparr>connected = True, tries = [], takes = True\<rparr>, Thread_passes \<lparr>connected = True, tries = [], takes = True\<rparr>]"
  have demo: "sc_state demo_service = SC_RUNNING" "queue_wf (sc_queue demo_service)" "contents (sc_queue demo_service) = []"
      "streamed demo_service = []"
    by (simp_all add: demo_service_def sc_init_service_def split_first_def blank_queue_def queue_wf_def MSGPOOL_SIZE_def)
  have "\<exists>svc'. sc_run ?evs (Sending demo_service None) = Some (Ended svc')" by (rule ended_run) code_simp
  then obtain svc' where run: "sc_run ?evs (Sending demo_service None) = Some (Ended svc')" ..
  moreover have "accepted ?evs = [''ab'']" by (simp add: demo_buffer_def payload_def)
  ultimately show ?thesis using sc_streams_in_order [OF demo(1-3) run] demo(4) by (simp only: sc_progress.case append_Nil) blast
qed

text \<open>
  When the server is away, the request to quit is not honoured: connecting gives up at once because the state is
  SC_QUIT, and the loop starts again without a look at the queue; sc_close_service then waits for ever.
\<close>

definition away :: step_answers where
  "away = \<lparr>connected = False, tries = [(False, SC_QUIT)], takes = False\<rparr>"

lemma quit_never_seen: "sc_run (replicate n (Thread_passes away)) (Sending svc h) = Some (Sending svc h)"
  by (induction n) (simp_all add: away_def sc_thread_step_def)

lemma close_hangs: "sc_close_service True (replicate n (Thread_passes away)) svc h = None"
  by (simp add: sc_close_service_def quit_never_seen)

text \<open>The connection string.\<close>

lemma split_first_append: "c \<notin> set s \<Longrightarrow> split_first c (s @ c # t) = (s, Some t)"
  by (induction s) (auto simp: split_first_def)

lemma sc_init_service_parses:
  assumes "CHR ''@'' \<notin> set (user @ passwd)" "CHR '':'' \<notin> set (user @ host)" "user \<noteq> []"
  shows "\<exists>svc. sc_init_service True (Some (user @ '':'' @ passwd @ ''@'' @ host @ '':'' @ port)) = Some svc
    \<and> sc_user svc = Some user \<and> sc_passwd svc = Some passwd \<and> sc_host svc = Some host \<and> sc_port svc = Some port"
proof -
  have "split_first (CHR ''@'') ((user @ '':'' @ passwd) @ CHR ''@'' # host @ '':'' @ port) = (user @ '':'' @ passwd, Some (host @ '':'' @ port))"
    using assms(1) by (intro split_first_append) auto
  moreover have "split_first (CHR '':'') (user @ CHR '':'' # passwd) = (user, Some passwd)"
      "split_first (CHR '':'') (host @ CHR '':'' # port) = (host, Some port)"
    using assms(2) by (intro split_first_append; simp)+
  ultimately show ?thesis using assms(3) by (simp add: sc_init_service_def)
qed

end
