(* ===== verification/Player.thy ===== *)
theory Player
  imports Pianod WaitressHttp Shoutcast "HOL-Library.Stream"
begin

text \<open>
  \<open>src/src/player.c\<close>: the thread that receives, decodes and plays a song.  The record of the player (\<open>AppState\<close>) is extended by the fields that
  only the thread uses.  The decoders (faad, mpg123) and libao are outside: they are functions of the calls made to them so far,
  collected in the record \<open>sound\<close>, and what is given to them is kept in the state.  The flags doQuit and doPause are set
  by the main thread; \<open>signals\<close> is what the player sees of them each time it looks.  Bytes are characters.  The
  library is built with AAC, MP3, capture and Shoutcast.  \<open>None\<close> is a failed assertion, a division by zero, an access outside the table of
  frame sizes, or waiting for ever.  malloc is assumed to find memory.
\<close>

section \<open>State\<close>

datatype mp3_call = Mp3_feed string | Mp3_next | Mp3_framedata | Mp3_decode

datatype mp3_status = MPG123_OK | MPG123_NEW_FORMAT | MPG123_NEED_MORE | MPG123_DONE | MPG123_OTHER

record frame_info =
  frame_error :: nat
  bytesconsumed :: nat
  frame_samples :: "int list"

record sound =
  ao_driver_id :: "string \<Rightarrow> int"
  ao_default_driver_id :: int
  ao_open_live :: "int \<Rightarrow> nat \<times> nat \<Rightarrow> (string \<times> string) list \<Rightarrow> bool"
  NeAACDecInit2 :: "string \<Rightarrow> int \<times> nat \<times> nat"
  NeAACDecDecode :: "string list \<Rightarrow> string \<Rightarrow> frame_info"
  mpg123_framebyframe_next :: "mp3_call list \<Rightarrow> mp3_status"
  mpg123_getformat :: "mp3_call list \<Rightarrow> nat \<times> nat"
  mpg123_framedata :: "mp3_call list \<Rightarrow> (nat \<times> string) option"
  mpg123_framebyframe_decode :: "mp3_call list \<Rightarrow> (nat \<times> int list) option"
  sc_malloc_ok :: bool

record player_thread = audioPlayer +
  channels :: nat
  samplerate :: nat
  aoError :: bool
  buffer :: string
  bufferRead :: nat
  bytesReceived :: nat
  capture_file :: "string option"
  shout_service :: "sc_service option"
  sampleSizeN :: nat
  sampleSizeCurr :: nat
  sampleSize :: "nat list"
  fed :: "string list"
  mp3_calls :: "mp3_call list"
  played :: "int list list"
  signals :: "(bool \<times> bool) stream"

definition BAR_PLAYER_BUFSIZE :: nat where
  "BAR_PLAYER_BUFSIZE = WAITRESS_BUFFER_SIZE * 2"

section \<open>Pausing, volume, buffer\<close>

partial_function (option) BarPlayerCheckPauseQuit :: "player_thread \<Rightarrow> (bool \<times> player_thread) option" where
  "BarPlayerCheckPauseQuit p =
    (let p = p\<lparr>doQuit := fst (shd (signals p)), doPause := snd (shd (signals p)), signals := stl (signals p)\<rparr> in
     if doQuit p then Some (mode p \<ge> PLAYER_SAMPLESIZE_INITIALIZED, p)
     else if \<not> doPause p then Some (False, p)
     else BarPlayerCheckPauseQuit p)"

text \<open>The product of an int and an unsigned has 32 bits and wraps; the test against clipping comes afterwards.\<close>

definition to_int32 :: "int \<Rightarrow> int" where
  "to_int32 x = (x + 2 ^ 31) mod 2 ^ 32 - 2 ^ 31"

definition SHRT_MAX :: int where
  "SHRT_MAX = 32767"

definition SHRT_MIN :: int where
  "SHRT_MIN = - 32768"

definition applyReplayGain :: "int \<Rightarrow> nat \<Rightarrow> int" where
  "applyReplayGain v scale = (let tmp = to_int32 (v * int scale) in
     if tmp > SHRT_MAX * 100 then SHRT_MAX
     else if tmp < SHRT_MIN * 100 then SHRT_MIN
     else c_div tmp 100)"

definition BarPlayerBufferFill :: "string \<Rightarrow> player_thread \<Rightarrow> player_thread option" where
  "BarPlayerBufferFill d p =
    (if length (buffer p) + length d > BAR_PLAYER_BUFSIZE then None
     else Some (p\<lparr>buffer := buffer p @ d, bufferRead := 0, bytesReceived := bytesReceived p + length d\<rparr>))"

definition BarPlayerBufferMove :: "player_thread \<Rightarrow> player_thread" where
  "BarPlayerBufferMove p = p\<lparr>buffer := drop (bufferRead p) (buffer p)\<rparr>"

definition opt_entry :: "string \<Rightarrow> string option \<Rightarrow> (string \<times> string) list" where
  "opt_entry k v = (case v of None \<Rightarrow> [] | Some x \<Rightarrow> [(k, x)])"

text \<open>\<open>player_output\<close> holds driver, device, id and server.\<close>

definition BarPlayerOpenAudioOut :: "sound \<Rightarrow> player_thread \<Rightarrow> bool" where
  "BarPlayerOpenAudioOut au p =
    (let out = (\<lambda>i. if i < length (player_output p) then player_output p ! i else None);
         driver = (case out 0 of Some d \<Rightarrow> ao_driver_id au d | None \<Rightarrow> ao_default_driver_id au);
         format = (samplerate p, channels p)
     in \<not> driver < 0 \<and>
       (ao_open_live au driver format
          (opt_entry ''client_name'' (Some ''pianod'') @ opt_entry ''dev'' (out 1) @ opt_entry ''id'' (out 2) @ opt_entry ''server'' (out 3))
        \<or> ao_open_live au driver format []))"

text \<open>\<open>songPlayed += samples * 1000 / samplerate / channels\<close>\<close>

definition played_ms :: "nat \<Rightarrow> player_thread \<Rightarrow> nat option" where
  "played_ms n p = (if samplerate p = 0 then None
    else Some (n * BAR_PLAYER_MS_TO_S_FACTOR div samplerate p div (if channels p \<noteq> 0 then channels p else 1)))"

section \<open>AAC\<close>

text \<open>The search for four bytes, while more than \<open>margin\<close> bytes are left: whether they are found, and where the search ends.\<close>

function search_tag :: "string \<Rightarrow> nat \<Rightarrow> string \<Rightarrow> nat \<Rightarrow> bool \<times> nat" where
  "search_tag tag margin b i =
    (if i + margin < length b then (if take 4 (drop i b) = tag then (True, i) else search_tag tag margin b (Suc i)) else (False, i))"
  by pat_completeness auto
termination by (relation "measure (\<lambda>(_, _, b, i). length b - i)") auto

declare search_tag.simps [simp del]

definition find_esds :: "player_thread \<Rightarrow> player_thread" where
  "find_esds p =
    (if mode p = PLAYER_INITIALIZED then
       (let (found, i) = search_tag ''esds'' 4 (buffer p) (bufferRead p) in
        if found then p\<lparr>mode := PLAYER_FOUND_ESDS, bufferRead := i + 4\<rparr> else p\<lparr>bufferRead := i\<rparr>)
     else p)"

definition config_tag :: string where
  "config_tag = [CHR 0x05, CHR 0x80, CHR 0x80, CHR 0x80]"

text \<open>False when the callback returns an error.\<close>

definition find_config :: "sound \<Rightarrow> player_thread \<Rightarrow> bool \<times> player_thread" where
  "find_config au p =
    (if mode p = PLAYER_FOUND_ESDS then
       (let (found, i) = search_tag config_tag 10 (buffer p) (bufferRead p) in
        if found then
          (let (err, rate, ch) = NeAACDecInit2 au (take 5 (drop (i + 5) (buffer p)));
               p = p\<lparr>samplerate := rate, channels := ch, bufferRead := i + 10\<rparr>
           in if err \<noteq> 0 then (False, p)
              else if \<not> BarPlayerOpenAudioOut au p then (False, p\<lparr>aoError := True\<rparr>)
              else (True, p\<lparr>mode := PLAYER_AUDIO_INITIALIZED\<rparr>))
        else (True, p\<lparr>bufferRead := i\<rparr>))
     else (True, p))"

definition find_stsz :: "player_thread \<Rightarrow> player_thread" where
  "find_stsz p =
    (if mode p = PLAYER_AUDIO_INITIALIZED then
       (let (found, i) = search_tag ''stsz'' 12 (buffer p) (bufferRead p) in
        if found then p\<lparr>mode := PLAYER_FOUND_STSZ, bufferRead := i + 12\<rparr> else p\<lparr>bufferRead := i\<rparr>)
     else p)"

definition be32 :: "string \<Rightarrow> nat" where
  "be32 s = foldl (\<lambda>v c. v * 256 + of_char c) 0 (take 4 s)"

text \<open>Reading the number of frames ends the loop until the next call.\<close>

function read_sizes :: "player_thread \<Rightarrow> player_thread option" where
  "read_sizes p =
    (if bufferRead p + 4 < length (buffer p) then
       (let n = be32 (drop (bufferRead p) (buffer p)) in
        if sampleSizeN p = 0 then
          (let p = p\<lparr>sampleSizeN := n, sampleSize := [], bufferRead := bufferRead p + 4, sampleSizeCurr := 0\<rparr>
           in map_option (\<lambda>d. p\<lparr>songDuration := d\<rparr>) (played_ms (n * 4096) p))
        else if sampleSizeCurr p \<ge> sampleSizeN p then None
        else (let p = p\<lparr>sampleSize := take (sampleSizeCurr p) (sampleSize p) @ [n] @ drop (Suc (sampleSizeCurr p)) (sampleSize p),
                  sampleSizeCurr := sampleSizeCurr p + 1, bufferRead := bufferRead p + 4\<rparr>
           in if sampleSizeCurr p \<ge> sampleSizeN p then Some (p\<lparr>mode := PLAYER_SAMPLESIZE_INITIALIZED\<rparr>) else read_sizes p))
     else Some p)"
  by pat_completeness auto
termination by (relation "measure (\<lambda>p. length (buffer p) - bufferRead p)") auto

declare read_sizes.simps [simp del]

definition get_sizes :: "player_thread \<Rightarrow> player_thread option" where
  "get_sizes p = (if mode p = PLAYER_FOUND_STSZ then read_sizes p else Some p)"

definition find_mdat :: "player_thread \<Rightarrow> player_thread" where
  "find_mdat p =
    (if mode p = PLAYER_SAMPLESIZE_INITIALIZED then
       (let (found, i) = search_tag ''mdat'' 4 (buffer p) (bufferRead p) in
        if found then p\<lparr>mode := PLAYER_RECV_DATA, sampleSizeCurr := 0, bufferRead := i + 4\<rparr> else p\<lparr>bufferRead := i\<rparr>)
     else p)"

text \<open>The frames in the buffer are decoded and played; a frame that cannot be decoded is skipped.\<close>

partial_function (option) play_frames :: "sound \<Rightarrow> player_thread \<Rightarrow> (bool \<times> player_thread) option" where
  "play_frames au p =
    (if sampleSizeCurr p < sampleSizeN p \<and> length (sampleSize p) \<le> sampleSizeCurr p then None
     else if sampleSizeCurr p < sampleSizeN p \<and> sampleSize p ! sampleSizeCurr p \<le> length (buffer p) - bufferRead p then do {
       (quit, p) \<leftarrow> BarPlayerCheckPauseQuit p;
       (if quit then Some (False, p)
        else (let n = sampleSize p ! sampleSizeCurr p;
             frame = take n (drop (bufferRead p) (buffer p));
             info = NeAACDecDecode au (fed p) frame;
             p = p\<lparr>bufferRead := bufferRead p + n, sampleSizeCurr := sampleSizeCurr p + 1, fed := fed p @ [frame]\<rparr>
           in if frame_error info \<noteq> 0 then play_frames au p
              else if bytesconsumed info \<noteq> n then None
              else do {
                ms \<leftarrow> played_ms (length (frame_samples info)) p;
                play_frames au (p\<lparr>played := played p @ [map (\<lambda>v. applyReplayGain v (player_scale p)) (frame_samples info)],
                  songPlayed := songPlayed p + ms\<rparr>)
              }))
     }
     else Some (True, p))"

definition drop_rest :: "player_thread \<Rightarrow> player_thread" where
  "drop_rest p = (if sampleSizeCurr p \<ge> sampleSizeN p then p\<lparr>bufferRead := length (buffer p)\<rparr> else p)"

definition capture_write_stream :: "player_thread \<Rightarrow> player_thread" where
  "capture_write_stream p = p\<lparr>capture_file := map_option (\<lambda>s. s @ take (bufferRead p) (buffer p)) (capture_file p)\<rparr>"

definition aac_header :: "sound \<Rightarrow> player_thread \<Rightarrow> (bool \<times> player_thread) option" where
  "aac_header au p =
    (case find_config au (find_esds p) of
        (False, p) \<Rightarrow> Some (False, p)
      | (True, p) \<Rightarrow> do { p \<leftarrow> get_sizes (find_stsz p); Some (True, find_mdat p) })"

text \<open>True is WAITRESS_CB_RET_OK.\<close>

definition BarPlayerAACCb :: "sound \<Rightarrow> string \<Rightarrow> player_thread \<Rightarrow> (bool \<times> player_thread) option" where
  "BarPlayerAACCb au d p = do {
    (quit, p) \<leftarrow> BarPlayerCheckPauseQuit p;
    (case (if quit then None else BarPlayerBufferFill d p) of
        None \<Rightarrow> Some (False, p)
      | Some p \<Rightarrow> do {
          (ok, p) \<leftarrow> (if mode p = PLAYER_RECV_DATA
            then do { (ok, p) \<leftarrow> play_frames au p; Some (ok, if ok then drop_rest p else p) }
            else aac_header au p);
          Some (if ok then (True, BarPlayerBufferMove (capture_write_stream p)) else (False, p))
        })
  }"

section \<open>MP3\<close>

definition PANDORA_MP3_BITRATE :: nat where
  "PANDORA_MP3_BITRATE = 192000"

definition mp3_does :: "mp3_call \<Rightarrow> player_thread \<Rightarrow> player_thread" where
  "mp3_does c p = p\<lparr>mp3_calls := mp3_calls p @ [c]\<rparr>"

text \<open>A new format: the device is opened the first time.\<close>

definition mp3_new_format :: "sound \<Rightarrow> nat \<Rightarrow> player_thread \<Rightarrow> bool \<times> player_thread" where
  "mp3_new_format au content_length p =
    (let (rate, ch) = mpg123_getformat au (mp3_calls p); p = p\<lparr>samplerate := rate, channels := ch mod 256\<rparr> in
     if mode p < PLAYER_AUDIO_INITIALIZED then
       (if BarPlayerOpenAudioOut au p
        then (True, p\<lparr>songDuration := content_length div (PANDORA_MP3_BITRATE div BAR_PLAYER_MS_TO_S_FACTOR div 8), mode := PLAYER_RECV_DATA\<rparr>)
        else (False, p\<lparr>aoError := True\<rparr>))
     else (True, p))"

definition le32 :: "nat \<Rightarrow> string" where
  "le32 n = map (\<lambda>i. char_of (n div 256 ^ i)) [0, 1, 2, 3]"

text \<open>The header and the body of the frame go to the capture file; the bit rate of a first frame with a Xing header is replaced.\<close>

definition mp3_capture :: "sound \<Rightarrow> mp3_status \<Rightarrow> player_thread \<Rightarrow> player_thread option" where
  "mp3_capture au ftype p = (case mpg123_framedata au (mp3_calls p) of
      None \<Rightarrow> None
    | Some (header, body) \<Rightarrow>
        (let header = (if ftype = MPG123_NEW_FORMAT \<and> take 4 (drop 32 body) = ''Xing''
             then (header AND 0xFFFF0FFF) OR 0xB000 else header)
         in Some (p\<lparr>capture_file := map_option (\<lambda>s. s @ rev (le32 header) @ body) (capture_file p)\<rparr>)))"

text \<open>
  Decoding of one frame: the size of the frame in bytes, and the player.  None is the error of the decoder.
\<close>

definition mp3_frame :: "sound \<Rightarrow> mp3_status \<Rightarrow> player_thread \<Rightarrow> (nat \<times> player_thread) option" where
  "mp3_frame au ftype p = do {
    p \<leftarrow> map_option (mp3_does Mp3_framedata) (mp3_capture au ftype p);
    (frame_size, samples) \<leftarrow> mpg123_framebyframe_decode au (mp3_calls p);
    let p = mp3_does Mp3_decode p;
    Some (frame_size, if frame_size > 0
      then p\<lparr>played := played p @ [map (\<lambda>v. applyReplayGain v (player_scale p)) (take (frame_size div 2) samples)]\<rparr> else p)
  }"

text \<open>\<open>frame_size\<close> is a local variable: what the last decoded frame left in it, and before the first what was on the stack.\<close>

definition mp3_count :: "nat \<Rightarrow> player_thread \<Rightarrow> player_thread option" where
  "mp3_count frame_size p =
    (if mode p = PLAYER_RECV_DATA then
       (if channels p = 0 \<or> samplerate p = 0 then None
        else Some (p\<lparr>songPlayed := songPlayed p + frame_size div (channels p * 2) * BAR_PLAYER_MS_TO_S_FACTOR div samplerate p\<rparr>))
     else Some p)"

partial_function (option) mp3_loop :: "sound \<Rightarrow> nat \<Rightarrow> nat \<Rightarrow> player_thread \<Rightarrow> (bool \<times> player_thread) option" where
  "mp3_loop au content_length frame_size p =
    (let ftype = mpg123_framebyframe_next au (mp3_calls p);
         (ok, p) = (if ftype = MPG123_NEW_FORMAT then mp3_new_format au content_length (mp3_does Mp3_next p) else (True, mp3_does Mp3_next p)) in
     if \<not> ok then Some (False, p)
     else (case (if ftype = MPG123_NEW_FORMAT \<or> ftype = MPG123_OK then mp3_frame au ftype p else Some (frame_size, p)) of
         None \<Rightarrow> Some (False, p)
       | Some (frame_size, p) \<Rightarrow> do {
           p \<leftarrow> mp3_count frame_size p;
           (quit, p) \<leftarrow> BarPlayerCheckPauseQuit p;
           (if quit then Some (False, p)
            else if ftype = MPG123_NEED_MORE \<or> ftype = MPG123_DONE then Some (True, p)
            else mp3_loop au content_length frame_size p)
         }))"

definition shout_buffer :: "sound \<Rightarrow> player_thread \<Rightarrow> player_thread" where
  "shout_buffer au p = (case shout_service p of
      None \<Rightarrow> p
    | Some svc \<Rightarrow> (case sc_buffer_get (sc_malloc_ok au) (bufferRead p) (sc_buffers svc) of
          (None, pool) \<Rightarrow> p\<lparr>shout_service := Some (svc\<lparr>sc_buffers := pool\<rparr>)\<rparr>
        | (Some b, pool) \<Rightarrow> p\<lparr>shout_service := Some (sc_queue_add (sc_malloc_ok au) (b\<lparr>sd_buf := take (bufferRead p) (buffer p)\<rparr>) SCDATA
            (svc\<lparr>sc_buffers := pool\<rparr>))\<rparr>))"

definition BarPlayerMp3Cb :: "sound \<Rightarrow> nat \<Rightarrow> nat \<Rightarrow> string \<Rightarrow> player_thread \<Rightarrow> (bool \<times> player_thread) option" where
  "BarPlayerMp3Cb au content_length garbage d p = do {
    (quit, p) \<leftarrow> BarPlayerCheckPauseQuit p;
    (case (if quit then None else BarPlayerBufferFill d p) of
        None \<Rightarrow> Some (False, p)
      | Some p \<Rightarrow> do {
          (ok, p) \<leftarrow> mp3_loop au content_length garbage (mp3_does (Mp3_feed (buffer p)) p);
          Some (if ok then (True, (shout_buffer au (p\<lparr>bufferRead := length (buffer p)\<rparr>))\<lparr>buffer := []\<rparr>) else (False, p))
        })
  }"

section \<open>Capturing the stream\<close>

text \<open>Characters that file systems do not like are replaced.\<close>

definition capture_char :: "char \<Rightarrow> char" where
  "capture_char c =
    (if c = CHR ''<'' then CHR ''[''
     else if c = CHR ''>'' then CHR '']''
     else if c = CHR '':'' then CHR '';''
     else if c = CHR 0x22 then CHR 0x27
     else if c = CHR ''*'' \<or> c = CHR ''?'' then CHR ''!''
     else if c = CHR ''/'' \<or> c = CHR 0x5C \<or> c = CHR ''|'' then CHR ''_''
     else c)"

definition capture_normalize_strcat :: "string \<Rightarrow> string \<Rightarrow> string" where
  "capture_normalize_strcat fname str = fname @ map capture_char str"

text \<open>\<open>None\<close>: the path is empty, or the name does not fit into the memory allocated for it.\<close>

definition capture_name :: "audio_format \<Rightarrow> string \<Rightarrow> song \<Rightarrow> string option" where
  "capture_name format path song =
    (let allocated = length path + length (artist song) + length (title song) + 4 + 3 + 2;
         name = (if path \<noteq> [] \<and> last path \<noteq> CHR ''/'' then path @ ''/'' else path);
         name = capture_normalize_strcat name (artist song) @ '' - '';
         name = capture_normalize_strcat name (title song) @ (if format = PIANO_AF_AACPLUS then ''.aac'' else ''.mp3'')
     in if path = [] \<or> allocated < length name + 1 then None else Some name)"

text \<open>
  Closing: \<open>opened\<close> is the name the file was opened with, \<open>capture_fname\<close> the field of the player, which is NULL while the
  file is being opened.  \<open>seen\<close> is the size that stat reports, which is asked for before the file is closed (what is on the stack when there is no
  name); an empty file is removed.  The file system maps names to contents.
\<close>

definition capture_close_file :: "nat \<Rightarrow> string \<Rightarrow> string option \<Rightarrow> player_thread \<Rightarrow> fs \<Rightarrow> player_thread \<times> fs" where
  "capture_close_file seen opened capture_fname p files =
    (case capture_file p of
        None \<Rightarrow> (p, files)
      | Some content \<Rightarrow> (p\<lparr>capture_file := None\<rparr>,
          case capture_fname of
            Some n \<Rightarrow> if seen = 0 then files(n := None) else files(opened := Some content)
          | None \<Rightarrow> files(opened := Some content)))"

section \<open>The thread\<close>

text \<open>What a request meets, given its Range header: the lookup of the server, the TLS handshake, and what the connection gives.\<close>

type_synonym attempt = "string \<Rightarrow> address_try list option \<times> int \<times> net"

definition range_header :: "nat \<Rightarrow> string" where
  "range_header n = snprintf 32 (''Range: bytes='' @ show_nat n @ ''-'' @ crlf)"

definition guarded :: "(string \<Rightarrow> 'p \<Rightarrow> (bool \<times> 'p) option) \<Rightarrow> string \<Rightarrow> 'p option \<Rightarrow> bool \<times> 'p option" where
  "guarded cb d p = (case Option.bind p (cb d) of None \<Rightarrow> (False, None) | Some (ok, p) \<Rightarrow> (ok, Some p))"

definition player_handle :: "(string \<Rightarrow> player_thread \<Rightarrow> (bool \<times> player_thread) option) \<Rightarrow> player_thread \<Rightarrow>
    player_thread option http_handle" where
  "player_handle cb p = \<lparr>post = False, extraHeaders = Some (range_header (bytesReceived p)), postData = None, cb_data = Some p,
    callback = guarded cb, h_url = player_url p, h_tls = False, h_tlsPort = None, h_proxy = player_proxy p, request = no_request\<rparr>"

text \<open>The song is asked for again, from the first byte that has not been received, as long as the connection fails.\<close>

partial_function (option) player_fetch :: "(string \<Rightarrow> player_thread \<Rightarrow> (bool \<times> player_thread) option) \<Rightarrow> attempt stream \<Rightarrow>
    player_thread \<Rightarrow> (int \<times> player_thread) option" where
  "player_fetch cb attempts p = do {
    let (lookup, tls_ret, net) = shd attempts (range_header (bytesReceived p));
    (ret, _, h) \<leftarrow> WaitressFetchCall lookup tls_ret net (player_handle cb p);
    p \<leftarrow> cb_data h;
    (if ret = WAITRESS_RET_PARTIAL_FILE \<or> ret = WAITRESS_RET_TIMEOUT \<or> ret = WAITRESS_RET_READ_ERR
     then player_fetch cb (stl attempts) p else Some (ret, p))
  }"

definition player_result :: "int \<Rightarrow> player_thread \<Rightarrow> player_ret" where
  "player_result ret p =
    (if ret \<noteq> WAITRESS_RET_OK \<and> ret \<noteq> WAITRESS_RET_CB_ABORT then PLAYER_RET_SOFTFAIL
     else if aoError p then PLAYER_RET_HARDFAIL else PLAYER_RET_OK)"

text \<open>\<open>content_length\<close> of the MP3 callback is that of the request; \<open>garbage\<close> is what its variable frame_size starts with.\<close>

definition BarPlayerThread :: "sound \<Rightarrow> nat \<Rightarrow> nat \<Rightarrow> attempt stream \<Rightarrow> player_thread \<Rightarrow> (player_ret \<times> player_thread) option" where
  "BarPlayerThread au content_length garbage attempts p =
    (if player_format p = PIANO_AF_AACPLUS \<or> player_format p = PIANO_AF_MP3 then do {
       (ret, p) \<leftarrow> player_fetch (if player_format p = PIANO_AF_AACPLUS then BarPlayerAACCb au else BarPlayerMp3Cb au content_length garbage)
         attempts (p\<lparr>mode := PLAYER_INITIALIZED\<rparr>);
       Some (player_result ret p, p\<lparr>mode := PLAYER_FINISHED_PLAYBACK\<rparr>)
     }
     else Some (PLAYER_RET_HARDFAIL, p\<lparr>mode := PLAYER_FINISHED_PLAYBACK\<rparr>))"

end
