(* ===== verification/PlayerProofs.thy ===== *)
theory PlayerProofs
  imports Player
begin

text \<open>
  The player of \<open>src/src/player.c\<close>: the volume is applied without wrap-around as long as the scale is sane, the names of captured files
  stay in the capture directory, and whatever the sizes of the blocks that the network delivers, the AAC decoder gets exactly the frames
  that the table of sizes announces, in order and from the start of the data on, while the capture file gets the stream unchanged.
\<close>

section \<open>Volume\<close>

lemma to_int32_small: "to_int32 x = x" if "- (2 ^ 31) \<le> x" "x < 2 ^ 31"
  using that by (simp add: to_int32_def)

lemma c_div_clip:
  "c_div x 100 = (if x \<ge> 0 then x div 100 else - ((- x) div 100))"
  by (auto simp: c_div_def sgn_if)

lemma gain_product_bounds:
  assumes "scale \<le> 65535" "SHRT_MIN \<le> v" "v \<le> SHRT_MAX"
  shows "- 2147450880 \<le> v * int scale" "v * int scale \<le> 2147450880"
proof -
  have v: "- 32768 \<le> v" "v \<le> 32768" using assms by (auto simp: SHRT_MIN_def SHRT_MAX_def)
  have "\<bar>v * int scale\<bar> \<le> 32768 * 65535"
    unfolding abs_mult using v assms(1) by (intro mult_mono) auto
  then show "- 2147450880 \<le> v * int scale" "v * int scale \<le> 2147450880" by linarith+
qed

text \<open>
  With a scale of at most 65535, which is a gain of 56 dB, the player's volume is the exact product, rounded towards zero and
  cut off at the ends of a short: the product of 32 bits does not wrap before it is tested against clipping.
\<close>

theorem replay_gain_clips:
  assumes "scale \<le> 65535" "SHRT_MIN \<le> v" "v \<le> SHRT_MAX"
  shows "applyReplayGain v scale = max SHRT_MIN (min SHRT_MAX (c_div (v * int scale) 100))"
proof -
  define x where "x = v * int scale"
  have x: "- 2147450880 \<le> x" "x \<le> 2147450880" using gain_product_bounds [OF assms] by (simp_all add: x_def)
  then have wrap: "to_int32 x = x" by (intro to_int32_small) auto
  consider "x > SHRT_MAX * 100" | "x < SHRT_MIN * 100" | "SHRT_MIN * 100 \<le> x" "x \<le> SHRT_MAX * 100" by linarith
  then show ?thesis
    unfolding applyReplayGain_def Let_def x_def [symmetric] wrap c_div_clip SHRT_MAX_def SHRT_MIN_def
    by cases (auto simp: max_def min_def)
qed

theorem replay_gain_clips_witness:
  "applyReplayGain (- 30000) 316 = max SHRT_MIN (min SHRT_MAX (c_div (- 9480000) 100)) \<and> applyReplayGain 1001 50 = 500"
  using replay_gain_clips [of 316 "- 30000"] by (simp add: SHRT_MAX_def SHRT_MIN_def applyReplayGain_def to_int32_def c_div_def)

text \<open>A volume of 90 dB turns a sample of 1000 to the lowest one.\<close>

lemma replay_gain_wraps: "applyReplayGain 1000 3162277 = SHRT_MIN"
  by (simp add: applyReplayGain_def to_int32_def SHRT_MAX_def SHRT_MIN_def c_div_def)

section \<open>Names of captured files\<close>

lemma capture_char_plain:
  "capture_char c \<noteq> CHR ''/''" "capture_char c \<noteq> CHR 0x5C" "capture_char c = CHR 0x00 \<longleftrightarrow> c = CHR 0x00"
  by (auto simp: capture_char_def)

text \<open>
  C27: Whatever the artist and the title of a song are, the name of its capture file fits into the memory that is allocated for it, and
  it is a file directly in the capture directory: what follows the directory holds no slash and no backslash, has the length of
  artist and title and seven characters, and is not "..".
\<close>

theorem capture_stays_in_directory:
  assumes "path \<noteq> []"
  shows "\<exists>file. capture_name format path song = Some ((if last path = CHR ''/'' then path else path @ ''/'') @ file)
    \<and> CHR ''/'' \<notin> set file \<and> CHR 0x5C \<notin> set file
    \<and> length file = length (artist song) + length (title song) + 7 \<and> file \<noteq> ''..''"
proof -
  let ?file = "map capture_char (artist song) @ '' - '' @ map capture_char (title song)
    @ (if format = PIANO_AF_AACPLUS then ''.aac'' else ''.mp3'')"
  have "capture_name format path song = Some ((if last path = CHR ''/'' then path else path @ ''/'') @ ?file)"
    using assms by (auto simp: capture_name_def capture_normalize_strcat_def Let_def)
  moreover have "CHR ''/'' \<notin> set ?file" "CHR 0x5C \<notin> set ?file"
    using capture_char_plain by (auto dest: sym)
  moreover have "length ?file = length (artist song) + length (title song) + 7" by simp
  moreover have "?file \<noteq> ''..''" by (auto simp: append_eq_Cons_conv Cons_eq_append_conv)
  ultimately show ?thesis by blast
qed

definition evil_song :: song where
  "evil_song = \<lparr>artist = ''AC/DC'', stationId = None, album = None, audioUrl = None, coverArt = None, musicId = None, title = ''../x'',
    seedId = None, feedbackId = None, detailUrl = None, trackToken = None, fileGain = 0, song_length = 0, song_rating = PIANO_RATE_NONE,
    audioFormat = PIANO_AF_MP3\<rparr>"

theorem capture_stays_in_directory_witness:
  "capture_name PIANO_AF_MP3 ''/music'' evil_song
    = Some ''/music/AC_DC - .._x.mp3''
   \<and> (\<exists>file. capture_name PIANO_AF_MP3 ''/music'' evil_song
       = Some (''/music'' @ ''/'' @ file) \<and> CHR ''/'' \<notin> set file)"
proof
  show "capture_name PIANO_AF_MP3 ''/music'' evil_song
    = Some ''/music/AC_DC - .._x.mp3''"
    by (simp add: capture_name_def capture_normalize_strcat_def capture_char_def evil_song_def)
next
  show "\<exists>file. capture_name PIANO_AF_MP3 ''/music'' evil_song
       = Some (''/music'' @ ''/'' @ file) \<and> CHR ''/'' \<notin> set file"
    using capture_stays_in_directory [of "''/music''" PIANO_AF_MP3 evil_song]
    by auto
qed

section \<open>Numbers of the container\<close>

definition enc32 :: "nat \<Rightarrow> string" where
  "enc32 n = rev (le32 n)"

lemma length_enc32 [simp]: "length (enc32 n) = 4"
  by (simp add: enc32_def le32_def)

lemma of_char_byte: "(of_char c :: nat) < 256"
  by simp

lemma take4: "4 \<le> length s \<Longrightarrow> \<exists>a b c d. take 4 s = [a, b, c, d]"
  by (cases s; cases "tl s"; cases "tl (tl s)"; cases "tl (tl (tl s))") (auto simp: numeral_eq_Suc)

lemma char_of_digit: "(char_of (v * 256 + of_char c :: nat) :: char) = c"
proof -
  have "(char_of (v * 256 + of_char c :: nat) :: char) = char_of ((v * 256 + of_char c) mod 256 :: nat)" by (simp only: char_of_mod_256)
  then show ?thesis by simp
qed

lemma div_digit: "(v * 256 + of_char c :: nat) div 256 = v"
  by simp

lemma enc32_be32:
  assumes "4 \<le> length s"
  shows "enc32 (be32 s) = take 4 s"
proof -
  obtain a b c d where s: "take 4 s = [a, b, c, d]" using take4 [OF assms] by blast
  define x where "x = (of_char a :: nat)"
  have be: "be32 s = ((x * 256 + of_char b) * 256 + of_char c) * 256 + of_char d"
    by (simp add: be32_def s x_def)
  have "be32 s div 256 ^ 1 = (x * 256 + of_char b) * 256 + of_char c"
    "be32 s div 256 ^ 2 = x * 256 + of_char b" "be32 s div 256 ^ 3 = x"
    by (simp_all only: be power_one_right power2_eq_square power3_eq_cube div_mult2_eq div_digit)
  then have "le32 (be32 s) = [char_of (be32 s), char_of ((x * 256 + of_char b) * 256 + of_char c), char_of (x * 256 + of_char b), char_of x]"
    by (simp add: le32_def)
  moreover have "char_of (be32 s) = d" by (simp only: be char_of_digit)
  ultimately have "le32 (be32 s) = [d, c, b, a]" by (simp only: char_of_digit x_def char_of_char)
  then show ?thesis by (simp add: enc32_def s)
qed

section \<open>Searching\<close>

lemma search_tag_bounds: "search_tag tag m b i = (f, j) \<Longrightarrow> i \<le> length b \<Longrightarrow> i \<le> j \<and> j \<le> length b"
proof (induction tag m b i rule: search_tag.induct)
  case (1 tag m b i)
  then show ?case by (auto simp: search_tag.simps [of tag m b i] split: if_splits)
qed

lemma search_tag_found: "search_tag tag m b i = (True, j) \<Longrightarrow> i \<le> j \<and> j + m < length b \<and> take 4 (drop j b) = tag"
proof (induction tag m b i rule: search_tag.induct)
  case (1 tag m b i)
  then show ?case by (auto simp: search_tag.simps [of tag m b i] split: if_splits)
qed

lemma take_through: "i \<le> j \<Longrightarrow> take j b = take i b @ take (j - i) (drop i b)"
  by (metis le_add_diff_inverse take_add)

lemma search_tag_skips:
  assumes "search_tag tag m b i = (f, j)" "i \<le> length b"
  obtains gap where "take j b = take i b @ gap"
  using take_through search_tag_bounds [OF assms] by blast

lemma search_tag_splits:
  assumes "search_tag tag m b i = (True, j)"
  obtains gap where "take (j + 4 + n) b = take i b @ gap @ tag @ take n (drop (j + 4) b)"
proof -
  note found = search_tag_found [OF assms]
  have "take (j + 4 + n) b = take j b @ take 4 (drop j b) @ take n (drop (j + 4) b)"
    by (simp only: take_add append_assoc)
  moreover have "take j b = take i b @ take (j - i) (drop i b)" using found by (intro take_through) blast
  ultimately show ?thesis using found that by simp
qed

section \<open>What has been read of an AAC stream\<close>

text \<open>The table of sizes in the stream, from the start on: what precedes it, version and flags, words of zero, the number of frames, and their sizes.\<close>

definition size_table :: "string \<Rightarrow> string \<Rightarrow> nat \<Rightarrow> nat \<Rightarrow> nat list \<Rightarrow> string" where
  "size_table pre v k n sizes = pre @ ''stsz'' @ v @ replicate (4 * k) (CHR 0x00) @ enc32 n @ concat (map enc32 sizes)"

definition aac_stage :: "string \<Rightarrow> player_thread \<Rightarrow> bool" where
  "aac_stage s p = (case mode p of
      PLAYER_FOUND_STSZ \<Rightarrow> fed p = [] \<and> (\<exists>pre v k. length v = 8 \<and>
        (if sampleSizeN p = 0 then s = pre @ ''stsz'' @ v @ replicate (4 * k) (CHR 0x00)
         else s = size_table pre v k (sampleSizeN p) (sampleSize p) \<and> length (sampleSize p) = sampleSizeCurr p \<and> sampleSizeCurr p < sampleSizeN p))
    | PLAYER_SAMPLESIZE_INITIALIZED \<Rightarrow> fed p = [] \<and> (\<exists>pre v k gap. length v = 8
        \<and> s = size_table pre v k (sampleSizeN p) (sampleSize p) @ gap \<and> length (sampleSize p) = sampleSizeN p)
    | PLAYER_RECV_DATA \<Rightarrow> (\<exists>pre v k gap rest. length v = 8
        \<and> s = size_table pre v k (sampleSizeN p) (sampleSize p) @ gap @ ''mdat'' @ concat (fed p) @ rest
        \<and> length (sampleSize p) = sampleSizeN p \<and> sampleSizeCurr p \<le> sampleSizeN p
        \<and> map length (fed p) = take (sampleSizeCurr p) (sampleSize p) \<and> (rest \<noteq> [] \<longrightarrow> sampleSizeCurr p = sampleSizeN p))
    | m \<Rightarrow> m \<in> {PLAYER_INITIALIZED, PLAYER_FOUND_ESDS, PLAYER_AUDIO_INITIALIZED} \<and> sampleSizeN p = 0 \<and> fed p = [])"

text \<open>The stage within a callback: \<open>done\<close> are the bytes read by earlier calls.  The buffer and what was received stay.\<close>

definition aac_at :: "string \<Rightarrow> player_thread \<Rightarrow> bool" where
  "aac_at s p = (bufferRead p \<le> length (buffer p) \<and> aac_stage (s @ take (bufferRead p) (buffer p)) p)"

definition same_input :: "player_thread \<Rightarrow> player_thread \<Rightarrow> bool" where
  "same_input p q = (buffer q = buffer p \<and> bytesReceived q = bytesReceived p \<and> capture_file q = capture_file p)"

lemma same_input_refl [simp]: "same_input p p"
  by (simp add: same_input_def)

lemma same_input_trans: "same_input p q \<Longrightarrow> same_input q r \<Longrightarrow> same_input p r"
  by (simp add: same_input_def)

lemma early_stage:
  "mode p \<in> {PLAYER_INITIALIZED, PLAYER_FOUND_ESDS, PLAYER_AUDIO_INITIALIZED} \<Longrightarrow> aac_stage s p = (sampleSizeN p = 0 \<and> fed p = [])"
  by (auto simp: aac_stage_def)

lemma stage_before_count:
  assumes "mode p = PLAYER_FOUND_STSZ" "sampleSizeN p = 0" "fed p = []" "length v = 8" "s = pre @ ''stsz'' @ v @ replicate (4 * k) (CHR 0x00)"
  shows "aac_stage s p"
proof -
  have "\<exists>pre v k. length v = 8 \<and> s = pre @ ''stsz'' @ v @ replicate (4 * k) (CHR 0x00)"
    using assms(4,5) by (intro exI conjI)
  then show ?thesis unfolding aac_stage_def assms(1,2,3) by simp
qed

lemma find_esds_at:
  assumes "aac_at s p"
  shows "aac_at s (find_esds p)" "same_input p (find_esds p)"
proof -
  show "same_input p (find_esds p)" by (auto simp: find_esds_def same_input_def split: prod.split)
  obtain f j where t: "search_tag ''esds'' 4 (buffer p) (bufferRead p) = (f, j)" by fastforce
  have b: "bufferRead p \<le> length (buffer p)" using assms by (simp add: aac_at_def)
  show "aac_at s (find_esds p)"
    using assms search_tag_bounds [OF t b] search_tag_found [of "''esds''" 4 "buffer p" "bufferRead p" j] t
    by (auto simp: find_esds_def aac_at_def early_stage)
qed

lemma find_config_at:
  assumes "aac_at s p" "find_config au p = (True, q)"
  shows "aac_at s q" "same_input p q"
proof -
  obtain f j where t: "search_tag config_tag 10 (buffer p) (bufferRead p) = (f, j)" by fastforce
  have b: "bufferRead p \<le> length (buffer p)" using assms by (simp add: aac_at_def)
  show "aac_at s q" "same_input p q"
    using assms search_tag_bounds [OF t b] search_tag_found [of config_tag 10 "buffer p" "bufferRead p" j] t
    by (auto simp: find_config_def aac_at_def same_input_def early_stage Let_def split: if_splits prod.splits)
qed

lemma find_stsz_at:
  assumes at: "aac_at s p"
  shows "aac_at s (find_stsz p)" "same_input p (find_stsz p)"
proof -
  show "same_input p (find_stsz p)" by (auto simp: find_stsz_def same_input_def split: prod.split)
  obtain f j where t: "search_tag ''stsz'' 12 (buffer p) (bufferRead p) = (f, j)" by fastforce
  have b: "bufferRead p \<le> length (buffer p)" using at by (simp add: aac_at_def)
  show "aac_at s (find_stsz p)"
  proof (cases "mode p = PLAYER_AUDIO_INITIALIZED \<and> f")
    case True
    then have t: "search_tag ''stsz'' 12 (buffer p) (bufferRead p) = (True, j)" using t by simp
    obtain gap where gap: "take (j + 4 + 8) (buffer p) = take (bufferRead p) (buffer p) @ gap @ ''stsz'' @ take 8 (drop (j + 4) (buffer p))"
      by (rule search_tag_splits [OF t])
    have long: "j + 12 < length (buffer p)" using search_tag_found [OF t] by simp
    have whole: "s @ take (j + 12) (buffer p)
        = (s @ take (bufferRead p) (buffer p) @ gap) @ ''stsz'' @ take 8 (drop (j + 4) (buffer p)) @ replicate (4 * 0) (CHR 0x00)"
      using gap by (simp add: add.assoc)
    have v: "length (take 8 (drop (j + 4) (buffer p))) = 8" using long by simp
    have "sampleSizeN p = 0" "fed p = []" using at True by (simp_all add: aac_at_def early_stage)
    then have "aac_stage (s @ take (j + 12) (buffer p)) (p\<lparr>mode := PLAYER_FOUND_STSZ, bufferRead := j + 12\<rparr>)"
      by (intro stage_before_count [OF _ _ _ v whole]) simp_all
    then show ?thesis using True t long by (simp add: find_stsz_def aac_at_def)
  next
    case False
    then show ?thesis
      using at t search_tag_bounds [OF t b] by (auto simp: find_stsz_def aac_at_def early_stage)
  qed
qed

lemma take_word:
  assumes "i + 4 \<le> length b"
  shows "take (i + 4) b = take i b @ enc32 (be32 (drop i b))"
  using assms by (simp add: enc32_be32 take_add)

lemma enc32_0: "enc32 0 = replicate 4 (CHR 0x00)"
  by (simp add: enc32_def le32_def numeral_eq_Suc char_of_def)

lemma read_count_stage:
  assumes "aac_stage s p" "mode p = PLAYER_FOUND_STSZ" "sampleSizeN p = 0"
    "mode q = PLAYER_FOUND_STSZ" "sampleSizeN q = n" "sampleSize q = []" "sampleSizeCurr q = 0" "fed q = fed p"
  shows "aac_stage (s @ enc32 n) q"
proof -
  obtain pre v k where s: "s = pre @ ''stsz'' @ v @ replicate (4 * k) (CHR 0x00)" "length v = 8" "fed p = []"
    using assms(1-3) by (auto simp: aac_stage_def)
  show ?thesis
  proof (cases "n = 0")
    case True
    have "replicate (4 * k) (CHR 0x00) @ enc32 n = replicate (4 * Suc k) (CHR 0x00)"
      by (simp add: True enc32_0 replicate_add [symmetric] add.commute)
    then have whole: "s @ enc32 n = pre @ ''stsz'' @ v @ replicate (4 * Suc k) (CHR 0x00)"
      using s(1) by simp
    show ?thesis using assms s(3) True by (intro stage_before_count [OF _ _ _ s(2) whole]) simp_all
  next
    case False
    have "s @ enc32 n = size_table pre v k n []" using s by (simp add: size_table_def)
    then show ?thesis using assms s False by (simp add: aac_stage_def) blast
  qed
qed

lemma read_size_stage:
  assumes "aac_stage s p" "mode p = PLAYER_FOUND_STSZ" "sampleSizeN p \<noteq> 0"
    "mode q = (if Suc (sampleSizeCurr p) \<ge> sampleSizeN p then PLAYER_SAMPLESIZE_INITIALIZED else PLAYER_FOUND_STSZ)"
    "sampleSizeN q = sampleSizeN p" "sampleSizeCurr q = Suc (sampleSizeCurr p)" "fed q = fed p"
    "sampleSize q = take (sampleSizeCurr p) (sampleSize p) @ [n] @ drop (Suc (sampleSizeCurr p)) (sampleSize p)"
  shows "aac_stage (s @ enc32 n) q"
proof -
  obtain pre v k where s: "s = size_table pre v k (sampleSizeN p) (sampleSize p)" "length v = 8" "fed p = []"
    "length (sampleSize p) = sampleSizeCurr p" "sampleSizeCurr p < sampleSizeN p"
    using assms(1-3) by (auto simp: aac_stage_def)
  have q: "sampleSize q = sampleSize p @ [n]" using assms(8) s(4) by simp
  then have "s @ enc32 n = size_table pre v k (sampleSizeN q) (sampleSize q) @ []" using s assms(5) by (simp add: size_table_def)
  then show ?thesis
    using assms s q by (simp add: aac_stage_def del: append_Nil2) (metis append_Nil2)
qed

lemma read_sizes_at:
  "read_sizes p = Some q \<Longrightarrow> mode p = PLAYER_FOUND_STSZ \<Longrightarrow> aac_at s p \<Longrightarrow> aac_at s q \<and> same_input p q"
proof (induction p arbitrary: q rule: read_sizes.induct)
  case (1 p)
  define n where "n = be32 (drop (bufferRead p) (buffer p))"
  define entry where "entry = p\<lparr>sampleSize := take (sampleSizeCurr p) (sampleSize p) @ [n] @ drop (Suc (sampleSizeCurr p)) (sampleSize p),
    sampleSizeCurr := sampleSizeCurr p + 1, bufferRead := bufferRead p + 4\<rparr>"
  show ?case
  proof (cases "bufferRead p + 4 < length (buffer p)")
    case False
    then show ?thesis using 1 by (simp add: read_sizes.simps [of p])
  next
    case True
    have word: "s @ take (bufferRead p + 4) (buffer p) = (s @ take (bufferRead p) (buffer p)) @ enc32 n"
      using True by (simp add: take_word n_def)
    have stage: "aac_stage (s @ take (bufferRead p) (buffer p)) p" using 1 by (simp add: aac_at_def)
    show ?thesis
    proof (cases "sampleSizeN p = 0")
      case count: True
      then obtain d where q: "q = p\<lparr>sampleSizeN := n, sampleSize := [], bufferRead := bufferRead p + 4, sampleSizeCurr := 0, songDuration := d\<rparr>"
        using 1 True by (auto simp: read_sizes.simps [of p] Let_def n_def [symmetric])
      have "aac_stage ((s @ take (bufferRead p) (buffer p)) @ enc32 n) q"
        using 1 count by (intro read_count_stage [OF stage]) (simp_all add: q)
      then show ?thesis using True by (simp add: aac_at_def same_input_def word q)
    next
      case entries: False
      let ?last = "Suc (sampleSizeCurr p) \<ge> sampleSizeN p"
      let ?m = "if ?last then PLAYER_SAMPLESIZE_INITIALIZED else PLAYER_FOUND_STSZ"
      have "aac_stage ((s @ take (bufferRead p) (buffer p)) @ enc32 n) (entry\<lparr>mode := ?m\<rparr>)"
        using 1 entries by (intro read_size_stage [OF stage]) (simp_all add: entry_def)
      then have at: "aac_at s (entry\<lparr>mode := ?m\<rparr>)" using True by (simp add: aac_at_def word entry_def)
      have same: "same_input p (entry\<lparr>mode := ?m\<rparr>)" by (simp add: same_input_def entry_def)
      have fits: "\<not> sampleSizeCurr p \<ge> sampleSizeN p" using 1 True entries by (auto simp: read_sizes.simps [of p])
      have steps: "read_sizes p = (if ?last then Some (entry\<lparr>mode := PLAYER_SAMPLESIZE_INITIALIZED\<rparr>) else read_sizes entry)"
        using True entries fits by (simp add: read_sizes.simps [of p] Let_def n_def [symmetric] entry_def)
      show ?thesis
      proof (cases ?last)
        case True
        then show ?thesis using at same steps 1 by simp
      next
        case more: False
        then have entry: "entry\<lparr>mode := ?m\<rparr> = entry" using 1 by (simp add: entry_def)
        have "aac_at s q \<and> same_input entry q"
        proof (rule "1.IH" [OF True n_def entries fits entry_def])
          show "\<not> sampleSizeN entry \<le> sampleSizeCurr entry" using more by (simp add: entry_def)
          show "read_sizes entry = Some q" using 1 steps more by simp
          show "mode entry = PLAYER_FOUND_STSZ" using 1 by (simp add: entry_def)
          show "aac_at s entry" using at unfolding entry .
        qed
        then show ?thesis using same same_input_trans unfolding entry by blast
      qed
    qed
  qed
qed

lemma get_sizes_at:
  assumes "get_sizes p = Some q" "aac_at s p"
  shows "aac_at s q" "same_input p q"
  using assms read_sizes_at by (auto simp: get_sizes_def split: if_splits)

lemma stage_data:
  assumes "mode p = PLAYER_RECV_DATA" "length v = 8"
    "s = size_table pre v k (sampleSizeN p) (sampleSize p) @ gap @ ''mdat'' @ concat (fed p) @ rest"
    "length (sampleSize p) = sampleSizeN p" "sampleSizeCurr p \<le> sampleSizeN p"
    "map length (fed p) = take (sampleSizeCurr p) (sampleSize p)" "rest \<noteq> [] \<Longrightarrow> sampleSizeCurr p = sampleSizeN p"
  shows "aac_stage s p"
  unfolding aac_stage_def assms(1) player_mode.case by (intro exI conjI impI, fact assms(2), fact assms(3)) (use assms in auto)

lemma stage_dataE:
  assumes "aac_stage s p" "mode p = PLAYER_RECV_DATA"
  obtains pre v k gap rest where "length v = 8"
    "s = size_table pre v k (sampleSizeN p) (sampleSize p) @ gap @ ''mdat'' @ concat (fed p) @ rest"
    "length (sampleSize p) = sampleSizeN p" "sampleSizeCurr p \<le> sampleSizeN p"
    "map length (fed p) = take (sampleSizeCurr p) (sampleSize p)" "rest \<noteq> [] \<Longrightarrow> sampleSizeCurr p = sampleSizeN p"
  using assms(1) unfolding aac_stage_def assms(2) player_mode.case by blast

lemma find_mdat_at:
  assumes at: "aac_at s p"
  shows "aac_at s (find_mdat p)" "same_input p (find_mdat p)"
proof -
  show "same_input p (find_mdat p)" by (auto simp: find_mdat_def same_input_def split: prod.split)
  show "aac_at s (find_mdat p)"
  proof (cases "mode p = PLAYER_SAMPLESIZE_INITIALIZED")
    case False
    then show ?thesis using at by (simp add: find_mdat_def)
  next
    case mode: True
    obtain f j where t: "search_tag ''mdat'' 4 (buffer p) (bufferRead p) = (f, j)" by fastforce
    have b: "bufferRead p \<le> length (buffer p)" using at by (simp add: aac_at_def)
    obtain pre v k gap where s: "s @ take (bufferRead p) (buffer p) = size_table pre v k (sampleSizeN p) (sampleSize p) @ gap"
      and table: "fed p = []" "length v = 8" "length (sampleSize p) = sampleSizeN p"
      using at mode by (auto simp: aac_at_def aac_stage_def)
    show ?thesis
    proof (cases f)
      case True
      then have t: "search_tag ''mdat'' 4 (buffer p) (bufferRead p) = (True, j)" using t by simp
      obtain g where "take (j + 4 + 0) (buffer p) = take (bufferRead p) (buffer p) @ g @ ''mdat'' @ take 0 (drop (j + 4) (buffer p))"
        by (rule search_tag_splits [OF t])
      then have whole: "s @ take (j + 4) (buffer p)
          = size_table pre v k (sampleSizeN p) (sampleSize p) @ (gap @ g) @ ''mdat'' @ concat [] @ []"
        using s by (metis add.right_neutral append_assoc append_Nil2 concat.simps(1) take_0)
      have "aac_stage (s @ take (j + 4) (buffer p)) (p\<lparr>mode := PLAYER_RECV_DATA, sampleSizeCurr := 0, bufferRead := j + 4\<rparr>)"
        using table by (intro stage_data [where rest = "[]" and gap = "gap @ g"]) (simp_all add: whole)
      then show ?thesis using mode t search_tag_found [OF t] by (simp add: find_mdat_def aac_at_def)
    next
      case False
      obtain g where "take j (buffer p) = take (bufferRead p) (buffer p) @ g" by (rule search_tag_skips [OF t b])
      then have whole: "s @ take j (buffer p) = size_table pre v k (sampleSizeN p) (sampleSize p) @ (gap @ g)"
        using s by (metis append_assoc)
      then have "\<exists>pre v k gap. length v = 8 \<and> s @ take j (buffer p) = size_table pre v k (sampleSizeN p) (sampleSize p) @ gap"
        using table(2) by (intro exI conjI)
      then show ?thesis
        using mode t False search_tag_bounds [OF t b] table by (simp add: find_mdat_def aac_at_def aac_stage_def)
    qed
  qed
qed

lemma check_keeps':
  "BarPlayerCheckPauseQuit p = Some r \<Longrightarrow> \<exists>x y z. snd r = p\<lparr>doQuit := x, doPause := y, signals := z\<rparr>"
proof (erule BarPlayerCheckPauseQuit.raw_induct [where P = "\<lambda>p r. \<exists>x y z. snd r = p\<lparr>doQuit := x, doPause := y, signals := z\<rparr>", rotated], goal_cases)
  case (1 check p r)
  let ?q = "p\<lparr>doQuit := fst (shd (signals p)), doPause := snd (shd (signals p)), signals := stl (signals p)\<rparr>"
  consider "snd r = ?q" | "check ?q = Some r"
    using 1(2) by (auto simp: Let_def split: if_splits)
  then show ?case
  proof cases
    case 1
    then show ?thesis by blast
  next
    case 2
    from 1(1) [OF this] obtain x y z where "snd r = ?q\<lparr>doQuit := x, doPause := y, signals := z\<rparr>" by blast
    then have "snd r = p\<lparr>doQuit := x, doPause := y, signals := z\<rparr>" by simp
    then show ?thesis by blast
  qed
qed

lemma check_keeps:
  assumes "BarPlayerCheckPauseQuit p = Some (b, q)"
  obtains x y z where "q = p\<lparr>doQuit := x, doPause := y, signals := z\<rparr>"
  using check_keeps' [OF assms] by auto

lemma check_idle:
  "signals p = sconst (False, False) \<Longrightarrow> BarPlayerCheckPauseQuit p = Some (False, p\<lparr>doQuit := False, doPause := False\<rparr>)"
  by (subst BarPlayerCheckPauseQuit.simps) (simp add: Let_def)

lemma frame_at:
  assumes at: "aac_at s p" "mode p = PLAYER_RECV_DATA" and more: "sampleSizeCurr p < sampleSizeN p"
    and n: "n = sampleSize p ! sampleSizeCurr p" "n \<le> length (buffer p) - bufferRead p"
    and q: "mode q = PLAYER_RECV_DATA" "buffer q = buffer p" "bufferRead q = bufferRead p + n" "sampleSizeN q = sampleSizeN p"
      "sampleSizeCurr q = sampleSizeCurr p + 1" "sampleSize q = sampleSize p" "fed q = fed p @ [take n (drop (bufferRead p) (buffer p))]"
  shows "aac_at s q"
proof -
  have "bufferRead p \<le> length (buffer p)" using at(1) by (simp add: aac_at_def)
  then have fits: "bufferRead q \<le> length (buffer p)" using n(2) q(3) by linarith
  have "aac_stage (s @ take (bufferRead p) (buffer p)) p" using at by (simp add: aac_at_def)
  then obtain pre v k gap rest where v: "length v = 8"
    and s: "s @ take (bufferRead p) (buffer p) = size_table pre v k (sampleSizeN p) (sampleSize p) @ gap @ ''mdat'' @ concat (fed p) @ rest"
    and len: "length (sampleSize p) = sampleSizeN p" and fed: "map length (fed p) = take (sampleSizeCurr p) (sampleSize p)"
    and rest: "rest \<noteq> [] \<Longrightarrow> sampleSizeCurr p = sampleSizeN p"
    by (rule stage_dataE [OF _ at(2)]) blast
  have "rest = []" using rest more by fastforce
  then have whole: "s @ take (bufferRead q) (buffer q)
      = size_table pre v k (sampleSizeN q) (sampleSize q) @ gap @ ''mdat'' @ concat (fed q) @ []"
    using s q by (simp add: take_add)
  have "map length (fed q) = take (sampleSizeCurr q) (sampleSize q)"
    using fed len more n q fits by (simp add: take_Suc_conv_app_nth)
  then have "aac_stage (s @ take (bufferRead q) (buffer q)) q"
    using len more q by (intro stage_data [OF q(1) v whole]) simp_all
  then show ?thesis using fits q by (simp add: aac_at_def)
qed

lemma aac_stage_cong:
  assumes "mode q = mode p" "sampleSizeN q = sampleSizeN p" "fed q = fed p"
    "sampleSizeCurr q = sampleSizeCurr p" "sampleSize q = sampleSize p"
  shows "aac_stage s q = aac_stage s p"
  by (simp only: aac_stage_def assms)

lemma aac_at_cong:
  assumes "bufferRead q = bufferRead p" "buffer q = buffer p" "mode q = mode p" "sampleSizeN q = sampleSizeN p" "fed q = fed p"
    "sampleSizeCurr q = sampleSizeCurr p" "sampleSize q = sampleSize p"
  shows "aac_at s q = aac_at s p"
  by (simp only: aac_at_def aac_stage_def assms)

definition frames_done :: "player_thread \<Rightarrow> bool" where
  "frames_done p = (sampleSizeCurr p < sampleSizeN p \<longrightarrow> length (buffer p) - bufferRead p < sampleSize p ! sampleSizeCurr p)"

definition playing :: "string \<Rightarrow> player_thread \<Rightarrow> player_thread \<Rightarrow> bool" where
  "playing s p q = (aac_at s q \<and> mode q = PLAYER_RECV_DATA \<and> same_input p q)"

lemma play_frames_at:
  "play_frames au p = Some r \<Longrightarrow> playing s p0 p \<longrightarrow> fst r \<longrightarrow> playing s p0 (snd r) \<and> frames_done (snd r)"
proof (erule play_frames.raw_induct [where P = "\<lambda>au p r. playing s p0 p \<longrightarrow> fst r \<longrightarrow> playing s p0 (snd r) \<and> frames_done (snd r)",
    rotated], goal_cases)
  case (1 go au p r)
  note go = 1(1) and step = 1(2)
  let ?n = "sampleSize p ! sampleSizeCurr p"
  show ?case
  proof (intro impI)
  assume at: "playing s p0 p" and ok: "fst r"
  show "playing s p0 (snd r) \<and> frames_done (snd r)"
  proof (cases "sampleSizeCurr p < sampleSizeN p \<and> ?n \<le> length (buffer p) - bufferRead p")
    case False
    then show ?thesis using step at by (auto simp: frames_done_def split: if_splits)
  next
    case more: True
    then obtain p' where check: "BarPlayerCheckPauseQuit p = Some (False, p')"
      using step ok by (auto simp: bind_eq_Some_conv split: if_splits)
    obtain x y z where p': "p' = p\<lparr>doQuit := x, doPause := y, signals := z\<rparr>" by (rule check_keeps [OF check])
    define fr where "fr = take ?n (drop (bufferRead p) (buffer p))"
    define q where "q = p'\<lparr>bufferRead := bufferRead p + ?n, sampleSizeCurr := sampleSizeCurr p + 1, fed := fed p @ [fr]\<rparr>"
    have "aac_at s q"
      using at more by - (rule frame_at [of s p ?n], simp_all add: q_def p' fr_def playing_def)
    then have q: "playing s p0 q" using at by (simp add: playing_def q_def p' same_input_def)
    consider "go au q = Some r"
      | a b where "go au (q\<lparr>played := a, songPlayed := b\<rparr>) = Some r"
    proof -
      define info where "info = NeAACDecDecode au (fed p) fr"
      have idx: "\<not> length (sampleSize p) \<le> sampleSizeCurr p" using step more by (cases "length (sampleSize p) \<le> sampleSizeCurr p") simp_all
      have "(if frame_error info \<noteq> 0 then go au q else if bytesconsumed info \<noteq> ?n then None
          else do { ms \<leftarrow> played_ms (length (frame_samples info)) q;
            go au (q\<lparr>played := played q @ [map (\<lambda>v. applyReplayGain v (player_scale q)) (frame_samples info)], songPlayed := songPlayed q + ms\<rparr>) }) = Some r"
        using step unfolding info_def q_def fr_def p' by (simp add: more idx check [unfolded p'] Let_def cong: if_cong)
      then show thesis using that by (auto simp: bind_eq_Some_conv simp del: fun_upd_apply split: if_split_asm)
    qed
    then show ?thesis
    proof cases
      case 1
      show ?thesis using go [OF 1] q ok by blast
    next
      case (2 a b)
      have "aac_at s (q\<lparr>played := a, songPlayed := b\<rparr>) = aac_at s q" by (rule aac_at_cong) simp_all
      then have "playing s p0 (q\<lparr>played := a, songPlayed := b\<rparr>)" using q by (simp add: playing_def same_input_def)
      then show ?thesis using go [OF 2] ok by blast
    qed
  qed
  qed
qed

lemma drop_rest_at:
  assumes "playing s p0 p"
  shows "playing s p0 (drop_rest p)"
proof (cases "sampleSizeCurr p \<ge> sampleSizeN p")
  case False
  then show ?thesis using assms by (simp add: drop_rest_def)
next
  case True
  let ?q = "p\<lparr>bufferRead := length (buffer p)\<rparr>"
  have mode: "mode p = PLAYER_RECV_DATA" and "aac_stage (s @ take (bufferRead p) (buffer p)) p"
    using assms by (simp_all add: playing_def aac_at_def)
  then obtain pre v k gap rest where v: "length v = 8"
    and s: "s @ take (bufferRead p) (buffer p) = size_table pre v k (sampleSizeN p) (sampleSize p) @ gap @ ''mdat'' @ concat (fed p) @ rest"
    and fed: "length (sampleSize p) = sampleSizeN p" "sampleSizeCurr p \<le> sampleSizeN p" "map length (fed p) = take (sampleSizeCurr p) (sampleSize p)"
    by (elim stage_dataE) blast
  have "s @ buffer p = (s @ take (bufferRead p) (buffer p)) @ drop (bufferRead p) (buffer p)" by simp
  then have "s @ buffer p = size_table pre v k (sampleSizeN ?q) (sampleSize ?q) @ gap @ ''mdat'' @ concat (fed ?q)
      @ (rest @ drop (bufferRead p) (buffer p))"
    unfolding s by simp
  from stage_data [OF _ v this] have "aac_stage (s @ buffer p) ?q" using mode fed True by simp
  then show ?thesis using assms True by (simp add: drop_rest_def playing_def aac_at_def same_input_def)
qed

lemma aac_header_at:
  assumes "aac_header au p = Some (True, q)" "aac_at s p"
  shows "aac_at s q" "same_input p q"
proof -
  obtain p1 where p1: "find_config au (find_esds p) = (True, p1)"
    using assms(1) by (auto simp: aac_header_def split: prod.splits bool.splits)
  then obtain p2 where p2: "get_sizes (find_stsz p1) = Some p2" and q: "q = find_mdat p2"
    using assms(1) by (auto simp: aac_header_def bind_eq_Some_conv)
  note 1 = find_config_at [OF find_esds_at(1) [OF assms(2)] p1]
  note 2 = get_sizes_at [OF p2 find_stsz_at(1) [OF 1(1)]]
  show "aac_at s q" unfolding q by (rule find_mdat_at(1) [OF 2(1)])
  show "same_input p q" unfolding q
    using find_esds_at(2) [OF assms(2)] 1(2) find_stsz_at(2) [OF 1(1)] 2(2) find_mdat_at(2) [OF 2(1)] same_input_trans by blast
qed

text \<open>What holds between the callbacks: \<open>s\<close> has been read, and the buffer keeps the rest of what was received.\<close>

definition aac_between :: "string \<Rightarrow> player_thread \<Rightarrow> bool" where
  "aac_between s p = (aac_stage s p \<and> length (buffer p) \<le> BAR_PLAYER_BUFSIZE)"

lemma callback_body:
  assumes "BarPlayerAACCb au d p = Some (True, q)"
  obtains x y z p2 p3 where
    "p2 = p\<lparr>doQuit := x, doPause := y, signals := z, buffer := buffer p @ d, bufferRead := 0, bytesReceived := bytesReceived p + length d\<rparr>"
    "signals p = sconst (False, False) \<longrightarrow> z = sconst (False, False)" "length (buffer p @ d) \<le> BAR_PLAYER_BUFSIZE"
    "(mode p2 = PLAYER_RECV_DATA \<and> (\<exists>p'. play_frames au p2 = Some (True, p') \<and> p3 = drop_rest p'))
      \<or> (mode p2 \<noteq> PLAYER_RECV_DATA \<and> aac_header au p2 = Some (True, p3))"
    "q = BarPlayerBufferMove (capture_write_stream p3)"
proof -
  obtain p1 p2 where check: "BarPlayerCheckPauseQuit p = Some (False, p1)" and fill: "BarPlayerBufferFill d p1 = Some p2"
    using assms by (auto simp: BarPlayerAACCb_def bind_eq_Some_conv split: if_splits option.splits)
  obtain x y z where p1: "p1 = p\<lparr>doQuit := x, doPause := y, signals := z\<rparr>" by (rule check_keeps [OF check])
  have idle: "signals p = sconst (False, False) \<longrightarrow> z = sconst (False, False)"
  proof
    assume sig: "signals p = sconst (False, False)"
    have "p1 = p\<lparr>doQuit := False, doPause := False\<rparr>" using check check_idle [OF sig] by simp
    then have "signals p1 = signals p" by simp
    moreover have "signals p1 = z" by (simp add: p1)
    ultimately show "z = sconst (False, False)" using sig by simp
  qed
  have p2: "p2 = p1\<lparr>buffer := buffer p @ d, bufferRead := 0, bytesReceived := bytesReceived p + length d\<rparr>"
    and fits: "length (buffer p @ d) \<le> BAR_PLAYER_BUFSIZE"
    using fill by (auto simp: BarPlayerBufferFill_def p1 split: if_splits)
  define body where "body = (if mode p2 = PLAYER_RECV_DATA
      then do { (ok, p) \<leftarrow> play_frames au p2; Some (ok, if ok then drop_rest p else p) } else aac_header au p2)"
  have "Option.bind body (\<lambda>(ok, p). Some (if ok then (True, BarPlayerBufferMove (capture_write_stream p)) else (False, p))) = Some (True, q)"
    using assms by (simp add: BarPlayerAACCb_def check fill body_def)
  then obtain p3 where body: "body = Some (True, p3)" and q: "q = BarPlayerBufferMove (capture_write_stream p3)"
    by (auto simp: bind_eq_Some_conv split: if_splits)
  have part: "(mode p2 = PLAYER_RECV_DATA \<and> (\<exists>p'. play_frames au p2 = Some (True, p') \<and> p3 = drop_rest p'))
      \<or> (mode p2 \<noteq> PLAYER_RECV_DATA \<and> aac_header au p2 = Some (True, p3))"
    using body by (auto simp: body_def bind_eq_Some_conv split: if_splits)
  show thesis by (rule that [OF p2 [unfolded p1] idle fits part q])
qed

lemma callback_step:
  assumes "BarPlayerAACCb au d p = Some (True, q)" "aac_between s p"
  obtains t where "aac_between (s @ t) q" "t @ buffer q = buffer p @ d" "capture_file q = map_option (\<lambda>c. c @ t) (capture_file p)"
    "bytesReceived q = bytesReceived p + length d"
    "mode p = PLAYER_RECV_DATA \<Longrightarrow> mode q = PLAYER_RECV_DATA \<and> (sampleSizeCurr q < sampleSizeN q \<longrightarrow> length (buffer q) < sampleSize q ! sampleSizeCurr q)"
proof -
  obtain x y z p2 p3 where
    p2: "p2 = p\<lparr>doQuit := x, doPause := y, signals := z, buffer := buffer p @ d, bufferRead := 0, bytesReceived := bytesReceived p + length d\<rparr>"
    and fits: "length (buffer p @ d) \<le> BAR_PLAYER_BUFSIZE"
    and body: "(mode p2 = PLAYER_RECV_DATA \<and> (\<exists>p'. play_frames au p2 = Some (True, p') \<and> p3 = drop_rest p'))
      \<or> (mode p2 \<noteq> PLAYER_RECV_DATA \<and> aac_header au p2 = Some (True, p3))"
    and q: "q = BarPlayerBufferMove (capture_write_stream p3)"
    by (rule callback_body [OF assms(1)])
  have "aac_stage s p2 = aac_stage s p" by (rule aac_stage_cong) (simp_all add: p2)
  then have at: "aac_at s p2" using assms(2) by (simp add: aac_between_def aac_at_def p2)
  have p3: "aac_at s p3" "same_input p2 p3"
    "mode p2 = PLAYER_RECV_DATA \<Longrightarrow> mode p3 = PLAYER_RECV_DATA \<and> frames_done p3"
  proof -
    from body consider p' where "mode p2 = PLAYER_RECV_DATA" "play_frames au p2 = Some (True, p')" "p3 = drop_rest p'"
      | "mode p2 \<noteq> PLAYER_RECV_DATA" "aac_header au p2 = Some (True, p3)" by blast
    then have "aac_at s p3 \<and> same_input p2 p3 \<and> (mode p2 = PLAYER_RECV_DATA \<longrightarrow> mode p3 = PLAYER_RECV_DATA \<and> frames_done p3)"
    proof cases
      case (1 p')
      then have "playing s p2 p2" using at by (simp add: playing_def)
      then have "playing s p2 p'" "frames_done p'" using play_frames_at [OF 1(2), of s p2] by simp_all
      then show ?thesis using drop_rest_at [of s p2 p'] 1
        by (auto simp: playing_def drop_rest_def frames_done_def)
    next
      case 2
      then show ?thesis using aac_header_at [OF 2(2) at] by simp
    qed
    then show "aac_at s p3" "same_input p2 p3" "mode p2 = PLAYER_RECV_DATA \<Longrightarrow> mode p3 = PLAYER_RECV_DATA \<and> frames_done p3" by blast+
  qed
  let ?t = "take (bufferRead p3) (buffer p3)"
  have buf: "buffer p3 = buffer p @ d" "capture_file p3 = capture_file p" "bytesReceived p3 = bytesReceived p + length d"
    using p3(2) by (simp_all add: same_input_def p2)
  have "aac_stage (s @ ?t) q = aac_stage (s @ ?t) p3"
    by (rule aac_stage_cong) (simp_all add: q BarPlayerBufferMove_def capture_write_stream_def)
  then have "aac_between (s @ ?t) q"
    using p3(1) fits buf by (simp add: aac_between_def aac_at_def q BarPlayerBufferMove_def capture_write_stream_def)
  moreover have "?t @ buffer q = buffer p @ d"
    unfolding buf(1) [symmetric] by (simp add: q BarPlayerBufferMove_def capture_write_stream_def)
  moreover have "capture_file q = map_option (\<lambda>c. c @ ?t) (capture_file p)" "bytesReceived q = bytesReceived p + length d"
    by (simp_all add: q BarPlayerBufferMove_def capture_write_stream_def buf(2,3))
  moreover have "mode p = PLAYER_RECV_DATA \<Longrightarrow>
      mode q = PLAYER_RECV_DATA \<and> (sampleSizeCurr q < sampleSizeN q \<longrightarrow> length (buffer q) < sampleSize q ! sampleSizeCurr q)"
    using p3(3) by (simp add: q BarPlayerBufferMove_def capture_write_stream_def frames_done_def p2)
  ultimately show thesis by (rule that)
qed

section \<open>A whole stream\<close>

text \<open>The calls of the callback for one song: \<open>None\<close> when one of them gives up.\<close>

fun aac_run :: "sound \<Rightarrow> string list \<Rightarrow> player_thread \<Rightarrow> player_thread option" where
  "aac_run au [] p = Some p"
| "aac_run au (d # ds) p = (case BarPlayerAACCb au d p of Some (True, p) \<Rightarrow> aac_run au ds p | _ \<Rightarrow> None)"

lemma aac_run_between:
  "aac_run au ds p = Some q \<Longrightarrow> aac_between s p \<Longrightarrow> \<exists>t. aac_between (s @ t) q \<and> t @ buffer q = buffer p @ concat ds
    \<and> capture_file q = map_option (\<lambda>c. c @ t) (capture_file p) \<and> bytesReceived q = bytesReceived p + length (concat ds)"
proof (induction ds arbitrary: p s)
  case Nil
  then show ?case by (auto simp: option.map_ident)
next
  case (Cons d ds)
  then obtain p' where cb: "BarPlayerAACCb au d p = Some (True, p')" and run: "aac_run au ds p' = Some q"
    by (auto split: option.splits prod.splits bool.splits)
  obtain t where t: "aac_between (s @ t) p'" "t @ buffer p' = buffer p @ d" "capture_file p' = map_option (\<lambda>c. c @ t) (capture_file p)"
    "bytesReceived p' = bytesReceived p + length d"
    by (rule callback_step [OF cb Cons.prems(2)]) blast
  from Cons.IH [OF run t(1)] obtain u where u: "aac_between ((s @ t) @ u) q" "u @ buffer q = buffer p' @ concat ds"
    "capture_file q = map_option (\<lambda>c. c @ u) (capture_file p')" "bytesReceived q = bytesReceived p' + length (concat ds)"
    by blast
  have "(t @ u) @ buffer q = buffer p @ concat (d # ds)" using t(2) u(2) by simp
  then show ?case using t u by (intro exI [of _ "t @ u"]) (simp add: option.map_comp comp_def)
qed

definition fresh_player :: "player_thread \<Rightarrow> bool" where
  "fresh_player p = (mode p = PLAYER_INITIALIZED \<and> buffer p = [] \<and> bytesReceived p = 0 \<and> sampleSizeN p = 0 \<and> fed p = [])"

text \<open>
  C7: However the network cuts a song in the AAC format into blocks, as long as the callback goes on: every byte is counted, the
  buffer never holds more than its size, the capture file gets the stream unchanged but for the bytes still in the buffer, and once the
  player is in the data, the decoder has been given consecutive pieces of the stream that start right behind the tag mdat and have the
  lengths announced by the first entries of the table of frame sizes, the table of the stream itself; nothing is skipped before the last
  frame.
\<close>

theorem aac_frames_of_stream:
  assumes "aac_run au ds p = Some q" "fresh_player p" "capture_file p = Some c"
  shows "\<exists>s. concat ds = s @ buffer q \<and> capture_file q = Some (c @ s)
    \<and> bytesReceived q = length (concat ds) \<and> length (buffer q) \<le> BAR_PLAYER_BUFSIZE
    \<and> (mode q = PLAYER_RECV_DATA \<longrightarrow> (\<exists>pre v k gap rest. length v = 8
        \<and> s = pre @ ''stsz'' @ v @ replicate (4 * k) (CHR 0x00) @ enc32 (sampleSizeN q) @ concat (map enc32 (sampleSize q))
            @ gap @ ''mdat'' @ concat (fed q) @ rest
        \<and> length (sampleSize q) = sampleSizeN q \<and> map length (fed q) = take (sampleSizeCurr q) (sampleSize q)
        \<and> (rest \<noteq> [] \<longrightarrow> sampleSizeCurr q = sampleSizeN q)))"
proof -
  have "aac_between [] p" using assms(2) by (simp add: aac_between_def fresh_player_def early_stage)
  from aac_run_between [OF assms(1) this] obtain s where s: "aac_between s q" "s @ buffer q = concat ds" "capture_file q = Some (c @ s)"
    "bytesReceived q = length (concat ds)"
    using assms(2,3) by (auto simp: fresh_player_def)
  show ?thesis
  proof (rule exI [of _ s], intro conjI impI)
    assume mode: "mode q = PLAYER_RECV_DATA"
    show "\<exists>pre v k gap rest. length v = 8
        \<and> s = pre @ ''stsz'' @ v @ replicate (4 * k) (CHR 0x00) @ enc32 (sampleSizeN q) @ concat (map enc32 (sampleSize q))
            @ gap @ ''mdat'' @ concat (fed q) @ rest
        \<and> length (sampleSize q) = sampleSizeN q \<and> map length (fed q) = take (sampleSizeCurr q) (sampleSize q)
        \<and> (rest \<noteq> [] \<longrightarrow> sampleSizeCurr q = sampleSizeN q)"
      using s(1) unfolding aac_between_def aac_stage_def size_table_def mode player_mode.case append_assoc by blast
  qed (use s in \<open>simp_all add: aac_between_def\<close>)
qed

text \<open>A decoder that decodes every frame to a single sample, and a song of one frame in two blocks.\<close>

definition plain_sound :: sound where
  "plain_sound = \<lparr>ao_driver_id = (\<lambda>_. 0), ao_default_driver_id = 0, ao_open_live = (\<lambda>_ _ _. True), NeAACDecInit2 = (\<lambda>_. (0, 44100, 2)),
    NeAACDecDecode = (\<lambda>_ fr. \<lparr>frame_error = 0, bytesconsumed = length fr, frame_samples = [7]\<rparr>), mpg123_framebyframe_next = (\<lambda>_. MPG123_DONE),
    mpg123_getformat = (\<lambda>_. (44100, 2)), mpg123_framedata = (\<lambda>_. None), mpg123_framebyframe_decode = (\<lambda>_. None), sc_malloc_ok = True\<rparr>"

definition quiet_player :: player_thread where
  "quiet_player = audioPlayer.extend (no_player\<lparr>mode := PLAYER_INITIALIZED\<rparr>)
    \<lparr>channels = 0, samplerate = 0, aoError = False, buffer = [], bufferRead = 0, bytesReceived = 0, capture_file = Some [], shout_service = None,
     sampleSizeN = 0, sampleSizeCurr = 0, sampleSize = [], fed = [], mp3_calls = [], played = [], signals = sconst (False, False)\<rparr>"

definition tiny_song :: "string list" where
  "tiny_song = [''esds'' @ config_tag @ ''-codec'' @ ''stsz'' @ ''--------'' @ [CHR 0x00, CHR 0x00, CHR 0x00, CHR 0x01, CHR 0x00],
    [CHR 0x00, CHR 0x00, CHR 0x02] @ ''mdatA'', ''BC'']"

lemmas aac_steps = BarPlayerAACCb_def check_idle BarPlayerBufferFill_def BAR_PLAYER_BUFSIZE_def WAITRESS_BUFFER_SIZE_def
  aac_header_def find_esds_def find_config_def search_tag.simps find_stsz_def get_sizes_def read_sizes.simps be32_def played_ms_def find_mdat_def
  BarPlayerOpenAudioOut_def BarPlayerBufferMove_def capture_write_stream_def drop_rest_def Let_def

lemma tiny_run:
  "\<exists>q. aac_run plain_sound tiny_song quiet_player = Some q \<and> fed q = [''AB''] \<and> buffer q = [] \<and> mode q = PLAYER_RECV_DATA"
  by (simp add: tiny_song_def config_tag_def)
    (simp add: quiet_player_def audioPlayer.defs no_player_def config_tag_def plain_sound_def aac_steps play_frames.simps)

theorem aac_frames_of_stream_witness:
  "\<exists>q s. aac_run plain_sound tiny_song quiet_player = Some q \<and> fed q = [''AB''] \<and> concat tiny_song = s @ buffer q \<and> capture_file q = Some s
    \<and> (\<exists>pre gap rest sizes. s = pre @ concat (map enc32 sizes) @ gap @ ''mdat'' @ ''AB'' @ rest \<and> take (sampleSizeCurr q) sizes = [2])"
proof -
  obtain q where q: "aac_run plain_sound tiny_song quiet_player = Some q" "fed q = [''AB'']" "mode q = PLAYER_RECV_DATA"
    using tiny_run by blast
  have p: "fresh_player quiet_player" "capture_file quiet_player = Some []"
    by (simp_all add: fresh_player_def quiet_player_def audioPlayer.defs no_player_def)
  obtain s pre v k gap rest where s: "concat tiny_song = s @ buffer q" "capture_file q = Some ([] @ s)"
    "s = pre @ ''stsz'' @ v @ replicate (4 * k) (CHR 0x00) @ enc32 (sampleSizeN q) @ concat (map enc32 (sampleSize q))
            @ gap @ ''mdat'' @ concat (fed q) @ rest"
    "map length (fed q) = take (sampleSizeCurr q) (sampleSize q)"
    using aac_frames_of_stream [OF q(1) p] q(3) by blast
  have "s = (pre @ ''stsz'' @ v @ replicate (4 * k) (CHR 0x00) @ enc32 (sampleSizeN q)) @ concat (map enc32 (sampleSize q))
            @ gap @ ''mdat'' @ ''AB'' @ rest" "take (sampleSizeCurr q) (sampleSize q) = [2]"
    using s(3) s(4) [symmetric] q(2) by (simp_all add: numeral_eq_Suc)
  then show ?thesis using q s(1,2) by (intro exI [of _ q] exI [of _ s]) (metis append_Nil)
qed

section \<open>The player keeps playing\<close>

text \<open>Nobody stops or pauses the player, and once the table of sizes has begun there is a sample rate: the duration was divided by it.\<close>

definition steady :: "player_thread \<Rightarrow> bool" where
  "steady p = (signals p = sconst (False, False) \<and> (sampleSizeN p \<noteq> 0 \<longrightarrow> samplerate p \<noteq> 0))"

text \<open>The frames of the given sizes that are complete in a buffer, and whether the decoder consumes each of them, or reports an error.\<close>

fun complete_frames :: "nat list \<Rightarrow> string \<Rightarrow> string list" where
  "complete_frames [] b = []"
| "complete_frames (n # ns) b = (if n \<le> length b then take n b # complete_frames ns (drop n b) else [])"

fun all_consumed :: "sound \<Rightarrow> string list \<Rightarrow> string list \<Rightarrow> bool" where
  "all_consumed au calls [] = True"
| "all_consumed au calls (fr # frs) = (let info = NeAACDecDecode au calls fr in
    (frame_error info \<noteq> 0 \<or> bytesconsumed info = length fr) \<and> all_consumed au (calls @ [fr]) frs)"

lemma steady_search:
  "steady p \<Longrightarrow> steady (find_esds p)" "steady p \<Longrightarrow> steady (find_stsz p)" "steady p \<Longrightarrow> steady (find_mdat p)"
  by (auto simp: steady_def find_esds_def find_stsz_def find_mdat_def split: prod.split)

lemma steady_config:
  assumes "steady p" "aac_at s p" "find_config au p = (True, q)"
  shows "steady q"
proof (cases "mode p = PLAYER_FOUND_ESDS")
  case True
  then have "sampleSizeN p = 0" using assms(2) by (simp add: aac_at_def early_stage)
  then show ?thesis using assms by (auto simp: steady_def find_config_def Let_def split: prod.splits if_splits)
next
  case False
  then show ?thesis using assms by (auto simp: steady_def find_config_def)
qed

lemma steady_read: "read_sizes p = Some q \<Longrightarrow> steady p \<Longrightarrow> steady q"
proof (induction p arbitrary: q rule: read_sizes.induct)
  case (1 p)
  show ?case
  proof (cases "bufferRead p + 4 < length (buffer p) \<and> sampleSizeN p \<noteq> 0 \<and> \<not> sampleSizeN p \<le> sampleSizeCurr p")
    case False
    then show ?thesis
      using "1.prems" by (auto simp: read_sizes.simps [of p] Let_def steady_def played_ms_def split: if_splits)
  next
    case True
    let ?q = "p\<lparr>sampleSize := take (sampleSizeCurr p) (sampleSize p) @ [be32 (drop (bufferRead p) (buffer p))]
        @ drop (Suc (sampleSizeCurr p)) (sampleSize p), sampleSizeCurr := sampleSizeCurr p + 1, bufferRead := bufferRead p + 4\<rparr>"
    have q: "steady ?q" using "1.prems" by (simp add: steady_def)
    show ?thesis
    proof (cases "sampleSizeN ?q \<le> sampleSizeCurr ?q")
      case last: True
      have "q = ?q\<lparr>mode := PLAYER_SAMPLESIZE_INITIALIZED\<rparr>"
        using "1.prems"(1) True last by (simp add: read_sizes.simps [of p] Let_def)
      then show ?thesis using q by (simp add: steady_def)
    next
      case more: False
      then have "read_sizes ?q = Some q" using "1.prems"(1) True by (simp add: read_sizes.simps [of p] Let_def)
      then show ?thesis using "1.IH" [OF _ refl _ _ refl more] True q by blast
    qed
  qed
qed

lemma steady_header:
  assumes "steady p" "aac_at s p" "aac_header au p = Some (True, q)"
  shows "steady q"
proof -
  obtain p1 where p1: "find_config au (find_esds p) = (True, p1)"
    using assms(3) by (auto simp: aac_header_def split: prod.splits bool.splits)
  then obtain p2 where p2: "get_sizes (find_stsz p1) = Some p2" and q: "q = find_mdat p2"
    using assms(3) by (auto simp: aac_header_def bind_eq_Some_conv)
  have "steady p1" using steady_config [OF steady_search(1) [OF assms(1)] find_esds_at(1) [OF assms(2)] p1] .
  then have "steady p2" using p2 steady_search(2) steady_read by (auto simp: get_sizes_def split: if_splits)
  then show ?thesis unfolding q by (rule steady_search(3))
qed

text \<open>Exactly what the loop over the frames does while nobody stops it.\<close>

lemma play_frames_exact:
  "steady p \<Longrightarrow> length (sampleSize p) = sampleSizeN p \<Longrightarrow>
    frs = complete_frames (drop (sampleSizeCurr p) (sampleSize p)) (drop (bufferRead p) (buffer p)) \<Longrightarrow>
    if all_consumed au (fed p) frs then \<exists>q. play_frames au p = Some (True, q) \<and> fed q = fed p @ frs \<and> steady q
    else play_frames au p = None"
proof (induction frs arbitrary: p)
  case Nil
  let ?ns = "drop (sampleSizeCurr p) (sampleSize p)"
  have "\<not> (sampleSizeCurr p < sampleSizeN p \<and> sampleSize p ! sampleSizeCurr p \<le> length (buffer p) - bufferRead p)"
    using Nil.prems by (auto simp: Cons_nth_drop_Suc [symmetric])
  then have "play_frames au p = Some (True, p)" using Nil.prems(2) by (subst play_frames.simps) auto
  then show ?case using Nil.prems(1) by simp
next
  case (Cons fr frs)
  let ?n = "sampleSize p ! sampleSizeCurr p"
  have more: "sampleSizeCurr p < length (sampleSize p)"
    using Cons.prems(3) by (cases "sampleSizeCurr p < length (sampleSize p)") auto
  then have rest: "drop (sampleSizeCurr p) (sampleSize p) = ?n # drop (Suc (sampleSizeCurr p)) (sampleSize p)"
    by (simp add: Cons_nth_drop_Suc)
  have n: "?n \<le> length (buffer p) - bufferRead p" and fr: "fr = take ?n (drop (bufferRead p) (buffer p))" "length fr = ?n"
    and frs: "frs = complete_frames (drop (Suc (sampleSizeCurr p)) (sampleSize p)) (drop (bufferRead p + ?n) (buffer p))"
    using Cons.prems(3) by (auto simp: rest add.commute split: if_splits)
  define info where "info = NeAACDecDecode au (fed p) fr"
  define q where "q = p\<lparr>doQuit := False, doPause := False, bufferRead := bufferRead p + ?n, sampleSizeCurr := sampleSizeCurr p + 1, fed := fed p @ [fr]\<rparr>"
  have q: "steady q" "length (sampleSize q) = sampleSizeN q" "fed q = fed p @ [fr]"
    "frs = complete_frames (drop (sampleSizeCurr q) (sampleSize q)) (drop (bufferRead q) (buffer q))"
    using Cons.prems frs by (simp_all add: q_def steady_def)
  have check: "BarPlayerCheckPauseQuit p = Some (False, p\<lparr>doQuit := False, doPause := False\<rparr>)"
    using Cons.prems(1) by (simp add: check_idle steady_def)
  obtain ms where ms: "played_ms (length (frame_samples info)) q = Some ms"
    using Cons.prems(1,2) more by (auto simp: played_ms_def q_def steady_def)
  let ?q' = "q\<lparr>played := played q @ [map (\<lambda>v. applyReplayGain v (player_scale q)) (frame_samples info)], songPlayed := songPlayed q + ms\<rparr>"
  have q': "steady ?q'" using q(1) by (simp add: steady_def)
  have step: "play_frames au p = (if frame_error info \<noteq> 0 then play_frames au q
      else if bytesconsumed info \<noteq> ?n then None else play_frames au ?q')"
    using ms more Cons.prems(2) n unfolding info_def q_def fr(1)
    by (subst play_frames.simps) (simp add: check Let_def cong: if_cong)
  have 1: "if all_consumed au (fed p @ [fr]) frs then \<exists>r. play_frames au q = Some (True, r) \<and> fed r = fed p @ fr # frs \<and> steady r
      else play_frames au q = None"
    using Cons.IH [OF q(1,2,4)] q(3) by (simp cong: if_cong)
  have q'': "length (sampleSize ?q') = sampleSizeN ?q'"
    "frs = complete_frames (drop (sampleSizeCurr ?q') (sampleSize ?q')) (drop (bufferRead ?q') (buffer ?q'))"
    "fed ?q' = fed p @ [fr]"
    using q(2-4) by simp_all
  have 2: "if all_consumed au (fed p @ [fr]) frs then \<exists>r. play_frames au ?q' = Some (True, r) \<and> fed r = fed p @ fr # frs \<and> steady r
      else play_frames au ?q' = None"
    using Cons.IH [OF q' q''(1,2)] unfolding q''(3) by (simp cong: if_cong)
  show ?case
    using 1 2 unfolding step all_consumed.simps info_def [symmetric] Let_def fr(2) by (cases "frame_error info = 0") auto
qed

lemma steady_callback:
  assumes "steady p" "aac_between s p" "BarPlayerAACCb au d p = Some (True, q)"
  shows "steady q"
proof -
  obtain x y z p2 p3 where
    p2: "p2 = p\<lparr>doQuit := x, doPause := y, signals := z, buffer := buffer p @ d, bufferRead := 0, bytesReceived := bytesReceived p + length d\<rparr>"
    and idle: "signals p = sconst (False, False) \<longrightarrow> z = sconst (False, False)"
    and "length (buffer p @ d) \<le> BAR_PLAYER_BUFSIZE"
    and body: "(mode p2 = PLAYER_RECV_DATA \<and> (\<exists>p'. play_frames au p2 = Some (True, p') \<and> p3 = drop_rest p'))
      \<or> (mode p2 \<noteq> PLAYER_RECV_DATA \<and> aac_header au p2 = Some (True, p3))"
    and q: "q = BarPlayerBufferMove (capture_write_stream p3)"
    by (rule callback_body [OF assms(3)])
  have p2s: "steady p2" using assms(1) idle by (simp add: steady_def p2)
  have "aac_stage s p2 = aac_stage s p" by (rule aac_stage_cong) (simp_all add: p2)
  then have at: "aac_at s p2" using assms(2) by (simp add: aac_between_def aac_at_def p2)
  from body have "steady p3"
  proof
    assume data: "mode p2 = PLAYER_RECV_DATA \<and> (\<exists>p'. play_frames au p2 = Some (True, p') \<and> p3 = drop_rest p')"
    then have "length (sampleSize p2) = sampleSizeN p2" using at by (auto simp: aac_at_def elim: stage_dataE)
    from play_frames_exact [OF p2s this refl, of au] obtain p' where "steady p'" "p3 = drop_rest p'"
      using data by (auto split: if_splits)
    then show ?thesis by (cases "sampleSizeCurr p' \<ge> sampleSizeN p'") (simp_all add: drop_rest_def steady_def)
  next
    assume "mode p2 \<noteq> PLAYER_RECV_DATA \<and> aac_header au p2 = Some (True, p3)"
    then show ?thesis using steady_header [OF p2s at] by blast
  qed
  then show ?thesis by (simp add: q steady_def BarPlayerBufferMove_def capture_write_stream_def)
qed

lemma steady_run:
  "aac_run au ds p = Some q \<Longrightarrow> steady p \<Longrightarrow> aac_between s p \<Longrightarrow> steady q \<and> (\<exists>t. aac_between t q)"
proof (induction ds arbitrary: p s)
  case Nil
  then show ?case by auto
next
  case (Cons d ds)
  then obtain p' where cb: "BarPlayerAACCb au d p = Some (True, p')" and run: "aac_run au ds p' = Some q"
    by (auto split: option.splits prod.splits bool.splits)
  obtain t where "aac_between (s @ t) p'" by (rule callback_step [OF cb Cons.prems(3)]) blast
  then show ?case using Cons.IH [OF run] Cons.prems steady_callback [OF _ _ cb] by blast
qed

text \<open>
  C25: While nobody stops or pauses the player and its buffer holds the next block, a callback in the data does exactly this, whatever
  the decoder answers: it takes the frames that are complete in the buffer by then, by the table of sizes, and gives each of them to the
  decoder, in order.  It comes back, all of them decoded and less than the next frame left in the buffer, if for each of them the decoder
  reports an error or has consumed the whole frame; otherwise the assertion of the code fails.  Nothing else can go wrong: no index leaves the
  table and there is no division by a sample rate of zero.
\<close>

theorem aac_keeps_playing:
  assumes "aac_run au ds p = Some q" "fresh_player p" "signals p = sconst (False, False)"
    and "mode q = PLAYER_RECV_DATA" "length (buffer q) + length d \<le> BAR_PLAYER_BUFSIZE"
  shows "let frames = complete_frames (drop (sampleSizeCurr q) (sampleSize q)) (buffer q @ d) in
    if all_consumed au (fed q) frames
    then \<exists>r. BarPlayerAACCb au d q = Some (True, r) \<and> mode r = PLAYER_RECV_DATA \<and> fed r = fed q @ frames
      \<and> (if sampleSizeCurr r < sampleSizeN r then length (buffer r) < sampleSize r ! sampleSizeCurr r else True)
    else BarPlayerAACCb au d q = None"
proof -
  let ?frames = "complete_frames (drop (sampleSizeCurr q) (sampleSize q)) (buffer q @ d)"
  have "steady p" "aac_between [] p" using assms(2,3) by (simp_all add: steady_def aac_between_def fresh_player_def early_stage)
  then obtain s where q: "steady q" "aac_between s q" using steady_run [OF assms(1)] by blast
  define q1 where "q1 = q\<lparr>doQuit := False, doPause := False, buffer := buffer q @ d, bufferRead := 0, bytesReceived := bytesReceived q + length d\<rparr>"
  have check: "BarPlayerCheckPauseQuit q = Some (False, q\<lparr>doQuit := False, doPause := False\<rparr>)"
    using q(1) by (simp add: check_idle steady_def)
  have cb: "BarPlayerAACCb au d q = Option.bind (play_frames au q1) (\<lambda>(ok, p).
      Some (if ok then (True, BarPlayerBufferMove (capture_write_stream (drop_rest p))) else (False, p)))"
    using assms(4,5) by (cases "play_frames au q1")
      (auto simp: BarPlayerAACCb_def check BarPlayerBufferFill_def q1_def)
  have "length (sampleSize q) = sampleSizeN q" using q(2) assms(4) by (auto simp: aac_between_def elim: stage_dataE)
  then have play: "if all_consumed au (fed q) ?frames then \<exists>p'. play_frames au q1 = Some (True, p') \<and> fed p' = fed q @ ?frames \<and> steady p'
      else play_frames au q1 = None"
  proof -
    have q1: "steady q1" "sampleSize q1 = sampleSize q" "sampleSizeN q1 = sampleSizeN q" "fed q1 = fed q"
      "?frames = complete_frames (drop (sampleSizeCurr q1) (sampleSize q1)) (drop (bufferRead q1) (buffer q1))"
      using q(1) by (simp_all add: q1_def steady_def)
    show ?thesis
      using play_frames_exact [OF q1(1) _ q1(5), of au] \<open>length (sampleSize q) = sampleSizeN q\<close> unfolding q1(2-4) by blast
  qed
  show ?thesis
  proof (cases "all_consumed au (fed q) ?frames")
    case True
    then obtain p' where p': "play_frames au q1 = Some (True, p')" "fed p' = fed q @ ?frames" using play by auto
    let ?r = "BarPlayerBufferMove (capture_write_stream (drop_rest p'))"
    have r: "BarPlayerAACCb au d q = Some (True, ?r)" by (simp add: cb p'(1))
    have "fed ?r = fed q @ ?frames"
      using p'(2) by (simp add: BarPlayerBufferMove_def capture_write_stream_def drop_rest_def)
    moreover have "mode ?r = PLAYER_RECV_DATA
        \<and> (sampleSizeCurr ?r < sampleSizeN ?r \<longrightarrow> length (buffer ?r) < sampleSize ?r ! sampleSizeCurr ?r)"
      by (rule callback_step [OF r q(2)]) (use assms(4) in blast)
    ultimately show ?thesis using True r by auto
  next
    case False
    then show ?thesis using play by (simp add: cb)
  qed
qed

lemma tiny_half:
  "\<exists>q. aac_run plain_sound (take 2 tiny_song) quiet_player = Some q \<and> buffer q = ''A'' \<and> mode q = PLAYER_RECV_DATA"
  by (simp add: tiny_song_def config_tag_def)
    (simp add: quiet_player_def audioPlayer.defs no_player_def config_tag_def plain_sound_def aac_steps play_frames.simps)

theorem aac_keeps_playing_witness:
  "\<exists>q r. aac_run plain_sound (take 2 tiny_song) quiet_player = Some q \<and> buffer q = ''A''
    \<and> BarPlayerAACCb plain_sound ''BC'' q = Some (True, r) \<and> mode r = PLAYER_RECV_DATA"
proof -
  obtain q where q: "aac_run plain_sound (take 2 tiny_song) quiet_player = Some q" "buffer q = ''A''" "mode q = PLAYER_RECV_DATA"
    using tiny_half by blast
  have p: "fresh_player quiet_player" "signals quiet_player = sconst (False, False)"
    by (simp_all add: fresh_player_def quiet_player_def audioPlayer.defs no_player_def)
  have "all_consumed plain_sound calls frs" for calls frs
    by (induction frs arbitrary: calls) (simp_all add: plain_sound_def)
  moreover have "length (buffer q) + length ''BC'' \<le> BAR_PLAYER_BUFSIZE" by (simp add: q(2) BAR_PLAYER_BUFSIZE_def WAITRESS_BUFFER_SIZE_def)
  ultimately obtain r where "BarPlayerAACCb plain_sound ''BC'' q = Some (True, r)" "mode r = PLAYER_RECV_DATA"
    using aac_keeps_playing [OF q(1) p q(3), of "''BC''"] unfolding Let_def by auto
  then show ?thesis using q(1,2) by blast
qed

end
