(* ===== verification/WaitressHttpProofs.thy ===== *)
theory WaitressHttpProofs
  imports WaitressHttp
begin

text \<open>
  The HTTP client receives a response whole however the network cuts it into reads, with a length or in chunks.
\<close>

section \<open>Arrival\<close>

text \<open>The reads bring exactly \<open>s\<close>, in pieces that are not empty.\<close>

definition arrives :: "net_read list \<Rightarrow> string \<Rightarrow> bool" where
  "arrives rs s \<longleftrightarrow> (\<exists>ss. rs = map Got ss \<and> [] \<notin> set ss \<and> concat ss = s)"

lemma arrives_Nil [simp]: "arrives rs [] \<longleftrightarrow> rs = []"
proof
  assume "arrives rs []"
  then obtain ss where "rs = map Got ss" "[] \<notin> set ss" "concat ss = []" by (auto simp: arrives_def)
  then show "rs = []" by (cases ss) auto
qed (simp add: arrives_def)

lemma arrives_Cons: "arrives rs (c # s) \<Longrightarrow> \<exists>p rs' s'. rs = Got p # rs' \<and> p \<noteq> [] \<and> c # s = p @ s' \<and> arrives rs' s'"
proof -
  assume "arrives rs (c # s)"
  then obtain ss where ss: "rs = map Got ss" "[] \<notin> set ss" "concat ss = c # s" by (auto simp: arrives_def)
  then obtain p ss' where "ss = p # ss'" by (cases ss) auto
  then show ?thesis using ss by (intro exI [of _ p] exI [of _ "map Got ss'"] exI [of _ "concat ss'"]) (auto simp: arrives_def)
qed

lemma arrives_push: "\<lbrakk>p \<noteq> []; arrives rs s\<rbrakk> \<Longrightarrow> arrives (Got p # rs) (p @ s)"
proof -
  assume p: "p \<noteq> []" and "arrives rs s"
  then obtain ss where "rs = map Got ss" "[] \<notin> set ss" "concat ss = s" by (auto simp: arrives_def)
  then show ?thesis unfolding arrives_def using p by (intro exI [of _ "p # ss"]) auto
qed

lemma arrives_take:
  assumes "arrives rs s" and "0 < count" and "s \<noteq> []"
  shows "\<exists>a b rs'. take_read sec count rs = (WAITRESS_RET_OK, a, rs') \<and> a \<noteq> [] \<and> s = a @ b \<and> arrives rs' b"
proof -
  obtain p rs' s' where p: "rs = Got p # rs'" "p \<noteq> []" "s = p @ s'" "arrives rs' s'"
    using assms(1,3) by (cases s) (auto dest: arrives_Cons)
  show ?thesis
  proof (cases "length p \<le> count")
    case False
    then have "arrives (Got (drop count p) # rs') (drop count p @ s')" using p by (intro arrives_push) auto
    moreover have "s = take count p @ (drop count p @ s')" using p by simp
    moreover have "take count p \<noteq> []" using assms(2) p by simp
    ultimately show ?thesis
      using False p by (intro exI [of _ "take count p"] exI [of _ "drop count p @ s'"]) auto
  qed (use p in auto)
qed

section \<open>Headers\<close>

definition in_line :: "char \<Rightarrow> bool" where
  "in_line c \<longleftrightarrow> c \<noteq> CHR 0x00 \<and> c \<noteq> CHR 0x0A"

definition strip_cr :: "string \<Rightarrow> string" where
  "strip_cr x = (if x \<noteq> [] \<and> last x = CHR 0x0D then butlast x else x)"

lemma getline_def2: "WaitressGetline s = (case dropWhile in_line s of
    c # r \<Rightarrow> if c = CHR 0x0A then Some (strip_cr (takeWhile in_line s), r) else None | [] \<Rightarrow> None)"
proof -
  have "(\<lambda>c. c \<noteq> CHR 0x00 \<and> c \<noteq> CHR 0x0A) = in_line" by (simp add: fun_eq_iff in_line_def)
  then show ?thesis
    unfolding WaitressGetline_def by (simp only: strip_cr_def Let_def dropWhile_eq_drop)
qed

lemma getline_line: "list_all in_line x \<Longrightarrow> WaitressGetline (x @ CHR 0x0A # r) = Some (strip_cr x, r)"
  by (simp add: getline_def2 list_all_iff dropWhile_append takeWhile_append in_line_def)

lemma getline_SomeE:
  assumes "WaitressGetline s = Some (l, r)"
  obtains x where "s = x @ CHR 0x0A # r" and "list_all in_line x" and "l = strip_cr x"
proof (rule that)
  have "dropWhile in_line s = CHR 0x0A # r" and l: "l = strip_cr (takeWhile in_line s)"
    using assms by (auto simp: getline_def2 split: list.splits if_splits)
  then show "s = takeWhile in_line s @ CHR 0x0A # r" by (metis takeWhile_dropWhile_id)
  show "list_all in_line (takeWhile in_line s)" by (auto simp: list_all_iff dest: set_takeWhileD)
  show "l = strip_cr (takeWhile in_line s)" by (rule l)
qed

lemma getline_append: "WaitressGetline s = Some (l, r) \<Longrightarrow> WaitressGetline (s @ t) = Some (l, r @ t)"
  by (erule getline_SomeE) (simp add: getline_line)

lemma getline_beyond:
  assumes "WaitressGetline s = None" and "WaitressGetline (s @ t) = Some (l, r)"
  shows "length r < length t"
proof (rule ccontr)
  obtain x where x: "s @ t = x @ CHR 0x0A # r" "list_all in_line x" using assms(2) by (rule getline_SomeE)
  assume "\<not> length r < length t"
  then obtain u where "s = x @ CHR 0x0A # u" using x(1) by (auto simp: append_eq_append_conv2 append_eq_Cons_conv)
  then show False using assms(1) x(2) by (simp add: getline_line)
qed

lemma header_lines_step:
  "WaitressGetline buf = Some (line, n) \<Longrightarrow> header_line mode line h = (ret, m, h') \<Longrightarrow> mode \<noteq> HDRM_FINISHED \<Longrightarrow>
    header_lines mode buf h = (if ret \<noteq> WAITRESS_RET_OK then (ret, m, n, h') else header_lines m n h')"
  by (simp add: header_lines.simps [of mode buf h])

lemma header_lines_stop:
  "mode = HDRM_FINISHED \<or> WaitressGetline buf = None \<Longrightarrow> header_lines mode buf h = (WAITRESS_RET_OK, mode, buf, h)"
  by (auto simp: header_lines.simps [of mode buf h])

lemma header_lines_append:
  "header_lines m s h = (ret, m', rest, h') \<Longrightarrow> header_lines m (s @ t) h =
    (if ret \<noteq> WAITRESS_RET_OK then (ret, m', rest @ t, h')
     else if m' = HDRM_FINISHED then (WAITRESS_RET_OK, HDRM_FINISHED, rest @ t, h')
     else header_lines m' (rest @ t) h')"
proof (induction m s h rule: header_lines.induct)
  case (1 mode buf h)
  show ?case
  proof (cases "mode = HDRM_FINISHED \<or> WaitressGetline buf = None")
    case True
    then show ?thesis using 1(2) by (auto simp: header_lines_stop)
  next
    case False
    then obtain line n where g: "WaitressGetline buf = Some (line, n)" and m: "mode \<noteq> HDRM_FINISHED" by auto
    obtain r1 m1 h1 where l: "header_line mode line h = (r1, m1, h1)" by (cases "header_line mode line h") auto
    note 2 = header_lines_step [OF g l m] header_lines_step [OF getline_append [OF g] l m, of t]
    show ?thesis
      using 1(1) [OF m g refl l [symmetric] refl] 1(2) by (cases "r1 = WAITRESS_RET_OK") (auto simp: 2)
  qed
qed

lemma header_lines_left:
  "header_lines m s h = (ret, m', rest, h') \<Longrightarrow>
    length rest \<le> length s \<and> (ret = WAITRESS_RET_OK \<longrightarrow> m' \<noteq> HDRM_FINISHED \<longrightarrow> WaitressGetline rest = None)"
proof (induction m s h rule: header_lines.induct)
  case (1 mode buf h)
  show ?case
  proof (cases "mode = HDRM_FINISHED \<or> WaitressGetline buf = None")
    case True
    then show ?thesis using 1(2) by (auto simp: header_lines_stop)
  next
    case False
    then obtain line n where g: "WaitressGetline buf = Some (line, n)" and m: "mode \<noteq> HDRM_FINISHED" by auto
    obtain r1 m1 h1 where l: "header_line mode line h = (r1, m1, h1)" by (cases "header_line mode line h") auto
    show ?thesis
      using 1(1) [OF m g refl l [symmetric] refl] 1(2) getline_shorter [OF g]
      by (cases "r1 = WAITRESS_RET_OK") (auto simp: header_lines_step [OF g l m])
  qed
qed

lemma receive_headers_arrives:
  "\<lbrakk>header_lines m (buf @ s) h = (WAITRESS_RET_OK, HDRM_FINISHED, rest, h'); arrives rs s; m \<noteq> HDRM_FINISHED;
    WaitressGetline buf = None; length (buf @ s) - length rest < WAITRESS_BUFFER_SIZE\<rbrakk> \<Longrightarrow>
    \<exists>b c rs'. receive_headers m buf rs h = (WAITRESS_RET_OK, b, rs', h') \<and> arrives rs' c \<and> b @ c = rest"
proof (induction m buf rs h arbitrary: s rule: receive_headers.induct)
  case (1 mode buf rs h)
  obtain line n where g: "WaitressGetline (buf @ s) = Some (line, n)"
    using 1(2,4) header_lines_stop [of mode "buf @ s" h] by (cases "WaitressGetline (buf @ s)") auto
  have n: "length n < length s" by (rule getline_beyond [OF 1(5) g])
  obtain r1 m1 h1 where l: "header_line mode line h = (r1, m1, h1)" by (cases "header_line mode line h") auto
  have "length rest \<le> length n"
    using header_lines_step [OF g l 1(4)] 1(2) header_lines_left [of m1 n h1, OF sym] by (cases "r1 = WAITRESS_RET_OK") auto
  then have "length buf < WAITRESS_BUFFER_SIZE - 1" "s \<noteq> []" using n 1(6) by auto
  then obtain a b rs' where t: "take_read (is_secure (request h)) (WAITRESS_BUFFER_SIZE - 1 - length buf) rs = (WAITRESS_RET_OK, a, rs')"
    and ab: "a \<noteq> []" "s = a @ b" "arrives rs' b"
    using arrives_take [OF 1(3)] by (metis zero_less_diff)
  obtain r2 m2 s2 h2 where h: "header_lines mode (buf @ a) h = (r2, m2, s2, h2)" by (cases "header_lines mode (buf @ a) h") auto
  have r2: "r2 = WAITRESS_RET_OK" using header_lines_append [OF h, of b] 1(2) ab(2) by (auto split: if_splits)
  note unfold = receive_headers.simps [of mode buf rs h]
  show ?case
  proof (cases "m2 = HDRM_FINISHED")
    case True
    then show ?thesis using header_lines_append [OF h, of b] 1(2) ab r2 t h by (auto simp: unfold)
  next
    case False
    have "header_lines m2 (s2 @ b) h2 = (WAITRESS_RET_OK, HDRM_FINISHED, rest, h')"
      using header_lines_append [OF h, of b] 1(2) ab(2) r2 False by simp
    moreover have "WaitressGetline s2 = None" "length s2 \<le> length (buf @ a)"
      using header_lines_left [OF h] r2 False by auto
    ultimately show ?thesis
      using 1(1) [OF t [symmetric] refl _ ab(1) h [symmetric] refl refl _ False, of b] 1(6) r2 False ab t h by (auto simp: unfold)
  qed
qed

section \<open>The body\<close>

type_synonym collector = "string option http_handle"

definition received :: "collector \<Rightarrow> string" where
  "received h = (case cb_data h of None \<Rightarrow> [] | Some t \<Rightarrow> t)"

definition collect :: "string \<Rightarrow> collector \<Rightarrow> collector" where
  "collect s h = h\<lparr>request := (request h)\<lparr>contentReceived := contentReceived (request h) + word_of_nat (length s)\<rparr>,
    cb_data := Some (received h @ s)\<rparr>"

lemma collect_simps [simp]:
  "callback (collect s h) = callback h" "received (collect s h) = received h @ s"
  "chunkSize (request (collect s h)) = chunkSize (request h)" "chunked (request (collect s h)) = chunked (request h)"
  "chunkedState (request (collect s h)) = chunkedState (request h)" "is_secure (request (collect s h)) = is_secure (request h)"
  "contentLengthKnown (request (collect s h)) = contentLengthKnown (request h)"
  "contentLength (request (collect s h)) = contentLength (request h)"
  "contentReceived (request (collect s h)) = contentReceived (request h) + word_of_nat (length s)"
  "cb_data (collect s h) = Some (received h @ s)"
  by (simp_all add: collect_def received_def)

lemma on_request_simps [simp]:
  "callback (on_request f h) = callback h" "request (on_request f h) = f (request h)" "cb_data (on_request f h) = cb_data h"
  by (simp_all add: on_request_def)

lemma received_on_request [simp]: "received (on_request f h) = received h"
  by (simp add: received_def)

lemma collect_collect: "collect t (collect s h) = collect (s @ t) h"
  by (simp add: collect_def received_def ac_simps)

lemma identity_collect:
  "callback h = WaitressFetchBufCb \<Longrightarrow> WaitressHandleIdentity s h = (WAITRESS_HANDLER_CONTINUE, collect s h)"
  by (simp add: WaitressHandleIdentity_def WaitressFetchBufCb_def on_request_def collect_def received_def Let_def
      split: option.split)

definition take_chunk :: "string \<Rightarrow> collector \<Rightarrow> collector" where
  "take_chunk p h = on_request (\<lambda>r. r\<lparr>chunkSize := chunkSize r - word_of_nat (length p)\<rparr>) (collect p h)"

lemma take_chunk_simps [simp]:
  "callback (take_chunk p h) = callback h" "received (take_chunk p h) = received h @ p"
  "chunkSize (request (take_chunk p h)) = chunkSize (request h) - word_of_nat (length p)"
  "chunkedState (request (take_chunk p h)) = chunkedState (request h)"
  by (simp_all add: take_chunk_def)

lemma take_chunk_append: "take_chunk b (take_chunk a h) = take_chunk (a @ b) h"
  by (simp add: take_chunk_def on_request_def collect_def received_def diff_diff_eq)

lemma chunked_payload:
  assumes "callback h = WaitressFetchBufCb" and "chunkedState (request h) = DATA" and "chunkSize (request h) > 0"
    and "length p = min (length (p @ rest)) (unat (chunkSize (request h)))" and "p \<noteq> []"
  shows "WaitressHandleChunked (p @ rest) h = WaitressHandleChunked rest (take_chunk p h)"
proof -
  obtain c buf where c: "p @ rest = c # buf" using assms(5) by (cases p) auto
  have "take (length p) (c # buf) = p" "drop (length p) (c # buf) = rest" using c by (metis append_eq_conv_conj)+
  then show ?thesis
    unfolding c using assms(2-4) c identity_collect [OF assms(1)]
    by (simp add: WaitressHandleChunked.simps(2) Let_def take_chunk_def)
qed

lemma unat_chunk_left:
  fixes n :: "64 word"
  assumes "k \<le> unat n"
  shows "unat (n - word_of_nat k) = unat n - k"
proof -
  have k: "unat (word_of_nat k :: 64 word) = k"
    using assms less_le_trans [OF le_less_trans [OF assms unsigned_less]] by (simp add: unat_of_nat take_bit_nat_eq_self)
  then have "word_of_nat k \<le> n" using assms by (simp add: word_le_nat_alt)
  then show ?thesis using k by (simp add: unat_sub)
qed

text \<open>The handler of chunks does not see where one read ends and the next begins.\<close>

lemma chunked_append:
  "callback h = WaitressFetchBufCb \<Longrightarrow> WaitressHandleChunked (a @ b) h = (case WaitressHandleChunked a h of
    (WAITRESS_HANDLER_CONTINUE, h') \<Rightarrow> WaitressHandleChunked b h' | r \<Rightarrow> r)"
proof (induction "length a" arbitrary: a h rule: less_induct)
  case less
  show ?case
  proof (cases a)
    case Nil
    then show ?thesis by (simp add: WaitressHandleChunked.simps(1))
  next
    case (Cons c a')
    have IH: "WaitressHandleChunked (a' @ b) h' = (case WaitressHandleChunked a' h' of
      (WAITRESS_HANDLER_CONTINUE, h') \<Rightarrow> WaitressHandleChunked b h' | r \<Rightarrow> r)" if "callback h' = WaitressFetchBufCb" for h'
      using less.hyps [of a' h'] that Cons by simp
    let ?n = "unat (chunkSize (request h))"
    show ?thesis
    proof (cases "chunkedState (request h) = DATA \<and> chunkSize (request h) > 0")
      case False
      then show ?thesis
        using Cons less.prems by (auto simp: WaitressHandleChunked.simps(2) IH Let_def split: chunked_state.splits option.split)
    next
      case True
      then have n: "0 < ?n" by (metis unat_gt_0 less_irrefl)
      show ?thesis
      proof (cases "?n \<le> length a")
        case True': True
        have 1: "WaitressHandleChunked (a @ b) h = WaitressHandleChunked (drop ?n a @ b) (take_chunk (take ?n a) h)"
          using chunked_payload [of h "take ?n a" "drop ?n a @ b"] less.prems True True' n Cons by (simp flip: append_assoc)
        have 2: "WaitressHandleChunked a h = WaitressHandleChunked (drop ?n a) (take_chunk (take ?n a) h)"
          using chunked_payload [of h "take ?n a" "drop ?n a"] less.prems True True' n Cons by simp
        show ?thesis
          unfolding 1 2 by (rule less.hyps) (use n Cons less.prems in auto)
      next
        case False
        have 2: "WaitressHandleChunked a h = (WAITRESS_HANDLER_CONTINUE, take_chunk a h)"
          using chunked_payload [of h a "[]"] less.prems True False Cons by (simp add: WaitressHandleChunked.simps(1))
        have left: "unat (chunkSize (request (take_chunk a h))) = ?n - length a"
          using unat_chunk_left [of "length a" "chunkSize (request h)"] False by simp
        let ?q = "take (?n - length a) b"
        show ?thesis
        proof (cases "b = []")
          case False': False
          have "WaitressHandleChunked ((a @ ?q) @ drop (?n - length a) b) h
              = WaitressHandleChunked (drop (?n - length a) b) (take_chunk (a @ ?q) h)"
            by (rule chunked_payload) (use less.prems True False Cons in auto)
          moreover have "WaitressHandleChunked (?q @ drop (?n - length a) b) (take_chunk a h)
              = WaitressHandleChunked (drop (?n - length a) b) (take_chunk ?q (take_chunk a h))"
            by (rule chunked_payload) (use less.prems True False False' left in \<open>auto simp: word_less_nat_alt\<close>)
          ultimately show ?thesis by (simp add: 2 take_chunk_append)
        qed (simp add: 2 WaitressHandleChunked.simps(1))
      qed
    qed
  qed
qed

lemma identity_append:
  "callback h = WaitressFetchBufCb \<Longrightarrow> WaitressHandleIdentity (a @ b) h = (case WaitressHandleIdentity a h of
    (WAITRESS_HANDLER_CONTINUE, h') \<Rightarrow> WaitressHandleIdentity b h' | r \<Rightarrow> r)"
  by (simp add: identity_collect collect_collect)

text \<open>What the chunks handler leaves alone.\<close>

definition same_setup :: "collector \<Rightarrow> collector \<Rightarrow> bool" where
  "same_setup h h' \<longleftrightarrow> callback h' = callback h \<and> chunked (request h') = chunked (request h)
    \<and> is_secure (request h') = is_secure (request h) \<and> contentLengthKnown (request h') = contentLengthKnown (request h)
    \<and> contentLength (request h') = contentLength (request h)"

lemma same_setup_simps [simp]:
  "same_setup h h" "same_setup h (collect s h)" "same_setup h (take_chunk s h)"
  "same_setup h (on_request (chunkSize_update f) h)" "same_setup h (on_request (chunkedState_update g) h)"
  "same_setup h (on_request (\<lambda>r. r\<lparr>chunkSize := k r\<rparr>) h)"
  by (simp_all add: same_setup_def take_chunk_def)

lemma same_setup_trans: "\<lbrakk>same_setup a b; same_setup b c\<rbrakk> \<Longrightarrow> same_setup a c"
  by (simp add: same_setup_def)

lemma same_setup_callback: "same_setup h h' \<Longrightarrow> callback h' = callback h"
  by (simp add: same_setup_def)

lemma chunked_setup: "callback h = WaitressFetchBufCb \<Longrightarrow> same_setup h (snd (WaitressHandleChunked a h))"
proof (induction "length a" arbitrary: a h rule: less_induct)
  case less
  show ?case
  proof (cases a)
    case Nil
    then show ?thesis by (simp add: WaitressHandleChunked.simps(1))
  next
    case (Cons c a')
    let ?n = "unat (chunkSize (request h))"
    have IH: "same_setup h (snd (WaitressHandleChunked x h'))" if "length x < length a" "same_setup h h'" for x h'
      using less.hyps [OF that(1)] that(2) same_setup_trans same_setup_callback less.prems by metis
    show ?thesis
    proof (cases "chunkedState (request h) = DATA \<and> chunkSize (request h) > 0")
      case False
      then show ?thesis
        using Cons by (auto simp: WaitressHandleChunked.simps(2) Let_def intro!: IH split: chunked_state.splits option.split)
    next
      case True
      then have n: "0 < ?n" by (metis unat_gt_0 less_irrefl)
      have "WaitressHandleChunked a h = WaitressHandleChunked (drop ?n a) (take_chunk (take ?n a) h)"
        using chunked_payload [of h "take ?n a" "drop ?n a"] less.prems True n Cons by simp
      then show ?thesis using n Cons by (auto intro!: IH)
    qed
  qed
qed

lemma some_space: "0 < WAITRESS_BUFFER_SIZE - 1"
  by (simp add: WAITRESS_BUFFER_SIZE_def)

text \<open>A body whose end the chunks tell.\<close>

lemma receive_chunked:
  "\<lbrakk>WaitressHandleChunked (buf @ s) h = (WAITRESS_HANDLER_DONE, h'); arrives rs s; callback h = WaitressFetchBufCb;
    chunked (request h); \<not> contentLengthKnown (request h)\<rbrakk> \<Longrightarrow>
    \<exists>rs'. receive_body buf rs h = (WAITRESS_RET_OK, rs', h')"
proof (induction buf rs h arbitrary: s rule: receive_body.induct)
  case (1 buf rs h)
  obtain r h1 where h: "WaitressHandleChunked buf h = (r, h1)" by force
  note app = chunked_append [OF 1(4), of buf s, unfolded h 1(2)]
  have same: "same_setup h h1" using chunked_setup [OF 1(4), of buf] h by simp
  show ?case
  proof (cases "r = WAITRESS_HANDLER_CONTINUE")
    case True
    have "s \<noteq> []" using app True by (auto simp: WaitressHandleChunked.simps(1))
    then obtain a b rs' where t: "take_read (is_secure (request h1)) (WAITRESS_BUFFER_SIZE - 1) rs = (WAITRESS_RET_OK, a, rs')"
      and ab: "a \<noteq> []" "s = a @ b" "arrives rs' b"
      using arrives_take [OF 1(3) some_space] by blast
    have d: "data_handler buf h = (WAITRESS_HANDLER_CONTINUE, h1)" using h True 1(5) by (simp add: data_handler_def)
    have k: "\<not> contentLengthKnown (request h1)" using same 1(6) by (simp add: same_setup_def)
    have "WaitressHandleChunked (a @ b) h1 = (WAITRESS_HANDLER_DONE, h')" using app True ab by simp
    then show ?thesis
      using 1(1) [OF d [symmetric] refl _ t [symmetric] refl _ ab(1), of b] ab same 1(4-6) d k t
      by (auto simp: receive_body.simps [of buf rs h] same_setup_def)
  next
    case False
    then have "r = WAITRESS_HANDLER_DONE" "h1 = h'" using app by (auto split: handler_return.splits)
    then show ?thesis using h 1(5) by (auto simp: receive_body.simps [of buf rs h] data_handler_def)
  qed
qed

text \<open>
  A body whose length is known.  Reading ends with the block that holds the last byte of the body, and the callback gets all of that block:
  \<open>more\<close> is what came in it behind the body.
\<close>

lemma receive_counted:
  "\<lbrakk>arrives rs s; callback h = WaitressFetchBufCb; \<not> chunked (request h); contentLengthKnown (request h);
    contentReceived (request h) = word_of_nat k; contentLength (request h) = word_of_nat (k + length t);
    buf @ s = t @ extra; k + length (buf @ s) < 2 ^ 64\<rbrakk> \<Longrightarrow>
    \<exists>rs' more. receive_body buf rs h = (WAITRESS_RET_OK, rs', collect (t @ more) h) \<and> take (length more) extra = more"
proof (induction buf rs h arbitrary: s k t rule: receive_body.induct)
  case (1 buf rs h)
  have d: "data_handler buf h = (WAITRESS_HANDLER_CONTINUE, collect buf h)"
    using identity_collect [OF 1(3)] 1(4) by (simp add: data_handler_def)
  have got: "contentReceived (request (collect buf h)) = word_of_nat (k + length buf)" using 1(6) by simp
  have len: "contentLength (request (collect buf h)) = word_of_nat (k + length t)" using 1(7) by simp
  have u: "unat (word_of_nat n :: 64 word) = n" if "n < 2 ^ 64" for n
    using that by (simp add: unat_of_nat take_bit_nat_eq_self)
  have sizes: "length buf + length s = length t + length extra" using arg_cong [OF 1(8), of length] by simp
  then have fits: "k + length t < 2 ^ 64" "k + length buf < 2 ^ 64" using 1(9) by simp_all
  note unfold = receive_body.simps [of buf rs h]
  show ?case
  proof (cases "length t \<le> length buf")
    case True
    then obtain more where more: "buf = t @ more" "extra = more @ s"
      using 1(8) by (auto simp: append_eq_append_conv2)
    have "receive_body buf rs h = (WAITRESS_RET_OK, rs, collect (t @ more) h)"
      unfolding unfold d using len got 1(5) u [OF fits(1)] u [OF fits(2)] True more(1) by (simp add: word_le_nat_alt)
    then show ?thesis using more(2) by auto
  next
    case False
    then have "s \<noteq> []" using sizes by auto
    obtain a b rs' where r: "take_read (is_secure (request (collect buf h))) (WAITRESS_BUFFER_SIZE - 1) rs = (WAITRESS_RET_OK, a, rs')"
      and ab: "a \<noteq> []" "s = a @ b" "arrives rs' b"
      using arrives_take [OF 1(2) some_space \<open>s \<noteq> []\<close>] by blast
    obtain t' where t: "t = buf @ t'" "s = t' @ extra" using 1(8) False by (auto simp: append_eq_append_conv2)
    have more: "\<not> (contentLengthKnown (request (collect buf h)) \<and>
        contentLength (request (collect buf h)) \<le> contentReceived (request (collect buf h)))"
      unfolding word_le_nat_alt got len using u [OF fits(1)] u [OF fits(2)] False by simp
    have "\<exists>rs'' more. receive_body a rs' (collect buf h) = (WAITRESS_RET_OK, rs'', collect (t' @ more) (collect buf h))
        \<and> take (length more) extra = more"
      by (rule 1(1) [OF d [symmetric] refl more r [symmetric] refl _ ab(1,3), of "k + length buf" t'])
        (use ab 1 got t in \<open>auto simp: algebra_simps\<close>)
    then show ?thesis using d more r ab t(1) by (auto simp: unfold collect_collect)
  qed
qed

section \<open>Chunks\<close>

fun show_hex :: "nat \<Rightarrow> string" where
  "show_hex n = (if n < 16 then [hex_digit n] else show_hex (n div 16) @ [hex_digit (n mod 16)])"

declare show_hex.simps [simp del]

definition chunk_text :: "string \<Rightarrow> string" where
  "chunk_text p = show_hex (length p) @ crlf @ p @ crlf"

definition chunked_text :: "string list \<Rightarrow> string" where
  "chunked_text ps = concat (map chunk_text ps) @ ''0'' @ crlf @ crlf"

lemma chunk_digit_hex: "d < 16 \<Longrightarrow> chunk_digit (hex_digit d) = Some (word_of_nat d)"
proof -
  assume "d < 16"
  moreover have "list_all (\<lambda>d. chunk_digit (hex_digit d) = Some (word_of_nat d)) [0..<16]"
    by (simp add: hex_digit_def chunk_digit_def upt_rec)
  ultimately show ?thesis by (simp add: list_all_iff)
qed

lemma push_digit: "push_bit 4 (word_of_nat (n div 16)) OR word_of_nat (n mod 16) = (word_of_nat n :: 64 word)"
proof -
  have "push_bit 4 (n div 16) OR (n mod 16) = n"
    by (rule bit_eqI) (auto simp: bit_simps simp flip: drop_bit_eq_div [of 4, simplified] take_bit_eq_mod [of 4, simplified])
  then have "word_of_nat (push_bit 4 (n div 16) OR (n mod 16)) = (word_of_nat n :: 64 word)" by simp
  then show ?thesis by (simp only: of_nat_or_eq push_bit_of_nat)
qed

lemma chunk_size:
  "\<lbrakk>chunkedState (request h) = CHUNKSIZE; chunkSize (request h) = 0\<rbrakk> \<Longrightarrow>
    WaitressHandleChunked (show_hex n @ rest) h = WaitressHandleChunked rest (on_request (chunkSize_update (\<lambda>_. word_of_nat n)) h)"
proof (induction n arbitrary: rest rule: show_hex.induct)
  case (1 n)
  have eq: "on_request (\<lambda>r. r\<lparr>chunkSize := push_bit 4 (chunkSize r) OR word_of_nat (n mod 16)\<rparr>)
      (on_request (chunkSize_update (\<lambda>_. word_of_nat (n div 16))) h) = on_request (chunkSize_update (\<lambda>_. word_of_nat n)) h"
    using push_digit [of n] by (simp add: on_request_def)
  show ?case
  proof (cases "n < 16")
    case True
    then show ?thesis
      using 1 by (simp add: show_hex.simps [of n] WaitressHandleChunked.simps(2) chunk_digit_hex on_request_def)
  next
    case False
    then show ?thesis using 1 eq by (simp add: show_hex.simps [of n] WaitressHandleChunked.simps(2) chunk_digit_hex)
  qed
qed

lemma chunk_digit_crlf: "chunk_digit (CHR 0x0D) = None" "chunk_digit (CHR 0x0A) = None"
  by code_simp+

lemma chunk_decode:
  assumes "callback h = WaitressFetchBufCb" and "chunkedState (request h) = CHUNKSIZE" and "chunkSize (request h) = 0"
    and "p \<noteq> []" and "length p < 2 ^ 64"
  shows "WaitressHandleChunked (chunk_text p @ rest) h = WaitressHandleChunked rest (collect p h)"
proof -
  define n :: "64 word" where "n = word_of_nat (length p)"
  have u: "unat n = length p" using assms(5) by (simp add: n_def unat_of_nat take_bit_nat_eq_self)
  then have n: "n > 0" "n \<noteq> 0" using assms(4) by (auto simp: word_less_nat_alt)
  define h1 where "h1 = on_request (chunkedState_update (\<lambda>_. DATA)) (on_request (chunkSize_update (\<lambda>_. n)) h)"
  have h1: "callback h1 = WaitressFetchBufCb" "chunkedState (request h1) = DATA" "chunkSize (request h1) = n"
    using assms(1) by (simp_all add: h1_def)
  have "WaitressHandleChunked (chunk_text p @ rest) h = WaitressHandleChunked (p @ crlf @ rest) h1"
    using assms(2,3) n by (simp add: chunk_text_def chunk_size WaitressHandleChunked.simps(2) crlf_def chunk_digit_crlf
        h1_def n_def Let_def)
  also have "\<dots> = WaitressHandleChunked (crlf @ rest) (take_chunk p h1)"
    by (rule chunked_payload) (use h1 n u assms(4) in auto)
  also have "\<dots> = WaitressHandleChunked rest (on_request (chunkedState_update (\<lambda>_. CHUNKSIZE)) (take_chunk p h1))"
    using h1 by (simp add: crlf_def WaitressHandleChunked.simps(2) n_def)
  also have "on_request (chunkedState_update (\<lambda>_. CHUNKSIZE)) (take_chunk p h1) = collect p h"
    using assms(2,3) by (simp add: h1_def take_chunk_def on_request_def collect_def received_def n_def)
  finally show ?thesis .
qed

lemma chunks_decode:
  "\<lbrakk>callback h = WaitressFetchBufCb; chunkedState (request h) = CHUNKSIZE; chunkSize (request h) = 0;
    list_all (\<lambda>p. p \<noteq> [] \<and> length p < 2 ^ 64) ps\<rbrakk> \<Longrightarrow>
    WaitressHandleChunked (chunked_text ps @ extra) h
      = (WAITRESS_HANDLER_DONE, on_request (chunkedState_update (\<lambda>_. DATA)) (fold collect ps h))"
proof (induction ps arbitrary: h)
  case Nil
  have "show_hex 0 = ''0''" by code_simp
  then show ?case
    using Nil chunk_size [of h 0 "crlf @ crlf @ extra"]
    by (simp add: chunked_text_def crlf_def WaitressHandleChunked.simps(2) chunk_digit_crlf Let_def on_request_def)
next
  case (Cons p ps)
  then show ?case using chunk_decode [of h p "chunked_text ps @ extra"] by (simp add: chunked_text_def)
qed

lemma received_fold: "received (fold collect ps h) = received h @ concat ps"
  by (induction ps arbitrary: h) auto

lemma cb_data_fold: "ps \<noteq> [] \<Longrightarrow> cb_data (fold collect ps h) = Some (received h @ concat ps)"
  using received_fold [of ps h] by (cases ps rule: rev_cases) (auto simp: received_fold)

lemma fold_collect_length [simp]: "contentLength (request (fold collect ps h)) = contentLength (request h)"
  by (induction ps arbitrary: h) auto

section \<open>A whole response\<close>

definition header_text :: "string \<times> string \<Rightarrow> string" where
  "header_text kv = (case kv of (k, v) \<Rightarrow> k @ '': '' @ v @ crlf)"

definition header_ok :: "string \<times> string \<Rightarrow> bool" where
  "header_ok kv = (case kv of (k, v) \<Rightarrow> list_all in_line k \<and> list_all in_line v \<and> CHR '':'' \<notin> set k
    \<and> (v \<noteq> [] \<longrightarrow> \<not> is_space (hd v)))"

text \<open>A header libwaitress does not look at.\<close>

definition plain_header :: "string \<times> string \<Rightarrow> bool" where
  "plain_header kv = (header_ok kv \<and> strcasecmp (fst kv) ''Content-Length'' \<noteq> 0 \<and> strcasecmp (fst kv) ''Transfer-Encoding'' \<noteq> 0)"

definition response_head :: "(string \<times> string) list \<Rightarrow> string" where
  "response_head headers = ''HTTP/1.1 200 OK'' @ crlf @ concat (map header_text headers) @ crlf"

lemma in_line_texts: "list_all in_line ''HTTP/1.1 200 OK''" "in_line (CHR 0x0D)" "in_line (CHR '':'')" "in_line (CHR '' '')"
  by code_simp+

lemma getline_text: "list_all in_line x \<Longrightarrow> WaitressGetline (x @ crlf @ rest) = Some (x, rest)"
  using getline_line [of "x @ [CHR 0x0D]" rest] in_line_texts by (simp add: crlf_def strip_cr_def)

lemma header_line_text:
  assumes "header_ok (k, v)"
  shows "header_line HDRM_LINES (k @ '': '' @ v) h = (WAITRESS_RET_OK, HDRM_LINES, WaitressHandleHeader k v h)"
proof -
  have k: "\<forall>c \<in> set k. c \<noteq> CHR '':''" using assms by (auto simp: header_ok_def)
  have "dropWhile (\<lambda>c. c \<noteq> CHR '':'') (k @ '': '' @ v) = '': '' @ v" "takeWhile (\<lambda>c. c \<noteq> CHR '':'') (k @ '': '' @ v) = k"
    using k by (simp_all add: dropWhile_append takeWhile_append)
  moreover have "dropWhile is_space ('' '' @ v) = v"
    using assms by (cases v) (auto simp: header_ok_def is_space_def)
  ultimately show ?thesis by (simp add: header_line_def)
qed

lemma header_lines_text:
  assumes "header_ok (k, v)"
  shows "header_lines HDRM_LINES (header_text (k, v) @ rest) h = header_lines HDRM_LINES rest (WaitressHandleHeader k v h)"
proof -
  have "list_all in_line (k @ '': '' @ v)" using assms in_line_texts by (simp add: header_ok_def)
  from getline_text [OF this, of rest] show ?thesis
    using header_line_text [OF assms, of h] header_lines_step [of _ "k @ '': '' @ v" rest HDRM_LINES h] by (simp add: header_text_def)
qed

lemma header_lines_plain:
  "list_all plain_header headers \<Longrightarrow>
    header_lines HDRM_LINES (concat (map header_text headers) @ rest) h = header_lines HDRM_LINES rest h"
proof (induction headers)
  case (Cons kv headers)
  obtain k v where kv: "kv = (k, v)" by force
  have "WaitressHandleHeader k v h = h" using Cons.prems by (simp add: WaitressHandleHeader_def plain_header_def kv)
  then show ?case
    using Cons header_lines_text [of k v "concat (map header_text headers) @ rest" h] by (simp add: kv plain_header_def)
qed simp

lemma header_lines_among:
  fixes h :: "'d http_handle"
  assumes "list_all plain_header before" and "list_all plain_header after" and "header_ok (k, v)"
    and status: "list_all in_line line" "WaitressParseStatusline line \<in> {200, 206}"
  shows "header_lines HDRM_HEAD (line @ crlf @ concat (map header_text (before @ (k, v) # after)) @ crlf @ body) h
    = (WAITRESS_RET_OK, HDRM_FINISHED, body, WaitressHandleHeader k v h)"
proof -
  have s: "header_line HDRM_HEAD line h = (WAITRESS_RET_OK, HDRM_LINES, h)"
    using status(2) by (auto simp: header_line_def status_result_def)
  have e: "header_lines HDRM_LINES (crlf @ body) h' = (WAITRESS_RET_OK, HDRM_FINISHED, body, h')" for h' :: "'d http_handle"
    using header_lines_step [OF getline_text [of "[]" body, simplified], of HDRM_LINES h' WAITRESS_RET_OK HDRM_FINISHED h']
      header_lines_stop [of HDRM_FINISHED body h'] by (simp add: header_line_def)
  let ?t = "concat (map header_text after) @ crlf @ body"
  let ?r = "concat (map header_text before) @ header_text (k, v) @ ?t"
  have "header_lines HDRM_HEAD (line @ crlf @ ?r) h = header_lines HDRM_LINES ?r h"
    using header_lines_step [OF getline_text [OF status(1)] s] by simp
  also have "\<dots> = header_lines HDRM_LINES (header_text (k, v) @ ?t) h" by (rule header_lines_plain [OF assms(1)])
  also have "\<dots> = header_lines HDRM_LINES ?t (WaitressHandleHeader k v h)" by (rule header_lines_text [OF assms(3)])
  also have "\<dots> = header_lines HDRM_LINES (crlf @ body) (WaitressHandleHeader k v h)" by (rule header_lines_plain [OF assms(2)])
  also have "\<dots> = (WAITRESS_RET_OK, HDRM_FINISHED, body, WaitressHandleHeader k v h)" by (rule e)
  finally show ?thesis by simp
qed

lemma header_lines_start:
  "\<lbrakk>list_all plain_header others; header_ok (k, v); list_all in_line line; WaitressParseStatusline line \<in> {200, 206}\<rbrakk> \<Longrightarrow>
    header_lines HDRM_HEAD (line @ crlf @ concat (map header_text (others @ [(k, v)])) @ crlf @ body) h
      = (WAITRESS_RET_OK, HDRM_FINISHED, body, WaitressHandleHeader k v h)"
  by (rule header_lines_among) simp_all

lemma header_lines_head:
  fixes h :: "'d http_handle"
  assumes "list_all plain_header before" and "list_all plain_header after" and "header_ok (k, v)"
  shows "header_lines HDRM_HEAD (response_head (before @ (k, v) # after) @ body) h
    = (WAITRESS_RET_OK, HDRM_FINISHED, body, WaitressHandleHeader k v h)"
proof -
  have "WaitressParseStatusline ''HTTP/1.1 200 OK'' = 200" by code_simp
  then show ?thesis using header_lines_among [OF assms in_line_texts(1), of body h] by (simp add: response_head_def)
qed

section \<open>Fetching\<close>

lemma try_addresses_works: "Connect_works \<in> set as \<Longrightarrow> try_addresses ret as = (Some WAITRESS_RET_OK, True)"
  by (induction as arbitrary: ret) (auto split: address_try.split)

lemma write_all_sent: "writes net = [] \<Longrightarrow> write_all sec ts net = (WAITRESS_RET_OK, net\<lparr>sent := sent net @ concat ts\<rparr>)"
  by (induction ts arbitrary: net) auto

lemma request_texts_setup [simp]:
  "request_texts (h\<lparr>cb_data := d, callback := cb\<rparr>) = request_texts h" "request_texts (h\<lparr>request := r\<rparr>) = request_texts h"
  "request_texts (on_request f h) = request_texts h"
  by (simp_all add: request_texts_def request_head_def method_name_def request_path_def post_body_def url_default_port_def
      WaitressProxyEnabled_def on_request_def Let_def)

text \<open>What a body is and how a header announces it.\<close>

definition announces :: "string \<times> string \<Rightarrow> string \<Rightarrow> string \<Rightarrow> bool" where
  "announces header body content \<longleftrightarrow>
    header = (''Content-Length'', show_nat (length content)) \<and> body = content \<and> length content < 2 ^ 63
    \<or> header = (''Transfer-Encoding'', ''chunked'') \<and> content \<noteq> [] \<and>
      (\<exists>ps. list_all (\<lambda>p. p \<noteq> [] \<and> length p < 2 ^ 64) ps \<and> body = chunked_text ps \<and> content = concat ps)"

lemma announces_ok: "announces (k, v) body content \<Longrightarrow> header_ok (k, v)"
proof -
  have "list_all in_line ''Content-Length''" "list_all in_line ''Transfer-Encoding''" "header_ok (''Transfer-Encoding'', ''chunked'')"
    by code_simp+
  moreover have "list_all in_line (show_nat n)" "\<not> is_space (hd (show_nat n))" for n
  proof -
    have "in_line c" if "digit_value c < 10" for c
      using that by (auto simp: digit_value_def in_line_def Let_def split: if_splits)
    then show "list_all in_line (show_nat n)" using show_nat_digits [of n] by (auto simp: list_all_iff)
    show "\<not> is_space (hd (show_nat n))"
      using show_nat_digits [of n] digit_char by (cases "show_nat n") auto
  qed
  ultimately show "announces (k, v) body content \<Longrightarrow> header_ok (k, v)"
    by (auto simp: announces_def header_ok_def)
qed

lemma receive_announced:
  assumes "announces (k, v) body content" and "arrives rs s" and "buf @ s = body @ extra" and "length extra < 2 ^ 63"
    and h: "callback h = WaitressFetchBufCb" "request h = no_request\<lparr>connected := True\<rparr>" "cb_data h = None"
  shows "\<exists>rs' h' more. receive_body buf rs (WaitressHandleHeader k v h) = (WAITRESS_RET_OK, rs', h')
    \<and> cb_data h' = Some (content @ more) \<and> contentLength (request h') \<le> contentReceived (request h')
    \<and> take (length more) extra = more \<and> (k = ''Transfer-Encoding'' \<longrightarrow> more = [])"
  using assms(1) unfolding announces_def
proof (elim disjE conjE exE, goal_cases)
  case 1
  let ?h = "on_request (\<lambda>r. r\<lparr>contentLength := word_of_nat (length content), contentLengthKnown := True\<rparr>) h"
  have "atol (show_nat (length content)) = int (length content)"
    using strtol_show_int [of "int (length content)"] 1(3) by (simp add: atol_def show_int_def clamp_long_def LONG_MAX_def)
  then have w: "WaitressHandleHeader k v h = ?h"
    using 1(1) by (simp add: WaitressHandleHeader_def)
  have total: "length buf + length s = length content + length extra" using arg_cong [OF assms(3), of length] 1(2) by simp
  have "\<exists>rs' more. receive_body buf rs ?h = (WAITRESS_RET_OK, rs', collect (content @ more) ?h) \<and> take (length more) extra = more"
    by (rule receive_counted [OF assms(2), of _ 0]) (use h 1 assms(3,4) total in \<open>auto simp: no_request_def\<close>)
  then obtain rs' more where r: "receive_body buf rs ?h = (WAITRESS_RET_OK, rs', collect (content @ more) ?h)"
    and more: "take (length more) extra = more" by blast
  have u: "unat (word_of_nat n :: 64 word) = n" if "n < 2 ^ 64" for n
    using that by (simp add: unat_of_nat take_bit_nat_eq_self)
  have "length more \<le> length extra" using arg_cong [OF more, of length] by simp
  then have "(word_of_nat (length content) :: 64 word) \<le> word_of_nat (length (content @ more))"
    unfolding word_le_nat_alt using u [of "length content"] u [of "length (content @ more)"] 1(3) assms(4) by simp
  then have "contentLength (request (collect (content @ more) ?h)) \<le> contentReceived (request (collect (content @ more) ?h))"
    using h by (simp add: no_request_def)
  moreover have "cb_data (collect (content @ more) ?h) = Some (content @ more)" using h by (simp add: received_def)
  ultimately show ?case
    unfolding w using r more 1(1) by (intro exI conjI) auto
next
  case (2 ps)
  let ?h = "on_request (chunked_update (\<lambda>_. True)) h"
  have "strcasecmp ''Transfer-Encoding'' ''Content-Length'' \<noteq> 0" by code_simp
  then have w: "WaitressHandleHeader k v h = ?h"
    using 2(1) by (simp add: WaitressHandleHeader_def)
  let ?h' = "on_request (chunkedState_update (\<lambda>_. DATA)) (fold collect ps ?h)"
  have "WaitressHandleChunked (buf @ s) ?h = (WAITRESS_HANDLER_DONE, ?h')"
    unfolding assms(3) 2(4) by (rule chunks_decode) (use h 2 in \<open>auto simp: no_request_def\<close>)
  then have "\<exists>rs'. receive_body buf rs ?h = (WAITRESS_RET_OK, rs', ?h')"
    by (rule receive_chunked [OF _ assms(2)]) (use h in \<open>auto simp: no_request_def\<close>)
  then obtain rs' where "receive_body buf rs ?h = (WAITRESS_RET_OK, rs', ?h')" by blast
  moreover have "ps \<noteq> []" using 2 by auto
  ultimately show ?case
    unfolding w using h 2
    by (intro exI [of _ rs'] exI [of _ ?h'] exI [of _ "[]"]) (auto simp: no_request_def received_def cb_data_fold)
qed


definition plain_handle :: "string option http_handle" where
  "plain_handle = \<lparr>post = False, extraHeaders = None, postData = None, cb_data = None, callback = WaitressFetchBufCb, h_url = no_url,
    h_tls = False, h_tlsPort = None, h_proxy = no_url, request = no_request\<rparr>"

definition chunked_head :: string where
  "chunked_head = response_head ([] @ (''Transfer-Encoding'', ''chunked'') # [(''Server'', ''x'')])"


section \<open>Where the client gives up its process\<close>

text \<open>
  An address that cannot be connected to at once (no route to the network) leaves the return value OK without a socket, and the
  first write fails an assertion; long proxy credentials overflow the buffer of the tunnel.
\<close>

lemma connect_failure_asserts: "\<not> h_tls h \<Longrightarrow> WaitressFetchBuf (Some [Connect_fails]) tls_ret net h = None"
  by (simp add: WaitressFetchBuf_def WaitressFetchCall_def WaitressConnect_def WaitressSendRequest_def write_rets_def
      request_texts_def on_request_def)

lemma proxy_credentials_overflow:
  assumes "url_user (h_proxy h) = Some u" and "200 \<le> length u" and "connected (request h)" and "writes net = []"
  shows "proxy_tunnel net h = None"
proof -
  let ?p = "take 1023 (u @ '':'' @ (case url_password (h_proxy h) of Some p \<Rightarrow> p | None \<Rightarrow> []))"
  have "200 \<le> length (bytes_of ?p)" using assms(2) by (simp add: bytes_of_def)
  then have "256 \<le> length (WaitressBase64Encode (bytes_of ?p))" by (simp only: base64_length)
  moreover have "WaitressFormatAuthorization (h_proxy h) ''Proxy-'' WAITRESS_BUFFER_SIZE =
      Some (take 10239 (''Proxy-Authorization: Basic '' @ WaitressBase64Encode (bytes_of ?p) @ crlf))"
    using assms(1) by (simp add: WaitressFormatAuthorization_def snprintf_def WAITRESS_BUFFER_SIZE_def Let_def)
  ultimately obtain a where "WaitressFormatAuthorization (h_proxy h) ''Proxy-'' WAITRESS_BUFFER_SIZE = Some a" "256 \<le> length a"
    by auto
  then show ?thesis
    using assms(3,4) by (simp add: proxy_tunnel_def write_rets_def write_all_sent Let_def CONNECT_BUFFER_SIZE_def)
qed

end
