(* ===== verification/PlayerFetch.thy ===== *)
theory PlayerFetch
  imports PlayerProofs WaitressHttpProofs
begin

text \<open>
  The player and the HTTP client together: a song whose transfer breaks off, as often as it may, is asked for again from where it
  stopped, and the decoder gets it whole, without gap or repetition.
\<close>

section \<open>The callback on a sequence of blocks\<close>

type_synonym player_callback = "string \<Rightarrow> player_thread \<Rightarrow> (bool \<times> player_thread) option"

fun feed :: "player_callback \<Rightarrow> string list \<Rightarrow> player_thread \<Rightarrow> player_thread option" where
  "feed cb [] p = Some p"
| "feed cb (d # ds) p = (case cb d p of Some (True, p) \<Rightarrow> feed cb ds p | _ \<Rightarrow> None)"

lemma feed_aac: "feed (BarPlayerAACCb au) ds p = aac_run au ds p"
  by (induction ds arbitrary: p) (auto split: option.splits bool.splits)

lemma feed_append: "feed cb (ds @ es) p = Option.bind (feed cb ds p) (feed cb es)"
  by (induction ds arbitrary: p) (auto split: option.splits bool.splits)

lemma feed_step:
  assumes "feed cb [d] p \<noteq> None"
  obtains q where "cb d p = Some (True, q)" "feed cb (d # ds) p = feed cb ds q"
  using assms by (auto split: option.splits prod.splits bool.splits)

text \<open>
  The callback takes every beginning of the data, in whatever blocks of less than the client's buffer it comes: the player is not told to
  quit, and neither the decoder nor the sound device gives up.
\<close>

definition blocks :: "string list \<Rightarrow> bool" where
  "blocks ds = list_all (\<lambda>d. length d < WAITRESS_BUFFER_SIZE) ds"

lemma blocks_simps [simp]:
  "blocks []" "blocks (d # ds) \<longleftrightarrow> length d < WAITRESS_BUFFER_SIZE \<and> blocks ds" "blocks (ds @ es) \<longleftrightarrow> blocks ds \<and> blocks es"
  by (simp_all add: blocks_def)

definition takes_all :: "player_callback \<Rightarrow> string \<Rightarrow> player_thread \<Rightarrow> bool" where
  "takes_all cb s p = (\<forall>ds u. s = concat ds @ u \<longrightarrow> blocks ds \<longrightarrow> feed cb ds p \<noteq> None)"

lemma takes_all_after:
  assumes "takes_all cb (concat ds @ s) p" "feed cb ds p = Some q" "blocks ds"
  shows "takes_all cb s q"
  unfolding takes_all_def
proof (intro allI impI)
  fix es u
  assume es: "s = concat es @ u" "blocks es"
  then have "concat ds @ s = concat (ds @ es) @ u" "blocks (ds @ es)" using assms(3) by simp_all
  then have "feed cb (ds @ es) p \<noteq> None" using assms(1) unfolding takes_all_def by blast
  then show "feed cb es q \<noteq> None" by (simp add: feed_append assms(2))
qed

lemma takes_all_step:
  assumes "takes_all cb (d @ s) p" "length d < WAITRESS_BUFFER_SIZE"
  obtains q where "cb d p = Some (True, q)" "takes_all cb s q" "feed cb [d] p = Some q"
proof -
  have d: "blocks [d]" "d @ s = concat [d] @ s" using assms(2) by simp_all
  then have "feed cb [d] p \<noteq> None" using assms(1) unfolding takes_all_def by blast
  then obtain q where q: "cb d p = Some (True, q)" by (rule feed_step)
  then have "feed cb [d] p = Some q" by simp
  then show thesis using takes_all_after [of cb "[d]" s p q] assms(1) d(1) q that by simp
qed

text \<open>Every byte is counted.\<close>

definition counts_bytes :: "player_callback \<Rightarrow> player_thread \<Rightarrow> bool" where
  "counts_bytes cb p = (\<forall>ds q. feed cb ds p = Some q \<longrightarrow> bytesReceived q = length (concat ds))"

lemma aac_counts:
  assumes "fresh_player p"
  shows "counts_bytes (BarPlayerAACCb au) p"
  unfolding counts_bytes_def feed_aac
proof (intro allI impI)
  fix ds q
  assume run: "aac_run au ds p = Some q"
  have "aac_between [] p" using assms by (simp add: aac_between_def fresh_player_def early_stage)
  from aac_run_between [OF run this] assms show "bytesReceived q = length (concat ds)" by (auto simp: fresh_player_def)
qed

section \<open>A response that breaks off\<close>

definition breaks_off :: "net_read list \<Rightarrow> bool" where
  "breaks_off tail = (tail = [] \<or> hd tail = Read_timeout \<or> hd tail = Read_fails)"

definition break_result :: "net_read list \<Rightarrow> int" where
  "break_result tail = (if tail = [] then WAITRESS_RET_OK else if hd tail = Read_timeout then WAITRESS_RET_TIMEOUT else WAITRESS_RET_READ_ERR)"

lemma take_read_tail:
  "rs \<noteq> [] \<Longrightarrow> take_read sec n (rs @ tail) = (case take_read sec n rs of (ret, s, rs') \<Rightarrow> (ret, s, rs' @ tail))"
  by (cases "(sec, n, rs)" rule: take_read.cases) auto

lemma take_read_bound: "take_read sec n rs = (ret, s, rs') \<Longrightarrow> length s \<le> n"
  by (cases "(sec, n, rs)" rule: take_read.cases) (auto split: if_splits)

lemma receive_headers_space:
  "receive_headers m buf rs h = (ret, b, rs', h') \<Longrightarrow> length buf < WAITRESS_BUFFER_SIZE \<Longrightarrow> length b < WAITRESS_BUFFER_SIZE"
proof (induction m buf rs h rule: receive_headers.induct)
  case (1 m buf rs h)
  obtain ret1 s rs1 where t: "take_read (is_secure (request h)) (WAITRESS_BUFFER_SIZE - 1 - length buf) rs = (ret1, s, rs1)"
    by (rule prod_cases3)
  obtain ret2 m2 b2 h2 where hl: "header_lines m (buf @ s) h = (ret2, m2, b2, h2)" by (cases "header_lines m (buf @ s) h") auto
  have b2: "length b2 < WAITRESS_BUFFER_SIZE"
    using take_read_bound [OF t] header_lines_left [OF hl, THEN conjunct1] 1(3) by (simp only: length_append)
  show ?case
    using 1(1) [OF t [symmetric] refl _ _ hl [symmetric] refl refl _ _ _ b2] 1(2,3) t hl b2
    by (auto simp: receive_headers.simps [of m buf rs h] split: if_splits)
qed

lemma receive_headers_tail:
  "receive_headers m buf rs h = (WAITRESS_RET_OK, b, rs', h') \<Longrightarrow> receive_headers m buf (rs @ tail) h = (WAITRESS_RET_OK, b, rs' @ tail, h')"
proof (induction m buf rs h rule: receive_headers.induct)
  case (1 m buf rs h)
  obtain ret s rs1 where t: "take_read (is_secure (request h)) (WAITRESS_BUFFER_SIZE - 1 - length buf) rs = (ret, s, rs1)"
    by (rule prod_cases3)
  have s: "ret = WAITRESS_RET_OK" "s \<noteq> []"
    using 1(2) t by (auto simp: receive_headers.simps [of m buf rs h] split: if_splits)
  then have "rs \<noteq> []" using t by auto
  then have t': "take_read (is_secure (request h)) (WAITRESS_BUFFER_SIZE - 1 - length buf) (rs @ tail) = (ret, s, rs1 @ tail)"
    using take_read_tail [OF \<open>rs \<noteq> []\<close>] t by simp
  obtain ret2 m2 b2 h2 where hl: "header_lines m (buf @ s) h = (ret2, m2, b2, h2)" by (cases "header_lines m (buf @ s) h") auto
  show ?case
    using 1(1) [OF t [symmetric] refl _ s(2) hl [symmetric] refl refl] 1(2) t t' s hl
    by (auto simp: receive_headers.simps [of m buf rs h] receive_headers.simps [of m buf "rs @ tail" h] split: if_splits)
qed

lemma unat_small: "n < 2 ^ 64 \<Longrightarrow> unat (word_of_nat n :: 64 word) = n"
  by (simp add: unat_of_nat take_bit_nat_eq_self)

type_synonym player_http = "player_thread option http_handle"

text \<open>The handle while \<open>k\<close> of \<open>l\<close> bytes of the body have come.\<close>

definition receiving :: "player_callback \<Rightarrow> nat \<Rightarrow> nat \<Rightarrow> player_thread \<Rightarrow> player_http \<Rightarrow> bool" where
  "receiving cb k l p h = (callback h = guarded cb \<and> cb_data h = Some p \<and> \<not> chunked (request h) \<and> \<not> is_secure (request h)
    \<and> contentLengthKnown (request h) \<and> contentReceived (request h) = word_of_nat k \<and> contentLength (request h) = word_of_nat l \<and> l < 2 ^ 64)"

lemma handled:
  assumes "receiving cb k l p h" "cb d p = Some (True, q)"
  obtains h' where "data_handler d h = (WAITRESS_HANDLER_CONTINUE, h')" "receiving cb (k + length d) l q h'"
proof
  let ?h = "on_request (\<lambda>r. r\<lparr>contentReceived := contentReceived r + word_of_nat (length d)\<rparr>) h"
  show "data_handler d h = (WAITRESS_HANDLER_CONTINUE, ?h\<lparr>cb_data := Some q\<rparr>)"
    using assms by (simp add: receiving_def data_handler_def WaitressHandleIdentity_def guarded_def Let_def)
  show "receiving cb (k + length d) l q (?h\<lparr>cb_data := Some q\<rparr>)"
    using assms(1) by (simp add: receiving_def)
qed

lemma body_fed:
  assumes "arrives rs s" "receiving cb k l p h" "takes_all cb (buf @ s) p" "length buf < WAITRESS_BUFFER_SIZE"
    and "k + length (buf @ s) \<le> l"
    and "k + length (buf @ s) < l \<longrightarrow> breaks_off tail"
  shows "\<exists>ds q rs' h'. receive_body buf (rs @ tail) h =
      (if k + length (buf @ s) = l then WAITRESS_RET_OK else break_result tail, rs', h')
    \<and> concat ds = buf @ s \<and> blocks ds \<and> feed cb ds p = Some q \<and> receiving cb (k + length (buf @ s)) l q h'"
  using assms
proof (induction "length s" arbitrary: rs s k p h buf rule: less_induct)
  case less
  obtain q where q: "cb buf p = Some (True, q)" "takes_all cb s q" "feed cb [buf] p = Some q"
    by (rule takes_all_step [OF less.prems(3,4)])
  obtain h1 where h1: "data_handler buf h = (WAITRESS_HANDLER_CONTINUE, h1)" "receiving cb (k + length buf) l q h1"
    by (rule handled [OF less.prems(2) q(1)])
  note unfold = receive_body.simps [of buf "rs @ tail" h]
  have l: "l < 2 ^ 64" using less.prems(2) by (simp add: receiving_def)
  have "contentReceived (request h1) = word_of_nat (k + length buf)" "contentLength (request h1) = word_of_nat l"
    using h1(2) by (simp_all add: receiving_def)
  then have full: "contentReceived (request h1) \<ge> contentLength (request h1) \<longleftrightarrow> l \<le> k + length buf"
    using less.prems(5) l unat_small [of "k + length buf"] unat_small [of l] by (simp only: word_le_nat_alt length_append)
  have known: "contentLengthKnown (request h1)" "\<not> is_secure (request h1)" using h1(2) by (simp_all add: receiving_def)
  show ?case
  proof (cases "s = []")
    case True
    then have rs: "rs = []" using less.prems(1) by simp
    have body: "receive_body buf (rs @ tail) h = (if k + length (buf @ s) = l then WAITRESS_RET_OK else break_result tail,
        if k + length buf = l then tail else tl tail, h1)"
    proof (cases "k + length buf = l")
      case True
      then have "receive_body buf (rs @ tail) h = (WAITRESS_RET_OK, rs @ tail, h1)"
        using h1(1) full known(1) by (simp add: unfold)
      then show ?thesis using True rs \<open>s = []\<close> by simp
    next
      case False
      then have tl: "breaks_off tail" and more: "\<not> l \<le> k + length buf" using less.prems(5,6) \<open>s = []\<close> by auto
      have "receive_body buf (rs @ tail) h = (break_result tail, tl tail, h1)"
        unfolding unfold using tl h1(1) full known more by (cases tail) (auto simp: rs breaks_off_def break_result_def)
      then show ?thesis using False \<open>s = []\<close> by simp
    qed
    show ?thesis
      using q(3) h1(2) True less.prems(4) by (intro exI [of _ "[buf]"] exI [of _ q] exI [of _ "if k + length buf = l then tail else tl tail"] exI [of _ h1])
        (simp add: body)
  next
    case False
    obtain a b rs1 where t: "take_read False (WAITRESS_BUFFER_SIZE - 1) rs = (WAITRESS_RET_OK, a, rs1)" and ab: "a \<noteq> []" "s = a @ b" "arrives rs1 b"
      using arrives_take [OF less.prems(1) some_space False] by blast
    have "rs \<noteq> []" using t ab(1) by auto
    then have t': "take_read False (WAITRESS_BUFFER_SIZE - 1) (rs @ tail) = (WAITRESS_RET_OK, a, rs1 @ tail)"
      by (simp only: take_read_tail [OF \<open>rs \<noteq> []\<close>] t prod.case)
    have more: "\<not> l \<le> k + length buf" using less.prems(5) False by (cases s) auto
    have step: "receive_body buf (rs @ tail) h = receive_body a (rs1 @ tail) h1"
      using h1(1) full known more t' ab(1) by (simp add: unfold)
    have len: "k + length buf + length (a @ b) = k + length (buf @ s)" using ab(2) by simp
    have shorter: "length b < length s" using ab by simp
    have a: "length a < WAITRESS_BUFFER_SIZE" using take_read_bound [OF t] by (simp add: WAITRESS_BUFFER_SIZE_def)
    from less.hyps [OF shorter ab(3) h1(2) _ a, unfolded len] q(2) ab(2) less.prems(5,6)
    obtain ds r rs' h' where "receive_body a (rs1 @ tail) h1 = (if k + length (buf @ s) = l then WAITRESS_RET_OK else break_result tail, rs', h')"
      "concat ds = a @ b" "blocks ds" "feed cb ds q = Some r" "receiving cb (k + length (buf @ s)) l r h'"
      by auto
    then show ?thesis
      using step q(1) ab(2) less.prems(4) by (intro exI [of _ "buf # ds"] exI [of _ r] exI [of _ rs'] exI [of _ h']) simp
  qed
qed

section \<open>One request\<close>

text \<open>
  What an attempt that is asked for the bytes from \<open>n\<close> on gives: a connection, and in any pieces the head of a response with the length of
  the rest, and the bytes up to \<open>m\<close>; then, if these are not all, the connection is closed, fails, or nothing more comes.
\<close>

definition answers :: "string \<Rightarrow> nat \<Rightarrow> nat \<Rightarrow> address_try list option \<times> int \<times> net \<Rightarrow> bool" where
  "answers song n m a = (\<exists>addresses tls_ret net line others head ss tail. a = (Some addresses, tls_ret, net)
    \<and> Connect_works \<in> set addresses \<and> writes net = []
    \<and> line \<in> {''HTTP/1.1 200 OK'', ''HTTP/1.1 206 Partial Content''} \<and> list_all plain_header others
    \<and> head = line @ crlf @ concat (map header_text (others @ [(''Content-Length'', show_nat (length song - n))])) @ crlf
    \<and> length head < WAITRESS_BUFFER_SIZE
    \<and> reads net = map Got ss @ tail \<and> [] \<notin> set ss \<and> concat ss = head @ take (m - n) (drop n song)
    \<and> n \<le> m \<and> m \<le> length song \<and> (m < length song \<longrightarrow> breaks_off tail))"

lemma status_lines:
  "line \<in> {''HTTP/1.1 200 OK'', ''HTTP/1.1 206 Partial Content''} \<Longrightarrow> list_all in_line line \<and> WaitressParseStatusline line \<in> {200, 206}"
proof -
  have "list_all in_line ''HTTP/1.1 200 OK''" "list_all in_line ''HTTP/1.1 206 Partial Content''"
    "WaitressParseStatusline ''HTTP/1.1 200 OK'' = 200" "WaitressParseStatusline ''HTTP/1.1 206 Partial Content'' = 206"
    by code_simp+
  then show "line \<in> {''HTTP/1.1 200 OK'', ''HTTP/1.1 206 Partial Content''} \<Longrightarrow> list_all in_line line \<and> WaitressParseStatusline line \<in> {200, 206}"
    by auto
qed

lemma length_header:
  assumes "n < 2 ^ 63"
  shows "header_ok (''Content-Length'', show_nat n)"
    "WaitressHandleHeader ''Content-Length'' (show_nat n) h = on_request (\<lambda>r. r\<lparr>contentLength := word_of_nat n, contentLengthKnown := True\<rparr>) h"
proof -
  have "announces (''Content-Length'', show_nat (length (replicate n CHR ''x''))) (replicate n CHR ''x'') (replicate n CHR ''x'')"
    using assms unfolding announces_def by simp
  from announces_ok [OF this] show "header_ok (''Content-Length'', show_nat n)" by simp
  have "atol (show_nat n) = int n"
    using strtol_show_int [of "int n"] assms by (simp add: atol_def show_int_def clamp_long_def LONG_MAX_def)
  then show "WaitressHandleHeader ''Content-Length'' (show_nat n) h = on_request (\<lambda>r. r\<lparr>contentLength := word_of_nat n, contentLengthKnown := True\<rparr>) h"
    by (simp add: WaitressHandleHeader_def)
qed

lemma fetch_attempt:
  assumes "answers song n m (lookup, tls_ret, net)" "takes_all cb (drop n song) p" "length song < 2 ^ 63"
  shows "\<exists>ds q ret net' h'. WaitressFetchCall lookup tls_ret net (player_handle cb p) = Some (ret, net', h')
    \<and> concat ds = take (m - n) (drop n song) \<and> blocks ds \<and> feed cb ds p = Some q \<and> cb_data h' = Some q
    \<and> (if m = length song then ret = WAITRESS_RET_OK
       else ret \<in> {WAITRESS_RET_PARTIAL_FILE, WAITRESS_RET_TIMEOUT, WAITRESS_RET_READ_ERR})"
proof -
  let ?part = "take (m - n) (drop n song)" and ?l = "length song - n"
  obtain addresses line others head ss tail where lookup: "lookup = Some addresses" "Connect_works \<in> set addresses" "writes net = []"
    and line: "line \<in> {''HTTP/1.1 200 OK'', ''HTTP/1.1 206 Partial Content''}" and others: "list_all plain_header others"
    and head: "head = line @ crlf @ concat (map header_text (others @ [(''Content-Length'', show_nat ?l)])) @ crlf"
      "length head < WAITRESS_BUFFER_SIZE"
    and rd: "reads net = map Got ss @ tail" "[] \<notin> set ss" "concat ss = head @ ?part"
    and m: "n \<le> m" "m \<le> length song" "m < length song \<longrightarrow> breaks_off tail"
    using assms(1) unfolding answers_def by blast
  define h0 where "h0 = on_request (\<lambda>r. r\<lparr>request.connected := True\<rparr>) (player_handle cb p)"
  let ?h = "on_request (\<lambda>r. r\<lparr>contentLength := word_of_nat ?l, contentLengthKnown := True\<rparr>) h0"
  have l: "?l < 2 ^ 63" using assms(3) by simp
  have hl: "header_lines HDRM_HEAD ([] @ head @ ?part) h0 = (WAITRESS_RET_OK, HDRM_FINISHED, ?part, ?h)"
    using header_lines_start [OF others length_header(1) [OF l] status_lines [OF line, THEN conjunct1] status_lines [OF line, THEN conjunct2],
        of ?part h0] by (simp add: head length_header(2) [OF l])
  have "arrives (map Got ss) (head @ ?part)" using rd(2,3) unfolding arrives_def by blast
  from receive_headers_arrives [OF hl this] head(2)
  obtain b c rs1 where rh: "receive_headers HDRM_HEAD [] (map Got ss) h0 = (WAITRESS_RET_OK, b, rs1, ?h)" and bc: "arrives rs1 c" "b @ c = ?part"
    by (auto simp: WaitressGetline_def)
  have part: "length ?part = m - n" using m by simp
  have recv: "receiving cb 0 ?l p ?h"
    using l by (simp add: receiving_def h0_def player_handle_def no_request_def on_request_def)
  have takes: "takes_all cb (b @ c) p"
    unfolding takes_all_def
  proof (intro allI impI)
    fix ds u
    assume c: "b @ c = concat ds @ u" "blocks ds"
    then have "drop n song = concat ds @ (u @ drop (m - n) (drop n song))" using bc(2) by (metis append_assoc append_take_drop_id)
    then show "feed cb ds p \<noteq> None" using assms(2) c(2) unfolding takes_all_def by blast
  qed
  have len: "length (b @ c) = m - n" using bc(2) part by simp
  have "0 + length (b @ c) \<le> ?l" "0 + length (b @ c) < ?l \<longrightarrow> breaks_off tail" unfolding len using m by auto
  from body_fed [OF bc(1) recv takes receive_headers_space [OF rh] this]
  obtain ds q rs' h' where body: "receive_body b (rs1 @ tail) ?h = (if m - n = ?l then WAITRESS_RET_OK else break_result tail, rs', h')"
    and ds: "concat ds = ?part" "blocks ds" "feed cb ds p = Some q" and h': "receiving cb (m - n) ?l q h'"
    unfolding len unfolding bc(2) by (force simp: WAITRESS_BUFFER_SIZE_def simp del: length_take length_drop)
  let ?net = "net\<lparr>sent := sent net @ concat (request_texts h0)\<rparr>"
  have conn: "WaitressConnect lookup tls_ret net (player_handle cb p\<lparr>request := no_request\<rparr>) = Some (WAITRESS_RET_OK, net, h0)"
    using lookup by (simp add: WaitressConnect_def try_addresses_works h0_def player_handle_def on_request_def)
  have send: "WaitressSendRequest net h0 = Some (WAITRESS_RET_OK, ?net)"
    using lookup(3) by (simp add: WaitressSendRequest_def write_rets_def write_all_sent h0_def)
  let ?ret = "if m - n = ?l then WAITRESS_RET_OK else break_result tail"
  have resp: "WaitressReceiveResponse (reads net) h0 = (?ret, rs', h')"
    using receive_headers_tail [OF rh, of tail] body by (simp add: WaitressReceiveResponse_def WaitressReceiveHeaders_def rd(1))
  have "contentReceived (request h') = word_of_nat (m - n)" "contentLength (request h') = word_of_nat ?l"
    using h' by (simp_all add: receiving_def)
  moreover have "unat (word_of_nat (m - n) :: 64 word) = m - n" "unat (word_of_nat ?l :: 64 word) = ?l"
    using l m by (intro unat_small; simp)+
  ultimately have short: "contentReceived (request h') < contentLength (request h') \<longleftrightarrow> m - n < ?l"
    by (simp only: word_less_nat_alt)
  have "WaitressFetchCall lookup tls_ret net (player_handle cb p)
      = Some (if ?ret = WAITRESS_RET_OK \<and> m - n < ?l then WAITRESS_RET_PARTIAL_FILE else ?ret, ?net\<lparr>reads := rs'\<rparr>, h')"
    by (simp add: WaitressFetchCall_def conn send resp short)
  moreover have "cb_data h' = Some q" using h' by (simp add: receiving_def)
  moreover have "m = length song \<longleftrightarrow> m - n = ?l" using m by auto
  ultimately show ?thesis using ds m by (auto simp: break_result_def)
qed

section \<open>A song in several attempts\<close>

lemma length_show_nat: "n < 10 ^ Suc k \<Longrightarrow> length (show_nat n) \<le> Suc k"
proof (induction k arbitrary: n)
  case 0
  then show ?case by (simp add: show_nat.simps)
next
  case (Suc k)
  show ?case
  proof (cases "n < 10")
    case True
    then show ?thesis by (simp add: show_nat.simps)
  next
    case False
    have "n div 10 < 10 ^ Suc k" using Suc.prems by (simp add: div_less_iff_less_mult)
    from Suc.IH [OF this] False show ?thesis by (simp add: show_nat.simps [of n])
  qed
qed

lemma range_header_whole:
  assumes "n < 10 ^ 15"
  shows "range_header n = ''Range: bytes='' @ show_nat n @ ''-'' @ crlf"
  using length_show_nat [of n 14] assms by (simp add: range_header_def snprintf_def crlf_def)

text \<open>
  What the server at the other end does, seen from the next attempt on, when the first \<open>n\<close> bytes of the song have arrived: the
  attempt whose request asks for the bytes from \<open>n\<close> on gives all the rest, or it breaks off after some bytes, perhaps none, and
  the attempts after it go on from there.
\<close>

inductive serves :: "string \<Rightarrow> nat \<Rightarrow> attempt stream \<Rightarrow> bool" where
  whole: "answers song n (length song) (a (''Range: bytes='' @ show_nat n @ ''-'' @ crlf)) \<Longrightarrow> serves song n (a ## rest)"
| broken: "answers song n m (a (''Range: bytes='' @ show_nat n @ ''-'' @ crlf)) \<Longrightarrow> m < length song \<Longrightarrow> serves song m rest
    \<Longrightarrow> serves song n (a ## rest)"

lemma answers_bounds: "answers song n m a \<Longrightarrow> n \<le> m \<and> m \<le> length song"
  by (auto simp: answers_def)

lemma next_attempt:
  assumes "answers song n m (a (''Range: bytes='' @ show_nat n @ ''-'' @ crlf))" "takes_all cb song p0" "length song < 10 ^ 15"
    and counts: "counts_bytes cb p0"
    and p: "feed cb es p0 = Some p" "concat es = take n song" "blocks es"
  obtains fs q where "feed cb fs p0 = Some q" "concat fs = take m song" "blocks fs"
    "player_fetch cb (a ## rest) p = (if m = length song then Some (WAITRESS_RET_OK, q) else player_fetch cb rest q)"
proof -
  have nm: "n \<le> m" "m \<le> length song" using answers_bounds [OF assms(1)] by simp_all
  have "bytesReceived p = n" using counts p(1,2) nm unfolding counts_bytes_def by force
  then have header: "range_header (bytesReceived p) = ''Range: bytes='' @ show_nat n @ ''-'' @ crlf"
    using range_header_whole [of n] nm assms(3) by simp
  obtain lookup tls_ret net where a: "a (range_header (bytesReceived p)) = (lookup, tls_ret, net)" by (rule prod_cases3)
  have "takes_all cb (concat es @ drop n song) p0" using assms(2) p(2) by simp
  then have takes: "takes_all cb (drop n song) p" using takes_all_after p(1,3) by blast
  have small: "length song < 2 ^ 63" using assms(3) by (rule less_trans) simp
  from fetch_attempt [OF assms(1) [folded header, unfolded a] takes small]
  obtain ds q ret net' h' where call: "WaitressFetchCall lookup tls_ret net (player_handle cb p) = Some (ret, net', h')"
    and ds: "concat ds = take (m - n) (drop n song)" "blocks ds" "feed cb ds p = Some q" and h': "cb_data h' = Some q"
    and ret: "if m = length song then ret = WAITRESS_RET_OK
       else ret \<in> {WAITRESS_RET_PARTIAL_FILE, WAITRESS_RET_TIMEOUT, WAITRESS_RET_READ_ERR}"
    by blast
  show thesis
  proof (rule that [of "es @ ds" q])
    show "feed cb (es @ ds) p0 = Some q" by (simp add: feed_append p(1) ds(3))
    show "concat (es @ ds) = take m song" using nm by (simp add: p(2) ds(1) take_add [symmetric])
    show "blocks (es @ ds)" using p(3) ds(2) by simp
    show "player_fetch cb (a ## rest) p = (if m = length song then Some (WAITRESS_RET_OK, q) else player_fetch cb rest q)"
      using ret by (auto simp: player_fetch.simps [of cb "a ## rest" p] a call h')
  qed
qed

lemma fetch_serves:
  assumes "serves song n attempts" "takes_all cb song p0" "length song < 10 ^ 15"
    and "counts_bytes cb p0"
    and "feed cb es p0 = Some p" "concat es = take n song" "blocks es"
  shows "\<exists>ds q. concat ds = song \<and> feed cb ds p0 = Some q \<and> player_fetch cb attempts p = Some (WAITRESS_RET_OK, q)"
  using assms
proof (induction arbitrary: es p rule: serves.induct)
  case (whole song n a rest)
  obtain fs q where "feed cb fs p0 = Some q" "concat fs = take (length song) song"
    "player_fetch cb (a ## rest) p = Some (WAITRESS_RET_OK, q)"
    using next_attempt [where n = n and m = "length song" and a = a and rest = rest, OF whole] by (metis (full_types))
  then show ?case by auto
next
  case (broken song n m a rest)
  obtain fs q where fs: "feed cb fs p0 = Some q" "concat fs = take m song" "blocks fs"
    "player_fetch cb (a ## rest) p = player_fetch cb rest q"
    using next_attempt [where n = n and m = m and a = a and rest = rest, OF broken.hyps(1) broken.prems] broken.hyps(2) by (metis nat_neq_iff)
  then show ?case using broken.IH [OF broken.prems(1-3) fs(1-3)] by simp
qed

text \<open>
  C12: A song in the AAC format survives any number of broken connections: when the server gives the bytes that are asked for, and the
  callback takes the data, the player thread returns after finitely many requests, and the blocks that the callback got are together the
  song itself, no byte missing and none twice; the capture file holds it but for what is still in the buffer.
\<close>

theorem song_survives_disconnects:
  assumes "serves song 0 attempts" "length song < 10 ^ 15" "player_format p = PIANO_AF_AACPLUS"
    and "fresh_player (p\<lparr>mode := PLAYER_INITIALIZED\<rparr>)" "capture_file p = Some c"
    and "takes_all (BarPlayerAACCb au) song (p\<lparr>mode := PLAYER_INITIALIZED\<rparr>)"
  shows "\<exists>ds q s. BarPlayerThread au content_length garbage attempts p
        = Some (if aoError q then PLAYER_RET_HARDFAIL else PLAYER_RET_OK, q\<lparr>mode := PLAYER_FINISHED_PLAYBACK\<rparr>)
    \<and> aac_run au ds (p\<lparr>mode := PLAYER_INITIALIZED\<rparr>) = Some q \<and> concat ds = song
    \<and> song = s @ buffer q \<and> capture_file q = Some (c @ s)"
proof -
  let ?p = "p\<lparr>mode := PLAYER_INITIALIZED\<rparr>"
  obtain ds q where ds: "concat ds = song" "feed (BarPlayerAACCb au) ds ?p = Some q"
    "player_fetch (BarPlayerAACCb au) attempts ?p = Some (WAITRESS_RET_OK, q)"
    using fetch_serves [OF assms(1,6,2) aac_counts [OF assms(4)], of "[]" ?p] by auto
  have run: "aac_run au ds ?p = Some q" using ds(2) by (simp only: feed_aac)
  have "aac_between [] ?p" using assms(4) by (simp add: aac_between_def fresh_player_def early_stage)
  from aac_run_between [OF run this] obtain s where "s @ buffer q = song" "capture_file q = Some (c @ s)"
    using assms(4,5) ds(1) by (auto simp: fresh_player_def)
  then show ?thesis using ds(1,3) run assms(3)
    by (intro exI [of _ ds] exI [of _ q] exI [of _ s]) (simp add: BarPlayerThread_def player_result_def)
qed

text \<open>A song of two bytes: the first connection breaks down after one of them.\<close>

definition waiting :: "nat \<Rightarrow> player_thread \<Rightarrow> bool" where
  "waiting k p = (mode p = PLAYER_INITIALIZED \<and> signals p = sconst (False, False) \<and> length (buffer p) \<le> k)"

lemma waiting_step:
  assumes "waiting k p" "k + length d \<le> 4"
  shows "\<exists>q. BarPlayerAACCb au d p = Some (True, q) \<and> waiting (k + length d) q"
  using assms
  by (auto simp: waiting_def BarPlayerAACCb_def check_idle BarPlayerBufferFill_def BAR_PLAYER_BUFSIZE_def WAITRESS_BUFFER_SIZE_def
      aac_header_def find_esds_def find_config_def search_tag.simps find_stsz_def get_sizes_def find_mdat_def
      BarPlayerBufferMove_def capture_write_stream_def)

lemma waiting_feed:
  "waiting k p \<Longrightarrow> k + length (concat ds) \<le> 4 \<Longrightarrow> feed (BarPlayerAACCb au) ds p \<noteq> None"
proof (induction ds arbitrary: k p)
  case (Cons d ds)
  obtain q where "BarPlayerAACCb au d p = Some (True, q)" "waiting (k + length d) q"
    using waiting_step [OF Cons.prems(1), of d] Cons.prems(2) by auto
  then show ?case using Cons.IH [of "k + length d" q] Cons.prems(2) by simp
qed simp

definition aac_player :: player_thread where
  "aac_player = quiet_player\<lparr>player_format := PIANO_AF_AACPLUS\<rparr>"

definition reply_head :: "nat \<Rightarrow> string" where
  "reply_head n = ''HTTP/1.1 206 Partial Content'' @ crlf @ ''Content-Length: '' @ show_nat n @ crlf @ crlf"

definition flaky_server :: "attempt stream" where
  "flaky_server = (\<lambda>_. (Some [Connect_works], WAITRESS_RET_OK, \<lparr>reads = [Got (reply_head 2 @ ''a''), Read_timeout], writes = [], sent = []\<rparr>))
    ## sconst (\<lambda>_. (Some [Connect_works], WAITRESS_RET_OK, \<lparr>reads = [Got (reply_head 1 @ ''b'')], writes = [], sent = []\<rparr>))"

lemma reply_head_short: "n < 10 \<Longrightarrow> length (reply_head n) < WAITRESS_BUFFER_SIZE"
  by (simp add: reply_head_def crlf_def WAITRESS_BUFFER_SIZE_def show_nat.simps)

lemma answers_single:
  assumes "song_left = length song - n" "song_left < 10" "n \<le> m" "m \<le> length song" "m < length song \<longrightarrow> breaks_off tail"
  shows "answers song n m (Some [Connect_works], r, \<lparr>reads = Got (reply_head song_left @ take (m - n) (drop n song)) # tail, writes = [], sent = []\<rparr>)"
proof -
  let ?head = "reply_head song_left" and ?part = "take (m - n) (drop n song)"
  let ?net = "\<lparr>reads = Got (?head @ ?part) # tail, writes = [], sent = []\<rparr>"
  have "?head = ''HTTP/1.1 206 Partial Content'' @ crlf @ concat (map header_text ([] @ [(''Content-Length'', show_nat (length song - n))])) @ crlf"
    by (simp add: assms(1) reply_head_def header_text_def)
  moreover have "?head \<noteq> []" by (simp add: reply_head_def)
  then have "[] \<notin> set [?head @ ?part]" "concat [?head @ ?part] = ?head @ ?part" "reads ?net = map Got [?head @ ?part] @ tail" by simp_all
  moreover have "Connect_works \<in> set [Connect_works]" "writes ?net = []" "list_all plain_header []"
    "''HTTP/1.1 206 Partial Content'' \<in> {''HTTP/1.1 200 OK'', ''HTTP/1.1 206 Partial Content''}" by simp_all
  ultimately show ?thesis
    using assms(3-5) reply_head_short [OF assms(2)] unfolding answers_def by blast
qed

lemma flaky_serves: "serves ''ab'' 0 flaky_server"
proof -
  have one: "answers ''ab'' 0 1 (Some [Connect_works], WAITRESS_RET_OK, \<lparr>reads = [Got (reply_head 2 @ ''a''), Read_timeout], writes = [], sent = []\<rparr>)"
    using answers_single [of 2 "''ab''" 0 1 "[Read_timeout]" WAITRESS_RET_OK] by (simp add: breaks_off_def)
  have len: "length ''ab'' = 2" by simp
  have two: "answers ''ab'' 1 (length ''ab'') (Some [Connect_works], WAITRESS_RET_OK, \<lparr>reads = [Got (reply_head 1 @ ''b'')], writes = [], sent = []\<rparr>)"
    unfolding len using answers_single [of 1 "''ab''" 1 2 "[]" WAITRESS_RET_OK] by simp
  have "serves ''ab'' 1 (sconst (\<lambda>_. (Some [Connect_works], WAITRESS_RET_OK, \<lparr>reads = [Got (reply_head 1 @ ''b'')], writes = [], sent = []\<rparr>)))"
    by (subst siterate.code) (rule serves.whole, rule two)
  then show ?thesis unfolding flaky_server_def by (intro serves.broken [OF one]) simp_all
qed

theorem song_survives_disconnects_witness:
  "\<exists>ds q s. aac_run plain_sound ds aac_player = Some q \<and> concat ds = ''ab'' \<and> ''ab'' = s @ buffer q \<and> capture_file q = Some s
    \<and> BarPlayerThread plain_sound 0 0 flaky_server aac_player
      = Some (if aoError q then PLAYER_RET_HARDFAIL else PLAYER_RET_OK, q\<lparr>mode := PLAYER_FINISHED_PLAYBACK\<rparr>)"
proof -
  have p: "aac_player\<lparr>mode := PLAYER_INITIALIZED\<rparr> = aac_player" "fresh_player aac_player" "capture_file aac_player = Some []"
    "player_format aac_player = PIANO_AF_AACPLUS" "waiting 0 aac_player"
    by (simp_all add: aac_player_def fresh_player_def waiting_def quiet_player_def audioPlayer.defs no_player_def)
  have "takes_all (BarPlayerAACCb plain_sound) ''ab'' aac_player"
    unfolding takes_all_def
  proof (intro allI impI)
    fix ds u
    assume "''ab'' = concat ds @ u"
    then have "length (concat ds @ u) = 2" by (metis length_Cons list.size(3) numeral_2_eq_2)
    then show "feed (BarPlayerAACCb plain_sound) ds aac_player \<noteq> None" by (intro waiting_feed [OF p(5)]) simp
  qed
  then obtain ds q t where "BarPlayerThread plain_sound 0 0 flaky_server aac_player
      = Some (if aoError q then PLAYER_RET_HARDFAIL else PLAYER_RET_OK, q\<lparr>mode := PLAYER_FINISHED_PLAYBACK\<rparr>)"
    "aac_run plain_sound ds aac_player = Some q" "concat ds = ''ab''" "''ab'' = t @ buffer q" "capture_file q = Some t"
    using song_survives_disconnects [OF flaky_serves _ p(4), of "[]" plain_sound 0 0] p(1-3) by auto
  then show ?thesis by blast
qed

end
