(* ===== verification/Id3Tags.thy ===== *)
theory Id3Tags
  imports PlayerProofs
begin

text \<open>
  \<open>src/src/id3tags.c\<close>, the tag at the start of a captured file, and capture_open_file of \<open>src/src/player.c\<close>, which writes it.  The library
  libid3tag is outside: the record \<open>id3lib\<close> holds what the code calls of it.  The theorem: a song that is captured ends up in
  its file as the tag followed by the stream.
\<close>

section \<open>Frames\<close>

datatype id3_field_type = ID3_FIELD_TYPE_LATIN1 | ID3_FIELD_TYPE_LANGUAGE | ID3_FIELD_TYPE_STRINGFULL | ID3_FIELD_TYPE_STRINGLIST
  | ID3_FIELD_TYPE_BINARYDATA | ID3_FIELD_TYPE_OTHER

datatype id3_value = Id3_unset | Id3_latin1 string | Id3_language string | Id3_string "nat list" | Id3_strings "nat list list" | Id3_binary "int list"

text \<open>\<open>format_flags\<close>: whether one of the flags that the code clears is set.\<close>

record id3_frame =
  frame_id :: string
  format_flags :: bool
  frame_fields :: "(id3_field_type \<times> id3_value) list"

record id3lib =
  id3_frame_new :: "string \<Rightarrow> id3_frame option"
  id3_field_set :: "id3_value \<Rightarrow> bool"
  id3_utf8_ucs4duplicate :: "string \<Rightarrow> nat list option"
  id3_tag_attachframe :: "id3_frame \<Rightarrow> bool"
  id3_tag_new :: bool
  id3_tag_size :: "nat \<Rightarrow> id3_frame list \<Rightarrow> nat"
  id3_tag_render :: "nat \<Rightarrow> id3_frame list \<Rightarrow> string"

definition TAG_PADDED_SIZE :: nat where
  "TAG_PADDED_SIZE = 1024"

fun find_field_from :: "nat \<Rightarrow> (id3_field_type \<times> id3_value) list \<Rightarrow> id3_field_type \<Rightarrow> nat option" where
  "find_field_from i [] t = None"
| "find_field_from i (f # fs) t = (if fst f = t then Some i else find_field_from (Suc i) fs t)"

definition ID3FindField :: "id3_frame \<Rightarrow> id3_field_type \<Rightarrow> nat option" where
  "ID3FindField frame t = find_field_from 0 (frame_fields frame) t"

definition set_field :: "id3lib \<Rightarrow> id3_field_type \<Rightarrow> (id3_value \<Rightarrow> id3_value) \<Rightarrow> id3_frame \<Rightarrow> id3_frame option" where
  "set_field lib t v frame = do {
    i \<leftarrow> ID3FindField frame t;
    let new = v (snd (frame_fields frame ! i));
    (if id3_field_set lib new then Some (frame\<lparr>frame_fields := (frame_fields frame)[i := (t, new)]\<rparr>) else None)
  }"

definition fresh_frame :: "id3lib \<Rightarrow> string \<Rightarrow> id3_frame option" where
  "fresh_frame lib t = map_option (\<lambda>f. f\<lparr>format_flags := False\<rparr>) (id3_frame_new lib t)"

text \<open>A frame that could be built and attached is in the tag, and the answer is 0; otherwise it is -1 and the frame is deleted.\<close>

definition attach :: "id3lib \<Rightarrow> id3_frame option \<Rightarrow> id3_frame list \<Rightarrow> int \<times> id3_frame list" where
  "attach lib frame tags = (case frame of
      Some f \<Rightarrow> if id3_tag_attachframe lib f then (0, tags @ [f]) else (- 1, tags)
    | None \<Rightarrow> (- 1, tags))"

definition added_string :: "nat list \<Rightarrow> id3_value \<Rightarrow> id3_value" where
  "added_string u v = (case v of Id3_strings us \<Rightarrow> Id3_strings (us @ [u]) | _ \<Rightarrow> Id3_strings [u])"

definition ID3AddTextFrame :: "id3lib \<Rightarrow> string \<Rightarrow> string \<Rightarrow> id3_frame list \<Rightarrow> int \<times> id3_frame list" where
  "ID3AddTextFrame lib t v tags = attach lib (do {
    frame \<leftarrow> fresh_frame lib t;
    _ \<leftarrow> ID3FindField frame ID3_FIELD_TYPE_STRINGLIST;
    u \<leftarrow> id3_utf8_ucs4duplicate lib v;
    set_field lib ID3_FIELD_TYPE_STRINGLIST (added_string u) frame
  }) tags"

definition ID3AddCommentFrame :: "id3lib \<Rightarrow> string \<Rightarrow> id3_frame list \<Rightarrow> int \<times> id3_frame list" where
  "ID3AddCommentFrame lib v tags = attach lib (do {
    frame \<leftarrow> fresh_frame lib ''COMM'';
    frame \<leftarrow> set_field lib ID3_FIELD_TYPE_LANGUAGE (\<lambda>_. Id3_language ''ENG'') frame;
    _ \<leftarrow> ID3FindField frame ID3_FIELD_TYPE_STRINGFULL;
    u \<leftarrow> id3_utf8_ucs4duplicate lib v;
    set_field lib ID3_FIELD_TYPE_STRINGFULL (\<lambda>_. Id3_string u) frame
  }) tags"

text \<open>
  The gain in units of 1/512 dB, towards zero; \<open>None\<close> when it does not fit into 16 bits, where the conversion in C is undefined.
\<close>

definition gain_units :: "rat \<Rightarrow> int option" where
  "gain_units v = (let n = (if v \<ge> 0 then floor (v * 512) else - floor (- v * 512)) in
    if SHRT_MIN \<le> n \<and> n \<le> SHRT_MAX then Some n else None)"

definition gain_data :: "int \<Rightarrow> int list" where
  "gain_data n = [1, n mod 65536 div 256, n mod 256, 0, 0]"

definition ID3AddGainFrame :: "id3lib \<Rightarrow> int \<Rightarrow> id3_frame list \<Rightarrow> int \<times> id3_frame list" where
  "ID3AddGainFrame lib units tags = attach lib (do {
    frame \<leftarrow> fresh_frame lib ''RVA2'';
    frame \<leftarrow> set_field lib ID3_FIELD_TYPE_LATIN1 (\<lambda>_. Id3_latin1 ''PandoraRG'') frame;
    set_field lib ID3_FIELD_TYPE_BINARYDATA (\<lambda>_. Id3_binary (gain_data units)) frame
  }) tags"

text \<open>
  All frames are tried, and one that fails makes the whole fail.  \<open>written\<close> is the number of bytes that fwrite takes.  \<open>None\<close>: the
  song has no album (a null pointer is read), or its gain does not fit.
\<close>

definition song_frames :: "id3lib \<Rightarrow> song \<Rightarrow> string option \<Rightarrow> (int \<times> id3_frame list) option" where
  "song_frames lib song station_name = do {
    alb \<leftarrow> album song;
    units \<leftarrow> gain_units (fileGain song);
    let (s1, tags) = ID3AddTextFrame lib ''TIT2'' (title song) [];
    let (s2, tags) = ID3AddTextFrame lib ''TPE1'' (artist song) tags;
    let (s3, tags) = ID3AddTextFrame lib ''TALB'' alb tags;
    let (s4, tags) = (case station_name of Some n \<Rightarrow> ID3AddCommentFrame lib n tags | None \<Rightarrow> (0, tags));
    let (s5, tags) = ID3AddGainFrame lib units tags;
    Some (s1 + s2 + s3 + s4 + s5, tags)
  }"

definition ID3WriteTags :: "id3lib \<Rightarrow> nat \<Rightarrow> song \<Rightarrow> string option \<Rightarrow> player_thread \<Rightarrow> (int \<times> player_thread) option" where
  "ID3WriteTags lib written song station_name p =
    (if \<not> id3_tag_new lib then Some (1, p)
     else do {
       (status, tags) \<leftarrow> song_frames lib song station_name;
       (if status \<noteq> 0 then Some (1, p)
        else (let tag = id3_tag_render lib TAG_PADDED_SIZE tags in
          if id3_tag_size lib TAG_PADDED_SIZE tags \<noteq> length tag then Some (1, p)
          else (let nc = min written (length tag);
               p = p\<lparr>capture_file := map_option (\<lambda>s. s @ take nc tag) (capture_file p)\<rparr>
            in Some (if nc \<noteq> length tag then 1 else 0, p))))
     })"

section \<open>Opening the capture file\<close>

text \<open>The fields of the settings and of the player that belong to the capture, and the name of the open file.\<close>

record capture =
  cap_path :: "string option"
  cap_fname :: "string option"
  cap_opened :: string

definition capture_reset :: "nat \<Rightarrow> capture \<Rightarrow> player_thread \<Rightarrow> fs \<Rightarrow> capture \<times> player_thread \<times> fs" where
  "capture_reset seen c p files =
    (let (p, files) = capture_close_file seen (cap_opened c) (cap_fname c) p files
     in (c\<lparr>cap_path := None, cap_fname := None\<rparr>, p, files))"

definition capture_cleanup :: "nat \<Rightarrow> capture \<Rightarrow> player_thread \<Rightarrow> fs \<Rightarrow> capture \<times> player_thread \<times> fs" where
  "capture_cleanup seen c p files = (if capture_file p \<noteq> None
    then (c\<lparr>cap_fname := None\<rparr>, capture_close_file seen (cap_opened c) (cap_fname c) p files) else (c, p, files))"

text \<open>\<open>opens\<close>: whether fopen succeeds; it empties the file.\<close>

definition capture_open_file :: "id3lib \<Rightarrow> (string \<Rightarrow> bool) \<Rightarrow> nat \<Rightarrow> nat \<Rightarrow> song \<Rightarrow> string option \<Rightarrow> capture \<Rightarrow> player_thread \<Rightarrow> fs \<Rightarrow>
    (capture \<times> player_thread \<times> fs) option" where
  "capture_open_file lib opens written seen song station_name c p files = do {
    let (c, p, files) = capture_cleanup seen c p files;
    path \<leftarrow> cap_path c;
    fname \<leftarrow> capture_name (player_format p) path song;
    (if \<not> opens fname then Some (capture_reset seen c p files)
     else do {
       let c = c\<lparr>cap_opened := fname\<rparr>;
       (failed, p) \<leftarrow> ID3WriteTags lib written song station_name (p\<lparr>capture_file := Some []\<rparr>);
       let files = files(fname := Some []);
       Some (if failed \<noteq> 0 then capture_reset seen c p files else (c\<lparr>cap_fname := Some fname\<rparr>, p, files))
     })
  }"

section \<open>What a captured file holds\<close>

lemma attach_cases:
  assumes "attach lib frame tags = (r, tags')"
  shows "r \<le> 0" "r = 0 \<Longrightarrow> \<exists>f. frame = Some f \<and> tags' = tags @ [f]"
  using assms by (auto simp: attach_def split: option.splits if_splits)

lemma find_field_from: "find_field_from i fs t = Some j \<Longrightarrow> i \<le> j \<and> j - i < length fs \<and> fst (fs ! (j - i)) = t"
  by (induction i fs t rule: find_field_from.induct) (auto simp: nth_Cons' Suc_diff_Suc split: if_splits)

text \<open>The fields of a frame that have been given a value.\<close>

definition values_of :: "id3_frame \<Rightarrow> (id3_field_type \<times> id3_value) set" where
  "values_of f = set (filter (\<lambda>x. snd x \<noteq> Id3_unset) (frame_fields f))"

definition unset_type :: "id3_field_type \<Rightarrow> id3_frame \<Rightarrow> bool" where
  "unset_type t f = list_all (\<lambda>x. fst x = t \<longrightarrow> snd x = Id3_unset) (frame_fields f)"

lemma set_field_values:
  assumes "set_field lib t v frame = Some f" and "unset_type t frame" and "v Id3_unset \<noteq> Id3_unset"
  shows "frame_id f = frame_id frame" "values_of f = insert (t, v Id3_unset) (values_of frame)"
    "unset_type t' frame \<Longrightarrow> t' \<noteq> t \<Longrightarrow> unset_type t' f"
proof -
  let ?xs = "frame_fields frame"
  obtain i where find: "ID3FindField frame t = Some i" and f: "f = frame\<lparr>frame_fields := ?xs[i := (t, v (snd (?xs ! i)))]\<rparr>"
    using assms(1) by (auto simp: set_field_def bind_eq_Some_conv Let_def split: if_splits)
  have i: "i < length ?xs" "fst (?xs ! i) = t" using find_field_from [of 0 ?xs t i] find by (simp_all add: ID3FindField_def)
  then have old: "snd (?xs ! i) = Id3_unset" using assms(2) by (auto simp: unset_type_def list_all_length)
  have new: "frame_fields f = take i ?xs @ (t, v Id3_unset) # drop (Suc i) ?xs" using i old f by (simp add: upd_conv_take_nth_drop)
  have whole: "?xs = take i ?xs @ ?xs ! i # drop (Suc i) ?xs" using i by (simp add: id_take_nth_drop)
  have "values_of frame = set (filter (\<lambda>x. snd x \<noteq> Id3_unset) (take i ?xs @ ?xs ! i # drop (Suc i) ?xs))"
    unfolding values_of_def using whole by simp
  then show "values_of f = insert (t, v Id3_unset) (values_of frame)"
    using assms(3) old by (simp add: values_of_def new)
  show "frame_id f = frame_id frame" by (simp add: f)
  show "unset_type t' f" if "unset_type t' frame" "t' \<noteq> t"
  proof -
    have "list_all (\<lambda>x. fst x = t' \<longrightarrow> snd x = Id3_unset) (take i ?xs @ ?xs ! i # drop (Suc i) ?xs)"
      using that(1) whole by (simp add: unset_type_def)
    then show ?thesis using that(2) unfolding unset_type_def new by simp
  qed
qed

text \<open>What the code relies on of the library: a new frame has the id asked for, and none of its fields has a value yet.\<close>

definition new_frames :: "id3lib \<Rightarrow> bool" where
  "new_frames lib = (\<forall>t f. id3_frame_new lib t = Some f \<longrightarrow> frame_id f = t \<and> (\<forall>x \<in> set (frame_fields f). snd x = Id3_unset))"

lemma fresh_frame_unset:
  assumes "new_frames lib" "fresh_frame lib t = Some f"
  shows "frame_id f = t" "values_of f = {}" "unset_type t' f"
proof -
  obtain z where "id3_frame_new lib t = Some z" and f: "f = z\<lparr>format_flags := False\<rparr>"
    using assms(2) by (auto simp: fresh_frame_def)
  then have z: "frame_id z = t" "\<forall>x \<in> set (frame_fields z). snd x = Id3_unset"
    using assms(1) by (simp_all add: new_frames_def)
  show "frame_id f = t" "values_of f = {}" "unset_type t' f"
    using z by (simp_all add: f values_of_def unset_type_def list_all_iff filter_empty_conv)
qed

definition filled :: "id3_frame \<Rightarrow> string \<times> (id3_field_type \<times> id3_value) set" where
  "filled f = (frame_id f, values_of f)"

lemma text_frame:
  assumes "ID3AddTextFrame lib t v tags = (r, tags')"
  shows "r \<le> 0" "new_frames lib \<Longrightarrow> r = 0 \<Longrightarrow> \<exists>f u. tags' = tags @ [f] \<and> id3_utf8_ucs4duplicate lib v = Some u
    \<and> filled f = (t, {(ID3_FIELD_TYPE_STRINGLIST, Id3_strings [u])})"
proof -
  note frame = attach_cases [OF assms [unfolded ID3AddTextFrame_def]]
  show "r \<le> 0" by (rule frame(1))
  assume lib: "new_frames lib" and "r = 0"
  then obtain f new u where f: "tags' = tags @ [f]" "fresh_frame lib t = Some new" "id3_utf8_ucs4duplicate lib v = Some u"
    "set_field lib ID3_FIELD_TYPE_STRINGLIST (added_string u) new = Some f"
    using frame(2) by (auto simp: bind_eq_Some_conv)
  note new = fresh_frame_unset [OF lib f(2)]
  have "filled f = (t, {(ID3_FIELD_TYPE_STRINGLIST, Id3_strings [u])})"
    using set_field_values(1,2) [OF f(4) new(3)] new(1,2) by (simp add: filled_def added_string_def)
  then show "\<exists>f u. tags' = tags @ [f] \<and> id3_utf8_ucs4duplicate lib v = Some u
      \<and> filled f = (t, {(ID3_FIELD_TYPE_STRINGLIST, Id3_strings [u])})"
    using f(1,3) by blast
qed

lemma comment_frame:
  assumes "ID3AddCommentFrame lib v tags = (r, tags')"
  shows "r \<le> 0" "new_frames lib \<Longrightarrow> r = 0 \<Longrightarrow> \<exists>f u. tags' = tags @ [f] \<and> id3_utf8_ucs4duplicate lib v = Some u
    \<and> filled f = (''COMM'', {(ID3_FIELD_TYPE_LANGUAGE, Id3_language ''ENG''), (ID3_FIELD_TYPE_STRINGFULL, Id3_string u)})"
proof -
  note frame = attach_cases [OF assms [unfolded ID3AddCommentFrame_def]]
  show "r \<le> 0" by (rule frame(1))
  assume lib: "new_frames lib" and "r = 0"
  then obtain f new g u where f: "tags' = tags @ [f]" "fresh_frame lib ''COMM'' = Some new"
    "set_field lib ID3_FIELD_TYPE_LANGUAGE (\<lambda>_. Id3_language ''ENG'') new = Some g" "id3_utf8_ucs4duplicate lib v = Some u"
    "set_field lib ID3_FIELD_TYPE_STRINGFULL (\<lambda>_. Id3_string u) g = Some f"
    using frame(2) by (auto simp: bind_eq_Some_conv)
  note new = fresh_frame_unset [OF lib f(2)]
  note g = set_field_values [OF f(3) new(3)]
  have "filled f = (''COMM'', {(ID3_FIELD_TYPE_LANGUAGE, Id3_language ''ENG''), (ID3_FIELD_TYPE_STRINGFULL, Id3_string u)})"
    using set_field_values(1,2) [OF f(5) g(3) [OF _ new(3)]] g(1,2) new(1,2) by (simp add: filled_def insert_commute)
  then show "\<exists>f u. tags' = tags @ [f] \<and> id3_utf8_ucs4duplicate lib v = Some u
      \<and> filled f = (''COMM'', {(ID3_FIELD_TYPE_LANGUAGE, Id3_language ''ENG''), (ID3_FIELD_TYPE_STRINGFULL, Id3_string u)})"
    using f(1,4) by blast
qed

lemma gain_frame:
  assumes "ID3AddGainFrame lib n tags = (r, tags')"
  shows "r \<le> 0" "new_frames lib \<Longrightarrow> r = 0 \<Longrightarrow> \<exists>f. tags' = tags @ [f]
    \<and> filled f = (''RVA2'', {(ID3_FIELD_TYPE_LATIN1, Id3_latin1 ''PandoraRG''), (ID3_FIELD_TYPE_BINARYDATA, Id3_binary (gain_data n))})"
proof -
  note frame = attach_cases [OF assms [unfolded ID3AddGainFrame_def]]
  show "r \<le> 0" by (rule frame(1))
  assume lib: "new_frames lib" and "r = 0"
  then obtain f new g where f: "tags' = tags @ [f]" "fresh_frame lib ''RVA2'' = Some new"
    "set_field lib ID3_FIELD_TYPE_LATIN1 (\<lambda>_. Id3_latin1 ''PandoraRG'') new = Some g"
    "set_field lib ID3_FIELD_TYPE_BINARYDATA (\<lambda>_. Id3_binary (gain_data n)) g = Some f"
    using frame(2) by (auto simp: bind_eq_Some_conv)
  note new = fresh_frame_unset [OF lib f(2)]
  note g = set_field_values [OF f(3) new(3)]
  have "filled f = (''RVA2'', {(ID3_FIELD_TYPE_LATIN1, Id3_latin1 ''PandoraRG''), (ID3_FIELD_TYPE_BINARYDATA, Id3_binary (gain_data n))})"
    using set_field_values(1,2) [OF f(4) g(3) [OF _ new(3)]] g(1,2) new(1,2) by (simp add: filled_def insert_commute)
  then show "\<exists>f. tags' = tags @ [f]
      \<and> filled f = (''RVA2'', {(ID3_FIELD_TYPE_LATIN1, Id3_latin1 ''PandoraRG''), (ID3_FIELD_TYPE_BINARYDATA, Id3_binary (gain_data n))})"
    using f(1) by blast
qed

text \<open>
  The gain in ID3's terms: bytes that make a signed number of 16 bits, high byte first, which is 512 times the gain without what is behind
  the point.
\<close>

definition signed_16 :: "int \<Rightarrow> int \<Rightarrow> int" where
  "signed_16 hi lo = hi * 256 + lo - (if hi \<ge> 128 then 65536 else 0)"

definition gain_bytes :: "rat \<Rightarrow> int \<Rightarrow> int \<Rightarrow> bool" where
  "gain_bytes g hi lo = (0 \<le> hi \<and> hi < 256 \<and> 0 \<le> lo \<and> lo < 256 \<and> 0 \<le> of_int (signed_16 hi lo) * g
    \<and> \<bar>of_int (signed_16 hi lo)\<bar> \<le> \<bar>g * 512\<bar> \<and> \<bar>g * 512\<bar> < \<bar>of_int (signed_16 hi lo)\<bar> + 1)"

lemma signed_16_split:
  assumes "SHRT_MIN \<le> n" "n \<le> SHRT_MAX"
  shows "signed_16 (n mod 65536 div 256) (n mod 256) = n"
proof -
  have m: "n mod 65536 = (if 0 \<le> n then n else n + 65536)"
    using assms mod_pos_pos_trivial [of "n + 65536" 65536] by (simp add: SHRT_MIN_def SHRT_MAX_def)
  have "n mod 65536 mod 256 = n mod 256" by (rule mod_mod_cancel) simp
  then have "n mod 65536 div 256 * 256 + n mod 256 = n mod 65536" by (metis div_mult_mod_eq)
  moreover have "n mod 65536 div 256 \<ge> 128 \<longleftrightarrow> n mod 65536 \<ge> 32768"
    by (rule iffI; linarith)
  ultimately show ?thesis using m assms by (auto simp: signed_16_def SHRT_MIN_def SHRT_MAX_def)
qed

lemma gain_units_bytes:
  assumes "gain_units g = Some n"
  shows "gain_bytes g (n mod 65536 div 256) (n mod 256)"
proof -
  have n: "n = (if g \<ge> 0 then floor (g * 512) else - floor (- g * 512))" and s: "SHRT_MIN \<le> n" "n \<le> SHRT_MAX"
    using assms by (auto simp: gain_units_def Let_def split: if_splits)
  have "0 \<le> of_int n * g \<and> \<bar>of_int n\<bar> \<le> \<bar>g * 512\<bar> \<and> \<bar>g * 512\<bar> < \<bar>of_int n\<bar> + 1"
  proof (cases "g \<ge> 0")
    case True
    then have "0 \<le> n" by (simp add: n)
    moreover have "of_int n \<le> g * 512" "g * 512 < of_int n + 1" using n True by simp_all linarith+
    ultimately show ?thesis using True by simp
  next
    case False
    define k where "k = floor (- g * 512)"
    have k: "0 \<le> k" "of_int k \<le> - g * 512" "- g * 512 < of_int k + 1" using False by (auto simp: k_def) linarith+
    have "n = - k" using False n by (simp add: k_def)
    then show ?thesis using k False by (simp add: mult_nonneg_nonpos abs_mult)
  qed
  moreover have "0 \<le> n mod 65536" "n mod 65536 < 256 * 256" by simp_all
  then have "n mod 65536 div 256 < 256" "0 \<le> n mod 65536 div 256" by (simp_all only: div_less_iff_less_mult pos_imp_zdiv_nonneg_iff zero_less_numeral)
  ultimately show ?thesis unfolding gain_bytes_def signed_16_split [OF s] by simp
qed

text \<open>The frames of a song, with all their values.\<close>

definition text_of :: "id3lib \<Rightarrow> string \<Rightarrow> string \<Rightarrow> string \<times> (id3_field_type \<times> id3_value) set \<Rightarrow> bool" where
  "text_of lib t v fr = (\<exists>u. id3_utf8_ucs4duplicate lib v = Some u \<and> fr = (t, {(ID3_FIELD_TYPE_STRINGLIST, Id3_strings [u])}))"

definition comment_of :: "id3lib \<Rightarrow> string option \<Rightarrow> (string \<times> (id3_field_type \<times> id3_value) set) list \<Rightarrow> bool" where
  "comment_of lib station_name frs = (case station_name of None \<Rightarrow> frs = []
    | Some n \<Rightarrow> \<exists>u. id3_utf8_ucs4duplicate lib n = Some u
        \<and> frs = [(''COMM'', {(ID3_FIELD_TYPE_LANGUAGE, Id3_language ''ENG''), (ID3_FIELD_TYPE_STRINGFULL, Id3_string u)})])"

definition gain_of :: "rat \<Rightarrow> string \<times> (id3_field_type \<times> id3_value) set \<Rightarrow> bool" where
  "gain_of g fr = (\<exists>hi lo. gain_bytes g hi lo \<and> fr = (''RVA2'',
    {(ID3_FIELD_TYPE_LATIN1, Id3_latin1 ''PandoraRG''), (ID3_FIELD_TYPE_BINARYDATA, Id3_binary [1, hi, lo, 0, 0])}))"

definition song_tag :: "id3lib \<Rightarrow> song \<Rightarrow> string option \<Rightarrow> id3_frame list \<Rightarrow> bool" where
  "song_tag lib song station_name tags = (\<exists>alb t a l c g. album song = Some alb \<and> map filled tags = [t, a, l] @ c @ [g]
    \<and> text_of lib ''TIT2'' (title song) t \<and> text_of lib ''TPE1'' (artist song) a \<and> text_of lib ''TALB'' alb l
    \<and> comment_of lib station_name c \<and> gain_of (fileGain song) g)"

lemma song_frames_complete:
  assumes "song_frames lib song station_name = Some (0, tags)" "new_frames lib"
  shows "song_tag lib song station_name tags"
proof -
  obtain alb units where song: "album song = Some alb" "gain_units (fileGain song) = Some units"
    using assms(1) by (auto simp: song_frames_def bind_eq_Some_conv)
  obtain s1 t1 where 1: "ID3AddTextFrame lib ''TIT2'' (title song) [] = (s1, t1)" by fastforce
  obtain s2 t2 where 2: "ID3AddTextFrame lib ''TPE1'' (artist song) t1 = (s2, t2)" by fastforce
  obtain s3 t3 where 3: "ID3AddTextFrame lib ''TALB'' alb t2 = (s3, t3)" by fastforce
  obtain s4 t4 where 4: "(case station_name of Some n \<Rightarrow> ID3AddCommentFrame lib n t3 | None \<Rightarrow> (0, t3)) = (s4, t4)" by fastforce
  obtain s5 t5 where 5: "ID3AddGainFrame lib units t4 = (s5, t5)" by fastforce
  have "s1 + s2 + s3 + s4 + s5 = 0" "tags = t5"
    using assms(1) by (simp_all add: song_frames_def song 1 2 3 4 5)
  moreover have "s1 \<le> 0" "s2 \<le> 0" "s3 \<le> 0" "s5 \<le> 0"
    using text_frame(1) [OF 1] text_frame(1) [OF 2] text_frame(1) [OF 3] gain_frame(1) [OF 5] by simp_all
  moreover have "s4 \<le> 0" using 4 comment_frame(1) by (cases station_name) auto
  ultimately have zero: "s1 = 0" "s2 = 0" "s3 = 0" "s4 = 0" "s5 = 0" and tags: "tags = t5" by linarith+
  obtain f1 where f1: "t1 = [f1]" "text_of lib ''TIT2'' (title song) (filled f1)"
    using text_frame(2) [OF 1 assms(2) zero(1)] by (auto simp: text_of_def)
  obtain f2 where f2: "t2 = t1 @ [f2]" "text_of lib ''TPE1'' (artist song) (filled f2)"
    using text_frame(2) [OF 2 assms(2) zero(2)] by (auto simp: text_of_def)
  obtain f3 where f3: "t3 = t2 @ [f3]" "text_of lib ''TALB'' alb (filled f3)"
    using text_frame(2) [OF 3 assms(2) zero(3)] by (auto simp: text_of_def)
  obtain f5 where f5: "t5 = t4 @ [f5]" "gain_of (fileGain song) (filled f5)"
    using gain_frame(2) [OF 5 assms(2) zero(5)] gain_units_bytes [OF song(2)] by (auto simp: gain_of_def gain_data_def)
  obtain fs where fs: "t4 = t3 @ fs" "comment_of lib station_name (map filled fs)"
  proof (cases station_name)
    case None
    then show ?thesis using 4 that [of "[]"] by (simp add: comment_of_def)
  next
    case (Some n)
    then have "ID3AddCommentFrame lib n t3 = (s4, t4)" using 4 by simp
    from comment_frame(2) [OF this assms(2) zero(4)] obtain f4 where "t4 = t3 @ [f4]" "comment_of lib station_name [filled f4]"
      using Some by (auto simp: comment_of_def)
    then show ?thesis using that [of "[f4]"] by simp
  qed
  have "map filled tags = [filled f1, filled f2, filled f3] @ map filled fs @ [filled f5]"
    by (simp add: tags f1(1) f2(1) f3(1) f5(1) fs(1))
  then show ?thesis unfolding song_tag_def using song(1) f1(2) f2(2) f3(2) f5(2) fs(2) by blast
qed

lemma write_tags:
  assumes "ID3WriteTags lib written song station_name p = Some (0, q)" "capture_file p = Some []" "new_frames lib"
  shows "\<exists>tags. song_tag lib song station_name tags \<and> q = p\<lparr>capture_file := Some (id3_tag_render lib TAG_PADDED_SIZE tags)\<rparr>"
proof -
  obtain tags where frames: "song_frames lib song station_name = Some (0, tags)"
    and q: "q = p\<lparr>capture_file := Some (id3_tag_render lib TAG_PADDED_SIZE tags)\<rparr>"
    using assms(1,2) by (auto simp: ID3WriteTags_def bind_eq_Some_conv Let_def split: if_splits)
  show ?thesis using song_frames_complete [OF frames assms(3)] q by blast
qed

lemma opened:
  assumes "capture_open_file lib opens written seen song station_name c p files = Some (c', p', files')" "cap_fname c' = Some fname"
    "new_frames lib"
  shows "cap_opened c' = fname" "\<exists>tags. song_tag lib song station_name tags
    \<and> p' = p\<lparr>capture_file := Some (id3_tag_render lib TAG_PADDED_SIZE tags)\<rparr>"
    "\<exists>path. cap_path c = Some path \<and> capture_name (player_format p) path song = Some fname"
proof -
  obtain c0 p0 files0 where start: "capture_cleanup seen c p files = (c0, p0, files0)" by (rule prod_cases3)
  have p0: "p0 = p\<lparr>capture_file := None\<rparr>" "cap_path c0 = cap_path c"
    using start by (auto simp: capture_cleanup_def capture_close_file_def split: if_splits option.splits)
  obtain path where path: "cap_path c = Some path" and rest: "capture_name (player_format p) path song \<noteq> None"
    using assms(1) by (auto simp: capture_open_file_def start p0 bind_eq_Some_conv)
  then obtain nm where nm: "capture_name (player_format p) path song = Some nm" by blast
  have "opens nm" 
    using assms(1,2) by (auto simp: capture_open_file_def start p0 path nm capture_reset_def split: if_splits prod.splits)
  then obtain q where w: "ID3WriteTags lib written song station_name (p0\<lparr>capture_file := Some []\<rparr>) = Some (0, q)"
    and out: "c' = c0\<lparr>cap_opened := nm, cap_fname := Some nm\<rparr>" "p' = q"
    using assms(1,2) by (auto simp: capture_open_file_def start p0 path nm capture_reset_def bind_eq_Some_conv
        Let_def split: if_splits prod.splits)
  show "cap_opened c' = fname" "\<exists>path. cap_path c = Some path \<and> capture_name (player_format p) path song = Some fname"
    using out assms(2) path nm by simp_all
  show "\<exists>tags. song_tag lib song station_name tags \<and> p' = p\<lparr>capture_file := Some (id3_tag_render lib TAG_PADDED_SIZE tags)\<rparr>"
    using write_tags [OF w _ assms(3)] out by (simp add: p0)
qed

text \<open>
  C6: A song in the AAC format that is captured ends up in its file complete: when the file could be opened and tagged, then after the song has been received in
  whatever blocks and the file is closed (not being seen as empty), the file holds the rendered tag followed by the stream up to the bytes that the
  player has not read yet.  The frames of the tag are, with all the values their fields have been given: TIT2 with the title, TPE1 with
  the artist, TALB with the album, COMM with the language ENG and the name of the station if there is one, and RVA2 with the name PandoraRG
  and five bytes, of which the second and third are the gain: a signed number, 512 times the gain without what is behind the point.  The
  library is trusted to make new frames with the id asked for and no values, and to render them.
\<close>

theorem captured_song_complete:
  assumes "capture_open_file lib opens written seen song station_name c p files = Some (c1, p1, files1)" "cap_fname c1 = Some fname"
    and "new_frames lib" "fresh_player p" "aac_run au ds p1 = Some q" "0 < seen1"
  shows "\<exists>s tags. concat ds = s @ buffer q \<and> song_tag lib song station_name tags
    \<and> snd (capture_close_file seen1 (cap_opened c1) (cap_fname c1) q files1) fname = Some (id3_tag_render lib TAG_PADDED_SIZE tags @ s)"
proof -
  obtain tags where tags: "song_tag lib song station_name tags"
    and p1: "p1 = p\<lparr>capture_file := Some (id3_tag_render lib TAG_PADDED_SIZE tags)\<rparr>"
    using opened(2) [OF assms(1-3)] by blast
  have "aac_between [] p1" using assms(4) by (simp add: p1 fresh_player_def aac_between_def early_stage)
  from aac_run_between [OF assms(5) this] obtain s where "s @ buffer q = concat ds"
    "capture_file q = Some (id3_tag_render lib TAG_PADDED_SIZE tags @ s)"
    using assms(4) by (auto simp: p1 fresh_player_def)
  moreover have "cap_opened c1 = fname" by (rule opened(1) [OF assms(1-3)])
  ultimately show ?thesis using tags assms(2,6) by (intro exI [of _ s] exI [of _ tags]) (simp add: capture_close_file_def)
qed

definition plain_id3 :: id3lib where
  "plain_id3 = \<lparr>id3_frame_new = (\<lambda>t. Some \<lparr>frame_id = t, format_flags = True, frame_fields = [(ID3_FIELD_TYPE_OTHER, Id3_unset),
      (ID3_FIELD_TYPE_LATIN1, Id3_unset), (ID3_FIELD_TYPE_LANGUAGE, Id3_unset), (ID3_FIELD_TYPE_STRINGFULL, Id3_unset),
      (ID3_FIELD_TYPE_STRINGLIST, Id3_unset), (ID3_FIELD_TYPE_BINARYDATA, Id3_unset)]\<rparr>),
    id3_field_set = (\<lambda>_. True), id3_utf8_ucs4duplicate = (\<lambda>s. Some (map of_char s)), id3_tag_attachframe = (\<lambda>_. True), id3_tag_new = True,
    id3_tag_size = (\<lambda>_ _. 3), id3_tag_render = (\<lambda>_ _. ''ID3'')\<rparr>"

definition music_capture :: capture where
  "music_capture = \<lparr>cap_path = Some ''/m'', cap_fname = None, cap_opened = ''''\<rparr>"

lemma music_opened:
  "capture_open_file plain_id3 (\<lambda>_. True) 1024 0 (evil_song\<lparr>album := Some ''A''\<rparr>) (Some ''S'') music_capture (quiet_player\<lparr>capture_file := None\<rparr>) Map.empty
    = Some (music_capture\<lparr>cap_opened := ''/m/AC_DC - .._x.mp3'', cap_fname := Some ''/m/AC_DC - .._x.mp3''\<rparr>,
        quiet_player\<lparr>capture_file := Some ''ID3''\<rparr>, [''/m/AC_DC - .._x.mp3'' \<mapsto> []])"
  by (simp add: capture_open_file_def capture_cleanup_def music_capture_def capture_name_def capture_normalize_strcat_def capture_char_def
      evil_song_def quiet_player_def audioPlayer.defs no_player_def ID3WriteTags_def plain_id3_def song_frames_def gain_units_def
      SHRT_MIN_def SHRT_MAX_def ID3AddTextFrame_def ID3AddCommentFrame_def ID3AddGainFrame_def attach_def fresh_frame_def set_field_def
      ID3FindField_def Let_def)

lemma music_run:
  "\<exists>q. aac_run plain_sound tiny_song (quiet_player\<lparr>capture_file := Some ''ID3''\<rparr>) = Some q \<and> buffer q = []"
  by (simp add: tiny_song_def config_tag_def)
    (simp add: quiet_player_def audioPlayer.defs no_player_def config_tag_def plain_sound_def aac_steps play_frames.simps)

theorem captured_song_complete_witness:
  "\<exists>q files. aac_run plain_sound tiny_song (quiet_player\<lparr>capture_file := Some ''ID3''\<rparr>) = Some q
    \<and> capture_close_file 44 ''/m/AC_DC - .._x.mp3'' (Some ''/m/AC_DC - .._x.mp3'') q [''/m/AC_DC - .._x.mp3'' \<mapsto> []] = (q\<lparr>capture_file := None\<rparr>, files)
    \<and> files ''/m/AC_DC - .._x.mp3'' = Some (''ID3'' @ concat tiny_song)"
proof -
  obtain q where q: "aac_run plain_sound tiny_song (quiet_player\<lparr>capture_file := Some ''ID3''\<rparr>) = Some q" "buffer q = []"
    using music_run by blast
  have "new_frames plain_id3" "fresh_player (quiet_player\<lparr>capture_file := None\<rparr>)" "(0 :: nat) < 44"
    by (auto simp: new_frames_def plain_id3_def fresh_player_def quiet_player_def audioPlayer.defs no_player_def)
  from captured_song_complete [OF music_opened _ this(1,2) q(1) this(3)] q(2)
  have "snd (capture_close_file 44 ''/m/AC_DC - .._x.mp3'' (Some ''/m/AC_DC - .._x.mp3'') q [''/m/AC_DC - .._x.mp3'' \<mapsto> []]) ''/m/AC_DC - .._x.mp3''
    = Some (''ID3'' @ concat tiny_song)"
    by (auto simp: plain_id3_def)
  moreover have "fst (capture_close_file 44 n (Some n) q fs) = q\<lparr>capture_file := None\<rparr>" for n fs
    by (cases "capture_file q") (simp_all add: capture_close_file_def)
  ultimately show ?thesis using q(1) by (intro exI [of _ q]) (metis prod.collapse)
qed

text \<open>When the tag cannot be written, capturing is off and the empty file stays.\<close>

lemma failed_tag_leaves_file:
  assumes "capture_file p = None" "cap_path c = Some path" "capture_name (player_format p) path song = Some fname" "opens fname" "cap_fname c = None"
    and "\<not> id3_tag_new lib"
  shows "\<exists>c1 p1 files1. capture_open_file lib opens written seen song station_name c p files = Some (c1, p1, files1)
    \<and> cap_path c1 = None \<and> capture_file p1 = None \<and> files1 fname = Some []"
  using assms by (simp add: capture_open_file_def capture_cleanup_def ID3WriteTags_def capture_reset_def capture_close_file_def Let_def)

end
