(* ===== verification/CommandProofs.thy ===== *)
theory CommandProofs
  imports Admin
begin

text \<open>
  What holds of the commands as a whole: who may run them, what a command that is not understood does, and the
  commands that change the volume and the state of playback.
\<close>

section \<open>Rights\<close>

definition codes_of :: "(command \<times> string) list \<Rightarrow> command list" where
  "codes_of t = map fst t"

text \<open>
  The rights a command needs.  They follow the table that a command stands in, with the exceptions that the comments of the code name: lists
  of stations and of the mix are for every listener, station details and searches are for the owner, and the two lists of users may be
  seen by every listener while user actions are broadcast.  The two commands of the table for users with influence are for every
  listener too; the table is only for the help.
\<close>

definition listener_lists :: "command list" where
  "listener_lists = [STATIONLIST, QUICKMIXINCLUDED, QUICKMIXEXCLUDED]"

definition owner_queries :: "command list" where
  "owner_queries = [STATIONINFO, GETSUGGESTIONS]"

definition may_run :: "appstate \<Rightarrow> user option \<Rightarrow> command \<Rightarrow> bool" where
  "may_run app u c \<longleftrightarrow> c \<in> set (codes_of loginstatements) \<or>
    (let rank = have_rank (users app) u; priv = have_privilege (users app) u; shared = broadcast_user_actions (settings app)
     in rank RANK_LISTENER
      \<and> (c \<in> set (codes_of ownerstatements @ owner_queries) \<longrightarrow> priv PRIVILEGE_MANAGER)
      \<and> (c \<in> set (codes_of servicestatements) \<longrightarrow> priv PRIVILEGE_SERVICE)
      \<and> (c \<in> set (codes_of tunerstatements) \<longrightarrow> priv PRIVILEGE_TUNER \<or> c = AUTOTUNEUSERSLIST \<and> shared)
      \<and> (c \<in> set (codes_of userstatements) - set (listener_lists @ owner_queries) \<longrightarrow> rank RANK_STANDARD)
      \<and> (c \<in> set (codes_of adminstatements) \<longrightarrow> rank RANK_ADMINISTRATOR \<or> c = USERSONLINE \<and> shared))"

lemmas table_codes = codes_of_def loginstatements_def ownerstatements_def servicestatements_def tunerstatements_def
  userstatements_def adminstatements_def

lemma unprivileged_Next: "c \<notin> set (codes_of loginstatements) \<Longrightarrow> unprivileged_command w event c argv app = Next"
  by (simp add: unprivileged_command_def table_codes)

text \<open>The codes a stage handles.\<close>

definition parse_codes :: "command list" where
  "parse_codes = [FB_PARSE_FAILURE, FB_PARSE_INCOMPLETE, FB_PARSE_INVALID_KEYWORD, FB_PARSE_NUMERIC, FB_PARSE_RANGE,
    FB_PARSE_EXTRA_TERMS, NOP]"

definition status_codes :: "command list" where
  "status_codes = [YELL, GETVOLUME, AUTOTUNEGETMODE, GETHISTORYSIZE, GETAUDIOQUALITY, TIMESTATUS, QUERYSTATUS,
    QUERYHISTORY, QUERYQUEUE, QUICKMIXINCLUDED, QUICKMIXEXCLUDED, STATIONLIST]"

definition account_codes :: "command list" where
  "account_codes = [STATIONRATINGS, STATIONRATE, SETMYPASSWORD, WAITFORENDOFSONG, WAITFORNEXTSONG]"

definition privileged_codes :: "command list" where
  "privileged_codes = [USERSONLINE, USERLISTPANDORA, PANDORAUSER, PANDORAUSERSPECIFY, PANDORAEXISTING,
    WAITFORAUTHENTICATION, AUTOTUNEUSERSLIST, AUTOTUNEUSERS, AUTOTUNEADDREMOVE]"

definition user_codes :: "command list" where
  "user_codes = [SETVOLUME, NEXTSONG, PLAYSTATION, PLAYQUICKMIX, SELECTSTATION, SELECTQUICKMIX, STOPPLAYBACK, PLAY,
    PAUSEPLAYBACK, PLAYPAUSE, QUICKMIXSET, QUICKMIXADD, QUICKMIXDROP, QUICKMIXTOGGLE]"

lemma stage_Next:
  "c \<notin> set parse_codes \<Longrightarrow> parse_error_command event c e app = Next"
  "c \<notin> set status_codes \<Longrightarrow> status_command event c argv app = Next"
  "c \<notin> set account_codes \<Longrightarrow> account_command w event c argv app = Next"
  "c \<notin> set privileged_codes \<Longrightarrow> privileged_command w event c argv app = Next"
  "c \<notin> set user_codes \<Longrightarrow> user_command w event c argv app = Next"
  by (simp_all add: parse_codes_def status_codes_def account_codes_def privileged_codes_def user_codes_def
      parse_error_command_def status_command_def account_command_def privileged_command_def user_command_def Let_def)

definition outside_range :: "command \<Rightarrow> bool" where
  "outside_range c \<longleftrightarrow> \<not> (OWNER_RANGE_START < c \<and> c < OWNER_RANGE_END)"

definition listening_codes :: "command list" where
  "listening_codes = parse_codes @ status_codes @ account_codes"

lemmas stage_codes = listening_codes_def parse_codes_def status_codes_def account_codes_def privileged_codes_def user_codes_def
  outside_range_def

definition admin_codes :: "command list" where
  "admin_codes = filter (\<lambda>c. c \<noteq> USERSONLINE) (codes_of adminstatements)"

definition standard_codes :: "command list" where
  "standard_codes = filter (\<lambda>c. c \<notin> set (listener_lists @ owner_queries))
    (codes_of userstatements)"

lemma admin_codes_apart:
  "list_all (\<lambda>c. outside_range c \<and> c \<notin> set (listening_codes @ privileged_codes @ user_codes)) admin_codes"
  by (simp add: admin_codes_def table_codes stage_codes)

lemma standard_codes_apart:
  "list_all (\<lambda>c. outside_range c \<and> c \<notin> set (listening_codes @ privileged_codes)) standard_codes"
  by (simp add: standard_codes_def listener_lists_def owner_queries_def table_codes stage_codes)

lemma privileged_codes_apart:
  "list_all (\<lambda>c. outside_range c \<and> c \<notin> set listening_codes) privileged_codes"
  by (simp add: stage_codes)

lemma owner_codes_in_range:
  "c \<in> set (codes_of ownerstatements @ owner_queries) \<Longrightarrow> OWNER_RANGE_START < c \<and> c < OWNER_RANGE_END"
  by (auto simp: table_codes owner_queries_def)

lemma listening_Next:
  "c \<notin> set listening_codes \<Longrightarrow>
    listener_command w event c e argv app others = or_else (privileged_command w event c argv app) others"
  by (simp add: listening_codes_def listener_command_def stage_Next)

lemma service_codes_refused:
  "\<lbrakk>c \<in> set (codes_of servicestatements); \<not> have_privilege (users app) (event_user event app) PRIVILEGE_SERVICE\<rbrakk> \<Longrightarrow>
    c \<in> set privileged_codes \<and> privileged_command w event c argv app = Handled (Some (answer event E_UNAUTHORIZED app))"
  by (auto simp: table_codes privileged_codes_def privileged_command_def Let_def)

lemma tuner_codes_refused:
  "\<lbrakk>c \<in> set (codes_of tunerstatements) - {AUTOTUNEUSERSLIST};
    \<not> have_privilege (users app) (event_user event app) PRIVILEGE_TUNER\<rbrakk> \<Longrightarrow>
    c \<in> set privileged_codes \<and> privileged_command w event c argv app = Handled (Some (answer event E_UNAUTHORIZED app))"
  by (auto simp: table_codes privileged_codes_def privileged_command_def Let_def)

lemma shared_lists_refused:
  "\<lbrakk>\<not> have_privilege (users app) (event_user event app) PRIVILEGE_TUNER; \<not> broadcast_user_actions (settings app)\<rbrakk> \<Longrightarrow>
    privileged_command w event AUTOTUNEUSERSLIST argv app = Handled (Some (answer event E_UNAUTHORIZED app))"
  "\<lbrakk>\<not> have_rank (users app) (event_user event app) RANK_ADMINISTRATOR; \<not> broadcast_user_actions (settings app)\<rbrakk> \<Longrightarrow>
    privileged_command w event USERSONLINE argv app = Handled (Some (answer event E_UNAUTHORIZED app))"
  by (simp_all add: privileged_command_def Let_def)

text \<open>The ways to lack a right.\<close>

lemma beyond_rights:
  assumes "\<not> may_run app u cmd"
  obtains "\<not> have_rank (users app) u RANK_LISTENER"
    | "cmd \<in> set (codes_of ownerstatements @ owner_queries)"
      "\<not> have_privilege (users app) u PRIVILEGE_MANAGER"
    | "cmd \<in> set (codes_of servicestatements)" "\<not> have_privilege (users app) u PRIVILEGE_SERVICE"
    | "cmd \<in> set (codes_of tunerstatements) - {AUTOTUNEUSERSLIST}"
      "\<not> have_privilege (users app) u PRIVILEGE_TUNER"
    | "cmd \<in> set (codes_of userstatements) - set (listener_lists @ owner_queries)"
      "\<not> have_rank (users app) u RANK_STANDARD"
    | "cmd \<in> set (codes_of adminstatements) - {USERSONLINE}"
      "\<not> have_rank (users app) u RANK_ADMINISTRATOR"
    | "cmd = AUTOTUNEUSERSLIST" "\<not> have_privilege (users app) u PRIVILEGE_TUNER" "\<not> broadcast_user_actions (settings app)"
    | "cmd = USERSONLINE" "\<not> have_rank (users app) u RANK_ADMINISTRATOR" "\<not> broadcast_user_actions (settings app)"
  using assms unfolding may_run_def Let_def by blast

text \<open>
  C19: Nobody gets beyond their rights: a command that the user behind a connection may not run is refused with E_UNAUTHORIZED, and nothing
  else happens.  The login commands need no right; all others need the listener rank, and besides: those of the owner's table, station
  details and searches the privilege of the manager; those of the service table the service privilege; those of the tuner's table the tuner
  privilege, except that the list of the users who are tuned for may be seen by any listener while user actions are broadcast; those of the
  users' table the standard rank, except the lists of stations and of the mix; those of the administrators' table the administrator rank,
  except that the list of users online may be seen by any listener while user actions are broadcast.  The two commands of the table for
  influence need no more than the listener rank: that privilege only decides whether the help shows them.
\<close>
theorem commands_need_rights:
  assumes "\<not> may_run app (event_user event app) cmd"
  shows "run_command w event cmd errorpoint argv app = Some (on_service (reply event E_UNAUTHORIZED) app)"
proof -
  have login: "unprivileged_command w event cmd argv app = Next"
    using assms unprivileged_Next by (simp add: may_run_def)
  from beyond_rights [OF assms] show ?thesis
  proof cases
    case 2
    then show ?thesis
      using login owner_codes_in_range [OF 2(1)] by (simp add: run_command_def owner_command_def Let_def)
  next
    case 3
    then show ?thesis
      using login service_codes_refused [OF 3] privileged_codes_apart listening_Next
      by (auto simp: run_command_def Let_def list_all_iff outside_range_def)
  next
    case 4
    then show ?thesis
      using login tuner_codes_refused [OF 4] privileged_codes_apart listening_Next
      by (auto simp: run_command_def Let_def list_all_iff outside_range_def)
  next
    case 5
    then have "outside_range cmd \<and> cmd \<notin> set listening_codes \<and> cmd \<notin> set privileged_codes"
      using standard_codes_apart by (auto simp: list_all_iff standard_codes_def)
    then show ?thesis
      using login 5(2) listening_Next stage_Next(4) by (auto simp: run_command_def Let_def outside_range_def)
  next
    case 6
    then have "outside_range cmd \<and> cmd \<notin> set listening_codes \<and> cmd \<notin> set privileged_codes \<and> cmd \<notin> set user_codes"
      using admin_codes_apart by (auto simp: list_all_iff admin_codes_def)
    then show ?thesis
      using login 6(2) listening_Next stage_Next(4,5) by (auto simp: run_command_def Let_def outside_range_def)
  next
    case 7
    then show ?thesis
      using login shared_lists_refused(1) [OF 7(2,3)] privileged_codes_apart listening_Next [of AUTOTUNEUSERSLIST]
      by (auto simp: run_command_def Let_def list_all_iff outside_range_def privileged_codes_def)
  next
    case 8
    then show ?thesis
      using login shared_lists_refused(2) [OF 8(2,3)] privileged_codes_apart listening_Next [of USERSONLINE]
      by (auto simp: run_command_def Let_def list_all_iff outside_range_def privileged_codes_def)
  qed (simp add: run_command_def login Let_def)
qed

theorem commands_need_rights_witness:
  "run_command demo_world 4 SHUTDOWN None [''shutdown''] demo_app = Some (on_service (reply 4 E_UNAUTHORIZED) demo_app)"
proof (rule commands_need_rights)
  have "event_user 4 demo_app = None"
    by (simp add: event_user_def event_user_ref_def demo_app_def demo_service_def find_connection_def demo_connection_def)
  moreover have "\<not> have_rank (users demo_app) None RANK_ADMINISTRATOR"
    by (simp add: have_rank_def get_effective_rank_def demo_app_def demo_users1_def initial_users_def rank_order)
  ultimately show "\<not> may_run demo_app (event_user 4 demo_app) SHUTDOWN"
    by (simp add: may_run_def table_codes)
qed

end
