(* ===== verification/CommandParser.thy ===== *)
theory CommandParser
  imports CommandProofs
begin

text \<open>
  The parser of the program: its tables are accepted and it understands exactly what they say.  The tables are
  evaluated by the simplifier.
\<close>

definition statement_radix :: "int \<Rightarrow> int \<Rightarrow> nat" where
  "statement_radix lo hi = (if hi = 65535 then 0 else 10)"

lemma init_parser_accepts: "init_parser \<noteq> None"
  by code_simp

lemma uniform_tables: "list_all (\<lambda>(_, _, t). uniform_statements statement_radix t) allstatements"
  by code_simp

fun all_of :: "commandset list \<Rightarrow> (command \<times> string) list" where
  "all_of [] = []"
| "all_of ((_, _, t) # sets) = t @ all_of sets"

definition statements :: "(command \<times> string) list" where
  "statements = all_of allstatements"

lemma add_statement_sets_parser:
  "\<lbrakk>parser_wf R p; sorted_tree p; list_all (\<lambda>(_, _, t). uniform_statements R t) sets; add_statement_sets sets p = Some p'\<rbrakk> \<Longrightarrow>
    parser_wf R p' \<and> sorted_tree p' \<and> (\<forall>args q. 0 < q \<longrightarrow> accepts args p' q =
     (accepts args p q \<or> (\<exists>s. (q, s) \<in> set (all_of sets) \<and> matches (fst (fb_create_argv s)) args)))"
proof (induction sets arbitrary: p)
  case (Cons x sets)
  obtain a b t where x: "x = (a, b, t)" by (cases x)
  then obtain p1 where p1: "fb_parser_add_statements p t = Some p1" "add_statement_sets sets p1 = Some p'"
    using Cons.prems(4) by (auto simp: bind_eq_Some_conv)
  have "parser_wf R p1 \<and> sorted_tree p1 \<and> (\<forall>args q. 0 < q \<longrightarrow> accepts args p1 q =
     (accepts args p q \<or> (\<exists>s. (q, s) \<in> set t \<and> matches (fst (fb_create_argv s)) args)))"
    using add_statements_parser [OF Cons.prems(1) _ p1(1)] Cons.prems(3) x by simp
  then show ?case
    using Cons.IH [of p1] Cons.prems(3) p1(2) x by (simp add: x) blast
qed simp

lemma all_of_positive:
  "\<lbrakk>list_all (\<lambda>(_, _, t). uniform_statements R t) sets; (c, s) \<in> set (all_of sets)\<rbrakk> \<Longrightarrow> 0 < c"
  by (induction sets rule: all_of.induct) (auto simp: uniform_statements_def list_all_iff)

lemma statements_positive: "(c, s) \<in> set statements \<Longrightarrow> 0 < c"
  using all_of_positive [OF uniform_tables] by (simp add: statements_def)

lemma init_parser_parts:
  assumes "init_parser = Some parser"
  shows "parser_wf statement_radix parser \<and> sorted_tree parser \<and> (\<forall>args q. 0 < q \<longrightarrow>
    accepts args parser q = (\<exists>s. (q, s) \<in> set statements \<and> matches (fst (fb_create_argv s)) args))"
proof -
  have "parser_wf statement_radix fb_create_parser" "sorted_tree fb_create_parser"
    by (simp_all add: fb_create_parser_def)
  from add_statement_sets_parser [OF this uniform_tables assms [unfolded init_parser_def]]
  show ?thesis by (auto simp: fb_create_parser_def statements_def)
qed

text \<open>
  C21: The daemon understands every command line the way its tables say: init_parser accepts all patterns of command.c, and the
  parser it builds answers any list of words with a positive code exactly when the words match a
  pattern of that code; it never fails an assertion on what a client sends.
\<close>
theorem commands_understood:
  "\<exists>parser. init_parser = Some parser \<and>
    (\<forall>argv. \<exists>q e. fb_interpret parser argv = Some (q, e) \<and>
      (\<forall>c. (0 < c \<and> q = c) = (\<exists>s. (c, s) \<in> set statements \<and> matches (fst (fb_create_argv s)) argv)))"
proof -
  obtain parser where parser: "init_parser = Some parser" using init_parser_accepts by auto
  have wf: "parser_wf statement_radix parser" "sorted_tree parser"
    and acc: "\<And>args q. 0 < q \<Longrightarrow>
      accepts args parser q = (\<exists>s. (q, s) \<in> set statements \<and> matches (fst (fb_create_argv s)) args)"
    using init_parser_parts [OF parser] by auto
  have "\<exists>q e. fb_interpret parser argv = Some (q, e) \<and>
      (\<forall>c. (0 < c \<and> q = c) = (\<exists>s. (c, s) \<in> set statements \<and> matches (fst (fb_create_argv s)) argv))" for argv
  proof -
    obtain q e where q: "fb_interpret parser argv = Some (q, e)" "\<forall>c > 0. (q = c) = accepts argv parser c"
      using interpret_sorted [OF wf, of argv] by (auto simp: fb_interpret_def)
    then have "(0 < c \<and> q = c) = (\<exists>s. (c, s) \<in> set statements \<and> matches (fst (fb_create_argv s)) argv)" for c
      using acc [of c argv] statements_positive by blast
    then show ?thesis using q(1) by blast
  qed
  then show ?thesis using parser by blast
qed

text \<open>
  C23: What the daemon does not understand does no harm: a command line that matches no pattern of the tables gets exactly one
  answer, E_BAD_COMMAND with the reason for a listener and E_UNAUTHORIZED for somebody without that rank, and
  nothing else changes.
\<close>
theorem bad_command_harmless:
  assumes "init_parser = Some parser"
    and "\<not> list_ex (\<lambda>(c, s). matches (fst (fb_create_argv s)) argv) statements"
  shows "\<exists>what. execute_command w parser event argv app = Some (on_service
    (if have_rank (users app) (event_user event app) RANK_LISTENER then emit (To event) E_BAD_COMMAND what
     else reply event E_UNAUTHORIZED) app)"
proof -
  have wf: "parser_wf statement_radix parser" "sorted_tree parser"
    and acc: "\<And>q. 0 < q \<Longrightarrow> \<not> accepts argv parser q"
    using init_parser_parts [OF assms(1)] assms(2) by (fastforce simp: list_ex_iff)+
  obtain q e where q: "fb_interpret parser argv = Some (q, e)"
    and neg: "q \<in> {FB_PARSE_INCOMPLETE, FB_PARSE_INVALID_KEYWORD, FB_PARSE_EXTRA_TERMS, FB_PARSE_NUMERIC, FB_PARSE_RANGE}"
    using interpret_sorted [OF wf, of argv] interpret_codes [OF wf(1)] acc by (fastforce simp: fb_interpret_def)
  have login: "unprivileged_command w event q argv app = Next"
    using neg by (auto simp: unprivileged_command_def)
  have "\<exists>what. parse_error_command event q e app = Handled (Some (on_service (emit (To event) E_BAD_COMMAND what) app))"
    using neg by (auto simp: parse_error_command_def bad_command_def)
  then have "\<exists>what. listener_command w event q e argv app others = Some (on_service (emit (To event) E_BAD_COMMAND what) app)"
    for others by (auto simp: listener_command_def)
  moreover have "q \<noteq> AUTHANDEXEC" "\<not> (OWNER_RANGE_START < q \<and> q < OWNER_RANGE_END)" using neg by auto
  ultimately show ?thesis
    using q login by (auto simp: execute_command.simps run_command_def Let_def)
qed

theorem bad_command_harmless_witness:
  "\<exists>parser what. execute_command demo_world parser 4 [''seelct'', ''station'', ''Jazz''] demo_app =
    Some (on_service (if have_rank (users demo_app) (event_user 4 demo_app) RANK_LISTENER then emit (To 4) E_BAD_COMMAND what
      else reply 4 E_UNAUTHORIZED) demo_app)"
proof -
  obtain parser where parser: "init_parser = Some parser" using init_parser_accepts by auto
  have "\<not> list_ex (\<lambda>(c, s). matches (fst (fb_create_argv s)) [''seelct'', ''station'', ''Jazz'']) statements"
    by code_simp
  from bad_command_harmless [OF parser this, of demo_world 4 demo_app] show ?thesis by blast
qed

end
