(* ===== verification/FbMessage.thy ===== *)
theory FbMessage
  imports Prelude "HOL-Library.Multiset" "HOL-Library.Monad_Syntax" "HOL-Library.Sublist"
begin

text \<open>
  The messages and output queues of libfootball (\<open>src/src/libfootball/fb_message.c\<close>).

  A message is a block on the heap that counts its users: a broadcast puts one block into the queues of many
  connections.  The store maps the addresses of the blocks to their contents; a freed block loses its text and
  goes to the list of free blocks, from which the next allocation takes it.  The links of a queue (FB_MESSAGELIST) are
  the cells of a list of addresses; their own free list is not modelled, and memory does not run out.

  The lemmas say that the counts are exact: \<open>store_ok st R\<close> holds when every block is used as often as
  it occurs in the multiset \<open>R\<close> of all references, and the free list has just the blocks without a user.  Adding,
  consuming and destroying keep it, so that no block is freed while a queue holds it and none is lost.
\<close>

section \<open>Messages\<close>

record fb_message =
  usecount :: int
  message :: bytes

record fb_store =
  messages :: "nat \<Rightarrow> fb_message"
  freemessages :: "nat list"
  fresh :: nat

definition empty_message :: fb_message where
  "empty_message = \<lparr>usecount = 0, message = []\<rparr>"

definition fb_messagealloc :: "fb_store \<Rightarrow> nat \<times> fb_store" where
  "fb_messagealloc st =
    (let (a, st) = (case freemessages st of
        a # free \<Rightarrow> (a, st\<lparr>freemessages := free\<rparr>)
      | [] \<Rightarrow> (fresh st, st\<lparr>fresh := fresh st + 1\<rparr>))
     in (a, st\<lparr>messages := (messages st)(a := empty_message\<lparr>usecount := 1\<rparr>)\<rparr>))"

definition fb_messagefree :: "nat \<Rightarrow> fb_store \<Rightarrow> fb_store option" where
  "fb_messagefree a st =
    (let m = messages st a in
     if usecount m > 0
     then let m = m\<lparr>usecount := usecount m - 1\<rparr> in
       if usecount m \<le> 0
       then Some (st\<lparr>messages := (messages st)(a := m\<lparr>message := []\<rparr>), freemessages := a # freemessages st\<rparr>)
       else Some (st\<lparr>messages := (messages st)(a := m)\<rparr>)
     else None)"

text \<open>\<open>message->usecount++\<close>, as the broadcast does for each addressee.\<close>

definition use_message :: "nat \<Rightarrow> fb_store \<Rightarrow> fb_store" where
  "use_message a st = st\<lparr>messages := (messages st)(a := messages st a\<lparr>usecount := usecount (messages st a) + 1\<rparr>)\<rparr>"

text \<open>A fresh block with a text: fb_create_message after formatting, and the allocation in fb_queue_http.\<close>

definition fb_create_message :: "bytes \<Rightarrow> fb_store \<Rightarrow> nat \<times> fb_store" where
  "fb_create_message text st =
    (let (a, st) = fb_messagealloc st
     in (a, st\<lparr>messages := (messages st)(a := messages st a\<lparr>message := text\<rparr>)\<rparr>))"

abbreviation msg_text :: "fb_store \<Rightarrow> nat \<Rightarrow> bytes" where
  "msg_text st a \<equiv> message (messages st a)"

section \<open>Queues\<close>

record fb_ioqueue =
  queued :: "nat list"
  consumed :: nat

definition empty_queue :: fb_ioqueue where
  "empty_queue = \<lparr>queued = [], consumed = 0\<rparr>"

definition fb_queue_empty :: "fb_ioqueue \<Rightarrow> bool" where
  "fb_queue_empty q \<longleftrightarrow> queued q = []"

definition fb_queue_add :: "fb_ioqueue \<Rightarrow> nat \<Rightarrow> fb_ioqueue" where
  "fb_queue_add q a = q\<lparr>queued := queued q @ [a]\<rparr>"

text \<open>fb_qfree hands the block of the link back as well.\<close>

definition fb_queue_consume :: "fb_ioqueue \<Rightarrow> nat \<Rightarrow> fb_store \<Rightarrow> (fb_ioqueue \<times> fb_store) option" where
  "fb_queue_consume q consume st = (case queued q of
      [] \<Rightarrow> None
    | a # rest \<Rightarrow>
        let q = q\<lparr>consumed := consumed q + consume\<rparr> in
        if length (msg_text st a) < consumed q then None
        else if length (msg_text st a) \<le> consumed q
        then map_option (\<lambda>st. (\<lparr>queued = rest, consumed = 0\<rparr>, st)) (fb_messagefree a st)
        else Some (q, st))"

primrec free_all :: "nat list \<Rightarrow> fb_store \<Rightarrow> fb_store option" where
  "free_all [] st = Some st"
| "free_all (a # as) st = do { st \<leftarrow> fb_messagefree a st; free_all as st }"

text \<open>The position in the first message is not reset.\<close>

definition fb_queue_destroy :: "fb_ioqueue \<Rightarrow> fb_store \<Rightarrow> (fb_ioqueue \<times> fb_store) option" where
  "fb_queue_destroy q st = map_option (\<lambda>st. (q\<lparr>queued := []\<rparr>, st)) (free_all (queued q) st)"

section \<open>The counts are exact\<close>

definition store_ok :: "fb_store \<Rightarrow> nat multiset \<Rightarrow> bool" where
  "store_ok st R \<longleftrightarrow> distinct (freemessages st)
    \<and> (\<forall>a. usecount (messages st a) = int (count R a))
    \<and> (\<forall>a. a \<in> set (freemessages st) \<longleftrightarrow> a < fresh st \<and> a \<notin># R)
    \<and> (\<forall>a \<in># R. a < fresh st)"

definition agree :: "nat multiset \<Rightarrow> fb_store \<Rightarrow> fb_store \<Rightarrow> bool" where
  "agree R st st' \<longleftrightarrow> (\<forall>a. a \<in># R \<longrightarrow> msg_text st' a = msg_text st a)"

lemma agree_refl [simp]: "agree R st st"
  by (simp add: agree_def)

lemma agree_trans: "agree R st st' \<Longrightarrow> agree S st' st'' \<Longrightarrow> S \<subseteq># R \<Longrightarrow> agree S st st''"
  by (auto simp: agree_def dest: mset_subset_eqD)

lemma agree_mono: "agree R st st' \<Longrightarrow> S \<subseteq># R \<Longrightarrow> agree S st st'"
  by (auto simp: agree_def dest: mset_subset_eqD)

lemma agree_text: "agree R st st' \<Longrightarrow> a \<in># R \<Longrightarrow> msg_text st' a = msg_text st a"
  by (simp add: agree_def)

definition initial_store :: fb_store where
  "initial_store = \<lparr>messages = (\<lambda>_. empty_message), freemessages = [], fresh = 0\<rparr>"

lemma store_ok_initial: "store_ok initial_store {#}"
  by (simp add: store_ok_def initial_store_def empty_message_def)

lemma alloc_ok:
  assumes "store_ok st R" and "fb_messagealloc st = (a, st')"
  shows "store_ok st' (add_mset a R)" "a \<notin># R" "agree R st st'" "msg_text st' a = []"
proof -
  have "store_ok st' (add_mset a R) \<and> a \<notin># R \<and> agree R st st' \<and> msg_text st' a = []"
  proof (cases "freemessages st")
    case Nil
    then have "a = fresh st" "st' = st\<lparr>fresh := fresh st + 1,
        messages := (messages st)(a := empty_message\<lparr>usecount := 1\<rparr>)\<rparr>"
      using assms(2) by (auto simp: fb_messagealloc_def)
    with Nil assms(1) show ?thesis
      by (auto simp: store_ok_def agree_def empty_message_def count_eq_zero_iff less_Suc_eq)
  next
    case (Cons f free)
    then have "a = f" "st' = st\<lparr>freemessages := free, messages := (messages st)(a := empty_message\<lparr>usecount := 1\<rparr>)\<rparr>"
      using assms(2) by (auto simp: fb_messagealloc_def)
    with Cons assms(1) show ?thesis
      by (auto simp: store_ok_def agree_def empty_message_def count_eq_zero_iff)
  qed
  then show "store_ok st' (add_mset a R)" "a \<notin># R" "agree R st st'" "msg_text st' a = []" by auto
qed

lemma create_ok:
  assumes "store_ok st R" and "fb_create_message text st = (a, st')"
  shows "store_ok st' (add_mset a R)" "a \<notin># R" "agree R st st'" "msg_text st' a = text"
proof -
  obtain st1 where "fb_messagealloc st = (a, st1)"
      and st': "st' = st1\<lparr>messages := (messages st1)(a := messages st1 a\<lparr>message := text\<rparr>)\<rparr>"
    using assms(2) by (auto simp: fb_create_message_def split: prod.splits)
  note alloc = alloc_ok [OF assms(1) this(1)]
  then show "a \<notin># R" by simp
  with alloc show "store_ok st' (add_mset a R)" "agree R st st'" "msg_text st' a = text"
    by (auto simp: st' store_ok_def agree_def)
qed

lemma use_ok: "store_ok st R \<Longrightarrow> a \<in># R \<Longrightarrow> store_ok (use_message a st) (add_mset a R)"
  by (auto simp: store_ok_def use_message_def)

lemma use_agree [simp]: "agree R st (use_message a st)" "msg_text (use_message a st) b = msg_text st b"
  by (simp_all add: agree_def use_message_def)

lemma free_ok:
  assumes "store_ok st (add_mset a R)"
  shows "\<exists>st'. fb_messagefree a st = Some st' \<and> store_ok st' R \<and> agree R st st'"
proof (cases "a \<in># R")
  case True
  then have "0 < count R a" by simp
  with True assms show ?thesis
    by (auto simp: fb_messagefree_def store_ok_def agree_def Let_def simp del: count_greater_zero_iff)
next
  case False
  then have "count R a = 0" by (simp add: count_eq_zero_iff)
  with False assms show ?thesis
    by (auto simp: fb_messagefree_def store_ok_def agree_def Let_def)
qed

lemma free_all_ok:
  "store_ok st (R + mset as) \<Longrightarrow> \<exists>st'. free_all as st = Some st' \<and> store_ok st' R \<and> agree R st st'"
proof (induction as arbitrary: st)
  case (Cons a as)
  then obtain st1 where 1: "fb_messagefree a st = Some st1" "store_ok st1 (R + mset as)" "agree (R + mset as) st st1"
    using free_ok [of st a "R + mset as"] by auto
  then obtain st2 where "free_all as st1 = Some st2" "store_ok st2 R" "agree R st1 st2"
    using Cons.IH by blast
  with 1 show ?case using agree_trans [of "R + mset as" st st1 R st2] by auto
qed simp

lemma destroy_ok:
  "store_ok st (R + mset (queued q)) \<Longrightarrow>
    \<exists>st'. fb_queue_destroy q st = Some (q\<lparr>queued := []\<rparr>, st') \<and> store_ok st' R \<and> agree R st st'"
  using free_all_ok by (fastforce simp: fb_queue_destroy_def)

section \<open>A queue as a stream of bytes\<close>

text \<open>What is left to send, and the shape of a queue whose position lies within its first message.\<close>

definition pending :: "fb_store \<Rightarrow> fb_ioqueue \<Rightarrow> bytes" where
  "pending st q = drop (consumed q) (concat (map (msg_text st) (queued q)))"

definition queue_wf :: "fb_store \<Rightarrow> fb_ioqueue \<Rightarrow> bool" where
  "queue_wf st q \<longleftrightarrow> (\<forall>a \<in> set (queued q). msg_text st a \<noteq> [])
    \<and> (case queued q of [] \<Rightarrow> consumed q = 0 | a # _ \<Rightarrow> consumed q < length (msg_text st a))"

lemma agree_pending: "agree R st st' \<Longrightarrow> mset (queued q) \<subseteq># R \<Longrightarrow> pending st' q = pending st q"
  unfolding pending_def agree_def
  by (intro arg_cong [where f = "drop (consumed q)"] arg_cong [where f = concat] map_cong refl)
    (auto dest: mset_subset_eqD)

lemma agree_queue_wf:
  assumes "agree R st st'" and "mset (queued q) \<subseteq># R"
  shows "queue_wf st' q = queue_wf st q"
proof -
  have "msg_text st' a = msg_text st a" if "a \<in> set (queued q)" for a
    using that assms mset_subset_eqD [OF assms(2), of a] by (simp add: agree_def)
  then show ?thesis by (auto simp: queue_wf_def split: list.split)
qed

lemma pending_empty [simp]: "queued q = [] \<Longrightarrow> pending st q = []"
  by (simp add: pending_def)

lemma queue_wf_pending: "queue_wf st q \<Longrightarrow> pending st q = [] \<longleftrightarrow> queued q = []"
  by (cases "queued q") (auto simp: queue_wf_def pending_def)

lemma add_pending:
  assumes "queue_wf st q" and "msg_text st a \<noteq> []"
  shows "pending st (fb_queue_add q a) = pending st q @ msg_text st a" "queue_wf st (fb_queue_add q a)"
  using assms by (cases "queued q"; auto simp: queue_wf_def pending_def fb_queue_add_def)+

lemma pending_first:
  "queued q = a # rest \<Longrightarrow> consumed q \<le> length (msg_text st a) \<Longrightarrow>
    pending st q = drop (consumed q) (msg_text st a) @ concat (map (msg_text st) rest)"
  by (simp add: pending_def)

lemma consume_ok:
  assumes ok: "store_ok st (R + mset (queued q))" and wf: "queue_wf st q" and q: "queued q = a # rest"
    and n: "n \<le> length (msg_text st a) - consumed q"
  shows "\<exists>q' st'. fb_queue_consume q n st = Some (q', st') \<and> store_ok st' (R + mset (queued q'))
    \<and> agree (R + mset (queued q')) st st' \<and> queue_wf st' q' \<and> pending st' q' = drop n (pending st q)
    \<and> suffix (queued q') (queued q)"
proof (cases "n = length (msg_text st a) - consumed q")
  case True
  then have full: "consumed q + n = length (msg_text st a)" using wf q by (simp add: queue_wf_def)
  obtain st' where st': "fb_messagefree a st = Some st'" "store_ok st' (R + mset rest)" "agree (R + mset rest) st st'"
    using free_ok [of st a "R + mset rest"] ok q by auto
  let ?q = "\<lparr>queued = rest, consumed = 0\<rparr>"
  have "queue_wf st ?q" using wf q by (auto simp: queue_wf_def split: list.split)
  moreover have "pending st ?q = drop n (pending st q)" using q full by (simp add: pending_def add.commute)
  ultimately have "queue_wf st' ?q" "pending st' ?q = drop n (pending st q)"
    using agree_queue_wf [OF st'(3), of ?q] agree_pending [OF st'(3), of ?q] by auto
  then show ?thesis using q full st' by (auto simp: fb_queue_consume_def suffix_Cons)
next
  case False
  with n have "consumed q + n < length (msg_text st a)" by simp
  with q wf ok show ?thesis
    by (auto simp: fb_queue_consume_def queue_wf_def pending_def add.commute)
qed

end
