(* ===== verification/FbConnection.thy ===== *)
theory FbConnection
  imports Response FbMessage "HOL-Library.Stream"
begin

text \<open>
  A connection of libfootball and its output: the connection record of \<open>fb_service.h\<close>, \<open>fb_close_connection\<close>
  (\<open>fb_service.c\<close>), \<open>fb_send_output\<close> and \<open>fb_queue_single\<close> (\<open>fb_event.c\<close>), the queueing of HTTP output and the
  websocket encoder \<open>fb_websocket_encode\<close> (\<open>fb_http.c\<close>).

  What the operating system answers is part of the connection: \<open>sends\<close> is the stream of the results of the coming
  calls of send (or gnutls_record_send), \<open>receives\<close> of those of recv, \<open>handshakes\<close> of those of gnutls_handshake,
  \<open>fb_file\<close> what is left to read of a file that is executed as a connection, and \<open>sent\<close> is what the socket has taken so
  far.  A send never takes more than it is offered.  The flags \<open>reading\<close>, \<open>writing\<close> and \<open>buffering\<close> are the
  bits of the connection's socket in the sets of \<open>fb_socketmgr.c\<close>.
  A result None stands for a NULL pointer that is followed, a failed assertion, or a read or write outside a block.
\<close>

section \<open>The connection\<close>

record http_request =
  rq_unsupported :: bool
  rq_headonly :: bool
  rq_http :: "string option"
  rq_host :: "string option"
  rq_service_name :: "string option"
  rq_filename :: "string option"
  rq_upgrade_type :: "string option"
  rq_websocket_key :: "string option"
  rq_websocket_protocol :: "string option"
  rq_websocket_version :: "string option"
  rq_if_modified_since :: "string option"
  rq_invalid :: bool
  rq_failure :: bool

definition blank_request :: http_request where
  "blank_request = \<lparr>rq_unsupported = False, rq_headonly = False, rq_http = None, rq_host = None, rq_service_name = None,
    rq_filename = None, rq_upgrade_type = None, rq_websocket_key = None, rq_websocket_protocol = None,
    rq_websocket_version = None, rq_if_modified_since = None, rq_invalid = False, rq_failure = False\<rparr>"

datatype send_result = Took nat | Send_again | Send_error

datatype handshake_result = Handshake_done | Handshake_wait | Handshake_failed

datatype recv_result = Got bytes | Recv_again | Hung_up | Recv_error

record fb_connection =
  fb_socket :: nat
  fb_service :: nat
  fb_state :: conn_state
  fb_greeted :: bool
  fb_http :: bool
  fb_encrypted :: bool
  fb_request :: http_request
  fb_assembly :: fb_ioqueue
  fb_out :: fb_ioqueue
  fb_in :: bytes
  fb_capacity :: nat
  fb_filename :: "string option"
  fb_file :: bytes
  reading :: bool
  writing :: bool
  buffering :: bool
  sends :: "send_result stream"
  receives :: "recv_result stream"
  handshakes :: "handshake_result stream"
  sent :: bytes

definition close_connection :: "fb_connection \<Rightarrow> fb_connection" where
  "close_connection c = c\<lparr>fb_state := (if fb_state c \<le> OPEN then FLUSHING else fb_state c),
    writing := True, reading := False, buffering := False\<rparr>"

section \<open>Sending\<close>

definition socket_send :: "bytes \<Rightarrow> fb_connection \<Rightarrow> int \<times> fb_connection" where
  "socket_send data c = (case shd (sends c) of
      Took n \<Rightarrow> (int (min n (length data)), c\<lparr>sends := stl (sends c), sent := sent c @ take n data\<rparr>)
    | Send_again \<Rightarrow> (0, c\<lparr>sends := stl (sends c)\<rparr>)
    | Send_error \<Rightarrow> (- 1, c\<lparr>sends := stl (sends c)\<rparr>))"

text \<open>
  The do loop of fb_send_output.  The length offered is unsigned: a position behind the end of the message would
  offer memory far behind it.
\<close>

partial_function (option) send_loop :: "fb_store \<Rightarrow> fb_connection \<Rightarrow> (fb_store \<times> fb_connection) option" where
  "send_loop st c = (case queued (fb_out c) of
      [] \<Rightarrow> None
    | a # _ \<Rightarrow>
        if length (msg_text st a) < consumed (fb_out c) then None
        else do {
          let (written, c) = socket_send (drop (consumed (fb_out c)) (msg_text st a)) c;
          if written < 0 then do {
            (q, st) \<leftarrow> fb_queue_destroy (fb_out c) st;
            Some (st, close_connection (c\<lparr>fb_out := q\<rparr>))
          } else do {
            (q, st) \<leftarrow> fb_queue_consume (fb_out c) (nat written) st;
            let c = c\<lparr>fb_out := q\<rparr>;
            if 0 < written \<and> \<not> fb_queue_empty q then send_loop st c else Some (st, c)
          }
        })"

datatype send_outcome = Quiet | Close_event | Finished

text \<open>
  \<open>event\<close> says whether the caller passes an event that may be filled in.  Finished stands for the end of the
  connection: the socket manager reaps the service if it must and destroys the connection.
\<close>

definition fb_send_output ::
    "bool \<Rightarrow> fb_store \<Rightarrow> fb_connection \<Rightarrow> (send_outcome \<times> fb_store \<times> fb_connection) option" where
  "fb_send_output event st c =
    (if fb_queue_empty (fb_out c) then
       if \<not> event then Some (Quiet, st, c)
       else if fb_state c = FLUSHING then Some (Close_event, st, c\<lparr>fb_state := CLOSING\<rparr>)
       else if fb_state c = CLOSING then Some (Finished, st, c)
       else Some (Quiet, st, c\<lparr>writing := False\<rparr>)
     else do {
       (st, c) \<leftarrow> send_loop st c;
       Some (Quiet, st, if fb_queue_empty (fb_out c) then c else c\<lparr>writing := True\<rparr>)
     })"

definition fb_queue_http :: "bytes \<Rightarrow> fb_store \<Rightarrow> fb_connection \<Rightarrow> (fb_store \<times> fb_connection) option" where
  "fb_queue_http text st c =
    (let (a, st) = fb_create_message text st
     in map_option snd (fb_send_output False st (c\<lparr>fb_out := fb_queue_add (fb_out c) a\<rparr>)))"

section \<open>Websocket packets\<close>

definition newline_from :: "nat \<Rightarrow> bytes \<Rightarrow> nat option" where
  "newline_from start text =
    (let p = start + length (takeWhile (\<lambda>b. b \<noteq> 10 \<and> b \<noteq> 0) (drop start text))
     in if p < length text \<and> text ! p = 10 then Some p else None)"

definition word_bytes :: "32 word \<Rightarrow> bytes" where
  "word_bytes w = [ucast (drop_bit 24 w), ucast (drop_bit 16 w), ucast (drop_bit 8 w), ucast w]"

definition frame_header :: "nat \<Rightarrow> bytes" where
  "frame_header n =
    (if n \<le> 125 then [0x81, word_of_nat n]
     else if n \<le> 0xffff then [0x81, 126, word_of_nat (n div 256), word_of_nat n]
     else [0x81, 127, 0, 0, 0, 0] @ word_bytes (word_of_nat n))"

text \<open>Copying the pieces of the line out of the assembly queue.\<close>

partial_function (option) assemble ::
    "nat \<Rightarrow> fb_ioqueue \<Rightarrow> fb_store \<Rightarrow> (bytes \<times> fb_ioqueue \<times> fb_store) option" where
  "assemble left q st =
    (if left = 0 then Some ([], q, st)
     else case queued q of
       [] \<Rightarrow> None
     | a # _ \<Rightarrow> do {
         let chunk = min (length (msg_text st a) - consumed q) left;
         let piece = take chunk (drop (consumed q) (msg_text st a));
         (q, st) \<leftarrow> fb_queue_consume q chunk st;
         (rest, q, st) \<leftarrow> assemble (left - chunk) q st;
         Some (piece @ rest, q, st)
       })"

partial_function (option) fb_websocket_encode ::
    "fb_store \<Rightarrow> fb_connection \<Rightarrow> (fb_store \<times> fb_connection) option" where
  "fb_websocket_encode st c =
    (let ass = fb_assembly c; ms = queued ass in
     if ms = [] then None
     else case newline_from (if length ms = 1 then consumed ass else 0) (msg_text st (last ms)) of
       None \<Rightarrow> Some (st, c)
     | Some newline \<Rightarrow> do {
         let message_size = newline + sum_list (map (\<lambda>a. length (msg_text st a)) (butlast ms)) - consumed ass;
         (payload, ass, st) \<leftarrow> assemble message_size ass st;
         (ass, st) \<leftarrow> fb_queue_consume ass 1 st;
         (st, c) \<leftarrow> fb_queue_http (frame_header message_size @ payload) st (c\<lparr>fb_assembly := ass\<rparr>);
         if fb_queue_empty (fb_assembly c) then Some (st, c) else fb_websocket_encode st c
       })"

section \<open>Queueing a message\<close>

definition unsendable :: "fb_connection \<Rightarrow> bool" where
  "unsendable c \<longleftrightarrow> fb_state c = CLOSING \<or> fb_state c < OPEN \<or> fb_filename c \<noteq> None"

definition fb_queue_single :: "nat \<Rightarrow> fb_store \<Rightarrow> fb_connection \<Rightarrow> (int \<times> fb_store \<times> fb_connection) option" where
  "fb_queue_single a st c =
    (let length = length (msg_text st a) in
     if length = 0 \<or> unsendable c
     then map_option (\<lambda>st. (int length, st, c)) (fb_messagefree a st)
     else do {
       (st, c) \<leftarrow> (if fb_http c then fb_websocket_encode st (c\<lparr>fb_assembly := fb_queue_add (fb_assembly c) a\<rparr>)
         else Some (st, c\<lparr>fb_out := fb_queue_add (fb_out c) a\<rparr>));
       (_, st, c) \<leftarrow> fb_send_output False st c;
       Some (int length, st, c)
     })"

text \<open>fb_fprintf and fb_vfprintf to one connection, with the text already formatted.\<close>

definition fb_printf :: "bytes \<Rightarrow> fb_store \<Rightarrow> fb_connection \<Rightarrow> (int \<times> fb_store \<times> fb_connection) option" where
  "fb_printf text st c = (let (a, st) = fb_create_message text st in fb_queue_single a st c)"

end
