(* ===== verification/Sha1.thy ===== *)
theory Sha1
  imports Prelude "HOL-Library.Monad_Syntax"
begin

text \<open>
  The message digest of \<open>src/src/libfootball/sha1.c\<close>, with which the websocket handshake answers the key of a
  client: the context of \<open>sha1.h\<close>, its reset, input, padding and result, and the compression of a block.

  Words are 32 bits wide and wrap; a byte that is shifted is widened first.  A store behind the 64 bytes of the
  message block would be undefined in C and is None here.  The second part compares the incremental code with the
  definition of the digest on the whole padded message (FIPS 180): a message handed over in any pieces has the digest of
  their concatenation.
\<close>

section \<open>The context\<close>

definition shaSuccess :: int where "shaSuccess = 0"
definition shaStateError :: int where "shaStateError = 3"
definition SHA1HashSize :: nat where "SHA1HashSize = 20"

record sha1_context =
  Intermediate_Hash :: "32 word list"
  Length_Low :: "32 word"
  Length_High :: "32 word"
  Message_Block_Index :: nat
  Message_Block :: bytes
  Computed :: bool
  Corrupted :: int

definition SHA1CircularShift :: "nat \<Rightarrow> 32 word \<Rightarrow> 32 word" where
  "SHA1CircularShift bits w = push_bit bits w OR drop_bit (32 - bits) w"

definition SHA1Reset :: "sha1_context \<Rightarrow> int \<times> sha1_context" where
  "SHA1Reset c = (shaSuccess, c\<lparr>Length_Low := 0, Length_High := 0, Message_Block_Index := 0,
    Intermediate_Hash := [0x67452301, 0xEFCDAB89, 0x98BADCFE, 0x10325476, 0xC3D2E1F0],
    Computed := False, Corrupted := 0\<rparr>)"

section \<open>Processing a block\<close>

type_synonym sha1_state = "32 word \<times> 32 word \<times> 32 word \<times> 32 word \<times> 32 word"

definition block_word :: "bytes \<Rightarrow> nat \<Rightarrow> 32 word" where
  "block_word b t = push_bit 24 (ucast (b ! (t * 4))) OR push_bit 16 (ucast (b ! (t * 4 + 1)))
    OR push_bit 8 (ucast (b ! (t * 4 + 2))) OR ucast (b ! (t * 4 + 3))"

definition extend_words :: "32 word list \<Rightarrow> nat \<Rightarrow> 32 word list" where
  "extend_words W t =
    W @ [SHA1CircularShift 1 (W ! (t - 3) XOR W ! (t - 8) XOR W ! (t - 14) XOR W ! (t - 16))]"

definition word_sequence :: "bytes \<Rightarrow> 32 word list" where
  "word_sequence b = foldl extend_words (map (block_word b) [0..<16]) [16..<80]"

definition sha1_step ::
    "(32 word \<Rightarrow> 32 word \<Rightarrow> 32 word \<Rightarrow> 32 word) \<Rightarrow> 32 word \<Rightarrow> 32 word list \<Rightarrow> sha1_state \<Rightarrow> nat \<Rightarrow> sha1_state" where
  "sha1_step f k W = (\<lambda>(A, B, C, D, E) t.
    let temp = SHA1CircularShift 5 A + f B C D + E + W ! t + k
    in (temp, A, SHA1CircularShift 30 B, C, D))"

definition sha1_rounds :: "32 word list \<Rightarrow> sha1_state \<Rightarrow> sha1_state" where
  "sha1_rounds W s0 =
    (let s1 = foldl (sha1_step (\<lambda>B C D. (B AND C) OR (NOT B AND D)) 0x5A827999 W) s0 [0..<20];
         s2 = foldl (sha1_step (\<lambda>B C D. B XOR C XOR D) 0x6ED9EBA1 W) s1 [20..<40];
         s3 = foldl (sha1_step (\<lambda>B C D. (B AND C) OR (B AND D) OR (C AND D)) 0x8F1BBCDC W) s2 [40..<60]
     in foldl (sha1_step (\<lambda>B C D. B XOR C XOR D) 0xCA62C1D6 W) s3 [60..<80])"

definition SHA1ProcessMessageBlock :: "sha1_context \<Rightarrow> sha1_context" where
  "SHA1ProcessMessageBlock c =
    (let h = Intermediate_Hash c;
         (A, B, C, D, E) = sha1_rounds (word_sequence (Message_Block c)) (h ! 0, h ! 1, h ! 2, h ! 3, h ! 4)
     in c\<lparr>Intermediate_Hash := [h ! 0 + A, h ! 1 + B, h ! 2 + C, h ! 3 + D, h ! 4 + E],
          Message_Block_Index := 0\<rparr>)"

section \<open>Input\<close>

definition put_byte :: "byte \<Rightarrow> sha1_context \<Rightarrow> sha1_context option" where
  "put_byte x c = (if Message_Block_Index c < 64
    then Some (c\<lparr>Message_Block := (Message_Block c)[Message_Block_Index c := x],
                 Message_Block_Index := Message_Block_Index c + 1\<rparr>)
    else None)"

definition count_byte :: "sha1_context \<Rightarrow> sha1_context" where
  "count_byte c =
    (let low = Length_Low c + 8;
         high = (if low = 0 then Length_High c + 1 else Length_High c)
     in c\<lparr>Length_Low := low, Length_High := high,
          Corrupted := (if low = 0 \<and> high = 0 then 1 else Corrupted c)\<rparr>)"

definition input_byte :: "byte \<Rightarrow> sha1_context \<Rightarrow> sha1_context option" where
  "input_byte x c = do {
    c \<leftarrow> put_byte x c;
    let c = count_byte c;
    Some (if Message_Block_Index c = 64 then SHA1ProcessMessageBlock c else c)
  }"

fun input_loop :: "bytes \<Rightarrow> sha1_context \<Rightarrow> sha1_context option" where
  "input_loop [] c = Some c"
| "input_loop (x # xs) c = (if Corrupted c \<noteq> 0 then Some c
    else do { c \<leftarrow> input_byte x c; input_loop xs c })"

definition SHA1Input :: "sha1_context \<Rightarrow> bytes \<Rightarrow> (int \<times> sha1_context) option" where
  "SHA1Input c message =
    (if message = [] then Some (shaSuccess, c)
     else if Computed c then Some (shaStateError, c\<lparr>Corrupted := shaStateError\<rparr>)
     else if Corrupted c \<noteq> 0 then Some (Corrupted c, c)
     else do { c \<leftarrow> input_loop message c; Some (shaSuccess, c) })"

section \<open>Padding and result\<close>

primrec put_zeros :: "nat \<Rightarrow> sha1_context \<Rightarrow> sha1_context option" where
  "put_zeros 0 c = Some c"
| "put_zeros (Suc n) c = do { c \<leftarrow> put_byte 0 c; put_zeros n c }"

definition put_length :: "sha1_context \<Rightarrow> sha1_context" where
  "put_length c = c\<lparr>Message_Block := (Message_Block c)
    [56 := ucast (drop_bit 24 (Length_High c)), 57 := ucast (drop_bit 16 (Length_High c)),
     58 := ucast (drop_bit 8 (Length_High c)), 59 := ucast (Length_High c),
     60 := ucast (drop_bit 24 (Length_Low c)), 61 := ucast (drop_bit 16 (Length_Low c)),
     62 := ucast (drop_bit 8 (Length_Low c)), 63 := ucast (Length_Low c)]\<rparr>"

definition SHA1PadMessage :: "sha1_context \<Rightarrow> sha1_context option" where
  "SHA1PadMessage c = do {
    c \<leftarrow> (if 55 < Message_Block_Index c then do {
        c \<leftarrow> put_byte 0x80 c;
        c \<leftarrow> put_zeros (64 - Message_Block_Index c) c;
        let c = SHA1ProcessMessageBlock c;
        put_zeros (56 - Message_Block_Index c) c
      } else do {
        c \<leftarrow> put_byte 0x80 c;
        put_zeros (56 - Message_Block_Index c) c
      });
    Some (SHA1ProcessMessageBlock (put_length c))
  }"

definition digest_bytes :: "32 word list \<Rightarrow> bytes" where
  "digest_bytes h = map (\<lambda>i. ucast (drop_bit (8 * (3 - i mod 4)) (h ! (i div 4)))) [0..<SHA1HashSize]"

definition SHA1Result :: "sha1_context \<Rightarrow> (int \<times> bytes \<times> sha1_context) option" where
  "SHA1Result c =
    (if Corrupted c \<noteq> 0 then Some (Corrupted c, [], c)
     else do {
       c \<leftarrow> (if Computed c then Some c else do {
           c \<leftarrow> SHA1PadMessage c;
           Some (c\<lparr>Message_Block := replicate 64 0, Length_Low := 0, Length_High := 0, Computed := True\<rparr>)
         });
       Some (shaSuccess, digest_bytes (Intermediate_Hash c), c)
     })"

section \<open>The digest of a whole message\<close>

text \<open>
  The reference: the message is padded with one bit, zeros and its length in bits to a multiple of 64 bytes, and the
  blocks are compressed one after the other.
\<close>

definition be_bytes :: "32 word \<Rightarrow> bytes" where
  "be_bytes w = [ucast (drop_bit 24 w), ucast (drop_bit 16 w), ucast (drop_bit 8 w), ucast w]"

fun schedule :: "bytes \<Rightarrow> nat \<Rightarrow> 32 word" where
  "schedule b t = (if t < 16 then block_word b t
    else word_rotl 1 (schedule b (t - 3) XOR schedule b (t - 8) XOR schedule b (t - 14) XOR schedule b (t - 16)))"

declare schedule.simps [simp del]

definition round_mix :: "nat \<Rightarrow> 32 word \<Rightarrow> 32 word \<Rightarrow> 32 word \<Rightarrow> 32 word" where
  "round_mix t x y z =
    (if t < 20 then (x AND y) XOR (NOT x AND z)
     else if t < 40 then x XOR y XOR z
     else if t < 60 then (x AND y) XOR (x AND z) XOR (y AND z)
     else x XOR y XOR z)"

definition round_constant :: "nat \<Rightarrow> 32 word" where
  "round_constant t = [0x5A827999, 0x6ED9EBA1, 0x8F1BBCDC, 0xCA62C1D6] ! (t div 20)"

definition sha1_round :: "bytes \<Rightarrow> sha1_state \<Rightarrow> nat \<Rightarrow> sha1_state" where
  "sha1_round m = (\<lambda>(a, b, c, d, e) t.
    (word_rotl 5 a + round_mix t b c d + e + round_constant t + schedule m t, a, word_rotl 30 b, c, d))"

definition compress :: "32 word list \<Rightarrow> bytes \<Rightarrow> 32 word list" where
  "compress h m = (let (a, b, c, d, e) = foldl (sha1_round m) (h ! 0, h ! 1, h ! 2, h ! 3, h ! 4) [0..<80]
    in [a + h ! 0, b + h ! 1, c + h ! 2, d + h ! 3, e + h ! 4])"

fun blocks :: "bytes \<Rightarrow> bytes list" where
  "blocks m = (if length m < 64 then [] else take 64 m # blocks (drop 64 m))"

declare blocks.simps [simp del]

definition initial_hash :: "32 word list" where
  "initial_hash = [0x67452301, 0xEFCDAB89, 0x98BADCFE, 0x10325476, 0xC3D2E1F0]"

definition length_words :: "nat \<Rightarrow> 32 word \<times> 32 word" where
  "length_words bits = (word_of_nat (bits div 2 ^ 32), word_of_nat bits)"

definition padded :: "bytes \<Rightarrow> bytes" where
  "padded m = m @ [0x80] @ replicate ((119 - length m mod 64) mod 64) 0
    @ be_bytes (fst (length_words (8 * length m))) @ be_bytes (snd (length_words (8 * length m)))"

definition sha1 :: "bytes \<Rightarrow> bytes" where
  "sha1 m = concat (map be_bytes (foldl compress initial_hash (blocks (padded m))))"

section \<open>The code computes the digest\<close>

lemma circular_shift: "0 < n \<Longrightarrow> n < 32 \<Longrightarrow> SHA1CircularShift n w = word_rotl n w"
proof (rule bit_word_eqI)
  fix i
  assume "0 < n" "n < 32" "i < LENGTH(32)"
  then show "bit (SHA1CircularShift n w) i \<longleftrightarrow> bit (word_rotl n w) i"
    by (cases "i < n")
      (auto simp: SHA1CircularShift_def bit_or_iff bit_push_bit_iff bit_drop_bit_eq bit_word_rotl_iff
        le_mod_geq not_less add.commute [of _ i] dest: bit_imp_le_length)
qed

lemma word_sequence_schedule: "word_sequence b = map (schedule b) [0..<80]"
proof -
  have "foldl extend_words (map (block_word b) [0..<16]) [16..<16 + n] = map (schedule b) [0..<16 + n]" for n
  proof (induction n)
    case 0
    show ?case by (simp add: schedule.simps)
  next
    case (Suc n)
    have "[i..<16 + Suc n] = [i..<16 + n] @ [16 + n]" if "i \<le> 16" for i
      using upt_Suc_append [of i "16 + n"] that by simp
    from this [of 0] this [of 16] show ?case
      using Suc.IH by (simp add: extend_words_def circular_shift schedule.simps [of b "16 + n"] del: upt_Suc)
  qed
  from this [of 64] show ?thesis by (simp add: word_sequence_def)
qed

lemma step_round:
  assumes "t < 80" and "W = map (schedule m) [0..<80]" and "\<And>x y z. f x y z = round_mix t x y z"
    and "k = round_constant t"
  shows "sha1_step f k W s t = sha1_round m s t"
  using assms by (cases s) (simp add: sha1_step_def sha1_round_def circular_shift Let_def ac_simps)

lemma steps_rounds:
  assumes "W = map (schedule m) [0..<80]"
    and "\<And>t x y z. t \<in> set ts \<Longrightarrow> t < 80 \<and> f x y z = round_mix t x y z \<and> k = round_constant t"
  shows "foldl (sha1_step f k W) s ts = foldl (sha1_round m) s ts"
  using assms by (intro foldl_cong refl step_round) auto

lemma choose_xor: "(x AND y) XOR (NOT x AND z) = (x AND y) OR (NOT x AND (z :: 32 word))"
  by (rule bit_word_eqI) (auto simp: bit_simps)

lemma majority_xor: "(x AND y) XOR (x AND z) XOR (y AND z) = (x AND y) OR (x AND z) OR (y AND (z :: 32 word))"
  by (rule bit_word_eqI) (auto simp: bit_simps)

lemma round_constants:
  "t \<in> {0..<20} \<Longrightarrow> round_constant t = 0x5A827999" "t \<in> {20..<40} \<Longrightarrow> round_constant t = 0x6ED9EBA1"
  "t \<in> {40..<60} \<Longrightarrow> round_constant t = 0x8F1BBCDC" "t \<in> {60..<80} \<Longrightarrow> round_constant t = 0xCA62C1D6"
proof -
  have "t \<in> {20 * k..<20 * (k + 1)} \<Longrightarrow> t div 20 = k" for k
    by (intro div_nat_eqI) auto
  from this [of 0] this [of 1] this [of 2] this [of 3]
  show "t \<in> {0..<20} \<Longrightarrow> round_constant t = 0x5A827999" "t \<in> {20..<40} \<Longrightarrow> round_constant t = 0x6ED9EBA1"
    "t \<in> {40..<60} \<Longrightarrow> round_constant t = 0x8F1BBCDC" "t \<in> {60..<80} \<Longrightarrow> round_constant t = 0xCA62C1D6"
    by (simp_all add: round_constant_def)
qed

lemma rounds_fold: "sha1_rounds (word_sequence m) s = foldl (sha1_round m) s [0..<80]"
proof -
  have groups:
    "t \<in> set [0..<20] \<Longrightarrow> t < 80 \<and> (x AND y) OR (NOT x AND z) = round_mix t x y z \<and> 0x5A827999 = round_constant t"
    "t \<in> set [20..<40] \<Longrightarrow> t < 80 \<and> x XOR y XOR z = round_mix t x y z \<and> 0x6ED9EBA1 = round_constant t"
    "t \<in> set [40..<60] \<Longrightarrow> t < 80 \<and> (x AND y) OR (x AND z) OR (y AND z) = round_mix t x y z \<and> 0x8F1BBCDC = round_constant t"
    "t \<in> set [60..<80] \<Longrightarrow> t < 80 \<and> x XOR y XOR z = round_mix t x y z \<and> 0xCA62C1D6 = round_constant t" for t x y z
    unfolding set_upt
    by (simp_all only: round_constants simp_thms) (simp_all add: round_mix_def choose_xor majority_xor)
  have "[0..<80] = [0..<20] @ [20..<40] @ [40..<60] @ [60..<(80::nat)]"
    using upt_add_eq_append [of 0 20 60] upt_add_eq_append [of 20 40 40] upt_add_eq_append [of 40 60 20] by simp
  then show ?thesis
    unfolding sha1_rounds_def Let_def
    by (simp only: foldl_append steps_rounds [OF word_sequence_schedule] groups)
qed

lemma process_block:
  "SHA1ProcessMessageBlock c =
    c\<lparr>Intermediate_Hash := compress (Intermediate_Hash c) (Message_Block c), Message_Block_Index := 0\<rparr>"
  by (simp add: SHA1ProcessMessageBlock_def rounds_fold compress_def Let_def ac_simps split: prod.split)

lemma blocks_short: "length m < 64 \<Longrightarrow> blocks m = []"
  by (simp add: blocks.simps)

lemma blocks_one: "length b = 64 \<Longrightarrow> blocks (b @ m) = b # blocks m"
  by (simp add: blocks.simps [of "b @ m"])

lemma blocks_append: "64 dvd length a \<Longrightarrow> blocks (a @ m) = blocks a @ blocks m"
proof (induction a rule: blocks.induct)
  case (1 a)
  show ?case
  proof (cases "length a < 64")
    case True
    then have "a = []" using 1(2) by (auto dest: nat_dvd_not_less)
    then show ?thesis by (simp add: blocks_short)
  next
    case False
    then have "64 dvd length (drop 64 a)" using 1(2) by (simp add: dvd_diff_nat)
    with False have "blocks (drop 64 a @ m) = blocks (drop 64 a) @ blocks m" by (rule 1(1))
    with False show ?thesis by (simp add: blocks.simps [of a] blocks.simps [of "a @ m"])
  qed
qed

definition absorbed :: "bytes \<Rightarrow> bytes \<Rightarrow> sha1_context \<Rightarrow> bool" where
  "absorbed a b c \<longleftrightarrow> 64 dvd length a \<and> length b < 64 \<and> length (Message_Block c) = 64
    \<and> Message_Block_Index c = length b \<and> take (length b) (Message_Block c) = b
    \<and> Intermediate_Hash c = foldl compress initial_hash (blocks a)
    \<and> (Length_High c, Length_Low c) = length_words (8 * (length a + length b))
    \<and> \<not> Computed c \<and> Corrupted c = 0"

text \<open>What a context has absorbed: the complete blocks \<open>a\<close>, of which it keeps the hash, and the bytes \<open>b\<close> of the
  block that is being filled.\<close>

lemma absorbed_reset:
  "length (Message_Block c) = 64 \<Longrightarrow> absorbed [] [] (snd (SHA1Reset c))"
  by (simp add: absorbed_def SHA1Reset_def initial_hash_def blocks_short length_words_def)

lemma word32_of_nat_eq_0: "(word_of_nat n :: 32 word) = 0 \<longleftrightarrow> 2 ^ 32 dvd n"
  by (simp add: word_of_nat_eq_0_iff)

lemma count_byte_length:
  assumes "(Length_High c, Length_Low c) = length_words (8 * n)" and "Suc n < 2 ^ 61" and "Corrupted c = 0"
  shows "count_byte c = c\<lparr>Length_Low := snd (length_words (8 * Suc n)), Length_High := fst (length_words (8 * Suc n)),
    Corrupted := 0\<rparr>"
proof -
  define q where "q = n div 2 ^ 29"
  have bits: "8 * n div 2 ^ 32 = q" "8 * Suc n div 2 ^ 32 = Suc n div 2 ^ 29"
    by (simp_all add: q_def)
  have low: "Length_Low c + 8 = word_of_nat (8 * Suc n)" using assms(1) by (simp add: length_words_def)
  have wrap: "Length_Low c + 8 = 0 \<longleftrightarrow> 2 ^ 29 dvd Suc n"
    unfolding low word32_of_nat_eq_0 using nat_mult_dvd_cancel_disj [of 8 "2 ^ 29" "Suc n"] by simp
  have high: "fst (length_words (8 * Suc n)) = (if 2 ^ 29 dvd Suc n then Length_High c + 1 else Length_High c)"
  proof -
    have "Suc n div 2 ^ 29 = (if 2 ^ 29 dvd Suc n then Suc q else q)"
      unfolding q_def div_Suc dvd_eq_mod_eq_0 by (rule refl)
    moreover have "Length_High c = word_of_nat q" using assms(1) bits(1) by (simp add: length_words_def)
    ultimately show ?thesis unfolding length_words_def fst_conv bits by simp
  qed
  have "fst (length_words (8 * Suc n)) \<noteq> 0" if "2 ^ 29 dvd Suc n"
  proof -
    from that obtain k where k: "Suc n = 2 ^ 29 * k" by blast
    then have "0 < k" "k < 2 ^ 32" using assms(2) by (cases k; simp)+
    then show ?thesis
      unfolding length_words_def bits k by (simp add: word32_of_nat_eq_0) (auto dest: nat_dvd_not_less)
  qed
  then show ?thesis
    using assms(3) high unfolding count_byte_def Let_def wrap by (auto simp: low length_words_def)
qed

lemma put_byte_absorbed:
  assumes "Message_Block_Index c = length b" and "length b < 64" and "length (Message_Block c) = 64"
    and "take (length b) (Message_Block c) = b"
  shows "\<exists>B. put_byte x c = Some (c\<lparr>Message_Block := B, Message_Block_Index := length (b @ [x])\<rparr>)
    \<and> length B = 64 \<and> take (length (b @ [x])) B = b @ [x]"
  using assms by (auto simp: put_byte_def take_Suc_conv_app_nth)

lemma input_byte_absorbed:
  assumes c: "absorbed a b c" and n: "Suc (length a + length b) < 2 ^ 61"
  shows "\<exists>a' b' c'. input_byte x c = Some c' \<and> absorbed a' b' c' \<and> a' @ b' = a @ b @ [x]"
proof -
  obtain B where B: "put_byte x c = Some (c\<lparr>Message_Block := B, Message_Block_Index := length (b @ [x])\<rparr>)"
      "length B = 64" "take (length (b @ [x])) B = b @ [x]"
    using put_byte_absorbed [of c b x] c by (auto simp: absorbed_def)
  let ?c = "c\<lparr>Message_Block := B, Message_Block_Index := length (b @ [x]),
    Length_Low := snd (length_words (8 * Suc (length a + length b))),
    Length_High := fst (length_words (8 * Suc (length a + length b))), Corrupted := 0\<rparr>"
  have count: "count_byte (c\<lparr>Message_Block := B, Message_Block_Index := length (b @ [x])\<rparr>) = ?c"
    by (subst count_byte_length [OF _ n]) (use c in \<open>auto simp: absorbed_def\<close>)
  have step: "input_byte x c = Some (if length (b @ [x]) = 64 then SHA1ProcessMessageBlock ?c else ?c)"
    unfolding input_byte_def B(1) bind.bind_lunit Let_def count by simp
  show ?thesis
  proof (cases "length (b @ [x]) = 64")
    case True
    then have "B = b @ [x]" using B by simp
    moreover from True have "blocks (a @ b @ [x]) = blocks a @ [b @ [x]]"
      using c blocks_one [of "b @ [x]" "[]"] by (simp add: absorbed_def blocks_append blocks_short)
    ultimately have "absorbed (a @ b @ [x]) [] (SHA1ProcessMessageBlock ?c)"
      using c True B(2) by (simp add: absorbed_def process_block blocks_append add.commute)
    then show ?thesis using True step by (intro exI [of _ "a @ b @ [x]"] exI [of _ "[]"]) auto
  next
    case False
    then have "absorbed a (b @ [x]) ?c" using c B by (auto simp: absorbed_def)
    then show ?thesis using False step by (intro exI [of _ a] exI [of _ "b @ [x]"]) auto
  qed
qed

lemma input_loop_absorbed:
  "absorbed a b c \<Longrightarrow> length a + length b + length m < 2 ^ 61 \<Longrightarrow>
    \<exists>a' b' c'. input_loop m c = Some c' \<and> absorbed a' b' c' \<and> a' @ b' = a @ b @ m"
proof (induction m arbitrary: a b c)
  case (Cons x m)
  obtain a' b' c' where step: "input_byte x c = Some c'" "absorbed a' b' c'" "a' @ b' = a @ b @ [x]"
    using input_byte_absorbed [OF Cons.prems(1), of x] Cons.prems(2) by auto
  have "length a' + length b' = length a + length b + 1" using arg_cong [OF step(3), of length] by simp
  with Cons.IH [OF step(2)] Cons.prems(2) obtain a'' b'' c'' where
    "input_loop m c' = Some c''" "absorbed a'' b'' c''" "a'' @ b'' = a' @ b' @ m" by auto
  moreover have "a' @ b' @ m = a @ b @ x # m" using step(3) by (metis append.assoc append_Cons append_Nil)
  ultimately show ?case using Cons.prems(1) step(1) by (auto simp: absorbed_def)
qed auto

lemma SHA1Input_absorbed:
  assumes "absorbed a b c" and "length a + length b + length m < 2 ^ 61"
  shows "\<exists>a' b' c'. SHA1Input c m = Some (shaSuccess, c') \<and> absorbed a' b' c' \<and> a' @ b' = a @ b @ m"
proof (cases "m = []")
  case False
  have "\<not> Computed c" "Corrupted c = 0" using assms(1) by (auto simp: absorbed_def)
  then have "SHA1Input c m = map_option (Pair shaSuccess) (input_loop m c)"
    using False by (cases "input_loop m c") (simp_all add: SHA1Input_def)
  with input_loop_absorbed [OF assms] show ?thesis by fastforce
qed (use assms in \<open>auto simp: SHA1Input_def\<close>)

section \<open>Padding\<close>

lemma put_zeros_fill:
  "Message_Block_Index c + n \<le> 64 \<Longrightarrow> length (Message_Block c) = 64 \<Longrightarrow>
    put_zeros n c = Some (c\<lparr>Message_Block := take (Message_Block_Index c) (Message_Block c) @ replicate n 0
        @ drop (Message_Block_Index c + n) (Message_Block c),
      Message_Block_Index := Message_Block_Index c + n\<rparr>)"
proof (induction n arbitrary: c)
  case (Suc n)
  let ?i = "Message_Block_Index c" and ?B = "Message_Block c"
  have "?B[?i := 0] = take ?i ?B @ [0] @ drop (Suc ?i) ?B"
    using Suc.prems by (simp add: upd_conv_take_nth_drop)
  then show ?case
    using Suc.prems by (simp add: put_byte_def Suc.IH add.commute)
qed simp

lemma put_length_block:
  assumes "length B = 56" and "length L = 8" and "Message_Block c = B @ L"
  shows "put_length c = c\<lparr>Message_Block := B @ be_bytes (Length_High c) @ be_bytes (Length_Low c)\<rparr>"
proof -
  obtain l0 l1 l2 l3 l4 l5 l6 l7 where "L = [l0, l1, l2, l3, l4, l5, l6, l7]"
    using assms(2) by (auto simp: numeral_eq_Suc length_Suc_conv)
  then show ?thesis
    using assms(1,3) by (simp add: put_length_def be_bytes_def list_update_append)
qed

lemma padded_blocks:
  assumes "64 dvd length a" and "length b < 64" and "(high, low) = length_words (8 * (length a + length b))"
  shows "length b \<le> 55 \<Longrightarrow> blocks (padded (a @ b)) =
      blocks a @ [b @ [0x80] @ replicate (55 - length b) 0 @ be_bytes high @ be_bytes low]"
    and "55 < length b \<Longrightarrow> blocks (padded (a @ b)) =
      blocks a @ [b @ [0x80] @ replicate (63 - length b) 0, replicate 56 0 @ be_bytes high @ be_bytes low]"
proof -
  have mod: "length (a @ b) mod 64 = length b" using assms(1,2) by auto
  note pad = padded_def mod assms(3) [symmetric]
  have words: "fst (length_words (8 * length (a @ b))) = high" "snd (length_words (8 * length (a @ b))) = low"
    using assms(3) by (metis fst_conv snd_conv length_append)+
  have one: "blocks xs = [xs]" if "length xs = 64" for xs
    using blocks_one [OF that, of "[]"] by (simp add: blocks_short)
  {
    assume b: "length b \<le> 55"
    then have "(119 - length b) mod 64 = 55 - length b"
      by (simp add: mod_if)
    with b show "blocks (padded (a @ b)) =
        blocks a @ [b @ [0x80] @ replicate (55 - length b) 0 @ be_bytes high @ be_bytes low]"
      unfolding padded_def mod words using assms(1) by (simp add: blocks_append one be_bytes_def)
  next
    assume b: "55 < length b"
    then have "replicate ((119 - length b) mod 64) (0 :: byte) = replicate (63 - length b) 0 @ replicate 56 0"
      using assms(2) by (simp flip: replicate_add)
    with b show "blocks (padded (a @ b)) =
        blocks a @ [b @ [0x80] @ replicate (63 - length b) 0, replicate 56 0 @ be_bytes high @ be_bytes low]"
      unfolding padded_def mod words using assms(1,2) blocks_one [of "b @ [0x80] @ replicate (63 - length b) 0"]
      by (simp add: blocks_append one be_bytes_def)
  }
qed

lemma SHA1PadMessage_hash:
  assumes "absorbed a b c"
  shows "\<exists>c'. SHA1PadMessage c = Some c' \<and> Intermediate_Hash c' = foldl compress initial_hash (blocks (padded (a @ b)))"
proof -
  obtain B where B: "put_byte 0x80 c = Some (c\<lparr>Message_Block := B, Message_Block_Index := length (b @ [0x80])\<rparr>)"
      "length B = 64" "take (length (b @ [0x80])) B = b @ [0x80]"
    using put_byte_absorbed [of c b "0x80"] assms by (auto simp: absorbed_def)
  note abs = assms [unfolded absorbed_def]
  have pads: "64 dvd length a" "length b < 64" "(Length_High c, Length_Low c) = length_words (8 * (length a + length b))"
    using abs by auto
  show ?thesis
  proof (cases "55 < length b")
    case True
    then show ?thesis
      using abs B padded_blocks(2) [OF pads True]
      by (simp add: SHA1PadMessage_def put_zeros_fill process_block
          put_length_block [where B = "replicate 56 0" and L = "drop 56 b @ 128 # replicate (63 - length b) 0"])
  next
    case False
    then have "length b \<le> 55" by simp
    then show ?thesis
      using abs B padded_blocks(1) [OF pads]
      by (simp add: SHA1PadMessage_def put_zeros_fill process_block
          put_length_block [where B = "b @ 0x80 # replicate (55 - length b) 0" and L = "drop 56 B"])
  qed
qed

lemma digest_bytes_words: "length h = 5 \<Longrightarrow> digest_bytes h = concat (map be_bytes h)"
proof -
  assume "length h = 5"
  then obtain h0 h1 h2 h3 h4 where "h = [h0, h1, h2, h3, h4]" by (auto simp: numeral_eq_Suc length_Suc_conv)
  moreover have "[0..<20] = [0, 1, 2, 3, 4, 5, 6, 7, 8, 9, 10, 11, 12, 13, 14, 15, 16, 17, 18, 19 :: nat]"
    by (simp add: upt_rec)
  ultimately show ?thesis by (simp add: digest_bytes_def SHA1HashSize_def be_bytes_def)
qed

lemma length_compress: "length (compress h m) = 5"
  by (simp add: compress_def split: prod.split)

lemma length_hash: "length (foldl compress initial_hash bs) = 5"
  by (induction bs rule: rev_induct) (simp_all add: initial_hash_def length_compress)

lemma SHA1Result_absorbed:
  assumes "absorbed a b c"
  shows "\<exists>c'. SHA1Result c = Some (shaSuccess, sha1 (a @ b), c')"
  using SHA1PadMessage_hash [OF assms] assms
  by (auto simp: SHA1Result_def absorbed_def sha1_def digest_bytes_words length_hash)

section \<open>The digest of a message that comes in pieces\<close>

fun SHA1Inputs :: "sha1_context \<Rightarrow> bytes list \<Rightarrow> (int \<times> sha1_context) option" where
  "SHA1Inputs c [] = Some (shaSuccess, c)"
| "SHA1Inputs c (m # ms) = do {
    (r, c) \<leftarrow> SHA1Input c m;
    if r = shaSuccess then SHA1Inputs c ms else Some (r, c)
  }"

definition digest_of_pieces :: "sha1_context \<Rightarrow> bytes list \<Rightarrow> (int \<times> bytes) option" where
  "digest_of_pieces c ms = do {
    let c = snd (SHA1Reset c);
    (r, c) \<leftarrow> SHA1Inputs c ms;
    if r = shaSuccess then do { (r, digest, c) \<leftarrow> SHA1Result c; Some (r, digest) } else Some (r, [])
  }"

lemma SHA1Inputs_absorbed:
  "absorbed a b c \<Longrightarrow> length a + length b + length (concat ms) < 2 ^ 61 \<Longrightarrow>
    \<exists>a' b' c'. SHA1Inputs c ms = Some (shaSuccess, c') \<and> absorbed a' b' c' \<and> a' @ b' = a @ b @ concat ms"
proof (induction ms arbitrary: a b c)
  case (Cons m ms)
  then obtain a' b' c' where step: "SHA1Input c m = Some (shaSuccess, c')" "absorbed a' b' c'" "a' @ b' = a @ b @ m"
    using SHA1Input_absorbed [of a b c m] by auto
  have "length a' + length b' = length a + length b + length m" using arg_cong [OF step(3), of length] by simp
  with Cons.IH [OF step(2)] Cons.prems(2) obtain a'' b'' c'' where
    "SHA1Inputs c' ms = Some (shaSuccess, c'')" "absorbed a'' b'' c''" "a'' @ b'' = a' @ b' @ concat ms" by auto
  moreover have "a' @ b' @ concat ms = a @ b @ concat (m # ms)" using step(3) by (metis append.assoc concat.simps(2))
  ultimately show ?case using step(1) by auto
qed auto

lemma SHA1_run:
  assumes "length (Message_Block c) = 64" and "length (concat ms) < 2 ^ 61"
  shows "digest_of_pieces c ms = Some (shaSuccess, sha1 (concat ms))"
proof -
  obtain a b c' where "SHA1Inputs (snd (SHA1Reset c)) ms = Some (shaSuccess, c')" "absorbed a b c'" "a @ b = concat ms"
    using SHA1Inputs_absorbed [OF absorbed_reset [OF assms(1)], of ms] assms(2) by auto
  then show ?thesis
    using SHA1Result_absorbed [of a b c'] by (auto simp: digest_of_pieces_def)
qed

text \<open>
  C32: The context of SHA-1, reset and then given a message in any number of pieces of any sizes, yields the digest
  that FIPS 180 defines on the whole message: padding to blocks of 64 bytes, the message schedule, 80 rounds for
  each block.  No store leaves the message block and no call reports an error, as long as the message has less than
  2 ^ 61 bytes (its length in bits then fits the two counters).
\<close>

theorem SHA1_pieces_correct:
  assumes "length (Message_Block c) = 64" and "length (concat ms) < 2 ^ 61"
  shows "digest_of_pieces c ms = Some (shaSuccess, sha1 (concat ms))"
  using assms by (rule SHA1_run)

definition no_context :: sha1_context where
  "no_context = \<lparr>Intermediate_Hash = [], Length_Low = 0, Length_High = 0, Message_Block_Index = 0,
    Message_Block = replicate 64 0, Computed = False, Corrupted = 0\<rparr>"

theorem SHA1_pieces_correct_witness:
  "digest_of_pieces no_context [bytes_of ''a'', [], bytes_of ''bc''] = Some (shaSuccess, sha1 (bytes_of ''abc''))"
  using SHA1_pieces_correct [of no_context "[bytes_of ''a'', [], bytes_of ''bc'']"]
  by (simp add: no_context_def bytes_of_def)

end
