(* ===== verification/FbRequest.thy ===== *)
theory FbRequest
  imports FbConnection Waitress Sha1
begin

text \<open>
  The HTTP side of libfootball (\<open>src/src/libfootball/fb_http.c\<close>): collecting a request line by line, serving files,
  the answers with their headers, and the handshake that turns a connection into a websocket.

  The outside world is the record \<open>web\<close>: the dates that are printed into headers, the files that can be opened,
  and what the stack holds where the code keeps its SHA-1 context.  An operation takes the message store and the
  connection as a pair.  Memory does not run out, so the branches that report it are left out and the results of
  operations that could only fail for that reason are dropped.
\<close>

section \<open>Options and the outside world\<close>

datatype greeting_mode = GREETING_OFF | GREETING_ALLOW | GREETING_FALLBACK | GREETING_REQUIRE

record fb_options =
  line_port :: int
  http_port :: int
  https_port :: int
  opt_greeting :: string
  opt_name :: "string option"
  serve_directory :: "string option"
  opt_mode :: greeting_mode
  transfer_only :: bool
  opt_parent :: "nat option"

text \<open>
  What opening a path gives: no such file, another error, a file that cannot be examined, a directory, or a file with its
  contents, the date of its modification, and whether the date of an If-Modified-Since header is the same.
\<close>

datatype opened = Missing | Forbidden | Unreadable | Folder | File bytes string "string \<Rightarrow> bool"

record web =
  today :: string
  expiry :: string
  open_file :: "string \<Rightarrow> opened"
  stack_context :: sha1_context

type_synonym out_state = "fb_store \<times> fb_connection"

definition HTTP_VERSION :: string where "HTTP_VERSION = ''HTTP/1.1''"
definition WEBSOCKET_GUID :: string where "WEBSOCKET_GUID = ''258EAFA5-E914-47DA-95CA-C5AB0DC85B11''"
definition WEBSOCKET_VERSION :: string where "WEBSOCKET_VERSION = ''13''"
definition eol :: string where "eol = [CHR 0x0D, CHR 0x0A]"

definition write_message :: "string \<Rightarrow> out_state \<Rightarrow> out_state option" where
  "write_message text s = fb_queue_http (bytes_of text) (fst s) (snd s)"

section \<open>Answers\<close>

definition html_body :: "string \<Rightarrow> string option \<Rightarrow> string" where
  "html_body text detail = concat [''<!doctype html>'', eol, ''<html><head>'', eol, ''<title>'', text, ''</title>'', eol,
    ''</head><body>'', eol, ''<h1>'', text, ''</h1>'', eol,
    ''<p>'', (case detail of Some d \<Rightarrow> d | None \<Rightarrow> ''See Figure 1.''), ''</p>'', eol, ''</body></html>'', eol]"

definition http_header :: "web \<Rightarrow> string \<Rightarrow> string option \<Rightarrow> string option \<Rightarrow> out_state \<Rightarrow> out_state option" where
  "http_header w text extra_header detail =
    (let body = html_body text detail in
     write_message (concat [HTTP_VERSION, '' '', text, eol, ''Date: '', today w, eol,
       ''Content-length: '', show_nat (length body), eol, ''Content-type: text/html; charset=utf-8'', eol,
       ''Server: pianod-'', VERSION, eol, (case extra_header of Some h \<Rightarrow> h @ eol | None \<Rightarrow> []), eol, body]))"

definition http_response :: "web \<Rightarrow> string \<Rightarrow> out_state \<Rightarrow> out_state option" where
  "http_response w text = http_header w text None None"

definition http_redirect :: "web \<Rightarrow> string \<Rightarrow> out_state \<Rightarrow> out_state option" where
  "http_redirect w location = http_header w ''301 Permanently moved''
    (Some (''Location: '' @ location))
    (Some (concat [''Try <a href='', [CHR 0x27], location, [CHR 0x27], ''>here</a>.'']))"

text \<open>A NULL host would be printed as \<open>(null)\<close>; the callers have checked it.\<close>

definition redirect_to_subdirectory :: "web \<Rightarrow> fb_options \<Rightarrow> out_state \<Rightarrow> out_state option" where
  "redirect_to_subdirectory w options s =
    (let c = snd s; rq = fb_request c in
     http_redirect w (concat [''http'', if fb_encrypted c then ''s'' else [], ''://'',
       (case rq_host rq of Some h \<Rightarrow> h | None \<Rightarrow> ''(null)''), ''/'',
       (case opt_name options of Some n \<Rightarrow> n @ ''/'' | None \<Rightarrow> []),
       (case rq_filename rq of Some f \<Rightarrow> f @ ''/'' | None \<Rightarrow> [])]) s)"

section \<open>The websocket handshake\<close>

text \<open>A group of up to three bytes; those behind the end of the digest are zero.\<close>

definition encodeblock :: "bytes \<Rightarrow> nat \<Rightarrow> string" where
  "encodeblock b len =
    [b64 (drop_bit 2 (b ! 0)),
     b64 (push_bit 4 (b ! 0 AND 0x03) OR drop_bit 4 (b ! 1 AND 0xf0)),
     (if 1 < len then b64 (push_bit 2 (b ! 1 AND 0x0f) OR drop_bit 6 (b ! 2 AND 0xc0)) else CHR ''=''),
     (if 2 < len then b64 (b ! 2 AND 0x3f) else CHR ''='')]"

definition code_as_text :: "bytes \<Rightarrow> string" where
  "code_as_text accept_code = concat (map (\<lambda>i. encodeblock (drop i (accept_code @ [0, 0, 0]))
      (if 3 \<le> SHA1HashSize - i then 3 else SHA1HashSize - i)) [0, 3, 6, 9, 12, 15, 18])"

text \<open>The length is narrowed to 32 bits on its way to SHA1Input, which takes that many bytes of the text.\<close>

definition narrowed_input :: "bytes \<Rightarrow> bytes" where
  "narrowed_input text = take (unat (word_of_nat (length text) :: 32 word)) text"

definition fb_greet_websocket :: "web \<Rightarrow> out_state \<Rightarrow> (bool \<times> out_state) option" where
  "fb_greet_websocket w s = (case rq_websocket_key (fb_request (snd s)) of
      None \<Rightarrow> None
    | Some key \<Rightarrow> do {
        (r, accept_code) \<leftarrow> digest_of_pieces (stack_context w) [narrowed_input (bytes_of (key @ WEBSOCKET_GUID))];
        if r \<noteq> shaSuccess then Some (False, s)
        else do {
          s \<leftarrow> write_message (concat [''HTTP/1.1 101 Switching Protocols'', eol, ''Upgrade: websocket'', eol,
            ''Connection: Upgrade'', eol, ''Sec-WebSocket-Accept: '']) s;
          s \<leftarrow> write_message (code_as_text accept_code) s;
          s \<leftarrow> write_message eol s;
          s \<leftarrow> (case rq_websocket_protocol (fb_request (snd s)) of
              None \<Rightarrow> Some s
            | Some protocol \<Rightarrow> do {
                s \<leftarrow> write_message ''Sec-WebSocket-Protocol: '' s;
                s \<leftarrow> write_message protocol s;
                write_message eol s });
          s \<leftarrow> write_message eol s;
          Some (True, s)
        }
      })"

section \<open>Collecting a request\<close>

definition fb_destroy_httprequest :: "http_request \<Rightarrow> http_request" where
  "fb_destroy_httprequest rq = blank_request"

definition is_xdigit :: "char \<Rightarrow> bool" where
  "is_xdigit c = (let n = (of_char c :: nat) in 48 \<le> n \<and> n \<le> 57 \<or> 65 \<le> n \<and> n \<le> 70 \<or> 97 \<le> n \<and> n \<le> 102)"

text \<open>The macro; a lower case digit is taken relative to the digit 0.\<close>

definition get_hex_digit :: "char \<Rightarrow> int" where
  "get_hex_digit c = (let n = (of_char c :: int) in
    if 48 \<le> n \<and> n \<le> 57 then n - 48 else if 97 \<le> n \<and> n \<le> 102 then n - 48 + 10 else n - 65 + 10)"

text \<open>
  The loop of url_decode over the buffer, which ends with its NUL: \<open>src\<close> and \<open>dest\<close> are positions in it.  A plain
  character copies from \<open>dest\<close> to \<open>src\<close>, and \<open>dest\<close> stays where it is after an encoded one.  A character of 128 and
  more is negative.
\<close>

definition signed_char :: "int \<Rightarrow> int" where
  "signed_char v = (v + 128) mod 256 - 128"

function url_decode_loop :: "string \<Rightarrow> nat \<Rightarrow> nat \<Rightarrow> bool \<times> string" where
  "url_decode_loop buf src dest =
    (if length buf \<le> src \<or> buf ! src = CHR 0x00 then (True, buf[dest := CHR 0x00])
     else if buf ! src = CHR ''%'' then
       if is_xdigit (buf ! (src + 1)) \<and> is_xdigit (buf ! (src + 2)) then
         (let v = signed_char (get_hex_digit (buf ! (src + 1)) * 16 + get_hex_digit (buf ! (src + 2)));
              buf' = buf[dest := char_of (nat (v mod 256))]
          in if v < 0x20 then (False, buf') else url_decode_loop buf' (src + 3) dest)
       else (False, buf)
     else url_decode_loop (buf[src := buf ! dest]) (src + 1) (dest + 1))"
  by pat_completeness auto
termination
  by (relation "measure (\<lambda>(buf, src, dest). length buf - src)") auto

definition url_decode :: "string \<Rightarrow> bool \<times> string" where
  "url_decode text = (let (ok, buf) = url_decode_loop (text @ [CHR 0x00]) 0 0
    in (ok, takeWhile (\<lambda>c. c \<noteq> CHR 0x00) buf))"

text \<open>\<open>request->invalid = request->invalid && url_decode (...)\<close>: the decoder runs for requests that are invalid already.\<close>

definition decode_if_invalid :: "bool \<Rightarrow> string \<Rightarrow> bool \<times> string" where
  "decode_if_invalid invalid text = (if invalid then url_decode text else (False, text))"

definition fb_collect_http_request :: "fb_options \<Rightarrow> string list \<Rightarrow> http_request \<Rightarrow> http_request option" where
  "fb_collect_http_request options argv rq =
    (if argv = [] then None
     else let rq = (if strcasecmp (argv ! 0) ''head'' = 0 then rq\<lparr>rq_headonly := True\<rparr> else rq) in
     if strcasecmp (argv ! 0) ''head'' \<noteq> 0 \<and> strcasecmp (argv ! 0) ''get'' \<noteq> 0 then Some (rq\<lparr>rq_unsupported := True\<rparr>)
     else if length argv < 3 then Some rq
     else if take 1 (argv ! 1) \<noteq> ''/'' then Some rq
     else
       let path = takeWhile (\<lambda>c. c \<noteq> CHR ''?'') (drop 1 (argv ! 1));
           rq = rq\<lparr>rq_http := Some (argv ! 2)\<rparr>
       in if opt_name options \<noteq> None then
            let service = takeWhile (\<lambda>c. c \<noteq> CHR ''/'') path;
                file = (if CHR ''/'' \<in> set path then Some (drop (length service + 1) path) else None);
                (invalid, file) = (case file of
                    None \<Rightarrow> (rq_invalid rq, None)
                  | Some f \<Rightarrow> let (i, f) = decode_if_invalid (rq_invalid rq) f in (i, Some f));
                (invalid, service) = decode_if_invalid invalid service
            in Some (rq\<lparr>rq_invalid := invalid, rq_service_name := Some service,
                 rq_filename := (if file = None then rq_filename rq else file)\<rparr>)
          else
            let (invalid, path) = decode_if_invalid (rq_invalid rq) path
            in Some (rq\<lparr>rq_invalid := invalid, rq_service_name := Some path, rq_filename := Some path\<rparr>))"

text \<open>store: a second value for the same field makes the request invalid and is ignored.\<close>

definition store_value :: "string option \<Rightarrow> string \<Rightarrow> bool \<times> string option" where
  "store_value old new = (case old of Some v \<Rightarrow> (True, Some v) | None \<Rightarrow> (False, Some new))"

definition put_value ::
    "(http_request \<Rightarrow> string option) \<Rightarrow> ((string option \<Rightarrow> string option) \<Rightarrow> http_request \<Rightarrow> http_request) \<Rightarrow>
     string \<Rightarrow> http_request \<Rightarrow> http_request" where
  "put_value get upd new rq = (let (dup, v) = store_value (get rq) new
    in (upd (\<lambda>_. v) rq)\<lparr>rq_invalid := rq_invalid rq \<or> dup\<rparr>)"

definition fb_collect_http_parameter :: "string \<Rightarrow> http_request \<Rightarrow> http_request" where
  "fb_collect_http_parameter line rq =
    (if CHR '':'' \<notin> set line then rq\<lparr>rq_invalid := True\<rparr>
     else
       let nam = takeWhile (\<lambda>c. c \<noteq> CHR '':'') line;
           val = dropWhile is_space (drop (length nam + 1) line)
       in if strcmp nam ''Host'' = 0 then put_value rq_host rq_host_update val rq
          else if strcmp nam ''Sec-WebSocket-Protocol'' = 0 then put_value rq_websocket_protocol rq_websocket_protocol_update val rq
          else if strcmp nam ''Sec-WebSocket-Version'' = 0 then put_value rq_websocket_version rq_websocket_version_update val rq
          else if strcmp nam ''Sec-WebSocket-Key'' = 0 then put_value rq_websocket_key rq_websocket_key_update val rq
          else if strcmp nam ''Upgrade'' = 0 then put_value rq_upgrade_type rq_upgrade_type_update val rq
          else if strcmp nam ''If-Modified-Since'' = 0 then put_value rq_if_modified_since rq_if_modified_since_update val rq
          else rq)"

definition http_methods :: "string list" where
  "http_methods = [''GET'', ''HEAD'', ''POST'', ''OPTIONS'', ''PUT'', ''DELETE'', ''TRACE'', ''CONNECT'']"

definition fb_http_command :: "string \<Rightarrow> bool" where
  "fb_http_command command = list_ex (\<lambda>m. strcasecmp command m = 0) http_methods"

section \<open>Serving files\<close>

definition media_types :: "(string \<times> string) list" where
  "media_types = [(''jpg'', ''image/jpeg''), (''jpeg'', ''image/jpeg''), (''gif'', ''image/gif''), (''png'', ''image/png''),
    (''html'', ''text/html''), (''html'', ''text/html''), (''txt'', ''text/plain''),
    (''js'', ''application/javascript''), (''css'', ''text/css'')]"

definition get_media_type :: "string \<Rightarrow> string" where
  "get_media_type file =
    (if CHR ''.'' \<in> set file then
       let extension = rev (takeWhile (\<lambda>c. c \<noteq> CHR ''.'') (rev file))
       in (case List.find (\<lambda>(e, t). strcasecmp e extension = 0) media_types of Some (e, t) \<Rightarrow> t | None \<Rightarrow> ''text/plain'')
     else ''text/plain'')"

text \<open>The file is read in pieces of at most 4096 bytes.\<close>

function pieces :: "bytes \<Rightarrow> bytes list" where
  "pieces bs = (if bs = [] then [] else take 4096 bs # pieces (drop 4096 bs))"
  by pat_completeness auto
termination
  by (relation "measure length") auto

declare pieces.simps [simp del]

primrec queue_pieces :: "bytes list \<Rightarrow> out_state \<Rightarrow> out_state option" where
  "queue_pieces [] s = Some s"
| "queue_pieces (b # bs) s = Option.bind (fb_queue_http b (fst s) (snd s)) (queue_pieces bs)"

definition http_serve_data ::
    "web \<Rightarrow> fb_options \<Rightarrow> string \<Rightarrow> opened \<Rightarrow> bool \<Rightarrow> out_state \<Rightarrow> (bool \<times> out_state) option" where
  "http_serve_data w options nam file sendbody s = (case file of
      Folder \<Rightarrow> map_option (Pair True) (redirect_to_subdirectory w options s)
    | File contents modified same \<Rightarrow> do {
        let unchanged = (sendbody \<and> (case rq_if_modified_since (fb_request (snd s)) of Some d \<Rightarrow> same d | None \<Rightarrow> False));
        s \<leftarrow> write_message (concat [HTTP_VERSION, '' '', if unchanged then ''304 Not modified'' else ''200 Ok'', eol,
          ''Date: '', today w, eol, ''Expires: '', expiry w, eol, ''Last-Modified: '', modified, eol,
          ''Content-length: '', show_nat (length contents mod 2 ^ 32), eol, ''Content-type: '', get_media_type nam, eol,
          ''Server: pianod-'', VERSION, eol, eol]) s;
        s \<leftarrow> (if sendbody \<and> \<not> unchanged then queue_pieces (pieces contents) s else Some s);
        Some (True, s)
      }
    | _ \<Rightarrow> map_option (Pair False) (http_response w ''500 Internal server error'' s))"

definition malicious_request :: "string \<Rightarrow> bool" where
  "malicious_request file \<longleftrightarrow> take 1 file = ''.'' \<or> strstr file ''/.''"

definition requested_file :: "string option \<Rightarrow> string" where
  "requested_file name = (case name of
      None \<Rightarrow> ''index.html''
    | Some f \<Rightarrow> if f = [] \<or> last f = CHR ''/'' then f @ ''/index.html'' else f)"

text \<open>The path that http_file_request opens, if it opens one.\<close>

definition served_path :: "fb_options \<Rightarrow> string \<Rightarrow> string option" where
  "served_path options file = (case serve_directory options of
      None \<Rightarrow> None
    | Some d \<Rightarrow> if malicious_request file then None else Some (d @ ''/'' @ file))"

definition http_file_request :: "web \<Rightarrow> fb_options \<Rightarrow> out_state \<Rightarrow> (bool \<times> out_state) option" where
  "http_file_request w options s =
    (let rq = fb_request (snd s); file = requested_file (rq_filename rq) in
     if serve_directory options = None then map_option (Pair True) (http_response w ''503 Service unavailable'' s)
     else (case served_path options file of
         None \<Rightarrow> map_option (Pair True) (http_response w ''406 Not acceptable'' s)
       | Some full_name \<Rightarrow> (case open_file w full_name of
             Missing \<Rightarrow> map_option (Pair True) (http_response w ''404 Not found'' s)
           | Forbidden \<Rightarrow> map_option (Pair True) (http_response w ''401 Unauthorized'' s)
           | f \<Rightarrow> http_serve_data w options file f (\<not> rq_headonly rq) s)))"

section \<open>Executing a request\<close>

text \<open>
  The chain of cases of fb_execute_http_request.  Asking for another service is left to the caller, which knows
  the related services; in all other cases the request is finished.
\<close>

datatype http_step = Served | Upgraded | Other_service string

definition same_name :: "string option \<Rightarrow> string option \<Rightarrow> bool" where
  "same_name a b \<longleftrightarrow> (case (a, b) of (Some x, Some y) \<Rightarrow> strcasecmp x y = 0 | _ \<Rightarrow> False)"

definition finish_request :: "bool \<Rightarrow> out_state \<Rightarrow> http_step \<times> out_state" where
  "finish_request try_again s =
    (let c = (snd s)\<lparr>fb_request := fb_destroy_httprequest (fb_request (snd s))\<rparr> in
     (Served, fst s,
      if try_again then if fb_state c < OPEN then c\<lparr>fb_state := GREETING\<rparr> else c
      else close_connection c))"

definition execute_request :: "web \<Rightarrow> fb_options \<Rightarrow> out_state \<Rightarrow> (http_step \<times> out_state) option" where
  "execute_request w options s =
    (let rq = fb_request (snd s);
         refuse = (\<lambda>text. map_option (finish_request False) (http_response w text s));
         named = (opt_name options \<noteq> None \<and> rq_service_name rq \<noteq> None)
     in if rq_failure rq then refuse ''500 Internal server error''
     else if rq_invalid rq \<or> rq_host rq = None then refuse ''400 Bad request''
     else if rq_unsupported rq then refuse ''405 Unimplemented''
     else if rq_http rq \<noteq> Some HTTP_VERSION then refuse ''505 HTTP Version Not Supported''
     else if named \<and> rq_filename rq = None \<and> rq_upgrade_type rq = None \<and> same_name (rq_service_name rq) (opt_name options)
       then map_option (finish_request True) (redirect_to_subdirectory w options s)
     else if named \<and> rq_upgrade_type rq = None \<and> same_name (rq_service_name rq) (Some [])
       then map_option (finish_request True) (redirect_to_subdirectory w options s)
     else if named \<and> \<not> same_name (rq_service_name rq) (opt_name options)
       then Some (Other_service (the (rq_service_name rq)), s)
     else if rq_upgrade_type rq = None then
       map_option (\<lambda>(again, s). finish_request again s) (http_file_request w options s)
     else if strcasecmp (the (rq_upgrade_type rq)) ''websocket'' \<noteq> 0 then refuse ''501 Not Implemented''
     else if rq_websocket_version rq \<noteq> Some WEBSOCKET_VERSION then
       map_option (finish_request True) (http_header w ''400 Bad Request''
         (Some (''Sec-WebSocket-Version: '' @ WEBSOCKET_VERSION))
         (Some (concat [''Unsupported websocket version.  '', WEBSOCKET_VERSION, '' is supported.''])) s)
     else if rq_websocket_protocol rq \<noteq> None then refuse ''415 Unsupported Media Type''
     else if rq_websocket_key rq = None then refuse ''400 Bad Request''
     else do {
       (ok, s) \<leftarrow> fb_greet_websocket w s;
       Some (if ok then (Upgraded, fst s,
           (snd s)\<lparr>fb_state := OPEN, fb_request := fb_destroy_httprequest (fb_request (snd s))\<rparr>)
         else finish_request False s)
     })"

end
