(* ===== verification/FbInput.thy ===== *)
theory FbInput
  imports FbRequest FbArgv
begin

text \<open>
  What libfootball reads from a connection: bytes into the input buffer, lines (\<open>fb_event.c\<close>) and websocket packets
  (\<open>fb_http.c\<close>).

  \<open>receives\<close> holds what arrives: a call of recv takes the bytes it asks for from the first piece and leaves the rest
  for the next call; an empty piece, like Hung_up, is the end of the connection.  The buffer's \<open>size\<close> is the length of
  \<open>fb_in\<close>.  A failed assertion is None; the library is built with assertions, as everywhere in this development.
\<close>

section \<open>Bytes\<close>

definition fb_set_input_buffer_size :: "nat \<Rightarrow> fb_connection \<Rightarrow> fb_connection option" where
  "fb_set_input_buffer_size n c = (if fb_capacity c < n then Some (c\<lparr>fb_capacity := n + 100\<rparr>) else None)"

definition fb_recv_input :: "nat \<Rightarrow> fb_connection \<Rightarrow> (bool \<times> fb_connection) option" where
  "fb_recv_input byte_count c =
    (if byte_count = 0 \<or> fb_capacity c < length (fb_in c) + byte_count then None
     else (case shd (receives c) of
         Got bs \<Rightarrow>
           if bs = [] then Some (False, close_connection (c\<lparr>receives := stl (receives c)\<rparr>))
           else if length bs \<le> byte_count
           then Some (length bs = byte_count, c\<lparr>fb_in := fb_in c @ bs, receives := stl (receives c)\<rparr>)
           else Some (True, c\<lparr>fb_in := fb_in c @ take byte_count bs,
             receives := Got (drop byte_count bs) ## stl (receives c)\<rparr>)
       | Recv_again \<Rightarrow> Some (False, c\<lparr>receives := stl (receives c)\<rparr>)
       | _ \<Rightarrow> Some (False, close_connection (c\<lparr>receives := stl (receives c)\<rparr>))))"

section \<open>Lines\<close>

text \<open>A line is read byte by byte; the loop may wait for ever for its end, but each call returns when nothing has arrived.\<close>

partial_function (option) fb_get_line_bytes :: "fb_connection \<Rightarrow> (bytes option \<times> fb_connection) option" where
  "fb_get_line_bytes c =
    (if fb_capacity c < length (fb_in c) then None
     else do {
       c \<leftarrow> (if length (fb_in c) = fb_capacity c then fb_set_input_buffer_size (fb_capacity c * 2 + 64) c else Some c);
       (ok, c) \<leftarrow> fb_recv_input 1 c;
       if \<not> ok then Some (None, c)
       else if last (fb_in c) \<noteq> 10 then fb_get_line_bytes c
       else Some (Some (fb_in c), c\<lparr>fb_in := []\<rparr>)
     })"

datatype event_type = EVENT_CONNECT | EVENT_INPUT | EVENT_CLOSE | EVENT_STOPPED | EVENT_ITERATOR | EVENT_ITERATOR_CLOSE
  | EVENT_WRITABLE | EVENT_READABLE | EVENT_FAULTING | EVENT_TIMEOUT

record io_event =
  ev_type :: event_type
  ev_socket :: nat
  ev_connection :: "nat option"
  ev_service :: "nat option"
  ev_command :: string
  ev_argv :: "string list"

text \<open>The line without the returns at its end, as a C string, and its words.\<close>

definition strip_returns :: "bytes \<Rightarrow> bytes" where
  "strip_returns line = rev (dropWhile (\<lambda>b. b = 13 \<or> b = 10) (rev line))"

definition line_event :: "bytes \<Rightarrow> io_event \<Rightarrow> io_event" where
  "line_event line ev = (let command = string_of (takeWhile (\<lambda>b. b \<noteq> 0) line)
    in ev\<lparr>ev_type := EVENT_INPUT, ev_command := command, ev_argv := fst (fb_create_argv command)\<rparr>)"

text \<open>getline of a file that is executed as a connection: up to and with the next newline.\<close>

definition file_line :: "bytes \<Rightarrow> bytes \<times> bytes" where
  "file_line text = (let l = takeWhile (\<lambda>b. b \<noteq> 10) text; rest = dropWhile (\<lambda>b. b \<noteq> 10) text
    in (l @ take 1 rest, drop 1 rest))"

definition fb_read_line_input :: "io_event \<Rightarrow> fb_connection \<Rightarrow> (io_event option \<times> fb_connection) option" where
  "fb_read_line_input ev c =
    (if fb_filename c \<noteq> None then
       if fb_file c = [] then Some (None, close_connection c)
       else let (line, rest) = file_line (fb_file c)
         in Some (Some (line_event (strip_returns line) ev), c\<lparr>fb_file := rest\<rparr>)
     else do {
       (line, c) \<leftarrow> fb_get_line_bytes c;
       Some (map_option (\<lambda>l. line_event (strip_returns l) ev) line, c)
     })"

section \<open>Websocket packets\<close>

definition perform_unmask :: "bytes \<Rightarrow> bytes \<Rightarrow> bytes" where
  "perform_unmask text key = map (\<lambda>i. text ! i XOR key ! (i mod 4)) [0..<length text]"

definition fb_get_http_bytes :: "nat \<Rightarrow> fb_connection \<Rightarrow> (bool \<times> fb_connection) option" where
  "fb_get_http_bytes n c =
    (if n < length (fb_in c) then None
     else if length (fb_in c) = n then Some (True, c)
     else do {
       c \<leftarrow> (if fb_capacity c < n then fb_set_input_buffer_size (n + 128) c else Some c);
       fb_recv_input (n - length (fb_in c)) c
     })"

definition WSOC_TEXT :: byte where "WSOC_TEXT = 1"
definition WSOC_BINARY :: byte where "WSOC_BINARY = 2"
definition WSOC_CLOSE :: byte where "WSOC_CLOSE = 8"
definition WSOC_PING :: byte where "WSOC_PING = 9"
definition WSOC_PONG :: byte where "WSOC_PONG = 10"
definition WSOC_MASK :: byte where "WSOC_MASK = 15"

text \<open>The length in the header: 7 bits, 16 bits, or 64 bits of which the upper half must be zero.\<close>

definition length_size :: "byte \<Rightarrow> nat" where
  "length_size b = (let n = b AND 0x7f in if n = 126 then 2 else if n = 127 then 8 else 0)"

definition data_length :: "bytes \<Rightarrow> nat" where
  "data_length header = (case length_size (header ! 1) of
      0 \<Rightarrow> unat (header ! 1 AND 0x7f)
    | k \<Rightarrow> foldl (\<lambda>n b. n * 256 + unat b) 0 (take k (drop 2 header)))"

definition too_long :: "bytes \<Rightarrow> bool" where
  "too_long header \<longleftrightarrow> length_size (header ! 1) = 8 \<and> take 4 (drop 2 header) \<noteq> [0, 0, 0, 0]"

text \<open>
  What is done with a complete packet: \<open>packet\<close> has the mask bit cleared and the payload unmasked, but still carries the four
  bytes of the mask.
\<close>

definition handle_packet :: "byte \<Rightarrow> bytes \<Rightarrow> bytes \<Rightarrow> io_event \<Rightarrow> out_state \<Rightarrow> (io_event option \<times> out_state) option" where
  "handle_packet opcode packet payload ev s =
    (if opcode = WSOC_CLOSE then do {
       (st, c) \<leftarrow> fb_queue_http packet (fst s) (snd s);
       Some (None, st, close_connection c)
     }
     else if opcode = WSOC_PING then do {
       s \<leftarrow> fb_queue_http (packet[0 := WSOC_PONG]) (fst s) (snd s);
       Some (None, s)
     }
     else if opcode = WSOC_PONG then None
     else if opcode = WSOC_TEXT \<or> opcode = WSOC_BINARY then Some (Some (line_event payload ev), s)
     else Some (None, fst s, close_connection (snd s)))"

definition fb_read_websocket_input :: "io_event \<Rightarrow> out_state \<Rightarrow> (io_event option \<times> out_state) option" where
  "fb_read_websocket_input ev s = do {
    (ok, c) \<leftarrow> fb_get_http_bytes 2 (snd s);
    if \<not> ok then Some (None, fst s, c)
    else do {
      let opcode = (fb_in c ! 0) AND WSOC_MASK;
      let size1 = fb_in c ! 1;
      if size1 AND 0x80 = 0 then Some (None, fst s, close_connection c)
      else do {
        let header_size = 2 + length_size size1 + 4;
        (ok, c) \<leftarrow> fb_get_http_bytes header_size c;
        if \<not> ok \<or> too_long (fb_in c) then Some (None, fst s, c)
        else do {
          let n = data_length (fb_in c);
          (ok, c) \<leftarrow> fb_get_http_bytes (header_size + n) c;
          if \<not> ok then Some (None, fst s, c)
          else do {
            let buffer = fb_in c;
            let key = take 4 (drop (header_size - 4) buffer);
            let payload = perform_unmask (drop header_size buffer) key;
            let packet = ((take header_size buffer)[1 := size1 AND 0x7f]) @ payload;
            handle_packet opcode packet payload ev (fst s, c\<lparr>fb_in := []\<rparr>)
          }
        }
      }
    }
  }"

end
