(* ===== verification/FbService.thy ===== *)
theory FbService
  imports FbInput
begin

text \<open>
  Services and connections of libfootball as a whole (\<open>src/src/libfootball/fb_service.c\<close>), with the registry of sockets
  of \<open>fb_socketmgr.c\<close>.

  The state \<open>football\<close> holds what the C code keeps in its heap and in static variables: the message blocks, the services
  and connections by their addresses (None for memory that is free), the registry \<open>sockets\<close>, the stack of services that wait to be
  reaped, the event that is queued, and what the last select brought.  The array of sockets is a function with
  the bound \<open>maxsockets\<close>; a bit of \<open>select_state\<close> is kept with the thing it belongs to: reading, writing and buffering with a connection,
  reading with a listener (\<open>sv_listening\<close>).  Addresses are taken from a counter and never used again.
  What the operating system answers is passed to the operations.  The library is built with TLS and IPv6.
\<close>

section \<open>State\<close>

datatype socketid = LINE_IP4 | LINE_IP6 | HTTP_IP4 | HTTP_IP6 | HTTPS_IP4 | HTTPS_IP6

definition socket_ids :: "socketid list" where
  "socket_ids = [LINE_IP4, LINE_IP6, HTTP_IP4, HTTP_IP6, HTTPS_IP4, HTTPS_IP6]"

definition fb_http_socket :: "socketid \<Rightarrow> bool" where
  "fb_http_socket i \<longleftrightarrow> i = HTTP_IP4 \<or> i = HTTP_IP6 \<or> i = HTTPS_IP4 \<or> i = HTTPS_IP6"

definition fb_ip6_socket :: "socketid \<Rightarrow> bool" where
  "fb_ip6_socket i \<longleftrightarrow> i = LINE_IP6 \<or> i = HTTP_IP6 \<or> i = HTTPS_IP6"

definition fb_encrypted_socket :: "socketid \<Rightarrow> bool" where
  "fb_encrypted_socket i \<longleftrightarrow> i = HTTPS_IP4 \<or> i = HTTPS_IP6"

record fb_service_t =
  sv_state :: conn_state
  sv_options :: fb_options
  sv_socket :: "socketid \<Rightarrow> nat"
  sv_listening :: "nat set"
  sv_connections :: "nat list"
  sv_shutdown_done :: bool
  sv_next_child :: "nat option"

datatype thing = Service_socket nat | Connection_socket nat | User_socket nat

record football =
  blocks :: fb_store
  fb_services :: "nat \<Rightarrow> fb_service_t option"
  fb_connections :: "nat \<Rightarrow> fb_connection option"
  next_address :: nat
  sockets :: "nat \<Rightarrow> thing option"
  maxsockets :: nat
  activesockets :: nat
  reapq :: "nat list"
  queued_event :: "io_event option"
  open_services :: int
  last_reading :: "nat set"
  last_writing :: "nat set"
  tls_currently_buffering :: bool

definition put_service :: "nat \<Rightarrow> fb_service_t \<Rightarrow> football \<Rightarrow> football" where
  "put_service s v W = W\<lparr>fb_services := (fb_services W)(s \<mapsto> v)\<rparr>"

definition put_connection :: "nat \<Rightarrow> fb_connection \<Rightarrow> football \<Rightarrow> football" where
  "put_connection k c W = W\<lparr>fb_connections := (fb_connections W)(k \<mapsto> c)\<rparr>"

text \<open>An operation on the message blocks and one connection.\<close>

definition with_connection ::
    "nat \<Rightarrow> (fb_store \<Rightarrow> fb_connection \<Rightarrow> ('a \<times> fb_store \<times> fb_connection) option) \<Rightarrow> football \<Rightarrow> ('a \<times> football) option" where
  "with_connection k f W = do {
    c \<leftarrow> fb_connections W k;
    (r, st, c) \<leftarrow> f (blocks W) c;
    Some (r, put_connection k c (W\<lparr>blocks := st\<rparr>))
  }"

definition fb_services_are_open :: "football \<Rightarrow> bool" where
  "fb_services_are_open W \<longleftrightarrow> 0 < open_services W"

section \<open>The registry\<close>

definition FD_SETSIZE :: nat where
  "FD_SETSIZE = 1024"

definition fb_schedule_reap :: "nat \<Rightarrow> football \<Rightarrow> football" where
  "fb_schedule_reap s W = W\<lparr>reapq := s # reapq W\<rparr>"

definition fb_queue_event :: "io_event \<Rightarrow> football \<Rightarrow> football option" where
  "fb_queue_event ev W = (if queued_event W = None then Some (W\<lparr>queued_event := Some ev\<rparr>) else None)"

definition registry_size :: "nat \<Rightarrow> nat \<Rightarrow> nat" where
  "registry_size old fd = (let n = old + old div 4 + 10; n = (if n \<le> fd then fd + 10 else n) in min n FD_SETSIZE)"

definition set_reading :: "nat \<Rightarrow> thing \<Rightarrow> football \<Rightarrow> football option" where
  "set_reading fd t W = (case t of
      Service_socket s \<Rightarrow> map_option (\<lambda>v. put_service s (v\<lparr>sv_listening := insert fd (sv_listening v)\<rparr>) W) (fb_services W s)
    | Connection_socket k \<Rightarrow> map_option (\<lambda>c. put_connection k (c\<lparr>reading := True\<rparr>) W) (fb_connections W k)
    | User_socket u \<Rightarrow> Some W)"

definition fb_register :: "nat \<Rightarrow> thing \<Rightarrow> football \<Rightarrow> (bool \<times> football) option" where
  "fb_register fd t W =
    (if FD_SETSIZE \<le> fd then Some (False, W)
     else do {
       let W = (if maxsockets W \<le> fd then W\<lparr>maxsockets := registry_size (maxsockets W) fd\<rparr> else W);
       if sockets W fd \<noteq> None then None
       else do {
         W \<leftarrow> set_reading fd t (W\<lparr>sockets := (sockets W)(fd \<mapsto> t)\<rparr>);
         Some (True, if activesockets W \<le> fd then W\<lparr>activesockets := fd + 1\<rparr> else W)
       }
     })"

fun shrink :: "(nat \<Rightarrow> thing option) \<Rightarrow> nat \<Rightarrow> nat" where
  "shrink so 0 = 0"
| "shrink so (Suc n) = (if so n = None then shrink so n else Suc n)"

text \<open>
  The bits that fb_unregister clears belong to a connection that is about to be freed or to a listener that is closed;
  those of the last select are cleared as well.
\<close>

definition fb_unregister :: "nat \<Rightarrow> football \<Rightarrow> football option" where
  "fb_unregister fd W =
    (if fd = 0 \<or> maxsockets W \<le> fd \<or> sockets W fd = None then None
     else let so = (sockets W)(fd := None)
       in Some (W\<lparr>sockets := so, activesockets := shrink so (activesockets W),
         last_reading := last_reading W - {fd}, last_writing := last_writing W - {fd}\<rparr>))"

text \<open>What fb_set_socket_select_flags asserts.\<close>

definition selectable :: "football \<Rightarrow> nat \<Rightarrow> bool" where
  "selectable W fd \<longleftrightarrow> 0 < fd \<and> fd < activesockets W \<and> sockets W fd \<noteq> None"

definition fb_set_buffering :: "nat \<Rightarrow> bool \<Rightarrow> football \<Rightarrow> football option" where
  "fb_set_buffering k enable W = do {
    c \<leftarrow> fb_connections W k;
    if selectable W (fb_socket c)
    then Some (put_connection k (c\<lparr>buffering := enable\<rparr>) (W\<lparr>tls_currently_buffering := tls_currently_buffering W \<or> enable\<rparr>))
    else None
  }"

definition fb_accept_input_on :: "nat \<Rightarrow> bool \<Rightarrow> bool \<Rightarrow> football \<Rightarrow> football option" where
  "fb_accept_input_on k inp tls_pending W = do {
    c \<leftarrow> fb_connections W k;
    if fb_state c \<noteq> OPEN \<or> \<not> selectable W (fb_socket c) then None
    else do {
      let W = put_connection k (c\<lparr>reading := inp\<rparr>) W;
      if \<not> inp then fb_set_buffering k False W
      else if fb_encrypted c then fb_set_buffering k tls_pending W
      else Some W
    }
  }"

section \<open>Connections\<close>

definition fb_close_conn :: "nat \<Rightarrow> football \<Rightarrow> football option" where
  "fb_close_conn k W = do {
    c \<leftarrow> fb_connections W k;
    if selectable W (fb_socket c) then Some (put_connection k (close_connection c) W) else None
  }"

definition fb_remove_connection_from_service :: "nat \<Rightarrow> nat \<Rightarrow> football \<Rightarrow> football option" where
  "fb_remove_connection_from_service s k W = do {
    v \<leftarrow> fb_services W s;
    if k \<notin> set (sv_connections v) then None
    else Some (put_service s (v\<lparr>sv_connections := remove1 k (sv_connections v)\<rparr>) W)
  }"

definition fb_transfer :: "nat \<Rightarrow> nat \<Rightarrow> football \<Rightarrow> football option" where
  "fb_transfer k s W = do {
    c \<leftarrow> fb_connections W k;
    W \<leftarrow> fb_remove_connection_from_service (fb_service c) k W;
    v \<leftarrow> fb_services W s;
    Some (put_connection k (c\<lparr>fb_service := s\<rparr>) (put_service s (v\<lparr>sv_connections := sv_connections v @ [k]\<rparr>) W))
  }"

text \<open>
  The search among the related services follows the links from the parent.  A service without a name would be
  compared through a NULL pointer.
\<close>

partial_function (option) find_related :: "football \<Rightarrow> string \<Rightarrow> nat option \<Rightarrow> nat option option" where
  "find_related W wanted p = (case p of
      None \<Rightarrow> Some None
    | Some s \<Rightarrow> do {
        v \<leftarrow> fb_services W s;
        n \<leftarrow> opt_name (sv_options v);
        if strcasecmp n wanted = 0 then Some (Some s) else find_related W wanted (sv_next_child v)
      })"

definition fb_transfer_by_name :: "nat \<Rightarrow> string \<Rightarrow> football \<Rightarrow> (bool \<times> football) option" where
  "fb_transfer_by_name k wanted W = do {
    c \<leftarrow> fb_connections W k;
    v \<leftarrow> fb_services W (fb_service c);
    found \<leftarrow> find_related W wanted (Some (case opt_parent (sv_options v) of Some p \<Rightarrow> p | None \<Rightarrow> fb_service c));
    (case found of
        None \<Rightarrow> Some (False, W)
      | Some s \<Rightarrow> map_option (Pair True) (fb_transfer k s W))
  }"

definition fb_destroy_connection :: "nat \<Rightarrow> football \<Rightarrow> football option" where
  "fb_destroy_connection k W = do {
    c \<leftarrow> fb_connections W k;
    W \<leftarrow> fb_remove_connection_from_service (fb_service c) k W;
    W \<leftarrow> fb_unregister (fb_socket c) W;
    (_, st) \<leftarrow> fb_queue_destroy (fb_assembly c) (blocks W);
    (_, st) \<leftarrow> fb_queue_destroy (fb_out c) st;
    Some (W\<lparr>blocks := st, fb_connections := (fb_connections W)(k := None)\<rparr>)
  }"

text \<open>What arrives with a new connection: whether TLS could be set up, the descriptor, and the bytes to come.\<close>

record arrival =
  ar_tls :: bool
  ar_socket :: "nat option"
  ar_sends :: "send_result stream"
  ar_receives :: "recv_result stream"
  ar_handshakes :: "handshake_result stream"

definition fb_new_connection :: "nat \<Rightarrow> arrival \<Rightarrow> nat \<Rightarrow> fb_connection" where
  "fb_new_connection s a fd = \<lparr>fb_socket = fd, fb_service = s, fb_state = TLS_HANDSHAKE, fb_greeted = False, fb_http = False,
    fb_encrypted = False, fb_request = blank_request, fb_assembly = empty_queue, fb_out = empty_queue, fb_in = [],
    fb_capacity = 0, fb_filename = None, fb_file = [], reading = False, writing = False, buffering = False,
    sends = ar_sends a, receives = ar_receives a, handshakes = ar_handshakes a, sent = []\<rparr>"

definition first_state :: "greeting_mode \<Rightarrow> socketid \<Rightarrow> conn_state" where
  "first_state mode i = (if fb_encrypted_socket i then TLS_HANDSHAKE
     else if fb_http_socket i \<or> mode = GREETING_REQUIRE \<or> mode = GREETING_FALLBACK then GREETING else OPEN)"

definition add_connection :: "nat \<Rightarrow> fb_service_t \<Rightarrow> fb_connection \<Rightarrow> football \<Rightarrow> nat \<times> football" where
  "add_connection s v c W = (let k = next_address W
    in (k, put_connection k c (put_service s (v\<lparr>sv_connections := sv_connections v @ [k]\<rparr>) (W\<lparr>next_address := k + 1\<rparr>))))"

definition fb_accept_connection :: "nat \<Rightarrow> socketid \<Rightarrow> arrival \<Rightarrow> football \<Rightarrow> (nat option \<times> football) option" where
  "fb_accept_connection s i a W = do {
    v \<leftarrow> fb_services W s;
    if fb_encrypted_socket i \<and> \<not> ar_tls a then Some (None, W)
    else (case ar_socket a of
        None \<Rightarrow> Some (None, W)
      | Some fd \<Rightarrow>
          let c = (fb_new_connection s a fd)\<lparr>fb_http := fb_http_socket i, fb_encrypted := fb_encrypted_socket i,
              fb_state := first_state (opt_mode (sv_options v)) i\<rparr>;
            (k, W) = add_connection s v c W
          in Some (Some k, W))
  }"

text \<open>A file that is executed: the descriptor and the contents if it could be opened.\<close>

definition fb_accept_file :: "nat \<Rightarrow> string \<Rightarrow> (nat \<times> bytes) option \<Rightarrow> football \<Rightarrow> (io_event option \<times> football) option" where
  "fb_accept_file s file opened W = do {
    v \<leftarrow> fb_services W s;
    if file = [] then None
    else (case opened of
        None \<Rightarrow> Some (None, W)
      | Some (fd, contents) \<Rightarrow> do {
          let c = (fb_new_connection s \<lparr>ar_tls = False, ar_socket = None, ar_sends = sconst Send_error,
              ar_receives = sconst Recv_error, ar_handshakes = sconst Handshake_failed\<rparr> fd)
            \<lparr>fb_state := OPEN, fb_filename := Some file, fb_file := contents\<rparr>;
          let k = next_address W;
          (ok, W') \<leftarrow> fb_register fd (Connection_socket k) (put_connection k c (W\<lparr>next_address := k + 1\<rparr>));
          if ok then Some (Some \<lparr>ev_type = EVENT_CONNECT, ev_socket = fd, ev_connection = Some k, ev_service = Some s,
              ev_command = [], ev_argv = []\<rparr>, put_service s (v\<lparr>sv_connections := sv_connections v @ [k]\<rparr>) W')
          else Some (None, W)
        })
  }"

section \<open>Services\<close>

text \<open>What the system calls for a listening socket bring: the descriptor, if there is one, and whether it could be bound.\<close>

type_synonym socket_results = "socketid \<Rightarrow> (nat \<times> bool) option"

definition socket_port :: "fb_options \<Rightarrow> socketid \<Rightarrow> int" where
  "socket_port options i = (if fb_http_socket i
     then if fb_encrypted_socket i then https_port options else http_port options
     else line_port options)"

definition fb_setup_socket :: "nat \<Rightarrow> socket_results \<Rightarrow> socketid \<Rightarrow> football \<Rightarrow> (bool \<times> football) option" where
  "fb_setup_socket s results i W = do {
    v \<leftarrow> fb_services W s;
    if socket_port (sv_options v) i mod 65536 = 0 then Some (False, W)
    else (case results i of
        None \<Rightarrow> Some (False, W)
      | Some (fd, bound) \<Rightarrow> do {
          (ok, W') \<leftarrow> (if bound
            then fb_register fd (Service_socket s) (put_service s (v\<lparr>sv_socket := (sv_socket v)(i := fd)\<rparr>) W)
            else Some (False, W));
          Some (if ok then (True, W') else (False, W))
        })
  }"

primrec setup_sockets :: "nat \<Rightarrow> socket_results \<Rightarrow> socketid list \<Rightarrow> football \<Rightarrow> (nat \<times> football) option" where
  "setup_sockets s results [] W = Some (0, W)"
| "setup_sockets s results (i # is) W = do {
    (ok, W) \<leftarrow> fb_setup_socket s results i W;
    (n, W) \<leftarrow> setup_sockets s results is W;
    Some ((if ok then 1 else 0) + n, W)
  }"

text \<open>The options that a service keeps: with a greeting, and the directory of its parent if it has none.\<close>

definition kept_options :: "fb_options \<Rightarrow> fb_options option \<Rightarrow> string option \<Rightarrow> fb_options" where
  "kept_options options parent greeting = options\<lparr>
     opt_greeting := (case greeting of Some g \<Rightarrow> g
       | None \<Rightarrow> (case parent of Some p \<Rightarrow> opt_greeting p | None \<Rightarrow> ''HELO'')),
     serve_directory := (case (serve_directory options, parent) of
         (None, Some p) \<Rightarrow> serve_directory p
       | _ \<Rightarrow> serve_directory options)\<rparr>"

definition parent_ok :: "fb_options \<Rightarrow> football \<Rightarrow> bool" where
  "parent_ok options W \<longleftrightarrow> (case opt_parent options of
      None \<Rightarrow> True
    | Some p \<Rightarrow> (case fb_services W p of
        None \<Rightarrow> False
      | Some v \<Rightarrow> opt_parent (sv_options v) = None
          \<and> (case (opt_name options, opt_name (sv_options v)) of (Some a, Some b) \<Rightarrow> strcasecmp a b \<noteq> 0 | _ \<Rightarrow> False)))"

definition link_child :: "nat \<Rightarrow> nat option \<Rightarrow> football \<Rightarrow> football option" where
  "link_child s parent W = (case parent of
      None \<Rightarrow> Some W
    | Some p \<Rightarrow> do {
        pv \<leftarrow> fb_services W p;
        v \<leftarrow> fb_services W s;
        Some (put_service p (pv\<lparr>sv_next_child := Some s\<rparr>) (put_service s (v\<lparr>sv_next_child := sv_next_child pv\<rparr>) W))
      })"

definition fb_create_service ::
    "fb_options \<Rightarrow> string option \<Rightarrow> socket_results \<Rightarrow> football \<Rightarrow> (nat option \<times> football) option" where
  "fb_create_service options greeting results W =
    (if line_port options = 0 \<and> http_port options = 0 \<and> https_port options = 0 \<and> \<not> transfer_only options then None
     else if \<not> parent_ok options W then None
     else do {
       let s = next_address W;
       let kept = kept_options options
         (case opt_parent options of None \<Rightarrow> None | Some p \<Rightarrow> map_option sv_options (fb_services W p)) greeting;
       (n, W') \<leftarrow> setup_sockets s results socket_ids (put_service s \<lparr>sv_state = TLS_HANDSHAKE, sv_options = kept,
           sv_socket = (\<lambda>_. 0), sv_listening = {}, sv_connections = [], sv_shutdown_done = False, sv_next_child = None\<rparr>
         (W\<lparr>next_address := s + 1\<rparr>));
       if 0 < n \<or> transfer_only options then do {
         v \<leftarrow> fb_services W' s;
         W' \<leftarrow> link_child s (opt_parent options) (put_service s (v\<lparr>sv_state := OPEN\<rparr>)
           (W'\<lparr>open_services := open_services W' + 1\<rparr>));
         Some (Some s, W')
       } else Some (None, W'\<lparr>fb_services := (fb_services W')(s := None)\<rparr>)
     })"

primrec close_all :: "nat list \<Rightarrow> football \<Rightarrow> football option" where
  "close_all [] W = Some W"
| "close_all (k # ks) W = Option.bind (fb_close_conn k W) (close_all ks)"

definition open_sockets :: "fb_service_t \<Rightarrow> nat list" where
  "open_sockets v = filter (\<lambda>fd. fd \<noteq> 0) (map (sv_socket v) socket_ids)"

definition fb_shut_service :: "nat \<Rightarrow> football \<Rightarrow> football option" where
  "fb_shut_service s W = do {
    v \<leftarrow> fb_services W s;
    if sv_state v \<noteq> OPEN then None
    else do {
      W \<leftarrow> close_all (sv_connections v) (put_service s (v\<lparr>sv_state := CLOSING\<rparr>) W);
      if \<not> list_all (selectable W) (open_sockets v) then None
      else do {
        let W = put_service s (v\<lparr>sv_state := CLOSING, sv_listening := sv_listening v - set (open_sockets v)\<rparr>) W;
        Some (if sv_connections v = [] then fb_schedule_reap s W else W)
      }
    }
  }"

primrec unregister_all :: "nat list \<Rightarrow> football \<Rightarrow> football option" where
  "unregister_all [] W = Some W"
| "unregister_all (fd # fds) W = Option.bind (fb_unregister fd W) (unregister_all fds)"

text \<open>The node whose next child is the service, in the list that begins with its parent.\<close>

partial_function (option) previous_child :: "football \<Rightarrow> nat \<Rightarrow> nat \<Rightarrow> nat option" where
  "previous_child W s p = do {
    v \<leftarrow> fb_services W p;
    if sv_next_child v = Some s then Some p
    else Option.bind (sv_next_child v) (previous_child W s)
  }"

partial_function (option) orphan :: "nat option \<Rightarrow> football \<Rightarrow> football option" where
  "orphan p W = (case p of
      None \<Rightarrow> Some W
    | Some s \<Rightarrow> do {
        v \<leftarrow> fb_services W s;
        orphan (sv_next_child v)
          (put_service s (v\<lparr>sv_options := (sv_options v)\<lparr>opt_parent := None\<rparr>, sv_next_child := None\<rparr>) W)
      })"

definition fb_destroy_service :: "nat \<Rightarrow> football \<Rightarrow> football option" where
  "fb_destroy_service s W = do {
    v \<leftarrow> fb_services W s;
    if sv_connections v \<noteq> [] then None
    else do {
      W \<leftarrow> unregister_all (open_sockets v) W;
      W \<leftarrow> (case opt_parent (sv_options v) of
          Some p \<Rightarrow> do {
            q \<leftarrow> previous_child W s p;
            node \<leftarrow> fb_services W q;
            Some (put_service q (node\<lparr>sv_next_child := sv_next_child v\<rparr>) W)
          }
        | None \<Rightarrow> orphan (sv_next_child v) W);
      Some (W\<lparr>fb_services := (fb_services W)(s := None), open_services := open_services W - 1\<rparr>)
    }
  }"

section \<open>Iterators and broadcasts\<close>

record fb_iterator =
  it_service :: nat
  iteration :: nat

definition fb_new_iterator :: "nat \<Rightarrow> football \<Rightarrow> fb_iterator option" where
  "fb_new_iterator s W = map_option (\<lambda>v. \<lparr>it_service = s, iteration = length (sv_connections v)\<rparr>) (fb_services W s)"

fun iterate_from :: "football \<Rightarrow> nat \<Rightarrow> nat list \<Rightarrow> nat \<Rightarrow> (io_event option \<times> nat) option" where
  "iterate_from W s ks 0 = Some (None, 0)"
| "iterate_from W s ks (Suc n) =
    (if length ks \<le> n then None
     else case fb_connections W (ks ! n) of
       None \<Rightarrow> None
     | Some c \<Rightarrow> if fb_state c < OPEN then iterate_from W s ks n
         else Some (Some \<lparr>ev_type = (if fb_state c = OPEN then EVENT_ITERATOR else EVENT_ITERATOR_CLOSE),
           ev_socket = fb_socket c, ev_connection = Some (ks ! n), ev_service = Some s, ev_command = [], ev_argv = []\<rparr>, n))"

definition fb_iterate_next :: "fb_iterator \<Rightarrow> football \<Rightarrow> (io_event option \<times> fb_iterator) option" where
  "fb_iterate_next it W = do {
    v \<leftarrow> fb_services W (it_service it);
    (ev, n) \<leftarrow> iterate_from W (it_service it) (sv_connections v) (iteration it);
    Some (ev, it\<lparr>iteration := n\<rparr>)
  }"

primrec broadcast_to :: "nat list \<Rightarrow> nat \<Rightarrow> football \<Rightarrow> football option" where
  "broadcast_to [] a W = Some W"
| "broadcast_to (k # ks) a W = do {
    c \<leftarrow> fb_connections W k;
    W \<leftarrow> (if fb_state c \<noteq> CLOSING \<and> fb_filename c = None
      then map_option snd (with_connection k (fb_queue_single a) (W\<lparr>blocks := use_message a (blocks W)\<rparr>))
      else Some W);
    broadcast_to ks a W
  }"

definition free_message :: "nat \<Rightarrow> football \<Rightarrow> football option" where
  "free_message a W = map_option (\<lambda>st. W\<lparr>blocks := st\<rparr>) (fb_messagefree a (blocks W))"

definition fb_queue_broadcast :: "nat \<Rightarrow> nat \<Rightarrow> football \<Rightarrow> (int \<times> football) option" where
  "fb_queue_broadcast s a W =
    (let n = length (msg_text (blocks W) a) in
     if n = 0 then map_option (Pair 0) (free_message a W)
     else do {
       v \<leftarrow> fb_services W s;
       W \<leftarrow> broadcast_to (sv_connections v) a W;
       W \<leftarrow> free_message a W;
       Some (int n, W)
     })"

text \<open>The receivers of a message, told apart by their type numbers.\<close>

datatype receiver = To_service nat | To_connection nat | To_event io_event

definition fb_queue_message :: "receiver \<Rightarrow> nat \<Rightarrow> bool \<Rightarrow> football \<Rightarrow> (int \<times> football) option" where
  "fb_queue_message thing a broadcast W = (case thing of
      To_service s \<Rightarrow> fb_queue_broadcast s a W
    | To_connection k \<Rightarrow>
        if broadcast then do { c \<leftarrow> fb_connections W k; fb_queue_broadcast (fb_service c) a W }
        else with_connection k (fb_queue_single a) W
    | To_event ev \<Rightarrow> do {
        k \<leftarrow> ev_connection ev;
        if broadcast then do { c \<leftarrow> fb_connections W k; fb_queue_broadcast (fb_service c) a W }
        else with_connection k (fb_queue_single a) W
      })"

definition fb_fprintf :: "receiver \<Rightarrow> bytes \<Rightarrow> football \<Rightarrow> (int \<times> football) option" where
  "fb_fprintf thing text W = (let (a, st) = fb_create_message text (blocks W)
    in fb_queue_message thing a False (W\<lparr>blocks := st\<rparr>))"

definition fb_bfprintf :: "receiver \<Rightarrow> bytes \<Rightarrow> football \<Rightarrow> (int \<times> football) option" where
  "fb_bfprintf thing text W = (let (a, st) = fb_create_message text (blocks W)
    in fb_queue_message thing a True (W\<lparr>blocks := st\<rparr>))"

end
