(* ===== verification/FbSocketmgr.thy ===== *)
theory FbSocketmgr
  imports FbService
begin

text \<open>
  Events of libfootball: what a ready socket causes (\<open>fb_event.c\<close>, \<open>fb_socketmgr.c\<close>).  The state machine of a connection is
  \<open>fb_read_input\<close>: TLS handshake, greeting, HTTP header, open session; \<open>fb_process_event\<close> dispatches on the registry;
  \<open>fb_poll_for\<close> goes through the sockets that select reports, reaps services and hands out the queued event.
\<close>

section \<open>Input by state\<close>

definition read_line :: "io_event \<Rightarrow> nat \<Rightarrow> football \<Rightarrow> (io_event option \<times> football) option" where
  "read_line ev k = with_connection k (\<lambda>st c. do {
    (e, c) \<leftarrow> fb_read_line_input ev c;
    Some (e, st, c)
  })"

definition update_connection_at :: "nat \<Rightarrow> (fb_connection \<Rightarrow> fb_connection) \<Rightarrow> football \<Rightarrow> football option" where
  "update_connection_at k f W = map_option (\<lambda>c. put_connection k (f c) W) (fb_connections W k)"

text \<open>
  The options of a connection's service.
\<close>

definition options_of :: "nat \<Rightarrow> football \<Rightarrow> fb_options option" where
  "options_of k W = do {
    c \<leftarrow> fb_connections W k;
    v \<leftarrow> fb_services W (fb_service c);
    Some (sv_options v)
  }"

text \<open>fb_execute_http_request: a request for another service is executed again after the transfer.\<close>

partial_function (option) fb_execute_http_request ::
    "web \<Rightarrow> io_event \<Rightarrow> nat \<Rightarrow> football \<Rightarrow> (io_event option \<times> football) option" where
  "fb_execute_http_request w ev k W = do {
    options \<leftarrow> options_of k W;
    (step, W) \<leftarrow> with_connection k (\<lambda>st c. execute_request w options (st, c)) W;
    (case step of
        Served \<Rightarrow> Some (None, W)
      | Upgraded \<Rightarrow> Some (Some (ev\<lparr>ev_type := EVENT_CONNECT\<rparr>), W)
      | Other_service wanted \<Rightarrow> do {
          (ok, W) \<leftarrow> fb_transfer_by_name k wanted W;
          if ok then fb_execute_http_request w ev k W
          else do {
            (_, W) \<leftarrow> with_connection k (\<lambda>st c. map_option (finish_request False) (http_response w ''404 Not Found'' (st, c))) W;
            Some (None, W)
          }
        })
  }"

definition greeted_as :: "fb_options \<Rightarrow> io_event \<Rightarrow> bool" where
  "greeted_as options ev \<longleftrightarrow> ev_argv ev \<noteq> [] \<and> strcasecmp (ev_argv ev ! 0) (opt_greeting options) = 0"

definition gone :: "nat \<Rightarrow> football \<Rightarrow> (io_event option \<times> football) option" where
  "gone k W = map_option (Pair None) (fb_destroy_connection k W)"

definition start_session :: "io_event \<Rightarrow> nat \<Rightarrow> football \<Rightarrow> (io_event option \<times> football) option" where
  "start_session ev k W = do {
    W \<leftarrow> update_connection_at k (\<lambda>c. c\<lparr>fb_state := OPEN, fb_http := False\<rparr>) W;
    Some (Some (ev\<lparr>ev_type := EVENT_CONNECT\<rparr>), W)
  }"

definition read_greeting :: "io_event \<Rightarrow> nat \<Rightarrow> football \<Rightarrow> (io_event option \<times> football) option" where
  "read_greeting ev k W = do {
    options \<leftarrow> options_of k W;
    (e, W) \<leftarrow> read_line ev k W;
    (case e of
        None \<Rightarrow> Some (None, W)
      | Some e \<Rightarrow>
          if ev_argv e = [] then Some (None, W)
          else if opt_mode options \<noteq> GREETING_OFF \<and> greeted_as options e then do {
            (ok, W) \<leftarrow> (if 1 < length (ev_argv e) then fb_transfer_by_name k (ev_argv e ! 1) W else Some (True, W));
            if ok then start_session e k W else gone k W
          }
          else if fb_http_command (ev_argv e ! 0) then do {
            (_, W) \<leftarrow> with_connection k (\<lambda>st c. do {
              rq \<leftarrow> fb_collect_http_request options (ev_argv e) (fb_request c);
              Some ((), st, c\<lparr>fb_request := rq, fb_state := GATHERING_HEADER, fb_http := True\<rparr>)
            }) W;
            Some (None, W)
          }
          else if opt_mode options = GREETING_FALLBACK then do {
            W \<leftarrow> fb_queue_event e W;
            start_session (e\<lparr>ev_argv := [], ev_command := []\<rparr>) k W
          }
          else gone k W)
  }"

definition read_header :: "web \<Rightarrow> io_event \<Rightarrow> nat \<Rightarrow> football \<Rightarrow> (io_event option \<times> football) option" where
  "read_header w ev k W = do {
    (e, W) \<leftarrow> read_line ev k W;
    (case e of
        None \<Rightarrow> Some (None, W)
      | Some e \<Rightarrow>
          if ev_argv e \<noteq> [] then do {
            W \<leftarrow> update_connection_at k (\<lambda>c. c\<lparr>fb_request := fb_collect_http_parameter (ev_command e) (fb_request c)\<rparr>) W;
            Some (None, W)
          }
          else fb_execute_http_request w e k W)
  }"

definition read_open :: "io_event \<Rightarrow> nat \<Rightarrow> fb_connection \<Rightarrow> football \<Rightarrow> (io_event option \<times> football) option" where
  "read_open ev k c W = do {
    options \<leftarrow> options_of k W;
    if \<not> fb_http c \<and> opt_mode options = GREETING_ALLOW \<and> \<not> fb_greeted c then do {
      (e, W) \<leftarrow> read_line ev k W;
      W \<leftarrow> update_connection_at k (\<lambda>c. c\<lparr>fb_greeted := (e \<noteq> None)\<rparr>) W;
      Some (case e of Some ev \<Rightarrow> if greeted_as options ev then None else e | None \<Rightarrow> None, W)
    }
    else if fb_http c then with_connection k (\<lambda>st c. fb_read_websocket_input ev (st, c)) W
    else read_line ev k W
  }"

definition fb_read_input :: "web \<Rightarrow> io_event \<Rightarrow> nat \<Rightarrow> football \<Rightarrow> (io_event option \<times> football) option" where
  "fb_read_input w ev k W = do {
    c \<leftarrow> fb_connections W k;
    (case fb_state c of
        TLS_HANDSHAKE \<Rightarrow>
          (let W = put_connection k (c\<lparr>handshakes := stl (handshakes c)\<rparr>) W in
           case shd (handshakes c) of
             Handshake_failed \<Rightarrow> gone k W
           | Handshake_wait \<Rightarrow> Some (None, W)
           | Handshake_done \<Rightarrow> do {
               W \<leftarrow> update_connection_at k (\<lambda>c. c\<lparr>fb_state := GREETING\<rparr>) W;
               read_greeting ev k W
             })
      | GREETING \<Rightarrow> read_greeting ev k W
      | GATHERING_HEADER \<Rightarrow> read_header w ev k W
      | OPEN \<Rightarrow> read_open ev k c W
      | _ \<Rightarrow> None)
  }"

section \<open>Ready sockets\<close>

text \<open>The last part of fb_send_output, when a closing connection has nothing left to send.\<close>

definition fb_write_output :: "io_event \<Rightarrow> nat \<Rightarrow> football \<Rightarrow> (io_event option \<times> football) option" where
  "fb_write_output ev k W = do {
    (r, W) \<leftarrow> with_connection k (fb_send_output True) W;
    (case r of
        Quiet \<Rightarrow> Some (None, W)
      | Close_event \<Rightarrow> Some (Some (ev\<lparr>ev_type := EVENT_CLOSE\<rparr>), W)
      | Finished \<Rightarrow> do {
          c \<leftarrow> fb_connections W k;
          v \<leftarrow> fb_services W (fb_service c);
          gone k (if length (sv_connections v) = 1 \<and> sv_state v = CLOSING then fb_schedule_reap (fb_service c) W else W)
        })
  }"

definition fb_new_connect :: "io_event \<Rightarrow> nat \<Rightarrow> arrival \<Rightarrow> football \<Rightarrow> (io_event option \<times> football) option" where
  "fb_new_connect ev s a W = do {
    v \<leftarrow> fb_services W s;
    i \<leftarrow> List.find (\<lambda>i. sv_socket v i = ev_socket ev) socket_ids;
    (k, W) \<leftarrow> fb_accept_connection s i a W;
    (case k of
        None \<Rightarrow> Some (None, W)
      | Some k \<Rightarrow> do {
          c \<leftarrow> fb_connections W k;
          (ok, W) \<leftarrow> fb_register (fb_socket c) (Connection_socket k) W;
          if ok then Some (if fb_state c = OPEN
              then Some (ev\<lparr>ev_connection := Some k, ev_socket := fb_socket c, ev_service := Some s, ev_type := EVENT_CONNECT\<rparr>)
              else None, W)
          else gone k W
        })
  }"

datatype action = ACTION_READING | ACTION_WRITING | ACTION_FAULTING

text \<open>
  The environment of one event: a connection that may arrive, the world of the HTTP server, and whether the TLS
  library holds decoded bytes afterwards.
\<close>

record happening =
  arriving_at :: arrival
  web_at :: web
  tls_pending :: bool

definition fb_process_event :: "happening \<Rightarrow> nat \<Rightarrow> action \<Rightarrow> football \<Rightarrow> (io_event option \<times> football) option" where
  "fb_process_event h fd act W =
    (if activesockets W \<le> fd then None
     else do {
       t \<leftarrow> sockets W fd;
       let ev = \<lparr>ev_type = EVENT_INPUT, ev_socket = fd, ev_connection = None, ev_service = None, ev_command = [], ev_argv = []\<rparr>;
       (case (t, act) of
           (Service_socket s, ACTION_READING) \<Rightarrow> fb_new_connect ev s (arriving_at h) W
         | (Connection_socket k, ACTION_READING) \<Rightarrow> do {
             c \<leftarrow> fb_connections W k;
             (e, W) \<leftarrow> fb_read_input (web_at h) (ev\<lparr>ev_connection := Some k, ev_service := Some (fb_service c)\<rparr>) k W;
             W \<leftarrow> (case sockets W fd of
                 Some (Connection_socket k) \<Rightarrow> do {
                   c \<leftarrow> fb_connections W k;
                   if fb_encrypted c then fb_set_buffering k (fb_state c \<le> OPEN \<and> reading c \<and> tls_pending h) W else Some W
                 }
               | _ \<Rightarrow> Some W);
             Some (e, W)
           }
         | (Connection_socket k, ACTION_WRITING) \<Rightarrow> do {
             c \<leftarrow> fb_connections W k;
             fb_write_output (ev\<lparr>ev_connection := Some k, ev_service := Some (fb_service c)\<rparr>) k W
           }
         | (User_socket u, a) \<Rightarrow> Some (Some (ev\<lparr>ev_type := (case a of ACTION_READING \<Rightarrow> EVENT_READABLE
             | ACTION_WRITING \<Rightarrow> EVENT_WRITABLE | ACTION_FAULTING \<Rightarrow> EVENT_FAULTING)\<rparr>), W)
         | _ \<Rightarrow> None)
     })"

section \<open>Polling\<close>

text \<open>
  What select answers: the sockets that are ready for reading and for writing, or an error, which may be an
  interruption.  The counter and the position of the search survive from one call to the next.
\<close>

datatype select_result = Selected "nat set" "nat set" | Select_failed bool

record poller =
  events_remaining :: int
  process_action :: nat
  process_fd :: nat
  selects :: "select_result stream"
  happenings :: "happening stream"

definition selects_reading :: "football \<Rightarrow> nat \<Rightarrow> bool" where
  "selects_reading W fd = (case sockets W fd of
      Some (Connection_socket k) \<Rightarrow> (case fb_connections W k of Some c \<Rightarrow> reading c | None \<Rightarrow> False)
    | Some (Service_socket s) \<Rightarrow> (case fb_services W s of Some v \<Rightarrow> fd \<in> sv_listening v | None \<Rightarrow> False)
    | Some (User_socket u) \<Rightarrow> True
    | None \<Rightarrow> False)"

definition selects_writing :: "football \<Rightarrow> nat \<Rightarrow> bool" where
  "selects_writing W fd = (case sockets W fd of
      Some (Connection_socket k) \<Rightarrow> (case fb_connections W k of Some c \<Rightarrow> writing c | None \<Rightarrow> False)
    | _ \<Rightarrow> False)"

definition selects_buffering :: "football \<Rightarrow> nat \<Rightarrow> bool" where
  "selects_buffering W fd = (case sockets W fd of
      Some (Connection_socket k) \<Rightarrow> (case fb_connections W k of Some c \<Rightarrow> buffering c | None \<Rightarrow> False)
    | _ \<Rightarrow> False)"

definition among :: "(nat \<Rightarrow> bool) \<Rightarrow> football \<Rightarrow> nat set" where
  "among p W = set (filter p [0..<maxsockets W])"

text \<open>The call of select, repeated when it is interrupted, unless the TLS library has data.\<close>

partial_function (option) call_select :: "poller \<Rightarrow> football \<Rightarrow> (int \<times> poller \<times> football) option" where
  "call_select po W =
    (let po1 = po\<lparr>selects := stl (selects po)\<rparr> in
     case shd (selects po) of
       Selected r wr \<Rightarrow>
         (let rs = r \<inter> among (selects_reading W) W; ws = wr \<inter> among (selects_writing W) W
          in Some (int (card rs + card ws), po1, W\<lparr>last_reading := rs, last_writing := ws\<rparr>))
     | Select_failed interrupted \<Rightarrow>
         if interrupted \<and> \<not> tls_currently_buffering W then call_select po1 W
         else Some (- 1, po1, W\<lparr>last_reading := among (selects_reading W) W, last_writing := among (selects_writing W) W\<rparr>))"

definition add_buffered :: "int \<Rightarrow> football \<Rightarrow> int \<times> football" where
  "add_buffered n W =
    (if tls_currently_buffering W then
       let new = among (selects_buffering W) W - last_reading W
       in (n + int (card new), W\<lparr>last_reading := last_reading W \<union> new, tls_currently_buffering := False\<rparr>)
     else (n, W))"

definition is_ready :: "football \<Rightarrow> nat \<Rightarrow> nat \<Rightarrow> bool" where
  "is_ready W act fd \<longleftrightarrow> (if act = 0 then fd \<in> last_reading W else act = 1 \<and> fd \<in> last_writing W)"

definition actions :: "action list" where
  "actions = [ACTION_READING, ACTION_WRITING, ACTION_FAULTING]"

text \<open>The search for ready sockets; without an event it ends in another round.\<close>

partial_function (option) search_ready :: "poller \<Rightarrow> football \<Rightarrow> (io_event option \<times> poller \<times> football) option" where
  "search_ready po W =
    (if 3 \<le> process_action po then Some (None, po\<lparr>events_remaining := 0\<rparr>, W)
     else if maxsockets W \<le> process_fd po then search_ready (po\<lparr>process_fd := 0, process_action := process_action po + 1\<rparr>) W
     else if \<not> is_ready W (process_action po) (process_fd po) then search_ready (po\<lparr>process_fd := process_fd po + 1\<rparr>) W
     else do {
       (e, W) \<leftarrow> fb_process_event (shd (happenings po)) (process_fd po) (actions ! process_action po) W;
       let po = po\<lparr>events_remaining := events_remaining po - 1, happenings := stl (happenings po)\<rparr>;
       if e \<noteq> None then Some (e,
           if maxsockets W \<le> process_fd po + 1 then po\<lparr>process_fd := 0, process_action := process_action po + 1\<rparr>
           else po\<lparr>process_fd := process_fd po + 1\<rparr>, W)
       else if events_remaining po \<le> 0 then Some (None, po, W)
       else search_ready (po\<lparr>process_fd := process_fd po + 1\<rparr>) W
     })"

primrec reap_notified :: "nat list \<Rightarrow> football \<Rightarrow> football option" where
  "reap_notified [] W = Some (W\<lparr>reapq := []\<rparr>)"
| "reap_notified (s # ss) W = do {
    v \<leftarrow> fb_services W s;
    if sv_shutdown_done v then do { W \<leftarrow> fb_destroy_service s W; reap_notified ss W }
    else Some (W\<lparr>reapq := s # ss\<rparr>)
  }"

definition blank_event :: "event_type \<Rightarrow> io_event" where
  "blank_event t = \<lparr>ev_type = t, ev_socket = 0, ev_connection = None, ev_service = None, ev_command = [], ev_argv = []\<rparr>"

definition reap_services :: "football \<Rightarrow> (io_event option \<times> football) option" where
  "reap_services W =
    (if reapq W = [] then Some (None, W)
     else do {
       W \<leftarrow> reap_notified (reapq W) W;
       (case reapq W of
           s # _ \<Rightarrow> do {
             v \<leftarrow> fb_services W s;
             Some (Some ((blank_event EVENT_STOPPED)\<lparr>ev_service := Some s\<rparr>), put_service s (v\<lparr>sv_shutdown_done := True\<rparr>) W)
           }
         | [] \<Rightarrow> Some (if activesockets W = 0 then Some (blank_event EVENT_STOPPED) else None, W))
     })"

datatype refill = Ready_to_search | Select_error | No_events

definition refill_events :: "poller \<Rightarrow> football \<Rightarrow> (refill \<times> poller \<times> football) option" where
  "refill_events po W =
    (if events_remaining po \<noteq> 0 then Some (Ready_to_search, po, W)
     else do {
       (n, po, W) \<leftarrow> call_select (po\<lparr>process_action := 0, process_fd := 0\<rparr>) W;
       let (n, W) = add_buffered n W;
       Some (if n < 0 then (Select_error, po\<lparr>events_remaining := 0\<rparr>, W)
         else if n = 0 then (No_events, po\<lparr>events_remaining := 0\<rparr>, W)
         else (Ready_to_search, po\<lparr>events_remaining := n\<rparr>, W))
     })"

partial_function (option) fb_poll_for :: "poller \<Rightarrow> football \<Rightarrow> (io_event option \<times> poller \<times> football) option" where
  "fb_poll_for po W =
    (if maxsockets W = 0 then None
     else if activesockets W = 0 then Some (None, po, W)
     else if queued_event W \<noteq> None then Some (queued_event W, po, W\<lparr>queued_event := None\<rparr>)
     else do {
       (e, W) \<leftarrow> reap_services W;
       if e \<noteq> None then Some (e, po, W)
       else do {
         (r, po, W) \<leftarrow> refill_events po W;
         (case r of
             Select_error \<Rightarrow> Some (None, po, W)
           | No_events \<Rightarrow> Some (Some (blank_event EVENT_TIMEOUT), po, W)
           | Ready_to_search \<Rightarrow> do {
               (e, po, W) \<leftarrow> search_ready po W;
               if e \<noteq> None then Some (e, po, W) else fb_poll_for po W
             })
       }
     })"

text \<open>The seconds that fb_poll_until lets select wait at most; time answers -1 when it fails.\<close>

definition poll_until_seconds :: "int \<Rightarrow> int \<Rightarrow> int" where
  "poll_until_seconds untilwhen clock = (if clock = - 1 then 1 else max 0 (untilwhen - clock))"

end
