(* ===== verification/FbOutput.thy ===== *)
theory FbOutput
  imports FbConnection
begin

text \<open>
  What is printed to a connection reaches its socket: the proofs about the output of libfootball.

  A connection's output is the stream \<open>sent c @ pending st (fb_out c)\<close>, what the socket has taken and what waits for it.
  The send loop returns whatever the socket answers and never changes the stream, only moves bytes from the queue
  to the socket, or, after an error, drops the queue.  On top of that, printing to a line connection extends the
  stream by the text, and printing to a websocket by one packet for every line that is complete; the locale \<open>channel\<close>
  states this contract once, for both.
\<close>

section \<open>The send loop\<close>

definition stream :: "fb_store \<Rightarrow> fb_connection \<Rightarrow> bytes" where
  "stream st c = sent c @ pending st (fb_out c)"

definition same_but_output :: "fb_connection \<Rightarrow> fb_connection \<Rightarrow> bool" where
  "same_but_output c c' \<longleftrightarrow>
    c'\<lparr>fb_out := fb_out c, sends := sends c, sent := sent c, writing := writing c\<rparr> = c"

definition delivered :: "fb_store \<Rightarrow> fb_connection \<Rightarrow> fb_store \<Rightarrow> fb_connection \<Rightarrow> bool" where
  "delivered st c st' c' \<longleftrightarrow> queue_wf st' (fb_out c') \<and> stream st' c' = stream st c \<and> same_but_output c c'"

definition broken :: "fb_store \<Rightarrow> fb_connection \<Rightarrow> fb_connection \<Rightarrow> bool" where
  "broken st c c' \<longleftrightarrow> Send_error \<in> sset (sends c) \<and> queued (fb_out c') = [] \<and> FLUSHING \<le> fb_state c'
    \<and> fb_assembly c' = fb_assembly c \<and> prefix (sent c') (stream st c)"

definition flushed :: "nat multiset \<Rightarrow> fb_store \<Rightarrow> fb_connection \<Rightarrow> fb_store \<Rightarrow> fb_connection \<Rightarrow> bool" where
  "flushed R st c st' c' \<longleftrightarrow> store_ok st' (R + mset (queued (fb_out c'))) \<and> agree R st st'
    \<and> sset (sends c') \<subseteq> sset (sends c) \<and> (delivered st c st' c' \<or> broken st c c')"

lemma same_but_output_refl: "same_but_output c c"
  by (simp add: same_but_output_def)

lemma same_but_output_iff:
  "same_but_output c c' \<longleftrightarrow> fb_socket c' = fb_socket c \<and> fb_service c' = fb_service c \<and> fb_state c' = fb_state c
    \<and> fb_greeted c' = fb_greeted c \<and> fb_http c' = fb_http c \<and> fb_encrypted c' = fb_encrypted c
    \<and> fb_request c' = fb_request c \<and> fb_assembly c' = fb_assembly c \<and> fb_in c' = fb_in c
    \<and> fb_capacity c' = fb_capacity c \<and> fb_filename c' = fb_filename c \<and> fb_file c' = fb_file c
    \<and> handshakes c' = handshakes c \<and> reading c' = reading c
    \<and> buffering c' = buffering c \<and> receives c' = receives c \<and> fb_connection.more c' = fb_connection.more c"
  by (cases c; cases c') (auto simp: same_but_output_def)

lemma same_but_output_trans: "same_but_output c c' \<Longrightarrow> same_but_output c' c'' \<Longrightarrow> same_but_output c c''"
  by (simp add: same_but_output_iff)

lemma flushed_trans:
  assumes "agree R st st'" and "sset (sends c') \<subseteq> sset (sends c)" and "delivered st c st' c'"
    and "flushed R st' c' st'' c''"
  shows "flushed R st c st'' c''"
  using assms same_but_output_trans [of c c' c''] agree_trans [of R st st' R st'']
  by (auto simp: flushed_def delivered_def broken_def same_but_output_iff)

lemma sset_stl_subset: "sset (stl s) \<subseteq> sset s"
  by (metis stream.set_sel(2) subsetI)

lemma close_connection_simps [simp]:
  "fb_out (close_connection c) = fb_out c" "fb_assembly (close_connection c) = fb_assembly c"
  "sends (close_connection c) = sends c" "sent (close_connection c) = sent c"
  by (simp_all add: close_connection_def)

lemma close_connection_state [simp]: "FLUSHING \<le> fb_state (close_connection c)"
  by (cases "fb_state c") (simp_all add: close_connection_def less_eq_conn_state_def)

lemma send_error_flushed:
  assumes "store_ok st (R + mset (queued (fb_out c)))" and "shd (sends c) = Send_error"
  shows "\<exists>q st'. fb_queue_destroy (fb_out c) st = Some (q, st')
    \<and> flushed R st c st' (close_connection (c\<lparr>sends := stl (sends c), fb_out := q\<rparr>))"
proof -
  have "Send_error \<in> sset (sends c)" using assms(2) by (metis shd_sset)
  moreover obtain st' where "fb_queue_destroy (fb_out c) st = Some ((fb_out c)\<lparr>queued := []\<rparr>, st')"
      "store_ok st' R" "agree R st st'"
    using destroy_ok [OF assms(1)] by auto
  ultimately show ?thesis
    by (intro exI [of _ "(fb_out c)\<lparr>queued := []\<rparr>"] exI [of _ st'])
      (simp add: flushed_def broken_def stream_def sset_stl_subset)
qed

lemma send_loop_flushes:
  assumes "store_ok st (R + mset (queued (fb_out c)))" and "queue_wf st (fb_out c)" and "queued (fb_out c) \<noteq> []"
  shows "\<exists>st' c'. send_loop st c = Some (st', c') \<and> flushed R st c st' c'"
  using assms
proof (induction "length (pending st (fb_out c))" arbitrary: st c rule: less_induct)
  case less
  obtain a rest where q: "queued (fb_out c) = a # rest" using less.prems(3) by (cases "queued (fb_out c)") auto
  let ?data = "drop (consumed (fb_out c)) (msg_text st a)"
  have inside: "consumed (fb_out c) < length (msg_text st a)" using less.prems(2) q by (simp add: queue_wf_def)
  have moved: "\<exists>st' c'. send_loop st c = Some (st', c') \<and> flushed R st c st' c'"
    if io: "socket_send ?data c = (int k, c\<lparr>sends := stl (sends c), sent := sent c @ take k ?data\<rparr>)"
      and k: "k \<le> length ?data" for k
  proof -
    let ?c = "c\<lparr>sends := stl (sends c), sent := sent c @ take k ?data\<rparr>"
    obtain q' st1 where step: "fb_queue_consume (fb_out c) k st = Some (q', st1)"
        "store_ok st1 (R + mset (queued q'))" "agree (R + mset (queued q')) st st1" "queue_wf st1 q'"
        "pending st1 q' = drop k (pending st (fb_out c))"
      using consume_ok [OF less.prems(1,2) q, of k] k by auto
    have "take k (pending st (fb_out c)) = take k ?data"
      using k inside by (simp add: pending_first [OF q])
    then have "stream st1 (?c\<lparr>fb_out := q'\<rparr>) = stream st c"
      using step(5) append_take_drop_id [of k "pending st (fb_out c)"] by (simp add: stream_def)
    with step(4) have one: "delivered st c st1 (?c\<lparr>fb_out := q'\<rparr>)"
      by (simp add: delivered_def same_but_output_iff)
    have agree: "agree R st st1" by (rule agree_mono [OF step(3)]) simp
    have unfold: "send_loop st c = (if 0 < k \<and> \<not> fb_queue_empty q' then send_loop st1 (?c\<lparr>fb_out := q'\<rparr>)
        else Some (st1, ?c\<lparr>fb_out := q'\<rparr>))"
      using inside step(1) by (subst send_loop.simps) (simp add: q io)
    show ?thesis
    proof (cases "0 < k \<and> \<not> fb_queue_empty q'")
      case True
      have "length (pending st1 q') < length (pending st (fb_out c))"
        using True k inside unfolding step(5) by (simp add: pending_first [OF q]) linarith
      with less.hyps [of st1 "?c\<lparr>fb_out := q'\<rparr>"] step(2,4) True obtain st' c'
        where "send_loop st1 (?c\<lparr>fb_out := q'\<rparr>) = Some (st', c')" "flushed R st1 (?c\<lparr>fb_out := q'\<rparr>) st' c'"
        by (auto simp: fb_queue_empty_def)
      moreover have "flushed R st c st' c'"
        by (rule flushed_trans [OF agree _ one calculation(2)]) (simp add: sset_stl_subset)
      ultimately show ?thesis using True unfold by auto
    next
      case False
      with one agree step(2) show ?thesis unfolding unfold by (auto simp: flushed_def sset_stl_subset)
    qed
  qed
  show ?case
  proof (cases "shd (sends c)")
    case (Took n)
    then show ?thesis by (intro moved [of "min n (length ?data)"]) (auto simp: socket_send_def min_def)
  next
    case Send_again
    then show ?thesis by (intro moved [of 0]) (auto simp: socket_send_def)
  next
    case Send_error
    then show ?thesis
      using send_error_flushed [OF less.prems(1) Send_error] inside
      by (subst send_loop.simps) (auto simp: q socket_send_def)
  qed
qed

lemma send_output_flushes:
  assumes "store_ok st (R + mset (queued (fb_out c)))" and "queue_wf st (fb_out c)"
  shows "\<exists>st' c'. fb_send_output False st c = Some (Quiet, st', c') \<and> flushed R st c st' c'"
proof (cases "fb_queue_empty (fb_out c)")
  case True
  with assms show ?thesis
    by (auto simp: fb_send_output_def flushed_def delivered_def same_but_output_refl)
next
  case False
  then obtain st' c' where "send_loop st c = Some (st', c')" "flushed R st c st' c'"
    using send_loop_flushes [OF assms] by (auto simp: fb_queue_empty_def)
  then have "fb_send_output False st c = Some (Quiet, st', if fb_queue_empty (fb_out c') then c' else c'\<lparr>writing := True\<rparr>)"
    "flushed R st c st' (if fb_queue_empty (fb_out c') then c' else c'\<lparr>writing := True\<rparr>)"
    using False by (auto simp: fb_send_output_def flushed_def delivered_def broken_def stream_def same_but_output_iff
        fb_queue_empty_def)
  then show ?thesis by blast
qed

end
