(* ===== verification/FbChannel.thy ===== *)
theory FbChannel
  imports FbOutput
begin

text \<open>
  Printing to line connections and to websockets, over any interleaving of printing and writing.
\<close>

section \<open>Assembling a line\<close>

lemma assemble_takes:
  assumes "store_ok st (R + mset (queued q))" and "queue_wf st q" and "n \<le> length (pending st q)"
  shows "\<exists>q' st'. assemble n q st = Some (take n (pending st q), q', st') \<and> store_ok st' (R + mset (queued q'))
    \<and> agree (R + mset (queued q')) st st' \<and> queue_wf st' q' \<and> pending st' q' = drop n (pending st q)
    \<and> suffix (queued q') (queued q)"
  using assms
proof (induction n arbitrary: st q rule: less_induct)
  case (less n)
  show ?case
  proof (cases "n = 0")
    case True
    with less.prems show ?thesis by (subst assemble.simps) simp
  next
    case False
    with less.prems(3) obtain a rest where q: "queued q = a # rest" by (cases "queued q") auto
    let ?len = "length (msg_text st a) - consumed q"
    let ?k = "min ?len n"
    have inside: "consumed q < length (msg_text st a)" using less.prems(2) q by (simp add: queue_wf_def)
    note first = pending_first [OF q less_imp_le [OF inside]]
    obtain q1 st1 where one: "fb_queue_consume q ?k st = Some (q1, st1)" "store_ok st1 (R + mset (queued q1))"
        "agree (R + mset (queued q1)) st st1" "queue_wf st1 q1" "pending st1 q1 = drop ?k (pending st q)"
        "suffix (queued q1) (queued q)"
      using consume_ok [OF less.prems(1,2) q, of ?k] by auto
    have "n - ?k < n" "n - ?k \<le> length (pending st1 q1)" using False inside less.prems(3) by (auto simp: one(5))
    from less.IH [OF this(1) one(2,4) this(2)] obtain q2 st2 where
      two: "assemble (n - ?k) q1 st1 = Some (take (n - ?k) (pending st1 q1), q2, st2)" "store_ok st2 (R + mset (queued q2))"
        "agree (R + mset (queued q2)) st1 st2" "queue_wf st2 q2" "pending st2 q2 = drop (n - ?k) (pending st1 q1)"
        "suffix (queued q2) (queued q1)"
      by blast
    have "agree (R + mset (queued q2)) st st2"
      by (rule agree_trans [OF one(3) two(3)]) (use two(6) in \<open>auto simp: suffix_def\<close>)
    moreover have "take ?k (drop (consumed q) (msg_text st a)) = take ?k (pending st q)" by (simp add: first)
    moreover have "take ?k (pending st q) @ take (n - ?k) (pending st1 q1) = take n (pending st q)"
      unfolding one(5) by (metis append_take_drop_id le_add_diff_inverse min.cobounded2 take_add)
    moreover have "pending st2 q2 = drop n (pending st q)"
      unfolding two(5) one(5) drop_drop by (rule arg_cong [where f = "\<lambda>m. drop m (pending st q)"]) simp
    ultimately show ?thesis
      using False one(1) two suffix_order.trans [OF two(6) one(6)] by (subst assemble.simps) (simp add: q)
  qed
qed

section \<open>Lines and packets\<close>

text \<open>The lines that are complete, and the beginning of the next one.\<close>

lemma dropWhile_shorter: "dropWhile P bs = x # rest \<Longrightarrow> length rest < length bs"
  by (metis Suc_le_lessD length_Cons length_dropWhile_le)

function cut_lines :: "bytes \<Rightarrow> bytes list \<times> bytes" where
  "cut_lines bs = (case dropWhile (\<lambda>b. b \<noteq> 10) bs of
      [] \<Rightarrow> ([], bs)
    | _ # rest \<Rightarrow> let (ls, r) = cut_lines rest in (takeWhile (\<lambda>b. b \<noteq> 10) bs # ls, r))"
  by pat_completeness auto
termination
  by (relation "measure length") (auto dest: dropWhile_shorter)

declare cut_lines.simps [simp del]

lemma cut_lines_none [simp]: "10 \<notin> set bs \<Longrightarrow> cut_lines bs = ([], bs)"
proof -
  assume "10 \<notin> set bs"
  then have none: "dropWhile (\<lambda>b. b \<noteq> 10) bs = []" by (auto simp: dropWhile_eq_Nil_conv)
  show ?thesis unfolding cut_lines.simps [of bs] none by simp
qed

lemma cut_lines_line: "10 \<notin> set l \<Longrightarrow> cut_lines (l @ 10 # bs) = (l # fst (cut_lines bs), snd (cut_lines bs))"
proof (subst cut_lines.simps)
  assume "10 \<notin> set l"
  then have "dropWhile (\<lambda>b. b \<noteq> 10) (l @ 10 # bs) = 10 # bs" "takeWhile (\<lambda>b. b \<noteq> 10) (l @ 10 # bs) = l"
    by (auto simp: dropWhile_append takeWhile_append)
  then show "(case dropWhile (\<lambda>b. b \<noteq> 10) (l @ 10 # bs) of [] \<Rightarrow> ([], l @ 10 # bs)
      | _ # rest \<Rightarrow> let (ls, r) = cut_lines rest in (takeWhile (\<lambda>b. b \<noteq> 10) (l @ 10 # bs) # ls, r)) =
    (l # fst (cut_lines bs), snd (cut_lines bs))"
    by (simp add: case_prod_beta)
qed

lemma split_newline: "10 \<in> set (bs :: bytes) \<Longrightarrow> \<exists>l rest. bs = l @ 10 # rest \<and> 10 \<notin> set l"
  using split_list_first [of "10 :: byte" bs] by simp

lemma cut_lines_rest: "10 \<notin> set (snd (cut_lines bs))"
proof (induction "length bs" arbitrary: bs rule: less_induct)
  case less
  show ?case
  proof (cases "10 \<in> set bs")
    case True
    then obtain l rest where "bs = l @ 10 # rest" "10 \<notin> set l" using split_newline by blast
    with less [of rest] show ?thesis by (simp add: cut_lines_line)
  qed simp
qed

lemma cut_lines_append:
  "cut_lines (bs @ t) = (fst (cut_lines bs) @ fst (cut_lines (snd (cut_lines bs) @ t)),
    snd (cut_lines (snd (cut_lines bs) @ t)))"
proof (induction "length bs" arbitrary: bs rule: less_induct)
  case less
  show ?case
  proof (cases "10 \<in> set bs")
    case True
    then obtain l rest where "bs = l @ 10 # rest" "10 \<notin> set l" using split_newline by blast
    with less [of rest] show ?thesis by (simp add: cut_lines_line)
  qed simp
qed

lemma cut_lines_lengths: "l \<in> set (fst (cut_lines bs)) \<Longrightarrow> length l \<le> length bs"
proof (induction "length bs" arbitrary: bs rule: less_induct)
  case less
  show ?case
  proof (cases "10 \<in> set bs")
    case True
    then obtain m rest where "bs = m @ 10 # rest" "10 \<notin> set m" using split_newline by blast
    with less.hyps [of rest] less.prems show ?thesis by (auto simp: cut_lines_line)
  qed (use less.prems in simp)
qed

definition websocket_packet :: "bytes \<Rightarrow> bytes" where
  "websocket_packet line = frame_header (length line) @ line"

definition packets :: "bytes list \<Rightarrow> bytes" where
  "packets ls = concat (map websocket_packet ls)"

text \<open>A client reads packets as RFC 6455 defines them: unmasked text packets that are final.\<close>

definition packet_length :: "bytes \<Rightarrow> (nat \<times> bytes) option" where
  "packet_length bs = (case bs of
      [] \<Rightarrow> None
    | b # rest \<Rightarrow> if b < 126 then Some (unat b, rest)
        else if b = 126 then if length rest < 2 then None
          else Some (unat (rest ! 0) * 256 + unat (rest ! 1), drop 2 rest)
        else if b = 127 then if length rest < 8 then None
          else Some (foldl (\<lambda>n b. n * 256 + unat b) 0 (take 8 rest), drop 8 rest)
        else None)"

lemma packet_length_shorter: "packet_length bs = Some (k, data) \<Longrightarrow> length data < length bs"
  by (auto simp: packet_length_def split: list.splits if_splits)

function read_packets :: "bytes \<Rightarrow> bytes list option" where
  "read_packets [] = Some []"
| "read_packets (b # rest) = (if b \<noteq> 0x81 then None else (case packet_length rest of
          None \<Rightarrow> None
        | Some (k, data) \<Rightarrow> if length data < k then None
            else map_option (Cons (take k data)) (read_packets (drop k data))))"
  by pat_completeness auto
termination
  by (relation "measure length") (auto dest: packet_length_shorter)

lemma base_256:
  assumes "n < 4294967296"
  shows "((n div 16777216 mod 256 * 256 + n div 65536 mod 256) * 256 + n div 256 mod 256) * 256 + n mod 256 = (n :: nat)"
proof -
  have "n div 65536 = n div 256 div 256" "n div 16777216 = n div 256 div 256 div 256" by (simp_all flip: div_mult2_eq)
  moreover have "n div 16777216 mod 256 = n div 16777216" using assms by simp
  ultimately show ?thesis by (simp add: div_mult_mod_eq)
qed

lemma foldl_word_bytes: "foldl (\<lambda>n b. n * 256 + unat b) 0 ([0, 0, 0, 0] @ word_bytes w) = unat w"
proof -
  have byte: "unat (ucast (drop_bit k w) :: byte) = unat w div 2 ^ k mod 256" for k
    unfolding unsigned_ucast_eq unat_drop_bit_eq by (simp add: drop_bit_eq_div take_bit_eq_mod)
  have "unat w < 4294967296" using unsigned_less [of w, where ?'a = nat] by simp
  then show ?thesis
    using base_256 [of "unat w"] byte [of 24] byte [of 16] byte [of 8] byte [of 0]
    by (simp add: word_bytes_def)
qed

lemma byte_of_nat: "unat (word_of_nat n :: byte) = n mod 256"
  by (simp add: unat_of_nat take_bit_eq_mod)

lemma read_packet:
  assumes "length l < 2 ^ 32"
  shows "read_packets (websocket_packet l @ bs) = map_option (Cons l) (read_packets bs)"
proof -
  have small: "(word_of_nat n :: byte) < 126" if "n \<le> 125" for n
    using that by (simp add: word_less_nat_alt byte_of_nat)
  have "unat (word_of_nat (length l) :: 32 word) = length l"
    using assms by (simp add: unat_of_nat take_bit_nat_eq_self)
  then have "packet_length (tl (frame_header (length l)) @ l @ bs) = Some (length l, l @ bs)"
    using foldl_word_bytes [of "word_of_nat (length l)"]
    by (auto simp: frame_header_def packet_length_def byte_of_nat small word_bytes_def)
  moreover have "\<exists>t. frame_header (length l) = 0x81 # t" by (simp add: frame_header_def)
  ultimately show ?thesis by (auto simp: websocket_packet_def)
qed

lemma read_all_packets: "\<forall>l \<in> set ls. length l < 2 ^ 32 \<Longrightarrow> read_packets (packets ls) = Some ls"
  by (induction ls) (simp_all add: packets_def read_packet)

section \<open>Encoding\<close>

definition refs :: "fb_connection \<Rightarrow> nat multiset" where
  "refs c = mset (queued (fb_assembly c)) + mset (queued (fb_out c))"

definition reliable :: "fb_connection \<Rightarrow> bool" where
  "reliable c \<longleftrightarrow> Send_error \<notin> sset (sends c)"

lemma refs_same: "same_but_output c c' \<Longrightarrow> refs c' = mset (queued (fb_assembly c)) + mset (queued (fb_out c'))"
  by (simp add: refs_def same_but_output_iff)

lemma queue_http_delivers:
  assumes ok: "store_ok st (R + refs c)" and wf: "queue_wf st (fb_out c)" and "reliable c" and "text \<noteq> []"
  shows "\<exists>st' c'. fb_queue_http text st c = Some (st', c') \<and> store_ok st' (R + refs c')
    \<and> agree (R + mset (queued (fb_assembly c))) st st' \<and> queue_wf st' (fb_out c')
    \<and> stream st' c' = stream st c @ text \<and> same_but_output c c' \<and> reliable c'"
proof -
  obtain a st1 where create: "fb_create_message text st = (a, st1)" by (cases "fb_create_message text st")
  note new = create_ok [OF ok create]
  let ?c = "c\<lparr>fb_out := fb_queue_add (fb_out c) a\<rparr>" and ?R = "R + mset (queued (fb_assembly c))"
  have sub: "mset (queued (fb_out c)) \<subseteq># R + refs c" by (simp add: refs_def)
  have wf1: "queue_wf st1 (fb_out c)" "pending st1 (fb_out c) = pending st (fb_out c)"
    using agree_queue_wf [OF new(3) sub] agree_pending [OF new(3) sub] wf by auto
  then have out: "queue_wf st1 (fb_out ?c)" "pending st1 (fb_out ?c) = pending st (fb_out c) @ text"
    using add_pending [of st1 "fb_out c" a] new(4) assms(4) by auto
  have "store_ok st1 (?R + mset (queued (fb_out ?c)))" using new(1) by (simp add: refs_def fb_queue_add_def ac_simps)
  from send_output_flushes [OF this out(1)] obtain st2 c2 where
    "fb_send_output False st1 ?c = Some (Quiet, st2, c2)" and f: "flushed ?R st1 ?c st2 c2" by blast
  then have run: "fb_queue_http text st c = Some (st2, c2)" by (simp add: fb_queue_http_def create)
  have d: "delivered st1 ?c st2 c2" "reliable c2"
    using f assms(3) by (auto simp: flushed_def broken_def reliable_def)
  then have same: "same_but_output c c2" by (simp add: delivered_def same_but_output_iff)
  moreover have "agree ?R st st2"
    by (rule agree_trans [OF new(3)]) (use f in \<open>auto simp: flushed_def refs_def\<close>)
  moreover have "store_ok st2 (R + refs c2)"
    using f unfolding refs_same [OF same] flushed_def by (simp add: add.assoc)
  moreover have "queue_wf st2 (fb_out c2)" "stream st2 c2 = stream st c @ text"
    using d(1) out(2) by (simp_all add: delivered_def stream_def)
  ultimately show ?thesis using run d(2) by blast
qed

lemma newline_from_some:
  assumes "drop s text = l @ 10 # rest" and "10 \<notin> set l" and "0 \<notin> set l"
  shows "newline_from s text = Some (s + length l)"
proof -
  have "takeWhile (\<lambda>b. b \<noteq> 10 \<and> b \<noteq> 0) (drop s text) = l"
    unfolding assms(1) by (subst takeWhile_append2) (use assms(2,3) in auto)
  moreover have "s + length l < length text" using arg_cong [OF assms(1), of length] by simp
  moreover have "text ! (s + length l) = 10"
    using arg_cong [OF assms(1), of "\<lambda>xs. xs ! length l"] \<open>s + length l < length text\<close> by simp
  ultimately show ?thesis by (simp add: newline_from_def)
qed

lemma newline_from_none:
  assumes "10 \<notin> set (drop s text)"
  shows "newline_from s text = None"
proof -
  have "text ! (s + k) \<noteq> 10" if "s + k < length text" for k
    using that assms nth_mem [of k "drop s text"] by (simp add: less_diff_conv add.commute) metis
  then show ?thesis unfolding newline_from_def Let_def by auto
qed

text \<open>The part of the last message that is still to be assembled.\<close>

definition tail_text :: "fb_store \<Rightarrow> fb_ioqueue \<Rightarrow> bytes" where
  "tail_text st q = drop (if length (queued q) = 1 then consumed q else 0) (msg_text st (last (queued q)))"

lemma pending_tail:
  assumes "queue_wf st q" and "queued q \<noteq> []"
  shows "\<exists>x. pending st q = x @ tail_text st q
    \<and> length x + consumed q = (if length (queued q) = 1 then consumed q
        else sum_list (map (\<lambda>a. length (msg_text st a)) (butlast (queued q))))"
proof (cases "length (queued q) = 1")
  case True
  then obtain a where "queued q = [a]" by (auto simp: length_Suc_conv)
  then show ?thesis by (simp add: pending_def tail_text_def)
next
  case False
  let ?front = "concat (map (msg_text st) (butlast (queued q)))"
  have all: "concat (map (msg_text st) (queued q)) = ?front @ tail_text st q"
  proof -
    have "concat (map (msg_text st) (queued q)) = concat (map (msg_text st) (butlast (queued q) @ [last (queued q)]))"
      using assms(2) by simp
    also have "\<dots> = ?front @ tail_text st q" using False by (simp add: tail_text_def del: append_butlast_last_id)
    finally show ?thesis .
  qed
  obtain a b rest where q: "queued q = a # b # rest"
    using False assms(2) by (cases "queued q" rule: remdups_adj.cases) auto
  with assms(1) have "consumed q \<le> length ?front" by (simp add: queue_wf_def)
  then have "pending st q = drop (consumed q) ?front @ tail_text st q"
      "length (drop (consumed q) ?front) + consumed q = length ?front"
    unfolding pending_def all by simp_all
  moreover have "length ?front = sum_list (map (\<lambda>a. length (msg_text st a)) (butlast (queued q)))"
    by (simp add: length_concat o_def)
  ultimately show ?thesis using False by auto
qed

lemma short_queue:
  assumes "suffix (queued q') (queued q)" and "queue_wf st' q'" and "queued q' \<noteq> []"
    and "agree (mset (queued q')) st st'" and "length (pending st' q') < length (msg_text st (last (queued q)))"
  shows "queued q' = [last (queued q)]"
proof -
  have last: "last (queued q') = last (queued q)" using assms(1,3) by (auto simp: suffix_def)
  obtain y ys where q': "queued q' = y # ys" using assms(3) by (cases "queued q'") auto
  show ?thesis
  proof (cases "ys = []")
    case False
    then have "last (queued q) \<in> set ys" using last q' by (metis last_ConsR last_in_set)
    then have "length (msg_text st' (last (queued q))) \<le> length (concat (map (msg_text st') ys))"
      by (auto simp: length_concat o_def intro: member_le_sum_list)
    moreover have "length (msg_text st' (last (queued q))) = length (msg_text st (last (queued q)))"
      using assms(4) \<open>last (queued q) \<in> set ys\<close> by (auto simp: agree_def q')
    moreover have "consumed q' < length (msg_text st' y)" using assms(2) by (simp add: q' queue_wf_def)
    moreover from this have "length (pending st' q') = length (msg_text st' y) - consumed q' + length (concat (map (msg_text st') ys))"
      by (simp add: pending_first [OF q'])
    ultimately have False using assms(5) by linarith
    then show ?thesis ..
  qed (use last q' in simp)
qed

lemma packet_nonempty: "websocket_packet l \<noteq> []"
  by (simp add: websocket_packet_def frame_header_def)

lemma take_line:
  assumes ok: "store_ok st (R + mset (queued q))" and wf: "queue_wf st q" and p: "pending st q = l @ 10 # post"
  shows "\<exists>q1 st1 q2 st2. assemble (length l) q st = Some (l, q1, st1) \<and> fb_queue_consume q1 1 st1 = Some (q2, st2)
    \<and> store_ok st2 (R + mset (queued q2)) \<and> agree (R + mset (queued q2)) st st2 \<and> queue_wf st2 q2
    \<and> pending st2 q2 = post \<and> suffix (queued q2) (queued q)"
proof -
  obtain q1 st1 where one: "assemble (length l) q st = Some (l, q1, st1)" "store_ok st1 (R + mset (queued q1))"
      "agree (R + mset (queued q1)) st st1" "queue_wf st1 q1" "pending st1 q1 = 10 # post" "suffix (queued q1) (queued q)"
    using assemble_takes [OF ok wf, of "length l"] unfolding p by auto
  from one(5) obtain b rest where q1: "queued q1 = b # rest" by (cases "queued q1") auto
  with one(4) have "1 \<le> length (msg_text st1 b) - consumed q1" by (simp add: queue_wf_def Suc_le_eq)
  from consume_ok [OF one(2,4) q1 this] obtain q2 st2 where
    two: "fb_queue_consume q1 1 st1 = Some (q2, st2)" "store_ok st2 (R + mset (queued q2))"
      "agree (R + mset (queued q2)) st1 st2" "queue_wf st2 q2" "pending st2 q2 = post" "suffix (queued q2) (queued q1)"
    unfolding one(5) by auto
  have "agree (R + mset (queued q2)) st st2"
    by (rule agree_trans [OF one(3) two(3)]) (use two(6) in \<open>auto simp: suffix_def\<close>)
  with one(1) two suffix_order.trans [OF two(6) one(6)] show ?thesis by blast
qed

text \<open>One round of the encoder: the line up to the first newline leaves as a packet.\<close>

lemma encode_one:
  assumes ok: "store_ok st (R + refs c)" and "queue_wf st (fb_out c)" and wf: "queue_wf st (fb_assembly c)"
    and ne: "queued (fb_assembly c) \<noteq> []" and "reliable c"
    and p: "pending st (fb_assembly c) = x @ tail_text st (fb_assembly c)"
    and tail: "tail_text st (fb_assembly c) = l @ 10 # post" and l: "10 \<notin> set l" "0 \<notin> set l"
  shows "\<exists>st' c'. fb_websocket_encode st c =
      (if fb_queue_empty (fb_assembly c') then Some (st', c') else fb_websocket_encode st' c')
    \<and> store_ok st' (R + refs c') \<and> agree (R + mset (queued (fb_assembly c'))) st st' \<and> queue_wf st' (fb_out c')
    \<and> queue_wf st' (fb_assembly c') \<and> reliable c' \<and> same_but_output c (c'\<lparr>fb_assembly := fb_assembly c\<rparr>)
    \<and> stream st' c' = stream st c @ websocket_packet (x @ l) \<and> pending st' (fb_assembly c') = post
    \<and> suffix (queued (fb_assembly c')) (queued (fb_assembly c))"
proof -
  let ?ass = "fb_assembly c" and ?R = "R + mset (queued (fb_out c))"
  let ?start = "if length (queued ?ass) = 1 then consumed ?ass else 0" and ?last = "last (queued ?ass)"
  have newline: "newline_from ?start (msg_text st ?last) = Some (?start + length l)"
    using tail l by (intro newline_from_some [where rest = post]) (auto simp: tail_text_def)
  have size: "?start + length l + sum_list (map (\<lambda>a. length (msg_text st a)) (butlast (queued ?ass))) - consumed ?ass
      = length (x @ l)"
    using pending_tail [OF wf ne] p by (auto simp: length_Suc_conv split: if_splits)
  have "store_ok st (?R + mset (queued ?ass))" using ok by (simp add: refs_def ac_simps)
  from take_line [OF this wf, of "x @ l" post] obtain q1 st1 q2 st2 where
    one: "assemble (length (x @ l)) ?ass st = Some (x @ l, q1, st1)" "fb_queue_consume q1 1 st1 = Some (q2, st2)"
      "store_ok st2 (?R + mset (queued q2))" "agree (?R + mset (queued q2)) st st2" "queue_wf st2 q2"
      "pending st2 q2 = post" "suffix (queued q2) (queued ?ass)"
    unfolding p tail by auto
  let ?c = "c\<lparr>fb_assembly := q2\<rparr>"
  have wf2: "queue_wf st2 (fb_out c)" "pending st2 (fb_out c) = pending st (fb_out c)"
    using agree_queue_wf [OF one(4), of "fb_out c"] agree_pending [OF one(4), of "fb_out c"] assms(2) by auto
  have "store_ok st2 (R + refs ?c)" "queue_wf st2 (fb_out ?c)" "reliable ?c"
    using one(3) wf2 assms(5) by (simp_all add: refs_def reliable_def ac_simps)
  from queue_http_delivers [OF this packet_nonempty [of "x @ l"]] obtain st3 c3 where
    three: "fb_queue_http (websocket_packet (x @ l)) st2 ?c = Some (st3, c3)" "store_ok st3 (R + refs c3)"
      "agree (R + mset (queued q2)) st2 st3" "queue_wf st3 (fb_out c3)"
      "stream st3 c3 = stream st2 ?c @ websocket_packet (x @ l)" "same_but_output ?c c3" "reliable c3"
    by auto
  have ass3: "fb_assembly c3 = q2" using three(6) by (simp add: same_but_output_iff)
  have "fb_websocket_encode st c = (if fb_queue_empty q2 then Some (st3, c3) else fb_websocket_encode st3 c3)"
    unfolding fb_websocket_encode.simps [of st c] Let_def newline option.simps size one(1)
    using ne one(2) three(1) by (simp add: websocket_packet_def ass3)
  moreover have "agree (R + mset (queued q2)) st st3" by (rule agree_trans [OF one(4) three(3)]) simp
  moreover have "queue_wf st3 q2" "pending st3 q2 = post"
    using agree_queue_wf [OF three(3), of q2] agree_pending [OF three(3), of q2] one(5,6) by auto
  moreover have "stream st3 c3 = stream st c @ websocket_packet (x @ l)"
    using three(5) wf2(2) by (simp add: stream_def)
  moreover have "same_but_output c (c3\<lparr>fb_assembly := fb_assembly c\<rparr>)"
    using three(6) by (simp add: same_but_output_iff)
  ultimately show ?thesis using three(2,4,7) one(7) unfolding ass3 [symmetric] by blast
qed

text \<open>
  The encoder queues one packet for each line that is complete and keeps the beginning of the next; it is called when
  only the last message of the assembly queue can hold the end of a line.
\<close>

lemma encode_lines:
  assumes "store_ok st (R + refs c)" and "queue_wf st (fb_out c)" and "queue_wf st (fb_assembly c)"
    and "queued (fb_assembly c) \<noteq> []" and "reliable c"
    and "pending st (fb_assembly c) = x @ tail_text st (fb_assembly c)" and "10 \<notin> set x"
    and "0 \<notin> set (tail_text st (fb_assembly c))"
  shows "\<exists>st' c'. fb_websocket_encode st c = Some (st', c') \<and> store_ok st' (R + refs c') \<and> agree R st st'
    \<and> queue_wf st' (fb_out c') \<and> queue_wf st' (fb_assembly c') \<and> reliable c'
    \<and> same_but_output c (c'\<lparr>fb_assembly := fb_assembly c\<rparr>)
    \<and> stream st' c' = stream st c @ packets (fst (cut_lines (pending st (fb_assembly c))))
    \<and> pending st' (fb_assembly c') = snd (cut_lines (pending st (fb_assembly c)))"
  using assms
proof (induction "length (tail_text st (fb_assembly c))" arbitrary: st c x rule: less_induct)
  case less
  let ?ass = "fb_assembly c"
  show ?case
  proof (cases "10 \<in> set (tail_text st ?ass)")
    case False
    then have "newline_from (if length (queued ?ass) = 1 then consumed ?ass else 0) (msg_text st (last (queued ?ass))) = None"
      by (intro newline_from_none) (simp add: tail_text_def)
    then have "fb_websocket_encode st c = Some (st, c)"
      using less.prems(4) by (subst fb_websocket_encode.simps) simp
    moreover have "10 \<notin> set (pending st ?ass)" using False less.prems(6,7) by simp
    ultimately show ?thesis
      using less.prems by (simp add: packets_def same_but_output_refl)
  next
    case True
    then obtain l post where tail: "tail_text st ?ass = l @ 10 # post" and l: "10 \<notin> set l"
      using split_newline by blast
    have zero: "0 \<notin> set l" "0 \<notin> set post" using less.prems(8) tail by auto
    from encode_one [OF less.prems(1-6) tail l zero(1)] obtain st1 c1 where
      one: "fb_websocket_encode st c = (if fb_queue_empty (fb_assembly c1) then Some (st1, c1) else fb_websocket_encode st1 c1)"
        "store_ok st1 (R + refs c1)" "agree (R + mset (queued (fb_assembly c1))) st st1" "queue_wf st1 (fb_out c1)"
        "queue_wf st1 (fb_assembly c1)" "reliable c1" "same_but_output c (c1\<lparr>fb_assembly := fb_assembly c\<rparr>)"
        "stream st1 c1 = stream st c @ websocket_packet (x @ l)" "pending st1 (fb_assembly c1) = post"
        "suffix (queued (fb_assembly c1)) (queued ?ass)"
      by blast
    have agree1: "agree R st st1" by (rule agree_mono [OF one(3)]) simp
    have "pending st ?ass = (x @ l) @ 10 # post" using less.prems(6) tail by simp
    then have cut: "cut_lines (pending st ?ass) = ((x @ l) # fst (cut_lines post), snd (cut_lines post))"
      using l less.prems(7) by (simp add: cut_lines_line del: append_assoc)
    show ?thesis
    proof (cases "fb_queue_empty (fb_assembly c1)")
      case True
      then have "post = []" using one(9) by (simp add: fb_queue_empty_def)
      with True one agree1 cut show ?thesis by (simp add: packets_def fb_queue_empty_def)
    next
      case False
      have "length post < length (msg_text st (last (queued ?ass)))"
        using arg_cong [OF tail, of length] by (simp add: tail_text_def split: if_splits)
      then have single: "queued (fb_assembly c1) = [last (queued ?ass)]"
        using False by (intro short_queue [OF one(10,5)])
          (auto simp: fb_queue_empty_def one(9) intro: agree_mono [OF one(3)])
      then have rest: "tail_text st1 (fb_assembly c1) = post" using one(9) by (simp add: tail_text_def pending_def)
      with less.hyps [of st1 c1 "[]"] one(2,4,5,6,9) single zero(2) obtain st2 c2 where
        two: "fb_websocket_encode st1 c1 = Some (st2, c2)" "store_ok st2 (R + refs c2)" "agree R st1 st2"
          "queue_wf st2 (fb_out c2)" "queue_wf st2 (fb_assembly c2)" "reliable c2"
          "same_but_output c1 (c2\<lparr>fb_assembly := fb_assembly c1\<rparr>)"
          "stream st2 c2 = stream st1 c1 @ packets (fst (cut_lines post))"
          "pending st2 (fb_assembly c2) = snd (cut_lines post)"
        by (auto simp: tail)
      moreover have "agree R st st2" by (rule agree_trans [OF agree1 two(3)]) simp
      moreover have "same_but_output c (c2\<lparr>fb_assembly := fb_assembly c\<rparr>)"
        using one(7) two(7) by (simp add: same_but_output_iff)
      ultimately show ?thesis using False one(1,8) cut by (simp add: packets_def)
    qed
  qed
qed

end
