(* ===== verification/FbPrinting.thy ===== *)
theory FbPrinting
  imports FbChannel
begin

text \<open>
  The contract of an output channel, as a locale, and its two implementations in libfootball: connections in line
  mode and websockets.  The properties say what has been sent and queued after any interleaving of printing
  and writing, that the send loop ends, and that an error leaves the queue in a state in which the next message is
  cut short or read out of bounds.
\<close>

section \<open>Channels\<close>

datatype out_op = Print bytes | Write_ready

primrec printed :: "out_op list \<Rightarrow> bytes" where
  "printed [] = []"
| "printed (op # ops) = (case op of Print t \<Rightarrow> t | Write_ready \<Rightarrow> []) @ printed ops"

primrec run_ops :: "(bytes \<Rightarrow> 's \<Rightarrow> 's option) \<Rightarrow> ('s \<Rightarrow> 's option) \<Rightarrow> out_op list \<Rightarrow> 's \<Rightarrow> 's option" where
  "run_ops pr wr [] s = Some s"
| "run_ops pr wr (op # ops) s =
    Option.bind (case op of Print t \<Rightarrow> pr t s | Write_ready \<Rightarrow> wr s) (run_ops pr wr ops)"

locale channel =
  fixes pr :: "bytes \<Rightarrow> 's \<Rightarrow> 's option"
    and wr :: "'s \<Rightarrow> 's option"
    and holds :: "bytes \<Rightarrow> 's \<Rightarrow> bool"
    and printable :: "bytes \<Rightarrow> bool"
  assumes print_extends: "holds p s \<Longrightarrow> printable t \<Longrightarrow> \<exists>s'. pr t s = Some s' \<and> holds (p @ t) s'"
    and write_keeps: "holds p s \<Longrightarrow> \<exists>s'. wr s = Some s' \<and> holds p s'"
    and printable_append: "printable (t @ u) \<Longrightarrow> printable t \<and> printable u"
begin

lemma run_holds:
  "holds p s \<Longrightarrow> printable (printed ops) \<Longrightarrow> \<exists>s'. run_ops pr wr ops s = Some s' \<and> holds (p @ printed ops) s'"
proof (induction ops arbitrary: p s)
  case (Cons op ops)
  show ?case
  proof (cases op)
    case (Print t)
    with Cons.prems print_extends [of p s t] printable_append [of t "printed ops"] obtain s1
      where s1: "pr t s = Some s1" "holds (p @ t) s1" by auto
    with Cons.IH [OF s1(2)] Cons.prems(2) printable_append [of t "printed ops"] Print show ?thesis by auto
  next
    case Write_ready
    with Cons.prems(1) write_keeps obtain s1 where s1: "wr s = Some s1" "holds p s1" by blast
    with Cons.IH [OF s1(2)] Cons.prems(2) Write_ready show ?thesis by auto
  qed
qed simp

end

text \<open>The operations of a connection, and a sequence of them.\<close>

definition print_to :: "bytes \<Rightarrow> fb_store \<times> fb_connection \<Rightarrow> (fb_store \<times> fb_connection) option" where
  "print_to t s = map_option snd (fb_printf t (fst s) (snd s))"

definition write_to :: "fb_store \<times> fb_connection \<Rightarrow> (fb_store \<times> fb_connection) option" where
  "write_to s = map_option snd (fb_send_output True (fst s) (snd s))"

definition out_run :: "out_op list \<Rightarrow> fb_store \<times> fb_connection \<Rightarrow> (fb_store \<times> fb_connection) option" where
  "out_run = run_ops print_to write_to"

section \<open>What both kinds of connections share\<close>

definition sendable :: "nat multiset \<Rightarrow> fb_store \<times> fb_connection \<Rightarrow> bool" where
  "sendable R s \<longleftrightarrow> (case s of (st, c) \<Rightarrow> store_ok st (R + refs c) \<and> queue_wf st (fb_out c)
    \<and> queue_wf st (fb_assembly c) \<and> reliable c \<and> fb_state c = OPEN \<and> fb_filename c = None)"

lemma print_empty:
  assumes "sendable R (st, c)"
  shows "\<exists>st'. print_to [] (st, c) = Some (st', c) \<and> sendable R (st', c) \<and> stream st' c = stream st c
    \<and> pending st' (fb_assembly c) = pending st (fb_assembly c)"
proof -
  obtain a st1 where create: "fb_create_message [] st = (a, st1)" by (cases "fb_create_message [] st")
  have ok: "store_ok st (R + refs c)" using assms by (simp add: sendable_def)
  note new = create_ok [OF ok create]
  from free_ok [OF new(1)] obtain st2
    where st2: "fb_messagefree a st1 = Some st2" "store_ok st2 (R + refs c)" "agree (R + refs c) st1 st2" by blast
  have agree: "agree (R + refs c) st st2" by (rule agree_trans [OF new(3) st2(3)]) simp
  have sub: "mset (queued (fb_out c)) \<subseteq># R + refs c" "mset (queued (fb_assembly c)) \<subseteq># R + refs c"
    by (simp_all add: refs_def)
  have "print_to [] (st, c) = Some (st2, c)"
    using new(4) st2(1) by (simp add: print_to_def fb_printf_def create fb_queue_single_def)
  then show ?thesis
    using assms st2(2) agree_queue_wf [OF agree sub(1)] agree_queue_wf [OF agree sub(2)]
      agree_pending [OF agree sub(1)] agree_pending [OF agree sub(2)]
    by (simp add: sendable_def stream_def)
qed

text \<open>A fresh message in one of the queues.\<close>

lemma print_created:
  assumes "sendable R (st, c)" and "t \<noteq> []" and create: "fb_create_message t st = (a, st1)"
  shows "store_ok st1 (R + refs c + {#a#})" "queue_wf st1 (fb_out c)" "queue_wf st1 (fb_assembly c)"
    "pending st1 (fb_out c) = pending st (fb_out c)" "pending st1 (fb_assembly c) = pending st (fb_assembly c)"
    "msg_text st1 a = t" "agree (R + refs c) st st1"
proof -
  have ok: "store_ok st (R + refs c)" using assms by (simp add: sendable_def)
  note new = create_ok [OF ok create]
  have sub: "mset (queued (fb_out c)) \<subseteq># R + refs c" "mset (queued (fb_assembly c)) \<subseteq># R + refs c"
    by (simp_all add: refs_def)
  show "store_ok st1 (R + refs c + {#a#})" "msg_text st1 a = t" "agree (R + refs c) st st1" using new by simp_all
  show "queue_wf st1 (fb_out c)" "queue_wf st1 (fb_assembly c)"
    "pending st1 (fb_out c) = pending st (fb_out c)" "pending st1 (fb_assembly c) = pending st (fb_assembly c)"
    using assms(1) agree_queue_wf [OF new(3) sub(1)] agree_queue_wf [OF new(3) sub(2)]
      agree_pending [OF new(3) sub(1)] agree_pending [OF new(3) sub(2)] by (simp_all add: sendable_def)
qed

lemma reliable_flush:
  assumes f: "flushed (R + mset (queued (fb_assembly c))) st c st' c'" and s: "sendable R (st, c)"
  shows "sendable R (st', c')" "stream st' c' = stream st c" "fb_http c' = fb_http c" "fb_assembly c' = fb_assembly c"
    "pending st' (fb_assembly c) = pending st (fb_assembly c)"
proof -
  let ?R = "R + mset (queued (fb_assembly c))"
  have d: "delivered st c st' c'" "reliable c'"
    using f s by (auto simp: flushed_def broken_def sendable_def reliable_def)
  have agree: "agree ?R st st'" using f by (simp add: flushed_def)
  have same: "same_but_output c c'" using d by (simp add: delivered_def)
  have "queue_wf st' (fb_assembly c)" "pending st' (fb_assembly c) = pending st (fb_assembly c)"
    using agree_queue_wf [OF agree, of "fb_assembly c"] agree_pending [OF agree, of "fb_assembly c"] s
    by (auto simp: sendable_def)
  then show "sendable R (st', c')" "stream st' c' = stream st c" "fb_http c' = fb_http c" "fb_assembly c' = fb_assembly c"
    "pending st' (fb_assembly c) = pending st (fb_assembly c)"
    using f d same s by (auto simp: sendable_def flushed_def delivered_def same_but_output_iff refs_def add.assoc)
qed

lemma sendable_send:
  assumes "sendable R (st, c)"
  shows "\<exists>st' c'. fb_send_output False st c = Some (Quiet, st', c') \<and> sendable R (st', c')
    \<and> stream st' c' = stream st c \<and> fb_http c' = fb_http c \<and> fb_assembly c' = fb_assembly c
    \<and> pending st' (fb_assembly c) = pending st (fb_assembly c)"
proof -
  have "store_ok st (R + mset (queued (fb_assembly c)) + mset (queued (fb_out c)))" "queue_wf st (fb_out c)"
    using assms by (simp_all add: sendable_def refs_def add.assoc)
  from send_output_flushes [OF this] obtain st' c' where
    "fb_send_output False st c = Some (Quiet, st', c')" "flushed (R + mset (queued (fb_assembly c))) st c st' c'" by blast
  with reliable_flush [OF this(2) assms] show ?thesis by blast
qed

lemma sendable_write:
  assumes "sendable R (st, c)"
  shows "\<exists>st' c'. write_to (st, c) = Some (st', c') \<and> sendable R (st', c')
    \<and> stream st' c' = stream st c \<and> fb_http c' = fb_http c \<and> fb_assembly c' = fb_assembly c
    \<and> pending st' (fb_assembly c) = pending st (fb_assembly c)"
proof (cases "fb_queue_empty (fb_out c)")
  case True
  then have "write_to (st, c) = Some (st, c\<lparr>writing := False\<rparr>)"
    using assms by (simp add: write_to_def fb_send_output_def sendable_def)
  then show ?thesis using assms by (auto simp: sendable_def refs_def reliable_def stream_def)
next
  case False
  then have "fb_send_output True st c = fb_send_output False st c" by (simp add: fb_send_output_def)
  then show ?thesis using sendable_send [OF assms] by (auto simp: write_to_def)
qed

section \<open>Line connections\<close>

definition line_holds :: "nat multiset \<Rightarrow> bytes \<Rightarrow> bytes \<Rightarrow> fb_store \<times> fb_connection \<Rightarrow> bool" where
  "line_holds R s0 p s \<longleftrightarrow> sendable R s \<and> \<not> fb_http (snd s) \<and> stream (fst s) (snd s) = s0 @ p"

lemma line_print:
  assumes "line_holds R s0 p (st, c)"
  shows "\<exists>s'. print_to t (st, c) = Some s' \<and> line_holds R s0 (p @ t) s'"
proof (cases "t = []")
  case True
  with assms print_empty [of R st c] show ?thesis by (auto simp: line_holds_def)
next
  case False
  obtain a st1 where create: "fb_create_message t st = (a, st1)" by (cases "fb_create_message t st")
  have s: "sendable R (st, c)" using assms by (simp add: line_holds_def)
  note new = print_created [OF s False create]
  let ?c = "c\<lparr>fb_out := fb_queue_add (fb_out c) a\<rparr>"
  have add: "queue_wf st1 (fb_out ?c)" "pending st1 (fb_out ?c) = pending st (fb_out c) @ t"
    using add_pending [OF new(2), of a] new(4,6) False by simp_all
  have "sendable R (st1, ?c)"
    using s new(1,3) add(1) by (simp add: sendable_def refs_def reliable_def fb_queue_add_def ac_simps)
  from sendable_send [OF this] obtain st2 c2 where
    two: "fb_send_output False st1 ?c = Some (Quiet, st2, c2)" "sendable R (st2, c2)" "stream st2 c2 = stream st1 ?c"
      "fb_http c2 = fb_http c" by auto
  then have "print_to t (st, c) = Some (st2, c2)"
    using assms False new(6)
    by (auto simp: print_to_def fb_printf_def create fb_queue_single_def unsendable_def line_holds_def sendable_def)
  with two assms add(2) show ?thesis by (auto simp: line_holds_def stream_def)
qed

interpretation line: channel print_to write_to "line_holds R s0" "\<lambda>_. True"
proof
  show "\<exists>s'. print_to t s = Some s' \<and> line_holds R s0 (p @ t) s'" if "line_holds R s0 p s" for p s t
    using that line_print by (cases s) simp
  show "\<exists>s'. write_to s = Some s' \<and> line_holds R s0 p s'" if "line_holds R s0 p s" for p s
    using that sendable_write [of R "fst s" "snd s"] by (cases s) (auto simp: line_holds_def)
qed simp

section \<open>Websockets\<close>

definition socket_holds :: "nat multiset \<Rightarrow> bytes \<Rightarrow> bytes \<Rightarrow> fb_store \<times> fb_connection \<Rightarrow> bool" where
  "socket_holds R s0 p s \<longleftrightarrow> sendable R s \<and> fb_http (snd s)
    \<and> stream (fst s) (snd s) = s0 @ packets (fst (cut_lines p))
    \<and> pending (fst s) (fb_assembly (snd s)) = snd (cut_lines p)"

lemma socket_print:
  assumes "socket_holds R s0 p (st, c)" and "0 \<notin> set t"
  shows "\<exists>s'. print_to t (st, c) = Some s' \<and> socket_holds R s0 (p @ t) s'"
proof (cases "t = []")
  case True
  with assms print_empty [of R st c] show ?thesis by (auto simp: socket_holds_def)
next
  case False
  obtain a st1 where create: "fb_create_message t st = (a, st1)" by (cases "fb_create_message t st")
  have s: "sendable R (st, c)" using assms by (simp add: socket_holds_def)
  note new = print_created [OF s False create]
  let ?c = "c\<lparr>fb_assembly := fb_queue_add (fb_assembly c) a\<rparr>" and ?rest = "snd (cut_lines p)"
  have add: "queue_wf st1 (fb_assembly ?c)" "pending st1 (fb_assembly ?c) = ?rest @ t"
    using add_pending [OF new(3), of a] new(5,6) False assms(1) by (simp_all add: socket_holds_def)
  have tail: "tail_text st1 (fb_assembly ?c) = t"
    using new(3,6) by (cases "queued (fb_assembly c)") (simp_all add: tail_text_def fb_queue_add_def queue_wf_def)
  have ok: "store_ok st1 (R + refs ?c)" "queue_wf st1 (fb_out ?c)" "queued (fb_assembly ?c) \<noteq> []" "reliable ?c"
    using s new(1,2) by (simp_all add: sendable_def refs_def reliable_def fb_queue_add_def ac_simps)
  obtain st2 c2 where
    two: "fb_websocket_encode st1 ?c = Some (st2, c2)" "store_ok st2 (R + refs c2)" "queue_wf st2 (fb_out c2)"
      "queue_wf st2 (fb_assembly c2)" "reliable c2" "same_but_output ?c (c2\<lparr>fb_assembly := fb_assembly ?c\<rparr>)"
      "stream st2 c2 = stream st1 ?c @ packets (fst (cut_lines (?rest @ t)))"
      "pending st2 (fb_assembly c2) = snd (cut_lines (?rest @ t))"
    using encode_lines [OF ok(1,2) add(1) ok(3,4), of ?rest] unfolding add(2) tail
    using assms(2) cut_lines_rest [of p] by auto
  have "stream st1 ?c = stream st c" using new(4) by (simp add: stream_def)
  moreover have "sendable R (st2, c2)" using two s by (simp add: sendable_def same_but_output_iff)
  ultimately obtain st3 c3 where
    three: "fb_send_output False st2 c2 = Some (Quiet, st3, c3)" "sendable R (st3, c3)" "stream st3 c3 = stream st2 c2"
      "fb_http c3 = fb_http c" "fb_assembly c3 = fb_assembly c2"
      "pending st3 (fb_assembly c2) = pending st2 (fb_assembly c2)"
    using sendable_send [of R st2 c2] two(6) by (auto simp: same_but_output_iff)
  have "print_to t (st, c) = Some (st3, c3)"
    using assms False new(6) two(1) three(1)
    by (auto simp: print_to_def fb_printf_def create fb_queue_single_def unsendable_def socket_holds_def sendable_def)
  moreover have "socket_holds R s0 (p @ t) (st3, c3)"
    using assms(1) two(7,8) three \<open>stream st1 ?c = stream st c\<close>
    by (simp add: socket_holds_def cut_lines_append [of p t] packets_def)
  ultimately show ?thesis by blast
qed

interpretation socket: channel print_to write_to "socket_holds R s0" "\<lambda>t. 0 \<notin> set t"
proof
  show "\<exists>s'. print_to t s = Some s' \<and> socket_holds R s0 (p @ t) s'" if "socket_holds R s0 p s" "0 \<notin> set t" for p s t
    using that socket_print by (cases s) simp
  show "\<exists>s'. write_to s = Some s' \<and> socket_holds R s0 p s'" if "socket_holds R s0 p s" for p s
    using that sendable_write [of R "fst s" "snd s"] by (cases s) (auto simp: socket_holds_def)
qed auto

section \<open>The properties\<close>

definition open_connection :: "nat \<Rightarrow> bool \<Rightarrow> send_result stream \<Rightarrow> fb_connection" where
  "open_connection fd web results = \<lparr>fb_socket = fd, fb_service = 0, fb_state = OPEN, fb_greeted = False, fb_http = web,
    fb_encrypted = False, fb_request = blank_request, fb_assembly = empty_queue, fb_out = empty_queue, fb_in = [],
    fb_capacity = 0, fb_filename = None, fb_file = [], reading = True, writing = False, buffering = False, sends = results,
    receives = sconst Recv_again, handshakes = sconst Handshake_wait, sent = []\<rparr>"

lemma open_sendable:
  "Send_error \<notin> sset results \<Longrightarrow> sendable {#} (initial_store, open_connection fd web results)"
  using store_ok_initial
  by (simp add: sendable_def open_connection_def refs_def reliable_def empty_queue_def queue_wf_def)

text \<open>
  C33: What is printed to a connection in line mode arrives in order: whatever is printed, in whatever pieces the socket
  takes it, and whenever the socket is ready for more, the bytes that the socket has taken followed by those
  that are still queued are the texts printed, one after the other.  No operation fails an assertion or
  reads outside a message, and afterwards the use counts are exact: every message block that is not queued has been
  freed, and none that is queued.  The socket may take nothing or part of what it is offered; it does not fail.
\<close>

theorem line_output_in_order:
  assumes "Send_error \<notin> sset results"
  shows "\<exists>st c. out_run ops (initial_store, open_connection fd False results) = Some (st, c)
    \<and> sent c @ pending st (fb_out c) = printed ops \<and> store_ok st (refs c)"
proof -
  have "line_holds {#} [] [] (initial_store, open_connection fd False results)"
    using open_sendable [OF assms] by (simp add: line_holds_def stream_def open_connection_def empty_queue_def)
  from line.run_holds [OF this, of ops] show ?thesis
    by (auto simp: out_run_def line_holds_def stream_def sendable_def)
qed

theorem line_output_in_order_witness:
  "\<exists>st c. out_run [Print [104, 105], Write_ready, Print [10]]
      (initial_store, open_connection 5 False (Took 1 ## sconst Send_again)) = Some (st, c)
    \<and> sent c @ pending st (fb_out c) = [104, 105, 10] \<and> store_ok st (refs c)"
  using line_output_in_order [of "Took 1 ## sconst Send_again" "[Print [104, 105], Write_ready, Print [10]]" 5]
  by simp

text \<open>
  C34: What is printed to a websocket arrives as packets: after any sequence of prints and writes on a socket that does not fail, though
  it may take nothing or part of what it is offered, the bytes sent and queued are packets from which a client that follows RFC 6455 reads exactly the lines that have been completed so far, each
  once and in order, and the beginning of the next line waits in the assembly queue.  A line may be printed in any
  number of pieces, and a piece may end several lines; the texts have no NUL and together less than 2 ^ 32 bytes.
\<close>

theorem websocket_lines_roundtrip:
  assumes "Send_error \<notin> sset results" and "0 \<notin> set (printed ops)" and "length (printed ops) < 2 ^ 32"
  shows "\<exists>st c. out_run ops (initial_store, open_connection fd True results) = Some (st, c)
    \<and> read_packets (sent c @ pending st (fb_out c)) = Some (fst (cut_lines (printed ops)))
    \<and> pending st (fb_assembly c) = snd (cut_lines (printed ops))"
proof -
  have "socket_holds {#} [] [] (initial_store, open_connection fd True results)"
    using open_sendable [OF assms(1)]
    by (simp add: socket_holds_def stream_def open_connection_def empty_queue_def packets_def)
  from socket.run_holds [OF this, of ops] assms(2) obtain st c
    where run: "out_run ops (initial_store, open_connection fd True results) = Some (st, c)"
      and holds: "socket_holds {#} [] (printed ops) (st, c)" by (auto simp: out_run_def)
  have "\<forall>l \<in> set (fst (cut_lines (printed ops))). length l < 2 ^ 32"
    using cut_lines_lengths [of _ "printed ops"] assms(3) by (meson le_less_trans)
  with run holds show ?thesis
    by (auto simp: socket_holds_def stream_def read_all_packets)
qed

theorem websocket_lines_roundtrip_witness:
  "\<exists>st c. out_run [Print [104, 105], Print [10, 104, 10, 105]] (initial_store, open_connection 5 True (sconst (Took 3)))
      = Some (st, c)
    \<and> read_packets (sent c @ pending st (fb_out c)) = Some [[104, 105], [104]]
    \<and> pending st (fb_assembly c) = [105]"
  using websocket_lines_roundtrip [of "sconst (Took 3)" "[Print [104, 105], Print [10, 104, 10, 105]]" 5]
  by (simp add: cut_lines.simps)

text \<open>
  C35: The send loop ends: whatever the socket answers to each call, for ever or not, also with an error, fb_send_output returns; it has
  then sent nothing but a prefix of what was queued, in order.  When it is called, the use counts of the message blocks are exact, and
  the position in the first queued message lies inside of it; printing and sending keep this as long as no send has failed, but an error
  leaves the position where it was (lemma position_survives_error), and what is queued after it may be read out of bounds.
\<close>

theorem fb_send_output_returns:
  assumes "store_ok st (R + mset (queued (fb_out c)))" and "queue_wf st (fb_out c)"
  shows "\<exists>outcome st' c'. fb_send_output event st c = Some (outcome, st', c')
    \<and> prefix (sent c') (sent c @ pending st (fb_out c))"
proof (cases "fb_queue_empty (fb_out c)")
  case True
  then show ?thesis by (auto simp: fb_send_output_def)
next
  case False
  then have "fb_send_output event st c = fb_send_output False st c" by (simp add: fb_send_output_def)
  moreover obtain st' c' where "fb_send_output False st c = Some (Quiet, st', c')" "flushed R st c st' c'"
    using send_output_flushes [OF assms] by blast
  moreover from this(2) have "prefix (sent c') (sent c @ pending st (fb_out c))"
    by (auto simp: flushed_def delivered_def broken_def stream_def intro: prefixI [OF sym])
  ultimately show ?thesis by auto
qed

definition waiting_store :: fb_store where
  "waiting_store = snd (fb_create_message [1, 2, 3] initial_store)"

definition waiting_connection :: "send_result stream \<Rightarrow> fb_connection" where
  "waiting_connection results = (open_connection 5 False results)\<lparr>fb_out := fb_queue_add empty_queue 0\<rparr>"

theorem fb_send_output_returns_witness:
  "\<exists>outcome st' c'. fb_send_output True waiting_store (waiting_connection (sconst (Took 1))) = Some (outcome, st', c')
    \<and> prefix (sent c') [1, 2, 3]"
  using fb_send_output_returns [of waiting_store "{#}" "waiting_connection (sconst (Took 1))" True]
    create_ok [OF store_ok_initial, of "[1, 2, 3]" 0 waiting_store]
  by (simp add: waiting_connection_def waiting_store_def open_connection_def empty_queue_def queue_wf_def
      fb_create_message_def fb_messagealloc_def initial_store_def fb_queue_add_def pending_def)

text \<open>
  After an error the position in the first message stays: the next message, queued before the connection has
  closed, is read behind its end.
\<close>

lemma position_survives_error:
  "out_run [Print [1, 2, 3]] (initial_store, open_connection 5 False (Took 2 ## Send_error ## sconst Send_again)) = Some (st, c) \<Longrightarrow>
    fb_state c = FLUSHING \<and> consumed (fb_out c) = 2 \<and> out_run [Print [1]] (st, c) = None"
  by (auto simp: out_run_def print_to_def fb_printf_def fb_create_message_def fb_messagealloc_def initial_store_def
      empty_message_def fb_queue_single_def unsendable_def open_connection_def empty_queue_def fb_queue_add_def
      fb_send_output_def fb_queue_empty_def send_loop.simps socket_send_def fb_queue_consume_def fb_queue_destroy_def
      fb_messagefree_def close_connection_def less_conn_state_def less_eq_conn_state_def min_def)

end
