(* ===== verification/FbRequestProofs.thy ===== *)
theory FbRequestProofs
  imports FbRequest FbPrinting
begin

text \<open>
  The websocket handshake is the one of RFC 6455, and serving files never leaves the served directory.
\<close>

section \<open>Writing several messages\<close>

definition out_ok :: "nat multiset \<Rightarrow> out_state \<Rightarrow> bool" where
  "out_ok R s \<longleftrightarrow> store_ok (fst s) (R + refs (snd s)) \<and> queue_wf (fst s) (fb_out (snd s)) \<and> reliable (snd s)"

definition wrote :: "nat multiset \<Rightarrow> bytes \<Rightarrow> out_state \<Rightarrow> out_state \<Rightarrow> bool" where
  "wrote R text s s' \<longleftrightarrow> out_ok R s' \<and> stream (fst s') (snd s') = stream (fst s) (snd s) @ text
    \<and> same_but_output (snd s) (snd s')"

lemma write_message_wrote:
  assumes "out_ok R s" and "text \<noteq> []"
  shows "\<exists>s'. write_message text s = Some s' \<and> wrote R (bytes_of text) s s'"
  using queue_http_delivers [of "fst s" R "snd s" "bytes_of text"] assms
  by (auto simp: out_ok_def wrote_def write_message_def bytes_of_def)

lemma write_message_then:
  assumes "out_ok R s" and "text \<noteq> []"
    and "\<And>s'. wrote R (bytes_of text) s s' \<Longrightarrow> \<exists>s''. f s' = Some s'' \<and> P s' s''"
  shows "\<exists>s' s''. Option.bind (write_message text s) f = Some s'' \<and> wrote R (bytes_of text) s s' \<and> P s' s''"
  using write_message_wrote [OF assms(1,2)] assms(3) by fastforce

lemma wrote_ok: "wrote R text s s' \<Longrightarrow> out_ok R s'"
  by (simp add: wrote_def)

lemma wrote_trans: "wrote R t s s' \<Longrightarrow> wrote R u s' s'' \<Longrightarrow> wrote R (t @ u) s s''"
  by (auto simp: wrote_def intro: same_but_output_trans)

section \<open>The accept code is base64\<close>

lemma high_bits: "drop_bit 4 (b AND 0xf0) = drop_bit 4 b AND (0xf :: byte)" "drop_bit 6 (b AND 0xc0) = drop_bit 6 b AND (0x3 :: byte)"
proof -
  have "(0xf0 :: byte) = push_bit 4 (mask 4)" "(0xf :: byte) = mask 4" "(0xc0 :: byte) = push_bit 6 (mask 2)" "(0x3 :: byte) = mask 2"
    by (simp_all add: mask_eq_exp_minus_1)
  then show "drop_bit 4 (b AND 0xf0) = drop_bit 4 b AND (0xf :: byte)" "drop_bit 6 (b AND 0xc0) = drop_bit 6 b AND (0x3 :: byte)"
    by (auto intro!: bit_word_eqI simp: bit_simps)
qed

lemma low_bits: "drop_bit 2 b AND 0x3f = drop_bit 2 (b :: byte)"
proof -
  have mask: "(0x3f :: byte) = mask 6" by (simp add: mask_eq_exp_minus_1)
  show ?thesis unfolding mask
    by (rule bit_word_eqI) (auto simp: bit_and_iff bit_drop_bit_eq bit_mask_iff dest: bit_imp_le_length)
qed

lemma code_as_text_base64:
  assumes "length d = 20"
  shows "code_as_text d = WaitressBase64Encode d"
proof -
  obtain d0 d1 d2 d3 d4 d5 d6 d7 d8 d9 e0 e1 e2 e3 e4 e5 e6 e7 e8 e9 where
    "d = [d0, d1, d2, d3, d4, d5, d6, d7, d8, d9, e0, e1, e2, e3, e4, e5, e6, e7, e8, e9]"
    using assms by (auto simp: numeral_eq_Suc length_Suc_conv)
  then show ?thesis
    by (simp add: code_as_text_def SHA1HashSize_def encodeblock_def high_bits low_bits)
qed

lemma length_sha1: "length (sha1 m) = 20"
proof -
  have "length (concat (map be_bytes h)) = 4 * length h" for h by (induction h) (simp_all add: be_bytes_def)
  then show ?thesis by (simp add: sha1_def length_hash)
qed

section \<open>The handshake\<close>

definition websocket_accept :: "string \<Rightarrow> string" where
  "websocket_accept key = WaitressBase64Encode (sha1 (bytes_of (key @ WEBSOCKET_GUID)))"

definition switching :: "string \<Rightarrow> string" where
  "switching key = concat [''HTTP/1.1 101 Switching Protocols'', eol, ''Upgrade: websocket'', eol,
    ''Connection: Upgrade'', eol, ''Sec-WebSocket-Accept: '', websocket_accept key, eol, eol]"

lemma websocket_accept_text: "code_as_text (sha1 (bytes_of (key @ WEBSOCKET_GUID))) = websocket_accept key"
  by (simp add: websocket_accept_def code_as_text_base64 length_sha1)

lemma websocket_accept_nonempty: "websocket_accept key \<noteq> []"
proof -
  have "length (websocket_accept key) = 28" by (simp add: websocket_accept_def base64_length length_sha1)
  then show ?thesis by auto
qed

lemma narrowed_input_short: "length text < 2 ^ 32 \<Longrightarrow> narrowed_input text = text"
  by (simp add: narrowed_input_def unat_of_nat take_bit_nat_eq_self)

lemma greet_websocket:
  assumes ok: "out_ok R s" and "rq_websocket_key (fb_request (snd s)) = Some key"
    and "rq_websocket_protocol (fb_request (snd s)) = None"
    and "length (Message_Block (stack_context w)) = 64" and "length key < 2 ^ 31"
  shows "\<exists>s'. fb_greet_websocket w s = Some (True, s') \<and> wrote R (bytes_of (switching key)) s s'"
proof -
  have "narrowed_input (bytes_of (key @ WEBSOCKET_GUID)) = bytes_of (key @ WEBSOCKET_GUID)"
    using assms(5) by (intro narrowed_input_short) (simp add: bytes_of_def WEBSOCKET_GUID_def)
  moreover have "digest_of_pieces (stack_context w) [bytes_of (key @ WEBSOCKET_GUID)]
      = Some (shaSuccess, sha1 (bytes_of (key @ WEBSOCKET_GUID)))"
    using SHA1_run [of "stack_context w" "[bytes_of (key @ WEBSOCKET_GUID)]"] assms(4,5)
    by (simp add: bytes_of_def WEBSOCKET_GUID_def)
  ultimately have digest: "digest_of_pieces (stack_context w) [narrowed_input (bytes_of (key @ WEBSOCKET_GUID))]
      = Some (shaSuccess, sha1 (bytes_of (key @ WEBSOCKET_GUID)))" by simp
  have eol: "eol \<noteq> []" by (simp add: eol_def)
  let ?head = "concat [''HTTP/1.1 101 Switching Protocols'', eol, ''Upgrade: websocket'', eol,
    ''Connection: Upgrade'', eol, ''Sec-WebSocket-Accept: '']"
  obtain s1 where 1: "write_message ?head s = Some s1" "wrote R (bytes_of ?head) s s1"
    using write_message_wrote [OF ok, of ?head] by auto
  obtain s2 where 2: "write_message (websocket_accept key) s1 = Some s2" "wrote R (bytes_of (websocket_accept key)) s1 s2"
    using write_message_wrote [OF wrote_ok [OF 1(2)] websocket_accept_nonempty [of key]] by auto
  obtain s3 where 3: "write_message eol s2 = Some s3" "wrote R (bytes_of eol) s2 s3"
    using write_message_wrote [OF wrote_ok [OF 2(2)] eol] by auto
  obtain s4 where 4: "write_message eol s3 = Some s4" "wrote R (bytes_of eol) s3 s4"
    using write_message_wrote [OF wrote_ok [OF 3(2)] eol] by auto
  note all = wrote_trans [OF 1(2) wrote_trans [OF 2(2) wrote_trans [OF 3(2) 4(2)]]]
  have "rq_websocket_protocol (fb_request (snd s3)) = None"
    using assms(3) wrote_trans [OF 1(2) wrote_trans [OF 2(2) 3(2)]] by (simp add: wrote_def same_but_output_iff)
  then have "fb_greet_websocket w s = Some (True, s4)"
    unfolding fb_greet_websocket_def assms(2) option.simps digest
    using 1(1) 2(1) 3(1) 4(1) by (simp add: websocket_accept_text)
  moreover have "wrote R (bytes_of (switching key)) s s4"
    using all by (simp add: switching_def bytes_of_def)
  ultimately show ?thesis by blast
qed

text \<open>A request for a websocket on the service itself.\<close>

definition upgrade_request :: "fb_options \<Rightarrow> string \<Rightarrow> http_request \<Rightarrow> bool" where
  "upgrade_request options key rq \<longleftrightarrow> \<not> rq_failure rq \<and> \<not> rq_invalid rq \<and> \<not> rq_unsupported rq \<and> rq_host rq \<noteq> None
    \<and> rq_http rq = Some HTTP_VERSION
    \<and> (opt_name options = None \<or> rq_service_name rq = None \<or> same_name (rq_service_name rq) (opt_name options))
    \<and> (case rq_upgrade_type rq of Some u \<Rightarrow> strcasecmp u ''websocket'' = 0 | None \<Rightarrow> False)
    \<and> rq_websocket_version rq = Some WEBSOCKET_VERSION \<and> rq_websocket_protocol rq = None \<and> rq_websocket_key rq = Some key"

text \<open>
  C38: The websocket handshake: a well-formed request with a host for this service that asks for a websocket in version 13, names no
  subprotocol (which would be answered with 415) and carries a key of less than 2 ^ 31 characters is answered with 101 and the code of RFC 6455,
  the base64 text of the SHA-1 digest of the key with the GUID of the protocol behind it; nothing else is sent, the connection is open
  and its request is forgotten.  The use counts and the output queue of the connection are in order when the request is executed, and the socket does
  not fail; it may take nothing or part of what it is offered.
\<close>

theorem websocket_handshake:
  assumes "store_ok st (R + refs c)" and "queue_wf st (fb_out c)" and "Send_error \<notin> sset (sends c)"
    and rq: "upgrade_request options key (fb_request c)"
    and "length (Message_Block (stack_context w)) = 64" and "length key < 2 ^ 31"
  shows "\<exists>st' c'. execute_request w options (st, c) = Some (Upgraded, st', c')
    \<and> sent c' @ pending st' (fb_out c') = sent c @ pending st (fb_out c) @ bytes_of (switching key)
    \<and> fb_state c' = OPEN \<and> fb_request c' = blank_request \<and> store_ok st' (R + refs c')"
proof -
  have "out_ok R (st, c)" using assms(1-3) by (simp add: out_ok_def reliable_def)
  from greet_websocket [OF this, of key w] rq assms(5,6) obtain st' c' where
    greet: "fb_greet_websocket w (st, c) = Some (True, st', c')" "wrote R (bytes_of (switching key)) (st, c) (st', c')"
    by (auto simp: upgrade_request_def)
  obtain u where u: "rq_upgrade_type (fb_request c) = Some u" "strcasecmp u ''websocket'' = 0"
    using rq by (auto simp: upgrade_request_def split: option.splits)
  have "execute_request w options (st, c) =
      Some (Upgraded, st', c'\<lparr>fb_state := OPEN, fb_request := blank_request\<rparr>)"
    using rq greet(1) u unfolding execute_request_def Let_def
    by (auto simp: upgrade_request_def fb_destroy_httprequest_def)
  with greet(2) show ?thesis by (auto simp: wrote_def out_ok_def stream_def refs_def)
qed

section \<open>Serving files stays inside\<close>

text \<open>The components of a path.\<close>

fun components :: "string \<Rightarrow> string list" where
  "components [] = [[]]"
| "components (c # cs) = (if c = CHR ''/'' then [] # components cs
    else (case components cs of k # ks \<Rightarrow> (c # k) # ks | [] \<Rightarrow> [[c]]))"

definition inside :: "string \<Rightarrow> bool" where
  "inside file \<longleftrightarrow> (\<forall>k \<in> set (components file). take 1 k \<noteq> ''.'')"

lemma components_ne: "components cs \<noteq> []"
  by (induction cs) (auto split: list.split)

lemma hd_component: "take 1 (hd (components cs)) = ''.'' \<longleftrightarrow> take 1 cs = ''.''"
proof (cases cs)
  case (Cons c ds)
  then show ?thesis using components_ne [of ds] by (cases "components ds") auto
qed simp

lemma strstr_Cons: "strstr (c # cs) n \<longleftrightarrow> has_prefix n (c # cs) \<or> strstr cs n" if "n \<noteq> []"
  using that by (simp add: strstr_iff) (metis append_Cons append_self_conv2 has_prefix_iff list.inject neq_Nil_conv)

lemma inside_tail: "(\<forall>k \<in> set (tl (components cs)). take 1 k \<noteq> ''.'') \<longleftrightarrow> \<not> strstr cs ''/.''"
proof (induction cs)
  case (Cons c cs)
  obtain k ks where ks: "components cs = k # ks" using components_ne by (cases "components cs") auto
  show ?case
  proof (cases "c = CHR ''/''")
    case True
    have "take 1 k = ''.'' \<longleftrightarrow> take 1 cs = ''.''" using hd_component [of cs] by (simp add: ks)
    moreover have "has_prefix ''/.'' (c # cs) \<longleftrightarrow> take 1 cs = ''.''" using True by (cases cs) auto
    ultimately have "has_prefix ''/.'' (c # cs) \<longleftrightarrow> take 1 k = ''.''" by simp
    with True Cons.IH show ?thesis by (auto simp: ks strstr_Cons)
  next
    case False
    with Cons.IH show ?thesis by (simp add: ks strstr_Cons)
  qed
qed simp

lemma malicious_inside: "\<not> malicious_request f \<longleftrightarrow> inside f"
proof -
  have "set (components f) = insert (hd (components f)) (set (tl (components f)))"
    using components_ne [of f] by (metis list.collapse list.simps(15))
  then show ?thesis
    using inside_tail [of f] hd_component [of f] by (auto simp: malicious_request_def inside_def)
qed

lemma served_path_inside: "served_path options f = Some p \<Longrightarrow> \<exists>d. serve_directory options = Some d \<and> inside f \<and> p = d @ ''/'' @ f"
  by (auto simp: served_path_def malicious_inside split: option.splits if_splits)

lemma same_headers: "today w' = today w \<Longrightarrow> http_header w' = http_header w"
  by (intro ext) (simp add: http_header_def)

lemma same_answers:
  assumes "today w' = today w"
  shows "http_response w' = http_response w" "redirect_to_subdirectory w' = redirect_to_subdirectory w"
  by (intro ext; simp add: http_response_def redirect_to_subdirectory_def http_redirect_def same_headers [OF assms])+

lemma same_data:
  assumes "today w' = today w" and "expiry w' = expiry w"
  shows "http_serve_data w' = http_serve_data w"
  unfolding http_serve_data_def [abs_def] same_answers [OF assms(1)] assms by (rule refl)

lemma same_greeting:
  assumes "stack_context w' = stack_context w"
  shows "fb_greet_websocket w' = fb_greet_websocket w"
  unfolding fb_greet_websocket_def [abs_def] assms by (rule refl)

text \<open>
  C39: Requests never reach files outside the served directory: two worlds that agree on the files
  whose path is the served directory followed by components none of which begins with a dot
  (and on the dates) give every request the same answer.  So neither a parent directory nor a hidden file,
  nor whether it exists, has any influence on what a client is sent.
\<close>

theorem served_files_inside:
  assumes "today w' = today w" and "expiry w' = expiry w" and "stack_context w' = stack_context w"
    and "\<And>d f. serve_directory options = Some d \<Longrightarrow> inside f \<Longrightarrow> open_file w' (d @ ''/'' @ f) = open_file w (d @ ''/'' @ f)"
  shows "execute_request w' options s = execute_request w options s"
proof -
  have "http_file_request w' options s = http_file_request w options s"
    using served_path_inside [of options "requested_file (rq_filename (fb_request (snd s)))"] assms(4)
    unfolding http_file_request_def Let_def same_answers [OF assms(1)] same_data [OF assms(1,2)]
    by (auto split: option.split)
  then show ?thesis
    unfolding execute_request_def
    by (simp only: same_answers [OF assms(1)] same_headers [OF assms(1)] same_greeting [OF assms(3)])
qed

definition demo_options :: fb_options where
  "demo_options = \<lparr>line_port = 4445, http_port = 4446, https_port = 4447, opt_greeting = ''HELO'', opt_name = Some ''pianod'',
    serve_directory = Some ''/www'', opt_mode = GREETING_ALLOW, transfer_only = False, opt_parent = None\<rparr>"

definition demo_web :: "(string \<Rightarrow> opened) \<Rightarrow> web" where
  "demo_web files = \<lparr>today = ''today'', expiry = ''tomorrow'', open_file = files, stack_context = no_context\<rparr>"

definition requesting :: "http_request \<Rightarrow> fb_connection" where
  "requesting rq = (open_connection 5 True (sconst (Took 10)))\<lparr>fb_state := GATHERING_HEADER, fb_request := rq\<rparr>"

theorem served_files_inside_witness:
  "execute_request (demo_web (\<lambda>p. if p = ''/www/../etc/passwd'' then Forbidden else Missing)) demo_options
      (initial_store, requesting (blank_request\<lparr>rq_host := Some ''h'', rq_http := Some HTTP_VERSION,
        rq_service_name := Some ''pianod'', rq_filename := Some ''../etc/passwd''\<rparr>))
    = execute_request (demo_web (\<lambda>p. Missing)) demo_options
      (initial_store, requesting (blank_request\<lparr>rq_host := Some ''h'', rq_http := Some HTTP_VERSION,
        rq_service_name := Some ''pianod'', rq_filename := Some ''../etc/passwd''\<rparr>))"
  by (rule served_files_inside)
    (auto simp: demo_web_def demo_options_def inside_def)

definition demo_upgrade :: http_request where
  "demo_upgrade = blank_request\<lparr>rq_host := Some ''h'', rq_http := Some HTTP_VERSION, rq_service_name := Some ''PIANOD'',
    rq_upgrade_type := Some ''websocket'', rq_websocket_version := Some ''13'', rq_websocket_key := Some ''dGhlIHNhbXBsZQ==''\<rparr>"

theorem websocket_handshake_witness:
  "\<exists>st' c'. execute_request (demo_web (\<lambda>p. Missing)) demo_options (initial_store, requesting demo_upgrade)
      = Some (Upgraded, st', c')
    \<and> sent c' @ pending st' (fb_out c') = bytes_of (switching ''dGhlIHNhbXBsZQ=='')
    \<and> fb_state c' = OPEN \<and> fb_request c' = blank_request \<and> store_ok st' (refs c')"
proof -
  have "upgrade_request demo_options ''dGhlIHNhbXBsZQ=='' (fb_request (requesting demo_upgrade))"
    by (simp add: upgrade_request_def demo_options_def requesting_def demo_upgrade_def blank_request_def same_name_def
        HTTP_VERSION_def WEBSOCKET_VERSION_def strcasecmp_def to_lower_def)
  moreover have "store_ok initial_store ({#} + refs (requesting demo_upgrade))" "queue_wf initial_store (fb_out (requesting demo_upgrade))"
    using store_ok_initial by (simp_all add: requesting_def open_connection_def refs_def empty_queue_def queue_wf_def)
  ultimately show ?thesis
    using websocket_handshake [of initial_store "{#}" "requesting demo_upgrade" demo_options "''dGhlIHNhbXBsZQ==''"
        "demo_web (\<lambda>p. Missing)"]
    by (simp add: requesting_def open_connection_def empty_queue_def demo_web_def no_context_def)
qed

end
