(* ===== verification/FbInputProofs.thy ===== *)
theory FbInputProofs
  imports FbInput FbRequestProofs
begin

text \<open>
  Packets of websocket clients, masked as RFC 6455 demands, are read back as the lines the client sent, as long as each is
  there when it is read.
\<close>

section \<open>Receiving\<close>

definition feed :: "bytes \<Rightarrow> recv_result stream \<Rightarrow> recv_result stream" where
  "feed bs s = (if bs = [] then s else Got bs ## s)"

lemma feed_Nil [simp]: "feed [] s = s"
  by (simp add: feed_def)

lemma recv_feed:
  assumes "receives c = feed (a @ b) s" and "a \<noteq> []" and "length (fb_in c) + length a \<le> fb_capacity c"
  shows "fb_recv_input (length a) c = Some (True, c\<lparr>fb_in := fb_in c @ a, receives := feed b s\<rparr>)"
  using assms by (auto simp: fb_recv_input_def feed_def)

lemma get_http_bytes_feed:
  assumes "receives c = feed (a @ b) s" and "n = length (fb_in c) + length a"
  shows "\<exists>k. fb_get_http_bytes n c = Some (True, c\<lparr>fb_in := fb_in c @ a, fb_capacity := k, receives := feed b s\<rparr>)"
proof (cases "a = []")
  case True
  then show ?thesis using assms by (intro exI [of _ "fb_capacity c"]) (simp add: fb_get_http_bytes_def)
next
  case False
  define k where "k = (if fb_capacity c < n then n + 128 + 100 else fb_capacity c)"
  have "fb_recv_input (length a) (c\<lparr>fb_capacity := k\<rparr>)
      = Some (True, (c\<lparr>fb_capacity := k\<rparr>)\<lparr>fb_in := fb_in c @ a, receives := feed b s\<rparr>)"
    using recv_feed [of "c\<lparr>fb_capacity := k\<rparr>" a b s] assms False by (simp add: k_def)
  moreover have "(if fb_capacity c < n then fb_set_input_buffer_size (n + 128) c else Some c) = Some (c\<lparr>fb_capacity := k\<rparr>)"
    by (simp add: k_def fb_set_input_buffer_size_def)
  ultimately have "fb_get_http_bytes n c = Some (True, (c\<lparr>fb_capacity := k\<rparr>)\<lparr>fb_in := fb_in c @ a, receives := feed b s\<rparr>)"
    using False assms(2) unfolding fb_get_http_bytes_def by simp
  then show ?thesis by (intro exI [of _ k]) simp
qed

section \<open>Masked packets\<close>

lemma length_perform_unmask [simp]: "length (perform_unmask text key) = length text"
  by (simp add: perform_unmask_def)

lemma unmask_masked [simp]: "perform_unmask (perform_unmask text key) key = text"
  by (rule nth_equalityI) (simp_all add: perform_unmask_def xor.assoc)

definition client_header :: "byte \<Rightarrow> nat \<Rightarrow> bytes" where
  "client_header opcode n = (0x80 OR opcode) # (frame_header n ! 1 OR 0x80) # drop 2 (frame_header n)"

definition client_packet :: "byte \<Rightarrow> bytes \<Rightarrow> bytes \<Rightarrow> bytes" where
  "client_packet opcode key text = client_header opcode (length text) @ key @ perform_unmask text key"

lemma absorb: "(b OR c) AND c = (c :: byte)"
  by (rule bit_word_eqI) (auto simp: bit_and_iff bit_or_iff)

lemma seven_bits: "(b OR 0x80) AND 0x7f = b AND (0x7f :: byte)" "(b OR 0x80) AND (0x80 :: byte) = 0x80"
  by (simp add: bit.conj_disj_distrib2) (rule absorb)

lemma low_seven: "n \<le> 127 \<Longrightarrow> (word_of_nat n :: byte) AND 0x7f = word_of_nat n"
proof -
  assume n: "n \<le> 127"
  have m: "(0x7f :: byte) = mask 7" by (simp add: mask_eq_exp_minus_1)
  have "unat (take_bit 7 (word_of_nat n :: byte)) = unat (word_of_nat n :: byte)"
    unfolding unsigned_take_bit_eq byte_of_nat using n by (simp add: take_bit_eq_mod)
  then show ?thesis unfolding m take_bit_eq_mask [symmetric] by (rule unsigned_word_eqI)
qed

text \<open>The header of a packet of a client, as the server reads it.\<close>

lemma client_header_fields:
  assumes "n < 2 ^ 32"
  shows "client_header opcode n ! 1 AND 0x80 = 0x80"
    and "length (client_header opcode n) = 2 + length_size (client_header opcode n ! 1)"
    and "data_length (client_header opcode n @ rest) = n"
    and "\<not> too_long (client_header opcode n @ rest)"
proof -
  have small: "(word_of_nat n :: byte) \<noteq> 126" "(word_of_nat n :: byte) \<noteq> 127" if "n \<le> 125"
    using that by (auto simp: word_unat_eq_iff byte_of_nat)
  have word: "unat (word_of_nat n :: 32 word) = n"
    using assms by (simp add: unat_of_nat take_bit_nat_eq_self)
  note word_bytes = foldl_word_bytes [of "word_of_nat n", unfolded word]
  show "client_header opcode n ! 1 AND 0x80 = 0x80"
    by (simp add: client_header_def seven_bits)
  show "length (client_header opcode n) = 2 + length_size (client_header opcode n ! 1)"
    by (auto simp: client_header_def frame_header_def length_size_def seven_bits low_seven small word_bytes_def)
  show "data_length (client_header opcode n @ rest) = n"
    using word_bytes
    by (auto simp: client_header_def frame_header_def length_size_def data_length_def seven_bits low_seven small
        byte_of_nat word_bytes_def)
  show "\<not> too_long (client_header opcode n @ rest)"
    by (auto simp: client_header_def frame_header_def length_size_def too_long_def seven_bits low_seven small word_bytes_def)
qed

text \<open>A packet that has arrived is read whole and handled.\<close>

lemma read_packet_whole:
  assumes r: "receives c = feed (client_packet opcode key text @ rest) s" and "fb_in c = []"
    and "length key = 4" and n: "length text < 2 ^ 32"
  shows "\<exists>k packet. fb_read_websocket_input ev (st, c)
    = handle_packet (opcode AND 0x0f) packet text ev (st, c\<lparr>fb_capacity := k, receives := feed rest s\<rparr>)"
proof -
  define h where "h = client_header opcode (length text)"
  define masked where "masked = perform_unmask text key"
  note fields = client_header_fields [OF n, of opcode, folded h_def]
  have two: "h = h ! 0 # h ! 1 # drop 2 h" by (simp add: h_def client_header_def)
  then have start: "length (take 2 h) = 2" "take 2 h ! 0 = h ! 0" "take 2 h ! 1 = h ! 1" by (metis length_Cons list.size(3) nth_Cons_0 nth_Cons_Suc One_nat_def numeral_2_eq_2 take0 take_Suc_Cons take_Cons)+
  have opcode: "h ! 0 AND WSOC_MASK = opcode AND 0x0f"
    by (simp add: h_def client_header_def WSOC_MASK_def bit.conj_disj_distrib2)
  let ?c1 = "\<lambda>k. c\<lparr>fb_in := take 2 h, fb_capacity := k, receives := feed (drop 2 h @ key @ masked @ rest) s\<rparr>"
  let ?c2 = "\<lambda>k. c\<lparr>fb_in := h @ key, fb_capacity := k, receives := feed (masked @ rest) s\<rparr>"
  let ?c3 = "\<lambda>k. c\<lparr>fb_in := h @ key @ masked, fb_capacity := k, receives := feed rest s\<rparr>"
  have cut: "take 2 h @ drop 2 h @ bs = h @ bs" for bs by (metis append.assoc append_take_drop_id)
  have "receives c = feed (take 2 h @ drop 2 h @ key @ masked @ rest) s"
    using r by (simp add: cut client_packet_def h_def [symmetric] masked_def)
  from get_http_bytes_feed [OF this, of 2] obtain k1 where 1: "fb_get_http_bytes 2 c = Some (True, ?c1 k1)"
    using assms(2) start(1) by auto
  have "length h + 4 = length (take 2 h) + length (drop 2 h @ key)"
    using assms(3) arg_cong [OF cut [of key], of length] by simp
  then obtain k2 where 2: "fb_get_http_bytes (2 + length_size (h ! 1) + 4) (?c1 k1) = Some (True, ?c2 k2)"
    using get_http_bytes_feed [of "?c1 k1" "drop 2 h @ key" "masked @ rest" s] fields(2) by (auto simp: cut)
  obtain k3 where 3: "fb_get_http_bytes (2 + length_size (h ! 1) + 4 + length text) (?c2 k2) = Some (True, ?c3 k3)"
    using get_http_bytes_feed [of "?c2 k2" masked rest s] assms(3) fields(2) by (auto simp: masked_def)
  have same: "c\<lparr>fb_capacity := k, receives := r, fb_in := []\<rparr> = c\<lparr>fb_capacity := k, receives := r\<rparr>" for k r
    using assms(2) by (cases c) simp
  have unmask: "perform_unmask masked key = text" by (simp add: masked_def)
  have "fb_read_websocket_input ev (st, c) = handle_packet (opcode AND 0x0f)
      ((take (length h + 4) (h @ key @ masked))[1 := h ! 1 AND 0x7f] @ text) text ev
      (st, c\<lparr>fb_capacity := k3, receives := feed rest s\<rparr>)"
    unfolding fb_read_websocket_input_def
    using fields assms(2,3) 2 3 by (simp add: 1 start opcode Let_def unmask same)
  then show ?thesis by blast
qed

text \<open>Reading several times: the events that come out.\<close>

primrec read_events :: "nat \<Rightarrow> io_event \<Rightarrow> out_state \<Rightarrow> (io_event option list \<times> out_state) option" where
  "read_events 0 ev s = Some ([], s)"
| "read_events (Suc n) ev s = do {
    (e, s) \<leftarrow> fb_read_websocket_input ev s;
    (es, s) \<leftarrow> read_events n ev s;
    Some (e # es, s)
  }"

definition text_packets :: "(bytes \<times> bytes) list \<Rightarrow> bytes" where
  "text_packets ps = concat (map (\<lambda>(key, text). client_packet WSOC_TEXT key text) ps)"

text \<open>The packets of one piece.\<close>

lemma read_piece:
  assumes "receives c = feed (text_packets ps @ rest) s" and "fb_in c = []"
    and "list_all (\<lambda>(key, text). length key = 4 \<and> length text < 2 ^ 32) ps"
  shows "\<exists>k. read_events (length ps) ev (st, c)
    = Some (map (\<lambda>(key, text). Some (line_event text ev)) ps, st, c\<lparr>fb_capacity := k, receives := feed rest s\<rparr>)"
  using assms
proof (induction ps arbitrary: c)
  case Nil
  then show ?case by (intro exI [of _ "fb_capacity c"]) (simp add: text_packets_def)
next
  case (Cons p ps)
  obtain key l where p: "p = (key, l)" by fastforce
  let ?c = "\<lambda>k. c\<lparr>fb_capacity := k, receives := feed (text_packets ps @ rest) s\<rparr>"
  have "receives c = feed (client_packet WSOC_TEXT key l @ text_packets ps @ rest) s"
    using Cons.prems(1) by (simp add: p text_packets_def)
  from read_packet_whole [OF this Cons.prems(2)] Cons.prems(3) obtain k where
    one: "fb_read_websocket_input ev (st, c) = Some (Some (line_event l ev), st, ?c k)"
    by (auto simp: p WSOC_TEXT_def handle_packet_def WSOC_CLOSE_def WSOC_PING_def WSOC_PONG_def)
  from Cons.IH [of "?c k"] Cons.prems(2,3) obtain m where
    "read_events (length ps) ev (st, ?c k) = Some (map (\<lambda>(key, text). Some (line_event text ev)) ps, st,
      c\<lparr>fb_capacity := m, receives := feed rest s\<rparr>)"
    by auto
  with one show ?case by (auto simp: p)
qed

lemma read_events_append:
  "read_events n ev s = Some (es, s') \<Longrightarrow> read_events m ev s' = Some (es', s'') \<Longrightarrow> read_events (n + m) ev s = Some (es @ es', s'')"
  by (cases s''; induction n arbitrary: s es) (auto simp: bind_eq_Some_conv)

lemma text_packets_ne: "ps \<noteq> [] \<Longrightarrow> text_packets ps \<noteq> []"
  by (cases ps) (auto simp: text_packets_def client_packet_def client_header_def split: prod.split)

text \<open>
  C40: Reading from a websocket: packets of text of less than 2 ^ 32 bytes that a client has masked with keys of its own are read one by
  one, unmasked, into the commands the client sent, in order, when they arrive in pieces of one or more whole packets, and no part of
  a packet has been read before; nothing is lost or left in the buffer, and the connection stays as it was but for the capacity of its
  buffer. (A piece that ends within a packet, behind more than its first two bytes, fails an assertion at the next call: lemma
  partial_packet_fails.)
\<close>

theorem websocket_input_roundtrip:
  assumes "receives c = map (\<lambda>ps. Got (text_packets ps)) pss @- s" and "fb_in c = []" and "[] \<notin> set pss"
    and "list_all (\<lambda>(key, text). length key = 4 \<and> length text < 2 ^ 32) (concat pss)"
  shows "\<exists>k. read_events (length (concat pss)) ev (st, c)
    = Some (map (\<lambda>(key, text). Some (line_event text ev)) (concat pss), st, c\<lparr>fb_capacity := k, receives := s\<rparr>)"
  using assms
proof (induction pss arbitrary: c)
  case Nil
  then show ?case by (intro exI [of _ "fb_capacity c"]) simp
next
  case (Cons ps pss)
  let ?rest = "map (\<lambda>ps. Got (text_packets ps)) pss @- s"
  have "receives c = feed (text_packets ps @ []) ?rest"
    using Cons.prems(1,3) text_packets_ne [of ps] by (auto simp: feed_def)
  from read_piece [OF this Cons.prems(2), of ev st] Cons.prems(4) obtain k where
    one: "read_events (length ps) ev (st, c) = Some (map (\<lambda>(key, text). Some (line_event text ev)) ps, st,
      c\<lparr>fb_capacity := k, receives := ?rest\<rparr>)" by auto
  from Cons.IH [of "c\<lparr>fb_capacity := k, receives := ?rest\<rparr>"] Cons.prems obtain m where
    two: "read_events (length (concat pss)) ev (st, c\<lparr>fb_capacity := k, receives := ?rest\<rparr>)
      = Some (map (\<lambda>(key, text). Some (line_event text ev)) (concat pss), st, c\<lparr>fb_capacity := m, receives := s\<rparr>)" by auto
  show ?case using read_events_append [OF one two] by auto
qed

definition no_event :: io_event where
  "no_event = \<lparr>ev_type = EVENT_INPUT, ev_socket = 5, ev_connection = None, ev_service = None, ev_command = [], ev_argv = []\<rparr>"

theorem websocket_input_roundtrip_witness:
  "\<exists>k. read_events (Suc (Suc 0)) no_event (initial_store,
      (open_connection 5 True (sconst (Took 10)))\<lparr>receives := Got (client_packet WSOC_TEXT [1, 2, 3, 4] (bytes_of ''play''))
        ## Got (client_packet WSOC_TEXT [9, 9, 9, 9] (bytes_of ''stop'')) ## sconst Recv_again\<rparr>)
    = Some ([Some (line_event (bytes_of ''play'') no_event), Some (line_event (bytes_of ''stop'') no_event)], initial_store,
      (open_connection 5 True (sconst (Took 10)))\<lparr>fb_capacity := k, receives := sconst Recv_again\<rparr>)"
  using websocket_input_roundtrip [of "(open_connection 5 True (sconst (Took 10)))\<lparr>receives := Got (client_packet WSOC_TEXT [1, 2, 3, 4] (bytes_of ''play''))
        ## Got (client_packet WSOC_TEXT [9, 9, 9, 9] (bytes_of ''stop'')) ## sconst Recv_again\<rparr>"
      "[[([1, 2, 3, 4], bytes_of ''play'')], [([9, 9, 9, 9], bytes_of ''stop'')]]" "sconst Recv_again" no_event initial_store]
  by (auto simp: text_packets_def open_connection_def bytes_of_def simp del: read_events.simps)

text \<open>
  A packet that is cut behind its first two bytes is different: the next call finds more than the two bytes it wants first, and
  its assertion fails.
\<close>

lemma partial_packet_fails: "2 < length (fb_in c) \<Longrightarrow> fb_read_websocket_input ev (st, c) = None"
  by (simp add: fb_read_websocket_input_def fb_get_http_bytes_def)

end
