(* ===== verification/FbLines.thy ===== *)
theory FbLines
  imports FbInputProofs
begin

text \<open>
  Lines of input: however the bytes of a client are cut into pieces, the lines come out one by one, and the loop of
  \<open>fb_get_line_bytes\<close> ends at the latest when nothing more has arrived.
\<close>

definition arriving :: "bytes \<Rightarrow> recv_result stream \<Rightarrow> recv_result stream \<Rightarrow> bool" where
  "arriving text s r \<longleftrightarrow> (\<exists>bs. r = map Got bs @- s \<and> concat bs = text \<and> [] \<notin> set bs)"

lemma arriving_Nil: "arriving [] s r \<Longrightarrow> r = s"
  by (auto simp: arriving_def) (metis list.set_intros(1) list.exhaust set_empty shift.simps(1) list.map(1))

lemma recv_byte:
  assumes "arriving (b # bytes) s (receives c)" and "length (fb_in c) < fb_capacity c"
  shows "\<exists>r. fb_recv_input 1 c = Some (True, c\<lparr>fb_in := fb_in c @ [b], receives := r\<rparr>) \<and> arriving bytes s r"
proof -
  obtain bs where bs: "receives c = map Got bs @- s" "concat bs = b # bytes" "[] \<notin> set bs"
    using assms(1) by (auto simp: arriving_def)
  then obtain p ps where ps: "bs = (b # p) # ps" "p @ concat ps = bytes" by (cases bs; cases "hd bs") auto
  show ?thesis
  proof (cases "p = []")
    case True
    then have "fb_recv_input 1 c = Some (True, c\<lparr>fb_in := fb_in c @ [b], receives := map Got ps @- s\<rparr>)"
      using bs(1) ps assms(2) by (simp add: fb_recv_input_def)
    moreover have "arriving bytes s (map Got ps @- s)" using True bs(3) ps by (auto simp: arriving_def)
    ultimately show ?thesis by blast
  next
    case False
    then have "fb_recv_input 1 c = Some (True, c\<lparr>fb_in := fb_in c @ [b], receives := map Got (p # ps) @- s\<rparr>)"
      using bs(1) ps assms(2) by (cases p) (simp_all add: fb_recv_input_def)
    moreover have "arriving bytes s (map Got (p # ps) @- s)"
      unfolding arriving_def using False bs(3) ps by (intro exI [of _ "p # ps"]) auto
    ultimately show ?thesis by blast
  qed
qed

text \<open>One step of the loop.\<close>

definition room :: "fb_connection \<Rightarrow> fb_connection" where
  "room c = (if length (fb_in c) = fb_capacity c then c\<lparr>fb_capacity := fb_capacity c * 2 + 164\<rparr> else c)"

lemma get_line_step:
  assumes "length (fb_in c) \<le> fb_capacity c"
  shows "fb_get_line_bytes c = do {
    (ok, c) \<leftarrow> fb_recv_input 1 (room c);
    if \<not> ok then Some (None, c)
    else if last (fb_in c) \<noteq> 10 then fb_get_line_bytes c
    else Some (Some (fb_in c), c\<lparr>fb_in := []\<rparr>)
  }"
proof -
  have "(if length (fb_in c) = fb_capacity c then fb_set_input_buffer_size (fb_capacity c * 2 + 64) c else Some c) = Some (room c)"
    by (simp add: room_def fb_set_input_buffer_size_def)
  then show ?thesis using assms by (subst fb_get_line_bytes.simps) simp
qed

lemma room_same [simp]: "fb_in (room c) = fb_in c" "receives (room c) = receives c"
  by (simp_all add: room_def)

lemma room_space: "length (fb_in c) \<le> fb_capacity c \<Longrightarrow> length (fb_in c) < fb_capacity (room c)"
  by (auto simp: room_def)

lemma room_update: "\<exists>k. room c = c\<lparr>fb_capacity := k\<rparr>"
  by (cases "length (fb_in c) = fb_capacity c") (auto simp: room_def intro: exI [of _ "fb_capacity c"])

lemma get_line_whole:
  assumes "arriving (l @ 10 # rest) s (receives c)" and "10 \<notin> set l" and "length (fb_in c) \<le> fb_capacity c"
  shows "\<exists>k r. fb_get_line_bytes c = Some (Some (fb_in c @ l @ [10]), c\<lparr>fb_in := [], fb_capacity := k, receives := r\<rparr>)
    \<and> arriving rest s r"
  using assms
proof (induction l arbitrary: c)
  case Nil
  obtain k where k: "room c = c\<lparr>fb_capacity := k\<rparr>" using room_update by blast
  obtain r where "fb_recv_input 1 (room c) = Some (True, (room c)\<lparr>fb_in := fb_in c @ [10], receives := r\<rparr>)" "arriving rest s r"
    using recv_byte [of 10 rest s "room c"] Nil room_space [of c] by auto
  then show ?case using Nil.prems(3)
    by (subst get_line_step) (auto simp: k intro!: exI [of _ k] exI [of _ r])
next
  case (Cons b l)
  obtain k where k: "room c = c\<lparr>fb_capacity := k\<rparr>" using room_update by blast
  obtain r where r: "fb_recv_input 1 (room c) = Some (True, (room c)\<lparr>fb_in := fb_in c @ [b], receives := r\<rparr>)"
      "arriving (l @ 10 # rest) s r"
    using recv_byte [of b "l @ 10 # rest" s "room c"] Cons.prems room_space [of c] by auto
  have "length (fb_in c @ [b]) \<le> fb_capacity (room c)" using room_space [OF Cons.prems(3)] by simp
  from Cons.IH [of "(room c)\<lparr>fb_in := fb_in c @ [b], receives := r\<rparr>"] this r(2) Cons.prems(2) obtain m q where
    "fb_get_line_bytes ((room c)\<lparr>fb_in := fb_in c @ [b], receives := r\<rparr>)
      = Some (Some (fb_in c @ b # l @ [10]), (room c)\<lparr>fb_in := [], fb_capacity := m, receives := q\<rparr>)" "arriving rest s q"
    by auto
  then show ?case using Cons.prems r(1) by (subst get_line_step) (auto simp: k)
qed

lemma get_line_partial:
  assumes "arriving text (Recv_again ## s) (receives c)" and "10 \<notin> set text" and "length (fb_in c) \<le> fb_capacity c"
  shows "\<exists>k. fb_get_line_bytes c = Some (None, c\<lparr>fb_in := fb_in c @ text, fb_capacity := k, receives := s\<rparr>)
    \<and> length (fb_in c @ text) \<le> k"
  using assms
proof (induction "text" arbitrary: c)
  case Nil
  obtain k where k: "room c = c\<lparr>fb_capacity := k\<rparr>" using room_update by blast
  have "receives c = Recv_again ## s" using arriving_Nil [OF Nil.prems(1)] .
  then have "fb_recv_input 1 (room c) = Some (False, (room c)\<lparr>receives := s\<rparr>)"
    using room_space [OF Nil.prems(3)] by (simp add: fb_recv_input_def)
  then show ?case using Nil.prems(3) room_space [OF Nil.prems(3)]
    by (subst get_line_step) (auto simp: k intro!: exI [of _ k])
next
  case (Cons b l)
  obtain k where k: "room c = c\<lparr>fb_capacity := k\<rparr>" using room_update by blast
  obtain r where r: "fb_recv_input 1 (room c) = Some (True, (room c)\<lparr>fb_in := fb_in c @ [b], receives := r\<rparr>)"
      "arriving l (Recv_again ## s) r"
    using recv_byte [of b l "Recv_again ## s" "room c"] Cons.prems room_space [of c] by auto
  have "length (fb_in c @ [b]) \<le> fb_capacity (room c)" using room_space [OF Cons.prems(3)] by simp
  from Cons.IH [of "(room c)\<lparr>fb_in := fb_in c @ [b], receives := r\<rparr>"] this r(2) Cons.prems(2) obtain m where
    "fb_get_line_bytes ((room c)\<lparr>fb_in := fb_in c @ [b], receives := r\<rparr>)
      = Some (None, (room c)\<lparr>fb_in := fb_in c @ b # l, fb_capacity := m, receives := s\<rparr>)" "length (fb_in c @ b # l) \<le> m"
    by auto
  then show ?case using Cons.prems r(1) by (subst get_line_step) (auto simp: k)
qed

section \<open>Reading lines until there are no more\<close>

primrec read_lines :: "nat \<Rightarrow> io_event \<Rightarrow> fb_connection \<Rightarrow> (io_event option list \<times> fb_connection) option" where
  "read_lines 0 ev c = Some ([], c)"
| "read_lines (Suc n) ev c = do {
    (e, c) \<leftarrow> fb_read_line_input ev c;
    (es, c) \<leftarrow> read_lines n ev c;
    Some (e # es, c)
  }"

lemma strip_newline: "strip_returns (l @ [10]) = strip_returns l"
  by (simp add: strip_returns_def)

text \<open>
  C37: Lines of input arrive whole and in order, whatever pieces the network delivers: if the buffer holds the
  beginning of a line and a text arrives in any pieces before there is nothing more to read, then reading once for each line of buffer
  and text together gives exactly these lines, without their line ends, and the next reading gives no event and leaves the
  unfinished line in the buffer.
\<close>

theorem line_input_in_order:
  assumes "fb_filename c = None" and "10 \<notin> set (fb_in c)" and "length (fb_in c) \<le> fb_capacity c"
    and "arriving text (Recv_again ## s) (receives c)" and "cut_lines (fb_in c @ text) = (lines, unfinished)"
  shows "\<exists>k. read_lines (Suc (length lines)) ev c
    = Some (map (\<lambda>l. Some (line_event (strip_returns l) ev)) lines @ [None],
        c\<lparr>fb_in := unfinished, fb_capacity := k, receives := s\<rparr>)"
  using assms
proof (induction lines arbitrary: c "text")
  case Nil
  have "10 \<notin> set text"
  proof
    assume "10 \<in> set text"
    then obtain l rest where "text = l @ 10 # rest" "10 \<notin> set l" using split_newline by blast
    then show False using Nil.prems(2,5) cut_lines_line [of "fb_in c @ l" rest] by simp
  qed
  moreover from this have "unfinished = fb_in c @ text" using Nil.prems(2,5) by simp
  ultimately show ?case
    using get_line_partial [OF Nil.prems(4) _ Nil.prems(3)] Nil.prems(1) by (auto simp: fb_read_line_input_def)
next
  case (Cons l lines)
  have "10 \<in> set text"
    using Cons.prems(2,5) by (metis Pair_inject Un_iff cut_lines_none list.distinct(1) set_append)
  then obtain p rest where p: "text = p @ 10 # rest" "10 \<notin> set p" using split_newline by blast
  have l: "l = fb_in c @ p" "cut_lines rest = (lines, unfinished)"
    using cut_lines_line [of "fb_in c @ p" rest] p Cons.prems(2,5) by (auto simp: prod_eq_iff)
  obtain k r where one: "fb_get_line_bytes c = Some (Some (fb_in c @ p @ [10]), c\<lparr>fb_in := [], fb_capacity := k, receives := r\<rparr>)"
      "arriving rest (Recv_again ## s) r"
    using get_line_whole [OF Cons.prems(4) [unfolded p(1)] p(2) Cons.prems(3)] by blast
  from Cons.IH [of "c\<lparr>fb_in := [], fb_capacity := k, receives := r\<rparr>" rest] one(2) l(2) Cons.prems(1) obtain m where
    "read_lines (Suc (length lines)) ev (c\<lparr>fb_in := [], fb_capacity := k, receives := r\<rparr>)
      = Some (map (\<lambda>l. Some (line_event (strip_returns l) ev)) lines @ [None],
        c\<lparr>fb_in := unfinished, fb_capacity := m, receives := s\<rparr>)"
    by auto
  moreover have "fb_read_line_input ev c = Some (Some (line_event (strip_returns l) ev), c\<lparr>fb_in := [], fb_capacity := k, receives := r\<rparr>)"
    using one(1) Cons.prems(1) strip_newline [of "fb_in c @ p"] by (simp add: fb_read_line_input_def l(1))
  ultimately show ?case
    by (intro exI [of _ m]) (simp add: read_lines.simps(2) [of "Suc (length lines)"] del: read_lines.simps)
qed

definition typing :: fb_connection where
  "typing = (open_connection 5 False (sconst (Took 10)))\<lparr>fb_in := [112, 108], fb_capacity := 2,
    receives := Got [97, 121, 13] ## Got [10, 115] ## sconst Recv_again\<rparr>"

theorem line_input_in_order_witness:
  "\<exists>k. read_lines (Suc (Suc 0)) no_event typing
    = Some ([Some (line_event [112, 108, 97, 121] no_event), None],
        typing\<lparr>fb_in := [115], fb_capacity := k, receives := sconst Recv_again\<rparr>)"
proof -
  have "cut_lines (fb_in typing @ [97, 121, 13, 10, 115]) = ([[112, 108, 97, 121, 13]], [115])"
    using cut_lines_line [of "[112, 108, 97, 121, 13]" "[115]"] by (simp add: typing_def)
  moreover have "arriving [97, 121, 13, 10, 115] (Recv_again ## sconst Recv_again) (receives typing)"
    unfolding arriving_def
    by (rule exI [of _ "[[97, 121, 13], [10, 115]]"]) (simp add: typing_def stream.expand)
  ultimately show ?thesis
    using line_input_in_order [of typing "[97, 121, 13, 10, 115]" "sconst Recv_again" "[[112, 108, 97, 121, 13]]" "[115]" no_event]
    by (simp add: typing_def open_connection_def strip_returns_def del: read_lines.simps)
qed

end
