(* ===== verification/FbCounts.thy ===== *)
theory FbCounts
  imports FbSocketmgr FbLines
begin

text \<open>
  Whatever an operation does with a connection, the use counts of the messages stay exact and the connection keeps its
  socket and its service: \<open>counted\<close>.  Unlike the results about channels this does not ask the socket to be
  reliable nor the queue to be in order; it is about every execution that returns.
\<close>

definition counted :: "out_state \<Rightarrow> out_state \<Rightarrow> bool" where
  "counted s s' \<longleftrightarrow> fb_socket (snd s') = fb_socket (snd s) \<and> fb_service (snd s') = fb_service (snd s)
    \<and> (\<forall>R. store_ok (fst s) (R + refs (snd s)) \<longrightarrow> store_ok (fst s') (R + refs (snd s')))"

lemma counted_refl [simp]: "counted s s"
  by (simp add: counted_def)

lemma counted_trans [trans]: "counted s s' \<Longrightarrow> counted s' s'' \<Longrightarrow> counted s s''"
  by (simp add: counted_def)

text \<open>Changes of fields that have nothing to do with the queues.\<close>

lemma counted_same:
  assumes "fb_socket c' = fb_socket c" and "fb_service c' = fb_service c" and "fb_out c' = fb_out c"
    and "fb_assembly c' = fb_assembly c"
  shows "counted (st, c) (st, c')"
  using assms by (simp add: counted_def refs_def)

lemma close_connection_identity [simp]: "fb_socket (close_connection c) = fb_socket c" "fb_service (close_connection c) = fb_service c"
  by (simp_all add: close_connection_def)

lemma counted_close [simp]: "counted s (st, close_connection c) = counted s (st, c)"
  by (simp add: counted_def refs_def)

lemma counted_input_fields [simp]:
  "counted (st, c\<lparr>fb_capacity := k\<rparr>) s = counted (st, c) s" "counted s (st, c\<lparr>fb_capacity := k\<rparr>) = counted s (st, c)"
  "counted (st, c\<lparr>fb_in := i\<rparr>) s = counted (st, c) s" "counted s (st, c\<lparr>fb_in := i\<rparr>) = counted s (st, c)"
  "counted s (st, c\<lparr>fb_state := t, fb_request := rq\<rparr>) = counted s (st, c)"
  by (simp_all add: counted_def refs_def)

section \<open>Queues\<close>

lemma free_counts:
  assumes "fb_messagefree a st = Some st'" and "store_ok st (add_mset a R)"
  shows "store_ok st' R"
  using free_ok [OF assms(2)] assms(1) by auto

lemma consume_counts:
  assumes "fb_queue_consume q n st = Some (q', st')" and "store_ok st (R + mset (queued q))"
  shows "store_ok st' (R + mset (queued q'))"
  using assms
  by (auto simp: fb_queue_consume_def Let_def split: list.splits if_splits dest!: free_counts [where R = "R + mset (queued q')"])

lemma destroy_counts:
  assumes "fb_queue_destroy q st = Some (q', st')" and "store_ok st (R + mset (queued q))"
  shows "queued q' = []" "store_ok st' R"
  using destroy_ok [OF assms(2)] assms(1) by auto

section \<open>Sending\<close>

lemma socket_send_same:
  assumes "socket_send data c = (n, c')"
  shows "fb_out c' = fb_out c" "fb_assembly c' = fb_assembly c" "fb_socket c' = fb_socket c" "fb_service c' = fb_service c"
  using assms by (auto simp: socket_send_def split: send_result.splits)

lemma send_loop_counted: "send_loop st c = Some s' \<Longrightarrow> counted (st, c) s'"
proof (rule send_loop.raw_induct [where P = "\<lambda>st c r. counted (st, c) r"])
  fix loop :: "fb_store \<Rightarrow> fb_connection \<Rightarrow> (fb_store \<times> fb_connection) option" and st c r
  assume IH: "\<And>st c r. loop st c = Some r \<Longrightarrow> counted (st, c) r"
    and run: "(case queued (fb_out c) of
      [] \<Rightarrow> None
    | a # _ \<Rightarrow>
        if length (msg_text st a) < consumed (fb_out c) then None
        else do {
          let (written, c) = socket_send (drop (consumed (fb_out c)) (msg_text st a)) c;
          if written < 0 then do {
            (q, st) \<leftarrow> fb_queue_destroy (fb_out c) st;
            Some (st, close_connection (c\<lparr>fb_out := q\<rparr>))
          } else do {
            (q, st) \<leftarrow> fb_queue_consume (fb_out c) (nat written) st;
            let c = c\<lparr>fb_out := q\<rparr>;
            if 0 < written \<and> \<not> fb_queue_empty q then loop st c else Some (st, c)
          }
        }) = Some r"
  obtain a rest where q: "queued (fb_out c) = a # rest" using run by (cases "queued (fb_out c)") auto
  obtain written c1 where io: "socket_send (drop (consumed (fb_out c)) (msg_text st a)) c = (written, c1)" by fastforce
  note same = socket_send_same [OF io]
  show "counted (st, c) r"
  proof (cases "written < 0")
    case True
    then obtain q1 st1 where one: "fb_queue_destroy (fb_out c) st = Some (q1, st1)"
        "r = (st1, close_connection (c1\<lparr>fb_out := q1\<rparr>))"
      using run by (auto simp: q io same split: if_splits bind_splits)
    then show ?thesis
      using destroy_counts [OF one(1)] same by (auto simp: counted_def refs_def simp flip: add.assoc)
  next
    case False
    then obtain q1 st1 where one: "fb_queue_consume (fb_out c) (nat written) st = Some (q1, st1)"
        "(if 0 < written \<and> \<not> fb_queue_empty q1 then loop st1 (c1\<lparr>fb_out := q1\<rparr>) else Some (st1, c1\<lparr>fb_out := q1\<rparr>)) = Some r"
      using run by (auto simp: q io same Let_def split: if_splits bind_splits)
    have "counted (st, c) (st1, c1\<lparr>fb_out := q1\<rparr>)"
      using consume_counts [OF one(1)] same by (auto simp: counted_def refs_def simp flip: add.assoc)
    then show ?thesis using one(2) IH counted_trans by (auto split: if_splits)
  qed
qed


lemma send_output_counted: "fb_send_output event st c = Some (r, s') \<Longrightarrow> counted (st, c) s'"
  by (auto simp: fb_send_output_def intro!: counted_same dest!: send_loop_counted split: if_splits bind_splits)
    (auto simp: counted_def refs_def)

lemma queue_http_counted:
  assumes "fb_queue_http text st c = Some s'"
  shows "counted (st, c) s'"
proof -
  obtain a st1 where create: "fb_create_message text st = (a, st1)" by (cases "fb_create_message text st")
  then obtain r where "fb_send_output False st1 (c\<lparr>fb_out := fb_queue_add (fb_out c) a\<rparr>) = Some (r, s')"
    using assms by (auto simp: fb_queue_http_def)
  from send_output_counted [OF this] show ?thesis
    using create_ok(1) [OF _ create] by (auto simp: counted_def refs_def fb_queue_add_def)
qed

section \<open>Websocket packets\<close>

definition queue_counted :: "fb_store \<Rightarrow> fb_ioqueue \<Rightarrow> fb_store \<Rightarrow> fb_ioqueue \<Rightarrow> bool" where
  "queue_counted st q st' q' \<longleftrightarrow> (\<forall>R. store_ok st (R + mset (queued q)) \<longrightarrow> store_ok st' (R + mset (queued q')))"

lemma queue_counted_trans: "queue_counted st q st1 q1 \<Longrightarrow> queue_counted st1 q1 st2 q2 \<Longrightarrow> queue_counted st q st2 q2"
  by (simp add: queue_counted_def)

lemma consume_counted: "fb_queue_consume q n st = Some (q', st') \<Longrightarrow> queue_counted st q st' q'"
  using consume_counts by (auto simp: queue_counted_def)

lemma assemble_counted: "assemble n q st = Some (text, q', st') \<Longrightarrow> queue_counted st q st' q'"
proof -
  have "assemble n q st = Some r \<Longrightarrow> queue_counted st q (snd (snd r)) (fst (snd r))" for r
  proof (erule assemble.raw_induct [where P = "\<lambda>n q st r. queue_counted st q (snd (snd r)) (fst (snd r))", rotated], goal_cases)
    case (1 loop n q st r)
    show ?case
    proof (cases "n = 0")
      case True
      then show ?thesis using 1(2) by (auto simp: queue_counted_def)
    next
      case False
      then obtain a rest where q: "queued q = a # rest" using 1(2) by (cases "queued q") auto
      let ?k = "min (length (msg_text st a) - consumed q) n"
      from False obtain q1 st1 x where 2: "fb_queue_consume q ?k st = Some (q1, st1)" "loop (n - ?k) q1 st1 = Some x"
          "snd r = snd x"
        using 1(2) by (auto simp: q Let_def split: bind_splits)
      show ?thesis using queue_counted_trans [OF consume_counted [OF 2(1)] 1(1) [OF 2(2)]] 2(3) by simp
    qed
  qed
  then show "assemble n q st = Some (text, q', st') \<Longrightarrow> queue_counted st q st' q'" by fastforce
qed

lemma queue_counted_assembly:
  "queue_counted st (fb_assembly c) st' q' \<Longrightarrow> counted (st, c) (st', c\<lparr>fb_assembly := q'\<rparr>)"
  unfolding queue_counted_def counted_def refs_def by (auto simp: add.assoc [symmetric] add.commute [of "mset (queued (fb_assembly c))"]
    add.commute [of "mset (queued q')"])

lemma websocket_encode_counted: "fb_websocket_encode st c = Some s' \<Longrightarrow> counted (st, c) s'"
proof (erule fb_websocket_encode.raw_induct [where P = "\<lambda>st c s'. counted (st, c) s'", rotated], goal_cases)
  case (1 loop st c s')
  let ?ass = "fb_assembly c"
  let ?newline = "newline_from (if length (queued ?ass) = 1 then consumed ?ass else 0) (msg_text st (last (queued ?ass)))"
  show ?case
  proof (cases ?newline)
    case None
    then show ?thesis using 1(2) by (auto simp: Let_def split: if_splits)
  next
    case (Some newline)
    then obtain n payload q1 st1 q2 st2 x c3 where
      2: "assemble n ?ass st = Some (payload, q1, st1)" "fb_queue_consume q1 1 st1 = Some (q2, st2)"
        "fb_queue_http (frame_header n @ payload) st2 (c\<lparr>fb_assembly := q2\<rparr>) = Some (x, c3)"
        "(if fb_queue_empty (fb_assembly c3) then Some (x, c3) else loop x c3) = Some s'"
      using 1(2) by (auto simp: Let_def split: if_splits bind_splits)
    have "counted (st, c) (st2, c\<lparr>fb_assembly := q2\<rparr>)"
      by (rule queue_counted_assembly [OF queue_counted_trans [OF assemble_counted [OF 2(1)] consume_counted [OF 2(2)]]])
    also have "counted \<dots> (x, c3)" by (rule queue_http_counted [OF 2(3)])
    finally show ?thesis using 2(4) 1(1) counted_trans by (auto split: if_splits)
  qed
qed

section \<open>Printing\<close>

lemma queue_single_counted:
  assumes "fb_queue_single a st c = Some (n, st', c')"
  shows "fb_socket c' = fb_socket c" "fb_service c' = fb_service c"
    "store_ok st (add_mset a (R + refs c)) \<Longrightarrow> store_ok st' (R + refs c')"
proof -
  let ?added = "if fb_http c then c\<lparr>fb_assembly := fb_queue_add (fb_assembly c) a\<rparr> else c\<lparr>fb_out := fb_queue_add (fb_out c) a\<rparr>"
  consider "fb_messagefree a st = Some st'" "c' = c" | "counted (st, ?added) (st', c')"
  proof (cases "msg_text st a = [] \<or> unsendable c")
    case True
    then show ?thesis using assms that(1) by (auto simp: fb_queue_single_def)
  next
    case False
    then obtain st1 c1 r where 1: "(if fb_http c then fb_websocket_encode st (c\<lparr>fb_assembly := fb_queue_add (fb_assembly c) a\<rparr>)
         else Some (st, c\<lparr>fb_out := fb_queue_add (fb_out c) a\<rparr>)) = Some (st1, c1)"
        "fb_send_output False st1 c1 = Some (r, st', c')"
      using assms by (auto simp: fb_queue_single_def Let_def split: bind_splits)
    have "counted (st, ?added) (st1, c1)" using 1(1) websocket_encode_counted by (auto split: if_splits)
    also have "counted \<dots> (st', c')" using send_output_counted [OF 1(2)] .
    finally show ?thesis by (rule that(2))
  qed
  then show "fb_socket c' = fb_socket c" "fb_service c' = fb_service c"
    "store_ok st (add_mset a (R + refs c)) \<Longrightarrow> store_ok st' (R + refs c')"
    by (cases; auto simp: counted_def refs_def fb_queue_add_def dest: free_counts split: if_splits)+
qed

section \<open>HTTP\<close>

lemma write_message_counted: "write_message text s = Some s' \<Longrightarrow> counted s s'"
  by (cases s) (auto simp: write_message_def dest: queue_http_counted)

lemma http_header_counted: "http_header w text extra detail s = Some s' \<Longrightarrow> counted s s'"
  by (auto simp: http_header_def Let_def dest: write_message_counted)

lemma http_response_counted: "http_response w text s = Some s' \<Longrightarrow> counted s s'"
  by (auto simp: http_response_def dest: http_header_counted)

lemma redirect_counted: "redirect_to_subdirectory w options s = Some s' \<Longrightarrow> counted s s'"
  by (auto simp: redirect_to_subdirectory_def http_redirect_def Let_def dest: http_header_counted)

lemma queue_pieces_counted: "queue_pieces bs s = Some s' \<Longrightarrow> counted s s'"
proof (induction bs arbitrary: s)
  case (Cons b bs)
  then obtain s1 where "fb_queue_http b (fst s) (snd s) = Some s1" "queue_pieces bs s1 = Some s'"
    by (auto split: bind_splits)
  then show ?case using Cons.IH queue_http_counted [of b "fst s" "snd s"] counted_trans by (metis prod.collapse)
qed simp

lemma serve_data_counted: "http_serve_data w options nam f sendbody s = Some (r, s') \<Longrightarrow> counted s s'"
  by (auto simp: http_serve_data_def Let_def split: opened.splits bind_splits if_splits
      dest!: redirect_counted http_response_counted write_message_counted queue_pieces_counted intro: counted_trans)

lemma file_request_counted: "http_file_request w options s = Some (r, s') \<Longrightarrow> counted s s'"
  by (auto simp: http_file_request_def Let_def split: option.splits opened.splits if_splits
      dest!: http_response_counted serve_data_counted)

lemma greet_counted: "fb_greet_websocket w s = Some (r, s') \<Longrightarrow> counted s s'"
  by (auto simp: fb_greet_websocket_def split: option.splits bind_splits if_splits
      dest!: write_message_counted) (meson counted_trans)+

lemma finish_counted: "counted s (snd (finish_request again s))"
  by (cases s) (auto simp: finish_request_def Let_def intro!: counted_same)

lemma finish_after: "finish_request again s1 = (step, s') \<Longrightarrow> counted s s1 \<Longrightarrow> counted s s'"
  using finish_counted [of s1 again] counted_trans by fastforce

lemma execute_request_counted: "execute_request w options s = Some (step, s') \<Longrightarrow> counted s s'"
  unfolding execute_request_def Let_def
  by (auto split: if_splits bind_splits
      dest!: http_response_counted redirect_counted file_request_counted http_header_counted greet_counted finish_after
      intro: counted_trans)

section \<open>Input\<close>

lemma recv_counted: "fb_recv_input n c = Some (ok, c') \<Longrightarrow> counted (st, c) (st, c')"
  by (auto simp: fb_recv_input_def split: if_splits recv_result.splits intro!: counted_same)

lemma http_bytes_counted: "fb_get_http_bytes n c = Some (ok, c') \<Longrightarrow> counted (st, c) (st, c')"
  by (auto simp: fb_get_http_bytes_def fb_set_input_buffer_size_def split: if_splits dest!: recv_counted [where st = st])

lemma line_bytes_counted: "fb_get_line_bytes c = Some r \<Longrightarrow> counted (st, c) (st, snd r)"
proof (erule fb_get_line_bytes.raw_induct [where P = "\<lambda>c r. counted (st, c) (st, snd r)", rotated], goal_cases)
  case (1 loop c r)
  let ?room = "if length (fb_in c) = fb_capacity c then fb_set_input_buffer_size (fb_capacity c * 2 + 64) c else Some c"
  obtain c1 ok c2 where 2: "?room = Some c1" "fb_recv_input 1 c1 = Some (ok, c2)"
      "(if \<not> ok then Some (None, c2) else if last (fb_in c2) \<noteq> 10 then loop c2
        else Some (Some (fb_in c2), c2\<lparr>fb_in := []\<rparr>)) = Some r"
    using 1(2) by (cases ?room) (auto split: if_splits bind_splits)
  have "counted (st, c) (st, c1)" using 2(1) by (auto simp: fb_set_input_buffer_size_def split: if_splits)
  then have "counted (st, c) (st, c2)" using recv_counted [OF 2(2)] by (rule counted_trans)
  then show ?case using 2(3) 1(1) counted_trans by (auto split: if_splits)
qed

lemma line_input_counted: "fb_read_line_input ev c = Some (e, c') \<Longrightarrow> counted (st, c) (st, c')"
  by (cases "fb_filename c") (auto simp: fb_read_line_input_def Let_def split: if_splits prod.splits bind_splits
      intro: counted_same dest!: line_bytes_counted [where st = st])

lemma handle_packet_counted: "handle_packet opcode packet payload ev s = Some (e, s') \<Longrightarrow> counted s s'"
  by (cases s) (auto simp: handle_packet_def split: if_splits bind_splits dest!: queue_http_counted intro: counted_trans)

lemma websocket_input_counted: "fb_read_websocket_input ev s = Some (e, s') \<Longrightarrow> counted s s'"
proof -
  assume run: "fb_read_websocket_input ev s = Some (e, s')"
  obtain st c where s: "s = (st, c)" by fastforce
  show "counted s s'"
    using run unfolding fb_read_websocket_input_def s Let_def fst_conv snd_conv
    by (auto split: if_splits bind_splits dest!: http_bytes_counted [where st = st] handle_packet_counted)
      (meson counted_trans)+
qed

end
