(* ===== verification/FbWorld.thy ===== *)
theory FbWorld
  imports FbCounts
begin

text \<open>
  The invariant of libfootball: the lists of connections, the registry of sockets and the use counts of the messages agree,
  and every operation keeps it so.
\<close>

section \<open>The invariant\<close>

definition refs_at :: "football \<Rightarrow> nat \<Rightarrow> nat multiset" where
  "refs_at W k = (case fb_connections W k of Some c \<Rightarrow> refs c | None \<Rightarrow> {#})"

definition others :: "nat \<Rightarrow> football \<Rightarrow> nat multiset" where
  "others k W = (\<Sum>j \<in> dom (fb_connections W) - {k}. refs_at W j)"

definition all_refs :: "football \<Rightarrow> nat multiset" where
  "all_refs W = (\<Sum>j \<in> dom (fb_connections W). refs_at W j)"

definition heap_ok :: "football \<Rightarrow> bool" where
  "heap_ok W \<longleftrightarrow> finite (dom (fb_connections W)) \<and> (\<forall>k \<in> dom (fb_connections W). k < next_address W)
    \<and> (\<forall>s \<in> dom (fb_services W). s < next_address W)"

definition lists_ok :: "football \<Rightarrow> bool" where
  "lists_ok W \<longleftrightarrow> (\<forall>s v. fb_services W s = Some v \<longrightarrow> distinct (sv_connections v)
      \<and> (\<forall>k. k \<in> set (sv_connections v) \<longleftrightarrow> (\<exists>c. fb_connections W k = Some c \<and> fb_service c = s)))
    \<and> (\<forall>k c. fb_connections W k = Some c \<longrightarrow> fb_services W (fb_service c) \<noteq> None)"

definition registry_ok :: "football \<Rightarrow> bool" where
  "registry_ok W \<longleftrightarrow> (\<forall>fd k. sockets W fd = Some (Connection_socket k) \<longleftrightarrow> (\<exists>c. fb_connections W k = Some c \<and> fb_socket c = fd))
    \<and> (\<forall>fd s. 0 < fd \<longrightarrow> sockets W fd = Some (Service_socket s) \<longleftrightarrow> (\<exists>v i. fb_services W s = Some v \<and> sv_socket v i = fd))
    \<and> (\<forall>fd. sockets W fd \<noteq> None \<longrightarrow> fd < activesockets W)
    \<and> activesockets W \<le> maxsockets W \<and> maxsockets W \<le> FD_SETSIZE"

definition counts_ok :: "football \<Rightarrow> bool" where
  "counts_ok W \<longleftrightarrow> store_ok (blocks W) (all_refs W)"

definition world_ok :: "football \<Rightarrow> bool" where
  "world_ok W \<longleftrightarrow> heap_ok W \<and> lists_ok W \<and> registry_ok W \<and> counts_ok W"

definition no_football :: football where
  "no_football = \<lparr>blocks = initial_store, fb_services = (\<lambda>_. None), fb_connections = (\<lambda>_. None), next_address = 0,
    sockets = (\<lambda>_. None), maxsockets = 0, activesockets = 0, reapq = [], queued_event = None, open_services = 0,
    last_reading = {}, last_writing = {}, tls_currently_buffering = False\<rparr>"

lemma no_football_ok: "world_ok no_football"
  using store_ok_initial
  by (simp add: world_ok_def heap_ok_def lists_ok_def registry_ok_def counts_ok_def all_refs_def no_football_def)

text \<open>Fields the invariant does not look at.\<close>

lemma all_refs_frame:
  "fb_connections W' = fb_connections W \<Longrightarrow> all_refs W' = all_refs W"
  "fb_connections W' = fb_connections W \<Longrightarrow> others k W' = others k W"
  by (simp_all add: all_refs_def others_def refs_at_def)

lemma world_ok_fields [simp]:
  "world_ok (W\<lparr>reapq := r\<rparr>) = world_ok W" "world_ok (W\<lparr>queued_event := e\<rparr>) = world_ok W"
  "world_ok (W\<lparr>open_services := n\<rparr>) = world_ok W" "world_ok (W\<lparr>tls_currently_buffering := b\<rparr>) = world_ok W"
  "world_ok (W\<lparr>last_reading := rs\<rparr>) = world_ok W" "world_ok (W\<lparr>last_writing := ws\<rparr>) = world_ok W"
  by (simp_all add: world_ok_def heap_ok_def lists_ok_def registry_ok_def counts_ok_def all_refs_def refs_at_def)

lemma put_simps [simp]:
  "fb_connections (put_connection k c W) = (fb_connections W)(k \<mapsto> c)" "fb_services (put_connection k c W) = fb_services W"
  "sockets (put_connection k c W) = sockets W" "blocks (put_connection k c W) = blocks W"
  "next_address (put_connection k c W) = next_address W" "maxsockets (put_connection k c W) = maxsockets W"
  "activesockets (put_connection k c W) = activesockets W"
  "fb_connections (put_service s v W) = fb_connections W" "fb_services (put_service s v W) = (fb_services W)(s \<mapsto> v)"
  "sockets (put_service s v W) = sockets W" "blocks (put_service s v W) = blocks W"
  "next_address (put_service s v W) = next_address W" "maxsockets (put_service s v W) = maxsockets W"
  "activesockets (put_service s v W) = activesockets W"
  by (simp_all add: put_connection_def put_service_def)

lemma all_refs_split:
  assumes "finite (dom (fb_connections W))" and "fb_connections W k = Some c"
  shows "all_refs W = others k W + refs c"
proof -
  have "k \<in> dom (fb_connections W)" using assms(2) by auto
  then show ?thesis using assms sum.remove [OF assms(1), of k "refs_at W"]
    by (simp add: all_refs_def others_def refs_at_def add.commute)
qed

lemma others_none: "fb_connections W k = None \<Longrightarrow> others k W = all_refs W"
proof -
  assume "fb_connections W k = None"
  then have "dom (fb_connections W) - {k} = dom (fb_connections W)" by auto
  then show ?thesis by (simp add: others_def all_refs_def)
qed

lemma others_put [simp]: "others k (put_connection k c W) = others k W"
  unfolding others_def by (rule sum.cong) (auto simp: refs_at_def)

lemma others_blocks [simp]: "others k (W\<lparr>blocks := st\<rparr>) = others k W"
  by (rule all_refs_frame) simp

section \<open>Changes of one connection or service\<close>

text \<open>The invariant while \<open>R\<close> holds references of its own, such as that of a message that is about to be queued.\<close>

definition world_with :: "nat multiset \<Rightarrow> football \<Rightarrow> bool" where
  "world_with R W \<longleftrightarrow> heap_ok W \<and> lists_ok W \<and> registry_ok W \<and> store_ok (blocks W) (R + all_refs W)"

lemma world_with_none: "world_with {#} W = world_ok W"
  by (simp add: world_with_def world_ok_def counts_ok_def)

lemma put_connection_with:
  assumes ok: "world_with R0 W" and c: "fb_connections W k = Some c" and "fb_socket c' = fb_socket c" and "fb_service c' = fb_service c"
    and st: "store_ok st (R + (others k W + refs c'))"
  shows "world_with R (put_connection k c' (W\<lparr>blocks := st\<rparr>))"
proof -
  let ?W = "put_connection k c' (W\<lparr>blocks := st\<rparr>)"
  have "finite (dom (fb_connections ?W))" using ok c by (simp add: world_with_def heap_ok_def)
  from all_refs_split [OF this, of k c'] have "store_ok (blocks ?W) (R + all_refs ?W)" using st by simp
  moreover have "registry_ok ?W" using ok c assms(3) by (auto simp: world_with_def registry_ok_def)
  moreover have "lists_ok ?W" using ok c assms(4) by (auto simp: world_with_def lists_ok_def split: if_splits)
  moreover have "heap_ok ?W" using ok c by (auto simp: world_with_def heap_ok_def)
  ultimately show ?thesis by (simp add: world_with_def)
qed

lemma put_connection_ok:
  assumes "world_ok W" and "fb_connections W k = Some c" and "fb_socket c' = fb_socket c" and "fb_service c' = fb_service c"
    and "store_ok st (others k W + refs c')"
  shows "world_ok (put_connection k c' (W\<lparr>blocks := st\<rparr>))"
  using put_connection_with [of "{#}" W k c c' st "{#}"] assms by (simp add: world_with_none)

lemma world_ok_counts:
  assumes "world_ok W" and "fb_connections W k = Some c"
  shows "store_ok (blocks W) (others k W + refs c)"
  using assms all_refs_split [of W k c] by (simp add: world_ok_def heap_ok_def counts_ok_def)

lemma with_connection_ok:
  assumes "world_ok W" and "with_connection k f W = Some (r, W')"
    and "\<And>st c r s'. f st c = Some (r, s') \<Longrightarrow> counted (st, c) s'"
  shows "world_ok W'"
proof -
  from assms(2) obtain c st c' where c: "fb_connections W k = Some c" "f (blocks W) c = Some (r, st, c')"
      "W' = put_connection k c' (W\<lparr>blocks := st\<rparr>)"
    by (auto simp: with_connection_def split: bind_splits)
  have "counted (blocks W, c) (st, c')" using assms(3) [OF c(2)] .
  then show ?thesis unfolding c(3)
    using put_connection_ok [OF assms(1) c(1), of c' st] world_ok_counts [OF assms(1) c(1)] by (simp add: counted_def)
qed

lemma update_connection_ok:
  assumes "world_ok W" and "fb_connections W k = Some c" and "counted (blocks W, c) (blocks W, c')"
  shows "world_ok (put_connection k c' W)"
  using put_connection_ok [OF assms(1,2), of c' "blocks W"] world_ok_counts [OF assms(1,2)] assms(3) by (simp add: counted_def)

lemma put_service_ok:
  assumes "world_ok W" and "fb_services W s = Some v" and "sv_connections v' = sv_connections v" and "sv_socket v' = sv_socket v"
  shows "world_ok (put_service s v' W)"
proof -
  have "all_refs (put_service s v' W) = all_refs W" by (rule all_refs_frame) simp
  moreover have "lists_ok (put_service s v' W)"
    using assms(1-3) by (auto simp: world_ok_def lists_ok_def split: if_splits)
  ultimately show ?thesis
    using assms by (auto simp: world_ok_def heap_ok_def registry_ok_def counts_ok_def)
qed

lemma set_buffering_ok: "world_ok W \<Longrightarrow> fb_set_buffering k b W = Some W' \<Longrightarrow> world_ok W'"
  by (auto simp: fb_set_buffering_def split: if_splits bind_splits intro!: update_connection_ok counted_same)

lemma accept_input_ok: "world_ok W \<Longrightarrow> fb_accept_input_on k inp tls W = Some W' \<Longrightarrow> world_ok W'"
proof -
  assume ok: "world_ok W" and run: "fb_accept_input_on k inp tls W = Some W'"
  then obtain c where c: "fb_connections W k = Some c" by (auto simp: fb_accept_input_on_def split: bind_splits)
  have "world_ok (put_connection k (c\<lparr>reading := inp\<rparr>) W)"
    by (rule update_connection_ok [OF ok c]) (simp add: counted_same)
  then show "world_ok W'"
    using run c by (auto simp: fb_accept_input_on_def Let_def split: if_splits intro: set_buffering_ok)
qed

lemma close_conn_ok: "world_ok W \<Longrightarrow> fb_close_conn k W = Some W' \<Longrightarrow> world_ok W'"
  by (auto simp: fb_close_conn_def split: if_splits bind_splits intro!: update_connection_ok)

lemma close_all_ok: "world_ok W \<Longrightarrow> close_all ks W = Some W' \<Longrightarrow> world_ok W'"
  by (induction ks arbitrary: W) (auto split: bind_splits dest: close_conn_ok)

section \<open>The registry\<close>

lemma shrink_bounds: "shrink so n \<le> n" "fd < n \<Longrightarrow> so fd \<noteq> None \<Longrightarrow> fd < shrink so n"
  by (induction so n rule: shrink.induct) (auto simp: less_Suc_eq)

lemma registry_size_bounds: "fd < FD_SETSIZE \<Longrightarrow> old \<le> FD_SETSIZE \<Longrightarrow> fd < registry_size old fd \<and> old \<le> registry_size old fd
    \<and> registry_size old fd \<le> FD_SETSIZE"
  by (auto simp: registry_size_def Let_def min_def)

text \<open>What holds of the bounds of the registry.\<close>

definition bounds_ok :: "football \<Rightarrow> bool" where
  "bounds_ok W \<longleftrightarrow> (\<forall>fd. sockets W fd \<noteq> None \<longrightarrow> fd < activesockets W) \<and> activesockets W \<le> maxsockets W
    \<and> maxsockets W \<le> FD_SETSIZE"

lemma unregister_ok:
  assumes "fb_unregister fd W = Some W'" and "bounds_ok W"
  shows "sockets W' = (sockets W)(fd := None)" "fb_connections W' = fb_connections W" "fb_services W' = fb_services W"
    "blocks W' = blocks W" "next_address W' = next_address W" "bounds_ok W'"
proof -
  let ?so = "(sockets W)(fd := None)"
  show "sockets W' = (sockets W)(fd := None)" "fb_connections W' = fb_connections W" "fb_services W' = fb_services W"
    "blocks W' = blocks W" "next_address W' = next_address W"
    using assms(1) by (auto simp: fb_unregister_def Let_def split: if_splits)
  have "fd' < shrink ?so (activesockets W)" if "?so fd' \<noteq> None" for fd'
    using assms(2) that by (intro shrink_bounds(2)) (auto simp: bounds_ok_def split: if_splits)
  moreover have "shrink ?so (activesockets W) \<le> maxsockets W"
    using shrink_bounds(1) [of ?so "activesockets W"] assms(2) by (auto simp: bounds_ok_def)
  ultimately show "bounds_ok W'"
    using assms by (auto simp: fb_unregister_def bounds_ok_def Let_def split: if_splits)
qed

lemma world_ok_bounds: "world_ok W \<Longrightarrow> bounds_ok W"
  by (simp add: world_ok_def registry_ok_def bounds_ok_def)

lemma connection_registered: "world_ok W \<Longrightarrow> fb_connections W k = Some c \<Longrightarrow> sockets W (fb_socket c) = Some (Connection_socket k)"
  by (simp add: world_ok_def registry_ok_def)

lemma connection_listed:
  assumes "world_ok W" and "fb_connections W k = Some c"
  shows "\<exists>v. fb_services W (fb_service c) = Some v \<and> k \<in> set (sv_connections v)"
proof -
  have "fb_services W (fb_service c) \<noteq> None" using assms by (simp add: world_ok_def lists_ok_def)
  then obtain v where v: "fb_services W (fb_service c) = Some v" by blast
  then have "k \<in> set (sv_connections v) \<longleftrightarrow> (\<exists>d. fb_connections W k = Some d \<and> fb_service d = fb_service c)"
    using assms(1) by (simp add: world_ok_def lists_ok_def)
  with v assms(2) show ?thesis by simp
qed

lemma sockets_distinct:
  assumes "world_ok W" and "fb_connections W k = Some c" and "fb_connections W j = Some d" and "fb_socket d = fb_socket c"
  shows "j = k"
  using connection_registered [OF assms(1,2)] connection_registered [OF assms(1,3)] assms(4) by simp

section \<open>Destroying and transferring connections\<close>

lemma remove_connection:
  assumes "fb_remove_connection_from_service s k W = Some W'"
  shows "\<exists>v. fb_services W s = Some v \<and> k \<in> set (sv_connections v)
    \<and> W' = put_service s (v\<lparr>sv_connections := remove1 k (sv_connections v)\<rparr>) W"
  using assms by (auto simp: fb_remove_connection_from_service_def split: bind_splits if_splits)

lemma destroy_connection_ok:
  assumes ok: "world_ok W" and run: "fb_destroy_connection k W = Some W'"
  shows "world_ok W'"
proof -
  obtain c W1 W2 q1 st1 q2 st2 where
    1: "fb_connections W k = Some c" "fb_remove_connection_from_service (fb_service c) k W = Some W1"
      "fb_unregister (fb_socket c) W1 = Some W2" "fb_queue_destroy (fb_assembly c) (blocks W2) = Some (q1, st1)"
      "fb_queue_destroy (fb_out c) st1 = Some (q2, st2)"
    and W': "W' = W2\<lparr>blocks := st2, fb_connections := (fb_connections W2)(k := None)\<rparr>"
    using run by (auto simp: fb_destroy_connection_def split: bind_splits)
  obtain v where v: "fb_services W (fb_service c) = Some v" "k \<in> set (sv_connections v)"
      "W1 = put_service (fb_service c) (v\<lparr>sv_connections := remove1 k (sv_connections v)\<rparr>) W"
    using remove_connection [OF 1(2)] by blast
  have "bounds_ok W1" using world_ok_bounds [OF ok] by (simp add: v(3) bounds_ok_def)
  note W2 = unregister_ok [OF 1(3) this]
  have store: "store_ok st2 (others k W)"
  proof -
    have "blocks W2 = blocks W" by (simp add: W2 v(3))
    then have "store_ok (blocks W2) ((others k W + mset (queued (fb_out c))) + mset (queued (fb_assembly c)))"
      using world_ok_counts [OF ok 1(1)] by (simp add: refs_def ac_simps)
    from destroy_counts(2) [OF 1(4) this] show ?thesis using destroy_counts(2) [OF 1(5)] by simp
  qed
  have "fb_connections W' k = None" by (simp add: W')
  from others_none [OF this] have "all_refs W' = others k W'" by simp
  also have "\<dots> = others k W"
    unfolding others_def by (rule sum.cong) (auto simp: refs_at_def W' W2 v(3))
  finally have "counts_ok W'" using store by (simp add: counts_ok_def W')
  moreover have "lists_ok W'"
    using ok 1(1) v by (auto simp: world_ok_def lists_ok_def W' W2 v(3) split: if_splits)
  moreover have "registry_ok W'"
  proof -
    have fd: "sockets W (fb_socket c) = Some (Connection_socket k)"
      using ok 1(1) by (simp add: world_ok_def registry_ok_def)
    have "sockets W' fd = Some (Connection_socket j) \<longleftrightarrow> (\<exists>c. fb_connections W' j = Some c \<and> fb_socket c = fd)" for fd j
    proof -
      have "sockets W fd = Some (Connection_socket j) \<longleftrightarrow> (\<exists>c. fb_connections W j = Some c \<and> fb_socket c = fd)"
        using ok by (simp add: world_ok_def registry_ok_def)
      moreover have "sockets W' = (sockets W)(fb_socket c := None)" "fb_connections W' = (fb_connections W)(k := None)"
        by (simp_all add: W' W2 v(3))
      moreover have "j \<noteq> k \<Longrightarrow> fb_connections W j = Some d \<Longrightarrow> fb_socket d \<noteq> fb_socket c" for d
        using sockets_distinct [OF ok 1(1), of j d] by blast
      ultimately show ?thesis using 1(1) by (cases "j = k") auto
    qed
    moreover have "0 < fd \<Longrightarrow> sockets W' fd = Some (Service_socket s) \<longleftrightarrow>
        (\<exists>v i. fb_services W' s = Some v \<and> sv_socket v i = fd)" for fd s
    proof -
      assume "0 < fd"
      then have "sockets W fd = Some (Service_socket s) \<longleftrightarrow> (\<exists>v i. fb_services W s = Some v \<and> sv_socket v i = fd)"
        using ok by (simp add: world_ok_def registry_ok_def)
      moreover have "(\<exists>v i. fb_services W' s = Some v \<and> sv_socket v i = fd) \<longleftrightarrow> (\<exists>v i. fb_services W s = Some v \<and> sv_socket v i = fd)"
        using v(1) by (auto simp: W' W2 v(3))
      ultimately show ?thesis using fd by (auto simp: W' W2 v(3))
    qed
    moreover have "bounds_ok W'" using W2(6) by (simp add: bounds_ok_def W')
    ultimately show ?thesis by (simp add: registry_ok_def bounds_ok_def)
  qed
  moreover have "heap_ok W'" using ok v(1) by (auto simp: world_ok_def heap_ok_def W' W2 v(3) dom_def elim: finite_subset [rotated])
  ultimately show ?thesis by (simp add: world_ok_def)
qed

lemma transfer_ok:
  assumes ok: "world_ok W" and run: "fb_transfer k s W = Some W'"
  shows "world_ok W'"
proof -
  obtain c W1 v where
    1: "fb_connections W k = Some c" "fb_remove_connection_from_service (fb_service c) k W = Some W1" "fb_services W1 s = Some v"
    and W': "W' = put_connection k (c\<lparr>fb_service := s\<rparr>) (put_service s (v\<lparr>sv_connections := sv_connections v @ [k]\<rparr>) W1)"
    using run by (auto simp: fb_transfer_def split: bind_splits)
  obtain u where u: "fb_services W (fb_service c) = Some u" "k \<in> set (sv_connections u)"
      "W1 = put_service (fb_service c) (u\<lparr>sv_connections := remove1 k (sv_connections u)\<rparr>) W"
    using remove_connection [OF 1(2)] by blast
  have "finite (dom (fb_connections W'))" using ok 1(1) by (simp add: world_ok_def heap_ok_def W' u(3))
  from all_refs_split [OF this, of k "c\<lparr>fb_service := s\<rparr>"] have "all_refs W' = others k W + refs c"
    by (simp add: W' u(3) refs_def) (simp add: others_def refs_at_def)
  then have "counts_ok W'"
    using world_ok_counts [OF ok 1(1)] by (simp add: counts_ok_def W' u(3))
  moreover have "heap_ok W'" using ok 1 u by (auto simp: world_ok_def heap_ok_def W' split: if_splits)
  moreover have "registry_ok W'" using ok 1 u by (auto simp: world_ok_def registry_ok_def W' split: if_splits)
  moreover have "lists_ok W'"
  proof (cases "s = fb_service c")
    case True
    with 1(3) u show ?thesis using ok 1(1) by (auto simp: world_ok_def lists_ok_def W' split: if_splits)
  next
    case False
    then have v: "fb_services W s = Some v" using 1(3) u(3) by (simp split: if_splits)
    then have "k \<notin> set (sv_connections v)" using ok 1(1) False by (auto simp: world_ok_def lists_ok_def)
    with False v u show ?thesis using ok 1(1) by (auto simp: world_ok_def lists_ok_def W' split: if_splits)
  qed
  ultimately show ?thesis by (simp add: world_ok_def)
qed

lemma transfer_by_name_ok: "world_ok W \<Longrightarrow> fb_transfer_by_name k wanted W = Some (r, W') \<Longrightarrow> world_ok W'"
  by (auto simp: fb_transfer_by_name_def split: bind_splits option.splits dest: transfer_ok)

end
