(* ===== verification/FbReachable.thy ===== *)
theory FbReachable
  imports FbWorld
begin

text \<open>
  Every operation of libfootball keeps the invariant \<open>world_ok\<close>: reading by the state of the connection, the events
  of ready sockets, polling, services, broadcasts.
\<close>

named_theorems world_ops \<open>operations that keep the invariant of the world\<close>

abbreviation keeps :: "('a \<times> football) option \<Rightarrow> bool" where
  "keeps m \<equiv> wp m (\<lambda>r. world_ok (snd r))"

lemma keepsI: "(\<And>r W'. m = Some (r, W') \<Longrightarrow> world_ok W') \<Longrightarrow> keeps m"
  by (auto simp: wp_def)

lemma bind_keeps:
  assumes "keeps m" and "\<And>r W. world_ok W \<Longrightarrow> wp (f r W) Q"
  shows "wp (Option.bind m (\<lambda>(r, W). f r W)) Q"
  using assms(1) by (rule wp_bind) (use assms(2) in \<open>auto simp: case_prod_beta\<close>)

lemma bind_world:
  assumes "wp m world_ok" and "\<And>W. world_ok W \<Longrightarrow> wp (f W) Q"
  shows "wp (Option.bind m f) Q"
  using assms by (rule wp_bind)

text \<open>Looking something up does not change the world.\<close>

lemma bind_lookup:
  "(\<And>c. fb_connections W k = Some c \<Longrightarrow> wp (f c) Q) \<Longrightarrow> wp (Option.bind (fb_connections W k) f) Q"
  "(\<And>v. fb_services W s = Some v \<Longrightarrow> wp (g v) Q) \<Longrightarrow> wp (Option.bind (fb_services W s) g) Q"
  "(\<And>opt. options_of k W = Some opt \<Longrightarrow> wp (h opt) Q) \<Longrightarrow> wp (Option.bind (options_of k W) h) Q"
  by (rule wp_bind_any, simp)+

lemmas world_rules = bind_keeps bind_world bind_lookup wp_if wp_option

section \<open>Reading\<close>

lemma with_connection_keeps:
  "world_ok W \<Longrightarrow> (\<And>st c r s'. f st c = Some (r, s') \<Longrightarrow> counted (st, c) s') \<Longrightarrow> keeps (with_connection k f W)"
  by (rule keepsI) (rule with_connection_ok)

lemma read_line_keeps [world_ops]: "world_ok W \<Longrightarrow> keeps (read_line ev k W)"
  unfolding read_line_def
  by (erule with_connection_keeps) (auto split: bind_splits dest: line_input_counted)

lemma update_at_keeps:
  assumes "world_ok W"
    and "\<And>c. fb_socket (f c) = fb_socket c \<and> fb_service (f c) = fb_service c \<and> fb_out (f c) = fb_out c
      \<and> fb_assembly (f c) = fb_assembly c"
  shows "wp (update_connection_at k f W) world_ok"
  by (rule wpI) (use assms in \<open>auto simp: update_connection_at_def intro!: update_connection_ok counted_same\<close>)

lemma gone_keeps [world_ops]: "world_ok W \<Longrightarrow> keeps (gone k W)"
  by (rule keepsI) (auto simp: gone_def dest: destroy_connection_ok)

lemma transfer_keeps [world_ops]: "world_ok W \<Longrightarrow> keeps (fb_transfer_by_name k wanted W)"
  by (rule keepsI) (rule transfer_by_name_ok)

lemma start_session_keeps [world_ops]: "world_ok W \<Longrightarrow> keeps (start_session ev k W)"
  unfolding start_session_def by (intro world_rules update_at_keeps) simp_all

lemma queue_event_keeps [world_ops]: "world_ok W \<Longrightarrow> wp (fb_queue_event ev W) world_ok"
  by (rule wpI) (auto simp: fb_queue_event_def split: if_splits)

lemma wp_step:
  assumes "step = Served \<Longrightarrow> wp m Q" and "step = Upgraded \<Longrightarrow> wp n Q" and "\<And>s. step = Other_service s \<Longrightarrow> wp (f s) Q"
  shows "wp (case step of Served \<Rightarrow> m | Upgraded \<Rightarrow> n | Other_service s \<Rightarrow> f s) Q"
  using assms by (cases step) auto

lemma execute_http_keeps: "fb_execute_http_request w ev k W = Some r \<Longrightarrow> world_ok W \<longrightarrow> world_ok (snd r)"
proof (erule fb_execute_http_request.raw_induct [where P = "\<lambda>w ev k W r. world_ok W \<longrightarrow> world_ok (snd r)", rotated], goal_cases)
  case (1 loop w ev k W r)
  have loop: "keeps (loop w ev k W1)" if "world_ok W1" for W1
    by (rule wpI) (use 1(1) that in blast)
  show ?case
  proof
    assume ok: "world_ok W"
    show "world_ok (snd r)"
      by (rule wpD [OF _ 1(2)])
        (intro world_rules world_ops with_connection_keeps ok loop wp_step;
          (assumption | auto dest!: execute_request_counted http_response_counted finish_after)?)
  qed
qed

lemma execute_request_keeps [world_ops]: "world_ok W \<Longrightarrow> keeps (fb_execute_http_request w ev k W)"
  by (rule wpI) (use execute_http_keeps in blast)

lemma done_keeps: "world_ok W \<Longrightarrow> keeps (Some (r, W))"
  by simp

lemma read_greeting_keeps [world_ops]: "world_ok W \<Longrightarrow> keeps (read_greeting ev k W)"
  unfolding read_greeting_def
  by (intro world_rules world_ops with_connection_keeps done_keeps;
      (assumption | auto intro!: counted_same split: bind_splits)?)

lemma read_header_keeps [world_ops]: "world_ok W \<Longrightarrow> keeps (read_header w ev k W)"
  unfolding read_header_def
  by (intro world_rules world_ops update_at_keeps done_keeps; (assumption | auto)?)

lemma read_open_keeps [world_ops]: "world_ok W \<Longrightarrow> keeps (read_open ev k c W)"
  unfolding read_open_def
  by (intro world_rules world_ops update_at_keeps with_connection_keeps done_keeps;
      (assumption | auto dest!: websocket_input_counted)?)

lemma handshake_keeps:
  "world_ok W \<Longrightarrow> fb_connections W k = Some c \<Longrightarrow> world_ok (put_connection k (c\<lparr>handshakes := s\<rparr>) W)"
  by (erule update_connection_ok, assumption) (simp add: counted_same)

lemma read_input_keeps [world_ops]: "world_ok W \<Longrightarrow> keeps (fb_read_input w ev k W)"
proof -
  assume ok: "world_ok W"
  have "keeps (case fb_state c of
      TLS_HANDSHAKE \<Rightarrow>
        (let W = put_connection k (c\<lparr>handshakes := stl (handshakes c)\<rparr>) W in
         case shd (handshakes c) of
           Handshake_failed \<Rightarrow> gone k W
         | Handshake_wait \<Rightarrow> Some (None, W)
         | Handshake_done \<Rightarrow> do {
             W \<leftarrow> update_connection_at k (\<lambda>c. c\<lparr>fb_state := GREETING\<rparr>) W;
             read_greeting ev k W
           })
    | GREETING \<Rightarrow> read_greeting ev k W
    | GATHERING_HEADER \<Rightarrow> read_header w ev k W
    | OPEN \<Rightarrow> read_open ev k c W
    | _ \<Rightarrow> None)" if c: "fb_connections W k = Some c" for c
  proof (cases "fb_state c")
    case TLS_HANDSHAKE
    show ?thesis unfolding TLS_HANDSHAKE conn_state.case Let_def
      by (cases "shd (handshakes c)"; simp; (intro world_rules world_ops update_at_keeps)?)
        (auto intro: handshake_keeps [OF ok c])
  qed (use ok in \<open>auto intro: world_ops\<close>)
  then show ?thesis unfolding fb_read_input_def by (intro bind_lookup)
qed

section \<open>Writing\<close>

lemma schedule_reap_ok [simp]: "world_ok (fb_schedule_reap s W) = world_ok W"
  by (simp add: fb_schedule_reap_def)

lemma write_output_keeps [world_ops]: "world_ok W \<Longrightarrow> keeps (fb_write_output ev k W)"
proof -
  assume ok: "world_ok W"
  have "keeps (case r of
      Quiet \<Rightarrow> Some (None, W)
    | Close_event \<Rightarrow> Some (Some (ev\<lparr>ev_type := EVENT_CLOSE\<rparr>), W)
    | Finished \<Rightarrow> do {
        c \<leftarrow> fb_connections W k;
        v \<leftarrow> fb_services W (fb_service c);
        gone k (if length (sv_connections v) = 1 \<and> sv_state v = CLOSING then fb_schedule_reap (fb_service c) W else W)
      })" if "world_ok W" for r W
    using that by (cases r) (auto intro!: world_rules world_ops)
  then show ?thesis unfolding fb_write_output_def
    by (intro bind_keeps with_connection_keeps ok) (auto dest: send_output_counted)
qed

section \<open>New connections\<close>

lemma register_fields:
  assumes "fb_register fd t W = Some (ok, W')" and "bounds_ok W"
  shows "\<not> ok \<Longrightarrow> W' = W \<and> FD_SETSIZE \<le> fd"
    and "ok \<Longrightarrow> sockets W fd = None \<and> sockets W' = (sockets W)(fd \<mapsto> t) \<and> blocks W' = blocks W \<and> next_address W' = next_address W
      \<and> bounds_ok W' \<and> (\<exists>W1. set_reading fd t W = Some W1 \<and> fb_services W' = fb_services W1 \<and> fb_connections W' = fb_connections W1)"
proof -
  show "\<not> ok \<Longrightarrow> W' = W \<and> FD_SETSIZE \<le> fd"
    using assms(1) by (auto simp: fb_register_def Let_def split: if_splits bind_splits)
  assume ok
  then have fd: "fd < FD_SETSIZE" using assms(1) by (auto simp: fb_register_def split: if_splits)
  let ?m = "if maxsockets W \<le> fd then registry_size (maxsockets W) fd else maxsockets W"
  let ?W = "W\<lparr>maxsockets := ?m, sockets := (sockets W)(fd \<mapsto> t)\<rparr>"
  have m: "maxsockets W \<le> ?m" "fd < ?m" "?m \<le> FD_SETSIZE"
    using registry_size_bounds [OF fd, of "maxsockets W"] assms(2) by (auto simp: bounds_ok_def)
  have none: "sockets W fd = None" using assms(1) fd by (auto simp: fb_register_def Let_def split: if_splits)
  have eq: "(if maxsockets W \<le> fd then W\<lparr>maxsockets := registry_size (maxsockets W) fd\<rparr> else W) = W\<lparr>maxsockets := ?m\<rparr>" by simp
  obtain W2 where W2: "set_reading fd t ?W = Some W2"
      "W' = (if activesockets W2 \<le> fd then W2\<lparr>activesockets := fd + 1\<rparr> else W2)"
    using assms(1) fd none unfolding fb_register_def Let_def eq by (auto split: bind_splits)
  have "\<exists>W1. set_reading fd t W = Some W1 \<and> fb_services W2 = fb_services W1 \<and> fb_connections W2 = fb_connections W1"
    using W2(1) by (auto simp: set_reading_def split: thing.splits)
  moreover have "sockets W2 = (sockets W)(fd \<mapsto> t) \<and> blocks W2 = blocks W \<and> next_address W2 = next_address W
      \<and> maxsockets W2 = ?m \<and> activesockets W2 = activesockets W"
    using W2(1) by (auto simp: set_reading_def split: thing.splits)
  ultimately show "sockets W fd = None \<and> sockets W' = (sockets W)(fd \<mapsto> t) \<and> blocks W' = blocks W \<and> next_address W' = next_address W
      \<and> bounds_ok W' \<and> (\<exists>W1. set_reading fd t W = Some W1 \<and> fb_services W' = fb_services W1 \<and> fb_connections W' = fb_connections W1)"
    using none m assms(2) unfolding W2(2) bounds_ok_def by (auto simp: less_Suc_eq)
qed

lemma new_connection_ok:
  assumes ok: "world_ok W" and v: "fb_services W s = Some v" and k: "k = next_address W"
    and c: "fb_service c = s" "refs c = {#}" "fb_socket c = fd" and free: "sockets W fd = None"
    and W': "fb_services W' = (fb_services W)(s \<mapsto> v\<lparr>sv_connections := sv_connections v @ [k]\<rparr>)"
      "fb_connections W' = (fb_connections W)(k \<mapsto> c)" "sockets W' = (sockets W)(fd \<mapsto> Connection_socket k)"
      "blocks W' = blocks W" "next_address W' = k + 1" "bounds_ok W'"
  shows "world_ok W'"
proof -
  have new: "fb_connections W k = None"
    using ok k unfolding world_ok_def heap_ok_def by (meson domIff less_irrefl)
  have fin: "finite (dom (fb_connections W'))" using ok by (simp add: world_ok_def heap_ok_def W')
  have "others k W' = others k W" unfolding others_def by (rule sum.cong) (auto simp: refs_at_def W')
  then have "all_refs W' = all_refs W"
    using all_refs_split [OF fin, of k c] others_none [OF new] c(2) by (simp add: W')
  then have "counts_ok W'" using ok by (simp add: world_ok_def counts_ok_def W')
  moreover have "heap_ok W'" using ok v k by (auto simp: world_ok_def heap_ok_def W' less_Suc_eq)
  moreover have "lists_ok W'"
    using ok v c(1) new by (auto simp: world_ok_def lists_ok_def W' split: if_splits)
  moreover have "registry_ok W'"
  proof -
    have "sockets W' x = Some (Connection_socket j) \<longleftrightarrow> (\<exists>d. fb_connections W' j = Some d \<and> fb_socket d = x)" for x j
    proof -
      have "sockets W x = Some (Connection_socket j) \<longleftrightarrow> (\<exists>d. fb_connections W j = Some d \<and> fb_socket d = x)"
        using ok by (simp add: world_ok_def registry_ok_def)
      then show ?thesis using new c(3) free by (cases "j = k"; cases "x = fd") (auto simp: W')
    qed
    moreover have "sockets W' x = Some (Service_socket j) \<longleftrightarrow> (\<exists>u i. fb_services W' j = Some u \<and> sv_socket u i = x)" if "0 < x" for x j
    proof -
      have "sockets W x = Some (Service_socket j) \<longleftrightarrow> (\<exists>u i. fb_services W j = Some u \<and> sv_socket u i = x)"
        using ok that by (simp add: world_ok_def registry_ok_def)
      moreover have "(\<exists>u i. fb_services W' j = Some u \<and> sv_socket u i = x) \<longleftrightarrow> (\<exists>u i. fb_services W j = Some u \<and> sv_socket u i = x)"
        using v by (auto simp: W')
      ultimately show ?thesis using free by (auto simp: W')
    qed
    ultimately show ?thesis using W'(6) by (simp add: registry_ok_def bounds_ok_def)
  qed
  ultimately show ?thesis by (simp add: world_ok_def)
qed

lemma unregister_none: "sockets W fd = None \<Longrightarrow> fb_unregister fd W = None"
  by (simp add: fb_unregister_def)

lemma accepted_connection:
  assumes "fb_accept_connection s i a W = Some (Some k, W')"
  shows "\<exists>v c. fb_services W s = Some v \<and> k = next_address W \<and> fb_service c = s \<and> refs c = {#}
    \<and> W' = put_connection k c (put_service s (v\<lparr>sv_connections := sv_connections v @ [k]\<rparr>) (W\<lparr>next_address := k + 1\<rparr>))"
proof -
  let ?c = "\<lambda>v fd. (fb_new_connection s a fd)\<lparr>fb_http := fb_http_socket i, fb_encrypted := fb_encrypted_socket i,
    fb_state := first_state (opt_mode (sv_options v)) i\<rparr>"
  obtain v fd where "fb_services W s = Some v" "k = next_address W"
      "W' = put_connection k (?c v fd) (put_service s (v\<lparr>sv_connections := sv_connections v @ [k]\<rparr>) (W\<lparr>next_address := k + 1\<rparr>))"
    using assms
    by (auto simp: fb_accept_connection_def add_connection_def Let_def split: bind_splits if_splits option.splits)
  moreover have "fb_service (?c v fd) = s" "refs (?c v fd) = {#}"
    by (simp_all add: fb_new_connection_def refs_def empty_queue_def)
  ultimately show ?thesis by blast
qed

lemma register_connection_ok:
  assumes ok: "world_ok W" and acc: "fb_accept_connection s i a W = Some (Some k, W1)" and "fb_connections W1 k = Some c"
    and reg: "fb_register (fb_socket c) (Connection_socket k) W1 = Some (True, W')"
  shows "world_ok W'"
proof -
  obtain v where v: "fb_services W s = Some v" "k = next_address W" "fb_service c = s" "refs c = {#}"
      "W1 = put_connection k c (put_service s (v\<lparr>sv_connections := sv_connections v @ [k]\<rparr>) (W\<lparr>next_address := k + 1\<rparr>))"
    using accepted_connection [OF acc] assms(3) by auto
  have "bounds_ok W1" using world_ok_bounds [OF ok] by (simp add: v(5) bounds_ok_def)
  note W' = register_fields(2) [OF reg this TrueI]
  show ?thesis
    by (rule new_connection_ok [OF ok v(1,2), of "c\<lparr>reading := True\<rparr>" "fb_socket c"])
      (use W' v(3,4) in \<open>auto simp: v(5) set_reading_def refs_def\<close>)
qed

lemma destroy_unregistered: "fb_connections W k = Some c \<Longrightarrow> sockets W (fb_socket c) = None \<Longrightarrow> gone k W = None"
  by (auto simp: gone_def fb_destroy_connection_def unregister_none put_service_def dest!: remove_connection split: bind_splits)

lemma accept_nothing: "fb_accept_connection s i a W = Some (None, W') \<Longrightarrow> W' = W"
  by (auto simp: fb_accept_connection_def Let_def split: bind_splits if_splits option.splits prod.splits)

lemma new_connect_keeps [world_ops]: "world_ok W \<Longrightarrow> keeps (fb_new_connect ev s a W)"
proof (rule keepsI)
  fix e W'
  assume ok: "world_ok W" and run: "fb_new_connect ev s a W = Some (e, W')"
  then obtain i k W1 where acc: "fb_accept_connection s i a W = Some (k, W1)"
      and rest: "(case k of
        None \<Rightarrow> Some (None, W1)
      | Some k \<Rightarrow> do {
          c \<leftarrow> fb_connections W1 k;
          (ok, W) \<leftarrow> fb_register (fb_socket c) (Connection_socket k) W1;
          if ok then Some (if fb_state c = OPEN
              then Some (ev\<lparr>ev_connection := Some k, ev_socket := fb_socket c, ev_service := Some s, ev_type := EVENT_CONNECT\<rparr>)
              else None, W)
          else gone k W
        }) = Some (e, W')"
    by (auto simp: fb_new_connect_def split: bind_splits)
  show "world_ok W'"
  proof (cases k)
    case None
    then show ?thesis using rest acc ok accept_nothing [of s i a W W1] by simp
  next
    case (Some k)
    obtain c reg W2 where c: "fb_connections W1 k = Some c" "fb_register (fb_socket c) (Connection_socket k) W1 = Some (reg, W2)"
      using rest Some by (auto split: bind_splits)
    have "bounds_ok W1" using accepted_connection [OF acc [unfolded Some]] world_ok_bounds [OF ok] by (auto simp: bounds_ok_def)
    note reg = register_fields [OF c(2) this]
    show ?thesis
    proof (cases reg)
      case True
      then show ?thesis using register_connection_ok [OF ok acc [unfolded Some] c(1)] c(2) rest Some c(1) by simp
    next
      case False
      then have "W2 = W1" "FD_SETSIZE \<le> fb_socket c" using reg by auto
      moreover from this \<open>bounds_ok W1\<close> have "sockets W1 (fb_socket c) = None" by (auto simp: bounds_ok_def)
      ultimately have "gone k W2 = None" using destroy_unregistered c(1) by simp
      then show ?thesis using rest Some False c by simp
    qed
  qed
qed

lemma accept_file_keeps [world_ops]: "world_ok W \<Longrightarrow> keeps (fb_accept_file s file opened W)"
proof (rule keepsI)
  fix e W'
  assume ok: "world_ok W" and run: "fb_accept_file s file opened W = Some (e, W')"
  show "world_ok W'"
  proof (cases opened)
    case None
    then show ?thesis using run ok by (auto simp: fb_accept_file_def split: bind_splits if_splits)
  next
    case (Some f)
    obtain fd contents where f: "f = (fd, contents)" by fastforce
    let ?k = "next_address W"
    let ?c = "(fb_new_connection s \<lparr>ar_tls = False, ar_socket = None, ar_sends = sconst Send_error,
              ar_receives = sconst Recv_error, ar_handshakes = sconst Handshake_failed\<rparr> fd)
            \<lparr>fb_state := OPEN, fb_filename := Some file, fb_file := contents\<rparr>"
    let ?W1 = "put_connection ?k ?c (W\<lparr>next_address := ?k + 1\<rparr>)"
    obtain v reg W2 where v: "fb_services W s = Some v" "fb_register fd (Connection_socket ?k) ?W1 = Some (reg, W2)"
        "W' = (if reg then put_service s (v\<lparr>sv_connections := sv_connections v @ [?k]\<rparr>) W2 else W)"
      using run by (auto simp: fb_accept_file_def Some f Let_def split: bind_splits if_splits)
    show ?thesis
    proof (cases reg)
      case True
      have "bounds_ok ?W1" using world_ok_bounds [OF ok] by (simp add: bounds_ok_def)
      note W2 = register_fields(2) [OF v(2) this True]
      show ?thesis
        by (rule new_connection_ok [OF ok v(1) refl, of "?c\<lparr>reading := True\<rparr>" fd])
          (use W2 True v(3) in \<open>auto simp: set_reading_def refs_def fb_new_connection_def empty_queue_def bounds_ok_def\<close>)
    qed (use v(3) ok in simp)
  qed
qed

section \<open>Events and polling\<close>

lemma buffering_after_keeps:
  assumes "world_ok W"
  shows "wp (case sockets W fd of
      Some (Connection_socket k) \<Rightarrow> do {
        c \<leftarrow> fb_connections W k;
        if fb_encrypted c then fb_set_buffering k (fb_state c \<le> OPEN \<and> reading c \<and> tls) W else Some W
      }
    | _ \<Rightarrow> Some W) world_ok"
  by (rule wpI) (use assms in \<open>auto split: option.splits thing.splits bind_splits if_splits dest: set_buffering_ok\<close>)

lemma process_event_keeps [world_ops]:
  assumes "world_ok W"
  shows "keeps (fb_process_event h fd act W)"
proof -
  have "wp (do {
      (e, W) \<leftarrow> fb_read_input w ev k W;
      W \<leftarrow> (case sockets W fd of
          Some (Connection_socket k) \<Rightarrow> do {
            c \<leftarrow> fb_connections W k;
            if fb_encrypted c then fb_set_buffering k (fb_state c \<le> OPEN \<and> reading c \<and> tls_pending h) W else Some W
          }
        | _ \<Rightarrow> Some W);
      Some (e, W)
    }) (\<lambda>r. world_ok (snd r))" for w ev k
    by (intro bind_keeps bind_world read_input_keeps assms buffering_after_keeps) simp_all
  then have "keeps (case (t, act) of
      (Service_socket s, ACTION_READING) \<Rightarrow> fb_new_connect ev s (arriving_at h) W
    | (Connection_socket k, ACTION_READING) \<Rightarrow> do {
        c \<leftarrow> fb_connections W k;
        (e, W) \<leftarrow> fb_read_input (web_at h) (ev\<lparr>ev_connection := Some k, ev_service := Some (fb_service c)\<rparr>) k W;
        W \<leftarrow> (case sockets W fd of
            Some (Connection_socket k) \<Rightarrow> do {
              c \<leftarrow> fb_connections W k;
              if fb_encrypted c then fb_set_buffering k (fb_state c \<le> OPEN \<and> reading c \<and> tls_pending h) W else Some W
            }
          | _ \<Rightarrow> Some W);
        Some (e, W)
      }
    | (Connection_socket k, ACTION_WRITING) \<Rightarrow> do {
        c \<leftarrow> fb_connections W k;
        fb_write_output (ev\<lparr>ev_connection := Some k, ev_service := Some (fb_service c)\<rparr>) k W
      }
    | (User_socket u, a) \<Rightarrow> Some (Some (ev\<lparr>ev_type := (case a of ACTION_READING \<Rightarrow> EVENT_READABLE
        | ACTION_WRITING \<Rightarrow> EVENT_WRITABLE | ACTION_FAULTING \<Rightarrow> EVENT_FAULTING)\<rparr>), W)
    | _ \<Rightarrow> None)" for t ev
    using assms by (cases t; cases act) (auto intro!: bind_lookup new_connect_keeps write_output_keeps)
  then show ?thesis unfolding fb_process_event_def Let_def
    by (intro wp_if wp_bind_any) simp_all
qed

lemma search_ready_keeps: "search_ready P W = Some r \<Longrightarrow> world_ok W \<longrightarrow> world_ok (snd (snd r))"
proof (erule search_ready.raw_induct [where P = "\<lambda>P W r. world_ok W \<longrightarrow> world_ok (snd (snd r))", rotated], goal_cases)
  case (1 loop po W r)
  have loop: "wp (loop P1 W1) (\<lambda>r. world_ok (snd (snd r)))" if "world_ok W1" for P1 W1
    by (rule wpI) (use 1(1) that in blast)
  show ?case
  proof
    assume ok: "world_ok W"
    show "world_ok (snd (snd r))"
      by (rule wpD [OF _ 1(2)])
        (intro wp_if bind_keeps wp_let loop process_event_keeps ok; (assumption | simp add: ok)?)
  qed
qed

lemma call_select_keeps: "call_select P W = Some r \<Longrightarrow> world_ok W \<longrightarrow> world_ok (snd (snd r))"
proof (erule call_select.raw_induct [where P = "\<lambda>P W r. world_ok W \<longrightarrow> world_ok (snd (snd r))", rotated], goal_cases)
  case (1 loop po W r)
  then show ?case by (auto simp: Let_def split: select_result.splits if_splits)
qed

lemma refill_keeps: "refill_events P W = Some (a, P', W') \<Longrightarrow> world_ok W \<Longrightarrow> world_ok W'"
  by (auto simp: refill_events_def add_buffered_def Let_def split: if_splits bind_splits prod.splits dest!: call_select_keeps)

section \<open>Messages to one or all\<close>

lemma queue_single_with:
  assumes ok: "world_with (add_mset a R) W" and run: "with_connection k (fb_queue_single a) W = Some (n, W')"
  shows "world_with R W'"
proof -
  from run obtain c st c' where c: "fb_connections W k = Some c" "fb_queue_single a (blocks W) c = Some (n, st, c')"
      "W' = put_connection k c' (W\<lparr>blocks := st\<rparr>)"
    by (auto simp: with_connection_def split: bind_splits)
  have "store_ok (blocks W) (add_mset a (R + others k W + refs c))"
    using ok all_refs_split [of W k c] c(1) by (simp add: world_with_def heap_ok_def add.assoc)
  from queue_single_counted(3) [OF c(2) this] show ?thesis unfolding c(3)
    using put_connection_with [OF ok c(1), of c' st R] queue_single_counted(1,2) [OF c(2)] by (simp add: add.assoc)
qed

lemma world_with_blocks:
  assumes "world_with R W" and "store_ok st (R' + all_refs W)"
  shows "world_with R' (W\<lparr>blocks := st\<rparr>)"
proof -
  have "all_refs (W\<lparr>blocks := st\<rparr>) = all_refs W" by (rule all_refs_frame) simp
  then show ?thesis using assms by (simp add: world_with_def heap_ok_def lists_ok_def registry_ok_def)
qed

lemma broadcast_to_with: "world_with {#a#} W \<Longrightarrow> broadcast_to ks a W = Some W' \<Longrightarrow> world_with {#a#} W'"
proof (induction ks arbitrary: W)
  case (Cons k ks)
  obtain c :: fb_connection and W1 where 1: "(if fb_state c \<noteq> CLOSING \<and> fb_filename c = None
      then map_option snd (with_connection k (fb_queue_single a) (W\<lparr>blocks := use_message a (blocks W)\<rparr>))
      else Some W) = Some W1" "broadcast_to ks a W1 = Some W'"
    using Cons.prems(2) by (auto split: bind_splits)
  have "store_ok (use_message a (blocks W)) (add_mset a {#a#} + all_refs W)"
    using use_ok [of "blocks W" "{#a#} + all_refs W" a] Cons.prems(1) by (simp add: world_with_def)
  from world_with_blocks [OF Cons.prems(1) this] have "world_with {#a#} W1"
    using 1(1) Cons.prems(1) by (auto split: if_splits dest: queue_single_with)
  with 1(2) show ?case by (rule Cons.IH [rotated])
qed simp

lemma free_message_with: "world_with {#a#} W \<Longrightarrow> free_message a W = Some W' \<Longrightarrow> world_ok W'"
  by (auto simp: free_message_def world_with_none [symmetric] world_with_def dest: free_counts
      intro: world_with_blocks [unfolded world_with_def, rule_format])
    (auto simp: world_with_def heap_ok_def lists_ok_def registry_ok_def all_refs_def refs_at_def dest!: free_counts)

lemma queue_broadcast_with: "world_with {#a#} W \<Longrightarrow> fb_queue_broadcast s a W = Some (n, W') \<Longrightarrow> world_ok W'"
  by (auto simp: fb_queue_broadcast_def Let_def split: if_splits bind_splits dest: broadcast_to_with free_message_with)

lemma queue_message_with: "world_with {#a#} W \<Longrightarrow> fb_queue_message thing a all W = Some (n, W') \<Longrightarrow> world_ok W'"
  by (auto simp: fb_queue_message_def world_with_none split: receiver.splits if_splits bind_splits
      dest: queue_broadcast_with queue_single_with [where R = "{#}"])

lemma created_with:
  assumes "world_ok W" and "fb_create_message text (blocks W) = (a, st)"
  shows "world_with {#a#} (W\<lparr>blocks := st\<rparr>)"
proof (rule world_with_blocks)
  show "world_with {#} W" using assms(1) by (simp add: world_with_none)
  show "store_ok st ({#a#} + all_refs W)"
    using create_ok(1) [OF _ assms(2)] assms(1) by (simp add: world_ok_def counts_ok_def)
qed

lemma printf_keeps [world_ops]:
  "world_ok W \<Longrightarrow> keeps (fb_fprintf thing text W)" "world_ok W \<Longrightarrow> keeps (fb_bfprintf thing text W)"
  by (auto simp: fb_fprintf_def fb_bfprintf_def wp_def split: prod.splits dest: created_with queue_message_with)

section \<open>Services\<close>

text \<open>Changes of services that leave their connections and sockets alone.\<close>

definition same_services :: "football \<Rightarrow> football \<Rightarrow> bool" where
  "same_services W W' \<longleftrightarrow> fb_connections W' = fb_connections W \<and> sockets W' = sockets W \<and> blocks W' = blocks W
    \<and> next_address W' = next_address W \<and> maxsockets W' = maxsockets W \<and> activesockets W' = activesockets W
    \<and> (\<forall>s. map_option (\<lambda>v. (sv_connections v, sv_socket v)) (fb_services W' s)
        = map_option (\<lambda>v. (sv_connections v, sv_socket v)) (fb_services W s))"

lemma same_services_refl [simp]: "same_services W W"
  by (simp add: same_services_def)

lemma same_services_trans [trans]: "same_services W W' \<Longrightarrow> same_services W' W'' \<Longrightarrow> same_services W W''"
  by (simp add: same_services_def)

lemma put_same_services:
  "fb_services W s = Some v \<Longrightarrow> sv_connections v' = sv_connections v \<Longrightarrow> sv_socket v' = sv_socket v \<Longrightarrow>
    same_services W (put_service s v' W)"
  by (simp add: same_services_def)

lemma same_services_some:
  assumes "same_services W W'"
  shows "(\<exists>v. fb_services W' s = Some v \<and> P (sv_connections v) (sv_socket v)) \<longleftrightarrow> (\<exists>v. fb_services W s = Some v \<and> P (sv_connections v) (sv_socket v))"
proof -
  have "map_option (\<lambda>v. (sv_connections v, sv_socket v)) (fb_services W' s)
      = map_option (\<lambda>v. (sv_connections v, sv_socket v)) (fb_services W s)"
    using assms by (simp add: same_services_def)
  then show ?thesis by (cases "fb_services W' s"; cases "fb_services W s") auto
qed

lemma link_child_keeps [world_ops]: "world_ok W \<Longrightarrow> wp (link_child s p W) world_ok"
proof (rule wpI)
  fix W'
  assume ok: "world_ok W" and run: "link_child s p W = Some W'"
  show "world_ok W'"
  proof (cases p)
    case (Some q)
    obtain pv v where 1: "fb_services W q = Some pv" "fb_services W s = Some v"
        "W' = put_service q (pv\<lparr>sv_next_child := Some s\<rparr>) (put_service s (v\<lparr>sv_next_child := sv_next_child pv\<rparr>) W)"
      using run Some by (auto simp: link_child_def split: bind_splits)
    have "world_ok (put_service s (v\<lparr>sv_next_child := sv_next_child pv\<rparr>) W)"
      by (rule put_service_ok [OF ok 1(2)]) simp_all
    then show ?thesis unfolding 1(3)
      using 1(1,2) by (cases "q = s") (auto elim!: put_service_ok)
  qed (use run ok in \<open>simp add: link_child_def\<close>)
qed

lemma close_all_services: "close_all ks W = Some W' \<Longrightarrow> fb_services W' = fb_services W"
  by (induction ks arbitrary: W) (auto simp: fb_close_conn_def split: bind_splits if_splits)

lemma shut_service_keeps [world_ops]: "world_ok W \<Longrightarrow> wp (fb_shut_service s W) world_ok"
proof (rule wpI)
  fix W'
  assume ok: "world_ok W" and run: "fb_shut_service s W = Some W'"
  obtain v W1 where 1: "fb_services W s = Some v"
      "close_all (sv_connections v) (put_service s (v\<lparr>sv_state := CLOSING\<rparr>) W) = Some W1"
      "W' = (let W = put_service s (v\<lparr>sv_state := CLOSING, sv_listening := sv_listening v - set (open_sockets v)\<rparr>) W1
        in if sv_connections v = [] then fb_schedule_reap s W else W)"
    using run by (auto simp: fb_shut_service_def Let_def split: bind_splits if_splits)
  have "world_ok (put_service s (v\<lparr>sv_state := CLOSING\<rparr>) W)" by (rule put_service_ok [OF ok 1(1)]) simp_all
  then have "world_ok W1" using 1(2) by (rule close_all_ok)
  moreover have "fb_services W1 s = Some (v\<lparr>sv_state := CLOSING\<rparr>)" using close_all_services [OF 1(2)] by simp
  ultimately show "world_ok W'" unfolding 1(3) Let_def by (auto elim: put_service_ok)
qed

lemma unregister_all_fields:
  assumes "unregister_all fds W = Some W'" and "bounds_ok W"
  shows "sockets W' = (\<lambda>fd. if fd \<in> set fds then None else sockets W fd) \<and> fb_connections W' = fb_connections W
    \<and> fb_services W' = fb_services W \<and> blocks W' = blocks W \<and> next_address W' = next_address W \<and> bounds_ok W'"
  using assms
proof (induction fds arbitrary: W)
  case (Cons fd fds)
  then obtain W1 where 1: "fb_unregister fd W = Some W1" "unregister_all fds W1 = Some W'"
    by (auto split: bind_splits)
  note W1 = unregister_ok [OF 1(1) Cons.prems(2)]
  show ?case using Cons.IH [OF 1(2) W1(6)] W1(1-5) by auto
qed auto

lemma orphan_same: "orphan p W = Some W' \<Longrightarrow> same_services W W'"
proof (erule orphan.raw_induct [where P = "\<lambda>p W W'. same_services W W'", rotated], goal_cases)
  case (1 loop p W W')
  show ?case
  proof (cases p)
    case (Some s)
    then obtain v where v: "fb_services W s = Some v"
        "loop (sv_next_child v) (put_service s (v\<lparr>sv_options := (sv_options v)\<lparr>opt_parent := None\<rparr>, sv_next_child := None\<rparr>) W) = Some W'"
      using 1(2) by (auto split: bind_splits)
    have "same_services W (put_service s (v\<lparr>sv_options := (sv_options v)\<lparr>opt_parent := None\<rparr>, sv_next_child := None\<rparr>) W)"
      by (rule put_same_services [OF v(1)]) simp_all
    then show ?thesis using 1(1) [OF v(2)] by (rule same_services_trans)
  qed (use 1(2) in simp)
qed

lemma open_sockets_iff: "fd \<in> set (open_sockets v) \<longleftrightarrow> fd \<noteq> 0 \<and> (\<exists>i. sv_socket v i = fd)"
proof -
  have "i \<in> set socket_ids" for i by (cases i) (simp_all add: socket_ids_def)
  then show ?thesis by (auto simp: open_sockets_def)
qed

lemma destroy_service_keeps [world_ops]: "world_ok W \<Longrightarrow> wp (fb_destroy_service s W) world_ok"
proof (rule wpI)
  fix W'
  assume ok: "world_ok W" and run: "fb_destroy_service s W = Some W'"
  obtain v W1 W2 where 1: "fb_services W s = Some v" "sv_connections v = []" "unregister_all (open_sockets v) W = Some W1"
      "(case opt_parent (sv_options v) of
          Some p \<Rightarrow> do {
            q \<leftarrow> previous_child W1 s p;
            node \<leftarrow> fb_services W1 q;
            Some (put_service q (node\<lparr>sv_next_child := sv_next_child v\<rparr>) W1)
          }
        | None \<Rightarrow> orphan (sv_next_child v) W1) = Some W2"
      "W' = W2\<lparr>fb_services := (fb_services W2)(s := None), open_services := open_services W2 - 1\<rparr>"
    using run by (auto simp: fb_destroy_service_def split: bind_splits if_splits)
  note W1 = unregister_all_fields [OF 1(3) world_ok_bounds [OF ok]]
  have same: "same_services W1 W2"
    using 1(4) by (auto split: option.splits bind_splits dest: orphan_same intro: put_same_services)
  have svc: "(\<exists>u. fb_services W' j = Some u \<and> P (sv_connections u) (sv_socket u)) \<longleftrightarrow>
      j \<noteq> s \<and> (\<exists>u. fb_services W j = Some u \<and> P (sv_connections u) (sv_socket u))" for j P
    using same_services_some [OF same, of j P] W1 by (simp add: 1(5))
  have fields: "fb_connections W' = fb_connections W" "blocks W' = blocks W" "next_address W' = next_address W"
      "sockets W' = (\<lambda>fd. if fd \<in> set (open_sockets v) then None else sockets W fd)" "bounds_ok W'"
    using W1 same by (simp_all add: 1(5) same_services_def bounds_ok_def)
  have "all_refs W' = all_refs W" by (rule all_refs_frame) (rule fields)
  then have "counts_ok W'" using ok by (simp add: world_ok_def counts_ok_def fields)
  moreover have "heap_ok W'"
    using ok svc [of _ "\<lambda>_ _. True"] unfolding world_ok_def heap_ok_def fields by (auto simp: dom_def)
  moreover have "lists_ok W'"
  proof -
    have "distinct (sv_connections x) \<and> (\<forall>k. k \<in> set (sv_connections x) \<longleftrightarrow> (\<exists>c. fb_connections W k = Some c \<and> fb_service c = j))"
      if x: "fb_services W' j = Some x" for j x
    proof -
      obtain u where "fb_services W j = Some u" "sv_connections u = sv_connections x"
        using svc [of j "\<lambda>ks _. ks = sv_connections x"] x by auto
      then show ?thesis using ok by (metis lists_ok_def world_ok_def)
    qed
    moreover have "fb_services W' (fb_service c) \<noteq> None" if c: "fb_connections W k = Some c" for k c
    proof -
      have "fb_service c \<noteq> s" using connection_listed [OF ok c] 1(1,2) by auto
      then show ?thesis using svc [of "fb_service c" "\<lambda>_ _. True"] connection_listed [OF ok c] by auto
    qed
    ultimately show ?thesis unfolding lists_ok_def fields by blast
  qed
  moreover have "registry_ok W'"
  proof -
    have mine: "sockets W fd = Some (Service_socket s)" "0 < fd" if "fd \<in> set (open_sockets v)" for fd
      using ok 1(1) that by (auto simp: world_ok_def registry_ok_def open_sockets_iff)
    have "sockets W' fd = Some (Connection_socket k) \<longleftrightarrow> (\<exists>c. fb_connections W' k = Some c \<and> fb_socket c = fd)" for fd k
    proof -
      have "sockets W fd = Some (Connection_socket k) \<longleftrightarrow> (\<exists>c. fb_connections W k = Some c \<and> fb_socket c = fd)"
        using ok by (simp add: world_ok_def registry_ok_def)
      then show ?thesis using mine [of fd] by (auto simp: fields)
    qed
    moreover have "sockets W' fd = Some (Service_socket j) \<longleftrightarrow> (\<exists>u i. fb_services W' j = Some u \<and> sv_socket u i = fd)" if "0 < fd" for fd j
    proof -
      have reg: "sockets W fd = Some (Service_socket j) \<longleftrightarrow> (\<exists>u i. fb_services W j = Some u \<and> sv_socket u i = fd)" for j
        using ok that by (simp add: world_ok_def registry_ok_def)
      have "fd \<in> set (open_sockets v) \<longleftrightarrow> (\<exists>i. sv_socket v i = fd)"
        using that by (auto simp: open_sockets_iff)
      then have "fd \<in> set (open_sockets v) \<longleftrightarrow> sockets W fd = Some (Service_socket s)"
        using reg [of s] 1(1) by auto
      then show ?thesis using reg [of j] svc [of j "\<lambda>_ so. \<exists>i. so i = fd"]
        by (cases "fd \<in> set (open_sockets v)") (auto simp: fields)
    qed
    ultimately show ?thesis using fields(5) by (simp add: registry_ok_def bounds_ok_def)
  qed
  ultimately show "world_ok W'" by (simp add: world_ok_def)
qed

text \<open>A service that is being set up: the sockets that are still to come are closed.\<close>

definition setting_up :: "nat \<Rightarrow> socketid list \<Rightarrow> football \<Rightarrow> bool" where
  "setting_up s is W \<longleftrightarrow> world_ok W \<and> (\<exists>v. fb_services W s = Some v \<and> (\<forall>i \<in> set is. sv_socket v i = 0))"

lemma setup_socket_keeps:
  assumes up: "setting_up s (i # is) W" and "i \<notin> set is" and run: "fb_setup_socket s results i W = Some (ok, W')"
  shows "setting_up s is W'" "\<not> ok \<Longrightarrow> W' = W"
proof -
  from up obtain v where v: "world_ok W" "fb_services W s = Some v" "sv_socket v i = 0" "\<forall>j \<in> set is. sv_socket v j = 0"
    by (auto simp: setting_up_def)
  show "\<not> ok \<Longrightarrow> W' = W"
    using run v(2) by (auto simp: fb_setup_socket_def split: if_splits option.splits bind_splits prod.splits)
  show "setting_up s is W'"
  proof (cases ok)
    case False
    then have "W' = W"
      using run v(2) by (auto simp: fb_setup_socket_def split: if_splits option.splits bind_splits prod.splits)
    then show ?thesis using v by (auto simp: setting_up_def)
  next
    case True
    let ?v = "\<lambda>fd. v\<lparr>sv_socket := (sv_socket v)(i := fd)\<rparr>"
    obtain fd where reg: "fb_register fd (Service_socket s) (put_service s (?v fd) W) = Some (True, W')"
      using run v(2) True by (auto simp: fb_setup_socket_def split: if_splits option.splits bind_splits prod.splits)
    have "bounds_ok (put_service s (?v fd) W)" using world_ok_bounds [OF v(1)] by (simp add: bounds_ok_def)
    note W' = register_fields(2) [OF reg this TrueI]
    then have svc: "fb_services W' = (fb_services W)(s \<mapsto> (?v fd)\<lparr>sv_listening := insert fd (sv_listening v)\<rparr>)"
        and conns: "fb_connections W' = fb_connections W"
      by (auto simp: set_reading_def)
    have "all_refs W' = all_refs W" by (rule all_refs_frame) (rule conns)
    then have "counts_ok W'" using v(1) W' by (simp add: world_ok_def counts_ok_def)
    moreover have "heap_ok W'" using v(1,2) W' by (auto simp: world_ok_def heap_ok_def svc conns)
    moreover have "lists_ok W'" using v(1,2) by (auto simp: world_ok_def lists_ok_def svc conns)
    moreover have "registry_ok W'"
    proof -
      have "sockets W' x = Some (Connection_socket k) \<longleftrightarrow> (\<exists>c. fb_connections W' k = Some c \<and> fb_socket c = x)" for x k
      proof -
        have "sockets W x = Some (Connection_socket k) \<longleftrightarrow> (\<exists>c. fb_connections W k = Some c \<and> fb_socket c = x)"
          using v(1) by (simp add: world_ok_def registry_ok_def)
        then show ?thesis using W' by (auto simp: conns)
      qed
      moreover have "sockets W' x = Some (Service_socket j) \<longleftrightarrow> (\<exists>u i. fb_services W' j = Some u \<and> sv_socket u i = x)" if "0 < x" for x j
      proof -
        have "sockets W x = Some (Service_socket j) \<longleftrightarrow> (\<exists>u i. fb_services W j = Some u \<and> sv_socket u i = x)" for j
          using v(1) that by (simp add: world_ok_def registry_ok_def)
        moreover have "(\<exists>k. ((sv_socket v)(i := fd)) k = x) \<longleftrightarrow> x = fd \<or> (\<exists>k. sv_socket v k = x)"
          using v(3) that by (auto; metis less_irrefl)
        ultimately show ?thesis using W' v(2) by (cases "x = fd"; cases "j = s") (auto simp: svc)
      qed
      ultimately show ?thesis using W' by (simp add: registry_ok_def bounds_ok_def)
    qed
    ultimately have "world_ok W'" by (simp add: world_ok_def)
    then show ?thesis using v(4) assms(2) by (auto simp: setting_up_def svc)
  qed
qed

lemma setup_sockets_keeps:
  "setting_up s is W \<Longrightarrow> distinct is \<Longrightarrow> setup_sockets s results is W = Some (n, W') \<Longrightarrow>
    world_ok W' \<and> (n = 0 \<longrightarrow> W' = W)"
proof (induction "is" arbitrary: W n)
  case (Cons i "is")
  obtain ok W1 m where 1: "fb_setup_socket s results i W = Some (ok, W1)" "setup_sockets s results is W1 = Some (m, W')"
      "n = (if ok then 1 else 0) + m"
    using Cons.prems(3) by (auto split: bind_splits)
  show ?case
    using Cons.IH [OF setup_socket_keeps(1) [OF Cons.prems(1) _ 1(1)] _ 1(2)] setup_socket_keeps(2) [OF Cons.prems(1) _ 1(1)]
      Cons.prems(2) 1(3) by auto
qed (auto simp: setting_up_def)

lemma new_service_ok:
  assumes "world_ok W" and "sv_connections v = []" and "sv_socket v = (\<lambda>_. 0)"
  shows "world_ok (put_service (next_address W) v (W\<lparr>next_address := next_address W + 1\<rparr>))"
proof -
  let ?W = "put_service (next_address W) v (W\<lparr>next_address := next_address W + 1\<rparr>)"
  have new: "fb_services W (next_address W) = None"
    using assms(1) unfolding world_ok_def heap_ok_def by (meson domIff less_irrefl)
  have "all_refs ?W = all_refs W" by (rule all_refs_frame) simp
  moreover have "fb_service c \<noteq> next_address W" if "fb_connections W k = Some c" for k c
    using connection_listed [OF assms(1) that] new by auto
  moreover have "sockets W fd \<noteq> Some (Service_socket (next_address W))" if "0 < fd" for fd
    using assms(1) that new by (auto simp: world_ok_def registry_ok_def)
  ultimately show ?thesis
    using assms by (auto simp: world_ok_def heap_ok_def lists_ok_def registry_ok_def counts_ok_def less_Suc_eq)
qed

lemma fresh_address_ok: "world_ok W \<Longrightarrow> world_ok (W\<lparr>next_address := next_address W + 1\<rparr>)"
proof -
  assume ok: "world_ok W"
  have "all_refs (W\<lparr>next_address := next_address W + 1\<rparr>) = all_refs W" by (rule all_refs_frame) simp
  then show ?thesis
    using ok by (auto simp: world_ok_def heap_ok_def lists_ok_def registry_ok_def counts_ok_def less_Suc_eq)
qed

lemma create_service_keeps [world_ops]: "world_ok W \<Longrightarrow> keeps (fb_create_service options greeting results W)"
proof (rule keepsI)
  fix r W'
  assume ok: "world_ok W" and run: "fb_create_service options greeting results W = Some (r, W')"
  let ?s = "next_address W"
  let ?v = "\<lambda>kept. \<lparr>sv_state = TLS_HANDSHAKE, sv_options = kept, sv_socket = (\<lambda>_. 0), sv_listening = {}, sv_connections = [],
    sv_shutdown_done = False, sv_next_child = None\<rparr>"
  obtain kept n W1 where
    prep: "setup_sockets ?s results socket_ids (put_service ?s (?v kept) (W\<lparr>next_address := ?s + 1\<rparr>)) = Some (n, W1)"
      and rest: "(if 0 < n \<or> transfer_only options then do {
         v \<leftarrow> fb_services W1 ?s;
         W' \<leftarrow> link_child ?s (opt_parent options) (put_service ?s (v\<lparr>sv_state := OPEN\<rparr>)
           (W1\<lparr>open_services := open_services W1 + 1\<rparr>));
         Some (Some ?s, W')
       } else Some (None, W1\<lparr>fb_services := (fb_services W1)(?s := None)\<rparr>)) = Some (r, W')"
    using run unfolding fb_create_service_def Let_def by (auto simp del: setup_sockets.simps split: if_split_asm bind_split_asm)
  define v where "v = ?v kept"
  have v: "sv_connections v = []" "sv_socket v = (\<lambda>_. 0)" by (simp_all add: v_def)
  note prep = prep [folded v_def]
  note W0 = new_service_ok [OF ok v]
  have "setting_up ?s socket_ids (put_service ?s v (W\<lparr>next_address := ?s + 1\<rparr>))"
    using W0 v(2) by (simp add: setting_up_def)
  from setup_sockets_keeps [OF this _ prep] have W1: "world_ok W1" "n = 0 \<longrightarrow> W1 = put_service ?s v (W\<lparr>next_address := ?s + 1\<rparr>)"
    by (simp_all add: socket_ids_def)
  show "world_ok W'"
  proof (cases "0 < n \<or> transfer_only options")
    case True
    then obtain u where u: "fb_services W1 ?s = Some u"
        "link_child ?s (opt_parent options) (put_service ?s (u\<lparr>sv_state := OPEN\<rparr>) (W1\<lparr>open_services := open_services W1 + 1\<rparr>)) = Some W'"
      using rest by (auto split: bind_splits)
    have "world_ok (W1\<lparr>open_services := open_services W1 + 1\<rparr>)" using W1(1) by simp
    then have "world_ok (put_service ?s (u\<lparr>sv_state := OPEN\<rparr>) (W1\<lparr>open_services := open_services W1 + 1\<rparr>))"
      by (rule put_service_ok) (simp_all add: u(1))
    from wpD [OF link_child_keeps [OF this] u(2)] show ?thesis .
  next
    case False
    have "fb_services W ?s = None"
      using ok unfolding world_ok_def heap_ok_def by (meson domIff less_irrefl)
    then have "(fb_services W)(?s := None) = fb_services W" by auto
    then have "W' = W\<lparr>next_address := ?s + 1\<rparr>"
      using rest False W1(2) by (simp add: put_service_def)
    then show ?thesis using fresh_address_ok [OF ok] by simp
  qed
qed

section \<open>Polling\<close>

lemma reap_notified_keeps: "world_ok W \<Longrightarrow> wp (reap_notified ss W) world_ok"
proof (induction ss arbitrary: W)
  case (Cons s ss)
  show ?case unfolding reap_notified.simps
    by (intro world_rules destroy_service_keeps Cons.IH; (assumption | simp add: Cons.prems)?)
qed simp

lemma reap_services_keeps [world_ops]: "world_ok W \<Longrightarrow> keeps (reap_services W)"
proof -
  assume ok: "world_ok W"
  have "keeps (case reapq W1 of
      s # _ \<Rightarrow> do {
        v \<leftarrow> fb_services W1 s;
        Some (Some ((blank_event EVENT_STOPPED)\<lparr>ev_service := Some s\<rparr>), put_service s (v\<lparr>sv_shutdown_done := True\<rparr>) W1)
      }
    | [] \<Rightarrow> Some (if activesockets W1 = 0 then Some (blank_event EVENT_STOPPED) else None, W1))" if "world_ok W1" for W1
    using that by (cases "reapq W1") (auto intro!: bind_lookup put_service_ok)
  then show ?thesis unfolding reap_services_def
    by (intro wp_if bind_world reap_notified_keeps ok) (simp_all add: ok)
qed

lemma poll_for_keeps: "fb_poll_for po W = Some r \<Longrightarrow> world_ok W \<longrightarrow> world_ok (snd (snd r))"
proof (erule fb_poll_for.raw_induct [where P = "\<lambda>po W r. world_ok W \<longrightarrow> world_ok (snd (snd r))", rotated], goal_cases)
  case (1 loop po W r)
  have loop: "wp (loop po1 W1) (\<lambda>r. world_ok (snd (snd r)))" if "world_ok W1" for po1 W1
    by (rule wpI) (use 1(1) that in blast)
  have "wp (case r of
        Select_error \<Rightarrow> Some (None, po1, W1)
      | No_events \<Rightarrow> Some (Some (blank_event EVENT_TIMEOUT), po1, W1)
      | Ready_to_search \<Rightarrow> do {
          (e, po, W) \<leftarrow> search_ready po1 W1;
          if e \<noteq> None then Some (e, po, W) else loop po W
        }) (\<lambda>r. world_ok (snd (snd r)))" if "world_ok W1" for r po1 W1
  proof (cases r)
    case Ready_to_search
    have "wp (search_ready po1 W1) (\<lambda>r. world_ok (snd (snd r)))" by (rule wpI) (use search_ready_keeps that in blast)
    then show ?thesis unfolding Ready_to_search refill.case by (rule wp_bind) (auto intro!: wp_if loop)
  qed (use that in simp_all)
  then have search: "wp (do {
      (r, po, W) \<leftarrow> refill_events po W1;
      (case r of
          Select_error \<Rightarrow> Some (None, po, W)
        | No_events \<Rightarrow> Some (Some (blank_event EVENT_TIMEOUT), po, W)
        | Ready_to_search \<Rightarrow> do {
            (e, po, W) \<leftarrow> search_ready po W;
            if e \<noteq> None then Some (e, po, W) else loop po W
          })
    }) (\<lambda>r. world_ok (snd (snd r)))" if "world_ok W1" for W1
    by (intro wp_bind_any) (use that in \<open>auto split: prod.splits dest: refill_keeps\<close>)
  show ?case
  proof
    assume ok: "world_ok W"
    show "world_ok (snd (snd r))"
      by (rule wpD [OF _ 1(2)])
        (intro wp_if bind_keeps reap_services_keeps search ok; (assumption | simp add: ok)?)
  qed
qed

section \<open>Reachable states\<close>

text \<open>What the program and the network may do, in any order.\<close>

inductive fb_reachable :: "football \<Rightarrow> bool" where
  start: "fb_reachable no_football"
| create: "fb_reachable W \<Longrightarrow> fb_create_service options greeting results W = Some (r, W') \<Longrightarrow> fb_reachable W'"
| execute_file: "fb_reachable W \<Longrightarrow> fb_accept_file s file opened W = Some (e, W') \<Longrightarrow> fb_reachable W'"
| poll: "fb_reachable W \<Longrightarrow> fb_poll_for po W = Some (e, po', W') \<Longrightarrow> fb_reachable W'"
| event: "fb_reachable W \<Longrightarrow> fb_process_event h fd act W = Some (e, W') \<Longrightarrow> fb_reachable W'"
| printf: "fb_reachable W \<Longrightarrow> fb_fprintf thing text W = Some (n, W') \<Longrightarrow> fb_reachable W'"
| broadcast: "fb_reachable W \<Longrightarrow> fb_bfprintf thing text W = Some (n, W') \<Longrightarrow> fb_reachable W'"
| accept_input: "fb_reachable W \<Longrightarrow> fb_accept_input_on k inp tls W = Some W' \<Longrightarrow> fb_reachable W'"
| transfer: "fb_reachable W \<Longrightarrow> fb_transfer k s W = Some W' \<Longrightarrow> fb_reachable W'"
| close_connection: "fb_reachable W \<Longrightarrow> fb_close_conn k W = Some W' \<Longrightarrow> fb_reachable W'"
| close_service: "fb_reachable W \<Longrightarrow> fb_shut_service s W = Some W' \<Longrightarrow> fb_reachable W'"

lemma reachable_ok: "fb_reachable W \<Longrightarrow> world_ok W"
proof (induction rule: fb_reachable.induct)
  case start
  show ?case by (rule no_football_ok)
next
  case (create W options greeting results r W')
  from wpD [OF create_service_keeps [OF create.IH] create.hyps(2)] show ?case by simp
next
  case (execute_file W s f opened e W')
  from wpD [OF accept_file_keeps [OF execute_file.IH] execute_file.hyps(2)] show ?case by simp
next
  case (poll W po e po' W')
  from poll_for_keeps [OF poll.hyps(2)] poll.IH show ?case by simp
next
  case (event W h fd act e W')
  from wpD [OF process_event_keeps [OF event.IH] event.hyps(2)] show ?case by simp
next
  case (printf W dest msg n W')
  from wpD [OF printf_keeps(1) [OF printf.IH] printf.hyps(2)] show ?case by simp
next
  case (broadcast W dest msg n W')
  from wpD [OF printf_keeps(2) [OF broadcast.IH] broadcast.hyps(2)] show ?case by simp
next
  case (accept_input W k inp tls W')
  show ?case by (rule accept_input_ok [OF accept_input.IH accept_input.hyps(2)])
next
  case (transfer W k s W')
  show ?case by (rule transfer_ok [OF transfer.IH transfer.hyps(2)])
next
  case (close_connection W k W')
  show ?case by (rule close_conn_ok [OF close_connection.IH close_connection.hyps(2)])
next
  case (close_service W s W')
  from wpD [OF shut_service_keeps [OF close_service.IH] close_service.hyps(2)] show ?case .
qed

end
