(* ===== verification/FbBroadcast.thy ===== *)
theory FbBroadcast
  imports FbReachable
begin

text \<open>
  Broadcasts: one block of text is put into the queues of all connections of a service, and each gets it in its own way: a
  line connection the text, a websocket the packets of the lines it completes, a connection that is not open nothing.
\<close>

section \<open>One connection\<close>

definition conn_fine :: "fb_store \<Rightarrow> fb_connection \<Rightarrow> bool" where
  "conn_fine st c \<longleftrightarrow> queue_wf st (fb_out c) \<and> queue_wf st (fb_assembly c) \<and> Send_error \<notin> sset (sends c)
    \<and> 10 \<notin> set (pending st (fb_assembly c))"

text \<open>What a connection's stream gains by a text.\<close>

definition gains :: "fb_store \<Rightarrow> fb_connection \<Rightarrow> bytes \<Rightarrow> bytes" where
  "gains st c text = (if unsendable c then []
     else if fb_http c then packets (fst (cut_lines (pending st (fb_assembly c) @ text)))
     else text)"

lemma flushed_delivers:
  assumes "flushed R st c st' c'" and "Send_error \<notin> sset (sends c)"
  shows "delivered st c st' c'"
  using assms by (auto simp: flushed_def broken_def)

lemma single_delivers:
  assumes ok: "store_ok st (add_mset a (R + refs c))" and t: "msg_text st a = t" "t \<noteq> []" "0 \<notin> set t" and fine: "conn_fine st c"
  shows "\<exists>st' c'. fb_queue_single a st c = Some (int (length t), st', c') \<and> store_ok st' (R + refs c') \<and> agree R st st'
    \<and> stream st' c' = stream st c @ gains st c t"
proof (cases "unsendable c")
  case True
  obtain st' where st': "fb_messagefree a st = Some st'" "store_ok st' (R + refs c)" "agree (R + refs c) st st'"
    using free_ok [OF ok] by blast
  have "pending st' (fb_out c) = pending st (fb_out c)" by (rule agree_pending [OF st'(3)]) (simp add: refs_def)
  with True st' t show ?thesis
    by (auto simp: fb_queue_single_def gains_def stream_def intro: agree_mono)
next
  case False
  show ?thesis
  proof (cases "fb_http c")
    case line: False
    let ?c = "c\<lparr>fb_out := fb_queue_add (fb_out c) a\<rparr>"
    have "store_ok st (R + mset (queued (fb_assembly ?c)) + mset (queued (fb_out ?c)))" "queue_wf st (fb_out ?c)"
      using ok add_pending(2) [of st "fb_out c" a] fine t by (simp_all add: refs_def fb_queue_add_def conn_fine_def ac_simps)
    from send_output_flushes [OF this] obtain st' c' where
      send: "fb_send_output False st ?c = Some (Quiet, st', c')" "flushed (R + mset (queued (fb_assembly ?c))) st ?c st' c'" by blast
    have d: "delivered st ?c st' c'" using flushed_delivers [OF send(2)] fine by (simp add: conn_fine_def)
    have "pending st (fb_out ?c) = pending st (fb_out c) @ t"
      using add_pending(1) [of st "fb_out c" a] fine t by (simp add: conn_fine_def)
    then have "stream st' c' = stream st c @ t" using d by (simp add: delivered_def stream_def)
    moreover have "store_ok st' (R + refs c')"
      using send(2) d by (simp add: flushed_def delivered_def same_but_output_iff refs_def add.assoc)
    moreover have "agree R st st'" using send(2) by (auto simp: flushed_def intro: agree_mono)
    moreover have "fb_queue_single a st c = Some (int (length t), st', c')"
      using False line t send(1) by (simp add: fb_queue_single_def)
    ultimately show ?thesis using False line by (auto simp: gains_def)
  next
    case True
    let ?c = "c\<lparr>fb_assembly := fb_queue_add (fb_assembly c) a\<rparr>" and ?rest = "pending st (fb_assembly c)"
    have add: "queue_wf st (fb_assembly ?c)" "pending st (fb_assembly ?c) = ?rest @ t"
      using add_pending [of st "fb_assembly c" a] fine t by (simp_all add: conn_fine_def)
    have tail: "tail_text st (fb_assembly ?c) = t"
      using fine t by (cases "queued (fb_assembly c)") (simp_all add: conn_fine_def tail_text_def fb_queue_add_def queue_wf_def)
    have pre: "store_ok st (R + refs ?c)" "queue_wf st (fb_out ?c)" "queued (fb_assembly ?c) \<noteq> []" "reliable ?c"
      using ok fine by (simp_all add: refs_def fb_queue_add_def conn_fine_def reliable_def ac_simps)
    have "pending st (fb_assembly ?c) = ?rest @ tail_text st (fb_assembly ?c)" "10 \<notin> set ?rest"
        "0 \<notin> set (tail_text st (fb_assembly ?c))"
      using add(2) tail t(3) fine by (simp_all add: conn_fine_def)
    from encode_lines [OF pre(1,2) add(1) pre(3,4) this] obtain st1 c1 where
      enc: "fb_websocket_encode st ?c = Some (st1, c1)" "store_ok st1 (R + refs c1)" "agree R st st1"
        "queue_wf st1 (fb_out c1)" "reliable c1"
        "stream st1 c1 = stream st ?c @ packets (fst (cut_lines (?rest @ t)))"
      unfolding add(2) by blast
    have "store_ok st1 (R + mset (queued (fb_assembly c1)) + mset (queued (fb_out c1)))"
      using enc(2) by (simp add: refs_def add.assoc)
    from send_output_flushes [OF this enc(4)] obtain st' c' where
      send: "fb_send_output False st1 c1 = Some (Quiet, st', c')" "flushed (R + mset (queued (fb_assembly c1))) st1 c1 st' c'" by blast
    have d: "delivered st1 c1 st' c'" using flushed_delivers [OF send(2)] enc(5) by (simp add: reliable_def)
    have "stream st' c' = stream st c @ packets (fst (cut_lines (?rest @ t)))"
      using d enc(6) by (simp add: delivered_def stream_def)
    moreover have "store_ok st' (R + refs c')"
      using send(2) d by (simp add: flushed_def delivered_def same_but_output_iff refs_def add.assoc)
    moreover have "agree R st st'"
    proof (rule agree_trans [OF enc(3)])
      show "agree R st1 st'" using send(2) by (auto simp: flushed_def intro: agree_mono)
    qed simp
    moreover have "fb_queue_single a st c = Some (int (length t), st', c')"
      using False True t enc(1) send(1) by (simp add: fb_queue_single_def)
    ultimately show ?thesis using False True by (auto simp: gains_def)
  qed
qed

section \<open>All connections of a service\<close>

text \<open>The state is as before except for some connections, and the blocks of the others keep their texts.\<close>

definition reaches :: "bytes \<Rightarrow> nat list \<Rightarrow> football \<Rightarrow> football \<Rightarrow> bool" where
  "reaches t ks W W' \<longleftrightarrow> fb_services W' = fb_services W
    \<and> (\<forall>j. j \<notin> set ks \<longrightarrow> fb_connections W' j = fb_connections W j \<and> agree (refs_at W j) (blocks W) (blocks W'))
    \<and> (\<forall>k \<in> set ks. \<exists>c c'. fb_connections W k = Some c \<and> fb_connections W' k = Some c'
        \<and> stream (blocks W') c' = stream (blocks W) c
          @ (if fb_state c \<noteq> CLOSING \<and> fb_filename c = None then gains (blocks W) c t else []))"

definition addressed :: "football \<Rightarrow> nat list \<Rightarrow> bool" where
  "addressed W ks \<longleftrightarrow> distinct ks \<and> (\<forall>k \<in> set ks. \<exists>c. fb_connections W k = Some c
    \<and> (fb_state c \<noteq> CLOSING \<longrightarrow> fb_filename c = None \<longrightarrow> conn_fine (blocks W) c))"

lemma refs_at_others: "finite (dom (fb_connections W)) \<Longrightarrow> j \<noteq> k \<Longrightarrow> refs_at W j \<subseteq># others k W"
proof (cases "fb_connections W j")
  case (Some c)
  assume "finite (dom (fb_connections W))" "j \<noteq> k"
  then have "others k W = refs_at W j + (\<Sum>i \<in> dom (fb_connections W) - {k} - {j}. refs_at W i)"
    unfolding others_def using Some by (intro sum.remove) auto
  then show ?thesis by simp
qed (simp add: refs_at_def)

lemma broadcast_step:
  assumes ok: "world_with {#a#} W" and t: "msg_text (blocks W) a = t" "t \<noteq> []" "0 \<notin> set t"
    and k: "addressed W (k # ks)"
  shows "\<exists>c W1. fb_connections W k = Some c
    \<and> (if fb_state c \<noteq> CLOSING \<and> fb_filename c = None
      then map_option snd (with_connection k (fb_queue_single a) (W\<lparr>blocks := use_message a (blocks W)\<rparr>))
      else Some W) = Some W1
    \<and> world_with {#a#} W1 \<and> msg_text (blocks W1) a = t \<and> reaches t [k] W W1"
proof -
  obtain c where c: "fb_connections W k = Some c" "fb_state c \<noteq> CLOSING \<Longrightarrow> fb_filename c = None \<Longrightarrow> conn_fine (blocks W) c"
    using k by (auto simp: addressed_def)
  show ?thesis
  proof (cases "fb_state c \<noteq> CLOSING \<and> fb_filename c = None")
    case False
    with c ok t show ?thesis by (auto simp: reaches_def)
  next
    case True
    let ?W = "W\<lparr>blocks := use_message a (blocks W)\<rparr>" and ?R = "{#a#} + others k W"
    have fin: "finite (dom (fb_connections W))" using ok by (simp add: world_with_def heap_ok_def)
    have used: "world_with (add_mset a {#a#}) ?W"
      using use_ok [of "blocks W" "{#a#} + all_refs W" a] ok by (intro world_with_blocks [OF ok]) (simp add: world_with_def)
    then have "store_ok (blocks ?W) (add_mset a (?R + refs c))"
      using all_refs_split [OF fin c(1)] all_refs_frame(1) [of ?W W] by (simp add: world_with_def add.assoc)
    moreover have fine: "conn_fine (blocks ?W) c"
      using c(2) True by (auto simp: conn_fine_def queue_wf_def pending_def split: list.splits)
    ultimately obtain st' c' where
      1: "fb_queue_single a (blocks ?W) c = Some (int (length t), st', c')" "agree ?R (blocks ?W) st'"
        "stream st' c' = stream (blocks ?W) c @ gains (blocks ?W) c t"
      using single_delivers [of "blocks ?W" a ?R c t] t by auto
    let ?W1 = "put_connection k c' (?W\<lparr>blocks := st'\<rparr>)"
    have run: "with_connection k (fb_queue_single a) ?W = Some (int (length t), ?W1)"
      using c(1) 1(1) by (simp add: with_connection_def)
    have same: "stream (blocks ?W) c = stream (blocks W) c" "gains (blocks ?W) c t = gains (blocks W) c t"
      by (simp_all add: stream_def gains_def pending_def)
    have "agree (refs_at W j) (blocks W) st'" if "j \<noteq> k" for j
    proof -
      have "refs_at W j \<subseteq># ?R"
        using refs_at_others [OF fin that] by (rule subset_mset.order_trans) (rule mset_subset_eq_add_right)
      from agree_mono [OF 1(2) this] show ?thesis by (simp add: agree_def)
    qed
    then have "reaches t [k] W ?W1"
      using c(1) 1(3) True same by (simp add: reaches_def put_connection_def)
    moreover have "msg_text st' a = t" using agree_text [OF 1(2), of a] t(1) by simp
    moreover have "world_with {#a#} ?W1" by (rule queue_single_with [OF used run])
    ultimately show ?thesis using c(1) True run by auto
  qed
qed

lemma reaches_later:
  assumes r: "reaches t [k] W W1" and k: "addressed W (k # ks)"
  shows "addressed W1 ks" and "reaches t ks W1 W' \<Longrightarrow> reaches t (k # ks) W W'"
proof -
  have later: "fb_connections W1 j = fb_connections W j" "agree (refs_at W j) (blocks W) (blocks W1)" if "j \<noteq> k" for j
    using r that by (simp_all add: reaches_def)
  have texts: "queue_wf (blocks W1) q = queue_wf (blocks W) q" "pending (blocks W1) q = pending (blocks W) q"
    if "fb_connections W j = Some c" "j \<noteq> k" "q = fb_out c \<or> q = fb_assembly c" for j c q
  proof -
    have "mset (queued q) \<subseteq># refs_at W j" using that by (auto simp: refs_at_def refs_def)
    then show "queue_wf (blocks W1) q = queue_wf (blocks W) q" "pending (blocks W1) q = pending (blocks W) q"
      using agree_queue_wf [OF later(2) [OF that(2)]] agree_pending [OF later(2) [OF that(2)]] by auto
  qed
  have same: "conn_fine (blocks W1) c = conn_fine (blocks W) c" "stream (blocks W1) c = stream (blocks W) c"
      "gains (blocks W1) c t = gains (blocks W) c t"
    if "fb_connections W j = Some c" "j \<noteq> k" for j c
    using texts [OF that] by (auto simp: conn_fine_def stream_def gains_def)
  show "addressed W1 ks"
    using k later same(1) by (fastforce simp: addressed_def)
  assume r': "reaches t ks W1 W'"
  have "k \<notin> set ks" using k by (simp add: addressed_def)
  have others: "fb_connections W' j = fb_connections W j \<and> agree (refs_at W j) (blocks W) (blocks W')" if "j \<notin> set (k # ks)" for j
  proof -
    have "refs_at W1 j = refs_at W j" using later(1) [of j] that by (simp add: refs_at_def)
    then have "agree (refs_at W j) (blocks W1) (blocks W')" "fb_connections W' j = fb_connections W1 j"
      using r' that by (auto simp: reaches_def)
    then show ?thesis using later [of j] that agree_trans [of "refs_at W j" "blocks W" "blocks W1" "refs_at W j"] by auto
  qed
  obtain c c1 where c: "fb_connections W k = Some c" "fb_connections W1 k = Some c1"
      "stream (blocks W1) c1 = stream (blocks W) c
        @ (if fb_state c \<noteq> CLOSING \<and> fb_filename c = None then gains (blocks W) c t else [])"
    using r by (auto simp: reaches_def)
  have "agree (refs c1) (blocks W1) (blocks W')" "fb_connections W' k = Some c1"
    using r' \<open>k \<notin> set ks\<close> c(2) by (auto simp: reaches_def refs_at_def)
  moreover have "mset (queued (fb_out c1)) \<subseteq># refs c1" by (simp add: refs_def)
  ultimately have first: "fb_connections W' k = Some c1" "stream (blocks W') c1 = stream (blocks W1) c1"
    using agree_pending by (auto simp: stream_def)
  have rest: "\<exists>c c'. fb_connections W j = Some c \<and> fb_connections W' j = Some c' \<and> stream (blocks W') c' = stream (blocks W) c
      @ (if fb_state c \<noteq> CLOSING \<and> fb_filename c = None then gains (blocks W) c t else [])" if "j \<in> set ks" for j
  proof -
    have j: "j \<noteq> k" using that \<open>k \<notin> set ks\<close> by blast
    obtain d d' where d: "fb_connections W1 j = Some d" "fb_connections W' j = Some d'"
        "stream (blocks W') d' = stream (blocks W1) d
          @ (if fb_state d \<noteq> CLOSING \<and> fb_filename d = None then gains (blocks W1) d t else [])"
      using r' \<open>j \<in> set ks\<close> unfolding reaches_def by blast
    have dj: "fb_connections W j = Some d" using d(1) later(1) [OF j] by simp
    then show ?thesis using d(2,3) unfolding same(2,3) [OF dj j] by blast
  qed
  show "reaches t (k # ks) W W'"
    unfolding reaches_def
  proof (intro conjI ballI allI impI)
    show "fb_services W' = fb_services W" using r r' by (simp add: reaches_def)
    fix j
    show "j \<notin> set (k # ks) \<Longrightarrow> fb_connections W' j = fb_connections W j"
      "j \<notin> set (k # ks) \<Longrightarrow> agree (refs_at W j) (blocks W) (blocks W')"
      using others [of j] by auto
    assume j: "j \<in> set (k # ks)"
    show "\<exists>c c'. fb_connections W j = Some c \<and> fb_connections W' j = Some c' \<and> stream (blocks W') c' = stream (blocks W) c
      @ (if fb_state c \<noteq> CLOSING \<and> fb_filename c = None then gains (blocks W) c t else [])"
    proof (cases "j = k")
      case True
      with c(1,3) first show ?thesis by (intro exI [of _ c] exI [of _ c1]) simp
    next
      case False
      with j rest show ?thesis by auto
    qed
  qed
qed

lemma broadcast_reaches:
  assumes "world_with {#a#} W" and "msg_text (blocks W) a = t" "t \<noteq> []" "0 \<notin> set t" and "addressed W ks"
  shows "\<exists>W'. broadcast_to ks a W = Some W' \<and> world_with {#a#} W' \<and> reaches t ks W W'"
  using assms
proof (induction ks arbitrary: W)
  case Nil
  then show ?case by (simp add: reaches_def)
next
  case (Cons k ks)
  from broadcast_step [OF Cons.prems] obtain c W1 where 1: "fb_connections W k = Some c"
      "(if fb_state c \<noteq> CLOSING \<and> fb_filename c = None
        then map_option snd (with_connection k (fb_queue_single a) (W\<lparr>blocks := use_message a (blocks W)\<rparr>))
        else Some W) = Some W1"
      "world_with {#a#} W1" "msg_text (blocks W1) a = t" "reaches t [k] W W1"
    by blast
  note later = reaches_later [OF 1(5) Cons.prems(5)]
  from Cons.IH [OF 1(3,4) Cons.prems(3,4) later(1)] obtain W' where
    "broadcast_to ks a W1 = Some W'" "world_with {#a#} W'" "reaches t ks W1 W'" by blast
  then show ?case using 1(1,2) later(2) by (intro exI [of _ W']) simp
qed

end
