(* ===== verification/FbLibrary.thy ===== *)
theory FbLibrary
  imports FbBroadcast
begin

text \<open>
  What holds of libfootball as a whole: the invariant of all reachable states, that a connection can always be taken down,
  and that a broadcast reaches every connection of its service.
\<close>

section \<open>A reachable state\<close>

definition demo_sockets :: socket_results where
  "demo_sockets i = (if i = LINE_IP4 then Some (5, True) else None)"

definition demo_happening :: happening where
  "demo_happening = \<lparr>arriving_at = \<lparr>ar_tls = True, ar_socket = Some 6, ar_sends = sconst (Took 10), ar_receives = sconst Recv_again,
    ar_handshakes = sconst Handshake_wait\<rparr>, web_at = demo_web (\<lambda>p. Missing), tls_pending = False\<rparr>"

definition demo_connection :: fb_connection where
  "demo_connection = (fb_new_connection 0 (arriving_at demo_happening) 6)\<lparr>fb_state := OPEN, reading := True\<rparr>"

definition demo_state :: football where
  "demo_state = no_football\<lparr>
     fb_services := [0 \<mapsto> \<lparr>sv_state = OPEN, sv_options = demo_options, sv_socket = (\<lambda>_. 0)(LINE_IP4 := 5), sv_listening = {5},
       sv_connections = [1], sv_shutdown_done = False, sv_next_child = None\<rparr>],
     fb_connections := [1 \<mapsto> demo_connection], next_address := 2, sockets := [5 \<mapsto> Service_socket 0, 6 \<mapsto> Connection_socket 1],
     maxsockets := 10, activesockets := 7, open_services := 1\<rparr>"

lemma demo_reachable: "fb_reachable demo_state"
proof -
  let ?W = "demo_state\<lparr>fb_services := [0 \<mapsto> \<lparr>sv_state = OPEN, sv_options = demo_options, sv_socket = (\<lambda>_. 0)(LINE_IP4 := 5),
      sv_listening = {5}, sv_connections = [], sv_shutdown_done = False, sv_next_child = None\<rparr>],
    fb_connections := Map.empty, next_address := 1, sockets := [5 \<mapsto> Service_socket 0], activesockets := 6\<rparr>"
  have "fb_create_service demo_options (Some ''HELO'') demo_sockets no_football = Some (Some 0, ?W)"
    by (simp add: fb_create_service_def demo_options_def parent_ok_def kept_options_def socket_ids_def fb_setup_socket_def
        demo_sockets_def socket_port_def fb_http_socket_def fb_encrypted_socket_def no_football_def put_service_def
        fb_register_def FD_SETSIZE_def registry_size_def set_reading_def link_child_def demo_state_def)
  then have "fb_reachable ?W" by (rule fb_reachable.create [OF fb_reachable.start])
  moreover have "\<exists>e. fb_process_event demo_happening 5 ACTION_READING ?W = Some (e, demo_state)"
    by (simp add: fb_process_event_def fb_new_connect_def socket_ids_def fb_accept_connection_def demo_happening_def
        fb_encrypted_socket_def fb_http_socket_def add_connection_def put_connection_def put_service_def first_state_def
        fb_register_def FD_SETSIZE_def set_reading_def fb_new_connection_def demo_state_def demo_connection_def no_football_def
        demo_options_def)
  ultimately show ?thesis using fb_reachable.event by blast
qed

section \<open>The properties\<close>

text \<open>
  C2: The invariant of libfootball: in every state that the program and the network can bring about, by creating and
  closing services, accepting, reading, writing, polling, printing, broadcasting, transferring and closing
  in any order, with any answers of the operating system, each message block is used exactly as often as it is queued, a socket
  is registered for a connection if and only if it is the socket of that connection, each connection is in the list of
  its own service, once, and in no other, and the registry stays within its bounds.
\<close>

theorem football_invariant:
  assumes "fb_reachable W"
  shows "store_ok (blocks W) (all_refs W)
    \<and> (\<forall>fd k. sockets W fd = Some (Connection_socket k) \<longleftrightarrow> (\<exists>c. fb_connections W k = Some c \<and> fb_socket c = fd))
    \<and> (\<forall>s v. fb_services W s = Some v \<longrightarrow> distinct (sv_connections v)
        \<and> (\<forall>k. k \<in> set (sv_connections v) \<longleftrightarrow> (\<exists>c. fb_connections W k = Some c \<and> fb_service c = s)))
    \<and> (\<forall>fd. sockets W fd \<noteq> None \<longrightarrow> fd < activesockets W \<and> fd < FD_SETSIZE)"
proof -
  have ok: "world_ok W" by (rule reachable_ok [OF assms])
  have "fd < activesockets W \<and> fd < FD_SETSIZE" if "sockets W fd \<noteq> None" for fd
    using world_ok_bounds [OF ok] that by (force simp: bounds_ok_def)
  with ok show ?thesis by (simp add: world_ok_def counts_ok_def registry_ok_def lists_ok_def)
qed

theorem football_invariant_witness:
  "sockets demo_state 6 = Some (Connection_socket 1) \<and> store_ok (blocks demo_state) (all_refs demo_state)"
  using football_invariant [OF demo_reachable] by (simp add: demo_state_def)

text \<open>
  C36: A connection can always be taken down: in every reachable state, destroying a connection with a
  positive descriptor does not fail, and afterwards nothing refers to it: its memory is free, its socket is not
  registered, no service lists it, its share of the message blocks is given back, and the bits of the last select are cleared.
\<close>

theorem destroy_connection_succeeds:
  assumes "fb_reachable W" and c: "fb_connections W k = Some c" and "0 < fb_socket c"
  shows "\<exists>W'. fb_destroy_connection k W = Some W' \<and> fb_connections W' k = None \<and> sockets W' (fb_socket c) = None
    \<and> (\<forall>s v. fb_services W' s = Some v \<longrightarrow> k \<notin> set (sv_connections v))
    \<and> store_ok (blocks W') (all_refs W') \<and> fb_socket c \<notin> last_reading W' \<union> last_writing W'"
proof -
  have ok: "world_ok W" by (rule reachable_ok [OF assms(1)])
  obtain v where v: "fb_services W (fb_service c) = Some v" "k \<in> set (sv_connections v)"
    using connection_listed [OF ok c] by blast
  let ?W1 = "put_service (fb_service c) (v\<lparr>sv_connections := remove1 k (sv_connections v)\<rparr>) W"
  have "sockets ?W1 (fb_socket c) \<noteq> None" using connection_registered [OF ok c] by simp
  moreover from this have "fb_socket c < maxsockets ?W1" using world_ok_bounds [OF ok] by (force simp: bounds_ok_def)
  ultimately obtain W2 where W2: "fb_unregister (fb_socket c) ?W1 = Some W2" using assms(3) by (auto simp: fb_unregister_def Let_def)
  have "store_ok (blocks W) ((others k W + mset (queued (fb_out c))) + mset (queued (fb_assembly c)))"
    using world_ok_counts [OF ok c] by (simp add: refs_def ac_simps)
  moreover have "blocks W2 = blocks W" using W2 by (auto simp: fb_unregister_def Let_def split: if_splits)
  ultimately obtain st1 q1 st2 q2 where st: "fb_queue_destroy (fb_assembly c) (blocks W2) = Some (q1, st1)"
      "fb_queue_destroy (fb_out c) st1 = Some (q2, st2)"
    using destroy_ok by metis
  let ?W = "W2\<lparr>blocks := st2, fb_connections := (fb_connections W2)(k := None)\<rparr>"
  have run: "fb_destroy_connection k W = Some ?W"
    using c v W2 st by (simp add: fb_destroy_connection_def fb_remove_connection_from_service_def)
  have "world_ok ?W" by (rule destroy_connection_ok [OF ok run])
  then have "store_ok (blocks ?W) (all_refs ?W)" "\<forall>s v. fb_services ?W s = Some v \<longrightarrow> k \<notin> set (sv_connections v)"
    by (auto simp: world_ok_def counts_ok_def lists_ok_def)
  moreover have "sockets ?W (fb_socket c) = None" "fb_socket c \<notin> last_reading ?W \<union> last_writing ?W"
    using W2 by (auto simp: fb_unregister_def Let_def split: if_splits)
  ultimately show ?thesis using run by (intro exI [of _ ?W]) simp
qed

theorem destroy_connection_succeeds_witness:
  "\<exists>W'. fb_destroy_connection 1 demo_state = Some W' \<and> fb_connections W' 1 = None \<and> sockets W' 6 = None"
  using destroy_connection_succeeds [OF demo_reachable, of 1 demo_connection]
  by (auto simp: demo_state_def demo_connection_def fb_new_connection_def)

lemma free_message_streams:
  assumes "world_with {#a#} W"
  shows "\<exists>W'. free_message a W = Some W' \<and> fb_connections W' = fb_connections W
    \<and> (\<forall>k c. fb_connections W k = Some c \<longrightarrow> stream (blocks W') c = stream (blocks W) c)"
proof -
  have "store_ok (blocks W) (add_mset a (all_refs W))" using assms by (simp add: world_with_def)
  then obtain st where st: "fb_messagefree a (blocks W) = Some st" "agree (all_refs W) (blocks W) st"
    using free_ok by blast
  have "stream st c = stream (blocks W) c" if "fb_connections W k = Some c" for k c
  proof -
    have "all_refs W = others k W + refs c" using assms that by (intro all_refs_split) (simp_all add: world_with_def heap_ok_def)
    then have "mset (queued (fb_out c)) \<subseteq># all_refs W" by (simp add: refs_def)
    from agree_pending [OF st(2) this] show ?thesis by (simp add: stream_def)
  qed
  with st(1) show ?thesis by (simp add: free_message_def)
qed

text \<open>A block that is added changes nothing for the connections.\<close>

lemma agree_conn:
  assumes "world_ok W" "agree (all_refs W) (blocks W) st" "fb_connections W k = Some c"
  shows "conn_fine st c = conn_fine (blocks W) c" "stream st c = stream (blocks W) c" "gains st c text = gains (blocks W) c text"
proof -
  have "all_refs W = others k W + refs c" using assms(1,3) by (intro all_refs_split) (simp_all add: world_ok_def heap_ok_def)
  then have "mset (queued (fb_out c)) \<subseteq># all_refs W" "mset (queued (fb_assembly c)) \<subseteq># all_refs W" by (simp_all add: refs_def)
  then show "conn_fine st c = conn_fine (blocks W) c" "stream st c = stream (blocks W) c" "gains st c text = gains (blocks W) c text"
    using agree_pending [OF assms(2)] agree_queue_wf [OF assms(2)] by (simp_all add: conn_fine_def stream_def gains_def)
qed

text \<open>
  C3: A broadcast reaches every connection of its service and no other.  The text is not empty and has no NUL, and each connection of the
  service that is open for output and reads no file is fine: the positions in its two queues lie inside their first messages (no send
  has failed before), its socket does not fail while it is sent to, and its assembly queue holds no line end.  Then, in every reachable state, the
  broadcast does not fail, and the stream of each connection of the service (what its socket has taken and what is queued) is extended by the text for a line connection, by the packets of the
  lines that the text completes for a websocket, and by nothing if the connection is not open or reads a file; the streams of all
  other connections are as before, although the one block of text was shared by all queues and freed after its last use.
\<close>

theorem broadcast_reaches_all:
  assumes "fb_reachable W" and v: "fb_services W s = Some v" and t: "text \<noteq> []" "0 \<notin> set text"
    and fine: "\<And>k c. fb_connections W k = Some c \<Longrightarrow> fb_service c = s \<Longrightarrow> fb_state c \<noteq> CLOSING \<Longrightarrow> fb_filename c = None
      \<Longrightarrow> conn_fine (blocks W) c"
  shows "\<exists>W'. fb_bfprintf (To_service s) text W = Some (int (length text), W') \<and> fb_reachable W'
    \<and> (\<forall>k c. fb_connections W k = Some c \<longrightarrow> (\<exists>c'. fb_connections W' k = Some c'
        \<and> stream (blocks W') c' = stream (blocks W) c @ (if fb_service c = s then gains (blocks W) c text else [])))"
proof -
  have ok: "world_ok W" by (rule reachable_ok [OF assms(1)])
  obtain a st where create: "fb_create_message text (blocks W) = (a, st)" by (cases "fb_create_message text (blocks W)")
  let ?W = "W\<lparr>blocks := st\<rparr>" and ?ks = "sv_connections v"
  have new: "agree (all_refs W) (blocks W) st" "msg_text st a = text"
    using create_ok(3,4) [OF _ create, of "all_refs W"] ok by (auto simp: world_ok_def counts_ok_def)
  note same = agree_conn [OF ok new(1)]
  have mine: "k \<in> set ?ks \<longleftrightarrow> (\<exists>c. fb_connections W k = Some c \<and> fb_service c = s)" for k
    using ok v by (simp add: world_ok_def lists_ok_def)
  have "distinct ?ks" using ok v by (simp add: world_ok_def lists_ok_def)
  then have "addressed ?W ?ks" using mine fine same(1) by (force simp: addressed_def)
  from broadcast_reaches [OF created_with [OF ok create] _ t this] new(2) obtain W1 where
    W1: "broadcast_to ?ks a ?W = Some W1" "world_with {#a#} W1" "reaches text ?ks ?W W1" by auto
  obtain W' where W': "free_message a W1 = Some W'" "fb_connections W' = fb_connections W1"
      "\<And>k c. fb_connections W1 k = Some c \<Longrightarrow> stream (blocks W') c = stream (blocks W1) c"
    using free_message_streams [OF W1(2)] by blast
  have run: "fb_bfprintf (To_service s) text W = Some (int (length text), W')"
    using t(1) new(2) v W1(1) W'(1) by (simp add: fb_bfprintf_def create fb_queue_message_def fb_queue_broadcast_def)
  moreover have "\<exists>c'. fb_connections W' k = Some c'
      \<and> stream (blocks W') c' = stream (blocks W) c @ (if fb_service c = s then gains (blocks W) c text else [])"
    if c: "fb_connections W k = Some c" for k c
  proof (cases "fb_service c = s")
    case True
    then obtain c' where "fb_connections W1 k = Some c'" "stream (blocks W1) c' = stream st c
        @ (if fb_state c \<noteq> CLOSING \<and> fb_filename c = None then gains st c text else [])"
      using W1(3) mine [of k] c by (fastforce simp: reaches_def)
    moreover have "\<not> (fb_state c \<noteq> CLOSING \<and> fb_filename c = None) \<Longrightarrow> gains (blocks W) c text = []"
      by (auto simp: gains_def unsendable_def)
    ultimately show ?thesis using True same [OF c] W'(2,3) by auto
  next
    case False
    then have "k \<notin> set ?ks" using mine [of k] c by auto
    then have "fb_connections W1 k = Some c" "agree (refs c) st (blocks W1)"
      using W1(3) c by (auto simp: reaches_def refs_at_def)
    moreover from this(2) have "stream (blocks W1) c = stream st c"
      using agree_pending [of "refs c" st "blocks W1" "fb_out c"] by (simp add: stream_def refs_def)
    ultimately show ?thesis using False same(2) [OF c] W'(2,3) by simp
  qed
  ultimately show ?thesis using fb_reachable.broadcast [OF assms(1) run] by blast
qed

theorem broadcast_reaches_all_witness:
  "\<exists>W' c'. fb_bfprintf (To_service 0) [104, 105, 10] demo_state = Some (3, W') \<and> fb_connections W' 1 = Some c'
    \<and> stream (blocks W') c' = [104, 105, 10]"
proof -
  have "conn_fine (blocks demo_state) c" if "fb_connections demo_state k = Some c" for k c
    using that by (auto simp: demo_state_def demo_connection_def fb_new_connection_def conn_fine_def queue_wf_def empty_queue_def
        demo_happening_def split: if_splits)
  moreover have "fb_services demo_state 0 = Some (the (fb_services demo_state 0))" "fb_connections demo_state 1 = Some demo_connection"
    by (simp_all add: demo_state_def)
  moreover have "fb_service demo_connection = 0" "stream (blocks demo_state) demo_connection = []"
      "gains (blocks demo_state) demo_connection [104, 105, 10] = [104, 105, 10]"
    by (simp_all add: demo_connection_def fb_new_connection_def stream_def demo_happening_def empty_queue_def gains_def unsendable_def)
  ultimately show ?thesis
    using broadcast_reaches_all [OF demo_reachable, of 0 "the (fb_services demo_state 0)" "[104, 105, 10]"] by force
qed

text \<open>
  A connection that is closed while its input is still in the list of the last select is different: the
  event of its socket runs into an assertion.
\<close>

lemma input_after_close_fails:
  assumes "sockets W fd = Some (Connection_socket k)" and "fb_connections W k = Some c" and "OPEN < fb_state c"
  shows "fb_process_event h fd ACTION_READING W = None"
  using assms by (cases "fb_state c") (simp_all add: fb_process_event_def fb_read_input_def less_conn_state_def)

end
