(* ===== verification/Startup.thy ===== *)
theory Startup
  imports CommandParser Pianod FbLibrary
begin

text \<open>
  How the daemon starts: the options and \<open>main\<close> of \<open>src/src/pianod.c\<close>, and the change of identity in \<open>src/src/settings.c\<close>.  What
  getopt yields, the accounts of the system, the answers of the kernel and of the libraries that are initialised are data.  The
  program is built with GnuTLS and capture.  Log lines are left out.
\<close>

section \<open>Identity\<close>

record passwd =
  pw_uid :: nat
  pw_gid :: nat

record accounts =
  getpwnam :: "string \<Rightarrow> passwd option"
  getgrnam :: "string \<Rightarrow> nat option"
  getgrouplist :: "string \<Rightarrow> nat \<Rightarrow> nat list"

record process =
  p_uid :: nat
  p_gid :: nat
  p_groups :: "nat list"

definition running_as_root :: "process \<Rightarrow> bool" where
  "running_as_root pr = (p_uid pr = 0)"

text \<open>
  The list of groups of the account is asked for until it fits.  The function is told the number that the previous call reported, not
  the room there is: \<open>None\<close> is a write behind the memory.
\<close>

function group_loop :: "nat list \<Rightarrow> nat \<Rightarrow> nat \<Rightarrow> nat list option" where
  "group_loop groups space asked =
    (let space = space * 2 + 10 in
     if length groups \<le> asked then (if length groups \<le> space then Some groups else None)
     else if space < asked then None
     else group_loop groups space (length groups))"
  by pat_completeness auto
termination by (relation "measure (\<lambda>(groups, _, asked). length groups - asked)") auto

declare group_loop.simps [simp del]

definition strtok_words :: "char \<Rightarrow> string \<Rightarrow> string list" where
  "strtok_words c s = filter (\<lambda>w. w \<noteq> []) (split_on c s)"

text \<open>The account and the groups that the daemon is to run with.\<close>

type_synonym identity = "passwd \<times> nat list"

text \<open>\<open>Inl\<close> is an exit with that status.\<close>

definition select_nobody_user :: "accounts \<Rightarrow> process \<Rightarrow> string \<Rightarrow> string option \<Rightarrow> (int + identity option) option" where
  "select_nobody_user acc pr nobody_name group_names =
    (if \<not> running_as_root pr then Some (Inr None)
     else (case getpwnam acc nobody_name of
         None \<Rightarrow> Some (Inl 1)
       | Some user \<Rightarrow> (case group_names of
             Some groups \<Rightarrow> Some (Inr (Some (user, List.map_filter (getgrnam acc) (strtok_words (CHR '','') groups))))
           | None \<Rightarrow> map_option (\<lambda>gs. Inr (Some (user, gs))) (group_loop (getgrouplist acc nobody_name (pw_gid user)) 0 0))))"

datatype id_call = Setgid nat | Setgroups "nat list" | Setuid nat

text \<open>Only root may make these calls; \<open>permits\<close> is what else may stop them.\<close>

definition id_step :: "(id_call \<Rightarrow> bool) \<Rightarrow> id_call \<Rightarrow> process \<Rightarrow> process option" where
  "id_step permits call pr =
    (if p_uid pr \<noteq> 0 \<or> \<not> permits call then None
     else Some (case call of
         Setgid g \<Rightarrow> pr\<lparr>p_gid := g\<rparr>
       | Setgroups gs \<Rightarrow> pr\<lparr>p_groups := gs\<rparr>
       | Setuid u \<Rightarrow> pr\<lparr>p_uid := u\<rparr>))"

fun id_steps :: "(id_call \<Rightarrow> bool) \<Rightarrow> id_call list \<Rightarrow> process \<Rightarrow> int + process" where
  "id_steps permits [] pr = Inr pr"
| "id_steps permits (c # cs) pr = (case id_step permits c pr of None \<Rightarrow> Inl 1 | Some pr \<Rightarrow> id_steps permits cs pr)"

definition drop_root_privs :: "(id_call \<Rightarrow> bool) \<Rightarrow> identity option \<Rightarrow> process \<Rightarrow> int + process" where
  "drop_root_privs permits ident pr = (case ident of
      None \<Rightarrow> Inr pr
    | Some (user, groups) \<Rightarrow> id_steps permits [Setgid (pw_gid user), Setgroups groups, Setuid (pw_uid user)] pr)"

section \<open>The user file\<close>

record fileinfo =
  st_uid :: nat
  st_gid :: nat
  st_private :: bool

text \<open>\<open>answers\<close>: whether fopen, chmod and chown succeed.  An existing file is compared by its owner with the group of the account.\<close>

definition precreate_file :: "bool \<times> bool \<times> bool \<Rightarrow> identity option \<Rightarrow> string \<Rightarrow> (string \<Rightarrow> fileinfo option) \<Rightarrow> (string \<Rightarrow> fileinfo option)" where
  "precreate_file answers ident filename owners = (case ident of
      None \<Rightarrow> owners
    | Some (user, _) \<Rightarrow>
        (let (fopen_ok, chmod_ok, chown_ok) = answers;
             mine = (case owners filename of Some info \<Rightarrow> st_uid info = pw_gid user | None \<Rightarrow> False);
             owners = (case owners filename of
                 None \<Rightarrow> if fopen_ok then owners(filename := Some \<lparr>st_uid = 0, st_gid = 0, st_private = False\<rparr>) else owners
               | Some _ \<Rightarrow> owners);
             change = (\<lambda>ok f owners. if ok \<and> \<not> mine then owners(filename := map_option f (owners filename)) else owners)
         in change chown_ok (\<lambda>i. i\<lparr>st_uid := pw_uid user, st_gid := pw_gid user\<rparr>) (change chmod_ok (\<lambda>i. i\<lparr>st_private := True\<rparr>) owners)))"

section \<open>Options\<close>

record start_options =
  start_settings :: settings
  client_location :: "string option"
  startscript :: string
  nobody :: string
  nobody_groups :: "string option"
  serverOnly :: bool
  start_logging :: "nat \<times> nat"

text \<open>in_port_t has 16 bits.\<close>

definition in_port :: "int \<Rightarrow> nat" where
  "in_port v = nat (v mod 65536)"

definition option_p :: "int \<Rightarrow> settings \<Rightarrow> settings" where
  "option_p argval st =
    (let st' = (if argval \<noteq> 0 then
           (let st1 = (if AppState.http_port st = port st + 1 then st\<lparr>AppState.http_port := in_port (argval + 1)\<rparr> else st)
            in if AppState.https_port st1 = port st1 + 2 then st1\<lparr>AppState.https_port := in_port (argval + 2)\<rparr> else st1)
         else st)
     in st'\<lparr>port := in_port argval\<rparr>)"

definition option_P :: "int \<Rightarrow> settings \<Rightarrow> settings" where
  "option_P argval st =
    (let st' = (if argval \<noteq> 0 \<and> AppState.https_port st = AppState.http_port st + 1
         then st\<lparr>AppState.https_port := in_port (if argval = 80 then 443 else argval + 1)\<rparr> else st)
     in st'\<lparr>AppState.http_port := in_port argval\<rparr>)"

definition logging_option :: "string \<Rightarrow> nat" where
  "logging_option a = nat (fst (strtol 0 a))"

definition on_start :: "(settings \<Rightarrow> settings) \<Rightarrow> start_options \<Rightarrow> start_options" where
  "on_start f opts = opts\<lparr>start_settings := f (start_settings opts)\<rparr>"

text \<open>One option; \<open>-u\<close> goes on into \<open>-Z\<close>.  Options without a case are ignored.\<close>

definition apply_option :: "(string \<Rightarrow> bool) \<Rightarrow> char \<times> string \<Rightarrow> start_options \<Rightarrow> int + start_options" where
  "apply_option is_directory flag_arg opts =
    (let (flag, arg) = flag_arg;
         set_Z = (\<lambda>opts. opts\<lparr>start_logging := (logging_option arg, snd (start_logging opts))\<rparr>) in
     if flag = CHR ''S'' then Inr (opts\<lparr>serverOnly := True\<rparr>)
     else if flag = CHR ''c'' then Inr (opts\<lparr>client_location := Some arg\<rparr>)
     else if flag = CHR ''p'' then Inr (on_start (option_p (atoi arg)) opts)
     else if flag = CHR ''P'' then Inr (on_start (option_P (atoi arg)) opts)
     else if flag = CHR ''s'' then Inr (on_start (\<lambda>st. st\<lparr>AppState.https_port := in_port (atoi arg)\<rparr>) opts)
     else if flag = CHR ''i'' then Inr (opts\<lparr>startscript := arg\<rparr>)
     else if flag = CHR ''n'' then Inr (opts\<lparr>nobody := arg\<rparr>)
     else if flag = CHR ''g'' then Inr (opts\<lparr>nobody_groups := Some arg\<rparr>)
     else if flag = CHR ''u'' then Inr (set_Z (on_start (\<lambda>st. st\<lparr>user_file := arg\<rparr>) opts))
     else if flag = CHR ''Z'' then Inr (set_Z opts)
     else if flag = CHR ''z'' then Inr (opts\<lparr>start_logging := (fst (start_logging opts), logging_option arg)\<rparr>)
     else if flag = CHR ''v'' then Inl 0
     else if flag = CHR ''?'' then Inl 1
     else if flag = CHR ''m'' then Inr (if is_directory arg
       then on_start (\<lambda>st. st\<lparr>capture_path := Some arg, capture_pathlen := length arg\<rparr>) opts else opts)
     else Inr opts)"

fun parse_options :: "(string \<Rightarrow> bool) \<Rightarrow> (char \<times> string) list \<Rightarrow> start_options \<Rightarrow> int + start_options" where
  "parse_options is_directory [] opts = Inr opts"
| "parse_options is_directory (a # args) opts =
    (case apply_option is_directory a opts of Inl status \<Rightarrow> Inl status | Inr opts \<Rightarrow> parse_options is_directory args opts)"

definition default_options :: "(string \<Rightarrow> string option) \<Rightarrow> bool \<Rightarrow> string \<Rightarrow> start_options" where
  "default_options getenv as_root sysconfdir =
    \<lparr>start_settings = settings_initialize getenv as_root sysconfdir, client_location = None,
     startscript = settings_get_config_dir getenv as_root sysconfdir ''pianod'' ''startscript'' 4096,
     nobody = ''nobody'', nobody_groups = None, serverOnly = False, start_logging = (0, 0)\<rparr>"

section \<open>Starting\<close>

text \<open>The host, the port and the fingerprint of the server that the requests to Pandora go to.\<close>

definition initialize_libraries :: "bool \<Rightarrow> int \<Rightarrow> settings \<Rightarrow> (string option \<times> string option \<times> bytes) option" where
  "initialize_libraries gnutls_ok piano_status st =
    (if gnutls_ok \<and> piano_status = PIANO_RET_OK then Some (rpcHost st, rpcTlsPort st, tlsFingerprint st) else None)"

definition server_options :: "bool \<Rightarrow> start_options \<Rightarrow> fb_options" where
  "server_options tls_support opts =
    \<lparr>line_port = int (port (start_settings opts)), http_port = int (AppState.http_port (start_settings opts)),
     https_port = (if tls_support then int (AppState.https_port (start_settings opts)) else 0), opt_greeting = [], opt_name = Some ''pianod'',
     serve_directory = client_location opts, opt_mode = GREETING_ALLOW, transfer_only = False, opt_parent = None\<rparr>"

definition init_server :: "bool \<Rightarrow> start_options \<Rightarrow> socket_results \<Rightarrow> football \<Rightarrow> (nat option \<times> football) option" where
  "init_server tls_support opts results W = fb_create_service (server_options tls_support opts) None results W"

record start_env =
  env_accounts :: accounts
  env_process :: process
  env_getenv :: "string \<Rightarrow> string option"
  env_sysconfdir :: string
  env_is_directory :: "string \<Rightarrow> bool"
  env_permits :: "id_call \<Rightarrow> bool"
  env_gnutls :: bool
  env_piano :: int
  env_tls_support :: bool
  env_listen :: socket_results
  env_open :: "string \<Rightarrow> (nat \<times> bytes) option"

text \<open>
  How far main gets: it exits, or it goes to its end, with the user file written on the way or not, or it reaches its loop; the loop is
  the one of the server alone with \<open>-S\<close>.  The process that does the rest, the service and the event of the start script are kept.
\<close>

datatype startup =
    Exits int
  | Gives_up
  | Shuts_down process start_options football
  | Runs process start_options nat "io_event option" football

definition start_service :: "start_env \<Rightarrow> start_options \<Rightarrow> identity option \<Rightarrow> football \<Rightarrow> startup option" where
  "start_service env opts ident W = do {
    (s, W) \<leftarrow> init_server (env_tls_support env) opts (env_listen env) W;
    (case s of
        None \<Rightarrow> Some (Shuts_down (env_process env) opts W)
      | Some s \<Rightarrow> do {
          (script, W) \<leftarrow> fb_accept_file s (startscript opts) (env_open env (startscript opts)) W;
          (case drop_root_privs (env_permits env) ident (env_process env) of
              Inl status \<Rightarrow> Some (Exits status)
            | Inr pr \<Rightarrow> Some (Runs pr opts s script W))
        })
  }"

definition main :: "start_env \<Rightarrow> (char \<times> string) list \<Rightarrow> football \<Rightarrow> startup option" where
  "main env args W =
    (case parse_options (env_is_directory env) args
         (default_options (env_getenv env) (running_as_root (env_process env)) (env_sysconfdir env)) of
        Inl status \<Rightarrow> Some (Exits status)
      | Inr opts \<Rightarrow> do {
          selected \<leftarrow> select_nobody_user (env_accounts env) (env_process env) (nobody opts) (nobody_groups opts);
          (case selected of
              Inl status \<Rightarrow> Some (Exits status)
            | Inr ident \<Rightarrow>
                if initialize_libraries (env_gnutls env) (env_piano env) (start_settings opts) = None then Some Gives_up
                else if init_parser = None then Some (Shuts_down (env_process env) opts W)
                else start_service env opts ident W)
        })"

section \<open>Properties\<close>

text \<open>The groups of an account are found when there are at most thirty; with more, the memory is overrun.\<close>

lemma group_loop_result: "group_loop groups 0 0 = (if length groups \<le> 30 then Some groups else None)"
  by (subst group_loop.simps, subst group_loop.simps) (simp add: Let_def)

definition wanted_groups :: "accounts \<Rightarrow> start_options \<Rightarrow> passwd \<Rightarrow> nat list" where
  "wanted_groups acc opts user = (case nobody_groups opts of
      Some gs \<Rightarrow> List.map_filter (getgrnam acc) (strtok_words (CHR '','') gs)
    | None \<Rightarrow> getgrouplist acc (nobody opts) (pw_gid user))"

lemma selected_identity:
  assumes "select_nobody_user acc pr (nobody opts) (nobody_groups opts) = Some (Inr ident)"
  shows "if running_as_root pr then \<exists>user. getpwnam acc (nobody opts) = Some user \<and> ident = Some (user, wanted_groups acc opts user) else ident = None"
  using assms by (auto simp: select_nobody_user_def group_loop_result wanted_groups_def split: if_splits option.splits)

lemma dropped:
  assumes "drop_root_privs permits (Some (user, groups)) pr = Inr pr'"
  shows "pr' = pr\<lparr>p_uid := pw_uid user, p_gid := pw_gid user, p_groups := groups\<rparr>"
  using assms by (auto simp: drop_root_privs_def id_step_def split: if_splits)

lemma start_service_runs:
  assumes "start_service env opts' ident W = Some (Runs pr opts s script W')"
  obtains W1 where "opts = opts'" "fb_create_service (server_options (env_tls_support env) opts) None (env_listen env) W = Some (Some s, W1)"
    "fb_accept_file s (startscript opts) (env_open env (startscript opts)) W1 = Some (script, W')"
    "drop_root_privs (env_permits env) ident (env_process env) = Inr pr"
proof -
  obtain s' W1 where create: "init_server (env_tls_support env) opts' (env_listen env) W = Some (Some s', W1)"
    using assms by (auto simp: start_service_def bind_eq_Some_conv split: option.splits)
  then obtain script' W2 where accept: "fb_accept_file s' (startscript opts') (env_open env (startscript opts')) W1 = Some (script', W2)"
    using assms by (cases "fb_accept_file s' (startscript opts') (env_open env (startscript opts')) W1") (auto simp: start_service_def)
  show thesis
  proof (cases "drop_root_privs (env_permits env) ident (env_process env)")
    case (Inl r)
    then show ?thesis using assms create accept by (simp add: start_service_def)
  next
    case (Inr pr')
    then show ?thesis using assms create accept that by (simp add: start_service_def init_server_def)
  qed
qed

lemma main_runs:
  assumes "main env args W = Some (Runs pr opts s script W')"
  obtains ident W1 where
    "select_nobody_user (env_accounts env) (env_process env) (nobody opts) (nobody_groups opts) = Some (Inr ident)"
    "fb_create_service (server_options (env_tls_support env) opts) None (env_listen env) W = Some (Some s, W1)"
    "fb_accept_file s (startscript opts) (env_open env (startscript opts)) W1 = Some (script, W')"
    "drop_root_privs (env_permits env) ident (env_process env) = Inr pr"
proof -
  let ?parsed = "parse_options (env_is_directory env) args
      (default_options (env_getenv env) (running_as_root (env_process env)) (env_sysconfdir env))"
  obtain opts' where opts: "?parsed = Inr opts'"
    using assms by (cases ?parsed) (simp_all add: main_def)
  obtain sel where sel: "select_nobody_user (env_accounts env) (env_process env) (nobody opts') (nobody_groups opts') = Some sel"
    using assms by (auto simp: main_def opts bind_eq_Some_conv)
  then obtain ident where ident: "sel = Inr ident" using assms by (cases sel) (auto simp: main_def opts)
  then have "start_service env opts' ident W = Some (Runs pr opts s script W')"
    using sel assms by (auto simp: main_def opts split: if_splits)
  then show thesis using sel ident that by (elim start_service_runs) blast
qed

text \<open>
  C8: The daemon never serves anybody as root: when it was started by root and gets as far as its loop, then the account exists, and the
  process has the user, the group and exactly the supplementary groups of that account, or those named with -g; none of root's
  groups is left.  When it was not started by root, its identity is unchanged.
\<close>

theorem serves_as_nobody:
  assumes "main env args W = Some (Runs pr opts s script W')"
  shows "if running_as_root (env_process env)
    then \<exists>user. getpwnam (env_accounts env) (nobody opts) = Some user
      \<and> p_uid pr = pw_uid user \<and> p_gid pr = pw_gid user \<and> p_groups pr = wanted_groups (env_accounts env) opts user
    else pr = env_process env"
proof -
  obtain ident where ident: "select_nobody_user (env_accounts env) (env_process env) (nobody opts) (nobody_groups opts) = Some (Inr ident)"
    and drop: "drop_root_privs (env_permits env) ident (env_process env) = Inr pr"
    by (rule main_runs [OF assms]) blast
  show ?thesis
  proof (cases "running_as_root (env_process env)")
    case True
    then obtain user where user: "getpwnam (env_accounts env) (nobody opts) = Some user" "ident = Some (user, wanted_groups (env_accounts env) opts user)"
      using selected_identity [OF ident] by auto
    from dropped [OF drop [unfolded user(2)]] show ?thesis using True user(1) by simp
  next
    case False
    then show ?thesis using selected_identity [OF ident] drop by (simp add: drop_root_privs_def)
  qed
qed

definition root_env :: start_env where
  "root_env = \<lparr>env_accounts = \<lparr>getpwnam = [''nobody'' \<mapsto> \<lparr>pw_uid = 99, pw_gid = 98\<rparr>], getgrnam = [''audio'' \<mapsto> 63], getgrouplist = (\<lambda>_ g. [g])\<rparr>,
    env_process = \<lparr>p_uid = 0, p_gid = 0, p_groups = [0, 1]\<rparr>, env_getenv = Map.empty, env_sysconfdir = ''/etc'', env_is_directory = (\<lambda>_. False),
    env_permits = (\<lambda>_. True), env_gnutls = True, env_piano = PIANO_RET_OK, env_tls_support = True, env_listen = demo_sockets,
    env_open = Map.empty\<rparr>"

lemma root_env_starts:
  "\<exists>pr opts s script W. main root_env [(CHR ''g'', ''video,audio'')] no_football = Some (Runs pr opts s script W)
    \<and> nobody opts = ''nobody'' \<and> nobody_groups opts = Some ''video,audio''"
  using init_parser_accepts
  by (simp add: main_def parse_options.simps apply_option_def default_options_def root_env_def running_as_root_def select_nobody_user_def
      initialize_libraries_def start_service_def init_server_def server_options_def settings_initialize_def
      fb_create_service_def parent_ok_def kept_options_def socket_ids_def fb_setup_socket_def settings_get_config_dir_def snprintf_def
      demo_sockets_def socket_port_def fb_http_socket_def fb_encrypted_socket_def no_football_def put_service_def
      fb_register_def FD_SETSIZE_def registry_size_def set_reading_def link_child_def fb_accept_file_def drop_root_privs_def id_step_def)

theorem serves_as_nobody_witness:
  "\<exists>pr opts s script W. main root_env [(CHR ''g'', ''video,audio'')] no_football = Some (Runs pr opts s script W)
    \<and> p_uid pr = 99 \<and> p_gid pr = 98 \<and> p_groups pr = [63]"
proof -
  obtain pr opts s script W where run: "main root_env [(CHR ''g'', ''video,audio'')] no_football = Some (Runs pr opts s script W)"
    and opts: "nobody opts = ''nobody''" "nobody_groups opts = Some ''video,audio''"
    using root_env_starts by blast
  have "List.map_filter (getgrnam (env_accounts root_env)) (strtok_words (CHR '','') ''video,audio'') = [63]"
    by (simp add: strtok_words_def root_env_def List.map_filter_def)
  then show ?thesis using serves_as_nobody [OF run] run opts
    by (auto simp: root_env_def running_as_root_def wanted_groups_def)
qed

text \<open>The state of libfootball in which the loop starts is one that its invariant holds for.\<close>

lemma main_reachable: "fb_reachable W \<Longrightarrow> main env args W = Some (Runs pr opts s script W') \<Longrightarrow> fb_reachable W'"
  by (elim main_runs) (blast intro: fb_reachable.intros)

section \<open>Ports\<close>

definition plain_args :: "(char \<times> string) list \<Rightarrow> bool" where
  "plain_args args = (\<forall>(f, a) \<in> set args. f \<noteq> CHR ''P'' \<and> f \<noteq> CHR ''s'' \<and> (f = CHR ''p'' \<longrightarrow> 1 \<le> atoi a \<and> atoi a \<le> 65533))"

definition in_a_row :: "settings \<Rightarrow> bool" where
  "in_a_row st = (AppState.http_port st = port st + 1 \<and> AppState.https_port st = port st + 2)"

lemma option_p_row:
  assumes "in_a_row st" "1 \<le> v" "v \<le> 65533"
  shows "in_a_row (option_p v st)" "port (option_p v st) = nat v"
  using assms by (auto simp: in_a_row_def option_p_def in_port_def Let_def nat_add_distrib)

lemma apply_option_row:
  assumes "apply_option d (f, a) opts = Inr opts'" "in_a_row (start_settings opts)" "plain_args [(f, a)]"
  shows "in_a_row (start_settings opts') \<and> port (start_settings opts') = (if f = CHR ''p'' then nat (atoi a) else port (start_settings opts))"
proof (cases "f = CHR ''p''")
  case True
  then have "opts' = on_start (option_p (atoi a)) opts" using assms(1) by (simp add: apply_option_def)
  then show ?thesis using option_p_row [OF assms(2)] assms(3) True by (simp add: on_start_def plain_args_def)
next
  case False
  then show ?thesis using assms by (auto simp: apply_option_def plain_args_def on_start_def in_a_row_def Let_def split: if_splits)
qed

definition last_port :: "nat \<Rightarrow> (char \<times> string) list \<Rightarrow> nat" where
  "last_port p args = foldl (\<lambda>p (f, a). if f = CHR ''p'' then nat (atoi a) else p) p args"

lemma parse_options_row:
  "parse_options d args opts = Inr opts' \<Longrightarrow> in_a_row (start_settings opts) \<Longrightarrow> plain_args args \<Longrightarrow>
    in_a_row (start_settings opts') \<and> port (start_settings opts') = last_port (port (start_settings opts)) args"
proof (induction args arbitrary: opts)
  case Nil
  then show ?case by (simp add: last_port_def)
next
  case (Cons x args)
  obtain f a where x: "x = (f, a)" by (cases x)
  obtain mid where mid: "apply_option d (f, a) opts = Inr mid" "parse_options d args mid = Inr opts'"
    using Cons.prems(1) by (auto simp: x split: sum.splits)
  have "plain_args [(f, a)]" "plain_args args" using Cons.prems(3) by (auto simp: plain_args_def x)
  then show ?case using apply_option_row [OF mid(1) Cons.prems(2)] Cons.IH [OF mid(2)] by (simp add: last_port_def x)
qed

text \<open>
  Unless -P or -s say otherwise, the three ports stay in a row: after any options with valid ports, the port for lines is that of the
  last -p, or 4445, the one for HTTP follows it and the one for HTTPS follows that; and these are the ports the service is created with.
\<close>

theorem ports_in_a_row:
  assumes "parse_options is_directory args (default_options getenv as_root sysconfdir) = Inr opts" "plain_args args"
  shows "line_port (server_options True opts) = int (last_port 4445 args)
    \<and> FbRequest.http_port (server_options True opts) = int (last_port 4445 args) + 1
    \<and> FbRequest.https_port (server_options True opts) = int (last_port 4445 args) + 2"
proof -
  have "in_a_row (start_settings (default_options getenv as_root sysconfdir))" "port (start_settings (default_options getenv as_root sysconfdir)) = 4445"
    by (simp_all add: default_options_def settings_initialize_def in_a_row_def)
  with parse_options_row [OF assms(1) _ assms(2)] show ?thesis by (simp add: server_options_def in_a_row_def)
qed

lemma atoi_8080: "atoi ''8080'' = 8080"
  by code_simp

theorem ports_in_a_row_witness:
  "\<exists>opts. parse_options (\<lambda>_. False) [(CHR ''c'', ''/www''), (CHR ''p'', ''8080'')] (default_options Map.empty False ''/etc'') = Inr opts
    \<and> FbRequest.https_port (server_options True opts) = 8082"
proof -
  obtain opts where run: "parse_options (\<lambda>_. False) [(CHR ''c'', ''/www''), (CHR ''p'', ''8080'')] (default_options Map.empty False ''/etc'') = Inr opts"
    by (simp add: apply_option_def)
  have "plain_args [(CHR ''c'', ''/www''), (CHR ''p'', ''8080'')]" by (simp add: plain_args_def atoi_8080)
  then show ?thesis using ports_in_a_row [OF run] run by (simp add: last_port_def atoi_8080)
qed

section \<open>The owner of the user file\<close>

lemma user_file_given_away:
  assumes "case owners f of Some info \<Rightarrow> st_uid info \<noteq> pw_gid user | None \<Rightarrow> True"
  shows "precreate_file (True, True, True) (Some (user, gs)) f owners f = Some \<lparr>st_uid = pw_uid user, st_gid = pw_gid user, st_private = True\<rparr>"
  using assms by (auto simp: precreate_file_def Let_def split: option.splits)

lemma user_file_kept_by_stranger:
  "owners f = Some info \<Longrightarrow> st_uid info = pw_gid user \<Longrightarrow> precreate_file (True, True, True) (Some (user, gs)) f owners f = Some info"
  by (simp add: precreate_file_def Let_def)

text \<open>Naming a user file switches the log off.\<close>

lemma user_file_option_sets_logging:
  "apply_option d (CHR ''u'', ''/etc/passwd'') opts = Inr opts' \<Longrightarrow> fst (start_logging opts') = 0"
  by (auto simp: apply_option_def on_start_def logging_option_def strtol_def strip_sign_def strip_prefix_def is_space_def digit_value_def Let_def)

end
