(* ===== verification/Spec2Isabelle.thy ===== *)
theory Spec2Isabelle
  imports EzxmlProofs Invariant PlayerFetch Id3Tags Startup
begin

text \<open>
  pianod is a music daemon: it plays Pandora stations on behalf of the clients that connect to it.  This library models the C
  sources under \<open>src/src/\<close> and proves what makes them correct.

  \<^bold>\<open>How the program works.\<close>  The main loop (\<open>pianod.c\<close>) starts a song when none plays, cleans up when the player's
  thread has finished, retries logins, and hands the lines that clients send to \<open>execute_command\<close> (\<open>command.c\<close>).  The
  lines are split into words and looked up in a tree of keywords (\<open>libfootball/fb_parser.c\<close>); commands check rank and privileges of
  the user (\<open>users.c\<close>), talk to Pandora through \<open>support.c\<close>, \<open>libpiano\<close> and \<open>libwaitress\<close>, rate songs and manage seeds
  (\<open>seeds.c\<close>), rate stations and recompute the mix (\<open>tuner.c\<close>), and answer with numbered lines (\<open>response.c\<close>).  Users,
  their ratings and their encrypted Pandora passwords are kept in an XML file.

  \<^bold>\<open>Conventions.\<close>  The state of the daemon is the record \<open>appstate\<close> (\<open>APPSTATE\<close> of \<open>pianod.h\<close>); an operation takes it last and
  returns it updated.  \<open>None\<close> as the result of an operation stands for a failed assertion, a NULL pointer that is followed, memory
  written out of bounds, or a server that is asked again for ever; the lemmas say when this does not happen.  What the outside
  world answers (Pandora, the random numbers, the audio devices, the file system) is the record \<open>world\<close>, a parameter indexed by the
  number of the question; nothing is assumed of it except where a theorem says so.  Enumerations with values are \<open>int\<close>
  abbreviations with the values of the headers.  Integers are \<open>int\<close> or \<open>nat\<close> where the code's checks keep them in range and words where
  they wrap (CRC, cipher, base64, sizes of chunks); \<open>strtol\<close> and \<open>atoi\<close> have their 64 and 32 bits, \<open>strtod\<close> gives the nearest double.  Lists linked
  through pointers are HOL lists; a pointer to a song or a user that lives across an operation is a reference (\<open>song_ref\<close>, \<open>user_ref\<close>).

  \<^bold>\<open>Theories.\<close>
  \<^item> \<open>Prelude\<close>: bytes and characters, \<open>strcmp\<close> and \<open>strcasecmp\<close> as orders, \<open>bsearch\<close>, numbers as text, weakest preconditions of
    operations that may fail; the locales of the library.
  \<^item> \<open>LamerCipher\<close> (\<open>lamercipher.c\<close>), \<open>ThreadQueue\<close> (\<open>threadqueue.c\<close>): the cipher of remembered passwords, the queue between threads.
  \<^item> \<open>Waitress\<close>, \<open>WaitressHttp\<close>, \<open>WaitressHttpProofs\<close> (\<open>libwaitress/waitress.c\<close>): URLs and encodings; the HTTP client, with the outcome of
    each connect, write and read as data; that a response is received whole however it is cut up, and what happens to bytes behind it.
  \<^item> \<open>Piano\<close>, \<open>PianoRpc\<close> (\<open>libpiano\<close>, \<open>pianoextra.c\<close>): stations and songs, the requests and what their answers change.
  \<^item> \<open>Response\<close>, \<open>Report\<close> (\<open>response.c\<close>, \<open>event.c\<close>): connections, replies, waiting for events, reports of songs.
  \<^item> \<open>Users\<close>, \<open>UserFile\<close>, \<open>UserFileProofs\<close> (\<open>users.c\<close>): accounts, ranks, privileges, credentials; the user file, written through
    a stream of the C library with its buffer, that it is read back as it was written, and when it is replaced safely.
  \<^item> \<open>Ezxml\<close>, \<open>EzxmlProofs\<close> (\<open>libezxml/ezxml.c\<close>): the XML parser, with its document types and references; that it reads every document of the
    grammar of \<open>UserFileProofs\<close> as the tree the grammar gives it, and that the users come back from the bytes of the file.
  \<^item> \<open>AppState\<close>, \<open>Support\<close> (\<open>pianod.h\<close>, \<open>support.c\<close>): the state; calls to Pandora, playlist, history, station list, login, skips.
  \<^item> \<open>Tuner\<close>, \<open>Autotune\<close> (\<open>tuner.c\<close>): ratings of stations, the three algorithms of the autotuner.
  \<^item> \<open>Seeds\<close>, \<open>SeedCommands\<close> (\<open>seeds.c\<close>), \<open>Query\<close> (\<open>query.c\<close>), \<open>Settings\<close> (\<open>settings.c\<close>).
  \<^item> \<open>FbArgv\<close>, \<open>Strtod\<close>, \<open>FbParser\<close>, \<open>FbParserProofs\<close> (\<open>libfootball/fb_utility.c\<close>, \<open>fb_parser.c\<close>): words of a command line, the
    C library's reading of reals, the tree of the parser, and its equivalence with matching every pattern.
  \<^item> \<open>Sha1\<close> (\<open>libfootball/sha1.c\<close>): the digest, and its agreement with FIPS 180.
  \<^item> \<open>FbMessage\<close>, \<open>FbConnection\<close>, \<open>FbOutput\<close>, \<open>FbChannel\<close>, \<open>FbPrinting\<close> (\<open>libfootball/fb_message.c\<close>, \<open>fb_event.c\<close>, \<open>fb_http.c\<close>):
    message blocks with use counts and the queues of a connection; sending; websocket packets; that what is printed arrives in order.
  \<^item> \<open>FbRequest\<close>, \<open>FbRequestProofs\<close> (\<open>fb_http.c\<close>): HTTP requests, the files served and the websocket handshake.
  \<^item> \<open>FbInput\<close>, \<open>FbInputProofs\<close>, \<open>FbLines\<close> (\<open>fb_event.c\<close>, \<open>fb_http.c\<close>): input of lines and of masked websocket packets; that lines come
    out one by one however their bytes arrive.
  \<^item> \<open>FbService\<close>, \<open>FbSocketmgr\<close> (\<open>fb_service.c\<close>, \<open>fb_socketmgr.c\<close>, \<open>fb_event.c\<close>): services and connections in one state \<open>football\<close>, with the
    registry of sockets; the state machine of a connection's input, events, polling, reaping.
  \<^item> \<open>FbCounts\<close>, \<open>FbWorld\<close>, \<open>FbReachable\<close>: the invariant \<open>world_ok\<close> of that state, which every operation keeps, so that it holds in all
    states of the step relation \<open>fb_reachable\<close>; \<open>FbBroadcast\<close>, \<open>FbLibrary\<close>: what a broadcast does to each queue; the properties of the whole.
  \<^item> \<open>CommandCodes\<close>, \<open>CommandTables\<close>, \<open>Commands\<close>, \<open>Execute\<close>, \<open>Admin\<close>, \<open>CommandProofs\<close>, \<open>CommandParser\<close> (\<open>command.c\<close>): the tables of
    statements, every command, \<open>execute_command\<close> as a row of stages; rights; what the parser does with the program's own tables.
  \<^item> \<open>Pianod\<close>, \<open>Invariant\<close> (\<open>pianod.c\<close>): the main loop; the invariant of everything the program does.
  \<^item> \<open>Startup\<close> (\<open>pianod.c\<close>, \<open>settings.c\<close>): options, the account the daemon runs with, \<open>main\<close> up to the loop with the service it creates in
    \<open>football\<close>; that root is given up completely before anything is served.
  \<^item> \<open>Shoutcast\<close> (\<open>shoutcast.c\<close>): the pool of buffers and the thread that streams what the player queues, as events in any order; that all of it
    is streamed in order.
  \<^item> \<open>Player\<close>, \<open>PlayerProofs\<close>, \<open>PlayerFetch\<close> (\<open>player.c\<close>): the thread that plays a song, with the AAC and MP3 callbacks on the blocks of the
    HTTP client and the decoders as functions of what they were given; that the AAC decoder gets exactly the frames of the stream's table, and
    that a song whose connection breaks off any number of times still reaches it whole.
  \<^item> \<open>Id3Tags\<close> (\<open>id3tags.c\<close>, \<open>player.c\<close>): the tag of a captured file, opening the file, and that a captured song is
    complete, with the values of every frame of its tag.

  \<^bold>\<open>What the lemmas show.\<close>  Each theory proves its component's contract: round trips of encoders and files, refinement of the abstract
  store or queue (through the locales \<open>keyed_store\<close>, \<open>fifo\<close>, \<open>registry\<close>, \<open>self_inverse_cipher\<close> and \<open>channel\<close>, interpreted on the code's operations),
  frames of the calls to Pandora (\<open>pandora_frame\<close>), invariants, and the behaviour of the commands on their error paths.  The
  theorems whose text begins with C and a number are the properties; those with premises are followed by a witness, which applies them
  to a concrete state.

  \<^bold>\<open>Bounds and termination.\<close>  No fuel is used.  Loops over lists are structural; the insertion and search loops, the loops over lines, chunks
  and reads of the HTTP client, and commands that run a command have a measure; \<open>bar_ui_piano_call\<close> may go on for ever, when a server
  rejects each new token, and is a \<open>partial_function\<close>, with a theorem on when it returns; so are the loops that send a queue, assemble a
  websocket packet and read a line, whose theorems show that they return (a line needs a call of recv that brings nothing or an end).
  The loops of \<open>fb_service.c\<close> and \<open>fb_socketmgr.c\<close> that follow pointers between services, call select again or poll again (\<open>find_related\<close>,
  \<open>orphan\<close>, \<open>call_select\<close>, \<open>search_ready\<close>, \<open>fb_poll_for\<close>) and the request that HELO transfers (\<open>fb_execute_http_request\<close>) are partial functions
  too; what is proved of them (the invariant) is about the calls that return, because select may be interrupted for ever.
  A player that is paused may wait for ever: \<open>BarPlayerCheckPauseQuit\<close>, \<open>play_frames\<close>, \<open>mp3_loop\<close> and \<open>player_fetch\<close> are partial
  functions, and a theorem says exactly when the AAC callback returns while nobody pauses.  The loops of the XML parser that follow references and nested
  document types are partial functions as well; on the user file they return.

  \<^bold>\<open>Not modelled.\<close>  The libraries that are not part of the sources: faad, mpg123 and libao (\<open>player.c\<close>), libshout (\<open>shoutcast.c\<close>),
  libid3tag (\<open>id3tags.c\<close>), libgcrypt (\<open>libpiano/crypt.c\<close>, which only calls it) and TLS; what the code calls of them is data or a parameter.
  JSON is modelled on the values its parser yields.  Log lines and the usage text are left out, signal handlers are an input of the loop, and
  functions that only free memory have no effect.  The functions of \<open>libezxml\<close> that write or edit XML are not called by the daemon.
\<close>

end
